(* ===== verification/Prelude.thy ===== *)
theory Prelude
  imports
    Main
    "HOL-Library.AList"
    "HOL-Library.Word"
    "HOL-Library.Product_Lexorder"
    "HOL-Library.List_Lexorder"
    "HOL-Library.Char_ord"
begin

text \<open>
  What the component theories share: the names of the model's basic types, the few
  combinators for code that may throw, tables (a PostgreSQL table is the list of its rows,
  in insertion order) with the lemmas about conditional updates that every repository
  proof uses, and the arithmetic of JavaScript's \<open>Math.ceil\<close> on milliseconds.
\<close>

section \<open>Names of the basic types\<close>

text \<open>
  A \<open>time\<close> is an instant as an integer number of the component's clock unit:
  milliseconds for the API (a JavaScript \<open>Date\<close>), microseconds for the claim columns
  the worker reads (a PostgreSQL \<open>timestamptz(6)\<close>). Identifiers are the text of a UUID.
\<close>

type_synonym time = int
type_synonym uuid = string
type_synonym bytes = "8 word list"

named_theorems table_simps \<open>rewriting of conditional updates and counts on tables\<close>
named_theorems frame_simps \<open>what an operation leaves unchanged\<close>

section \<open>Code that may throw\<close>

text \<open>
  A computation over a state \<open>'s\<close> that may throw an exception \<open>'e\<close>. \<open>transaction\<close> is a
  database transaction: when its body throws, the state it started from is restored.
\<close>

type_synonym ('s, 'e, 'a) prog = "'s \<Rightarrow> ('e + 'a) \<times> 's"

definition returnE :: "'a \<Rightarrow> ('s, 'e, 'a) prog" where
  "returnE x = (\<lambda>s. (Inr x, s))"

definition throwE :: "'e \<Rightarrow> ('s, 'e, 'a) prog" where
  "throwE e = (\<lambda>s. (Inl e, s))"

definition bindE :: "('s, 'e, 'a) prog \<Rightarrow> ('a \<Rightarrow> ('s, 'e, 'b) prog) \<Rightarrow> ('s, 'e, 'b) prog" where
  "bindE m f = (\<lambda>s. case m s of (Inl e, s') \<Rightarrow> (Inl e, s') | (Inr x, s') \<Rightarrow> f x s')"

definition catchE :: "('s, 'e, 'a) prog \<Rightarrow> ('e \<Rightarrow> ('s, 'e, 'a) prog) \<Rightarrow> ('s, 'e, 'a) prog" where
  "catchE m h = (\<lambda>s. case m s of (Inl e, s') \<Rightarrow> h e s' | (Inr x, s') \<Rightarrow> (Inr x, s'))"

definition transaction :: "('s, 'e, 'a) prog \<Rightarrow> ('s, 'e, 'a) prog" where
  "transaction m = (\<lambda>s. case m s of (Inl e, _) \<Rightarrow> (Inl e, s) | (Inr x, s') \<Rightarrow> (Inr x, s'))"

lemma returnE_apply [simp]: "returnE x s = (Inr x, s)"
  by (simp add: returnE_def)

lemma throwE_apply [simp]: "throwE e s = (Inl e, s)"
  by (simp add: throwE_def)

lemma bindE_Inr: "m s = (Inr x, s') \<Longrightarrow> bindE m f s = f x s'"
  by (simp add: bindE_def)

lemma bindE_Inl: "m s = (Inl e, s') \<Longrightarrow> bindE m f s = (Inl e, s')"
  by (simp add: bindE_def)

lemma bindE_returnE [simp]: "bindE (returnE x) f = f x"
  by (rule ext) (simp add: bindE_def)

lemma bindE_throwE [simp]: "bindE (throwE e) f = throwE e"
  by (rule ext) (simp add: bindE_def)

lemma bindE_eq_Inr:
  "bindE m f s = (Inr y, s'') \<longleftrightarrow> (\<exists>x s'. m s = (Inr x, s') \<and> f x s' = (Inr y, s''))"
  by (auto simp: bindE_def split: prod.splits sum.splits)

lemma bindE_cases:
  assumes "bindE m f s = (r, s'')"
  obtains e where "m s = (Inl e, s'')" and "r = Inl e"
  | x s' where "m s = (Inr x, s')" and "f x s' = (r, s'')"
  using assms by (auto simp: bindE_def split: prod.splits sum.splits)

lemma transaction_eq_Inr [simp]: "transaction m s = (Inr x, s') \<longleftrightarrow> m s = (Inr x, s')"
  by (auto simp: transaction_def split: prod.splits sum.splits)

lemma transaction_Inl: "transaction m s = (Inl e, s') \<Longrightarrow> s' = s"
  by (auto simp: transaction_def split: prod.splits sum.splits)

section \<open>Tables\<close>

text \<open>
  \<open>update_where P f\<close> is \<open>UPDATE ... SET f WHERE P\<close> (Prisma's \<open>updateMany\<close>),
  \<open>count_where P\<close> the number of rows a condition selects.
\<close>

definition update_where :: "('r \<Rightarrow> bool) \<Rightarrow> ('r \<Rightarrow> 'r) \<Rightarrow> 'r list \<Rightarrow> 'r list" where
  "update_where P f rows = map (\<lambda>r. if P r then f r else r) rows"

definition count_where :: "('r \<Rightarrow> bool) \<Rightarrow> 'r list \<Rightarrow> nat" where
  "count_where P rows = length (filter P rows)"

lemma update_where_Nil [simp]: "update_where P f [] = []"
  by (simp add: update_where_def)

lemma update_where_Cons [simp]:
  "update_where P f (r # rows) = (if P r then f r else r) # update_where P f rows"
  by (simp add: update_where_def)

lemma update_where_append [simp]:
  "update_where P f (xs @ ys) = update_where P f xs @ update_where P f ys"
  by (simp add: update_where_def)

lemma length_update_where [simp]: "length (update_where P f rows) = length rows"
  by (simp add: update_where_def)

lemma set_update_where:
  "set (update_where P f rows) = {r \<in> set rows. \<not> P r} \<union> f ` {r \<in> set rows. P r}"
  by (auto simp: update_where_def image_iff)

lemma mem_update_whereE:
  assumes "r' \<in> set (update_where P f rows)"
  obtains r where "r \<in> set rows" and "r' = (if P r then f r else r)"
  using assms by (auto simp: update_where_def)

lemma map_update_where [table_simps]:
  assumes "\<And>r. P r \<Longrightarrow> g (f r) = g r"
  shows "map g (update_where P f rows) = map g rows"
  using assms by (induction rows) auto

lemma update_where_none: "\<forall>r \<in> set rows. \<not> P r \<Longrightarrow> update_where P f rows = rows"
  by (induction rows) auto

lemma filter_update_where_other:
  assumes "\<And>r. P r \<Longrightarrow> \<not> Q r \<and> \<not> Q (f r)"
  shows "filter Q (update_where P f rows) = filter Q rows"
  using assms by (induction rows) auto

lemma find_update_where:
  assumes "\<And>r. P r \<Longrightarrow> Q (f r) = Q r"
  shows "find Q (update_where P f rows)
    = map_option (\<lambda>r. if P r then f r else r) (find Q rows)"
  using assms by (induction rows) auto

lemma ball_update_where:
  "(\<forall>r \<in> set (update_where P f rows). Q r) \<longleftrightarrow> (\<forall>r \<in> set rows. if P r then Q (f r) else Q r)"
  by (induction rows) auto

lemma count_where_Nil [simp]: "count_where P [] = 0"
  by (simp add: count_where_def)

lemma count_where_Cons [simp]:
  "count_where P (r # rows) = (if P r then Suc (count_where P rows) else count_where P rows)"
  by (simp add: count_where_def)

lemma count_where_append [simp]: "count_where P (xs @ ys) = count_where P xs + count_where P ys"
  by (simp add: count_where_def)

lemma count_where_0_iff: "count_where P rows = 0 \<longleftrightarrow> (\<forall>r \<in> set rows. \<not> P r)"
  by (induction rows) auto

lemma count_where_pos_iff: "0 < count_where P rows \<longleftrightarrow> (\<exists>r \<in> set rows. P r)"
  by (induction rows) auto

text \<open>Keys: a unique column identifies its row.\<close>

lemma unique_key:
  "distinct (map k rows) \<Longrightarrow> r \<in> set rows \<Longrightarrow> r' \<in> set rows \<Longrightarrow> k r = k r' \<Longrightarrow> r = r'"
  by (induction rows) (auto simp: image_iff)

lemma count_where_key_le1: "distinct (map k rows) \<Longrightarrow> count_where (\<lambda>r. k r = x \<and> P r) rows \<le> 1"
proof (induction rows)
  case (Cons r rows)
  then have "count_where (\<lambda>r. k r = x \<and> P r) rows = 0" if "k r = x"
    using that Cons.prems by (auto simp: count_where_0_iff) (metis image_eqI)
  with Cons show ?case by auto
qed simp

lemma find_key:
  "distinct (map k rows) \<Longrightarrow> r \<in> set rows \<Longrightarrow> find (\<lambda>x. k x = k r) rows = Some r"
  by (induction rows) (auto simp: image_iff)

lemma find_SomeD: "find P xs = Some x \<Longrightarrow> x \<in> set xs \<and> P x"
  by (auto simp: find_Some_iff)

lemma find_NoneD: "find P xs = None \<Longrightarrow> x \<in> set xs \<Longrightarrow> \<not> P x"
  by (auto simp: find_None_iff)

section \<open>Rounding\<close>

text \<open>\<open>Math.ceil(x / 1000)\<close> for an integer number of milliseconds \<open>x\<close>.\<close>

definition ceil_seconds :: "int \<Rightarrow> int" where
  "ceil_seconds ms = - ((- ms) div 1000)"

lemma ceil_seconds_ge: "ms \<le> 1000 * ceil_seconds ms"
  unfolding ceil_seconds_def by linarith

lemma ceil_seconds_less: "1000 * ceil_seconds ms < ms + 1000"
  unfolding ceil_seconds_def by linarith

lemma ceil_seconds_pos: "0 < ms \<Longrightarrow> 1 \<le> ceil_seconds ms"
  using ceil_seconds_ge [of ms] by linarith

end
