(* ===== verification/Contracts.thy ===== *)
theory Contracts
  imports Prelude
begin

text \<open>
  The vocabulary every module shares: the enumerations of \<open>packages/contracts\<close> and of the
  database schema, the limits both applications agree on, the errors the code throws
  (\<open>HttpError\<close> and the other exception classes), and the audit entry. The Spanish texts of
  the errors are transliterated to ASCII; no definition looks at them.
\<close>

section \<open>Enumerations\<close>

datatype role = USER | PROFESSIONAL | ADMIN | SUPER_ADMIN

datatype user_status = ACTIVE | SUSPENDED

datatype session_revoked_reason =
    LOGOUT | LOGOUT_ALL | PASSWORD_RESET | PASSWORD_CHANGE | ROTATED | ROLE_CHANGE
  | ADMIN_REVOKE | EXPIRED

datatype case_type =
    TRAFFIC_CITATION | INFRACTION | PHOTO_ENFORCEMENT | TRANSPORT | NOTIFICATION
  | ADMINISTRATIVE_PROCEEDING | OTHER

datatype case_status =
    DRAFT | DOCUMENTS_PENDING | PRELIMINARY_ANALYSIS | PAYMENT_PENDING | PAID | LEGAL_REVIEW
  | DOCUMENT_PREPARATION | READY_TO_FILE | FILED | WAITING_RESPONSE | RESPONSE_RECEIVED
  | FOLLOW_UP | RESOLVED | CLOSED | CANCELLED

datatype document_file_type = PDF | JPEG | PNG

datatype document_status = UPLOADED | PENDING_SCAN | SCANNING | CLEAN | INFECTED | SCAN_FAILED

datatype document_ocr_status =
    NOT_STARTED | PENDING | PROCESSING | COMPLETED | FAILED | NOT_APPLICABLE | EXCLUDED

datatype api_error_code =
    VALIDATION_ERROR | UNAUTHENTICATED | INVALID_CREDENTIALS | INVALID_OR_EXPIRED_TOKEN
  | CSRF_INVALID | FORBIDDEN | NOT_FOUND | PAYLOAD_TOO_LARGE | RATE_LIMITED
  | SERVICE_UNAVAILABLE | INTERNAL_ERROR

text \<open>
  The enumerations the properties quantify over are instances of the library's class
  \<open>enum\<close>: a statement about every case status or every role is then decided by evaluation.
\<close>

instantiation role :: enum
begin

definition enum_role :: "role list" where
  "enum_role = [USER, PROFESSIONAL, ADMIN, SUPER_ADMIN]"

definition enum_all_role :: "(role \<Rightarrow> bool) \<Rightarrow> bool" where
  "enum_all_role P \<longleftrightarrow> (\<forall>x \<in> set enum_class.enum. P x)"

definition enum_ex_role :: "(role \<Rightarrow> bool) \<Rightarrow> bool" where
  "enum_ex_role P \<longleftrightarrow> (\<exists>x \<in> set enum_class.enum. P x)"

instance
proof
  have *: "x \<in> set (enum_class.enum :: role list)" for x
    by (cases x) (simp_all add: enum_role_def)
  show "(UNIV :: role set) = set enum_class.enum"
    using * by auto
  show "distinct (enum_class.enum :: role list)"
    by (simp add: enum_role_def)
  show "enum_class.enum_all P \<longleftrightarrow> Ball UNIV P" for P :: "role \<Rightarrow> bool"
    using * by (auto simp: enum_all_role_def)
  show "enum_class.enum_ex P \<longleftrightarrow> Bex UNIV P" for P :: "role \<Rightarrow> bool"
    using * by (auto simp: enum_ex_role_def)
qed

end

instantiation case_status :: enum
begin

definition enum_case_status :: "case_status list" where
  "enum_case_status =
    [DRAFT, DOCUMENTS_PENDING, PRELIMINARY_ANALYSIS, PAYMENT_PENDING, PAID, LEGAL_REVIEW,
     DOCUMENT_PREPARATION, READY_TO_FILE, FILED, WAITING_RESPONSE, RESPONSE_RECEIVED,
     FOLLOW_UP, RESOLVED, CLOSED, CANCELLED]"

definition enum_all_case_status :: "(case_status \<Rightarrow> bool) \<Rightarrow> bool" where
  "enum_all_case_status P \<longleftrightarrow> (\<forall>x \<in> set enum_class.enum. P x)"

definition enum_ex_case_status :: "(case_status \<Rightarrow> bool) \<Rightarrow> bool" where
  "enum_ex_case_status P \<longleftrightarrow> (\<exists>x \<in> set enum_class.enum. P x)"

instance
proof
  have *: "x \<in> set (enum_class.enum :: case_status list)" for x
    by (cases x) (simp_all add: enum_case_status_def)
  show "(UNIV :: case_status set) = set enum_class.enum"
    using * by auto
  show "distinct (enum_class.enum :: case_status list)"
    by (simp add: enum_case_status_def)
  show "enum_class.enum_all P \<longleftrightarrow> Ball UNIV P" for P :: "case_status \<Rightarrow> bool"
    using * by (auto simp: enum_all_case_status_def)
  show "enum_class.enum_ex P \<longleftrightarrow> Bex UNIV P" for P :: "case_status \<Rightarrow> bool"
    using * by (auto simp: enum_ex_case_status_def)
qed

end

lemma all_case_status: "(\<forall>x :: case_status. P x) \<longleftrightarrow> (\<forall>x \<in> set enum_class.enum. P x)"
  by (metis UNIV_I UNIV_enum)

section \<open>Limits\<close>

definition MIB :: int where
  "MIB = 1024 * 1024"

definition DOCUMENT_MAX_BYTES :: int where
  "DOCUMENT_MAX_BYTES = 10 * MIB"

definition DOCUMENT_QUOTA_BYTES :: int where
  "DOCUMENT_QUOTA_BYTES = 100 * MIB"

section \<open>Errors\<close>

record http_error =
  statusCode :: int
  code :: api_error_code
  message :: string
  details :: "(string \<times> string) list"
  headers :: "(string \<times> string) list"

definition http_error :: "int \<Rightarrow> api_error_code \<Rightarrow> string \<Rightarrow> http_error" where
  "http_error st c msg =
    \<lparr>statusCode = st, code = c, message = msg, details = [], headers = []\<rparr>"

text \<open>
  A database error as Prisma reports it: a known request error with its code and, for a raw
  query, the PostgreSQL code of its \<open>meta\<close>; or anything else.
\<close>

datatype prisma_error =
    KnownRequestError string "string option"
  | OtherDatabaseError string

datatype ocr_error_code =
    timeout | rate_limited | provider_unavailable | provider_error | unsupported_document
  | too_many_pages | invalid_response | object_missing | object_mismatch | storage_unavailable
  | text_store_unavailable | abandoned

datatype ocr_error_kind = transient | permanent

datatype exn =
    HttpError http_error
  | DuplicateEmailError
  | LoginAttemptUnavailableError
  | InvalidCaseTransitionError case_status case_status
  | PrismaError prisma_error
  | StorageObjectNotFoundError string
  | AntivirusError string
  | MetadataSanitizationError string
  | OcrProviderError ocr_error_kind ocr_error_code "int option"
  | Error string

definition notFound :: exn where
  "notFound = HttpError (http_error 404 NOT_FOUND ''Recurso no encontrado.'')"

definition unauthenticated :: exn where
  "unauthenticated = HttpError (http_error 401 UNAUTHENTICATED ''Se requiere autenticacion.'')"

text \<open>\<open>String(n)\<close> of a non-negative integer.\<close>

fun decimal :: "nat \<Rightarrow> string" where
  "decimal n = (if n < 10 then [char_of (48 + n)] else decimal (n div 10) @ [char_of (48 + n mod 10)])"

declare decimal.simps [simp del]

definition rateLimited :: "int \<Rightarrow> exn" where
  "rateLimited retryAfterSeconds =
    HttpError ((http_error 429 RATE_LIMITED ''Demasiadas solicitudes. Intentalo mas tarde.'')
      \<lparr>headers := [(''Retry-After'', decimal (nat retryAfterSeconds))]\<rparr>)"

definition serviceUnavailable :: exn where
  "serviceUnavailable =
    HttpError ((http_error 503 SERVICE_UNAVAILABLE
        ''Servicio no disponible temporalmente. Intentalo mas tarde.'')
      \<lparr>headers := [(''Retry-After'', ''1'')]\<rparr>)"

section \<open>Audit entries\<close>

datatype json = JStr string | JNum int | JNull

type_synonym json_object = "(string \<times> json) list"

record audit_entry =
  actorUserId :: "uuid option"
  actorRole :: "role option"
  action :: string
  entityType :: "string option"
  entityId :: "uuid option"
  caseId :: "uuid option"
  newValue :: "json_object option"
  metadata :: "json_object option"
  requestId :: "string option"
  ip :: "string option"
  userAgent :: "string option"

record request_context =
  ctx_ip :: "string option"
  ctx_userAgent :: "string option"
  ctx_requestId :: string

end
