(* ===== verification/Database.thy ===== *)
theory Database
  imports Contracts
begin

text \<open>
  The PostgreSQL database both applications share, as the code sees it: one list of rows per
  table, in insertion order, in one state record. The row types follow the \<open>*Record\<close>
  interfaces of the API modules and of the worker. Texts a user or an OCR engine supplies (a
  file name, a page) are JavaScript strings, lists of UTF-16 code units; every other string
  is ASCII.
\<close>

type_synonym js_text = "16 word list"

section \<open>Rows\<close>

record user_row =
  u_id :: uuid
  u_email :: string
  u_passwordHash :: string
  u_fullName :: string
  u_role :: role
  u_status :: user_status
  u_emailVerifiedAt :: "time option"
  u_createdAt :: time

record session_row =
  s_id :: uuid
  s_userId :: uuid
  s_tokenHash :: string
  s_csrfTokenHash :: string
  s_createdAt :: time
  s_lastSeenAt :: time
  s_idleExpiresAt :: time
  s_absoluteExpiresAt :: time
  s_revokedAt :: "time option"
  s_revokedReason :: "session_revoked_reason option"
  s_rotatedAt :: "time option"
  s_ip :: "string option"
  s_userAgent :: "string option"

text \<open>A row of \<open>email_verification_tokens\<close> or \<open>password_reset_tokens\<close>.\<close>

record token_row =
  t_userId :: uuid
  t_tokenHash :: string
  t_expiresAt :: time
  t_usedAt :: "time option"
  t_createdAt :: time

datatype email_outbox_kind =
    Kind_EMAIL_VERIFICATION | Kind_PASSWORD_RESET | Kind_PASSWORD_RESET_COMPLETED

record outbox_row =
  o_id :: uuid
  o_kind :: email_outbox_kind
  o_userId :: uuid
  o_createdAt :: time
  o_sentAt :: "time option"

record audit_row =
  a_entry :: audit_entry
  a_occurredAt :: time

record case_row =
  c_id :: uuid
  c_userId :: uuid
  c_type :: case_type
  c_status :: case_status
  c_createdAt :: time
  c_updatedAt :: time

record status_change_row =
  h_id :: uuid
  h_caseId :: uuid
  h_fromStatus :: "case_status option"
  h_toStatus :: case_status
  h_changedByUserId :: uuid
  h_changedAt :: time

record document_row =
  d_id :: uuid
  d_caseId :: uuid
  d_fileName :: js_text
  d_fileType :: document_file_type
  d_storageKey :: string
  d_fileSize :: int
  d_uploadedByUserId :: uuid
  d_createdAt :: time
  d_status :: document_status
  d_ocrStatus :: document_ocr_status
  d_scanAttempts :: int
  d_scanStartedAt :: "time option"
  d_scannedAt :: "time option"
  d_scanSignature :: "string option"
  d_sanitizedStorageKey :: "string option"
  d_ocrAttempts :: int
  d_ocrStartedAt :: "time option"

datatype ocr_outcome = Outcome_COMPLETED | Outcome_FAILED

datatype ocr_representation = ORIGINAL | SANITIZED

record ocr_result_row =
  r_id :: uuid
  r_documentId :: uuid
  r_outcome :: ocr_outcome
  r_engine :: string
  r_engineVersion :: "string option"
  r_representation :: "ocr_representation option"
  r_processedSha256 :: "string option"
  r_pages :: "int option"
  r_attempts :: int
  r_startedAt :: "time option"
  r_finishedAt :: time
  r_errorCode :: "ocr_error_code option"

record ocr_page_row =
  p_ocrResultId :: uuid
  p_pageNumber :: int
  p_text :: js_text

section \<open>Jobs\<close>

text \<open>
  A job sent to pg-boss inside a transaction: its queue, its payload (a document id, never more)
  and the seconds before it may start.
\<close>

datatype queue =
    DOCUMENT_SCAN_QUEUE | DOCUMENT_REPROCESS_QUEUE | DOCUMENT_OCR_QUEUE
  | DOCUMENT_OCR_REPROCESS_QUEUE

record job =
  j_queue :: queue
  j_documentId :: uuid
  j_startAfter :: int

section \<open>The database\<close>

record db =
  users :: "user_row list"
  sessions :: "session_row list"
  emailTokens :: "token_row list"
  resetTokens :: "token_row list"
  outbox :: "outbox_row list"
  auditLogs :: "audit_row list"
  cases :: "case_row list"
  caseHistory :: "status_change_row list"
  documents :: "document_row list"
  ocrResults :: "ocr_result_row list"
  ocrPages :: "ocr_page_row list"
  jobs :: "job list"

definition empty_db :: db where
  "empty_db = \<lparr>users = [], sessions = [], emailTokens = [], resetTokens = [], outbox = [],
    auditLogs = [], cases = [], caseHistory = [], documents = [], ocrResults = [],
    ocrPages = [], jobs = []\<rparr>"

type_synonym 'a tx = "(db, exn, 'a) prog"

text \<open>Prisma's errors for a unique violation and for a row that is not there.\<close>

definition P2002 :: exn where
  "P2002 = PrismaError (KnownRequestError ''P2002'' None)"

definition P2025 :: exn where
  "P2025 = PrismaError (KnownRequestError ''P2025'' None)"

text \<open>The newest of some instants: \<open>max(...)\<close> of an SQL aggregate, NULL on no row.\<close>

fun latest :: "time list \<Rightarrow> time option" where
  "latest [] = None"
| "latest (t # ts) = (case latest ts of None \<Rightarrow> Some t | Some m \<Rightarrow> Some (max t m))"

lemma latest_None_iff [simp]: "latest ts = None \<longleftrightarrow> ts = []"
  by (cases ts) (auto split: option.splits)

lemma latest_SomeD: "latest ts = Some m \<Longrightarrow> m \<in> set ts \<and> (\<forall>t \<in> set ts. t \<le> m)"
  by (induction ts arbitrary: m) (fastforce split: option.splits simp: max_def)+

text \<open>An audit row, and the row of an entry (\<open>auditLogData\<close> with its time).\<close>

definition auditLogData :: "audit_entry \<Rightarrow> audit_entry" where
  "auditLogData e =
    \<lparr>actorUserId = actorUserId e, actorRole = actorRole e, action = action e,
     entityType = entityType e, entityId = entityId e, caseId = caseId e,
     newValue = newValue e, metadata = metadata e, requestId = requestId e,
     ip = ip e, userAgent = userAgent e\<rparr>"

lemma auditLogData_id [simp]: "auditLogData e = e"
  by (simp add: auditLogData_def)

definition insert_audit :: "audit_entry \<Rightarrow> time \<Rightarrow> db \<Rightarrow> db" where
  "insert_audit e occurredAt d =
    d\<lparr>auditLogs := auditLogs d @ [\<lparr>a_entry = auditLogData e, a_occurredAt = occurredAt\<rparr>]\<rparr>"

definition insert_audit_opt :: "audit_entry option \<Rightarrow> time \<Rightarrow> db \<Rightarrow> db" where
  "insert_audit_opt e occurredAt d =
    (case e of None \<Rightarrow> d | Some e \<Rightarrow> insert_audit e occurredAt d)"

definition insert_outbox :: "uuid \<Rightarrow> email_outbox_kind \<Rightarrow> uuid \<Rightarrow> time \<Rightarrow> db \<Rightarrow> db" where
  "insert_outbox newId kind userId now d =
    d\<lparr>outbox := outbox d @ [\<lparr>o_id = newId, o_kind = kind, o_userId = userId,
       o_createdAt = now, o_sentAt = None\<rparr>]\<rparr>"

definition send_job :: "queue \<Rightarrow> uuid \<Rightarrow> int \<Rightarrow> db \<Rightarrow> db" where
  "send_job q documentId startAfter d =
    d\<lparr>jobs := jobs d @ [\<lparr>j_queue = q, j_documentId = documentId, j_startAfter = startAfter\<rparr>]\<rparr>"

lemma insert_audit_frame [frame_simps, simp]:
  "users (insert_audit e t d) = users d" "sessions (insert_audit e t d) = sessions d"
  "emailTokens (insert_audit e t d) = emailTokens d"
  "resetTokens (insert_audit e t d) = resetTokens d" "outbox (insert_audit e t d) = outbox d"
  "cases (insert_audit e t d) = cases d" "caseHistory (insert_audit e t d) = caseHistory d"
  "documents (insert_audit e t d) = documents d" "ocrResults (insert_audit e t d) = ocrResults d"
  "ocrPages (insert_audit e t d) = ocrPages d" "jobs (insert_audit e t d) = jobs d"
  "auditLogs (insert_audit e t d) = auditLogs d @ [\<lparr>a_entry = e, a_occurredAt = t\<rparr>]"
  by (simp_all add: insert_audit_def)

lemma insert_audit_opt_frame [frame_simps, simp]:
  "users (insert_audit_opt e t d) = users d" "sessions (insert_audit_opt e t d) = sessions d"
  "emailTokens (insert_audit_opt e t d) = emailTokens d"
  "resetTokens (insert_audit_opt e t d) = resetTokens d"
  "outbox (insert_audit_opt e t d) = outbox d" "cases (insert_audit_opt e t d) = cases d"
  "caseHistory (insert_audit_opt e t d) = caseHistory d"
  "documents (insert_audit_opt e t d) = documents d"
  "ocrResults (insert_audit_opt e t d) = ocrResults d"
  "ocrPages (insert_audit_opt e t d) = ocrPages d" "jobs (insert_audit_opt e t d) = jobs d"
  "auditLogs (insert_audit_opt e t d) = auditLogs d @
    (case e of None \<Rightarrow> [] | Some e \<Rightarrow> [\<lparr>a_entry = e, a_occurredAt = t\<rparr>])"
  by (simp_all add: insert_audit_opt_def split: option.splits)

lemma insert_outbox_frame [frame_simps, simp]:
  "users (insert_outbox i k u t d) = users d" "sessions (insert_outbox i k u t d) = sessions d"
  "emailTokens (insert_outbox i k u t d) = emailTokens d"
  "resetTokens (insert_outbox i k u t d) = resetTokens d"
  "auditLogs (insert_outbox i k u t d) = auditLogs d"
  "cases (insert_outbox i k u t d) = cases d"
  "documents (insert_outbox i k u t d) = documents d" "jobs (insert_outbox i k u t d) = jobs d"
  "outbox (insert_outbox i k u t d) = outbox d @ [\<lparr>o_id = i, o_kind = k, o_userId = u,
       o_createdAt = t, o_sentAt = None\<rparr>]"
  by (simp_all add: insert_outbox_def)

lemma send_job_frame [frame_simps, simp]:
  "users (send_job q i n d) = users d" "sessions (send_job q i n d) = sessions d"
  "auditLogs (send_job q i n d) = auditLogs d" "cases (send_job q i n d) = cases d"
  "caseHistory (send_job q i n d) = caseHistory d"
  "documents (send_job q i n d) = documents d" "ocrResults (send_job q i n d) = ocrResults d"
  "ocrPages (send_job q i n d) = ocrPages d"
  "jobs (send_job q i n d) = jobs d @ [\<lparr>j_queue = q, j_documentId = i, j_startAfter = n\<rparr>]"
  by (simp_all add: send_job_def)

text \<open>
  What an audit entry of a request carries: the request's context, with everything else
  absent until the caller fills it in.
\<close>

definition request_entry :: "request_context \<Rightarrow> string \<Rightarrow> audit_entry" where
  "request_entry ctx act =
    \<lparr>actorUserId = None, actorRole = None, action = act, entityType = None, entityId = None,
     caseId = None, newValue = None, metadata = None, requestId = Some (ctx_requestId ctx),
     ip = ctx_ip ctx, userAgent = ctx_userAgent ctx\<rparr>"

text \<open>The entry of an action the system takes: no actor and no request.\<close>

definition system_entry :: "string \<Rightarrow> uuid \<Rightarrow> uuid \<Rightarrow> json_object \<Rightarrow> audit_entry" where
  "system_entry act documentId case_id value =
    \<lparr>actorUserId = None, actorRole = None, action = act, entityType = Some ''Document'',
     entityId = Some documentId, caseId = Some case_id, newValue = Some value,
     metadata = None, requestId = None, ip = None, userAgent = None\<rparr>"

end
