(* ===== verification/Auth_Throttle.thy ===== *)
theory Auth_Throttle
  imports Contracts
begin

text \<open>
  The progressive delays of ADR-002: the per-account delay of a login
  (\<open>AuthService.remainingLoginDelayMs\<close>) and the one of the email flows
  (auth.email-settings.ts), with the values both use. Times are milliseconds. The interface
  \<open>progressive_delay\<close> states what a limit of this form promises; both functions provide it.
\<close>

section \<open>Values (auth.email-settings.ts, auth.service.ts)\<close>

definition MINUTE_MS :: int where "MINUTE_MS = 60 * 1000"

definition HOUR_MS :: int where "HOUR_MS = 60 * MINUTE_MS"

definition DAY_MS :: int where "DAY_MS = 24 * HOUR_MS"

definition EMAIL_VERIFICATION_TOKEN_TTL_MS :: int where
  "EMAIL_VERIFICATION_TOKEN_TTL_MS = 24 * HOUR_MS"

definition PASSWORD_RESET_TOKEN_TTL_MS :: int where
  "PASSWORD_RESET_TOKEN_TTL_MS = 30 * MINUTE_MS"

record ip_limit =
  ipl_max :: nat
  ipl_windowMs :: int

definition RESEND_IP_LIMIT :: ip_limit where
  "RESEND_IP_LIMIT = \<lparr>ipl_max = 5, ipl_windowMs = 10 * MINUTE_MS\<rparr>"

definition FORGOT_IP_LIMIT :: ip_limit where
  "FORGOT_IP_LIMIT = \<lparr>ipl_max = 5, ipl_windowMs = 10 * MINUTE_MS\<rparr>"

definition RESET_IP_LIMIT :: ip_limit where
  "RESET_IP_LIMIT = \<lparr>ipl_max = 5, ipl_windowMs = 10 * MINUTE_MS\<rparr>"

record delay_limit =
  free :: nat
  dl_windowMs :: int
  baseDelayMs :: int
  capDelayMs :: int

definition RESEND_ACCOUNT_LIMIT :: delay_limit where
  "RESEND_ACCOUNT_LIMIT = \<lparr>free = 3, dl_windowMs = 24 * HOUR_MS, baseDelayMs = 30 * 1000,
     capDelayMs = 15 * MINUTE_MS\<rparr>"

definition FORGOT_EMAIL_LIMIT :: delay_limit where
  "FORGOT_EMAIL_LIMIT = \<lparr>free = 3, dl_windowMs = 24 * HOUR_MS, baseDelayMs = 30 * 1000,
     capDelayMs = 15 * MINUTE_MS\<rparr>"

definition LOGIN_DELAY_BASE_MS :: int where "LOGIN_DELAY_BASE_MS = 30000"

definition LOGIN_DELAY_CAP_MS :: int where "LOGIN_DELAY_CAP_MS = 900000"

lemmas limit_values = MINUTE_MS_def HOUR_MS_def DAY_MS_def RESEND_IP_LIMIT_def
  FORGOT_IP_LIMIT_def RESET_IP_LIMIT_def RESEND_ACCOUNT_LIMIT_def FORGOT_EMAIL_LIMIT_def
  LOGIN_DELAY_BASE_MS_def LOGIN_DELAY_CAP_MS_def EMAIL_VERIFICATION_TOKEN_TTL_MS_def
  PASSWORD_RESET_TOKEN_TTL_MS_def

section \<open>The remaining delay\<close>

definition remainingProgressiveDelayMs ::
  "nat \<Rightarrow> time option \<Rightarrow> time \<Rightarrow> delay_limit \<Rightarrow> int" where
  "remainingProgressiveDelayMs cnt lastAt now limit =
    (case lastAt of
       None \<Rightarrow> 0
     | Some lst \<Rightarrow>
         if cnt < free limit then 0
         else lst + min (baseDelayMs limit * 2 ^ (cnt - free limit)) (capDelayMs limit) - now)"

text \<open>The first argument is \<open>accountLoginAttemptLimit\<close>, a field of the service.\<close>

definition remainingLoginDelayMs :: "nat \<Rightarrow> nat \<Rightarrow> time option \<Rightarrow> time \<Rightarrow> int" where
  "remainingLoginDelayMs limit failures lastFailureAt now =
    (case lastFailureAt of
       None \<Rightarrow> 0
     | Some lst \<Rightarrow>
         if failures < limit then 0
         else lst + min (LOGIN_DELAY_BASE_MS * 2 ^ (failures - limit)) LOGIN_DELAY_CAP_MS - now)"

text \<open>\<open>Math.max(1, Math.ceil(remainingMs / 1000))\<close>: the \<open>Retry-After\<close> of a refusal.\<close>

definition retry_after_seconds :: "int \<Rightarrow> int" where
  "retry_after_seconds remainingMs = max 1 (ceil_seconds remainingMs)"

section \<open>The interface of a progressive delay\<close>

text \<open>
  \<open>remaining cnt last now\<close> is what is still to wait. Below \<open>free_count\<close> events, or with no
  event at all, nothing; from there on the delay starts at \<open>base\<close> and doubles with every
  further event, up to \<open>cap\<close>.
\<close>

locale progressive_delay =
  fixes remaining :: "nat \<Rightarrow> time option \<Rightarrow> time \<Rightarrow> int"
    and free_count :: nat
    and base cap :: int
  assumes base_pos: "0 < base"
    and base_le_cap: "base \<le> cap"
    and no_event: "remaining cnt None now = 0"
    and below_free: "cnt < free_count \<Longrightarrow> remaining cnt (Some lst) now = 0"
    and doubling: "remaining (free_count + k) (Some lst) now = lst + min (base * 2 ^ k) cap - now"
begin

lemma at_free:
  assumes "free_count \<le> cnt"
  shows "remaining cnt (Some lst) now = lst + min (base * 2 ^ (cnt - free_count)) cap - now"
  using doubling [of "cnt - free_count"] assms by simp

lemma power_ge_base: "base \<le> base * 2 ^ k"
  using base_pos by (simp add: one_le_power)

lemma delay_bounds:
  assumes "free_count \<le> cnt"
  shows "lst + base - now \<le> remaining cnt (Some lst) now"
    and "remaining cnt (Some lst) now \<le> lst + cap - now"
  using at_free [OF assms] power_ge_base [of "cnt - free_count"] base_le_cap by (auto simp: min_def)

lemma delay_mono:
  assumes "free_count \<le> cnt" and "cnt \<le> cnt'"
  shows "remaining cnt (Some lst) now \<le> remaining cnt' (Some lst) now"
proof -
  have "base * 2 ^ (cnt - free_count) \<le> base * 2 ^ (cnt' - free_count)"
    using assms base_pos by (intro mult_left_mono power_increasing) auto
  then show ?thesis
    using assms by (simp add: at_free min_def)
qed

text \<open>An attempt the limit lets through at \<open>now\<close> is at least \<open>base\<close> after the last event.\<close>

lemma let_through_spaced:
  assumes "remaining cnt (Some lst) now \<le> 0" and "free_count \<le> cnt"
  shows "lst + base \<le> now"
  using delay_bounds(1) [OF assms(2), of lst now] assms(1) by linarith

text \<open>Once the delay has doubled up to the cap, the spacing is the cap.\<close>

lemma let_through_capped:
  assumes "remaining cnt (Some lst) now \<le> 0" and "free_count + k \<le> cnt" and "cap \<le> base * 2 ^ k"
  shows "lst + cap \<le> now"
proof -
  have "free_count \<le> cnt" using assms(2) by simp
  have "base * 2 ^ k \<le> base * 2 ^ (cnt - free_count)"
    using assms(2) base_pos by (intro mult_left_mono power_increasing) auto
  then show ?thesis
    using assms(1,3) at_free [OF \<open>free_count \<le> cnt\<close>, of lst now] by (simp add: min_def split: if_splits)
qed

text \<open>Waiting as long as a refusal says is enough, if nothing else happens meanwhile.\<close>

lemma retry_after_enough:
  assumes "0 < remaining cnt (Some lst) now"
    and "now + 1000 * retry_after_seconds (remaining cnt (Some lst) now) \<le> later"
  shows "remaining cnt (Some lst) later \<le> 0"
proof -
  have free: "free_count \<le> cnt"
    using assms(1) below_free [of cnt lst now] by (cases "cnt < free_count") auto
  have "remaining cnt (Some lst) later = remaining cnt (Some lst) now - (later - now)"
    by (simp add: at_free [OF free])
  moreover have "remaining cnt (Some lst) now
      \<le> 1000 * retry_after_seconds (remaining cnt (Some lst) now)"
    using ceil_seconds_ge [of "remaining cnt (Some lst) now"]
    unfolding retry_after_seconds_def by linarith
  ultimately show ?thesis using assms(2) by linarith
qed

end

interpretation resend_delay: progressive_delay
  "\<lambda>cnt last now. remainingProgressiveDelayMs cnt last now RESEND_ACCOUNT_LIMIT" 3 30000 900000
  by unfold_locales (simp_all add: remainingProgressiveDelayMs_def limit_values)

interpretation forgot_delay: progressive_delay
  "\<lambda>cnt last now. remainingProgressiveDelayMs cnt last now FORGOT_EMAIL_LIMIT" 3 30000 900000
  by unfold_locales (simp_all add: remainingProgressiveDelayMs_def limit_values)

interpretation login_delay: progressive_delay "remainingLoginDelayMs limit" limit 30000 900000
  for limit
  by unfold_locales (simp_all add: remainingLoginDelayMs_def limit_values)

end
