(* ===== verification/Auth_Repository.thy ===== *)
theory Auth_Repository
  imports Database Auth_Throttle
begin

text \<open>
  \<open>PrismaAuthRepository\<close> (apps/api/src/modules/auth/auth.repository.ts): one definition per
  method, each a transaction on the shared database. What PostgreSQL and the runtime supply is
  an argument: the instant \<open>clock_timestamp()\<close> or \<open>new Date()\<close> returns, the identifier
  \<open>gen_random_uuid()\<close> draws, and, for the three interactive transactions, the failure of the
  transaction itself, if any.
\<close>

section \<open>Lock keys\<close>

text \<open>
  \<open>Number.parseInt(emailHash.slice(0, 8), 16) | 0\<close>: the longest prefix of hexadecimal digits
  (none: NaN, and \<open>NaN | 0\<close> is 0), reduced to a signed 32-bit integer.
\<close>

definition hex_digit :: "char \<Rightarrow> nat option" where
  "hex_digit c = (let n = of_char c :: nat in
     if 48 \<le> n \<and> n \<le> 57 then Some (n - 48)
     else if 97 \<le> n \<and> n \<le> 102 then Some (n - 87)
     else if 65 \<le> n \<and> n \<le> 70 then Some (n - 55)
     else None)"

fun parse_hex :: "nat \<Rightarrow> string \<Rightarrow> nat" where
  "parse_hex acc [] = acc"
| "parse_hex acc (c # cs) =
    (case hex_digit c of None \<Rightarrow> acc | Some v \<Rightarrow> parse_hex (16 * acc + v) cs)"

definition loginLockKey :: "string \<Rightarrow> int" where
  "loginLockKey emailHash = sint (word_of_nat (parse_hex 0 (take 8 emailHash)) :: 32 word)"

section \<open>Users\<close>

definition findUserByEmail :: "string \<Rightarrow> db \<Rightarrow> user_row option" where
  "findUserByEmail email d = find (\<lambda>u. u_email u = email) (users d)"

definition findUserById :: "uuid \<Rightarrow> db \<Rightarrow> user_row option" where
  "findUserById i d = find (\<lambda>u. u_id u = i) (users d)"

record create_user_input =
  cu_email :: string
  cu_passwordHash :: string
  cu_fullName :: string

definition createUser :: "uuid \<Rightarrow> time \<Rightarrow> create_user_input \<Rightarrow> user_row tx" where
  "createUser newId now input = (\<lambda>d.
     if \<exists>u \<in> set (users d). u_email u = cu_email input \<or> u_id u = newId
     then (Inl DuplicateEmailError, d)
     else
       let u = \<lparr>u_id = newId, u_email = cu_email input, u_passwordHash = cu_passwordHash input,
                u_fullName = cu_fullName input, u_role = USER, u_status = ACTIVE,
                u_emailVerifiedAt = None, u_createdAt = now\<rparr>
       in (Inr u, d\<lparr>users := users d @ [u]\<rparr>))"

definition createUserWithEmailVerification ::
  "uuid \<Rightarrow> uuid \<Rightarrow> time \<Rightarrow> create_user_input \<Rightarrow> user_row tx" where
  "createUserWithEmailVerification newId outboxId now input =
     transaction
      (bindE (createUser newId now input)
        (\<lambda>u d. (Inr u, insert_outbox outboxId Kind_EMAIL_VERIFICATION (u_id u) now d)))"

section \<open>One-time tokens\<close>

text \<open>
  \<open>UPDATE ... SET used_at = now WHERE token_hash = h AND used_at IS NULL AND expires_at > now
  RETURNING user_id\<close>, the statement both token tables are consumed with.
\<close>

definition usable_token :: "time \<Rightarrow> string \<Rightarrow> token_row \<Rightarrow> bool" where
  "usable_token now h t \<longleftrightarrow> t_tokenHash t = h \<and> t_usedAt t = None \<and> now < t_expiresAt t"

definition use_token :: "time \<Rightarrow> string \<Rightarrow> token_row list \<Rightarrow> token_row list" where
  "use_token now h = update_where (usable_token now h) (\<lambda>t. t\<lparr>t_usedAt := Some now\<rparr>)"

definition consumeEmailVerificationToken ::
  "time \<Rightarrow> string \<Rightarrow> (user_row \<Rightarrow> audit_entry) option \<Rightarrow> uuid option tx" where
  "consumeEmailVerificationToken now tokenHash audit = transaction (\<lambda>d.
     case find (usable_token now tokenHash) (emailTokens d) of
       None \<Rightarrow> (Inr None, d)
     | Some token \<Rightarrow>
         let d = d\<lparr>emailTokens := use_token now tokenHash (emailTokens d)\<rparr>;
             d = d\<lparr>users := update_where
                   (\<lambda>u. u_id u = t_userId token \<and> u_emailVerifiedAt u = None)
                   (\<lambda>u. u\<lparr>u_emailVerifiedAt := Some now\<rparr>) (users d)\<rparr>
         in (case audit of
               None \<Rightarrow> (Inr (Some (t_userId token)), d)
             | Some build \<Rightarrow>
                 (case findUserById (t_userId token) d of
                    None \<Rightarrow> (Inl P2025, d)
                  | Some u \<Rightarrow> (Inr (Some (t_userId token)), insert_audit (build u) now d))))"

record reset_password_input =
  rp_tokenHash :: string
  rp_passwordHash :: string
  rp_audit :: "user_row \<Rightarrow> audit_entry"

definition resetPassword :: "time \<Rightarrow> uuid \<Rightarrow> reset_password_input \<Rightarrow> user_row option tx" where
  "resetPassword now outboxId input = transaction (\<lambda>d.
     case find (usable_token now (rp_tokenHash input)) (resetTokens d) of
       None \<Rightarrow> (Inr None, d)
     | Some token \<Rightarrow>
         let d = d\<lparr>resetTokens := use_token now (rp_tokenHash input) (resetTokens d)\<rparr>
         in case findUserById (t_userId token) d of
              None \<Rightarrow> (Inl P2025, d)
            | Some u0 \<Rightarrow>
                let u = u0\<lparr>u_passwordHash := rp_passwordHash input\<rparr>;
                    d = d\<lparr>users := update_where (\<lambda>r. u_id r = t_userId token)
                          (\<lambda>r. r\<lparr>u_passwordHash := rp_passwordHash input\<rparr>) (users d)\<rparr>;
                    d = d\<lparr>resetTokens := update_where
                          (\<lambda>t. t_userId t = u_id u \<and> t_usedAt t = None)
                          (\<lambda>t. t\<lparr>t_usedAt := Some now\<rparr>) (resetTokens d)\<rparr>;
                    d = d\<lparr>sessions := update_where
                          (\<lambda>s. s_userId s = u_id u \<and> s_revokedAt s = None)
                          (\<lambda>s. s\<lparr>s_revokedAt := Some now, s_revokedReason := Some PASSWORD_RESET\<rparr>)
                          (sessions d)\<rparr>;
                    d = insert_outbox outboxId Kind_PASSWORD_RESET_COMPLETED (u_id u) now d;
                    d = insert_audit (rp_audit input u) now d
                in (Inr (Some u), d))"

section \<open>Sessions\<close>

record create_session_input =
  cs_userId :: uuid
  cs_createdAt :: time
  cs_tokenHash :: string
  cs_csrfTokenHash :: string
  cs_lastSeenAt :: time
  cs_idleExpiresAt :: time
  cs_absoluteExpiresAt :: time
  cs_ip :: "string option"
  cs_userAgent :: "string option"

definition session_of_input :: "uuid \<Rightarrow> create_session_input \<Rightarrow> session_row" where
  "session_of_input newId i =
    \<lparr>s_id = newId, s_userId = cs_userId i, s_tokenHash = cs_tokenHash i,
     s_csrfTokenHash = cs_csrfTokenHash i, s_createdAt = cs_createdAt i,
     s_lastSeenAt = cs_lastSeenAt i, s_idleExpiresAt = cs_idleExpiresAt i,
     s_absoluteExpiresAt = cs_absoluteExpiresAt i, s_revokedAt = None, s_revokedReason = None,
     s_rotatedAt = None, s_ip = cs_ip i, s_userAgent = cs_userAgent i\<rparr>"

definition createSession :: "uuid \<Rightarrow> create_session_input \<Rightarrow> session_row tx" where
  "createSession newId input = (\<lambda>d.
     if \<exists>s \<in> set (sessions d). s_tokenHash s = cs_tokenHash input \<or> s_id s = newId
     then (Inl P2002, d)
     else (Inr (session_of_input newId input),
           d\<lparr>sessions := sessions d @ [session_of_input newId input]\<rparr>))"

definition findSessionByTokenHash :: "string \<Rightarrow> db \<Rightarrow> session_row option" where
  "findSessionByTokenHash h d = find (\<lambda>s. s_tokenHash s = h) (sessions d)"

definition active_session :: "uuid \<Rightarrow> time \<Rightarrow> session_row \<Rightarrow> bool" where
  "active_session userId now s \<longleftrightarrow> s_userId s = userId \<and> s_revokedAt s = None \<and>
     s_rotatedAt s = None \<and> now < s_idleExpiresAt s \<and> now < s_absoluteExpiresAt s"

definition listActiveSessions :: "uuid \<Rightarrow> time \<Rightarrow> db \<Rightarrow> session_row list" where
  "listActiveSessions userId now d =
     sort_key (\<lambda>s. (- s_lastSeenAt s, s_id s)) (filter (active_session userId now) (sessions d))"

definition touchSession :: "uuid \<Rightarrow> time \<Rightarrow> time \<Rightarrow> unit tx" where
  "touchSession i lastSeen idleExpires = (\<lambda>d.
     if \<exists>s \<in> set (sessions d). s_id s = i
     then (Inr (), d\<lparr>sessions := update_where (\<lambda>s. s_id s = i)
            (\<lambda>s. s\<lparr>s_lastSeenAt := lastSeen, s_idleExpiresAt := idleExpires\<rparr>) (sessions d)\<rparr>)
     else (Inl P2025, d))"

definition rotateSessionCsrf :: "uuid \<Rightarrow> string \<Rightarrow> unit tx" where
  "rotateSessionCsrf i csrfHash = (\<lambda>d.
     if \<exists>s \<in> set (sessions d). s_id s = i
     then (Inr (), d\<lparr>sessions := update_where (\<lambda>s. s_id s = i)
            (\<lambda>s. s\<lparr>s_csrfTokenHash := csrfHash\<rparr>) (sessions d)\<rparr>)
     else (Inl P2025, d))"

text \<open>
  The three revocations. \<open>wall\<close> is \<open>new Date()\<close>, the instant of the revocation; \<open>now\<close> is
  the service's clock, which decides whether the session is still valid.
\<close>

definition revoke_where ::
  "(session_row \<Rightarrow> bool) \<Rightarrow> time \<Rightarrow> session_revoked_reason \<Rightarrow> audit_entry option \<Rightarrow> db \<Rightarrow> nat \<times> db"
where
  "revoke_where P wall reason audit d =
     (let n = count_where P (sessions d);
          d = d\<lparr>sessions := update_where P
                (\<lambda>s. s\<lparr>s_revokedAt := Some wall, s_revokedReason := Some reason\<rparr>) (sessions d)\<rparr>
      in (n, if 0 < n then insert_audit_opt audit wall d else d))"

definition revokeSession ::
  "time \<Rightarrow> uuid \<Rightarrow> session_revoked_reason \<Rightarrow> audit_entry option \<Rightarrow> db \<Rightarrow> bool \<times> db" where
  "revokeSession wall i reason audit d =
     (case revoke_where (\<lambda>s. s_id s = i \<and> s_revokedAt s = None) wall reason audit d of
        (n, d) \<Rightarrow> (n = 1, d))"

definition revokeOwnSession ::
  "time \<Rightarrow> uuid \<Rightarrow> uuid \<Rightarrow> time \<Rightarrow> session_revoked_reason \<Rightarrow> audit_entry option \<Rightarrow> db \<Rightarrow> bool \<times> db"
where
  "revokeOwnSession wall sessionId userId now reason audit d =
     (case revoke_where (\<lambda>s. s_id s = sessionId \<and> s_userId s = userId \<and> s_revokedAt s = None \<and>
             now < s_idleExpiresAt s \<and> now < s_absoluteExpiresAt s) wall reason audit d of
        (n, d) \<Rightarrow> (n = 1, d))"

definition revokeAllOwnSessions ::
  "time \<Rightarrow> uuid \<Rightarrow> session_revoked_reason \<Rightarrow> audit_entry option \<Rightarrow> db \<Rightarrow> nat \<times> db" where
  "revokeAllOwnSessions wall userId reason audit d =
     revoke_where (\<lambda>s. s_userId s = userId \<and> s_revokedAt s = None) wall reason audit d"

record rotate_session_input =
  rs_previousSessionId :: uuid
  rs_userId :: uuid
  rs_now :: time
  rs_graceMs :: int
  rs_newSession :: create_session_input

definition rotateSession :: "uuid \<Rightarrow> rotate_session_input \<Rightarrow> session_row option tx" where
  "rotateSession newId input = transaction (\<lambda>d.
     let claims = (\<lambda>s. s_id s = rs_previousSessionId input \<and> s_userId s = rs_userId input \<and>
                       s_revokedAt s = None \<and> s_rotatedAt s = None)
     in if count_where claims (sessions d) \<noteq> 1 then (Inr None, d)
        else
          let d = d\<lparr>sessions := update_where claims
                    (\<lambda>s. s\<lparr>s_rotatedAt := Some (rs_now input)\<rparr>) (sessions d)\<rparr>;
              d = d\<lparr>sessions := update_where
                    (\<lambda>s. s_userId s = rs_userId input \<and> s_revokedAt s = None \<and>
                         (case s_rotatedAt s of None \<Rightarrow> False
                          | Some r \<Rightarrow> r \<le> rs_now input - rs_graceMs input))
                    (\<lambda>s. s\<lparr>s_revokedAt := Some (rs_now input), s_revokedReason := Some ROTATED\<rparr>)
                    (sessions d)\<rparr>
          in bindE (createSession newId (rs_newSession input)) (\<lambda>s. returnE (Some s)) d)"

section \<open>Attempts evaluated under a lock\<close>

text \<open>
  The failures that mean "this attempt could not be evaluated". \<open>fault\<close> is the failure of the
  interactive transaction, if it failed: its body then has no effect.
\<close>

definition isLoginAttemptUnavailable :: "exn \<Rightarrow> bool" where
  "isLoginAttemptUnavailable e =
    (case e of
       PrismaError (KnownRequestError c m) \<Rightarrow>
         c = ''P2024'' \<or> c = ''P2028'' \<or> (c = ''P2010'' \<and> m = Some ''55P03'')
     | _ \<Rightarrow> False)"

definition locked_attempt :: "prisma_error option \<Rightarrow> 'a tx \<Rightarrow> 'a tx" where
  "locked_attempt fault body =
     catchE (case fault of Some e \<Rightarrow> throwE (PrismaError e) | None \<Rightarrow> transaction body)
       (\<lambda>e. if isLoginAttemptUnavailable e then throwE LoginAttemptUnavailableError else throwE e)"

text \<open>What an attempt sees: the events in the window, the latest of them, and the time.\<close>

record attempt_scope =
  recentEvents :: nat
  lastEventAt :: "time option"
  scope_now :: time

definition email_events :: "string \<Rightarrow> string \<Rightarrow> time \<Rightarrow> int \<Rightarrow> db \<Rightarrow> time list" where
  "email_events act emailHash now window d =
     map a_occurredAt (filter (\<lambda>r. action (a_entry r) = act \<and>
         (case metadata (a_entry r) of None \<Rightarrow> False
          | Some m \<Rightarrow> map_of m ''emailHash'' = Some (JStr emailHash)) \<and>
         now - window < a_occurredAt r) (auditLogs d))"

definition runLoginAttempt ::
  "prisma_error option \<Rightarrow> time \<Rightarrow> string \<Rightarrow> int \<Rightarrow> (attempt_scope \<Rightarrow> 'a tx) \<Rightarrow> 'a tx" where
  "runLoginAttempt fault now emailHash window attempt =
     locked_attempt fault (\<lambda>d.
       let ts = email_events ''auth.login.failed'' emailHash now window d
       in attempt \<lparr>recentEvents = length ts, lastEventAt = latest ts, scope_now = now\<rparr> d)"

definition runPasswordResetRequest ::
  "prisma_error option \<Rightarrow> time \<Rightarrow> string \<Rightarrow> int \<Rightarrow> (attempt_scope \<Rightarrow> 'a tx) \<Rightarrow> 'a tx" where
  "runPasswordResetRequest fault now emailHash window attempt =
     locked_attempt fault (\<lambda>d.
       let ts = email_events ''auth.password.reset_requested'' emailHash now window d
       in attempt \<lparr>recentEvents = length ts, lastEventAt = latest ts, scope_now = now\<rparr> d)"

definition runEmailVerificationResend ::
  "prisma_error option \<Rightarrow> time \<Rightarrow> uuid \<Rightarrow> int \<Rightarrow> (attempt_scope \<Rightarrow> 'a tx) \<Rightarrow> 'a tx" where
  "runEmailVerificationResend fault now userId window attempt =
     locked_attempt fault (\<lambda>d.
       let ts = map o_createdAt (filter (\<lambda>r. o_userId r = userId \<and>
                  o_kind r = Kind_EMAIL_VERIFICATION \<and> now - window < o_createdAt r) (outbox d))
       in attempt \<lparr>recentEvents = length ts, lastEventAt = latest ts, scope_now = now\<rparr> d)"

definition writeAuditLog :: "audit_entry \<Rightarrow> time \<Rightarrow> db \<Rightarrow> db" where
  "writeAuditLog e now d = insert_audit e now d"

section \<open>Sessions: well-formed tables and one-way evolution\<close>

definition session_row_ok :: "session_row \<Rightarrow> bool" where
  "session_row_ok s \<longleftrightarrow> (s_revokedAt s = None \<longleftrightarrow> s_revokedReason s = None) \<and>
     s_idleExpiresAt s \<le> s_absoluteExpiresAt s"

definition sessions_wf :: "db \<Rightarrow> bool" where
  "sessions_wf d \<longleftrightarrow> distinct (map s_id (sessions d)) \<and> distinct (map s_tokenHash (sessions d)) \<and>
     (\<forall>s \<in> set (sessions d). session_row_ok s)"

text \<open>
  How a session may change: its identity, owner, token, creation and absolute expiry never do,
  and a revocation or a rotation, once recorded, is never undone or overwritten.
\<close>

definition session_later :: "session_row \<Rightarrow> session_row \<Rightarrow> bool" where
  "session_later s s' \<longleftrightarrow> s_id s' = s_id s \<and> s_userId s' = s_userId s \<and>
     s_tokenHash s' = s_tokenHash s \<and> s_createdAt s' = s_createdAt s \<and>
     s_absoluteExpiresAt s' = s_absoluteExpiresAt s \<and>
     (s_revokedAt s \<noteq> None \<longrightarrow>
        s_revokedAt s' = s_revokedAt s \<and> s_revokedReason s' = s_revokedReason s) \<and>
     (s_rotatedAt s \<noteq> None \<longrightarrow> s_rotatedAt s' = s_rotatedAt s)"

definition sessions_evolve :: "db \<Rightarrow> db \<Rightarrow> bool" where
  "sessions_evolve d d' \<longleftrightarrow> (\<forall>s \<in> set (sessions d). \<exists>s' \<in> set (sessions d'). session_later s s')"

lemma session_later_refl [intro, simp]: "session_later s s"
  by (simp add: session_later_def)

lemma session_later_trans: "session_later s t \<Longrightarrow> session_later t u \<Longrightarrow> session_later s u"
  by (auto simp: session_later_def)

lemma sessions_evolve_refl [intro, simp]: "sessions d' = sessions d \<Longrightarrow> sessions_evolve d d'"
  by (auto simp: sessions_evolve_def)

lemma sessions_evolve_trans: "sessions_evolve d d' \<Longrightarrow> sessions_evolve d' d'' \<Longrightarrow> sessions_evolve d d''"
  unfolding sessions_evolve_def using session_later_trans by blast

lemma sessions_evolve_update:
  assumes "sessions d' = update_where P f (sessions d)" and "\<And>s. P s \<Longrightarrow> session_later s (f s)"
  shows "sessions_evolve d d'"
  unfolding sessions_evolve_def
proof
  fix s assume "s \<in> set (sessions d)"
  then have "(if P s then f s else s) \<in> set (sessions d')"
    by (auto simp: assms(1) update_where_def)
  moreover have "session_later s (if P s then f s else s)"
    using assms(2) by simp
  ultimately show "\<exists>s' \<in> set (sessions d'). session_later s s'" by blast
qed

lemma sessions_wf_cong: "sessions d' = sessions d \<Longrightarrow> sessions_wf d' = sessions_wf d"
  by (simp add: sessions_wf_def)

lemma sessions_wf_update:
  assumes "sessions_wf d" and "sessions d' = update_where P f (sessions d)"
    and "\<And>s. P s \<Longrightarrow> s_id (f s) = s_id s \<and> s_tokenHash (f s) = s_tokenHash s"
    and "\<And>s. s \<in> set (sessions d) \<Longrightarrow> P s \<Longrightarrow> session_row_ok s \<Longrightarrow> session_row_ok (f s)"
  shows "sessions_wf d'"
  using assms by (auto simp: sessions_wf_def table_simps ball_update_where)

text \<open>One conditional update of sessions that respects both, as a single fact.\<close>

definition good_step :: "db \<Rightarrow> db \<Rightarrow> bool" where
  "good_step d d' \<longleftrightarrow> (sessions_wf d \<longrightarrow> sessions_wf d') \<and> sessions_evolve d d'"

lemma good_step_refl: "sessions d' = sessions d \<Longrightarrow> good_step d d'"
  by (simp add: good_step_def sessions_wf_def)

lemma good_step_trans: "good_step d d' \<Longrightarrow> good_step d' d'' \<Longrightarrow> good_step d d''"
  unfolding good_step_def using sessions_evolve_trans by blast

lemma good_step_update:
  assumes "sessions d' = update_where P f (sessions d)"
    and "\<And>s. P s \<Longrightarrow> session_later s (f s)"
    and "\<And>s. s \<in> set (sessions d) \<Longrightarrow> P s \<Longrightarrow> session_row_ok s \<Longrightarrow> session_row_ok (f s)"
  shows "good_step d d'"
proof -
  have "\<And>s. P s \<Longrightarrow> s_id (f s) = s_id s \<and> s_tokenHash (f s) = s_tokenHash s"
    using assms(2) by (auto simp: session_later_def)
  then show ?thesis
    unfolding good_step_def
    using sessions_wf_update [OF _ assms(1)] assms(3) sessions_evolve_update [OF assms(1,2)] by blast
qed

lemma good_step_createSession:
  assumes "createSession newId input d = (r, d')"
    and "cs_idleExpiresAt input \<le> cs_absoluteExpiresAt input"
  shows "good_step d d'"
proof (cases "\<exists>s \<in> set (sessions d). s_tokenHash s = cs_tokenHash input \<or> s_id s = newId")
  case True
  with assms(1) show ?thesis by (simp add: createSession_def good_step_refl)
next
  case False
  with assms(1) have d': "sessions d' = sessions d @ [session_of_input newId input]"
    by (auto simp: createSession_def)
  have "session_row_ok (session_of_input newId input)"
    using assms(2) by (simp add: session_row_ok_def session_of_input_def)
  then have "sessions_wf d \<Longrightarrow> sessions_wf d'"
    using False by (auto simp: sessions_wf_def d' session_of_input_def)
  then show ?thesis
    by (auto simp: good_step_def sessions_evolve_def d')
qed

lemma good_step_touchSession:
  assumes "touchSession i seen idle d = (r, d')"
    and "\<forall>s \<in> set (sessions d). s_id s = i \<longrightarrow> idle \<le> s_absoluteExpiresAt s"
  shows "good_step d d'"
proof (cases "\<exists>s \<in> set (sessions d). s_id s = i")
  case True
  with assms have d': "sessions d' = update_where (\<lambda>s. s_id s = i)
      (\<lambda>s. s\<lparr>s_lastSeenAt := seen, s_idleExpiresAt := idle\<rparr>) (sessions d)"
    by (auto simp: touchSession_def)
  show ?thesis
    by (rule good_step_update [OF d']) (use assms(2) in \<open>auto simp: session_later_def session_row_ok_def\<close>)
qed (use assms in \<open>auto simp: touchSession_def good_step_refl\<close>)

lemma good_step_rotateSessionCsrf:
  assumes "rotateSessionCsrf i h d = (r, d')"
  shows "good_step d d'"
proof (cases "\<exists>s \<in> set (sessions d). s_id s = i")
  case True
  with assms have d': "sessions d' = update_where (\<lambda>s. s_id s = i)
      (\<lambda>s. s\<lparr>s_csrfTokenHash := h\<rparr>) (sessions d)"
    by (auto simp: rotateSessionCsrf_def)
  show ?thesis
    by (rule good_step_update [OF d']) (auto simp: session_later_def session_row_ok_def)
qed (use assms in \<open>auto simp: rotateSessionCsrf_def good_step_refl\<close>)

lemma good_step_revoke_where:
  assumes "revoke_where P wall reason audit d = (n, d')" and "\<And>s. P s \<Longrightarrow> s_revokedAt s = None"
  shows "good_step d d'"
proof -
  have d': "sessions d' = update_where P
      (\<lambda>s. s\<lparr>s_revokedAt := Some wall, s_revokedReason := Some reason\<rparr>) (sessions d)"
    using assms(1) by (auto simp: revoke_where_def Let_def split: if_splits)
  show ?thesis
    by (rule good_step_update [OF d']) (use assms(2) in \<open>auto simp: session_later_def session_row_ok_def\<close>)
qed

lemma good_step_revokeSession:
  assumes "revokeSession wall i reason audit d = (b, d')"
  shows "good_step d d'"
  using assms good_step_revoke_where [of "\<lambda>s. s_id s = i \<and> s_revokedAt s = None" wall reason audit d]
  by (auto simp: revokeSession_def split: prod.splits)

lemma good_step_revokeOwnSession:
  assumes "revokeOwnSession wall i u now reason audit d = (b, d')"
  shows "good_step d d'"
  using assms good_step_revoke_where [of "\<lambda>s. s_id s = i \<and> s_userId s = u \<and> s_revokedAt s = None \<and>
      now < s_idleExpiresAt s \<and> now < s_absoluteExpiresAt s" wall reason audit d]
  by (auto simp: revokeOwnSession_def split: prod.splits)

lemma good_step_revokeAllOwnSessions:
  assumes "revokeAllOwnSessions wall u reason audit d = (n, d')"
  shows "good_step d d'"
  using assms good_step_revoke_where [of "\<lambda>s. s_userId s = u \<and> s_revokedAt s = None" wall reason audit d]
  by (auto simp: revokeAllOwnSessions_def)

lemmas good_step_revocations =
  good_step_revokeSession good_step_revokeOwnSession good_step_revokeAllOwnSessions

text \<open>The transactions that touch sessions among other tables.\<close>

lemma good_step_transaction:
  assumes "transaction m d = (r, d')" and "\<And>x d1. m d = (Inr x, d1) \<Longrightarrow> good_step d d1"
  shows "good_step d d'"
  using assms by (cases r) (auto dest!: transaction_Inl intro: good_step_refl)

lemma good_step_rotateSession:
  assumes "rotateSession newId input d = (r, d')"
    and "cs_idleExpiresAt (rs_newSession input) \<le> cs_absoluteExpiresAt (rs_newSession input)"
  shows "good_step d d'"
  using assms(1) unfolding rotateSession_def
proof (rule good_step_transaction)
  let ?claims = "\<lambda>s. s_id s = rs_previousSessionId input \<and> s_userId s = rs_userId input \<and>
     s_revokedAt s = None \<and> s_rotatedAt s = None"
  let ?ended = "\<lambda>s. s_userId s = rs_userId input \<and> s_revokedAt s = None \<and>
     (case s_rotatedAt s of None \<Rightarrow> False | Some r \<Rightarrow> r \<le> rs_now input - rs_graceMs input)"
  let ?d1 = "d\<lparr>sessions := update_where ?claims
     (\<lambda>s. s\<lparr>s_rotatedAt := Some (rs_now input)\<rparr>) (sessions d)\<rparr>"
  let ?d2 = "?d1\<lparr>sessions := update_where ?ended
     (\<lambda>s. s\<lparr>s_revokedAt := Some (rs_now input), s_revokedReason := Some ROTATED\<rparr>) (sessions ?d1)\<rparr>"
  fix x d3
  assume "(let claims = ?claims in if count_where claims (sessions d) \<noteq> 1 then (Inr None, d)
     else let d = d\<lparr>sessions := update_where claims
            (\<lambda>s. s\<lparr>s_rotatedAt := Some (rs_now input)\<rparr>) (sessions d)\<rparr>;
          d = d\<lparr>sessions := update_where ?ended
            (\<lambda>s. s\<lparr>s_revokedAt := Some (rs_now input), s_revokedReason := Some ROTATED\<rparr>) (sessions d)\<rparr>
        in bindE (createSession newId (rs_newSession input)) (\<lambda>s. returnE (Some s)) d) = (Inr x, d3)"
  then consider "d3 = d"
    | s where "createSession newId (rs_newSession input) ?d2 = (Inr s, d3)"
    by (auto simp: Let_def bindE_eq_Inr split: if_splits)
  then show "good_step d d3"
  proof cases
    case 2
    have "good_step d ?d1"
      by (rule good_step_update [where P = ?claims]) (auto simp: session_later_def session_row_ok_def)
    moreover have "good_step ?d1 ?d2"
      by (rule good_step_update [where P = ?ended]) (auto simp: session_later_def session_row_ok_def)
    moreover have "good_step ?d2 d3"
      using 2 assms(2) by (rule good_step_createSession)
    ultimately show ?thesis by (blast intro: good_step_trans)
  qed (simp add: good_step_refl)
qed

section \<open>Consuming a one-time token\<close>

text \<open>
  The interface both flows rely on: a token that is not usable (unknown, used or expired) is
  refused with nothing changed; a token that is, is spent by its use; an error changes nothing.
\<close>

locale one_time_token =
  fixes consume :: "time \<Rightarrow> string \<Rightarrow> db \<Rightarrow> (exn + 'r option) \<times> db"
    and tokens :: "db \<Rightarrow> token_row list"
  assumes refuse: "find (usable_token now h) (tokens d) = None \<Longrightarrow> consume now h d = (Inr None, d)"
    and accept: "consume now h d = (Inr (Some r), d') \<Longrightarrow> find (usable_token now h) (tokens d) \<noteq> None"
    and spend: "consume now h d = (Inr (Some r), d') \<Longrightarrow> t \<in> set (tokens d') \<Longrightarrow>
      t_tokenHash t = h \<Longrightarrow> t_usedAt t = None \<Longrightarrow> t_expiresAt t \<le> now"
    and abort: "consume now h d = (Inl e, d') \<Longrightarrow> d' = d"
    and none_keeps: "consume now h d = (Inr None, d') \<Longrightarrow> d' = d"
begin

lemma used_token_was_usable:
  assumes "consume now h d = (Inr (Some r), d')"
  obtains t where "t \<in> set (tokens d)" and "t_tokenHash t = h" and "t_usedAt t = None"
    and "now < t_expiresAt t"
  using accept [OF assms] by (auto simp: usable_token_def find_None_iff)

lemma spent:
  assumes "consume now h d = (Inr (Some r), d')" and "now \<le> later"
  shows "find (usable_token later h) (tokens d') = None"
  using spend [OF assms(1)] assms(2) by (fastforce simp: find_None_iff usable_token_def)

lemma second_use_refused:
  assumes "consume now h d = (Inr (Some r), d')" and "now \<le> later" and "tokens d'' = tokens d'"
  shows "consume later h d'' = (Inr None, d'')"
  using spent [OF assms(1,2)] assms(3) by (simp add: refuse)

lemma not_used_changes_nothing:
  assumes "consume now h d = (r, d')" and "\<forall>x. r \<noteq> Inr (Some x)"
  shows "d' = d"
  using assms abort none_keeps by (cases r; cases "projr r") auto

end

text \<open>Spending a token marks every usable row with its hash.\<close>

lemma use_token_spends:
  assumes "t \<in> set (use_token now h ts)" and "t_tokenHash t = h" and "t_usedAt t = None"
  shows "t_expiresAt t \<le> now"
proof -
  from assms(1) obtain t0 where "t = (if usable_token now h t0 then t0\<lparr>t_usedAt := Some now\<rparr> else t0)"
    unfolding use_token_def by (rule mem_update_whereE)
  with assms(2,3) show ?thesis
    by (cases "usable_token now h t0") (auto simp: usable_token_def)
qed

lemma consumeEmailVerificationToken_tokens:
  "consumeEmailVerificationToken now h audit d = (Inr (Some r), d')
    \<Longrightarrow> emailTokens d' = use_token now h (emailTokens d)"
  by (auto simp: consumeEmailVerificationToken_def Let_def findUserById_def
      split: option.splits if_splits)

interpretation verification_token: one_time_token
  "\<lambda>now h. consumeEmailVerificationToken now h audit" emailTokens for audit
proof unfold_locales
  fix now h d r d' t
  assume "consumeEmailVerificationToken now h audit d = (Inr (Some r), d')"
    and "t \<in> set (emailTokens d')" "t_tokenHash t = h" "t_usedAt t = None"
  then show "t_expiresAt t \<le> now"
    by (metis consumeEmailVerificationToken_tokens use_token_spends)
qed (auto simp: consumeEmailVerificationToken_def Let_def dest!: transaction_Inl
    split: option.splits if_splits)

text \<open>What a successful reset did, field by field.\<close>

lemma resetPassword_SomeE:
  assumes "resetPassword now oid input d = (Inr (Some u), d')"
  obtains token u0 where
    "find (usable_token now (rp_tokenHash input)) (resetTokens d) = Some token"
    "findUserById (t_userId token) d = Some u0"
    "u = u0\<lparr>u_passwordHash := rp_passwordHash input\<rparr>"
    "u_id u = t_userId token"
    "users d' = update_where (\<lambda>r. u_id r = t_userId token)
       (\<lambda>r. r\<lparr>u_passwordHash := rp_passwordHash input\<rparr>) (users d)"
    "resetTokens d' = update_where (\<lambda>t. t_userId t = u_id u \<and> t_usedAt t = None)
       (\<lambda>t. t\<lparr>t_usedAt := Some now\<rparr>) (use_token now (rp_tokenHash input) (resetTokens d))"
    "sessions d' = update_where (\<lambda>s. s_userId s = u_id u \<and> s_revokedAt s = None)
       (\<lambda>s. s\<lparr>s_revokedAt := Some now, s_revokedReason := Some PASSWORD_RESET\<rparr>) (sessions d)"
    "outbox d' = outbox d @ [\<lparr>o_id = oid, o_kind = Kind_PASSWORD_RESET_COMPLETED,
       o_userId = u_id u, o_createdAt = now, o_sentAt = None\<rparr>]"
    "auditLogs d' = auditLogs d @ [\<lparr>a_entry = rp_audit input u, a_occurredAt = now\<rparr>]"
proof -
  from assms obtain token where token:
    "find (usable_token now (rp_tokenHash input)) (resetTokens d) = Some token"
    by (auto simp: resetPassword_def split: option.splits)
  with assms obtain u0 where u0: "findUserById (t_userId token) d = Some u0"
    by (auto simp: resetPassword_def findUserById_def Let_def split: option.splits)
  then have "u_id u0 = t_userId token"
    by (auto simp: findUserById_def dest!: find_SomeD)
  with assms token u0 show ?thesis
    by (intro that [of token u0]) (auto simp: resetPassword_def findUserById_def Let_def)
qed

interpretation reset_token: one_time_token
  "\<lambda>now h. resetPassword now oid \<lparr>rp_tokenHash = h, rp_passwordHash = ph, rp_audit = a\<rparr>" resetTokens
  for oid ph a
proof unfold_locales
  fix now h d r d' t
  assume "resetPassword now oid \<lparr>rp_tokenHash = h, rp_passwordHash = ph, rp_audit = a\<rparr> d
      = (Inr (Some r), d')"
    and t: "t \<in> set (resetTokens d')" "t_tokenHash t = h" "t_usedAt t = None"
  then have "resetTokens d' = update_where (\<lambda>t. t_userId t = u_id r \<and> t_usedAt t = None)
       (\<lambda>t. t\<lparr>t_usedAt := Some now\<rparr>) (use_token now h (resetTokens d))"
    by (auto elim: resetPassword_SomeE)
  with t have "t \<in> set (use_token now h (resetTokens d))"
    by (auto simp: set_update_where)
  with t show "t_expiresAt t \<le> now" by (blast intro: use_token_spends)
qed (auto simp: resetPassword_def Let_def findUserById_def dest!: transaction_Inl
    split: option.splits if_splits)

lemma good_step_resetPassword:
  assumes "resetPassword now oid input d = (r, d')"
  shows "good_step d d'"
  using assms unfolding resetPassword_def
proof (rule good_step_transaction, goal_cases)
  case (1 x d1)
  then have "resetPassword now oid input d = (Inr x, d1)"
    by (simp add: resetPassword_def)
  then show ?case
  proof (cases x)
    case None
    with 1 show ?thesis by (auto simp: Let_def good_step_refl split: option.splits)
  next
    case (Some u)
    with \<open>resetPassword now oid input d = (Inr x, d1)\<close>
    have "sessions d1 = update_where (\<lambda>s. s_userId s = u_id u \<and> s_revokedAt s = None)
       (\<lambda>s. s\<lparr>s_revokedAt := Some now, s_revokedReason := Some PASSWORD_RESET\<rparr>) (sessions d)"
      by (auto elim: resetPassword_SomeE)
    then show ?thesis
      by (rule good_step_update) (auto simp: session_later_def session_row_ok_def)
  qed
qed

lemma good_step_consumeEmailVerificationToken:
  assumes "consumeEmailVerificationToken now h audit d = (r, d')"
  shows "good_step d d'"
  using assms
  by (auto simp: consumeEmailVerificationToken_def transaction_def Let_def
      intro!: good_step_refl split: option.splits if_splits)

end
