(* ===== verification/Policies.thy ===== *)
theory Policies
  imports Contracts
begin

text \<open>
  The policies of ADR-003: \<open>can(actor, action, resource)\<close> of the auth, cases and documents
  modules, and the interface they share. An action is the string the code switches on, so the
  \<open>default\<close> branch is part of the model; a resource is the identifier of its owner.
\<close>

section \<open>Shared vocabulary (apps/api/src/common/policy.ts)\<close>

record actor =
  actor_id :: uuid
  actor_role :: role
  actor_status :: user_status

datatype deny_reason = Inactive_actor | Role_not_allowed | Not_owner | Unknown_action

datatype decision = Allow | Deny deny_reason

definition allowed :: "decision \<Rightarrow> bool" where
  "allowed d \<longleftrightarrow> d = Allow"

lemma allowed_simps [simp]: "allowed Allow" "\<not> allowed (Deny r)"
  by (simp_all add: allowed_def)

section \<open>The three policies\<close>

definition auth_can :: "actor \<Rightarrow> string \<Rightarrow> uuid \<Rightarrow> decision" where
  "auth_can a act owner =
    (if actor_status a \<noteq> ACTIVE then Deny Inactive_actor
     else if act = ''user:read'' then
       (if owner = actor_id a then Allow else Deny Not_owner)
     else if act = ''session:list'' \<or> act = ''session:revoke'' then
       (if owner = actor_id a then Allow else Deny Not_owner)
     else Deny Unknown_action)"

definition cases_can :: "actor \<Rightarrow> string \<Rightarrow> uuid \<Rightarrow> decision" where
  "cases_can a act owner =
    (if actor_status a \<noteq> ACTIVE then Deny Inactive_actor
     else if actor_role a \<noteq> USER then Deny Role_not_allowed
     else if act \<in> {''case:create'', ''case:list'', ''case:read''} then
       (if owner = actor_id a then Allow else Deny Not_owner)
     else Deny Unknown_action)"

definition documents_can :: "actor \<Rightarrow> string \<Rightarrow> uuid \<Rightarrow> decision" where
  "documents_can a act owner =
    (if actor_status a \<noteq> ACTIVE then Deny Inactive_actor
     else if act \<in> {''document:upload'', ''document:list'', ''document:download'',
         ''document:read_ocr''} then
       (if actor_role a \<noteq> USER then Deny Role_not_allowed
        else if owner = actor_id a then Allow else Deny Not_owner)
     else if act \<in> {''document:reprocess'', ''document:reprocess_ocr''} then
       (if actor_role a = ADMIN then Allow else Deny Role_not_allowed)
     else Deny Unknown_action)"

section \<open>What every policy promises\<close>

text \<open>
  A policy names the actions a user performs on what they own and the administrative ones.
  It denies a suspended actor and an unknown action, an owner action is only ever allowed on
  one's own resource, and an administrative one only to an ADMIN.
\<close>

locale deny_by_default =
  fixes can :: "actor \<Rightarrow> string \<Rightarrow> uuid \<Rightarrow> decision"
    and owner_actions admin_actions :: "string set"
  assumes suspended_denied: "actor_status a \<noteq> ACTIVE \<Longrightarrow> can a act r = Deny Inactive_actor"
    and unknown_denied: "act \<notin> owner_actions \<Longrightarrow> act \<notin> admin_actions \<Longrightarrow> \<not> allowed (can a act r)"
    and owner_only: "act \<in> owner_actions \<Longrightarrow> allowed (can a act r) \<Longrightarrow> r = actor_id a"
    and admin_only: "act \<in> admin_actions \<Longrightarrow> allowed (can a act r) \<Longrightarrow> actor_role a = ADMIN"
begin

lemma allowed_active: "allowed (can a act r) \<Longrightarrow> actor_status a = ACTIVE"
  using suspended_denied by force

lemma allowed_known: "allowed (can a act r) \<Longrightarrow> act \<in> owner_actions \<union> admin_actions"
  using unknown_denied by blast

lemma allowed_cases:
  assumes "allowed (can a act r)"
  shows "actor_status a = ACTIVE \<and>
    (act \<in> owner_actions \<and> r = actor_id a \<or> act \<in> admin_actions \<and> actor_role a = ADMIN)"
  using allowed_active [OF assms] allowed_known [OF assms] owner_only admin_only assms by blast

end

interpretation auth_policy: deny_by_default auth_can
  "{''user:read'', ''session:list'', ''session:revoke''}" "{}"
  by unfold_locales (auto simp: auth_can_def split: if_splits)

interpretation cases_policy: deny_by_default cases_can
  "{''case:create'', ''case:list'', ''case:read''}" "{}"
  by unfold_locales (auto simp: cases_can_def split: if_splits)

interpretation documents_policy: deny_by_default documents_can
  "{''document:upload'', ''document:list'', ''document:download'', ''document:read_ocr''}"
  "{''document:reprocess'', ''document:reprocess_ocr''}"
  by unfold_locales (auto simp: documents_can_def split: if_splits)

text \<open>Exactly who may do what, action by action.\<close>

lemma auth_can_iff [simp]:
  assumes "act \<in> {''user:read'', ''session:list'', ''session:revoke''}"
  shows "allowed (auth_can a act owner) \<longleftrightarrow> actor_status a = ACTIVE \<and> owner = actor_id a"
  using assms by (auto simp: auth_can_def)

lemma cases_can_iff [simp]:
  assumes "act \<in> {''case:create'', ''case:list'', ''case:read''}"
  shows "allowed (cases_can a act owner)
    \<longleftrightarrow> actor_status a = ACTIVE \<and> actor_role a = USER \<and> owner = actor_id a"
  using assms by (auto simp: cases_can_def)

lemma documents_can_owner_iff [simp]:
  assumes "act \<in> {''document:upload'', ''document:list'', ''document:download'',
    ''document:read_ocr''}"
  shows "allowed (documents_can a act owner)
    \<longleftrightarrow> actor_status a = ACTIVE \<and> actor_role a = USER \<and> owner = actor_id a"
  using assms by (auto simp: documents_can_def)

lemma documents_can_admin_iff [simp]:
  assumes "act \<in> {''document:reprocess'', ''document:reprocess_ocr''}"
  shows "allowed (documents_can a act owner)
    \<longleftrightarrow> actor_status a = ACTIVE \<and> actor_role a = ADMIN"
  using assms by (auto simp: documents_can_def)

end
