(* ===== verification/Auth_Session.thy ===== *)
theory Auth_Session
  imports Auth_Repository Policies
begin

text \<open>
  Tokens (apps/api/src/security/crypto.ts, password.ts) and the life of a session
  (apps/api/src/modules/auth/auth.session.ts). SHA-256 and Argon2id are code of Node and of
  @node-rs/argon2: they are the fields of the parameter \<open>crypto\<close>, and a lemma that relies on
  the shape of a digest says so.
\<close>

section \<open>Tokens\<close>

text \<open>\<open>verify\<close> answers None when the library throws.\<close>

record crypto =
  sha256Hex :: "string \<Rightarrow> string"
  argon2_hash :: "string \<Rightarrow> string"
  argon2_verify :: "string \<Rightarrow> string \<Rightarrow> bool option"
  random_secret :: string

record opaque_token =
  tok_raw :: string
  tok_hash :: string

text \<open>\<open>raw\<close> is the base64url text of the random bytes drawn.\<close>

definition generateOpaqueToken :: "crypto \<Rightarrow> string \<Rightarrow> opaque_token" where
  "generateOpaqueToken c raw = \<lparr>tok_raw = raw, tok_hash = sha256Hex c raw\<rparr>"

text \<open>\<open>Buffer.from(s, "hex")\<close>: pairs of digits up to the first that is not one.\<close>

fun hex_bytes :: "string \<Rightarrow> nat list" where
  "hex_bytes (a # b # cs) =
    (case (hex_digit a, hex_digit b) of
       (Some x, Some y) \<Rightarrow> (16 * x + y) # hex_bytes cs
     | _ \<Rightarrow> [])"
| "hex_bytes _ = []"

definition tokenMatchesHash :: "crypto \<Rightarrow> string \<Rightarrow> string \<Rightarrow> bool" where
  "tokenMatchesHash c raw h =
    (let candidate = hex_bytes (sha256Hex c raw); expected = hex_bytes h
     in length candidate = length expected \<and> candidate = expected)"

text \<open>What a digest looks like: 64 lower-case hexadecimal digits.\<close>

definition lower_hex_digit :: "char \<Rightarrow> bool" where
  "lower_hex_digit c \<longleftrightarrow> (let n = of_char c :: nat in (48 \<le> n \<and> n \<le> 57) \<or> (97 \<le> n \<and> n \<le> 102))"

definition sha256_digest :: "string \<Rightarrow> bool" where
  "sha256_digest s \<longleftrightarrow> length s = 64 \<and> list_all lower_hex_digit s"

lemma hex_digit_lower:
  assumes "lower_hex_digit c"
  obtains x where "hex_digit c = Some x" and "x < 16"
  using assms that by (auto simp: lower_hex_digit_def hex_digit_def Let_def)

lemma hex_digit_inj:
  assumes "lower_hex_digit c" and "lower_hex_digit e" and "hex_digit c = hex_digit e"
  shows "c = e"
proof -
  have "(of_char c :: nat) = of_char e"
    using assms
    by (auto simp: lower_hex_digit_def hex_digit_def Let_def simp del: of_char_eq_iff
        split: if_splits)
  then show ?thesis by simp
qed

lemma hex_bytes_inj:
  assumes "list_all lower_hex_digit s" and "list_all lower_hex_digit t"
    and "length s = length t" and "even (length s)" and "hex_bytes s = hex_bytes t"
  shows "s = t"
  using assms
proof (induction s arbitrary: t rule: induct_list012)
  case (2 x)
  from "2.prems"(4) show ?case by simp
next
  case (3 a b cs)
  then obtain a' b' cs' where t: "t = a' # b' # cs'"
    by (cases t rule: hex_bytes.cases) auto
  have lower: "lower_hex_digit a" "lower_hex_digit b" "lower_hex_digit a'" "lower_hex_digit b'"
    and tails: "list_all lower_hex_digit cs" "list_all lower_hex_digit cs'"
      "length cs = length cs'" "even (length cs)"
    using "3.prems" by (simp_all add: t)
  obtain x y x' y' where
    xy: "hex_digit a = Some x" "hex_digit b = Some y" "hex_digit a' = Some x'" "hex_digit b' = Some y'"
    and small: "x < 16" "y < 16" "x' < 16" "y' < 16"
    using lower by (metis hex_digit_lower)
  have eq: "16 * x + y = 16 * x' + y'" and rest: "hex_bytes cs = hex_bytes cs'"
    using "3.prems"(5) xy by (simp_all add: t)
  from eq have "(16 * x + y) div 16 = (16 * x' + y') div 16" by simp
  with small have "x = x'" by simp
  with eq have "y = y'" by simp
  with \<open>x = x'\<close> xy lower have "a = a'" "b = b'"
    by (simp_all add: hex_digit_inj)
  moreover have "cs = cs'"
    using tails rest by (rule "3.IH"(1))
  ultimately show ?case by (simp add: t)
qed simp_all

lemma tokenMatchesHash_iff:
  assumes "sha256_digest (sha256Hex c raw)" and "sha256_digest h"
  shows "tokenMatchesHash c raw h \<longleftrightarrow> sha256Hex c raw = h"
  using assms hex_bytes_inj [of "sha256Hex c raw" h]
  by (auto simp: tokenMatchesHash_def sha256_digest_def Let_def)

lemma tokenMatchesHash_self [simp]: "tokenMatchesHash c raw (sha256Hex c raw)"
  by (simp add: tokenMatchesHash_def)

section \<open>Passwords\<close>

definition hashPassword :: "crypto \<Rightarrow> string \<Rightarrow> string" where
  "hashPassword c password = argon2_hash c password"

definition dummyPasswordHash :: "crypto \<Rightarrow> string" where
  "dummyPasswordHash c = hashPassword c (random_secret c)"

definition verifyPassword :: "crypto \<Rightarrow> string \<Rightarrow> string \<Rightarrow> bool" where
  "verifyPassword c passwordHash password =
    (case argon2_verify c passwordHash password of Some b \<Rightarrow> b | None \<Rightarrow> False)"

section \<open>Durations\<close>

record session_durations =
  idleMs :: int
  absoluteMs :: int

fun SESSION_DURATIONS :: "role \<Rightarrow> session_durations" where
  "SESSION_DURATIONS USER = \<lparr>idleMs = 7 * DAY_MS, absoluteMs = 30 * DAY_MS\<rparr>"
| "SESSION_DURATIONS PROFESSIONAL = \<lparr>idleMs = 1 * DAY_MS, absoluteMs = 7 * DAY_MS\<rparr>"
| "SESSION_DURATIONS ADMIN = \<lparr>idleMs = 1 * DAY_MS, absoluteMs = 7 * DAY_MS\<rparr>"
| "SESSION_DURATIONS SUPER_ADMIN = \<lparr>idleMs = 12 * HOUR_MS, absoluteMs = 3 * DAY_MS\<rparr>"

fun SESSION_ROTATION_INTERVAL_MS :: "role \<Rightarrow> int" where
  "SESSION_ROTATION_INTERVAL_MS USER = 1 * HOUR_MS"
| "SESSION_ROTATION_INTERVAL_MS PROFESSIONAL = 15 * 60 * 1000"
| "SESSION_ROTATION_INTERVAL_MS ADMIN = 15 * 60 * 1000"
| "SESSION_ROTATION_INTERVAL_MS SUPER_ADMIN = 15 * 60 * 1000"

definition SESSION_ROTATION_GRACE_MS :: int where
  "SESSION_ROTATION_GRACE_MS = 60 * 1000"

lemma durations_ordered: "0 < idleMs (SESSION_DURATIONS r)"
  "idleMs (SESSION_DURATIONS r) < absoluteMs (SESSION_DURATIONS r)"
  by (cases r; simp add: limit_values)+

section \<open>Operations\<close>

record created_session =
  cr_session :: session_row
  cr_sessionRaw :: string
  cr_csrfRaw :: string

definition createSessionForUser ::
  "crypto \<Rightarrow> uuid \<Rightarrow> string \<Rightarrow> string \<Rightarrow> uuid \<Rightarrow> role \<Rightarrow> string option \<Rightarrow> string option \<Rightarrow> time
    \<Rightarrow> created_session tx" where
  "createSessionForUser c newId rawSession rawCsrf userId rl addr ua now =
     (let sessionToken = generateOpaqueToken c rawSession;
          csrfToken = generateOpaqueToken c rawCsrf;
          durations = SESSION_DURATIONS rl
      in bindE
          (createSession newId
            \<lparr>cs_userId = userId, cs_createdAt = now, cs_tokenHash = tok_hash sessionToken,
             cs_csrfTokenHash = tok_hash csrfToken, cs_lastSeenAt = now,
             cs_idleExpiresAt = now + idleMs durations,
             cs_absoluteExpiresAt = now + absoluteMs durations, cs_ip = addr, cs_userAgent = ua\<rparr>)
          (\<lambda>s. returnE \<lparr>cr_session = s, cr_sessionRaw = tok_raw sessionToken,
                        cr_csrfRaw = tok_raw csrfToken\<rparr>))"

text \<open>
  \<open>expired_for s now\<close> gathers the three comparisons of \<open>loadValidSession\<close>. The cookie is
  undefined, None, or a text; the empty text is falsy.
\<close>

definition loadValidSession ::
  "crypto \<Rightarrow> string option \<Rightarrow> time \<Rightarrow> session_row option tx" where
  "loadValidSession c rawToken now = (\<lambda>d.
     case rawToken of
       None \<Rightarrow> (Inr None, d)
     | Some raw \<Rightarrow>
         if raw = '''' then (Inr None, d)
         else
           (case findSessionByTokenHash (sha256Hex c raw) d of
              None \<Rightarrow> (Inr None, d)
            | Some s \<Rightarrow>
                if s_revokedAt s \<noteq> None then (Inr None, d)
                else if (case s_rotatedAt s of None \<Rightarrow> False
                         | Some r \<Rightarrow> r + SESSION_ROTATION_GRACE_MS \<le> now) then (Inr None, d)
                else if s_idleExpiresAt s \<le> now then (Inr None, d)
                else if s_absoluteExpiresAt s \<le> now then (Inr None, d)
                else
                  let idleWindowMs = s_idleExpiresAt s - s_lastSeenAt s;
                      slid = min (now + idleWindowMs) (s_absoluteExpiresAt s)
                  in bindE (touchSession (s_id s) now slid) (\<lambda>_. returnE (Some s)) d))"

definition csrfTokenMatchesSession :: "crypto \<Rightarrow> session_row \<Rightarrow> string \<Rightarrow> bool" where
  "csrfTokenMatchesSession c s rawCsrf = tokenMatchesHash c rawCsrf (s_csrfTokenHash s)"

definition isRotationDue :: "session_row \<Rightarrow> role \<Rightarrow> time \<Rightarrow> bool" where
  "isRotationDue s rl now \<longleftrightarrow>
     s_rotatedAt s = None \<and> SESSION_ROTATION_INTERVAL_MS rl \<le> now - s_createdAt s"

definition rotateSessionForUser ::
  "crypto \<Rightarrow> uuid \<Rightarrow> string \<Rightarrow> string \<Rightarrow> session_row \<Rightarrow> uuid \<Rightarrow> role \<Rightarrow> string option \<Rightarrow>
    string option \<Rightarrow> time \<Rightarrow> created_session option tx" where
  "rotateSessionForUser c newId rawSession rawCsrf previous userId rl addr ua now =
     (let sessionToken = generateOpaqueToken c rawSession;
          csrfToken = generateOpaqueToken c rawCsrf;
          idleExpiresAt = min (now + idleMs (SESSION_DURATIONS rl)) (s_absoluteExpiresAt previous)
      in bindE
          (rotateSession newId
            \<lparr>rs_previousSessionId = s_id previous, rs_userId = userId, rs_now = now,
             rs_graceMs = SESSION_ROTATION_GRACE_MS,
             rs_newSession =
               \<lparr>cs_userId = userId, cs_createdAt = now, cs_tokenHash = tok_hash sessionToken,
                cs_csrfTokenHash = tok_hash csrfToken, cs_lastSeenAt = now,
                cs_idleExpiresAt = idleExpiresAt,
                cs_absoluteExpiresAt = s_absoluteExpiresAt previous, cs_ip = addr,
                cs_userAgent = ua\<rparr>\<rparr>)
          (\<lambda>s. returnE (map_option (\<lambda>s. \<lparr>cr_session = s, cr_sessionRaw = tok_raw sessionToken,
                        cr_csrfRaw = tok_raw csrfToken\<rparr>) s)))"

section \<open>When a session is valid\<close>

text \<open>
  The specification \<open>loadValidSession\<close> implements: not revoked, inside its grace period if it
  was rotated, before both expiries.
\<close>

definition session_valid :: "time \<Rightarrow> session_row \<Rightarrow> bool" where
  "session_valid now s \<longleftrightarrow> s_revokedAt s = None \<and>
     (\<forall>r. s_rotatedAt s = Some r \<longrightarrow> now < r + SESSION_ROTATION_GRACE_MS) \<and>
     now < s_idleExpiresAt s \<and> now < s_absoluteExpiresAt s"

text \<open>The row a successful load leaves: the idle window slid, never past the absolute expiry.\<close>

definition touched :: "time \<Rightarrow> session_row \<Rightarrow> session_row" where
  "touched now s = s\<lparr>s_lastSeenAt := now, s_idleExpiresAt :=
     min (now + (s_idleExpiresAt s - s_lastSeenAt s)) (s_absoluteExpiresAt s)\<rparr>"

definition session_of_cookie :: "crypto \<Rightarrow> string option \<Rightarrow> db \<Rightarrow> session_row option" where
  "session_of_cookie c rawToken d =
     (case rawToken of None \<Rightarrow> None
      | Some raw \<Rightarrow> if raw = '''' then None else findSessionByTokenHash (sha256Hex c raw) d)"

lemma session_of_cookie_mem: "session_of_cookie c raw d = Some s \<Longrightarrow> s \<in> set (sessions d)"
  by (auto simp: session_of_cookie_def findSessionByTokenHash_def dest: find_SomeD
      split: option.splits if_splits)

text \<open>The whole of \<open>loadValidSession\<close> in one equation: it never throws.\<close>

lemma loadValidSession_eq:
  "loadValidSession c raw now d =
    (case session_of_cookie c raw d of
       None \<Rightarrow> (Inr None, d)
     | Some s \<Rightarrow>
         if session_valid now s
         then (Inr (Some s), d\<lparr>sessions := update_where (\<lambda>x. s_id x = s_id s)
                (\<lambda>x. x\<lparr>s_lastSeenAt := now, s_idleExpiresAt :=
                   min (now + (s_idleExpiresAt s - s_lastSeenAt s)) (s_absoluteExpiresAt s)\<rparr>)
                (sessions d)\<rparr>)
         else (Inr None, d))"
proof (cases "session_of_cookie c raw d")
  case None
  then show ?thesis
    by (auto simp: loadValidSession_def session_of_cookie_def split: option.splits if_splits)
next
  case (Some s)
  then have "s \<in> set (sessions d)" by (rule session_of_cookie_mem)
  then have *: "\<exists>x \<in> set (sessions d). s_id x = s_id s" by blast
  obtain r where r: "raw = Some r" "r \<noteq> ''''" "findSessionByTokenHash (sha256Hex c r) d = Some s"
    using Some by (auto simp: session_of_cookie_def split: option.splits if_splits)
  show ?thesis
    using * Some r by (cases "s_rotatedAt s")
      (auto simp: loadValidSession_def session_valid_def touchSession_def Let_def bindE_def)
qed

text \<open>With unique identifiers the update touches one row.\<close>

lemma touch_one:
  assumes "distinct (map s_id rows)" and "s \<in> set rows"
  shows "update_where (\<lambda>x. s_id x = s_id s) (\<lambda>x. x\<lparr>s_lastSeenAt := now, s_idleExpiresAt :=
           min (now + (s_idleExpiresAt s - s_lastSeenAt s)) (s_absoluteExpiresAt s)\<rparr>) rows
       = update_where (\<lambda>x. s_id x = s_id s) (touched now) rows"
  unfolding update_where_def
proof (rule map_cong [OF refl])
  fix x assume "x \<in> set rows"
  with assms have "s_id x = s_id s \<Longrightarrow> x = s" by (auto dest: unique_key)
  then show "(if s_id x = s_id s then x\<lparr>s_lastSeenAt := now, s_idleExpiresAt :=
           min (now + (s_idleExpiresAt s - s_lastSeenAt s)) (s_absoluteExpiresAt s)\<rparr> else x)
    = (if s_id x = s_id s then touched now x else x)"
    by (auto simp: touched_def)
qed

lemma loadValidSession_wf_eq:
  assumes "sessions_wf d"
  shows "loadValidSession c raw now d =
    (case session_of_cookie c raw d of
       None \<Rightarrow> (Inr None, d)
     | Some s \<Rightarrow>
         if session_valid now s
         then (Inr (Some s),
               d\<lparr>sessions := update_where (\<lambda>x. s_id x = s_id s) (touched now) (sessions d)\<rparr>)
         else (Inr None, d))"
  using assms touch_one [of "sessions d"]
  by (auto simp: loadValidSession_eq sessions_wf_def dest!: session_of_cookie_mem
      split: option.splits)

lemma good_step_loadValidSession:
  assumes "loadValidSession c raw now d = (r, d')"
  shows "good_step d d'"
proof (cases "session_of_cookie c raw d")
  case None
  with assms show ?thesis by (simp add: loadValidSession_eq good_step_refl)
next
  case (Some s)
  show ?thesis
  proof (cases "session_valid now s")
    case True
    let ?f = "\<lambda>x. x\<lparr>s_lastSeenAt := now, s_idleExpiresAt :=
           min (now + (s_idleExpiresAt s - s_lastSeenAt s)) (s_absoluteExpiresAt s)\<rparr>"
    have d': "sessions d' = update_where (\<lambda>x. s_id x = s_id s) ?f (sessions d)"
      using assms Some True by (auto simp: loadValidSession_eq)
    have evolve: "sessions_evolve d d'"
      by (rule sessions_evolve_update [OF d']) (auto simp: session_later_def)
    have "sessions_wf d'" if wf: "sessions_wf d"
    proof (rule sessions_wf_update [OF wf d'])
      fix x assume "x \<in> set (sessions d)" "s_id x = s_id s" "session_row_ok x"
      with wf session_of_cookie_mem [OF Some] have "x = s"
        by (auto simp: sessions_wf_def dest: unique_key)
      with \<open>session_row_ok x\<close> show "session_row_ok (?f x)"
        by (simp add: session_row_ok_def)
    qed simp
    with evolve show ?thesis by (simp add: good_step_def)
  next
    case False
    with assms Some show ?thesis by (simp add: loadValidSession_eq good_step_refl)
  qed
qed

lemma good_step_createSessionForUser:
  assumes "createSessionForUser c newId raw csrf userId rl addr ua now d = (r, d')"
  shows "good_step d d'"
  using assms unfolding createSessionForUser_def Let_def
  by (rule bindE_cases)
    (use durations_ordered(2) [of rl] in \<open>auto elim!: good_step_createSession\<close>)

lemma good_step_rotateSessionForUser:
  assumes "rotateSessionForUser c newId raw csrf previous userId rl addr ua now d = (r, d')"
  shows "good_step d d'"
  using assms unfolding rotateSessionForUser_def Let_def
  by (rule bindE_cases) (auto elim!: good_step_rotateSession)

end
