(* ===== verification/Auth_Service.thy ===== *)
theory Auth_Service
  imports Auth_Session
begin

text \<open>
  \<open>AuthService\<close> (apps/api/src/modules/auth/auth.service.ts) and the public shapes of
  auth.mapper.ts: one definition per method, over the repository operations of
  \<open>Auth_Repository\<close> and the session operations of \<open>Auth_Session\<close>.
\<close>

section \<open>What a call is given\<close>

text \<open>The options of the service, and what the clocks, the generators and the database give.\<close>

record auth_cfg =
  isProduction :: bool
  accountLoginAttemptLimit :: nat
  accountLoginWindowMs :: int

definition default_auth_cfg :: "bool \<Rightarrow> auth_cfg" where
  "default_auth_cfg production =
    \<lparr>isProduction = production, accountLoginAttemptLimit = 5,
     accountLoginWindowMs = 24 * 60 * 60 * 1000\<rparr>"

text \<open>
  \<open>sup_now\<close> and \<open>sup_now2\<close> are the first and the second reading of the service's clock,
  \<open>sup_pgNow\<close> is PostgreSQL's \<open>clock_timestamp()\<close>, \<open>sup_wall\<close> the \<open>new Date()\<close> of a revocation.
\<close>

record supplies =
  sup_now :: time
  sup_now2 :: time
  sup_pgNow :: time
  sup_wall :: time
  sup_newId :: uuid
  sup_outboxId :: uuid
  sup_sessionRaw :: string
  sup_csrfRaw :: string
  sup_fault :: "prisma_error option"

record public_user =
  pu_id :: uuid
  pu_email :: string
  pu_fullName :: string
  pu_role :: role
  pu_emailVerified :: bool
  pu_createdAt :: time

record public_session =
  ps_id :: uuid
  ps_createdAt :: time
  ps_lastSeenAt :: time
  ps_ip :: "string option"
  ps_userAgent :: "string option"
  ps_current :: bool

definition toPublicUser :: "user_row \<Rightarrow> public_user" where
  "toPublicUser u =
    \<lparr>pu_id = u_id u, pu_email = u_email u, pu_fullName = u_fullName u, pu_role = u_role u,
     pu_emailVerified = (u_emailVerifiedAt u \<noteq> None), pu_createdAt = u_createdAt u\<rparr>"

definition toPublicSession :: "session_row \<Rightarrow> uuid \<Rightarrow> public_session" where
  "toPublicSession s currentSessionId =
    \<lparr>ps_id = s_id s, ps_createdAt = s_createdAt s, ps_lastSeenAt = s_lastSeenAt s,
     ps_ip = s_ip s, ps_userAgent = s_userAgent s, ps_current = (s_id s = currentSessionId)\<rparr>"

record login_result =
  lr_user :: public_user
  lr_sessionRaw :: string
  lr_csrfRaw :: string

record current_user =
  cur_user :: public_user
  cur_session :: session_row
  cur_actor :: actor

datatype login_outcome =
    Throttled int | InvalidCredentials | MfaRequired | Granted user_row

section \<open>Texts\<close>

text \<open>\<open>trim()\<close> and \<open>toLowerCase()\<close> on code units below 256.\<close>

definition js_space :: "char \<Rightarrow> bool" where
  "js_space c \<longleftrightarrow> (of_char c :: nat) \<in> {9, 10, 11, 12, 13, 32, 160}"

definition js_trim :: "string \<Rightarrow> string" where
  "js_trim s = rev (dropWhile js_space (rev (dropWhile js_space s)))"

definition js_lower :: "char \<Rightarrow> char" where
  "js_lower c = (let n = of_char c :: nat in
     if (65 \<le> n \<and> n \<le> 90) \<or> (192 \<le> n \<and> n \<le> 222 \<and> n \<noteq> 215) then char_of (n + 32) else c)"

definition normalizeEmail :: "string \<Rightarrow> string" where
  "normalizeEmail email = map js_lower (js_trim email)"

section \<open>Audit entries\<close>

definition loginFailure ::
  "user_row option \<Rightarrow> string \<Rightarrow> request_context \<Rightarrow> string option \<Rightarrow> audit_entry" where
  "loginFailure user emailHash ctx reason =
    (request_entry ctx ''auth.login.failed'')
      \<lparr>actorUserId := map_option u_id user, actorRole := map_option u_role user,
       entityType := (case user of None \<Rightarrow> None | Some _ \<Rightarrow> Some ''User''),
       entityId := map_option u_id user,
       metadata := Some ((''emailHash'', JStr emailHash) #
         (case reason of None \<Rightarrow> [] | Some r \<Rightarrow> [(''reason'', JStr r)]))\<rparr>"

definition loginRateLimited :: "string \<Rightarrow> int \<Rightarrow> request_context \<Rightarrow> audit_entry" where
  "loginRateLimited emailHash retryAfterSeconds ctx =
    (request_entry ctx ''auth.login.rate_limited'')
      \<lparr>metadata := Some [(''emailHash'', JStr emailHash),
                         (''retryAfterSeconds'', JNum retryAfterSeconds)]\<rparr>"

text \<open>The entry of an event whose actor is the user it concerns.\<close>

definition user_event :: "string \<Rightarrow> request_context \<Rightarrow> user_row \<Rightarrow> audit_entry" where
  "user_event act ctx u =
    (request_entry ctx act)\<lparr>actorUserId := Some (u_id u), actorRole := Some (u_role u),
      entityType := Some ''User'', entityId := Some (u_id u)\<rparr>"

section \<open>Registration\<close>

definition auditDuplicateRegistration ::
  "supplies \<Rightarrow> uuid option \<Rightarrow> request_context \<Rightarrow> db \<Rightarrow> db" where
  "auditDuplicateRegistration env existingUserId ctx d =
     writeAuditLog
       ((request_entry ctx ''auth.register'')
         \<lparr>entityType := Some ''User'', entityId := existingUserId,
          metadata := Some [(''outcome'', JStr ''duplicate'')]\<rparr>)
       (sup_pgNow env) d"

record register_input =
  ri_email :: string
  ri_password :: string
  ri_fullName :: string

text \<open>
  \<open>race\<close> is whatever other requests do between the existence check and the insertion: a
  concurrent registration of the same address is an instance.
\<close>

definition register ::
  "crypto \<Rightarrow> supplies \<Rightarrow> (db \<Rightarrow> db) \<Rightarrow> register_input \<Rightarrow> request_context \<Rightarrow> unit tx" where
  "register c env race input ctx = (\<lambda>d.
     let email = normalizeEmail (ri_email input);
         passwordHash = hashPassword c (ri_password input)
     in case findUserByEmail email d of
          Some existing \<Rightarrow> (Inr (), auditDuplicateRegistration env (Some (u_id existing)) ctx d)
        | None \<Rightarrow>
            (case createUserWithEmailVerification (sup_newId env) (sup_outboxId env) (sup_pgNow env)
                    \<lparr>cu_email = email, cu_passwordHash = passwordHash,
                     cu_fullName = js_trim (ri_fullName input)\<rparr> (race d) of
               (Inl DuplicateEmailError, d) \<Rightarrow>
                 (Inr (), auditDuplicateRegistration env
                    (map_option u_id (findUserByEmail email d)) ctx d)
             | (Inl e, d) \<Rightarrow> (Inl e, d)
             | (Inr u, d) \<Rightarrow>
                 (Inr (), writeAuditLog
                   ((user_event ''auth.register'' ctx u)
                      \<lparr>metadata := Some [(''outcome'', JStr ''created'')]\<rparr>)
                   (sup_pgNow env) d)))"

section \<open>Login\<close>

record login_input =
  li_email :: string
  li_password :: string

text \<open>The attempt, run inside the transaction that holds the account's lock.\<close>

definition login_attempt ::
  "crypto \<Rightarrow> auth_cfg \<Rightarrow> string \<Rightarrow> string \<Rightarrow> string \<Rightarrow> request_context \<Rightarrow> attempt_scope
    \<Rightarrow> login_outcome tx" where
  "login_attempt c cfg email emailHash password ctx attempt = (\<lambda>d.
     let remainingMs = remainingLoginDelayMs (accountLoginAttemptLimit cfg)
           (recentEvents attempt) (lastEventAt attempt) (scope_now attempt)
     in if 0 < remainingMs then
          let retryAfterSeconds = retry_after_seconds remainingMs
          in (Inr (Throttled retryAfterSeconds),
              insert_audit (loginRateLimited emailHash retryAfterSeconds ctx) (scope_now attempt) d)
        else
          let user = findUserByEmail email d;
              stored = (case user of Some u \<Rightarrow> u_passwordHash u | None \<Rightarrow> dummyPasswordHash c);
              passwordOk = verifyPassword c stored password
          in case user of
               None \<Rightarrow>
                 (Inr InvalidCredentials,
                  insert_audit (loginFailure None emailHash ctx None) (scope_now attempt) d)
             | Some u \<Rightarrow>
                 if \<not> passwordOk \<or> u_status u \<noteq> ACTIVE then
                   (Inr InvalidCredentials,
                    insert_audit (loginFailure (Some u) emailHash ctx None) (scope_now attempt) d)
                 else if isProduction cfg \<and> (u_role u = ADMIN \<or> u_role u = SUPER_ADMIN) then
                   (Inr MfaRequired,
                    insert_audit (loginFailure (Some u) emailHash ctx (Some ''mfa_required_production''))
                      (scope_now attempt) d)
                 else (Inr (Granted u), d))"

text \<open>The session the browser already held is revoked once the new one exists.\<close>

definition end_previous :: "crypto \<Rightarrow> time \<Rightarrow> string option \<Rightarrow> db \<Rightarrow> db" where
  "end_previous c wall previousSessionRaw d =
    (case previousSessionRaw of
       None \<Rightarrow> d
     | Some prev \<Rightarrow>
         if prev = '''' then d
         else (case findSessionByTokenHash (sha256Hex c prev) d of
                 None \<Rightarrow> d
               | Some s \<Rightarrow> snd (revokeSession wall (s_id s) ROTATED None d)))"

definition login ::
  "crypto \<Rightarrow> auth_cfg \<Rightarrow> supplies \<Rightarrow> login_input \<Rightarrow> request_context \<Rightarrow> string option
    \<Rightarrow> login_result tx" where
  "login c cfg env input ctx previousSessionRaw = (\<lambda>d.
     let email = normalizeEmail (li_email input);
         emailHash = sha256Hex c email
     in case runLoginAttempt (sup_fault env) (sup_pgNow env) emailHash (accountLoginWindowMs cfg)
               (login_attempt c cfg email emailHash (li_password input) ctx) d of
          (Inl LoginAttemptUnavailableError, d) \<Rightarrow> (Inl serviceUnavailable, d)
        | (Inl e, d) \<Rightarrow> (Inl e, d)
        | (Inr (Throttled retryAfterSeconds), d) \<Rightarrow> (Inl (rateLimited retryAfterSeconds), d)
        | (Inr InvalidCredentials, d) \<Rightarrow>
            (Inl (HttpError (http_error 401 INVALID_CREDENTIALS ''Credenciales invalidas.'')), d)
        | (Inr MfaRequired, d) \<Rightarrow>
            (Inl (HttpError (http_error 403 FORBIDDEN
               ''El inicio de sesion para este rol requiere autenticacion multifactor, aun no disponible.'')), d)
        | (Inr (Granted u), d) \<Rightarrow>
            bindE (createSessionForUser c (sup_newId env) (sup_sessionRaw env) (sup_csrfRaw env)
                     (u_id u) (u_role u) (ctx_ip ctx) (ctx_userAgent ctx) (sup_now env))
              (\<lambda>created d.
                 let d = end_previous c (sup_wall env) previousSessionRaw d;
                     d = writeAuditLog (user_event ''auth.login.success'' ctx u) (sup_pgNow env) d
                 in (Inr \<lparr>lr_user = toPublicUser u, lr_sessionRaw = cr_sessionRaw created,
                          lr_csrfRaw = cr_csrfRaw created\<rparr>, d)) d)"

section \<open>The current user\<close>

definition currentUser :: "crypto \<Rightarrow> time \<Rightarrow> string option \<Rightarrow> current_user option tx" where
  "currentUser c now sessionRawToken =
     bindE (loadValidSession c sessionRawToken now)
       (\<lambda>loaded d. case loaded of
          None \<Rightarrow> (Inr None, d)
        | Some s \<Rightarrow>
            (case findUserById (s_userId s) d of
               None \<Rightarrow> (Inr None, d)
             | Some u \<Rightarrow>
                 if u_status u \<noteq> ACTIVE then (Inr None, d)
                 else (Inr (Some \<lparr>cur_user = toPublicUser u, cur_session = s,
                        cur_actor = \<lparr>actor_id = u_id u, actor_role = u_role u, actor_status = u_status u\<rparr>\<rparr>), d)))"

definition readOwnProfile :: "crypto \<Rightarrow> time \<Rightarrow> string option \<Rightarrow> public_user tx" where
  "readOwnProfile c now raw =
     bindE (currentUser c now raw)
       (\<lambda>current. case current of
          None \<Rightarrow> throwE unauthenticated
        | Some cur \<Rightarrow>
            if \<not> allowed (auth_can (cur_actor cur) ''user:read'' (pu_id (cur_user cur)))
            then throwE notFound else returnE (cur_user cur))"

definition listOwnSessions ::
  "crypto \<Rightarrow> time \<Rightarrow> time \<Rightarrow> string option \<Rightarrow> public_session list tx" where
  "listOwnSessions c now now2 raw =
     bindE (currentUser c now raw)
       (\<lambda>current d. case current of
          None \<Rightarrow> (Inl unauthenticated, d)
        | Some cur \<Rightarrow>
            if \<not> allowed (auth_can (cur_actor cur) ''session:list'' (pu_id (cur_user cur)))
            then (Inl notFound, d)
            else (Inr (map (\<lambda>s. toPublicSession s (s_id (cur_session cur)))
                     (listActiveSessions (pu_id (cur_user cur)) now2 d)), d))"

text \<open>None stands for \<open>{ rotated: false }\<close>.\<close>

definition rotateSession_service ::
  "crypto \<Rightarrow> supplies \<Rightarrow> current_user \<Rightarrow> request_context \<Rightarrow> (string \<times> string) option tx" where
  "rotateSession_service c env current ctx =
     (if \<not> allowed (auth_can (cur_actor current) ''session:revoke'' (pu_id (cur_user current)))
      then throwE notFound
      else if \<not> isRotationDue (cur_session current) (actor_role (cur_actor current)) (sup_now env)
      then returnE None
      else bindE (rotateSessionForUser c (sup_newId env) (sup_sessionRaw env) (sup_csrfRaw env)
                   (cur_session current) (pu_id (cur_user current)) (actor_role (cur_actor current))
                   (ctx_ip ctx) (ctx_userAgent ctx) (sup_now2 env))
             (\<lambda>created. returnE (map_option (\<lambda>cr. (cr_sessionRaw cr, cr_csrfRaw cr)) created)))"

section \<open>Email verification and password recovery\<close>

definition invalid_or_expired :: exn where
  "invalid_or_expired = HttpError (http_error 400 INVALID_OR_EXPIRED_TOKEN
     ''El enlace no es valido o ha caducado.'')"

definition verifyEmail :: "crypto \<Rightarrow> supplies \<Rightarrow> string \<Rightarrow> request_context \<Rightarrow> unit tx" where
  "verifyEmail c env token ctx =
     bindE (consumeEmailVerificationToken (sup_pgNow env) (sha256Hex c token)
              (Some (user_event ''auth.email.verified'' ctx)))
       (\<lambda>userId. case userId of
          None \<Rightarrow> throwE invalid_or_expired
        | Some i \<Rightarrow> if i = '''' then throwE invalid_or_expired else returnE ())"

datatype email_outcome = EmailThrottled int | EmailRequested

definition email_answer :: "(exn + email_outcome) \<times> db \<Rightarrow> (exn + unit) \<times> db" where
  "email_answer r =
    (case r of
       (Inl LoginAttemptUnavailableError, d) \<Rightarrow> (Inl serviceUnavailable, d)
     | (Inl e, d) \<Rightarrow> (Inl e, d)
     | (Inr (EmailThrottled retryAfterSeconds), d) \<Rightarrow> (Inl (rateLimited retryAfterSeconds), d)
     | (Inr EmailRequested, d) \<Rightarrow> (Inr (), d))"

definition resendEmailVerification :: "supplies \<Rightarrow> current_user \<Rightarrow> unit tx" where
  "resendEmailVerification env current = (\<lambda>d.
     if pu_emailVerified (cur_user current) then (Inr (), d)
     else email_answer
       (runEmailVerificationResend (sup_fault env) (sup_pgNow env) (pu_id (cur_user current))
          (dl_windowMs RESEND_ACCOUNT_LIMIT)
          (\<lambda>scope d.
             let remainingMs = remainingProgressiveDelayMs (recentEvents scope)
                   (lastEventAt scope) (scope_now scope) RESEND_ACCOUNT_LIMIT
             in if 0 < remainingMs
                then (Inr (EmailThrottled (retry_after_seconds remainingMs)), d)
                else (Inr EmailRequested,
                      insert_outbox (sup_outboxId env) Kind_EMAIL_VERIFICATION
                        (pu_id (cur_user current)) (scope_now scope) d)) d))"

definition forgotPassword :: "crypto \<Rightarrow> supplies \<Rightarrow> string \<Rightarrow> request_context \<Rightarrow> unit tx" where
  "forgotPassword c env inputEmail ctx = (\<lambda>d.
     let email = normalizeEmail inputEmail;
         emailHash = sha256Hex c email
     in email_answer
       (runPasswordResetRequest (sup_fault env) (sup_pgNow env) emailHash
          (dl_windowMs FORGOT_EMAIL_LIMIT)
          (\<lambda>scope d.
             let remainingMs = remainingProgressiveDelayMs (recentEvents scope)
                   (lastEventAt scope) (scope_now scope) FORGOT_EMAIL_LIMIT
             in if 0 < remainingMs
                then (Inr (EmailThrottled (retry_after_seconds remainingMs)), d)
                else
                  let user = findUserByEmail email d;
                      d = insert_audit
                        ((request_entry ctx ''auth.password.reset_requested'')
                          \<lparr>actorUserId := map_option u_id user, actorRole := map_option u_role user,
                           entityType := (case user of None \<Rightarrow> None | Some _ \<Rightarrow> Some ''User''),
                           entityId := map_option u_id user,
                           metadata := Some [(''emailHash'', JStr emailHash)]\<rparr>)
                        (scope_now scope) d;
                      d = (case user of
                             None \<Rightarrow> d
                           | Some u \<Rightarrow> insert_outbox (sup_outboxId env) Kind_PASSWORD_RESET (u_id u)
                               (scope_now scope) d)
                  in (Inr EmailRequested, d)) d))"

definition resetPassword_service ::
  "crypto \<Rightarrow> supplies \<Rightarrow> string \<Rightarrow> string \<Rightarrow> request_context \<Rightarrow> unit tx" where
  "resetPassword_service c env token newPassword ctx =
     bindE (resetPassword (sup_pgNow env) (sup_outboxId env)
              \<lparr>rp_tokenHash = sha256Hex c token, rp_passwordHash = hashPassword c newPassword,
               rp_audit = user_event ''auth.password.reset_completed'' ctx\<rparr>)
       (\<lambda>user. case user of None \<Rightarrow> throwE invalid_or_expired | Some _ \<Rightarrow> returnE ())"

section \<open>Ending sessions\<close>

text \<open>The entry of an action on the current user's sessions.\<close>

definition current_entry ::
  "string \<Rightarrow> request_context \<Rightarrow> current_user \<Rightarrow> string \<Rightarrow> uuid \<Rightarrow> audit_entry" where
  "current_entry act ctx current etype eid =
    (request_entry ctx act)\<lparr>actorUserId := Some (pu_id (cur_user current)),
      actorRole := Some (pu_role (cur_user current)), entityType := Some etype,
      entityId := Some eid\<rparr>"

definition revokeOwnSession_service ::
  "supplies \<Rightarrow> current_user \<Rightarrow> uuid \<Rightarrow> request_context \<Rightarrow> bool tx" where
  "revokeOwnSession_service env current sessionId ctx = (\<lambda>d.
     if \<not> allowed (auth_can (cur_actor current) ''session:revoke'' (pu_id (cur_user current)))
     then (Inl notFound, d)
     else (case revokeOwnSession (sup_wall env) sessionId (pu_id (cur_user current)) (sup_now env)
                 LOGOUT (Some (current_entry ''auth.session.revoked'' ctx current ''Session'' sessionId)) d of
             (revoked, d) \<Rightarrow>
               if \<not> revoked then (Inl notFound, d)
               else (Inr (sessionId = s_id (cur_session current)), d)))"

definition logoutAll :: "supplies \<Rightarrow> current_user \<Rightarrow> request_context \<Rightarrow> unit tx" where
  "logoutAll env current ctx = (\<lambda>d.
     if \<not> allowed (auth_can (cur_actor current) ''session:revoke'' (pu_id (cur_user current)))
     then (Inl notFound, d)
     else (Inr (), snd (revokeAllOwnSessions (sup_wall env) (pu_id (cur_user current)) LOGOUT_ALL
             (Some (current_entry ''auth.logout_all'' ctx current ''User'' (pu_id (cur_user current)))) d)))"

definition logout :: "crypto \<Rightarrow> supplies \<Rightarrow> string option \<Rightarrow> request_context \<Rightarrow> unit tx" where
  "logout c env raw ctx =
     bindE (loadValidSession c raw (sup_now env))
       (\<lambda>loaded d. case loaded of
          None \<Rightarrow> (Inr (), d)
        | Some s \<Rightarrow>
            (Inr (), snd (revokeSession (sup_wall env) (s_id s) LOGOUT
               (Some ((request_entry ctx ''auth.logout'')
                 \<lparr>actorUserId := Some (s_userId s),
                  actorRole := map_option u_role (findUserById (s_userId s) d),
                  entityType := Some ''Session'', entityId := Some (s_id s)\<rparr>)) d)))"

section \<open>CSRF\<close>

definition verifyCsrf :: "crypto \<Rightarrow> session_row \<Rightarrow> string option \<Rightarrow> bool" where
  "verifyCsrf c s rawCsrf =
    (case rawCsrf of None \<Rightarrow> False
     | Some raw \<Rightarrow> if raw = '''' then False else csrfTokenMatchesSession c s raw)"

definition rotateCsrfToken :: "uuid \<Rightarrow> string \<Rightarrow> unit tx" where
  "rotateCsrfToken sessionId csrfTokenHash = rotateSessionCsrf sessionId csrfTokenHash"

end
