(* ===== verification/Auth_Steps.thy ===== *)
theory Auth_Steps
  imports Auth_Service
begin

text \<open>
  The operations of the authentication service as steps of the shared database: what each one
  goes through, the proof that each keeps the session table well formed and one-way
  (\<open>good_step\<close>), and the step relation \<open>auth_step\<close> with its reachable states.
\<close>

section \<open>Attempts under a lock\<close>

lemma locked_attempt_cases:
  assumes "locked_attempt fault body d = (r, d')"
  obtains e where "r = Inl e" and "d' = d"
  | x where "r = Inr x" and "fault = None" and "body d = (Inr x, d')"
proof (cases fault)
  case (Some f)
  with assms that(1) show ?thesis
    by (auto simp: locked_attempt_def catchE_def split: if_splits)
next
  case None
  then have eq: "locked_attempt fault body d = (case transaction body d of
      (Inl e, s) \<Rightarrow> (if isLoginAttemptUnavailable e then throwE LoginAttemptUnavailableError else throwE e) s
    | (Inr x, s) \<Rightarrow> (Inr x, s))"
    by (simp add: locked_attempt_def catchE_def)
  obtain t s where t: "transaction body d = (t, s)" by fastforce
  show ?thesis
  proof (cases t)
    case (Inl e)
    with t have "s = d" by (auto dest: transaction_Inl)
    with assms eq t Inl that(1) show ?thesis by (auto split: if_splits)
  next
    case (Inr x)
    with assms eq t None that(2) show ?thesis by auto
  qed
qed

text \<open>The scope an attempt is given: its email's events in the window, at the lock's time.\<close>

definition login_scope :: "auth_cfg \<Rightarrow> supplies \<Rightarrow> string \<Rightarrow> db \<Rightarrow> attempt_scope" where
  "login_scope cfg env emailHash d =
    (let ts = email_events ''auth.login.failed'' emailHash (sup_pgNow env) (accountLoginWindowMs cfg) d
     in \<lparr>recentEvents = length ts, lastEventAt = latest ts, scope_now = sup_pgNow env\<rparr>)"

definition login_wait :: "auth_cfg \<Rightarrow> supplies \<Rightarrow> string \<Rightarrow> db \<Rightarrow> int" where
  "login_wait cfg env emailHash d =
    (let scope = login_scope cfg env emailHash d
     in remainingLoginDelayMs (accountLoginAttemptLimit cfg) (recentEvents scope)
          (lastEventAt scope) (scope_now scope))"

lemma runLoginAttempt_None:
  assumes "\<And>scope. \<exists>x d'. att scope d = (Inr x, d')"
  shows "runLoginAttempt None (sup_pgNow env) emailHash (accountLoginWindowMs cfg) att d
    = att (login_scope cfg env emailHash d) d"
proof -
  obtain x d' where *: "att (login_scope cfg env emailHash d) d = (Inr x, d')"
    using assms by blast
  then show ?thesis
    by (simp add: runLoginAttempt_def locked_attempt_def catchE_def transaction_def
        login_scope_def Let_def)
qed

text \<open>The five ways an attempt ends.\<close>

definition mfa_barred :: "auth_cfg \<Rightarrow> user_row \<Rightarrow> bool" where
  "mfa_barred cfg u \<longleftrightarrow> isProduction cfg \<and> (u_role u = ADMIN \<or> u_role u = SUPER_ADMIN)"

definition credentials_ok :: "crypto \<Rightarrow> string \<Rightarrow> string \<Rightarrow> db \<Rightarrow> user_row option" where
  "credentials_ok c email password d =
    (case findUserByEmail email d of
       None \<Rightarrow> None
     | Some u \<Rightarrow> if verifyPassword c (u_passwordHash u) password \<and> u_status u = ACTIVE
                then Some u else None)"

lemma login_attempt_cases:
  "login_attempt c cfg email h pw ctx (login_scope cfg env h d) d =
    (if 0 < login_wait cfg env h d then
       (Inr (Throttled (retry_after_seconds (login_wait cfg env h d))),
        insert_audit (loginRateLimited h (retry_after_seconds (login_wait cfg env h d)) ctx)
          (sup_pgNow env) d)
     else case credentials_ok c email pw d of
       None \<Rightarrow> (Inr InvalidCredentials,
         insert_audit (loginFailure (findUserByEmail email d) h ctx None) (sup_pgNow env) d)
     | Some u \<Rightarrow>
         if mfa_barred cfg u then (Inr MfaRequired,
           insert_audit (loginFailure (Some u) h ctx (Some ''mfa_required_production''))
             (sup_pgNow env) d)
         else (Inr (Granted u), d))"
  by (auto simp: login_attempt_def login_wait_def login_scope_def credentials_ok_def
      mfa_barred_def Let_def split: option.splits)

lemma login_attempt_total: "\<exists>x d'. login_attempt c cfg email h pw ctx scope d = (Inr x, d')"
  by (auto simp: login_attempt_def Let_def split: option.splits)

text \<open>The attempt inside \<open>login\<close>, as one equation.\<close>

lemma login_run_None:
  "runLoginAttempt None (sup_pgNow env) h (accountLoginWindowMs cfg)
      (login_attempt c cfg email h pw ctx) d
    = login_attempt c cfg email h pw ctx (login_scope cfg env h d) d"
  by (rule runLoginAttempt_None) (rule login_attempt_total)

lemma login_run_Some:
  "runLoginAttempt (Some f) now h w att d =
    (Inl (if isLoginAttemptUnavailable (PrismaError f) then LoginAttemptUnavailableError
          else PrismaError f), d)"
  by (simp add: runLoginAttempt_def locked_attempt_def catchE_def)

text \<open>What a login that answers with a session went through.\<close>

lemma login_Inr_cases:
  assumes "login c cfg env input ctx prev d = (Inr res, d')"
  obtains u cr d1 where
    "sup_fault env = None"
    "login_wait cfg env (sha256Hex c (normalizeEmail (li_email input))) d \<le> 0"
    "credentials_ok c (normalizeEmail (li_email input)) (li_password input) d = Some u"
    "\<not> mfa_barred cfg u"
    "createSessionForUser c (sup_newId env) (sup_sessionRaw env) (sup_csrfRaw env) (u_id u)
       (u_role u) (ctx_ip ctx) (ctx_userAgent ctx) (sup_now env) d = (Inr cr, d1)"
    "d' = insert_audit (user_event ''auth.login.success'' ctx u) (sup_pgNow env)
            (end_previous c (sup_wall env) prev d1)"
    "res = \<lparr>lr_user = toPublicUser u, lr_sessionRaw = cr_sessionRaw cr, lr_csrfRaw = cr_csrfRaw cr\<rparr>"
proof (cases "sup_fault env")
  case (Some f)
  with assms show ?thesis
    by (auto simp: login_def login_run_Some Let_def split: exn.splits if_splits)
next
  case None
  let ?email = "normalizeEmail (li_email input)"
  let ?h = "sha256Hex c ?email"
  have wait: "login_wait cfg env ?h d \<le> 0"
    using assms None
    by (cases "0 < login_wait cfg env ?h d")
      (auto simp: login_def login_run_None login_attempt_cases Let_def)
  obtain u where u: "credentials_ok c ?email (li_password input) d = Some u"
    using assms None wait
    by (cases "credentials_ok c ?email (li_password input) d")
      (auto simp: login_def login_run_None login_attempt_cases Let_def)
  have nm: "\<not> mfa_barred cfg u"
    using assms None wait u
    by (cases "mfa_barred cfg u") (auto simp: login_def login_run_None login_attempt_cases Let_def)
  show ?thesis
    using assms None wait u nm
    by (auto simp: login_def login_run_None login_attempt_cases Let_def bindE_eq_Inr
        writeAuditLog_def intro!: that)
qed

section \<open>Every operation keeps the session table well formed and one-way\<close>

lemma good_step_end_previous: "good_step d (end_previous c wall prev d)"
proof -
  have "good_step d (snd (revokeSession wall i ROTATED None d))" for i
    by (rule good_step_revokeSession [where b = "fst (revokeSession wall i ROTATED None d)"]) simp
  then show ?thesis
    by (auto simp: end_previous_def good_step_refl split: option.splits)
qed

lemma good_step_insert_audit: "good_step d d' \<Longrightarrow> good_step d (insert_audit e t d')"
  by (erule good_step_trans) (rule good_step_refl, simp)

lemma good_step_login_attempt:
  assumes "login_attempt c cfg email h pw ctx scope d = (r, d')"
  shows "good_step d d'"
  using assms
  by (auto simp: login_attempt_def Let_def good_step_refl split: option.splits if_splits)

lemma good_step_login:
  assumes "login c cfg env input ctx prev d = (r, d')"
  shows "good_step d d'"
proof (cases r)
  case (Inr res)
  from assms [unfolded Inr] show ?thesis
  proof (cases rule: login_Inr_cases)
    case (1 u cr d1)
    have "good_step d d1"
      using 1(5) by (rule good_step_createSessionForUser)
    then show ?thesis
      using good_step_end_previous good_step_trans unfolding 1(6) by (blast intro: good_step_insert_audit)
  qed
next
  case (Inl e)
  let ?h = "sha256Hex c (normalizeEmail (li_email input))"
  let ?att = "login_attempt c cfg (normalizeEmail (li_email input)) ?h (li_password input) ctx"
  obtain t d1 where t: "runLoginAttempt (sup_fault env) (sup_pgNow env) ?h
      (accountLoginWindowMs cfg) ?att d = (t, d1)" by fastforce
  then have d1: "good_step d d1"
    unfolding runLoginAttempt_def Let_def
    by (rule locked_attempt_cases) (auto intro: good_step_refl good_step_login_attempt)
  show ?thesis
  proof (cases "\<exists>u. t = Inr (Granted u)")
    case True
    then obtain u where u: "t = Inr (Granted u)" by blast
    obtain q d2 where q: "createSessionForUser c (sup_newId env) (sup_sessionRaw env)
        (sup_csrfRaw env) (u_id u) (u_role u) (ctx_ip ctx) (ctx_userAgent ctx) (sup_now env) d1 = (q, d2)"
      by fastforce
    then have "good_step d1 d2" by (rule good_step_createSessionForUser)
    moreover have "d' = d2"
      using assms t u q Inl by (auto simp: login_def bindE_def split: sum.splits)
    ultimately show ?thesis using d1 by (blast intro: good_step_trans)
  next
    case False
    then have "d' = d1"
      using assms t by (auto simp: login_def split: sum.splits exn.splits login_outcome.splits)
    with d1 show ?thesis by simp
  qed
qed

lemma good_step_currentUser:
  assumes "currentUser c now raw d = (r, d')"
  shows "good_step d d'"
  using assms unfolding currentUser_def
  by (rule bindE_cases)
    (auto dest: good_step_loadValidSession split: option.splits if_splits)

lemma good_step_register:
  assumes "register c env race input ctx d = (r, d')" and "good_step d (race d)"
  shows "good_step d d'"
proof (cases "findUserByEmail (normalizeEmail (ri_email input)) d")
  case None
  then have "sessions d' = sessions (race d)"
    using assms(1)
    by (auto simp: register_def Let_def auditDuplicateRegistration_def writeAuditLog_def
        createUserWithEmailVerification_def createUser_def transaction_def bindE_def
        split: if_splits)
  with assms(2) show ?thesis by (blast intro: good_step_trans good_step_refl)
next
  case (Some u)
  with assms(1) show ?thesis
    by (auto simp: register_def Let_def auditDuplicateRegistration_def writeAuditLog_def good_step_refl)
qed

lemma good_step_rotateSession_service:
  assumes "rotateSession_service c env current ctx d = (r, d')"
  shows "good_step d d'"
  using assms unfolding rotateSession_service_def
  by (auto simp: good_step_refl split: if_splits elim!: bindE_cases dest: good_step_rotateSessionForUser)

lemma good_step_verifyEmail:
  assumes "verifyEmail c env token ctx d = (r, d')"
  shows "good_step d d'"
  using assms unfolding verifyEmail_def
  by (rule bindE_cases)
    (auto dest: good_step_consumeEmailVerificationToken split: option.splits if_splits)

lemma good_step_resetPassword_service:
  assumes "resetPassword_service c env token pw ctx d = (r, d')"
  shows "good_step d d'"
  using assms unfolding resetPassword_service_def
  by (rule bindE_cases) (auto dest: good_step_resetPassword split: option.splits)

lemma email_answer_state [simp]: "snd (email_answer r) = snd r"
  by (auto simp: email_answer_def split: prod.splits sum.splits exn.splits email_outcome.splits)

lemma locked_attempt_sessions:
  assumes "\<And>x d2. body d = (Inr x, d2) \<Longrightarrow> sessions d2 = sessions d"
  shows "sessions (snd (locked_attempt fault body d)) = sessions d"
proof -
  obtain r d1 where "locked_attempt fault body d = (r, d1)" by fastforce
  with assms show ?thesis by (auto elim: locked_attempt_cases)
qed

lemma good_step_resendEmailVerification:
  assumes "resendEmailVerification env current d = (r, d')"
  shows "good_step d d'"
proof -
  have "sessions (snd (resendEmailVerification env current d)) = sessions d"
    by (auto simp: resendEmailVerification_def runEmailVerificationResend_def Let_def
        intro!: locked_attempt_sessions split: if_splits)
  with assms show ?thesis by (simp add: good_step_refl)
qed

lemma good_step_forgotPassword:
  assumes "forgotPassword c env email ctx d = (r, d')"
  shows "good_step d d'"
proof -
  have "sessions (snd (forgotPassword c env email ctx d)) = sessions d"
    unfolding forgotPassword_def Let_def email_answer_state runPasswordResetRequest_def
    by (rule locked_attempt_sessions) (auto split: if_splits option.splits)
  with assms show ?thesis by (simp add: good_step_refl)
qed

lemma good_step_revokeOwnSession_service:
  assumes "revokeOwnSession_service env current i ctx d = (r, d')"
  shows "good_step d d'"
  using assms unfolding revokeOwnSession_service_def
  by (auto simp: good_step_refl dest: good_step_revokeOwnSession split: if_splits prod.splits)

lemma good_step_logoutAll:
  assumes "logoutAll env current ctx d = (r, d')"
  shows "good_step d d'"
  using assms unfolding logoutAll_def
  by (auto simp: good_step_refl intro: good_step_revokeAllOwnSessions [OF prod.collapse [symmetric]]
      split: if_splits)

lemma good_step_logout:
  assumes "logout c env raw ctx d = (r, d')"
  shows "good_step d d'"
  using assms unfolding logout_def
proof (rule bindE_cases)
  fix e assume "loadValidSession c raw (sup_now env) d = (Inl e, d')"
  then show "good_step d d'" by (rule good_step_loadValidSession)
next
  fix x d1
  assume "loadValidSession c raw (sup_now env) d = (Inr x, d1)"
  then have "good_step d d1" by (rule good_step_loadValidSession)
  moreover assume "(case x of None \<Rightarrow> (Inr (), d1)
      | Some s \<Rightarrow> (Inr (), snd (revokeSession (sup_wall env) (s_id s) LOGOUT
               (Some ((request_entry ctx ''auth.logout'')
                 \<lparr>actorUserId := Some (s_userId s),
                  actorRole := map_option u_role (findUserById (s_userId s) d1),
                  entityType := Some ''Session'', entityId := Some (s_id s)\<rparr>)) d1))) = (r, d')"
  then have "good_step d1 d'"
    by (auto simp: good_step_refl intro: good_step_revokeSession [OF prod.collapse [symmetric]]
        split: option.splits)
  ultimately show "good_step d d'" by (rule good_step_trans)
qed

section \<open>The step relation\<close>

text \<open>
  One step of the system as the session table sees it: any operation of the service, with any
  arguments, clocks and generated values; a registration with any other step in its race
  window; or a step of another component, which never touches sessions.
\<close>

inductive auth_step :: "crypto \<Rightarrow> auth_cfg \<Rightarrow> db \<Rightarrow> db \<Rightarrow> bool" for c cfg where
  step_register: "auth_step c cfg d (race d) \<Longrightarrow> register c env race input ctx d = (r, d')
    \<Longrightarrow> auth_step c cfg d d'"
| step_login: "login c cfg env linput ctx prev d = (lr, d') \<Longrightarrow> auth_step c cfg d d'"
| step_currentUser: "currentUser c now raw d = (cr, d') \<Longrightarrow> auth_step c cfg d d'"
| step_rotate: "rotateSession_service c env current ctx d = (rr, d') \<Longrightarrow> auth_step c cfg d d'"
| step_verifyEmail: "verifyEmail c env token ctx d = (r, d') \<Longrightarrow> auth_step c cfg d d'"
| step_resend: "resendEmailVerification env current d = (r, d') \<Longrightarrow> auth_step c cfg d d'"
| step_forgot: "forgotPassword c env email ctx d = (r, d') \<Longrightarrow> auth_step c cfg d d'"
| step_reset: "resetPassword_service c env token pw ctx d = (r, d') \<Longrightarrow> auth_step c cfg d d'"
| step_revokeOwn: "revokeOwnSession_service env current i ctx d = (b, d') \<Longrightarrow> auth_step c cfg d d'"
| step_logoutAll: "logoutAll env current ctx d = (r, d') \<Longrightarrow> auth_step c cfg d d'"
| step_logout: "logout c env raw ctx d = (r, d') \<Longrightarrow> auth_step c cfg d d'"
| step_csrf: "rotateCsrfToken i h d = (r, d') \<Longrightarrow> auth_step c cfg d d'"
| step_other: "sessions d' = sessions d \<Longrightarrow> auth_step c cfg d d'"

definition auth_reachable :: "crypto \<Rightarrow> auth_cfg \<Rightarrow> db \<Rightarrow> bool" where
  "auth_reachable c cfg = (auth_step c cfg)\<^sup>*\<^sup>* empty_db"

lemma auth_step_good: "auth_step c cfg d d' \<Longrightarrow> good_step d d'"
  by (induction rule: auth_step.induct)
    (auto intro: good_step_register good_step_login good_step_currentUser
      good_step_rotateSession_service good_step_verifyEmail good_step_resendEmailVerification
      good_step_forgotPassword good_step_resetPassword_service good_step_revokeOwnSession_service
      good_step_logoutAll good_step_logout good_step_refl
      simp: rotateCsrfToken_def dest: good_step_rotateSessionCsrf)

lemma auth_steps_good: "(auth_step c cfg)\<^sup>*\<^sup>* d d' \<Longrightarrow> good_step d d'"
  by (induction rule: rtranclp_induct) (auto intro: good_step_refl good_step_trans auth_step_good)

lemma empty_sessions_wf: "sessions_wf empty_db"
  by (simp add: sessions_wf_def empty_db_def)

lemma auth_reachable_wf: "auth_reachable c cfg d \<Longrightarrow> sessions_wf d"
  unfolding auth_reachable_def
  using auth_steps_good empty_sessions_wf unfolding good_step_def by blast

end
