(* ===== verification/Auth_Theorems.thy ===== *)
theory Auth_Theorems
  imports Auth_Steps
begin

text \<open>
  The properties of the authentication service: who is granted a session, what the cookie of a
  session is worth afterwards, what ends it, what rotation and one-time tokens do, and that
  answers do not tell a registered address from an unknown one.
\<close>

section \<open>Reading the session table\<close>

text \<open>The session and the user a cookie authenticates, if any.\<close>

definition authenticated :: "crypto \<Rightarrow> time \<Rightarrow> string option \<Rightarrow> db \<Rightarrow> (session_row \<times> user_row) option" where
  "authenticated c now raw d =
    (case session_of_cookie c raw d of
       None \<Rightarrow> None
     | Some s \<Rightarrow>
         if \<not> session_valid now s then None
         else (case findUserById (s_userId s) d of
                 None \<Rightarrow> None
               | Some u \<Rightarrow> if u_status u = ACTIVE then Some (s, u) else None))"

definition current_of :: "session_row \<times> user_row \<Rightarrow> current_user" where
  "current_of su = (case su of (s, u) \<Rightarrow>
     \<lparr>cur_user = toPublicUser u, cur_session = s,
      cur_actor = \<lparr>actor_id = u_id u, actor_role = u_role u, actor_status = u_status u\<rparr>\<rparr>)"

text \<open>What reading the current user writes: the idle window of a valid session, slid.\<close>

definition slide_window :: "crypto \<Rightarrow> time \<Rightarrow> string option \<Rightarrow> db \<Rightarrow> db" where
  "slide_window c now raw d =
    (case session_of_cookie c raw d of
       None \<Rightarrow> d
     | Some s \<Rightarrow>
         if session_valid now s
         then d\<lparr>sessions := update_where (\<lambda>x. s_id x = s_id s)
                (\<lambda>x. x\<lparr>s_lastSeenAt := now, s_idleExpiresAt :=
                   min (now + (s_idleExpiresAt s - s_lastSeenAt s)) (s_absoluteExpiresAt s)\<rparr>)
                (sessions d)\<rparr>
         else d)"

lemma findUserById_sessions [simp]: "findUserById i (d\<lparr>sessions := x\<rparr>) = findUserById i d"
  by (simp add: findUserById_def)

lemma session_valid_alt: "session_valid now s \<longleftrightarrow> s_revokedAt s = None \<and>
    (case s_rotatedAt s of None \<Rightarrow> True | Some r \<Rightarrow> now < r + SESSION_ROTATION_GRACE_MS) \<and>
    now < s_idleExpiresAt s \<and> now < s_absoluteExpiresAt s"
  by (auto simp: session_valid_def split: option.splits)

lemma currentUser_answer:
  "fst (currentUser c now raw d) = Inr (map_option current_of (authenticated c now raw d))"
proof (cases "session_of_cookie c raw d")
  case (Some s)
  then show ?thesis
    by (cases "session_valid now s"; cases "findUserById (s_userId s) d")
      (auto simp: currentUser_def bindE_def loadValidSession_eq authenticated_def current_of_def)
qed (simp add: currentUser_def bindE_def loadValidSession_eq authenticated_def)

lemma currentUser_state: "snd (currentUser c now raw d) = slide_window c now raw d"
  by (auto simp: currentUser_def bindE_def loadValidSession_eq slide_window_def
      split: option.splits)

lemma findSession_key:
  assumes "sessions_wf d" and "s \<in> set (sessions d)"
  shows "findSessionByTokenHash (s_tokenHash s) d = Some s"
  using assms find_key [of s_tokenHash "sessions d" s]
  by (simp add: sessions_wf_def findSessionByTokenHash_def)

text \<open>A later row of the same session is at most as usable: what invalidated it is kept.\<close>

lemma session_later_invalid:
  assumes "session_later s s'"
    and "s_revokedAt s \<noteq> None \<or> s_absoluteExpiresAt s \<le> now \<or>
      (\<exists>r. s_rotatedAt s = Some r \<and> r + SESSION_ROTATION_GRACE_MS \<le> now)"
  shows "\<not> session_valid now s'"
  using assms by (auto simp: session_later_def session_valid_def)

section \<open>Sessions\<close>

text \<open>
  C10. In every reachable state of the authentication tables the sessions have distinct
  identifiers and tokens, an idle expiry never past the absolute one, and a revocation reason
  exactly when revoked; and no later step, whatever it is, moves a session's owner, token or
  absolute expiry, or undoes or overwrites a revocation or a rotation.
\<close>

theorem sessions_invariant:
  assumes "auth_reachable c cfg d"
  shows "sessions_wf d \<and> (\<forall>d'. (auth_step c cfg)\<^sup>*\<^sup>* d d' \<longrightarrow> sessions_evolve d d')"
  using auth_reachable_wf [OF assms] auth_steps_good unfolding good_step_def by blast

text \<open>
  C11. Once a session is revoked, past its absolute expiry, or rotated longer ago than the grace
  period, its cookie authenticates nobody, in any state reached afterwards.
\<close>

theorem ended_session_stays_out:
  assumes "auth_reachable c cfg d" and "s \<in> set (sessions d)"
    and "s_revokedAt s \<noteq> None \<or> s_absoluteExpiresAt s \<le> now \<or>
      (\<exists>r. s_rotatedAt s = Some r \<and> r + SESSION_ROTATION_GRACE_MS \<le> now)"
    and "(auth_step c cfg)\<^sup>*\<^sup>* d d'" and "sha256Hex c raw = s_tokenHash s"
  shows "fst (currentUser c now (Some raw) d') = Inr None"
proof -
  have "sessions_wf d" by (rule auth_reachable_wf [OF assms(1)])
  then have wf': "sessions_wf d'" and evolve: "sessions_evolve d d'"
    using auth_steps_good [OF assms(4)] by (simp_all add: good_step_def)
  from evolve assms(2) obtain s' where s': "s' \<in> set (sessions d')" "session_later s s'"
    by (auto simp: sessions_evolve_def)
  then have "session_of_cookie c (Some raw) d' = (if raw = '''' then None else Some s')"
    using findSession_key [OF wf' s'(1)] assms(5)
    by (simp add: session_of_cookie_def session_later_def)
  then show ?thesis
    using session_later_invalid [OF s'(2) assms(3)]
    by (simp add: currentUser_answer authenticated_def)
qed

text \<open>
  C10. \<open>currentUser\<close> never throws. It answers with a user exactly when the cookie names a session
  that is not revoked, not past its expiries nor its grace period, and whose user exists and is
  active, and the answer is that user and that session; all it writes is the slid idle window
  of a valid session.
\<close>

theorem currentUser_exact:
  "currentUser c now raw d =
    (Inr (map_option current_of (authenticated c now raw d)), slide_window c now raw d)"
  using currentUser_answer currentUser_state by (metis prod.collapse)

section \<open>Login\<close>

text \<open>
  C12. A login answers with a session exactly when the transaction could be evaluated, the
  account's progressive delay has passed, the address names an active account whose stored hash
  verifies the password, the production barrier for internal roles does not apply, and the
  generated identifier and token are new.
\<close>

theorem login_granted_iff:
  "(\<exists>res d'. login c cfg env input ctx prev d = (Inr res, d')) \<longleftrightarrow>
    sup_fault env = None \<and>
    login_wait cfg env (sha256Hex c (normalizeEmail (li_email input))) d \<le> 0 \<and>
    (\<exists>u. credentials_ok c (normalizeEmail (li_email input)) (li_password input) d = Some u \<and>
         \<not> mfa_barred cfg u) \<and>
    \<not> (\<exists>s \<in> set (sessions d). s_tokenHash s = sha256Hex c (sup_sessionRaw env) \<or>
                             s_id s = sup_newId env)"
  (is "?L \<longleftrightarrow> ?R")
proof
  assume ?L
  then obtain res d' where "login c cfg env input ctx prev d = (Inr res, d')" by blast
  then show ?R
    by (cases rule: login_Inr_cases)
      (auto simp: createSessionForUser_def createSession_def generateOpaqueToken_def Let_def
        bindE_def split: if_splits)
next
  assume R: ?R
  then obtain u where "credentials_ok c (normalizeEmail (li_email input)) (li_password input) d = Some u"
    "\<not> mfa_barred cfg u" by blast
  with R show ?L
    by (auto simp: login_def login_run_None login_attempt_cases Let_def createSessionForUser_def
        createSession_def generateOpaqueToken_def bindE_def)
qed

text \<open>The session row a login creates.\<close>

definition login_session :: "crypto \<Rightarrow> supplies \<Rightarrow> request_context \<Rightarrow> user_row \<Rightarrow> session_row" where
  "login_session c env ctx u =
    \<lparr>s_id = sup_newId env, s_userId = u_id u, s_tokenHash = sha256Hex c (sup_sessionRaw env),
     s_csrfTokenHash = sha256Hex c (sup_csrfRaw env), s_createdAt = sup_now env,
     s_lastSeenAt = sup_now env, s_idleExpiresAt = sup_now env + idleMs (SESSION_DURATIONS (u_role u)),
     s_absoluteExpiresAt = sup_now env + absoluteMs (SESSION_DURATIONS (u_role u)),
     s_revokedAt = None, s_revokedReason = None, s_rotatedAt = None,
     s_ip = ctx_ip ctx, s_userAgent = ctx_userAgent ctx\<rparr>"

lemma createSessionForUser_Inr:
  assumes "createSessionForUser c (sup_newId env) (sup_sessionRaw env) (sup_csrfRaw env) (u_id u)
     (u_role u) (ctx_ip ctx) (ctx_userAgent ctx) (sup_now env) d = (Inr cr, d1)"
  shows "d1 = d\<lparr>sessions := sessions d @ [login_session c env ctx u]\<rparr>"
    and "cr_sessionRaw cr = sup_sessionRaw env" and "cr_csrfRaw cr = sup_csrfRaw env"
    and "cr_session cr = login_session c env ctx u"
  using assms
  by (auto simp: createSessionForUser_def createSession_def session_of_input_def login_session_def
      generateOpaqueToken_def Let_def bindE_eq_Inr split: if_splits)

lemma end_previous_keeps:
  assumes "sessions_wf d" and "s \<in> set (sessions d)"
    and "\<forall>p. prev = Some p \<longrightarrow> sha256Hex c p \<noteq> s_tokenHash s"
  shows "s \<in> set (sessions (end_previous c wall prev d))"
proof (cases "\<exists>p x. prev = Some p \<and> p \<noteq> '''' \<and> findSessionByTokenHash (sha256Hex c p) d = Some x")
  case True
  then obtain p x where p: "prev = Some p" "p \<noteq> ''''"
    and x: "findSessionByTokenHash (sha256Hex c p) d = Some x" by blast
  then have "x \<in> set (sessions d)" "s_tokenHash x = sha256Hex c p"
    by (auto simp: findSessionByTokenHash_def dest: find_SomeD)
  with assms p have "s_id x \<noteq> s_id s"
    by (auto simp: sessions_wf_def dest: unique_key)
  then show ?thesis
    using p x assms(2)
    by (auto simp: end_previous_def revokeSession_def revoke_where_def Let_def insert_audit_opt_def
        set_update_where)
qed (use assms(2) in \<open>auto simp: end_previous_def split: option.splits\<close>)

lemma end_previous_users [simp]: "users (end_previous c wall prev d) = users d"
  by (auto simp: end_previous_def revokeSession_def revoke_where_def Let_def insert_audit_opt_def
      split: option.splits)

text \<open>
  C13. The cookie a login sets authenticates the user who logged in, at once and for the whole
  idle window of the role, and the CSRF token set with it is the one that session accepts; the
  session the browser held before does not have to be the one created.
\<close>

theorem login_then_currentUser:
  assumes "sessions_wf d" and "distinct (map u_id (users d))"
    and "login c cfg env input ctx prev d = (Inr res, d')"
    and "sup_sessionRaw env \<noteq> ''''" and "sup_csrfRaw env \<noteq> ''''"
    and "\<forall>p. prev = Some p \<longrightarrow> sha256Hex c p \<noteq> sha256Hex c (sup_sessionRaw env)"
    and "later < sup_now env + idleMs (SESSION_DURATIONS (pu_role (lr_user res)))"
  shows "\<exists>cur. fst (currentUser c later (Some (lr_sessionRaw res)) d') = Inr (Some cur) \<and>
    cur_user cur = lr_user res \<and> s_id (cur_session cur) = sup_newId env \<and>
    verifyCsrf c (cur_session cur) (Some (lr_csrfRaw res))"
  using assms(3)
proof (cases rule: login_Inr_cases)
  case (1 u cr d1)
  let ?s = "login_session c env ctx u"
  note created = createSessionForUser_Inr [OF 1(5)]
  have wf1: "sessions_wf d1"
    using good_step_createSessionForUser [OF 1(5)] assms(1) by (simp add: good_step_def)
  have wf': "sessions_wf d'"
    using good_step_login [OF assms(3)] assms(1) by (simp add: good_step_def)
  have "?s \<in> set (sessions (end_previous c (sup_wall env) prev d1))"
    using wf1 created(1) assms(6) by (intro end_previous_keeps) (auto simp: login_session_def)
  then have mem: "?s \<in> set (sessions d')" by (simp add: 1(6))
  have "session_of_cookie c (Some (lr_sessionRaw res)) d' = Some ?s"
    using findSession_key [OF wf' mem] assms(4)
    by (simp add: session_of_cookie_def 1(7) created login_session_def)
  moreover have "session_valid later ?s"
    using assms(7) durations_ordered(2) [of "u_role u"]
    by (simp add: session_valid_def login_session_def 1(7) toPublicUser_def)
  moreover have "findUserById (u_id u) d' = Some u" "u_status u = ACTIVE"
    using 1(3) assms(2) find_key [of u_id "users d" u] created(1)
    by (auto simp: credentials_ok_def findUserByEmail_def findUserById_def 1(6)
        dest: find_SomeD split: option.splits if_splits)
  ultimately show ?thesis
    using assms(5) unfolding currentUser_answer
    by (simp add: authenticated_def current_of_def 1(7) login_session_def
        verifyCsrf_def csrfTokenMatchesSession_def created)
qed

text \<open>
  A refused login does not tell an unknown address from a wrong password or a suspended
  account: with the same history of failures for the address, the answer is the same.
\<close>

theorem login_refusal_uniform:
  assumes "auditLogs d1 = auditLogs d2"
    and "credentials_ok c (normalizeEmail (li_email input)) (li_password input) d1 = None"
    and "credentials_ok c (normalizeEmail (li_email input)) (li_password input) d2 = None"
  shows "fst (login c cfg env input ctx prev d1) = fst (login c cfg env input ctx prev d2)"
proof (cases "sup_fault env")
  case None
  have "login_wait cfg env h d1 = login_wait cfg env h d2" for h
    using assms(1) by (simp add: login_wait_def login_scope_def email_events_def)
  with None assms(2,3) show ?thesis
    by (simp add: login_def login_run_None login_attempt_cases Let_def)
next
  case (Some f)
  then show ?thesis
    by (auto simp: login_def login_run_Some Let_def split: exn.splits)
qed

section \<open>Registration and recovery\<close>

text \<open>
  A registration always answers the same, whatever the address and whatever other requests
  do in its race window; an address already registered, before or during the window, gets no
  second account and no email.
\<close>

theorem register_uniform:
  "fst (register c env race input ctx d) = Inr () \<and>
   (let email = normalizeEmail (ri_email input); d' = snd (register c env race input ctx d)
    in (if findUserByEmail email d \<noteq> None then users d' = users d \<and> outbox d' = outbox d
        else if \<exists>u \<in> set (users (race d)). u_email u = email \<or> u_id u = sup_newId env
        then users d' = users (race d) \<and> outbox d' = outbox (race d)
        else (\<exists>u. users d' = users (race d) @ [u] \<and> u_email u = email \<and> u_role u = USER \<and>
               u_emailVerifiedAt u = None \<and> u_passwordHash u = hashPassword c (ri_password input) \<and>
               outbox d' = outbox (race d) @ [\<lparr>o_id = sup_outboxId env,
                 o_kind = Kind_EMAIL_VERIFICATION, o_userId = u_id u,
                 o_createdAt = sup_pgNow env, o_sentAt = None\<rparr>])))"
  by (cases "findUserByEmail (normalizeEmail (ri_email input)) d")
    (auto simp: register_def Let_def auditDuplicateRegistration_def writeAuditLog_def
      createUserWithEmailVerification_def createUser_def transaction_def bindE_def split: if_splits)

text \<open>
  A request to reset a password does not tell a registered address from an unknown one:
  with the same history of requests for the address, the answer is the same.
\<close>

theorem forgotPassword_uniform:
  assumes "auditLogs d1 = auditLogs d2"
  shows "fst (forgotPassword c env email ctx d1) = fst (forgotPassword c env email ctx d2)"
  using assms
  by (cases "sup_fault env")
    (auto simp: forgotPassword_def runPasswordResetRequest_def locked_attempt_def catchE_def
      transaction_def email_answer_def email_events_def Let_def split: option.splits)

section \<open>Ending sessions\<close>

text \<open>What an authenticated user's own operations are allowed to do.\<close>

lemma authenticated_can:
  assumes "fst (currentUser c now raw d) = Inr (Some cur)"
  shows "allowed (auth_can (cur_actor cur) ''session:revoke'' (pu_id (cur_user cur)))"
    and "allowed (auth_can (cur_actor cur) ''session:list'' (pu_id (cur_user cur)))"
    and "allowed (auth_can (cur_actor cur) ''user:read'' (pu_id (cur_user cur)))"
  using assms
  by (auto simp: currentUser_answer authenticated_def current_of_def auth_can_def toPublicUser_def
      split: option.splits if_splits)

text \<open>
  C16. \<open>logout-all\<close> by an authenticated user leaves every one of their sessions revoked (those
  revoked earlier keep their reason) and every other user's session exactly as it was.
\<close>

theorem logoutAll_ends_all:
  assumes "fst (currentUser c now raw d0) = Inr (Some cur)"
    and "logoutAll env cur ctx d = (r, d')"
  shows "r = Inr () \<and>
    (\<forall>s \<in> set (sessions d'). s_userId s = pu_id (cur_user cur) \<longrightarrow> s_revokedAt s \<noteq> None) \<and>
    filter (\<lambda>s. s_userId s \<noteq> pu_id (cur_user cur)) (sessions d')
      = filter (\<lambda>s. s_userId s \<noteq> pu_id (cur_user cur)) (sessions d) \<and>
    (\<forall>s \<in> set (sessions d). s_revokedAt s \<noteq> None \<longrightarrow> s \<in> set (sessions d')) \<and>
    length (auditLogs d') = length (auditLogs d) +
      (if \<exists>s \<in> set (sessions d). s_userId s = pu_id (cur_user cur) \<and> s_revokedAt s = None
       then 1 else 0)"
proof -
  let ?P = "\<lambda>s. s_userId s = pu_id (cur_user cur) \<and> s_revokedAt s = None"
  have d': "r = Inr ()" "sessions d' = update_where ?P
      (\<lambda>s. s\<lparr>s_revokedAt := Some (sup_wall env), s_revokedReason := Some LOGOUT_ALL\<rparr>) (sessions d)"
    using assms(2) authenticated_can(1) [OF assms(1)]
    by (auto simp: logoutAll_def revokeAllOwnSessions_def revoke_where_def Let_def split: if_splits)
  have "length (auditLogs d') = length (auditLogs d) + (if 0 < count_where ?P (sessions d) then 1 else 0)"
    using assms(2) authenticated_can(1) [OF assms(1)]
    by (auto simp: logoutAll_def revokeAllOwnSessions_def revoke_where_def Let_def split: if_splits)
  moreover have "filter (\<lambda>s. s_userId s \<noteq> pu_id (cur_user cur)) (sessions d')
      = filter (\<lambda>s. s_userId s \<noteq> pu_id (cur_user cur)) (sessions d)"
    unfolding d'(2) by (rule filter_update_where_other) simp
  ultimately show ?thesis
    using d' by (auto simp: count_where_pos_iff set_update_where)
qed

text \<open>
  A verification link works once: when it is accepted its token was usable, the address is
  verified from then on, and the same link is refused later, changing nothing.
\<close>

theorem verifyEmail_once:
  assumes "verifyEmail c env token ctx d = (Inr (), d')"
  shows "\<exists>t u u'. t \<in> set (emailTokens d) \<and> t_tokenHash t = sha256Hex c token \<and>
    t_usedAt t = None \<and> sup_pgNow env < t_expiresAt t \<and>
    findUserById (t_userId t) d = Some u \<and> findUserById (t_userId t) d' = Some u' \<and>
    u_emailVerifiedAt u' = Some (case u_emailVerifiedAt u of None \<Rightarrow> sup_pgNow env | Some v \<Rightarrow> v) \<and>
    (\<forall>env2 ctx2 d2. sup_pgNow env \<le> sup_pgNow env2 \<longrightarrow> emailTokens d2 = emailTokens d' \<longrightarrow>
       verifyEmail c env2 token ctx2 d2 = (Inl invalid_or_expired, d2))"
proof -
  from assms obtain i where run: "consumeEmailVerificationToken (sup_pgNow env) (sha256Hex c token)
      (Some (user_event ''auth.email.verified'' ctx)) d = (Inr (Some i), d')"
    by (auto simp: verifyEmail_def bindE_eq_Inr split: option.splits if_splits)
  have again: "verifyEmail c env2 token ctx2 d2 = (Inl invalid_or_expired, d2)"
    if "sup_pgNow env \<le> sup_pgNow env2" "emailTokens d2 = emailTokens d'" for env2 ctx2 d2
  proof -
    have "find (usable_token (sup_pgNow env2) (sha256Hex c token)) (emailTokens d2) = None"
      using verification_token.spent [OF run that(1)] that(2) by simp
    then have "consumeEmailVerificationToken (sup_pgNow env2) (sha256Hex c token)
        (Some (user_event ''auth.email.verified'' ctx2)) d2 = (Inr None, d2)"
      by (rule verification_token.refuse)
    then show ?thesis by (simp add: verifyEmail_def bindE_def)
  qed
  let ?upd = "update_where (\<lambda>u. u_id u = i \<and> u_emailVerifiedAt u = None)
      (\<lambda>u. u\<lparr>u_emailVerifiedAt := Some (sup_pgNow env)\<rparr>) (users d)"
  from run obtain t where t: "find (usable_token (sup_pgNow env) (sha256Hex c token)) (emailTokens d) = Some t"
    by (auto simp: consumeEmailVerificationToken_def split: option.splits)
  with run have i: "i = t_userId t" and users: "users d' = ?upd" and
    ex: "find (\<lambda>u. u_id u = i) ?upd \<noteq> None"
    by (auto simp: consumeEmailVerificationToken_def Let_def findUserById_def split: option.splits)
  have eq: "find (\<lambda>u. u_id u = i) ?upd = map_option (\<lambda>u. if u_id u = i \<and> u_emailVerifiedAt u = None
      then u\<lparr>u_emailVerifiedAt := Some (sup_pgNow env)\<rparr> else u) (find (\<lambda>u. u_id u = i) (users d))"
    by (rule find_update_where) simp
  with ex obtain u where u: "find (\<lambda>u. u_id u = i) (users d) = Some u" by auto
  then have "u_id u = i" by (auto dest: find_SomeD)
  with eq u find_SomeD [OF t] again show ?thesis
    by (cases "u_emailVerifiedAt u") (auto simp: findUserById_def users i usable_token_def)
qed

section \<open>Rotation\<close>

lemma rotateSession_Some:
  assumes "rotateSession newId input d = (Inr (Some s'), d')"
  shows "count_where (\<lambda>s. s_id s = rs_previousSessionId input \<and> s_userId s = rs_userId input \<and>
             s_revokedAt s = None \<and> s_rotatedAt s = None) (sessions d) = 1"
    and "s' = session_of_input newId (rs_newSession input)"
    and "sessions d' = update_where
           (\<lambda>s. s_userId s = rs_userId input \<and> s_revokedAt s = None \<and>
                (case s_rotatedAt s of None \<Rightarrow> False | Some r \<Rightarrow> r \<le> rs_now input - rs_graceMs input))
           (\<lambda>s. s\<lparr>s_revokedAt := Some (rs_now input), s_revokedReason := Some ROTATED\<rparr>)
           (update_where (\<lambda>s. s_id s = rs_previousSessionId input \<and> s_userId s = rs_userId input \<and>
             s_revokedAt s = None \<and> s_rotatedAt s = None)
             (\<lambda>s. s\<lparr>s_rotatedAt := Some (rs_now input)\<rparr>) (sessions d)) @ [s']"
  using assms
  by (auto simp: rotateSession_def Let_def bindE_eq_Inr createSession_def split: if_splits)

text \<open>A session that is rotated or revoked cannot be claimed by a rotation.\<close>

lemma rotateSession_None:
  assumes "\<forall>s \<in> set (sessions d). s_id s = rs_previousSessionId input \<longrightarrow>
    s_revokedAt s \<noteq> None \<or> s_rotatedAt s \<noteq> None"
  shows "rotateSession newId input d = (Inr None, d)"
proof -
  have "count_where (\<lambda>s. s_id s = rs_previousSessionId input \<and> s_userId s = rs_userId input \<and>
      s_revokedAt s = None \<and> s_rotatedAt s = None) (sessions d) = 0"
    using assms by (auto simp: count_where_0_iff)
  then show ?thesis by (simp add: rotateSession_def Let_def transaction_def)
qed

text \<open>A rotation that happens: the old row is marked, the new one is appended.\<close>

lemma rotation_rows:
  assumes "rotateSession_service c env cur ctx d = (Inr (Some (raw, csrf)), d')"
  obtains old where "old \<in> set (sessions d)" and "s_id old = s_id (cur_session cur)"
    and "s_userId old = pu_id (cur_user cur)" and "s_revokedAt old = None" and "s_rotatedAt old = None"
    and "users d' = users d"
    and "old\<lparr>s_rotatedAt := Some (sup_now2 env)\<rparr> \<in> set (sessions d')"
    and "session_of_input (sup_newId env) \<lparr>cs_userId = pu_id (cur_user cur), cs_createdAt = sup_now2 env,
      cs_tokenHash = sha256Hex c raw, cs_csrfTokenHash = sha256Hex c csrf, cs_lastSeenAt = sup_now2 env,
      cs_idleExpiresAt = min (sup_now2 env + idleMs (SESSION_DURATIONS (actor_role (cur_actor cur))))
        (s_absoluteExpiresAt (cur_session cur)),
      cs_absoluteExpiresAt = s_absoluteExpiresAt (cur_session cur), cs_ip = ctx_ip ctx,
      cs_userAgent = ctx_userAgent ctx\<rparr> \<in> set (sessions d')"
    and "allowed (auth_can (cur_actor cur) ''session:revoke'' (pu_id (cur_user cur)))"
proof -
  let ?new = "\<lparr>cs_userId = pu_id (cur_user cur), cs_createdAt = sup_now2 env,
    cs_tokenHash = sha256Hex c (sup_sessionRaw env), cs_csrfTokenHash = sha256Hex c (sup_csrfRaw env),
    cs_lastSeenAt = sup_now2 env,
    cs_idleExpiresAt = min (sup_now2 env + idleMs (SESSION_DURATIONS (actor_role (cur_actor cur))))
      (s_absoluteExpiresAt (cur_session cur)),
    cs_absoluteExpiresAt = s_absoluteExpiresAt (cur_session cur), cs_ip = ctx_ip ctx,
    cs_userAgent = ctx_userAgent ctx\<rparr>"
  obtain s' where run: "rotateSession (sup_newId env) \<lparr>rs_previousSessionId = s_id (cur_session cur),
      rs_userId = pu_id (cur_user cur), rs_now = sup_now2 env, rs_graceMs = SESSION_ROTATION_GRACE_MS,
      rs_newSession = ?new\<rparr> d = (Inr (Some s'), d')"
    and ok: "allowed (auth_can (cur_actor cur) ''session:revoke'' (pu_id (cur_user cur)))"
    and raw: "raw = sup_sessionRaw env" "csrf = sup_csrfRaw env"
    using assms by (auto simp: rotateSession_service_def rotateSessionForUser_def generateOpaqueToken_def
        Let_def bindE_eq_Inr split: if_splits)
  let ?claims = "\<lambda>s. s_id s = s_id (cur_session cur) \<and> s_userId s = pu_id (cur_user cur) \<and>
    s_revokedAt s = None \<and> s_rotatedAt s = None"
  let ?ended = "\<lambda>s. s_userId s = pu_id (cur_user cur) \<and> s_revokedAt s = None \<and>
    (case s_rotatedAt s of None \<Rightarrow> False | Some r \<Rightarrow> r \<le> sup_now2 env - SESSION_ROTATION_GRACE_MS)"
  let ?mark = "\<lambda>s :: session_row. s\<lparr>s_rotatedAt := Some (sup_now2 env)\<rparr>"
  have same: "users d' = users d"
    using run by (auto simp: rotateSession_def createSession_def Let_def bindE_def split: if_splits)
  from run have one: "count_where ?claims (sessions d) = 1"
    and s': "s' = session_of_input (sup_newId env) ?new"
    and d': "sessions d' = update_where ?ended
        (\<lambda>s. s\<lparr>s_revokedAt := Some (sup_now2 env), s_revokedReason := Some ROTATED\<rparr>)
        (update_where ?claims ?mark (sessions d)) @ [s']"
    using rotateSession_Some [OF run] by (simp_all cong: option.case_cong)
  from one obtain old where old: "old \<in> set (sessions d)" "?claims old"
    using count_where_pos_iff [of ?claims "sessions d"] by auto
  have "?mark old \<in> set (update_where ?claims ?mark (sessions d))"
    using old by (auto simp: set_update_where)
  moreover have "\<not> ?ended (?mark old)" by (simp add: SESSION_ROTATION_GRACE_MS_def)
  ultimately have "?mark old \<in> set (sessions d')"
    unfolding d' set_append set_update_where [of ?ended] by blast
  moreover have "s' \<in> set (sessions d')" by (simp add: d')
  ultimately show ?thesis
    using that old ok same by (simp add: s' raw)
qed

text \<open>A session marked as rotated is never rotated again.\<close>

lemma rotated_once:
  assumes "sessions_wf d" and "x \<in> set (sessions d)" and "s_id x = s_id (cur_session cur)" and "s_rotatedAt x \<noteq> None"
    and "(auth_step c cfg)\<^sup>*\<^sup>* d d2"
  shows "rotateSession_service c env cur ctx d2 \<noteq> (Inr (Some tokens), d3)"
proof -
  have wf2: "sessions_wf d2" and ev: "sessions_evolve d d2"
    using assms(1) auth_steps_good [OF assms(5)] by (auto simp: good_step_def)
  from ev assms(2) obtain y where y: "y \<in> set (sessions d2)" "session_later x y"
    by (auto simp: sessions_evolve_def)
  have "\<forall>s \<in> set (sessions d2). s_id s = s_id (cur_session cur) \<longrightarrow> s_revokedAt s \<noteq> None \<or> s_rotatedAt s \<noteq> None"
  proof (intro ballI impI)
    fix s assume "s \<in> set (sessions d2)" "s_id s = s_id (cur_session cur)"
    with y wf2 assms(3) have "s = y"
      by (auto simp: sessions_wf_def session_later_def dest: unique_key)
    with y assms(4) show "s_revokedAt s \<noteq> None \<or> s_rotatedAt s \<noteq> None"
      by (auto simp: session_later_def)
  qed
  then have "rotateSession newId input d2 = (Inr None, d2)" if "rs_previousSessionId input = s_id (cur_session cur)" for newId input
    using that by (intro rotateSession_None) simp
  then show ?thesis
    by (simp add: rotateSession_service_def rotateSessionForUser_def generateOpaqueToken_def Let_def bindE_def)
qed

text \<open>The session a cookie loaded is the one its token still names, whatever happened since.\<close>

lemma loaded_session:
  assumes "sessions_wf d0" and "currentUser c t0 (Some held) d0 = (Inr (Some cur), d1)"
    and "(auth_step c cfg)\<^sup>*\<^sup>* d1 d"
  shows "held \<noteq> [] \<and> sessions_wf d \<and>
    (\<exists>y \<in> set (sessions d). session_later (cur_session cur) y \<and> s_tokenHash y = sha256Hex c held)"
proof -
  have "fst (currentUser c t0 (Some held) d0) = Inr (Some cur)" using assms(2) by simp
  then obtain s u where au: "authenticated c t0 (Some held) d0 = Some (s, u)" and s: "cur_session cur = s"
    by (auto simp: currentUser_answer current_of_def)
  then have cookie: "session_of_cookie c (Some held) d0 = Some s"
    by (auto simp: authenticated_def split: option.splits if_splits)
  then have held: "held \<noteq> []" "s_tokenHash s = sha256Hex c held"
    by (auto simp: session_of_cookie_def findSessionByTokenHash_def dest: find_SomeD split: if_splits)
  have "auth_step c cfg d0 d1" using assms(2) by (rule step_currentUser)
  then have "(auth_step c cfg)\<^sup>*\<^sup>* d0 d" using assms(3) by (rule converse_rtranclp_into_rtranclp)
  then have "good_step d0 d" by (rule auth_steps_good)
  with assms(1) session_of_cookie_mem [OF cookie] obtain y where
    "y \<in> set (sessions d)" "session_later s y" and wf: "sessions_wf d"
    by (auto simp: good_step_def sessions_evolve_def)
  with held s show ?thesis by (auto simp: session_later_def)
qed

lemma cookie_row:
  assumes "sessions_wf d" and "s \<in> set (sessions d)" and "s_tokenHash s = sha256Hex c raw" and "raw \<noteq> []"
  shows "session_of_cookie c (Some raw) d = Some s"
  using findSession_key [OF assms(1,2)] assms(3,4) by (simp add: session_of_cookie_def)

text \<open>A row marked as rotated authenticates for the grace period, and as long as it would have.\<close>

lemma rotated_grace:
  assumes "sessions_wf d" and "sessions_wf d'" and "users d' = users d" and "raw \<noteq> []"
    and "s \<in> set (sessions d)" and "s_tokenHash s = sha256Hex c raw" and "s_rotatedAt s = None"
    and "s\<lparr>s_rotatedAt := Some t\<rparr> \<in> set (sessions d')"
  shows "fst (currentUser c now (Some raw) d') \<noteq> Inr None \<longleftrightarrow>
    fst (currentUser c now (Some raw) d) \<noteq> Inr None \<and> now < t + SESSION_ROTATION_GRACE_MS"
proof -
  let ?s' = "s\<lparr>s_rotatedAt := Some t\<rparr>"
  have "session_of_cookie c (Some raw) d = Some s" by (rule cookie_row [OF assms(1,5,6,4)])
  moreover have "session_of_cookie c (Some raw) d' = Some ?s'"
    by (rule cookie_row [OF assms(2,8)]) (simp_all add: assms(4,6))
  moreover have "session_valid now ?s' \<longleftrightarrow> session_valid now s \<and> now < t + SESSION_ROTATION_GRACE_MS"
    using assms(7) by (auto simp: session_valid_def)
  ultimately show ?thesis
    by (auto simp: currentUser_answer authenticated_def findUserById_def assms(3) split: option.splits)
qed

lemma rotated_ends:
  assumes "sessions_wf d" and "raw \<noteq> []" and "x \<in> set (sessions d)" and "s_tokenHash x = sha256Hex c raw"
    and "s_rotatedAt x = Some t" and "(auth_step c cfg)\<^sup>*\<^sup>* d d2" and "t + SESSION_ROTATION_GRACE_MS \<le> now"
  shows "fst (currentUser c now (Some raw) d2) = Inr None"
proof -
  have wf2: "sessions_wf d2" and ev: "sessions_evolve d d2"
    using assms(1) auth_steps_good [OF assms(6)] by (auto simp: good_step_def)
  from ev assms(3) obtain y where y: "y \<in> set (sessions d2)" "session_later x y"
    by (auto simp: sessions_evolve_def)
  have "session_of_cookie c (Some raw) d2 = Some y"
    by (rule cookie_row [OF wf2 y(1) _ assms(2)]) (use y(2) assms(4) in \<open>simp add: session_later_def\<close>)
  moreover have "\<not> session_valid now y"
    by (rule session_later_invalid [OF y(2)]) (use assms(5,7) in blast)
  ultimately show ?thesis by (simp add: currentUser_answer authenticated_def)
qed

text \<open>
  C17. A rotation, of a session loaded by a cookie with any steps of the account tables between
  the two, never extends the life of the session: the new row has the owner and the absolute
  expiry of the stored old one and an idle expiry within it. The old row is marked rotated at the
  instant of the rotation: right after it the old cookie authenticates exactly when it did before
  and the grace period has not passed, and in every state reached afterwards it authenticates
  nobody once the grace period has passed, and no rotation of that session succeeds again,
  whoever asks.
\<close>

theorem rotation_bounded:
  assumes "sessions_wf d0" and "currentUser c t0 (Some held) d0 = (Inr (Some cur), d1)"
    and "(auth_step c cfg)\<^sup>*\<^sup>* d1 d"
    and "rotateSession_service c env cur ctx d = (Inr (Some (raw, csrf)), d')"
  shows "\<exists>old new. old \<in> set (sessions d) \<and> s_id old = s_id (cur_session cur) \<and>
    s_tokenHash old = sha256Hex c held \<and> s_userId old = pu_id (cur_user cur) \<and>
    s_rotatedAt old = None \<and> s_revokedAt old = None \<and>
    old\<lparr>s_rotatedAt := Some (sup_now2 env)\<rparr> \<in> set (sessions d') \<and>
    new \<in> set (sessions d') \<and> s_tokenHash new = sha256Hex c raw \<and>
    s_csrfTokenHash new = sha256Hex c csrf \<and> s_userId new = s_userId old \<and>
    s_absoluteExpiresAt new = s_absoluteExpiresAt old \<and>
    s_idleExpiresAt new \<le> s_absoluteExpiresAt old \<and>
    s_revokedAt new = None \<and> s_rotatedAt new = None \<and>
    (\<forall>now. fst (currentUser c now (Some held) d') \<noteq> Inr None \<longleftrightarrow>
       fst (currentUser c now (Some held) d) \<noteq> Inr None \<and> now < sup_now2 env + SESSION_ROTATION_GRACE_MS) \<and>
    (\<forall>cfg2 d2. (auth_step c cfg2)\<^sup>*\<^sup>* d' d2 \<longrightarrow>
       (\<forall>now. sup_now2 env + SESSION_ROTATION_GRACE_MS \<le> now \<longrightarrow>
          fst (currentUser c now (Some held) d2) = Inr None) \<and>
       (\<forall>cur2 env2 ctx2 tokens d3. s_id (cur_session cur2) = s_id old \<longrightarrow>
          rotateSession_service c env2 cur2 ctx2 d2 \<noteq> (Inr (Some tokens), d3)))"
proof -
  let ?new = "session_of_input (sup_newId env) \<lparr>cs_userId = pu_id (cur_user cur), cs_createdAt = sup_now2 env,
      cs_tokenHash = sha256Hex c raw, cs_csrfTokenHash = sha256Hex c csrf, cs_lastSeenAt = sup_now2 env,
      cs_idleExpiresAt = min (sup_now2 env + idleMs (SESSION_DURATIONS (actor_role (cur_actor cur))))
        (s_absoluteExpiresAt (cur_session cur)),
      cs_absoluteExpiresAt = s_absoluteExpiresAt (cur_session cur), cs_ip = ctx_ip ctx,
      cs_userAgent = ctx_userAgent ctx\<rparr>"
  obtain old where old: "old \<in> set (sessions d)" "s_id old = s_id (cur_session cur)" "s_userId old = pu_id (cur_user cur)"
    "s_revokedAt old = None" "s_rotatedAt old = None" "users d' = users d"
    "old\<lparr>s_rotatedAt := Some (sup_now2 env)\<rparr> \<in> set (sessions d')" and new: "?new \<in> set (sessions d')"
    by (rule rotation_rows [OF assms(4)]) blast
  obtain y where held: "held \<noteq> []" and wf: "sessions_wf d" and y: "y \<in> set (sessions d)"
    "session_later (cur_session cur) y" "s_tokenHash y = sha256Hex c held"
    using loaded_session [OF assms(1-3)] by blast
  have "old = y" using y old(1,2) wf by (auto simp: sessions_wf_def session_later_def dest: unique_key)
  with y have tok: "s_tokenHash old = sha256Hex c held" "s_absoluteExpiresAt old = s_absoluteExpiresAt (cur_session cur)"
    by (auto simp: session_later_def)
  have wf': "sessions_wf d'"
    using wf good_step_rotateSession_service [OF assms(4)] by (simp add: good_step_def)
  have grace: "fst (currentUser c now (Some held) d') \<noteq> Inr None \<longleftrightarrow>
       fst (currentUser c now (Some held) d) \<noteq> Inr None \<and> now < sup_now2 env + SESSION_ROTATION_GRACE_MS" for now
    by (rule rotated_grace [OF wf wf' old(6) held old(1) tok(1) old(5,7)])
  have ends: "fst (currentUser c now (Some held) d2) = Inr None"
    if "(auth_step c cfg2)\<^sup>*\<^sup>* d' d2" "sup_now2 env + SESSION_ROTATION_GRACE_MS \<le> now" for cfg2 d2 now
    by (rule rotated_ends [OF wf' held old(7) _ _ that]) (simp_all add: tok(1))
  have never: "rotateSession_service c env2 cur2 ctx2 d2 \<noteq> (Inr (Some tokens), d3)"
    if "(auth_step c cfg2)\<^sup>*\<^sup>* d' d2" "s_id (cur_session cur2) = s_id old" for cfg2 d2 cur2 env2 ctx2 tokens d3
    by (rule rotated_once [OF wf' old(7) _ _ that(1)]) (simp_all add: that(2))
  have row: "s_tokenHash ?new = sha256Hex c raw \<and> s_csrfTokenHash ?new = sha256Hex c csrf \<and> s_userId ?new = s_userId old \<and>
    s_absoluteExpiresAt ?new = s_absoluteExpiresAt old \<and> s_idleExpiresAt ?new \<le> s_absoluteExpiresAt old \<and>
    s_revokedAt ?new = None \<and> s_rotatedAt ?new = None"
    by (simp add: session_of_input_def old(3) tok(2))
  show ?thesis
    by (rule exI [of _ old], rule exI [of _ ?new]) (use old new tok(1) row grace ends never in blast)
qed

section \<open>Concrete runs\<close>

text \<open>
  A user who logs in, with a stand-in for the digests (a digest is the text itself behind a
  mark) and a fixed clock.
\<close>

definition demo_crypto :: crypto where
  "demo_crypto = \<lparr>sha256Hex = (\<lambda>s. CHR ''#'' # s), argon2_hash = (\<lambda>s. CHR ''$'' # s),
    argon2_verify = (\<lambda>h p. Some (h = CHR ''$'' # p)), random_secret = ''?''\<rparr>"

definition demo_user :: user_row where
  "demo_user = \<lparr>u_id = ''u1'', u_email = ''ana@x.co'', u_passwordHash = ''$pw'', u_fullName = ''Ana'',
    u_role = USER, u_status = ACTIVE, u_emailVerifiedAt = None, u_createdAt = 0\<rparr>"

definition demo_db :: db where
  "demo_db = empty_db\<lparr>users := [demo_user]\<rparr>"

definition demo_env :: supplies where
  "demo_env = \<lparr>sup_now = 1000, sup_now2 = 1000, sup_pgNow = 1000, sup_wall = 1000, sup_newId = ''s1'',
    sup_outboxId = ''o1'', sup_sessionRaw = ''S'', sup_csrfRaw = ''C'', sup_fault = None\<rparr>"

definition demo_ctx :: request_context where
  "demo_ctx = \<lparr>ctx_ip = None, ctx_userAgent = None, ctx_requestId = ''r1''\<rparr>"

definition demo_login :: "(exn + login_result) \<times> db" where
  "demo_login = login demo_crypto (default_auth_cfg True) demo_env
     \<lparr>li_email = '' Ana@X.co'', li_password = ''pw''\<rparr> demo_ctx None demo_db"

lemmas demo_defs = demo_crypto_def demo_user_def demo_db_def demo_env_def demo_ctx_def

definition demo_d1 :: db where "demo_d1 = snd demo_login"

definition demo_cur :: current_user where
  "demo_cur = the (projr (fst (currentUser demo_crypto 2000 (Some ''S'') demo_d1)))"

lemma demo_login_eq:
  "demo_login = (Inr \<lparr>lr_user = toPublicUser demo_user, lr_sessionRaw = ''S'', lr_csrfRaw = ''C''\<rparr>, demo_d1)"
  by code_simp

lemma demo_current: "fst (currentUser demo_crypto 2000 (Some ''S'') demo_d1) = Inr (Some demo_cur)"
  by code_simp

lemma demo_reachable:
  "auth_reachable demo_crypto (default_auth_cfg True) demo_d1"
proof -
  have "auth_step demo_crypto (default_auth_cfg True) empty_db demo_db"
    by (rule step_other) (simp add: demo_db_def)
  moreover have "auth_step demo_crypto (default_auth_cfg True) demo_db demo_d1"
    using demo_login_eq unfolding demo_login_def by (rule step_login)
  ultimately show ?thesis unfolding auth_reachable_def by simp
qed

text \<open>The same database after the user logged out everywhere.\<close>

definition demo_d2 :: db where
  "demo_d2 = snd (logoutAll demo_env demo_cur demo_ctx demo_d1)"

lemma demo_logout_eq: "logoutAll demo_env demo_cur demo_ctx demo_d1 = (Inr (), demo_d2)"
  by code_simp

lemma demo_reachable2: "auth_reachable demo_crypto (default_auth_cfg True) demo_d2"
  using demo_reachable step_logoutAll [OF demo_logout_eq]
  unfolding auth_reachable_def by (rule rtranclp.rtrancl_into_rtrancl)

theorem sessions_invariant_witness:
  "length (sessions demo_d1) = 1 \<and> sessions_wf demo_d1 \<and> sessions_evolve demo_d1 demo_d2"
proof -
  have "length (sessions demo_d1) = 1" by code_simp
  moreover have "(auth_step demo_crypto (default_auth_cfg True))\<^sup>*\<^sup>* demo_d1 demo_d2"
    using step_logoutAll [OF demo_logout_eq] by blast
  ultimately show ?thesis
    using sessions_invariant [OF demo_reachable] by blast
qed

theorem ended_session_stays_out_witness:
  "fst (currentUser demo_crypto 2000 (Some ''S'') demo_d1) \<noteq> Inr None \<and>
   fst (currentUser demo_crypto 2000 (Some ''S'') demo_d2) = Inr None"
proof -
  have "fst (currentUser demo_crypto 2000 (Some ''S'') demo_d2) = Inr None"
  proof (rule ended_session_stays_out [OF demo_reachable2])
    show "hd (sessions demo_d2) \<in> set (sessions demo_d2)" by code_simp
    show "s_revokedAt (hd (sessions demo_d2)) \<noteq> None \<or>
        s_absoluteExpiresAt (hd (sessions demo_d2)) \<le> 2000 \<or>
        (\<exists>r. s_rotatedAt (hd (sessions demo_d2)) = Some r \<and> r + SESSION_ROTATION_GRACE_MS \<le> 2000)"
      by (rule disjI1) code_simp
    show "sha256Hex demo_crypto ''S'' = s_tokenHash (hd (sessions demo_d2))" by code_simp
  qed simp
  then show ?thesis using demo_current by simp
qed

theorem login_then_currentUser_witness:
  "\<exists>cur. fst (currentUser demo_crypto 5000 (Some ''S'') demo_d1) = Inr (Some cur) \<and>
    cur_user cur = toPublicUser demo_user \<and> s_id (cur_session cur) = ''s1'' \<and>
    verifyCsrf demo_crypto (cur_session cur) (Some ''C'')"
proof -
  have "\<exists>cur. fst (currentUser demo_crypto 5000 (Some (lr_sessionRaw \<lparr>lr_user = toPublicUser demo_user,
        lr_sessionRaw = ''S'', lr_csrfRaw = ''C''\<rparr>)) demo_d1) = Inr (Some cur) \<and>
    cur_user cur = lr_user \<lparr>lr_user = toPublicUser demo_user, lr_sessionRaw = ''S'', lr_csrfRaw = ''C''\<rparr> \<and>
    s_id (cur_session cur) = sup_newId demo_env \<and>
    verifyCsrf demo_crypto (cur_session cur) (Some (lr_csrfRaw \<lparr>lr_user = toPublicUser demo_user,
        lr_sessionRaw = ''S'', lr_csrfRaw = ''C''\<rparr>))"
  proof (rule login_then_currentUser [OF _ _ demo_login_eq [unfolded demo_login_def]])
    show "sessions_wf demo_db" by (simp add: sessions_wf_def demo_db_def empty_db_def)
    show "distinct (map u_id (users demo_db))" by (simp add: demo_db_def)
  qed (simp_all add: demo_env_def toPublicUser_def demo_user_def limit_values)
  then show ?thesis by (simp add: demo_env_def)
qed

theorem login_refusal_uniform_witness:
  "fst (login demo_crypto (default_auth_cfg True) demo_env \<lparr>li_email = ''ana@x.co'', li_password = ''no''\<rparr>
      demo_ctx None demo_db)
   = fst (login demo_crypto (default_auth_cfg True) demo_env \<lparr>li_email = ''ana@x.co'', li_password = ''no''\<rparr>
      demo_ctx None empty_db)"
  by (rule login_refusal_uniform) code_simp+

theorem forgotPassword_uniform_witness:
  "fst (forgotPassword demo_crypto demo_env ''ana@x.co'' demo_ctx demo_db)
   = fst (forgotPassword demo_crypto demo_env ''ana@x.co'' demo_ctx empty_db)"
  by (rule forgotPassword_uniform) (simp add: demo_db_def)

theorem logoutAll_ends_all_witness:
  "list_all (\<lambda>s. s_revokedAt s \<noteq> None)
     (filter (\<lambda>s. s_userId s = pu_id (cur_user demo_cur)) (sessions demo_d2))"
  using logoutAll_ends_all [OF demo_current demo_logout_eq] by (auto simp: list_all_iff)

text \<open>A reset link and a verification link, used once.\<close>

definition demo_tokens :: db where
  "demo_tokens = demo_d1\<lparr>
     resetTokens := [\<lparr>t_userId = ''u1'', t_tokenHash = ''#T'', t_expiresAt = 9000, t_usedAt = None,
       t_createdAt = 0\<rparr>],
     emailTokens := [\<lparr>t_userId = ''u1'', t_tokenHash = ''#V'', t_expiresAt = 9000, t_usedAt = None,
       t_createdAt = 0\<rparr>]\<rparr>"

definition demo_reset :: db where
  "demo_reset = snd (resetPassword_service demo_crypto demo_env ''T'' ''new'' demo_ctx demo_tokens)"

definition demo_verified :: db where
  "demo_verified = snd (verifyEmail demo_crypto demo_env ''V'' demo_ctx demo_tokens)"

theorem verifyEmail_once_witness:
  "verifyEmail demo_crypto demo_env ''V'' demo_ctx demo_verified = (Inl invalid_or_expired, demo_verified)"
proof -
  have "verifyEmail demo_crypto demo_env ''V'' demo_ctx demo_tokens = (Inr (), demo_verified)"
    by code_simp
  from verifyEmail_once [OF this] show ?thesis by blast
qed

text \<open>A rotation two hours later.\<close>

definition demo_env2 :: supplies where
  "demo_env2 = demo_env\<lparr>sup_now := 7201000, sup_now2 := 7201000, sup_newId := ''s2'',
     sup_sessionRaw := ''S2'', sup_csrfRaw := ''C2''\<rparr>"

definition demo_seen :: db where
  "demo_seen = snd (currentUser demo_crypto 2000 (Some ''S'') demo_d1)"

definition demo_rotated :: db where
  "demo_rotated = snd (rotateSession_service demo_crypto demo_env2 demo_cur demo_ctx demo_seen)"

theorem rotation_bounded_witness:
  "fst (currentUser demo_crypto 7201000 (Some ''S'') demo_rotated) \<noteq> Inr None \<and>
   fst (currentUser demo_crypto 7500000 (Some ''S'') demo_seen) \<noteq> Inr None \<and>
   fst (currentUser demo_crypto 7500000 (Some ''S'') demo_rotated) = Inr None \<and>
   rotateSession_service demo_crypto demo_env2 demo_cur demo_ctx demo_rotated \<noteq> (Inr (Some (''S3'', ''C3'')), demo_rotated)"
proof -
  have seen: "currentUser demo_crypto 2000 (Some ''S'') demo_d1 = (Inr (Some demo_cur), demo_seen)"
    using demo_current by (simp add: demo_seen_def prod_eq_iff)
  have rot: "rotateSession_service demo_crypto demo_env2 demo_cur demo_ctx demo_seen
      = (Inr (Some (''S2'', ''C2'')), demo_rotated)"
    by code_simp
  have runs: "fst (currentUser demo_crypto 7201000 (Some ''S'') demo_seen) \<noteq> Inr None"
    "fst (currentUser demo_crypto 7500000 (Some ''S'') demo_seen) \<noteq> Inr None"
    "7201000 < sup_now2 demo_env2 + SESSION_ROTATION_GRACE_MS"
    "sup_now2 demo_env2 + SESSION_ROTATION_GRACE_MS \<le> 7500000"
    by code_simp+
  from rotation_bounded [OF auth_reachable_wf [OF demo_reachable] seen rtranclp.rtrancl_refl
      [of "auth_step demo_crypto (default_auth_cfg True)"] rot]
  show ?thesis
  proof (elim exE conjE)
    fix old :: session_row
    assume id: "s_id old = s_id (cur_session demo_cur)"
      and grace: "\<forall>now. fst (currentUser demo_crypto now (Some ''S'') demo_rotated) \<noteq> Inr None \<longleftrightarrow>
        fst (currentUser demo_crypto now (Some ''S'') demo_seen) \<noteq> Inr None \<and>
        now < sup_now2 demo_env2 + SESSION_ROTATION_GRACE_MS"
      and later: "\<forall>cfg2 d2. (auth_step demo_crypto cfg2)\<^sup>*\<^sup>* demo_rotated d2 \<longrightarrow>
        (\<forall>now. sup_now2 demo_env2 + SESSION_ROTATION_GRACE_MS \<le> now \<longrightarrow>
          fst (currentUser demo_crypto now (Some ''S'') d2) = Inr None) \<and>
        (\<forall>cur2 env2 ctx2 tokens d3. s_id (cur_session cur2) = s_id old \<longrightarrow>
          rotateSession_service demo_crypto env2 cur2 ctx2 d2 \<noteq> (Inr (Some tokens), d3))"
    note now = later [THEN spec, of "default_auth_cfg True", THEN spec, of demo_rotated,
        THEN mp, OF rtranclp.rtrancl_refl]
    have "fst (currentUser demo_crypto 7500000 (Some ''S'') demo_rotated) = Inr None"
      by (rule now [THEN conjunct1, THEN spec, THEN mp, OF runs(4)])
    moreover have "rotateSession_service demo_crypto demo_env2 demo_cur demo_ctx demo_rotated
        \<noteq> (Inr (Some (''S3'', ''C3'')), demo_rotated)"
      by (rule now [THEN conjunct2, rule_format]) (rule id [symmetric])
    ultimately show ?thesis using runs grace by blast
  qed
qed

text \<open>
  A session rotated longer ago than the grace period authenticates nobody and is not listed, but
  \<open>revokeOwnSession\<close> does not look at the rotation, so it answers that it revoked a session
  rather than the 404 of one that is no longer valid.
\<close>

lemma rotated_session_still_revocable:
  "fst (currentUser demo_crypto 7300000 (Some ''S'') demo_rotated) = Inr None \<and>
   \<not> (\<exists>s \<in> set (listActiveSessions ''u1'' 7300000 demo_rotated). s_id s = ''s1'') \<and>
   fst (revokeOwnSession 7300000 ''s1'' ''u1'' 7300000 LOGOUT None demo_rotated)"
proof -
  have "fst (currentUser demo_crypto 7300000 (Some ''S'') demo_rotated) = Inr None" by code_simp
  moreover have "\<not> (\<exists>s \<in> set (filter (active_session ''u1'' 7300000) (sessions demo_rotated)). s_id s = ''s1'')"
    by code_simp
  then have "\<not> (\<exists>s \<in> set (listActiveSessions ''u1'' 7300000 demo_rotated). s_id s = ''s1'')"
    by (simp add: listActiveSessions_def)
  moreover have "fst (revokeOwnSession 7300000 ''s1'' ''u1'' 7300000 LOGOUT None demo_rotated)"
    by code_simp
  ultimately show ?thesis by blast
qed

end
