(* ===== verification/Auth_Limits.thy ===== *)
theory Auth_Limits
  imports Auth_Theorems
begin

text \<open>
  What the progressive delay of ADR-002 (D3) costs somebody who guesses passwords: the failures
  the audit log holds for one account are spaced as the delay says in every history of logins,
  so only a bounded number of them fits in a day.
\<close>

section \<open>The failures of one account\<close>

text \<open>When the failures recorded for an email hash happened, the latest first.\<close>

definition failure_times :: "string \<Rightarrow> db \<Rightarrow> time list" where
  "failure_times emailHash d = rev (map a_occurredAt (filter (\<lambda>r.
     action (a_entry r) = ''auth.login.failed'' \<and>
     (case metadata (a_entry r) of None \<Rightarrow> False
      | Some m \<Rightarrow> map_of m ''emailHash'' = Some (JStr emailHash))) (auditLogs d)))"

lemma email_events_failures:
  "email_events ''auth.login.failed'' h now window d
    = rev (filter (\<lambda>t. now - window < t) (failure_times h d))"
  by (simp add: email_events_def failure_times_def filter_map o_def rev_filter rev_map
      filter_filter conj_commute conj_left_commute)

lemma failure_times_insert:
  "failure_times h (insert_audit e t d) =
    (if action e = ''auth.login.failed'' \<and>
        (case metadata e of None \<Rightarrow> False | Some m \<Rightarrow> map_of m ''emailHash'' = Some (JStr h))
     then t # failure_times h d else failure_times h d)"
  by (simp add: failure_times_def)

lemma failure_times_loginFailure [simp]:
  "failure_times h (insert_audit (loginFailure u h' ctx reason) t d) =
    (if h' = h then t # failure_times h d else failure_times h d)"
  by (simp add: failure_times_insert loginFailure_def request_entry_def)

lemma failure_times_other [simp]:
  "failure_times h (insert_audit (loginRateLimited h' n ctx) t d) = failure_times h d"
  "failure_times h (insert_audit (user_event ''auth.login.success'' ctx u) t d) = failure_times h d"
  by (simp_all add: failure_times_insert loginRateLimited_def user_event_def request_entry_def)

lemma latest_rev [simp]: "latest (rev ts) = latest ts"
proof (cases ts)
  case (Cons t ts')
  then have "latest (rev ts) \<noteq> None" "latest ts \<noteq> None"
    unfolding latest_None_iff by simp_all
  then obtain a b where ab: "latest (rev ts) = Some a" "latest ts = Some b"
    by blast
  with latest_SomeD [OF ab(1)] latest_SomeD [OF ab(2)] show ?thesis
    by (simp add: order_antisym)
qed simp

section \<open>The log every history of logins keeps\<close>

text \<open>
  \<open>log_ok limit window ts\<close>: reading the latest first, each failure happened when the delay
  computed from those before it, within the window, had passed.
\<close>

fun log_ok :: "nat \<Rightarrow> int \<Rightarrow> time list \<Rightarrow> bool" where
  "log_ok limit window [] \<longleftrightarrow> True"
| "log_ok limit window (t # ts) \<longleftrightarrow> log_ok limit window ts \<and> (\<forall>s \<in> set ts. s \<le> t) \<and>
    remainingLoginDelayMs limit (length (filter (\<lambda>s. t - window < s) ts))
      (latest (filter (\<lambda>s. t - window < s) ts)) t \<le> 0"

text \<open>
  The histories considered: logins for any address, with PostgreSQL's clock never behind the
  failures it recorded, and steps of anything else, which records no login failure.
\<close>

inductive login_history :: "crypto \<Rightarrow> auth_cfg \<Rightarrow> string \<Rightarrow> db \<Rightarrow> bool" for c cfg h where
  history_start: "failure_times h d = [] \<Longrightarrow> login_history c cfg h d"
| history_login: "login_history c cfg h d \<Longrightarrow> \<forall>t \<in> set (failure_times h d). t \<le> sup_pgNow env \<Longrightarrow>
    login c cfg env input ctx prev d = (r, d') \<Longrightarrow> login_history c cfg h d'"
| history_other: "login_history c cfg h d \<Longrightarrow> failure_times h d' = failure_times h d \<Longrightarrow>
    login_history c cfg h d'"

lemma failure_times_cong: "auditLogs d' = auditLogs d \<Longrightarrow> failure_times h d' = failure_times h d"
  by (simp add: failure_times_def)

lemma end_previous_auditLogs [simp]: "auditLogs (end_previous c wall prev d) = auditLogs d"
  by (auto simp: end_previous_def revokeSession_def revoke_where_def Let_def insert_audit_opt_def
      split: option.splits)

lemma createSessionForUser_auditLogs:
  "createSessionForUser c i raw csrf u rl addr ua now d = (r, d') \<Longrightarrow> auditLogs d' = auditLogs d"
  by (auto simp: createSessionForUser_def createSession_def Let_def bindE_def split: if_splits)

text \<open>A login adds at most one failure, and only when the delay has passed.\<close>

lemma login_failures:
  assumes "login c cfg env input ctx prev d = (r, d')"
  shows "failure_times h d' = failure_times h d \<or>
    (h = sha256Hex c (normalizeEmail (li_email input)) \<and> login_wait cfg env h d \<le> 0 \<and>
     failure_times h d' = sup_pgNow env # failure_times h d)"
proof (cases "sup_fault env")
  case (Some f)
  with assms have "d' = d"
    by (auto simp: login_def login_run_Some Let_def split: exn.splits)
  then show ?thesis by simp
next
  case None
  let ?email = "normalizeEmail (li_email input)"
  let ?h = "sha256Hex c ?email"
  note run = login_def None login_run_None login_attempt_cases Let_def
  show ?thesis
  proof (cases "0 < login_wait cfg env ?h d")
    case True
    with assms show ?thesis by (auto simp: run)
  next
    case wait: False
    show ?thesis
    proof (cases "credentials_ok c ?email (li_password input) d")
      case None
      with assms wait show ?thesis by (auto simp: run split: if_splits)
    next
      case (Some u)
      show ?thesis
      proof (cases "mfa_barred cfg u")
        case True
        with assms wait Some show ?thesis by (auto simp: run split: if_splits)
      next
        case False
        obtain q d1 where q: "createSessionForUser c (sup_newId env) (sup_sessionRaw env)
            (sup_csrfRaw env) (u_id u) (u_role u) (ctx_ip ctx) (ctx_userAgent ctx) (sup_now env) d = (q, d1)"
          by fastforce
        have "failure_times h d1 = failure_times h d"
          using createSessionForUser_auditLogs [OF q] by (rule failure_times_cong)
        moreover have "d' = d1 \<or> d' = insert_audit (user_event ''auth.login.success'' ctx u)
            (sup_pgNow env) (end_previous c (sup_wall env) prev d1)"
          using assms wait Some False q
          by (auto simp: run bindE_def writeAuditLog_def split: sum.splits)
        ultimately show ?thesis
          using failure_times_cong [OF end_previous_auditLogs] by auto
      qed
    qed
  qed
qed

lemma login_wait_failures:
  "login_wait cfg env h d = remainingLoginDelayMs (accountLoginAttemptLimit cfg)
    (length (filter (\<lambda>s. sup_pgNow env - accountLoginWindowMs cfg < s) (failure_times h d)))
    (latest (filter (\<lambda>s. sup_pgNow env - accountLoginWindowMs cfg < s) (failure_times h d)))
    (sup_pgNow env)"
  by (simp add: login_wait_def login_scope_def email_events_failures Let_def)

lemma login_history_log_ok:
  "login_history c cfg h d \<Longrightarrow>
    log_ok (accountLoginAttemptLimit cfg) (accountLoginWindowMs cfg) (failure_times h d)"
proof (induction rule: login_history.induct)
  case (history_login d env input ctx prev r d')
  from login_failures [OF history_login.hyps(3), of h] show ?case
    using history_login by (auto simp: login_wait_failures)
qed simp_all

section \<open>How many failures fit in an interval\<close>

text \<open>The sum of the first \<open>m\<close> delays.\<close>

fun delay_sum :: "nat \<Rightarrow> int" where
  "delay_sum 0 = 0"
| "delay_sum (Suc m) = delay_sum m + min (LOGIN_DELAY_BASE_MS * 2 ^ m) LOGIN_DELAY_CAP_MS"

lemma delay_sum_5: "delay_sum 5 = 930000"
  by (simp add: numeral_eq_Suc limit_values)

lemma delay_sum_from_5: "delay_sum (5 + m) = 930000 + 900000 * int m"
proof (induction m)
  case (Suc m)
  have "delay_sum (5 + Suc m) = delay_sum (Suc (5 + m))" by simp
  also have "\<dots> = delay_sum (5 + m) + min (LOGIN_DELAY_BASE_MS * 2 ^ (5 + m)) LOGIN_DELAY_CAP_MS"
    by (rule delay_sum.simps(2))
  also have "\<dots> = 930000 + 900000 * int (Suc m)"
  proof -
    have "(2::int) ^ 5 \<le> 2 ^ (5 + m)" by (intro power_increasing) auto
    then have "min (30000 * 2 ^ (5 + m)) 900000 = (900000 :: int)" by simp
    with Suc show ?thesis by (simp add: limit_values)
  qed
  finally show ?case .
qed (simp add: delay_sum_5)

lemma log_ok_spread:
  assumes "log_ok limit window ts" and "\<forall>t \<in> set ts. T0 < t \<and> t \<le> T0 + window"
    and "length ts = limit + m" and "0 < limit" and "0 < m"
  shows "T0 + delay_sum m < hd ts"
  using assms
proof (induction ts arbitrary: m)
  case (Cons t ts)
  have inwin: "filter (\<lambda>s. t - window < s) ts = ts"
    using Cons.prems(2) by (fastforce simp: filter_id_conv)
  obtain k where m: "m = Suc k" using Cons.prems(5) by (cases m) auto
  then have len: "length ts = limit + k" using Cons.prems(3) by simp
  with Cons.prems(4) obtain l where l: "latest ts = Some l"
    by (cases "latest ts") auto
  have ge: "l + min (LOGIN_DELAY_BASE_MS * 2 ^ k) LOGIN_DELAY_CAP_MS \<le> t"
    using Cons.prems(1) inwin l len by (simp add: remainingLoginDelayMs_def)
  have "T0 + delay_sum k < l"
  proof (cases "k = 0")
    case True
    then show ?thesis using latest_SomeD [OF l] Cons.prems(2) by auto
  next
    case False
    then have "T0 + delay_sum k < hd ts"
      using Cons.IH [of k] Cons.prems len by simp
    moreover have "hd ts \<le> l"
      using latest_SomeD [OF l] len Cons.prems(4) by (cases ts) auto
    ultimately show ?thesis by simp
  qed
  with ge show ?case by (simp add: m)
qed simp

lemma log_ok_interval:
  assumes "log_ok limit window ts" and "0 < limit"
  shows "log_ok limit window (filter (\<lambda>t. T0 < t \<and> t \<le> T1) ts)"
  using assms
proof (induction ts)
  case (Cons t ts)
  let ?A = "filter (\<lambda>s. t - window < s) ts"
  let ?B = "filter (\<lambda>s. t - window < s) (filter (\<lambda>t. T0 < t \<and> t \<le> T1) ts)"
  have le: "\<forall>s \<in> set ts. s \<le> t"
    and A: "remainingLoginDelayMs limit (length ?A) (latest ?A) t \<le> 0"
    using Cons.prems(1) by simp_all
  show ?case
  proof (cases "T0 < t \<and> t \<le> T1")
    case True
    have "remainingLoginDelayMs limit (length ?B) (latest ?B) t \<le> 0"
    proof (cases "latest ?B")
      case None
      then show ?thesis by (simp add: login_delay.no_event)
    next
      case (Some b)
      then have b: "b \<in> set ?B" by (rule latest_SomeD [THEN conjunct1])
      then have "?A \<noteq> []" by (auto simp: filter_empty_conv)
      then have "latest ?A \<noteq> None" unfolding latest_None_iff .
      then obtain a where a: "latest ?A = Some a" by blast
      have bA: "b \<in> set ?A" "T0 < b" using b by auto
      have aA: "a \<in> set ?A" and max: "\<forall>x \<in> set ?A. x \<le> a" using latest_SomeD [OF a] by simp_all
      have "b \<le> a" using max bA(1) by blast
      moreover have "a \<le> t" using le aA by simp
      ultimately have "a \<in> set ?B" using aA bA(2) True by simp
      then have "a \<le> b" using latest_SomeD [OF Some] by blast
      with \<open>b \<le> a\<close> have "a = b" by simp
      have "length ?B \<le> length ?A"
        using length_filter_le [of "\<lambda>t. T0 < t \<and> t \<le> T1" ?A] by (simp add: conj_commute)
      then show ?thesis
        using A a Some \<open>a = b\<close> login_delay.delay_mono [of limit "length ?B" "length ?A" b t]
          login_delay.below_free [of "length ?B" limit b t]
        by (cases "length ?B < limit") auto
    qed
    with True Cons le show ?thesis by auto
  qed (use Cons in auto)
qed simp

text \<open>
  C15. Guessing is slow: in any history of logins, with other activity in between, at most
  \<open>limit + 5 + W / 15 min\<close> failures of one account fall in an interval of length \<open>W\<close> within the
  window (with the default limit of 5, at most 106 in 24 hours).
\<close>

theorem failures_bounded:
  assumes "login_history c cfg h d" and "0 < accountLoginAttemptLimit cfg"
    and "0 \<le> W" and "W \<le> accountLoginWindowMs cfg"
  shows "length (filter (\<lambda>t. T0 < t \<and> t \<le> T0 + W) (failure_times h d))
    \<le> accountLoginAttemptLimit cfg + 5 + nat (W div 900000)"
proof (rule ccontr)
  let ?ts = "filter (\<lambda>t. T0 < t \<and> t \<le> T0 + W) (failure_times h d)"
  let ?L = "accountLoginAttemptLimit cfg"
  assume "\<not> length ?ts \<le> ?L + 5 + nat (W div 900000)"
  then obtain m where m: "length ?ts = ?L + (5 + m)" "nat (W div 900000) < m"
    using that [of "length ?ts - ?L - 5"] by fastforce
  have "log_ok ?L (accountLoginWindowMs cfg) ?ts"
    using login_history_log_ok [OF assms(1)] assms(2) by (rule log_ok_interval)
  then have "T0 + delay_sum (5 + m) < hd ?ts"
    using m(1) assms(2,4) by (intro log_ok_spread) auto
  moreover have "hd ?ts \<le> T0 + W"
  proof -
    have "?ts \<noteq> []" using m(1) by (metis add_eq_0_iff_both_eq_0 assms(2) less_irrefl list.size(3))
    then have "hd ?ts \<in> set ?ts" by (rule hd_in_set)
    then show ?thesis by simp
  qed
  ultimately have "930000 + 900000 * int m < W" by (simp add: delay_sum_from_5)
  moreover have "W div 900000 < int m" using m(2) assms(3) by linarith
  ultimately show False by linarith
qed

text \<open>
  While the delay runs, a login is refused with 429 and the wait, rounded up to a second,
  whatever the password; it is not checked, and no failure is recorded.
\<close>

theorem throttled_login_refused:
  assumes "sup_fault env = None"
    and "0 < login_wait cfg env (sha256Hex c (normalizeEmail (li_email input))) d"
  shows "fst (login c cfg env input ctx prev d) =
      Inl (rateLimited (retry_after_seconds (login_wait cfg env
        (sha256Hex c (normalizeEmail (li_email input))) d))) \<and>
    failure_times h (snd (login c cfg env input ctx prev d)) = failure_times h d \<and>
    sessions (snd (login c cfg env input ctx prev d)) = sessions d"
  using assms by (simp add: login_def login_run_None login_attempt_cases Let_def)

section \<open>Concrete runs\<close>

definition demo_wrong :: login_input where
  "demo_wrong = \<lparr>li_email = ''ana@x.co'', li_password = ''no''\<rparr>"

definition demo_guess :: "db \<Rightarrow> db" where
  "demo_guess d = snd (login demo_crypto (default_auth_cfg True) demo_env demo_wrong demo_ctx None d)"

definition demo_locked :: db where
  "demo_locked = demo_guess (demo_guess (demo_guess (demo_guess (demo_guess demo_db))))"

lemma demo_guess_history:
  assumes "login_history demo_crypto (default_auth_cfg True) h d \<and>
    (\<forall>t \<in> set (failure_times h d). t \<le> 1000)"
  shows "login_history demo_crypto (default_auth_cfg True) h (demo_guess d) \<and>
    (\<forall>t \<in> set (failure_times h (demo_guess d)). t \<le> 1000)"
proof -
  have run: "login demo_crypto (default_auth_cfg True) demo_env demo_wrong demo_ctx None d
      = (fst (login demo_crypto (default_auth_cfg True) demo_env demo_wrong demo_ctx None d), demo_guess d)"
    by (simp add: demo_guess_def)
  have now: "sup_pgNow demo_env = 1000" by (simp add: demo_env_def)
  show ?thesis
    using history_login [OF conjunct1 [OF assms] _ run] login_failures [OF run, of h] assms
    by (auto simp: now)
qed

theorem failures_bounded_witness:
  "length (failure_times ''#ana@x.co'' demo_locked) = 5 \<and>
   length (filter (\<lambda>t. 0 < t \<and> t \<le> 0 + 86400000) (failure_times ''#ana@x.co'' demo_locked)) \<le> 106"
proof -
  have "login_history demo_crypto (default_auth_cfg True) ''#ana@x.co'' demo_db \<and>
      (\<forall>t \<in> set (failure_times ''#ana@x.co'' demo_db). t \<le> 1000)"
    by (simp add: history_start failure_times_def demo_db_def empty_db_def)
  then have "login_history demo_crypto (default_auth_cfg True) ''#ana@x.co'' demo_locked"
    unfolding demo_locked_def by (intro demo_guess_history [THEN conjunct1] demo_guess_history)
  from failures_bounded [OF this, of 86400000 0]
  have "length (filter (\<lambda>t. 0 < t \<and> t \<le> 0 + 86400000) (failure_times ''#ana@x.co'' demo_locked)) \<le> 106"
    by (simp add: default_auth_cfg_def)
  moreover have "length (failure_times ''#ana@x.co'' demo_locked) = 5" by code_simp
  ultimately show ?thesis by simp
qed

theorem throttled_login_refused_witness:
  "fst (login demo_crypto (default_auth_cfg True) demo_env \<lparr>li_email = ''ana@x.co'', li_password = ''pw''\<rparr>
      demo_ctx None demo_locked) = Inl (rateLimited 30)"
proof -
  have wait: "login_wait (default_auth_cfg True) demo_env ''#ana@x.co'' demo_locked = 30000"
    by code_simp
  have h: "sha256Hex demo_crypto (normalizeEmail (li_email \<lparr>li_email = ''ana@x.co'', li_password = ''pw''\<rparr>))
      = ''#ana@x.co''" by code_simp
  have "retry_after_seconds 30000 = 30" by code_simp
  moreover have "sup_fault demo_env = None" by (simp add: demo_env_def)
  ultimately show ?thesis
    using throttled_login_refused [of demo_env "default_auth_cfg True" demo_crypto
      "\<lparr>li_email = ''ana@x.co'', li_password = ''pw''\<rparr>" demo_locked demo_ctx None]
    unfolding h wait by simp
qed

end
