(* ===== verification/Rate_Limiter.thy ===== *)
theory Rate_Limiter
  imports Prelude
begin

text \<open>
  The in-memory fixed-window rate limiter (apps/api/src/security/rate-limiter.ts). The bucket
  map is the JavaScript \<open>Map\<close>: an association list in insertion order, where \<open>set\<close> on a
  present key keeps its place. Times are milliseconds.
\<close>

section \<open>State and operations\<close>

record bucket =
  count :: nat
  resetAt :: time

record rate_limiter =
  buckets :: "(string \<times> bucket) list"
  max_requests :: nat
  windowMs :: int
  nextSweepAt :: time

record rate_limit_result =
  rl_allowed :: bool
  retryAfterSeconds :: int

definition new_rate_limiter :: "nat \<Rightarrow> int \<Rightarrow> rate_limiter" where
  "new_rate_limiter m w = \<lparr>buckets = [], max_requests = m, windowMs = w, nextSweepAt = 0\<rparr>"

definition sweepExpired :: "rate_limiter \<Rightarrow> time \<Rightarrow> rate_limiter" where
  "sweepExpired l now =
    (if now < nextSweepAt l then l
     else l\<lparr>buckets := filter (\<lambda>(k, b). \<not> resetAt b \<le> now) (buckets l),
            nextSweepAt := now + windowMs l\<rparr>)"

definition consume :: "rate_limiter \<Rightarrow> string \<Rightarrow> time \<Rightarrow> rate_limit_result \<times> rate_limiter" where
  "consume l key now =
    (let l = sweepExpired l now;
         fresh = (\<lparr>rl_allowed = True, retryAfterSeconds = 0\<rparr>,
           l\<lparr>buckets := AList.update key \<lparr>count = 1, resetAt = now + windowMs l\<rparr> (buckets l)\<rparr>)
     in case map_of (buckets l) key of
          None \<Rightarrow> fresh
        | Some b \<Rightarrow>
            if resetAt b \<le> now then fresh
            else if count b < max_requests l then
              (\<lparr>rl_allowed = True, retryAfterSeconds = 0\<rparr>,
               l\<lparr>buckets := AList.update key (b\<lparr>count := count b + 1\<rparr>) (buckets l)\<rparr>)
            else (\<lparr>rl_allowed = False, retryAfterSeconds = ceil_seconds (resetAt b - now)\<rparr>, l))"

definition limiter_size :: "rate_limiter \<Rightarrow> nat" where
  "limiter_size l = length (buckets l)"

definition limiter_reset :: "rate_limiter \<Rightarrow> rate_limiter" where
  "limiter_reset l = l\<lparr>buckets := []\<rparr>"

text \<open>A run of requests, each with its key and time; the list of the answers.\<close>

fun consume_run :: "rate_limiter \<Rightarrow> (string \<times> time) list \<Rightarrow> rate_limit_result list \<times> rate_limiter"
where
  "consume_run l [] = ([], l)"
| "consume_run l ((k, t) # reqs) =
    (case consume l k t of (r, l') \<Rightarrow>
      case consume_run l' reqs of (rs, l'') \<Rightarrow> (r # rs, l''))"

text \<open>How many of a run's requests for one key were allowed.\<close>

fun allowed_for :: "string \<Rightarrow> rate_limiter \<Rightarrow> (string \<times> time) list \<Rightarrow> nat" where
  "allowed_for key l [] = 0"
| "allowed_for key l ((k, t) # reqs) =
    (case consume l k t of (r, l') \<Rightarrow>
      (if k = key \<and> rl_allowed r then 1 else 0) + allowed_for key l' reqs)"

section \<open>What an operation does to one key's bucket\<close>

text \<open>The live bucket of a key: the one a request at \<open>now\<close> would find unexpired.\<close>

definition live_bucket :: "rate_limiter \<Rightarrow> string \<Rightarrow> time \<Rightarrow> bucket option" where
  "live_bucket l key now =
    (case map_of (buckets l) key of
       None \<Rightarrow> None
     | Some b \<Rightarrow> if resetAt b \<le> now then None else Some b)"

definition limiter_wf :: "rate_limiter \<Rightarrow> bool" where
  "limiter_wf l \<longleftrightarrow> distinct (map fst (buckets l)) \<and>
    (\<forall>(k, b) \<in> set (buckets l). count b \<le> max 1 (max_requests l))"

lemma sweepExpired_fields [simp]:
  "max_requests (sweepExpired l now) = max_requests l"
  "windowMs (sweepExpired l now) = windowMs l"
  by (simp_all add: sweepExpired_def)

lemma map_of_filter_distinct:
  "distinct (map fst xs) \<Longrightarrow> map_of (filter (\<lambda>(k, b). P b) xs) key =
    (case map_of xs key of None \<Rightarrow> None | Some b \<Rightarrow> if P b then Some b else None)"
proof (induction xs)
  case (Cons x xs)
  have "map_of xs (fst x) = None"
    using Cons.prems by (simp add: map_of_eq_None_iff)
  with Cons show ?case
    by (cases x) (auto split: option.splits)
qed simp

lemma distinct_keys_filter: "distinct (map fst xs) \<Longrightarrow> distinct (map fst (filter P xs))"
  by (induction xs) auto

lemma sweepExpired_wf [intro]: "limiter_wf l \<Longrightarrow> limiter_wf (sweepExpired l now)"
  by (auto simp: limiter_wf_def sweepExpired_def distinct_keys_filter)

lemma live_bucket_sweep:
  assumes "limiter_wf l" and "now \<le> t"
  shows "live_bucket (sweepExpired l now) key t = live_bucket l key t"
  using assms
  by (auto simp: live_bucket_def sweepExpired_def limiter_wf_def map_of_filter_distinct
      split: option.splits)

text \<open>\<open>consume\<close> in terms of the live bucket: the map itself no longer matters.\<close>

lemma consume_live:
  assumes "limiter_wf l"
  shows "fst (consume l key now) =
    (case live_bucket l key now of
       None \<Rightarrow> \<lparr>rl_allowed = True, retryAfterSeconds = 0\<rparr>
     | Some b \<Rightarrow> if count b < max_requests l then \<lparr>rl_allowed = True, retryAfterSeconds = 0\<rparr>
         else \<lparr>rl_allowed = False, retryAfterSeconds = ceil_seconds (resetAt b - now)\<rparr>)"
  unfolding live_bucket_sweep [OF assms order_refl, symmetric]
  by (simp add: consume_def Let_def live_bucket_def split: option.splits)

lemma rl_allowed_consume:
  assumes "limiter_wf l"
  shows "rl_allowed (fst (consume l key now)) \<longleftrightarrow>
    (case live_bucket l key now of None \<Rightarrow> True | Some b \<Rightarrow> count b < max_requests l)"
  by (simp add: consume_live [OF assms] split: option.splits)

lemma live_bucket_consume:
  assumes "limiter_wf l" and "now \<le> t"
  shows "live_bucket (snd (consume l key now)) key' t =
    (if key' = key then
       (case live_bucket l key now of
          None \<Rightarrow> if now + windowMs l \<le> t then None else Some \<lparr>count = 1, resetAt = now + windowMs l\<rparr>
        | Some b \<Rightarrow> if resetAt b \<le> t then None
            else Some (if count b < max_requests l then b\<lparr>count := count b + 1\<rparr> else b))
     else live_bucket l key' t)"
proof -
  let ?l = "sweepExpired l now"
  have a: "live_bucket l key now = live_bucket ?l key now"
    and b: "live_bucket l key' t = live_bucket ?l key' t"
    using assms by (simp_all add: live_bucket_sweep)
  show ?thesis
    unfolding a b
    using assms(2)
    by (auto simp: consume_def Let_def live_bucket_def update_conv' split: option.splits)
qed

lemma consume_fields [simp]:
  "max_requests (snd (consume l k t)) = max_requests l"
  "windowMs (snd (consume l k t)) = windowMs l"
  by (simp_all add: consume_def Let_def split: option.splits)

lemma set_update_subset: "set (AList.update k v xs) \<subseteq> insert (k, v) (set xs)"
  by (induction xs) auto

lemma consume_wf [intro]:
  assumes "limiter_wf l"
  shows "limiter_wf (snd (consume l k t))"
proof -
  have wf: "limiter_wf (sweepExpired l t)" using assms by blast
  then have count: "count b \<le> max 1 (max_requests l)"
    if "map_of (buckets (sweepExpired l t)) k = Some b" for k b
    using that by (auto simp: limiter_wf_def dest!: map_of_SomeD)
  have upd: "limiter_wf ((sweepExpired l t)\<lparr>buckets := AList.update k b (buckets (sweepExpired l t))\<rparr>)"
    if "count b \<le> max 1 (max_requests l)" for b
    using wf that set_update_subset [of k b "buckets (sweepExpired l t)"]
    by (fastforce simp: limiter_wf_def distinct_update)
  show ?thesis
    using wf upd count
    by (auto simp: consume_def Let_def split: option.splits)
qed

section \<open>How many requests a run lets through\<close>

lemma live_bucket_later:
  "live_bucket l key t0 = Some b \<Longrightarrow> t < resetAt b \<Longrightarrow> live_bucket l key t = Some b"
  by (auto simp: live_bucket_def split: option.splits if_splits)

lemma live_bucket_mono:
  "live_bucket l key t = Some b \<Longrightarrow> t0 \<le> t \<Longrightarrow> live_bucket l key t0 = Some b"
  by (auto simp: live_bucket_def split: option.splits if_splits)

lemma allowed_for_Cons:
  "allowed_for key l ((k, t) # reqs) =
    (if k = key \<and> rl_allowed (fst (consume l k t)) then 1 else 0)
    + allowed_for key (snd (consume l k t)) reqs"
  by (simp add: case_prod_beta)

lemma allowed_within_bucket:
  assumes "limiter_wf l" and "live_bucket l key t0 = Some b" and "sorted (t0 # map snd reqs)"
    and "\<forall>(k, t) \<in> set reqs. t < resetAt b"
  shows "allowed_for key l reqs \<le> max_requests l - count b"
  using assms
proof (induction reqs arbitrary: l b t0)
  case (Cons req reqs)
  obtain k t where req: "req = (k, t)" by (cases req)
  let ?l = "snd (consume l k t)"
  from Cons.prems req have t: "t0 \<le> t" "t < resetAt b" and sorted: "sorted (t # map snd reqs)"
    by auto
  have live: "live_bucket l key t = Some b"
    using Cons.prems(2) t(2) by (rule live_bucket_later)
  let ?b = "if k = key \<and> count b < max_requests l then b\<lparr>count := count b + 1\<rparr> else b"
  have live': "live_bucket ?l key t = Some ?b"
    using live t(2)
    by (cases "k = key") (auto simp: live_bucket_consume [OF Cons.prems(1) order_refl])
  have "allowed_for key ?l reqs \<le> max_requests ?l - count ?b"
    by (rule Cons.IH [OF consume_wf [OF Cons.prems(1)] live' sorted])
      (use Cons.prems(4) in \<open>auto simp: req\<close>)
  moreover have "rl_allowed (fst (consume l key t)) \<longleftrightarrow> count b < max_requests l"
    using live by (simp add: rl_allowed_consume [OF Cons.prems(1)])
  ultimately show ?case
    by (cases "k = key") (auto simp: req allowed_for_Cons simp del: allowed_for.simps split: if_splits)
qed simp

definition credit :: "rate_limiter \<Rightarrow> string \<Rightarrow> time \<Rightarrow> nat" where
  "credit l key t = (case live_bucket l key t of None \<Rightarrow> 0 | Some b \<Rightarrow> max_requests l - count b)"

lemma credit_antimono:
  assumes "t0 \<le> t"
  shows "credit l key t \<le> credit l key t0"
proof (cases "live_bucket l key t")
  case (Some b)
  with live_bucket_mono [OF Some assms] show ?thesis by (simp add: credit_def)
qed (simp add: credit_def)

lemma allowed_credit:
  assumes "limiter_wf l" and "sorted (t0 # map snd reqs)"
    and "\<forall>(k, t) \<in> set reqs. a \<le> t \<and> t < a + windowMs l"
  shows "allowed_for key l reqs \<le> credit l key t0 + max 1 (max_requests l)"
  using assms
proof (induction reqs arbitrary: l t0)
  case (Cons req reqs)
  obtain k t where req: "req = (k, t)" by (cases req)
  let ?l = "snd (consume l k t)"
  from Cons.prems req have t: "t0 \<le> t" and a: "a \<le> t" and sorted: "sorted (t # map snd reqs)"
    by auto
  have wf': "limiter_wf ?l" using Cons.prems(1) by blast
  have IH: "allowed_for key ?l reqs \<le> credit ?l key t + max 1 (max_requests l)"
    using Cons.IH [OF wf' sorted] Cons.prems(3) by (auto simp: req)
  have mono: "credit l key t \<le> credit l key t0" using t by (rule credit_antimono)
  note live' = live_bucket_consume [OF Cons.prems(1) order_refl, of k t key]
  show ?case
  proof (cases "k = key")
    case False
    then have "credit ?l key t = credit l key t"
      by (auto simp: credit_def live' split: option.splits)
    with IH mono False show ?thesis
      by (simp add: req allowed_for_Cons del: allowed_for.simps)
  next
    case True
    show ?thesis
    proof (cases "live_bucket l key t")
      case None
      from Cons.prems(3) have bound: "\<forall>(k', t') \<in> set reqs. t' < t + windowMs l"
        using a by (auto simp: req)
      show ?thesis
      proof (cases "0 < windowMs l")
        case pos: True
        then have "live_bucket ?l key t = Some \<lparr>count = 1, resetAt = t + windowMs l\<rparr>"
          using None True live' by simp
        from allowed_within_bucket [OF wf' this sorted] bound
        have "allowed_for key ?l reqs \<le> max_requests l - 1" by simp
        then show ?thesis
          using True by (auto simp: req allowed_for_Cons simp del: allowed_for.simps)
      qed (use Cons.prems(3) in \<open>auto simp: req\<close>)
    next
      case (Some b)
      then have "t < resetAt b"
        by (auto simp: live_bucket_def split: option.splits if_splits)
      then have "live_bucket ?l key t
          = Some (if count b < max_requests l then b\<lparr>count := count b + 1\<rparr> else b)"
        using Some True live' by simp
      moreover have "rl_allowed (fst (consume l key t)) \<longleftrightarrow> count b < max_requests l"
        using Some by (simp add: rl_allowed_consume [OF Cons.prems(1)])
      moreover have "credit l key t = max_requests l - count b"
        using Some by (simp add: credit_def)
      ultimately show ?thesis
        using IH mono True
        by (auto simp: req allowed_for_Cons credit_def simp del: allowed_for.simps split: if_splits)
    qed
  qed
qed simp

lemma credit_le: "credit l key t \<le> max_requests l"
  by (simp add: credit_def split: option.splits)

section \<open>Which keys stay in memory\<close>

text \<open>
  After a request at \<open>now\<close> the next sweep lies within one window, every tracked bucket
  expires after the last sweep, and it was opened by some request of the past.
\<close>

definition tracked :: "(string \<times> time) list \<Rightarrow> time \<Rightarrow> rate_limiter \<Rightarrow> bool" where
  "tracked past now l \<longleftrightarrow> nextSweepAt l \<le> now + windowMs l \<and>
    (\<forall>(k, b) \<in> set (buckets l). nextSweepAt l - windowMs l < resetAt b \<and>
      (\<exists>t. (k, t) \<in> set past \<and> resetAt b = t + windowMs l))"

lemma tracked_sweep:
  assumes "tracked past now l" and "now \<le> t" and "0 < windowMs l"
  shows "tracked past t (sweepExpired l t)" and "t < nextSweepAt (sweepExpired l t)"
  using assms by (auto simp: tracked_def sweepExpired_def)

lemma tracked_update:
  assumes "tracked past now l" and "now < nextSweepAt l" and "0 < windowMs l"
    and "b = \<lparr>count = 1, resetAt = now + windowMs l\<rparr> \<or>
      (\<exists>b0. (k, b0) \<in> set (buckets l) \<and> resetAt b = resetAt b0)"
  shows "tracked (past @ [(k, now)]) now (l\<lparr>buckets := AList.update k b (buckets l)\<rparr>)"
  using assms set_update_subset [of k b "buckets l"]
  by (fastforce simp: tracked_def)

lemma tracked_append: "tracked past now l \<Longrightarrow> tracked (past @ ys) now l"
  by (fastforce simp: tracked_def)

lemma tracked_consume:
  assumes "tracked past now l" and "now \<le> t" and "0 < windowMs l"
  shows "tracked (past @ [(k, t)]) t (snd (consume l k t)) \<and> t < nextSweepAt (snd (consume l k t))"
proof -
  note sweep = tracked_sweep [OF assms]
  have found: "(k, b) \<in> set (buckets (sweepExpired l t))"
    if "map_of (buckets (sweepExpired l t)) k = Some b" for b
    using that by (rule map_of_SomeD)
  have upd: "tracked (past @ [(k, t)]) t
      ((sweepExpired l t)\<lparr>buckets := AList.update k b (buckets (sweepExpired l t))\<rparr>)"
    if "b = \<lparr>count = 1, resetAt = t + windowMs l\<rparr> \<or>
      (\<exists>b0. map_of (buckets (sweepExpired l t)) k = Some b0 \<and> resetAt b = resetAt b0)" for b
    using tracked_update [OF sweep, of b k] that found assms(3) by auto
  show ?thesis
    using sweep(2) upd tracked_append [OF sweep(1)]
    by (auto simp: consume_def Let_def split: option.splits)
qed

lemma tracked_run:
  assumes "tracked past now l" and "now < nextSweepAt l" and "sorted (now # map snd reqs)"
    and "0 < windowMs l"
  shows "tracked (past @ reqs) (last (now # map snd reqs)) (snd (consume_run l reqs))
    \<and> last (now # map snd reqs) < nextSweepAt (snd (consume_run l reqs))"
  using assms
proof (induction reqs arbitrary: past now l)
  case (Cons req reqs)
  obtain k t where req: "req = (k, t)" by (cases req)
  note step = tracked_consume [OF Cons.prems(1), of t k]
  from Cons.prems Cons.IH [of "past @ [(k, t)]" t "snd (consume l k t)"] step show ?case
    by (simp add: req case_prod_beta)
qed simp

lemma consume_run_fields [simp]:
  "max_requests (snd (consume_run l reqs)) = max_requests l"
  "windowMs (snd (consume_run l reqs)) = windowMs l"
  by (induction reqs arbitrary: l) (auto simp: case_prod_beta)

lemma consume_run_wf: "limiter_wf l \<Longrightarrow> limiter_wf (snd (consume_run l reqs))"
  by (induction reqs arbitrary: l) (auto simp: case_prod_beta consume_wf)

lemma new_rate_limiter_wf [intro]: "limiter_wf (new_rate_limiter m w)"
  by (simp add: limiter_wf_def new_rate_limiter_def)

section \<open>What the limiter promises\<close>

text \<open>
  C21. Whatever was requested before, a limiter lets through at most twice its maximum for one
  key in any interval as long as its window (a fixed window can be used up at its end and the
  next one at its start, but never more).
\<close>

theorem rate_limit_bound:
  assumes "0 < m" and "sorted (map snd (reqs0 @ reqs))"
    and "\<forall>(k, t) \<in> set reqs. a \<le> t \<and> t < a + w"
  shows "allowed_for key (snd (consume_run (new_rate_limiter m w) reqs0)) reqs \<le> 2 * m"
proof (cases reqs)
  case (Cons r rs)
  let ?l = "snd (consume_run (new_rate_limiter m w) reqs0)"
  have fields: "max_requests ?l = m" "windowMs ?l = w"
    by (simp_all add: new_rate_limiter_def)
  have sorted: "sorted (snd r # map snd reqs)"
    using assms(2) by (simp add: sorted_append Cons)
  have "allowed_for key ?l reqs \<le> credit ?l key (snd r) + max 1 (max_requests ?l)"
    by (rule allowed_credit [where a = a, OF consume_run_wf [OF new_rate_limiter_wf] sorted])
      (use assms(3) fields in simp)
  then show ?thesis
    using credit_le [of ?l key "snd r"] assms(1) by (simp add: new_rate_limiter_def)
qed simp

text \<open>
  C22. A client that waits as long as a refusal says is let through: the \<open>Retry-After\<close> of a
  refusal is at least one second and long enough, and waiting for it is not longer than the
  window rounded up to a second.
\<close>

theorem retry_after_lets_through:
  assumes "limiter_wf l" and "consume l key now = (r, l')" and "\<not> rl_allowed r"
  shows "1 \<le> retryAfterSeconds r \<and>
    (\<forall>later k. now + 1000 * retryAfterSeconds r \<le> later \<longrightarrow> rl_allowed (fst (consume l' key later))) \<and>
    (\<exists>b. live_bucket l key now = Some b \<and> 1000 * retryAfterSeconds r < resetAt b - now + 1000)"
proof -
  have r: "r = fst (consume l key now)" "l' = snd (consume l key now)" using assms(2) by simp_all
  from assms(3) obtain b where b: "live_bucket l key now = Some b" and full: "\<not> count b < max_requests l"
    and secs: "retryAfterSeconds r = ceil_seconds (resetAt b - now)"
    unfolding r by (auto simp: consume_live [OF assms(1)] split: option.splits if_splits)
  have pos: "0 < resetAt b - now"
    using b by (auto simp: live_bucket_def split: option.splits if_splits)
  have "rl_allowed (fst (consume l' key later))"
    if "now + 1000 * retryAfterSeconds r \<le> later" for later
  proof -
    have "resetAt b \<le> later"
      using that ceil_seconds_ge [of "resetAt b - now"] by (simp add: secs)
    moreover from this have "now \<le> later" using pos by linarith
    ultimately have "live_bucket l' key later = None"
      by (simp add: r(2) live_bucket_consume [OF assms(1)] b)
    then show ?thesis
      using consume_wf [OF assms(1)] by (simp add: r(2) rl_allowed_consume)
  qed
  then show ?thesis
    using ceil_seconds_pos [OF pos] ceil_seconds_less [of "resetAt b - now"] b secs by auto
qed

text \<open>
  The limiter does not grow with the clients it has ever seen: after a request, every key
  it still holds was requested less than two windows ago.
\<close>

theorem memory_bound:
  assumes "0 < w" and "sorted (0 # map snd (reqs @ [(k, t)]))"
    and "(key, b) \<in> set (buckets (snd (consume_run (new_rate_limiter m w) (reqs @ [(k, t)]))))"
  shows "\<exists>t0. (key, t0) \<in> set (reqs @ [(k, t)]) \<and> t - 2 * w < t0"
proof -
  let ?all = "reqs @ [(k, t)]"
  obtain q qs where all: "?all = q # qs" by (cases ?all) auto
  let ?l = "new_rate_limiter m w"
  obtain k0 t0 where q: "q = (k0, t0)" by (cases q)
  have sorted: "0 \<le> t0" "sorted (t0 # map snd qs)"
    using assms(2) unfolding all q by simp_all
  have "tracked [] t0 ?l"
    using assms(1) sorted by (simp add: tracked_def new_rate_limiter_def)
  then have first: "tracked [(k0, t0)] t0 (snd (consume ?l k0 t0))"
    "t0 < nextSweepAt (snd (consume ?l k0 t0))"
    using tracked_consume [of "[]" t0 ?l t0 k0] assms(1) by (simp_all add: new_rate_limiter_def)
  have "last (t0 # map snd qs) = t"
    using arg_cong [OF all, of "last \<circ> map snd"] by (simp add: q)
  then have "tracked ?all t (snd (consume_run ?l ?all)) \<and> t < nextSweepAt (snd (consume_run ?l ?all))"
    using tracked_run [OF first sorted(2)] assms(1) unfolding all q
    by (simp add: case_prod_beta new_rate_limiter_def)
  then show ?thesis
    using assms(3) by (fastforce simp: tracked_def new_rate_limiter_def)
qed

text \<open>So its size is at most the number of clients of the last two windows.\<close>

lemma size_bound:
  assumes "0 < w" and "sorted (0 # map snd (reqs @ [(k, t)]))"
  shows "limiter_size (snd (consume_run (new_rate_limiter m w) (reqs @ [(k, t)])))
    \<le> card (fst ` {r \<in> set (reqs @ [(k, t)]). t - 2 * w < snd r})"
proof -
  let ?bs = "buckets (snd (consume_run (new_rate_limiter m w) (reqs @ [(k, t)])))"
  let ?recent = "fst ` {r \<in> set (reqs @ [(k, t)]). t - 2 * w < snd r}"
  have "fst x \<in> ?recent" if x: "x \<in> set ?bs" for x
  proof -
    have "(fst x, snd x) \<in> set ?bs" using x by simp
    from memory_bound [OF assms this] obtain t0
      where "(fst x, t0) \<in> set (reqs @ [(k, t)])" "t - 2 * w < t0" by blast
    then show ?thesis by (intro image_eqI [where x = "(fst x, t0)"]) auto
  qed
  then have "set (map fst ?bs) \<subseteq> ?recent" by auto
  then have "card (set (map fst ?bs)) \<le> card ?recent" by (intro card_mono) auto
  moreover have "distinct (map fst ?bs)"
    using consume_run_wf [OF new_rate_limiter_wf] by (simp add: limiter_wf_def)
  from distinct_card [OF this] have "card (set (map fst ?bs)) = limiter_size (snd (consume_run (new_rate_limiter m w) (reqs @ [(k, t)])))"
    by (simp only: limiter_size_def length_map)
  ultimately show ?thesis by (simp only:)
qed

lemma allowed_after_reset:
  "rl_allowed (fst (consume (limiter_reset l) key now))"
  by (simp add: consume_def limiter_reset_def sweepExpired_def Let_def)

subsection \<open>Concrete runs\<close>

theorem rate_limit_bound_witness:
  "allowed_for ''a'' (snd (consume_run (new_rate_limiter 2 10) [(''a'', 0), (''b'', 1)]))
     [(''a'', 9), (''a'', 10), (''a'', 11)] \<le> 2 * 2"
  by (rule rate_limit_bound [where a = 9 and w = 10]) simp_all

definition full_limiter :: rate_limiter where
  "full_limiter = snd (consume_run (new_rate_limiter 1 600000) [(''a'', 1000)])"

theorem retry_after_lets_through_witness:
  "rl_allowed (fst (consume (snd (consume full_limiter ''a'' 2500)) ''a'' 601500))"
proof -
  have wf: "limiter_wf full_limiter"
    unfolding full_limiter_def by (rule consume_run_wf) (rule new_rate_limiter_wf)
  have "consume full_limiter ''a'' 2500 = (\<lparr>rl_allowed = False, retryAfterSeconds = 599\<rparr>,
      snd (consume full_limiter ''a'' 2500))"
    by code_simp
  from retry_after_lets_through [OF wf this] show ?thesis by simp
qed

theorem memory_bound_witness:
  "\<exists>t0. (''a'', t0) \<in> set [(''a'', 5), (''b'', 12)] \<and> 12 - 2 * 10 < (t0 :: int)"
proof -
  have "(''a'', \<lparr>count = 1, resetAt = 15\<rparr>) \<in>
      set (buckets (snd (consume_run (new_rate_limiter 1 10) ([(''a'', 5)] @ [(''b'', 12)]))))"
    by code_simp
  from memory_bound [OF _ _ this] show ?thesis by simp
qed

end
