(* ===== verification/Storage.thy ===== *)
theory Storage
  imports Database
begin

text \<open>
  The private object storage (packages/storage/src): the contract of \<open>StorageProvider\<close>, the
  in-memory provider that implements it, and the \<open>Content-Disposition\<close> a download carries. A
  world is the database, the objects, the download URLs issued and the operational log; a fault
  makes a call to the database or to the storage throw, before or after it took effect.
\<close>

section \<open>The world and its faults\<close>

record stored_object =
  so_body :: bytes
  so_contentType :: string

record download =
  dl_key :: string
  dl_fileName :: js_text
  dl_contentType :: string
  dl_expiresInSeconds :: int

datatype log_event =
    Orphan_object string "uuid option" string
  | Not_stored string
  | Ocr_error uuid ocr_error_code ocr_error_kind "int option" int
  | Outcome uuid uuid string
  | Sweep nat nat
  | Sweep_failed exn

record world =
  w_db :: db
  w_objects :: "string \<rightharpoonup> stored_object"
  w_urls :: "download list"
  w_log :: "log_event list"

type_synonym 'a io = "(world, exn, 'a) prog"

datatype fault = Fails_before exn | Fails_after exn

fun faulty :: "fault option \<Rightarrow> 'a io \<Rightarrow> 'a io" where
  "faulty None m w = m w"
| "faulty (Some (Fails_before e)) m w = (Inl e, w)"
| "faulty (Some (Fails_after e)) m w = (Inl e, snd (m w))"

text \<open>A transaction of the database, and something another process does meanwhile.\<close>

definition in_db :: "'a tx \<Rightarrow> 'a io" where
  "in_db m = (\<lambda>w. case m (w_db w) of (r, d) \<Rightarrow> (r, w\<lparr>w_db := d\<rparr>))"

definition logging :: "log_event \<Rightarrow> world \<Rightarrow> world" where
  "logging ev w = w\<lparr>w_log := w_log w @ [ev]\<rparr>"

lemma logging_simps [simp]:
  "w_db (logging ev w) = w_db w" "w_objects (logging ev w) = w_objects w"
  "w_urls (logging ev w) = w_urls w" "w_log (logging ev w) = w_log w @ [ev]"
  by (simp_all add: logging_def)

lemma in_db_simps [simp]:
  "fst (in_db m w) = fst (m (w_db w))" "w_db (snd (in_db m w)) = snd (m (w_db w))"
  "w_objects (snd (in_db m w)) = w_objects w" "w_urls (snd (in_db m w)) = w_urls w"
  "w_log (snd (in_db m w)) = w_log w"
  by (simp_all add: in_db_def split: prod.splits)

lemma faulty_Inr: "faulty f m w = (Inr x, w') \<longleftrightarrow> f = None \<and> m w = (Inr x, w')"
  by (cases "(f, m, w)" rule: faulty.cases) auto

lemma faulty_snd: "snd (faulty f m w) = w \<or> snd (faulty f m w) = snd (m w)"
  by (cases "(f, m, w)" rule: faulty.cases) auto

section \<open>The in-memory provider (memory-storage.ts)\<close>

definition putObject :: "string \<Rightarrow> bytes \<Rightarrow> string \<Rightarrow> unit io" where
  "putObject key body contentType = (\<lambda>w.
     (Inr (), w\<lparr>w_objects := (w_objects w)(key \<mapsto> \<lparr>so_body = body, so_contentType = contentType\<rparr>)\<rparr>))"

definition getObject :: "string \<Rightarrow> bytes io" where
  "getObject key = (\<lambda>w. case w_objects w key of
     None \<Rightarrow> (Inl (StorageObjectNotFoundError key), w)
   | Some stored \<Rightarrow> (Inr (so_body stored), w))"

definition deleteObject :: "string \<Rightarrow> unit io" where
  "deleteObject key = (\<lambda>w. (Inr (), w\<lparr>w_objects := (w_objects w)(key := None)\<rparr>))"

definition presigned :: "download \<Rightarrow> string" where
  "presigned dl = ''https://storage.test/'' @ dl_key dl @ ''?expires='' @ decimal (nat (dl_expiresInSeconds dl))"

definition createDownloadUrl_store :: "download \<Rightarrow> string io" where
  "createDownloadUrl_store dl = (\<lambda>w. (Inr (presigned dl), w\<lparr>w_urls := w_urls w @ [dl]\<rparr>))"

text \<open>
  What every \<open>StorageProvider\<close> promises its clients: an object that was put is read back until
  it is put again or deleted, an object that is not there is an error of its own, no operation
  touches another key, and none touches the database.
\<close>

locale object_store =
  fixes put :: "string \<Rightarrow> bytes \<Rightarrow> string \<Rightarrow> unit io"
    and get :: "string \<Rightarrow> bytes io"
    and del :: "string \<Rightarrow> unit io"
  assumes get_pure: "snd (get k w) = w"
    and put_get: "fst (get k (snd (put k b t w))) = Inr b"
    and put_other: "k' \<noteq> k \<Longrightarrow> fst (get k' (snd (put k b t w))) = fst (get k' w)"
    and del_get: "fst (get k (snd (del k w))) = Inl (StorageObjectNotFoundError k)"
    and del_other: "k' \<noteq> k \<Longrightarrow> fst (get k' (snd (del k w))) = fst (get k' w)"
    and put_db: "w_db (snd (put k b t w)) = w_db w"
    and del_db: "w_db (snd (del k w)) = w_db w"
    and put_ok: "fst (put k b t w) = Inr ()"
    and del_ok: "fst (del k w) = Inr ()"
begin

lemma put_faulty_db: "w_db (snd (faulty f (put k b t) w)) = w_db w"
  using faulty_snd [of f "put k b t" w] put_db by auto

lemma del_faulty_db: "w_db (snd (faulty f (del k) w)) = w_db w"
  using faulty_snd [of f "del k" w] del_db by auto

lemma get_faulty_pure: "snd (faulty f (get k) w) = w"
  using faulty_snd [of f "get k" w] get_pure by auto

lemma put_faulty_other:
  "k' \<noteq> k \<Longrightarrow> fst (get k' (snd (faulty f (put k b t) w))) = fst (get k' w)"
  using faulty_snd [of f "put k b t" w] put_other by auto

text \<open>Undoing a write, whatever became of it, leaves nothing under its key.\<close>

lemma put_then_del:
  "fst (get k (snd (del k (snd (faulty f (put k b t) w))))) = Inl (StorageObjectNotFoundError k)"
  by (rule del_get)

lemma undone_elsewhere:
  "k' \<noteq> k \<Longrightarrow> fst (get k' (snd (del k (snd (faulty f (put k b t) w))))) = fst (get k' w)"
  by (simp add: del_other put_faulty_other)

end

interpretation memory: object_store putObject getObject deleteObject
  by unfold_locales (auto simp: putObject_def getObject_def deleteObject_def split: option.splits)

lemma getObject_Inr: "getObject k w = (Inr b, w') \<longleftrightarrow> w' = w \<and> (\<exists>stored. w_objects w k = Some stored \<and> b = so_body stored)"
  by (auto simp: getObject_def split: option.splits)

lemma putObject_simps [simp]:
  "fst (putObject k b t w) = Inr ()" "w_db (snd (putObject k b t w)) = w_db w"
  "w_objects (snd (putObject k b t w)) = (w_objects w)(k \<mapsto> \<lparr>so_body = b, so_contentType = t\<rparr>)"
  "w_log (snd (putObject k b t w)) = w_log w" "w_urls (snd (putObject k b t w)) = w_urls w"
  by (simp_all add: putObject_def)

lemma deleteObject_simps [simp]:
  "fst (deleteObject k w) = Inr ()" "w_db (snd (deleteObject k w)) = w_db w"
  "w_objects (snd (deleteObject k w)) = (w_objects w)(k := None)"
  "w_log (snd (deleteObject k w)) = w_log w" "w_urls (snd (deleteObject k w)) = w_urls w"
  by (simp_all add: deleteObject_def)

section \<open>Calls\<close>

text \<open>
  A job or a service makes its calls to the database and to the storage one at a time, numbered:
  the environment says for each what other processes did meanwhile, whether it fails, and what
  the database clock reads.
\<close>

record call_env =
  ce_during :: "nat \<Rightarrow> world \<Rightarrow> world"
  ce_fault :: "nat \<Rightarrow> fault option"
  ce_clock :: "nat \<Rightarrow> time"

definition call :: "call_env \<Rightarrow> nat \<Rightarrow> (time \<Rightarrow> 'a io) \<Rightarrow> 'a io" where
  "call env n m = (\<lambda>w. faulty (ce_fault env n) (m (ce_clock env n)) (ce_during env n w))"

text \<open>Nothing else happens and nothing fails.\<close>

definition undisturbed :: "call_env \<Rightarrow> bool" where
  "undisturbed env \<longleftrightarrow> (\<forall>n w. ce_fault env n = None \<and> ce_during env n w = w)"

lemma call_undisturbed: "undisturbed env \<Longrightarrow> call env n m w = m (ce_clock env n) w"
  by (simp add: call_def undisturbed_def)

definition calm :: call_env where
  "calm = \<lparr>ce_during = (\<lambda>_ w. w), ce_fault = (\<lambda>_. None), ce_clock = (\<lambda>n. 1000 * int n + 1000)\<rparr>"

lemma calm_undisturbed: "undisturbed calm"
  by (simp add: calm_def undisturbed_def)

end
