(* ===== verification/Claims.thy ===== *)
theory Claims
  imports Storage
begin

text \<open>
  What the two background treatments of a document share: the jobs they send to pg-boss and the
  contract of a fenced claim. A worker claims a document and is given a token; it may record a
  result or release the claim only while the document still carries that token, so a worker whose
  claim was taken over can no longer write.
\<close>

section \<open>Jobs\<close>

text \<open>
  \<open>boss.send(queue, data, {db})\<close> inside the caller's transaction: pg-boss answers with the job's
  id, or null when it inserted nothing (\<open>sent\<close> is False), which the callers make an error.
\<close>

definition boss_send :: "bool \<Rightarrow> string \<Rightarrow> queue \<Rightarrow> uuid \<Rightarrow> int \<Rightarrow> unit tx" where
  "boss_send sent msg q documentId startAfter = (\<lambda>d.
     if sent then (Inr (), send_job q documentId startAfter d) else (Inl (Error msg), d))"

definition enqueueOcr :: "bool \<Rightarrow> uuid \<Rightarrow> unit tx" where
  "enqueueOcr sent documentId =
     boss_send sent ''a document.ocr job was not enqueued'' DOCUMENT_OCR_QUEUE documentId 0"

lemma boss_send_Inr: "boss_send sent msg q i n d = (Inr u, d') \<longleftrightarrow> sent \<and> d' = send_job q i n d"
  by (auto simp: boss_send_def)

section \<open>Rows by their identifier\<close>

definition find_document :: "uuid \<Rightarrow> db \<Rightarrow> document_row option" where
  "find_document i d = find (\<lambda>r. d_id r = i) (documents d)"

definition unique_documents :: "db \<Rightarrow> bool" where
  "unique_documents d \<longleftrightarrow> distinct (map d_id (documents d))"

text \<open>\<open>UPDATE documents SET f WHERE id = i AND P\<close>, and the number of rows it changed.\<close>

definition update_document :: "uuid \<Rightarrow> (document_row \<Rightarrow> bool) \<Rightarrow> (document_row \<Rightarrow> document_row) \<Rightarrow> db \<Rightarrow> db" where
  "update_document i P f d =
     d\<lparr>documents := update_where (\<lambda>r. d_id r = i \<and> P r) f (documents d)\<rparr>"

definition matching :: "uuid \<Rightarrow> (document_row \<Rightarrow> bool) \<Rightarrow> db \<Rightarrow> nat" where
  "matching i P d = count_where (\<lambda>r. d_id r = i \<and> P r) (documents d)"

lemma update_document_frame [frame_simps, simp]:
  "users (update_document i P f d) = users d" "sessions (update_document i P f d) = sessions d"
  "cases (update_document i P f d) = cases d" "caseHistory (update_document i P f d) = caseHistory d"
  "auditLogs (update_document i P f d) = auditLogs d" "jobs (update_document i P f d) = jobs d"
  "ocrResults (update_document i P f d) = ocrResults d" "ocrPages (update_document i P f d) = ocrPages d"
  "documents (update_document i P f d) = update_where (\<lambda>r. d_id r = i \<and> P r) f (documents d)"
  by (simp_all add: update_document_def)

lemma unique_update:
  "(\<And>r. d_id (f r) = d_id r) \<Longrightarrow> unique_documents (update_document i P f d) \<longleftrightarrow> unique_documents d"
  by (simp add: unique_documents_def table_simps)

lemma find_document_cong: "documents d = documents d' \<Longrightarrow> find_document i d = find_document i d'"
  by (simp add: find_document_def)

lemma find_document_SomeD: "find_document i d = Some r \<Longrightarrow> r \<in> set (documents d) \<and> d_id r = i"
  by (auto simp: find_document_def dest: find_SomeD)

lemma find_document_iff:
  "unique_documents d \<Longrightarrow> find_document i d = Some r \<longleftrightarrow> r \<in> set (documents d) \<and> d_id r = i"
  using find_key [of d_id "documents d"]
  by (auto simp: find_document_def unique_documents_def dest: find_SomeD)

lemma find_update_document:
  assumes "\<And>r. d_id (f r) = d_id r"
  shows "find_document j (update_document i P f d) =
    (if j = i then map_option (\<lambda>r. if P r then f r else r) (find_document i d) else find_document j d)"
proof (cases "j = i")
  case True
  have "find (\<lambda>r. d_id r = i) (update_where (\<lambda>r. d_id r = i \<and> P r) f rows)
      = map_option (\<lambda>r. if P r then f r else r) (find (\<lambda>r. d_id r = i) rows)" for rows
    using assms by (induction rows) auto
  with True show ?thesis by (simp add: find_document_def)
next
  case False
  have "find (\<lambda>r. d_id r = j) (update_where (\<lambda>r. d_id r = i \<and> P r) f rows)
      = find (\<lambda>r. d_id r = j) rows" for rows
    using assms False by (induction rows) auto
  with False show ?thesis by (simp add: find_document_def)
qed

text \<open>With unique identifiers, the one row the condition can select is the document's.\<close>

lemma matching_find:
  assumes "unique_documents d"
  shows "matching i P d = (case find_document i d of None \<Rightarrow> 0 | Some r \<Rightarrow> if P r then 1 else 0)"
proof -
  have "count_where (\<lambda>r. d_id r = i \<and> P r) rows
      = (case find (\<lambda>r. d_id r = i) rows of None \<Rightarrow> 0 | Some r \<Rightarrow> if P r then 1 else 0)"
    if "distinct (map d_id rows)" for rows
    using that
  proof (induction rows)
    case (Cons r rows)
    show ?case
    proof (cases "d_id r = i")
      case True
      with Cons.prems have "count_where (\<lambda>r. d_id r = i \<and> P r) rows = 0"
        by (auto simp: count_where_0_iff image_iff)
      with True show ?thesis by simp
    qed (use Cons in simp)
  qed simp
  with assms show ?thesis by (simp add: matching_def find_document_def unique_documents_def)
qed

lemma matching_1:
  "unique_documents d \<Longrightarrow> matching i P d = Suc 0 \<longleftrightarrow> (\<exists>r. find_document i d = Some r \<and> P r)"
  by (auto simp: matching_find split: option.splits)

lemma find_document_where:
  assumes "unique_documents d"
  shows "find (\<lambda>r. d_id r = i \<and> P r) (documents d) =
    (case find_document i d of None \<Rightarrow> None | Some r \<Rightarrow> if P r then Some r else None)"
proof -
  have "find (\<lambda>r. d_id r = i \<and> P r) rows =
      (case find (\<lambda>r. d_id r = i) rows of None \<Rightarrow> None | Some r \<Rightarrow> if P r then Some r else None)"
    if "distinct (map d_id rows)" for rows
    using that
  proof (induction rows)
    case (Cons r rows)
    show ?case
    proof (cases "d_id r = i")
      case True
      with Cons.prems have "find (\<lambda>r. d_id r = i \<and> P r) rows = None"
        by (auto simp: find_None_iff image_iff)
      with True show ?thesis by simp
    qed (use Cons in simp)
  qed simp
  with assms show ?thesis by (simp add: find_document_def unique_documents_def)
qed

section \<open>Fenced claims\<close>

text \<open>
  \<open>token r\<close> is the token a document carries while it is being treated. \<open>close\<close> is any of the
  operations with which a worker ends its claim; \<open>claim\<close> gives the claim of a document, if there
  is something to do, with the instant it was made as its token.
\<close>

locale fenced_claim =
  fixes token :: "document_row \<Rightarrow> time option"
    and claim :: "uuid \<Rightarrow> int \<Rightarrow> time \<Rightarrow> 'c option tx"
    and close :: "'op \<Rightarrow> 'c \<Rightarrow> bool tx"
    and ref :: "'c \<Rightarrow> uuid"
    and tok :: "'c \<Rightarrow> time"
  assumes claim_given: "unique_documents d \<Longrightarrow> claim i lease now d = (Inr (Some c), d') \<Longrightarrow>
      ref c = i \<and> tok c = now \<and> (\<exists>r. find_document i d' = Some r \<and> token r = Some now) \<and>
      (\<forall>r. find_document i d = Some r \<longrightarrow>
        token r = None \<or> (\<exists>t. token r = Some t \<and> t < now - 1000000 * lease))"
    and claim_none: "claim i lease now d = (Inr None, d') \<Longrightarrow> d' = d"
    and claim_total: "fst (claim i lease now d) \<noteq> Inl e"
    and claim_other: "j \<noteq> i \<Longrightarrow> find_document j (snd (claim i lease now d)) = find_document j d"
    and claim_unique: "unique_documents d \<Longrightarrow> unique_documents (snd (claim i lease now d))"
    and close_lost: "unique_documents d \<Longrightarrow>
      \<not> (\<exists>r. find_document (ref c) d = Some r \<and> token r = Some (tok c)) \<Longrightarrow>
      snd (close op c d) = d \<and> fst (close op c d) \<noteq> Inr True"
    and close_held: "unique_documents d \<Longrightarrow> find_document (ref c) d = Some r \<Longrightarrow>
      token r = Some (tok c) \<Longrightarrow> fst (close op c d) \<noteq> Inr False"
    and close_ends: "unique_documents d \<Longrightarrow> close op c d = (Inr True, d') \<Longrightarrow>
      \<exists>r. find_document (ref c) d' = Some r \<and> token r = None"
    and close_failed: "close op c d = (Inl e, d') \<Longrightarrow> d' = d"
    and close_other: "j \<noteq> ref c \<Longrightarrow> find_document j (snd (close op c d)) = find_document j d"
    and close_unique: "unique_documents d \<Longrightarrow> unique_documents (snd (close op c d))"
begin

definition holds :: "'c \<Rightarrow> db \<Rightarrow> bool" where
  "holds c d \<longleftrightarrow> (\<exists>r. find_document (ref c) d = Some r \<and> token r = Some (tok c))"

lemma close_True_iff_held: "unique_documents d \<Longrightarrow> close op c d = (Inr b, d') \<Longrightarrow> b \<longleftrightarrow> holds c d"
  using close_lost [of d c op] close_held [of d c _ op] by (cases b) (force simp: holds_def)+

lemma claim_then_holds:
  "unique_documents d \<Longrightarrow> claim i lease now d = (Inr (Some c), d') \<Longrightarrow> holds c d'"
  using claim_given [of d i lease now c d'] by (auto simp: holds_def)

text \<open>A claim is only given over one whose lease is over.\<close>

lemma claim_takes_expired:
  assumes "unique_documents d" and "holds c0 d" and "claim (ref c0) lease now d = (Inr (Some c), d')"
  shows "tok c0 < now - 1000000 * lease"
  using claim_given [OF assms(1,3)] assms(2) by (auto simp: holds_def)

text \<open>Once taken over, or once closed, a claim records nothing more.\<close>

lemma taken_over_lost:
  assumes "unique_documents d" and "claim (ref c0) lease now d = (Inr (Some c), d')" and "tok c0 \<noteq> now"
  shows "snd (close op c0 d') = d' \<and> fst (close op c0 d') \<noteq> Inr True"
proof (rule close_lost)
  show "unique_documents d'" using claim_unique [OF assms(1), of "ref c0" lease now] assms(2) by simp
  show "\<not> (\<exists>r. find_document (ref c0) d' = Some r \<and> token r = Some (tok c0))"
    using claim_given [OF assms(1,2)] assms(3) by auto
qed

lemma closed_once:
  assumes "unique_documents d" and "close op c d = (Inr True, d')"
  shows "snd (close op' c d') = d' \<and> fst (close op' c d') \<noteq> Inr True"
proof (rule close_lost)
  show "unique_documents d'" using close_unique [OF assms(1), of op c] assms(2) by simp
  show "\<not> (\<exists>r. find_document (ref c) d' = Some r \<and> token r = Some (tok c))"
    using close_ends [OF assms] by auto
qed

text \<open>Of any two claims of one document with different tokens, one at most is held.\<close>

lemma one_holder: "ref c = ref c' \<Longrightarrow> holds c d \<Longrightarrow> holds c' d \<Longrightarrow> tok c = tok c'"
  by (auto simp: holds_def)

lemma held_elsewhere: "ref c \<noteq> ref c' \<Longrightarrow> holds c' (snd (close op c d)) = holds c' d"
  by (auto simp: holds_def close_other)

end

end
