(* ===== verification/Scan_Repository.thy ===== *)
theory Scan_Repository
  imports Claims
begin

text \<open>
  The document table as the security treatment sees it
  (apps/worker/src/scan/scan.repository.ts): every method is one transaction, its clock an
  argument in microseconds. With the OCR active the state of the OCR is decided with the result.
\<close>

record scan_claim =
  sc_documentId :: uuid
  sc_caseId :: uuid
  sc_fileType :: document_file_type
  sc_storageKey :: string
  sc_fileSize :: int
  sc_attempts :: int
  sc_token :: time

text \<open>\<open>oa_sent\<close>: whether pg-boss inserts the job \<open>enqueue\<close> sends.\<close>

record ocr_activation =
  oa_pdfEnabled :: bool
  oa_sent :: bool

section \<open>Claim\<close>

definition older_than :: "time option \<Rightarrow> time \<Rightarrow> int \<Rightarrow> bool" where
  "older_than startedAt now leaseSeconds =
    (case startedAt of None \<Rightarrow> False | Some t \<Rightarrow> t < now - 1000000 * leaseSeconds)"

definition claimable :: "int \<Rightarrow> time \<Rightarrow> document_row \<Rightarrow> bool" where
  "claimable leaseSeconds now r \<longleftrightarrow> d_status r = PENDING_SCAN \<or>
     (d_status r = SCANNING \<and> older_than (d_scanStartedAt r) now leaseSeconds)"

definition start_scan :: "time \<Rightarrow> document_row \<Rightarrow> document_row" where
  "start_scan now r =
     r\<lparr>d_status := SCANNING, d_scanAttempts := d_scanAttempts r + 1, d_scanStartedAt := Some now\<rparr>"

definition to_scan_claim :: "time \<Rightarrow> document_row \<Rightarrow> scan_claim" where
  "to_scan_claim now r =
     \<lparr>sc_documentId = d_id r, sc_caseId = d_caseId r, sc_fileType = d_fileType r,
      sc_storageKey = d_storageKey r, sc_fileSize = d_fileSize r, sc_attempts = d_scanAttempts r,
      sc_token = now\<rparr>"

definition claim_scan :: "uuid \<Rightarrow> int \<Rightarrow> time \<Rightarrow> scan_claim option tx" where
  "claim_scan documentId leaseSeconds now = (\<lambda>d.
     case find (\<lambda>r. d_id r = documentId \<and> claimable leaseSeconds now r) (documents d) of
       None \<Rightarrow> (Inr None, d)
     | Some r \<Rightarrow>
         (Inr (Some (to_scan_claim now (start_scan now r))),
          update_document documentId (claimable leaseSeconds now) (start_scan now) d))"

section \<open>Results\<close>

datatype scan_status = St_clean | St_infected | St_failed

fun status_of :: "scan_status \<Rightarrow> document_status" where
  "status_of St_clean = CLEAN"
| "status_of St_infected = INFECTED"
| "status_of St_failed = SCAN_FAILED"

definition ocrStatusFor :: "ocr_activation option \<Rightarrow> scan_claim \<Rightarrow> scan_status \<Rightarrow> document_ocr_status option" where
  "ocrStatusFor ocr claim status =
    (case ocr of
       None \<Rightarrow> None
     | Some act \<Rightarrow>
         if status = St_infected then Some NOT_APPLICABLE
         else if status \<noteq> St_clean then None
         else if sc_fileType claim = PDF \<and> \<not> oa_pdfEnabled act then Some EXCLUDED
         else Some PENDING)"

definition scan_held :: "scan_claim \<Rightarrow> document_row \<Rightarrow> bool" where
  "scan_held claim r \<longleftrightarrow> d_status r = SCANNING \<and> d_scanStartedAt r = Some (sc_token claim)"

definition finish_row ::
  "scan_status \<Rightarrow> document_ocr_status option \<Rightarrow> time \<Rightarrow> string option \<Rightarrow> string option \<Rightarrow>
   document_row \<Rightarrow> document_row" where
  "finish_row status ocrStatus now sig sanitizedKey r =
     r\<lparr>d_status := status_of status, d_scannedAt := Some now, d_scanSignature := sig,
       d_sanitizedStorageKey := sanitizedKey,
       d_ocrStatus := (case ocrStatus of None \<Rightarrow> d_ocrStatus r | Some s \<Rightarrow> s)\<rparr>"

definition finish_scan ::
  "ocr_activation option \<Rightarrow> time \<Rightarrow> scan_claim \<Rightarrow> scan_status \<Rightarrow> string \<Rightarrow> json_object \<Rightarrow>
   string option \<Rightarrow> string option \<Rightarrow> bool tx" where
  "finish_scan ocr now claim status act value sanitizedKey sig = transaction (\<lambda>d.
     let ocrStatus = ocrStatusFor ocr claim status;
         changed = matching (sc_documentId claim) (scan_held claim) d;
         d = update_document (sc_documentId claim) (scan_held claim)
               (finish_row status ocrStatus now sig sanitizedKey) d
     in if changed \<noteq> 1 then (Inr False, d)
        else bindE
          (if ocrStatus = Some PENDING
           then enqueueOcr (case ocr of None \<Rightarrow> False | Some a \<Rightarrow> oa_sent a) (sc_documentId claim)
           else returnE ())
          (\<lambda>_ d. (Inr True, insert_audit
              (system_entry act (sc_documentId claim) (sc_caseId claim) value) now d)) d)"

definition markClean ::
  "ocr_activation option \<Rightarrow> time \<Rightarrow> scan_claim \<Rightarrow> string option \<Rightarrow> bool tx" where
  "markClean ocr now claim sanitizedKey =
     finish_scan ocr now claim St_clean ''document.scan_clean'' [(''status'', JStr ''CLEAN'')]
       sanitizedKey None"

definition markInfected :: "ocr_activation option \<Rightarrow> time \<Rightarrow> scan_claim \<Rightarrow> string \<Rightarrow> bool tx" where
  "markInfected ocr now claim sig =
     finish_scan ocr now claim St_infected ''document.scan_infected''
       [(''status'', JStr ''INFECTED''), (''signature'', JStr sig)] None (Some sig)"

definition markFailed_scan :: "ocr_activation option \<Rightarrow> time \<Rightarrow> scan_claim \<Rightarrow> bool tx" where
  "markFailed_scan ocr now claim =
     finish_scan ocr now claim St_failed ''document.scan_failed''
       [(''status'', JStr ''SCAN_FAILED''), (''attempts'', JNum (sc_attempts claim))] None None"

definition release_row :: "document_row \<Rightarrow> document_row" where
  "release_row r = r\<lparr>d_status := PENDING_SCAN, d_scanStartedAt := None\<rparr>"

definition release_scan :: "scan_claim \<Rightarrow> bool tx" where
  "release_scan claim = (\<lambda>d.
     (Inr (matching (sc_documentId claim) (scan_held claim) d = 1),
      update_document (sc_documentId claim) (scan_held claim) release_row d))"

section \<open>What the operations do\<close>

lemma row_ids [simp]:
  "d_id (start_scan now r) = d_id r" "d_id (finish_row s o' now g k r) = d_id r"
  "d_id (release_row r) = d_id r"
  by (simp_all add: start_scan_def finish_row_def release_row_def)

lemma update_document_none:
  "matching i P d = 0 \<Longrightarrow> update_document i P f d = d"
  by (auto simp: matching_def count_where_0_iff update_document_def update_where_none)

lemma claim_scan_cases:
  assumes "unique_documents d"
  shows "claim_scan i lease now d =
    (case find_document i d of
       Some r \<Rightarrow> if claimable lease now r
         then (Inr (Some (to_scan_claim now (start_scan now r))),
               update_document i (claimable lease now) (start_scan now) d)
         else (Inr None, d)
     | None \<Rightarrow> (Inr None, d))"
  using find_document_where [OF assms, of i "claimable lease now"] find_document_SomeD [of i d]
  by (auto simp: claim_scan_def split: option.splits if_splits)

text \<open>A result is recorded exactly when the claim is still held; otherwise nothing changes.\<close>

definition finished ::
  "ocr_activation option \<Rightarrow> time \<Rightarrow> scan_claim \<Rightarrow> scan_status \<Rightarrow> string \<Rightarrow> json_object \<Rightarrow>
   string option \<Rightarrow> string option \<Rightarrow> db \<Rightarrow> db" where
  "finished ocr now claim status act value sanitizedKey sig d =
     insert_audit (system_entry act (sc_documentId claim) (sc_caseId claim) value) now
       ((if ocrStatusFor ocr claim status = Some PENDING
         then send_job DOCUMENT_OCR_QUEUE (sc_documentId claim) 0 else id)
        (update_document (sc_documentId claim) (scan_held claim)
          (finish_row status (ocrStatusFor ocr claim status) now sig sanitizedKey) d))"

lemma finish_scan_cases:
  assumes "unique_documents d"
  shows "finish_scan ocr now claim status act value sanitizedKey sig d =
    (if \<not> (\<exists>r. find_document (sc_documentId claim) d = Some r \<and> scan_held claim r) then (Inr False, d)
     else if ocrStatusFor ocr claim status = Some PENDING \<and>
        \<not> (case ocr of None \<Rightarrow> False | Some a \<Rightarrow> oa_sent a)
     then (Inl (Error ''a document.ocr job was not enqueued''), d)
     else (Inr True, finished ocr now claim status act value sanitizedKey sig d))"
proof (cases "\<exists>r. find_document (sc_documentId claim) d = Some r \<and> scan_held claim r")
  case True
  then have "matching (sc_documentId claim) (scan_held claim) d = Suc 0"
    by (simp add: matching_1 assms)
  with True show ?thesis
    by (simp add: finish_scan_def transaction_def Let_def bindE_def enqueueOcr_def boss_send_def
        finished_def)
next
  case False
  then have "matching (sc_documentId claim) (scan_held claim) d = 0"
    using assms by (auto simp: matching_find split: option.splits)
  with False show ?thesis
    by (simp add: finish_scan_def transaction_def Let_def update_document_none)
qed

lemma finished_frame [simp]:
  "documents (finished ocr now claim status act value k sig d) =
     update_where (\<lambda>r. d_id r = sc_documentId claim \<and> scan_held claim r)
       (finish_row status (ocrStatusFor ocr claim status) now sig k) (documents d)"
  "cases (finished ocr now claim status act value k sig d) = cases d"
  "users (finished ocr now claim status act value k sig d) = users d"
  "ocrResults (finished ocr now claim status act value k sig d) = ocrResults d"
  "ocrPages (finished ocr now claim status act value k sig d) = ocrPages d"
  by (simp_all add: finished_def)

lemma find_finished:
  "find_document j (finished ocr now claim status act value k sig d) =
    (if j = sc_documentId claim
     then map_option (\<lambda>r. if scan_held claim r
        then finish_row status (ocrStatusFor ocr claim status) now sig k r else r)
        (find_document (sc_documentId claim) d)
     else find_document j d)"
  using find_update_document [of "finish_row status (ocrStatusFor ocr claim status) now sig k" j
      "sc_documentId claim" "scan_held claim" d]
  by (simp add: find_document_def cong: if_cong)

lemma finish_scan_Inl: "finish_scan ocr now claim s act value k sig d = (Inl e, d') \<Longrightarrow> d' = d"
  by (auto simp: finish_scan_def dest: transaction_Inl)

lemma release_scan_cases:
  assumes "unique_documents d"
  shows "release_scan claim d =
    (if \<exists>r. find_document (sc_documentId claim) d = Some r \<and> scan_held claim r
     then (Inr True, update_document (sc_documentId claim) (scan_held claim) release_row d)
     else (Inr False, d))"
proof (cases "\<exists>r. find_document (sc_documentId claim) d = Some r \<and> scan_held claim r")
  case False
  then have "matching (sc_documentId claim) (scan_held claim) d = 0"
    using assms by (auto simp: matching_find split: option.splits)
  with False show ?thesis by (simp add: release_scan_def update_document_none)
qed (simp add: release_scan_def matching_1 assms)

section \<open>The claim of a treatment is fenced\<close>

definition scan_token :: "document_row \<Rightarrow> time option" where
  "scan_token r = (if d_status r = SCANNING then d_scanStartedAt r else None)"

datatype scan_close =
    Close_clean "ocr_activation option" time "string option"
  | Close_infected "ocr_activation option" time string
  | Close_failed "ocr_activation option" time
  | Close_release

fun close_scan :: "scan_close \<Rightarrow> scan_claim \<Rightarrow> bool tx" where
  "close_scan (Close_clean ocr now key) claim = markClean ocr now claim key"
| "close_scan (Close_infected ocr now sig) claim = markInfected ocr now claim sig"
| "close_scan (Close_failed ocr now) claim = markFailed_scan ocr now claim"
| "close_scan Close_release claim = release_scan claim"

lemmas mark_defs = markClean_def markInfected_def markFailed_scan_def

lemma scan_held_token: "scan_held claim r \<longleftrightarrow> scan_token r = Some (sc_token claim)"
  by (auto simp: scan_held_def scan_token_def)

lemma finish_row_token [simp]: "scan_token (finish_row s o' t g k x) = None"
  by (cases s) (simp_all add: scan_token_def finish_row_def)

lemma release_row_token [simp]: "scan_token (release_row x) = None"
  by (simp add: scan_token_def release_row_def)

lemma close_scan_cases:
  assumes "unique_documents d"
  obtains
    (lost) "\<not> (\<exists>r. find_document (sc_documentId c) d = Some r \<and> scan_held c r)"
      "close_scan op c d = (Inr False, d)"
  | (refused) r e where "find_document (sc_documentId c) d = Some r" "scan_held c r"
      "close_scan op c d = (Inl e, d)"
  | (closed) r f d' where "find_document (sc_documentId c) d = Some r" "scan_held c r"
      "close_scan op c d = (Inr True, d')" "\<And>x. d_id (f x) = d_id x" "\<And>x. scan_token (f x) = None"
      "documents d' = update_where (\<lambda>x. d_id x = sc_documentId c \<and> scan_held c x) f (documents d)"
proof -
  have fin: thesis if "close_scan op c d = finish_scan ocr now c s act v key sg d"
    for ocr now s act v key sg
    using finish_scan_cases [OF assms, of ocr now c s act v key sg] that lost
      refused [of _ "Error ''a document.ocr job was not enqueued''"]
      closed [of _ "finished ocr now c s act v key sg d"
        "finish_row s (ocrStatusFor ocr c s) now sg key"]
    by (fastforce split: if_splits)
  show ?thesis
  proof (cases op)
    case Close_release
    with release_scan_cases [OF assms, of c] lost
      closed [of _ "update_document (sc_documentId c) (scan_held c) release_row d" release_row]
    show ?thesis by (fastforce split: if_splits)
  qed (use fin in \<open>auto simp: mark_defs\<close>)
qed

lemma close_scan_lost:
  assumes "unique_documents d"
    and "\<not> (\<exists>r. find_document (sc_documentId c) d = Some r \<and> scan_token r = Some (sc_token c))"
  shows "close_scan op c d = (Inr False, d)"
  using assms(1)
proof (cases rule: close_scan_cases [where op = op and c = c])
  case (refused r e)
  with assms(2) show ?thesis by (simp add: scan_held_token)
next
  case (closed r f d')
  from closed(1,2) assms(2) show ?thesis by (simp add: scan_held_token)
qed

lemma close_scan_held:
  assumes "unique_documents d" and "find_document (sc_documentId c) d = Some r"
    and "scan_token r = Some (sc_token c)"
  shows "fst (close_scan op c d) \<noteq> Inr False"
  using assms(1)
proof (cases rule: close_scan_cases [where op = op and c = c])
  case lost
  from lost(1) assms(2,3) show ?thesis by (simp add: scan_held_token)
qed simp_all

lemma close_scan_find:
  assumes "unique_documents d" and "close_scan op c d = (Inr True, d')"
  shows "\<exists>r. find_document (sc_documentId c) d' = Some r \<and> scan_token r = None"
  using assms(1)
proof (cases rule: close_scan_cases [where op = op and c = c])
  case (closed r f d'')
  with assms(2) have "d'' = d'" by simp
  with closed find_update_document [OF closed(4), of "sc_documentId c" "sc_documentId c" "scan_held c" d]
  show ?thesis by (simp add: find_document_def)
qed (use assms(2) in auto)

lemma close_scan_other:
  assumes "j \<noteq> sc_documentId c"
  shows "find_document j (snd (close_scan op c d)) = find_document j d"
proof -
  have keep: "find_document j (update_document (sc_documentId c) P f d) = find_document j d"
    if "\<And>r. d_id (f r) = d_id r" for P f
    using find_update_document [OF that] assms by simp
  have "find_document j (snd (finish_scan ocr now c s act v key sg d)) = find_document j d"
    for ocr now s act v key sg
    using keep [of "finish_row s (ocrStatusFor ocr c s) now sg key" "scan_held c"]
    by (auto simp: finish_scan_def transaction_def Let_def bindE_def enqueueOcr_def boss_send_def
        find_document_def)
  moreover have "find_document j (snd (release_scan c d)) = find_document j d"
    using keep [of release_row "scan_held c"] by (simp add: release_scan_def)
  ultimately show ?thesis by (cases op) (simp_all add: mark_defs)
qed

lemma close_scan_unique:
  assumes "unique_documents d"
  shows "unique_documents (snd (close_scan op c d))"
  using assms
proof (cases rule: close_scan_cases [where op = op and c = c])
  case (closed r f d')
  then show ?thesis using assms by (simp add: unique_documents_def table_simps)
qed (use assms in auto)

lemma claim_scan_given:
  assumes "unique_documents d" and "claim_scan i lease now d = (Inr (Some c), d')"
  obtains r where "find_document i d = Some r" and "claimable lease now r"
    and "c = to_scan_claim now (start_scan now r)"
    and "d' = update_document i (claimable lease now) (start_scan now) d"
    and "find_document i d' = Some (start_scan now r)"
proof -
  obtain r where r: "find_document i d = Some r" "claimable lease now r"
      "c = to_scan_claim now (start_scan now r)"
      "d' = update_document i (claimable lease now) (start_scan now) d"
    using assms(2) claim_scan_cases [OF assms(1), of i lease now]
    by (auto split: option.splits if_splits)
  moreover have "find_document i d' = Some (start_scan now r)"
    using r find_update_document [of "start_scan now" i i "claimable lease now" d] by simp
  ultimately show ?thesis using that by blast
qed

lemma claimable_token:
  "claimable lease now r \<Longrightarrow> scan_token r = None \<or> (\<exists>t. scan_token r = Some t \<and> t < now - 1000000 * lease)"
  by (auto simp: claimable_def scan_token_def older_than_def split: option.splits)

interpretation scan_claims: fenced_claim scan_token claim_scan close_scan sc_documentId sc_token
proof unfold_locales
  fix d i lease now c d'
  assume u: "unique_documents d" and given: "claim_scan i lease now d = (Inr (Some c), d')"
  obtain r where r: "find_document i d = Some r" "claimable lease now r"
      "c = to_scan_claim now (start_scan now r)" "find_document i d' = Some (start_scan now r)"
    using claim_scan_given [OF u given] by metis
  have "d_id r = i" using r(1) by (simp add: find_document_SomeD)
  with r(3) have "sc_documentId c = i" "sc_token c = now" by (simp_all add: to_scan_claim_def)
  moreover have "scan_token (start_scan now r) = Some now"
    by (simp add: scan_token_def start_scan_def)
  ultimately show "sc_documentId c = i \<and> sc_token c = now \<and>
      (\<exists>r. find_document i d' = Some r \<and> scan_token r = Some now) \<and>
      (\<forall>r. find_document i d = Some r \<longrightarrow>
        scan_token r = None \<or> (\<exists>t. scan_token r = Some t \<and> t < now - 1000000 * lease))"
    using claimable_token [OF r(2)] r(1,4) by simp
next
  show "d' = d" if "claim_scan i lease now d = (Inr None, d')" for i lease now d d'
    using that by (auto simp: claim_scan_def split: option.splits)
  show "fst (claim_scan i lease now d) \<noteq> Inl e" for i lease now d e
    by (auto simp: claim_scan_def split: option.splits)
  show "find_document j (snd (claim_scan i lease now d)) = find_document j d" if "j \<noteq> i" for j i lease now d
    using that find_update_document [of "start_scan now" j i "claimable lease now" d]
    by (auto simp: claim_scan_def split: option.splits)
  show "unique_documents (snd (claim_scan i lease now d))" if "unique_documents d" for i lease now d
    using that by (auto simp: claim_scan_def unique_update split: option.splits)
  show "snd (close_scan op c d) = d \<and> fst (close_scan op c d) \<noteq> Inr True"
    if u: "unique_documents d" and "\<not> (\<exists>r. find_document (sc_documentId c) d = Some r \<and> scan_token r = Some (sc_token c))"
    for op c d
    using close_scan_lost [OF that, of op] by simp
  show "fst (close_scan op c d) \<noteq> Inr False"
    if u: "unique_documents d" and "find_document (sc_documentId c) d = Some r"
      and "scan_token r = Some (sc_token c)" for op c d r
    using that by (rule close_scan_held)
  show "\<exists>r. find_document (sc_documentId c) d' = Some r \<and> scan_token r = None"
    if "unique_documents d" "close_scan op c d = (Inr True, d')" for op c d d'
    using that by (rule close_scan_find)
  show "d' = d" if "close_scan op c d = (Inl e, d')" for op c d d' e
    using that by (cases op) (auto simp: mark_defs release_scan_def dest: finish_scan_Inl)
  show "find_document j (snd (close_scan op c d)) = find_document j d" if "j \<noteq> sc_documentId c" for j c op d
    using that by (rule close_scan_other)
  show "unique_documents (snd (close_scan op c d))" if "unique_documents d" for op c d
    using that by (rule close_scan_unique)
qed

end
