(* ===== verification/Antivirus.thy ===== *)
theory Antivirus
  imports Database
begin

text \<open>
  The antivirus (apps/worker/src/antivirus): the verdicts of antivirus.ts, and clamav.ts, which
  streams a file to clamd and parses its answer strictly. The socket is the sequence of its
  events; \<open>Buffer.toString("utf8")\<close> is the parameter \<open>utf8\<close>, and the texts of the errors leave out
  the part of the answer they quote.
\<close>

section \<open>Verdicts and the answer of clamd\<close>

datatype scan_verdict = Verdict_clean | Verdict_infected string

definition ascii :: "string \<Rightarrow> js_text" where
  "ascii s = map (\<lambda>c. word_of_nat (of_char c)) s"

definition text_string :: "js_text \<Rightarrow> string" where
  "text_string t = map (\<lambda>u. char_of (unat u)) t"

definition MAX_REPLY_BYTES :: nat where
  "MAX_REPLY_BYTES = 1024"

definition CHUNK_BYTES :: nat where
  "CHUNK_BYTES = 64 * 1024"

text \<open>\<open>/^[A-Za-z0-9_.:\-/]{1,200}$/\<close>.\<close>

definition signature_unit :: "16 word \<Rightarrow> bool" where
  "signature_unit u \<longleftrightarrow> (0x41 \<le> u \<and> u \<le> 0x5a) \<or> (0x61 \<le> u \<and> u \<le> 0x7a) \<or> (0x30 \<le> u \<and> u \<le> 0x39) \<or>
     u \<in> {0x5f, 0x2e, 0x3a, 0x2d, 0x2f}"

definition SIGNATURE_ok :: "js_text \<Rightarrow> bool" where
  "SIGNATURE_ok t \<longleftrightarrow> 1 \<le> length t \<and> length t \<le> 200 \<and> list_all signature_unit t"

text \<open>\<open>reply.replace(/\0$/, "")\<close>.\<close>

definition strip_nul :: "js_text \<Rightarrow> js_text" where
  "strip_nul r = (if r \<noteq> [] \<and> last r = 0 then butlast r else r)"

text \<open>What \<open>/^stream: (.+) FOUND$/\<close> captures; the dot does not match a line terminator.\<close>

definition found_name :: "js_text \<Rightarrow> js_text option" where
  "found_name line =
    (let pre = ascii ''stream: ''; suf = ascii '' FOUND'';
         name = take (length line - length pre - length suf) (drop (length pre) line)
     in if line = pre @ name @ suf \<and> name \<noteq> [] \<and>
           list_all (\<lambda>u. u \<notin> {0x0a, 0x0d, 0x2028, 0x2029}) name
        then Some name else None)"

definition parseClamdReply :: "js_text \<Rightarrow> exn + scan_verdict" where
  "parseClamdReply reply =
    (let line = strip_nul reply
     in if line = ascii ''stream: OK'' then Inr Verdict_clean
        else case found_name line of
               Some name \<Rightarrow>
                 if SIGNATURE_ok name then Inr (Verdict_infected (text_string name))
                 else Inl (AntivirusError ''unexpected clamd reply'')
             | None \<Rightarrow> Inl (AntivirusError ''unexpected clamd reply''))"

lemma found_name_iff:
  "found_name line = Some name \<longleftrightarrow> line = ascii ''stream: '' @ name @ ascii '' FOUND'' \<and> name \<noteq> [] \<and>
     list_all (\<lambda>u. u \<notin> {0x0a, 0x0d, 0x2028, 0x2029}) name"
  by (auto simp: found_name_def Let_def)

lemma signature_unit_no_terminator: "signature_unit u \<Longrightarrow> u \<notin> {0x0a, 0x0d, 0x2028, 0x2029}"
  by (auto simp: signature_unit_def)

lemma strip_nul_iff: "last w \<noteq> 0 \<Longrightarrow> w \<noteq> [] \<Longrightarrow> strip_nul r = w \<longleftrightarrow> r = w \<or> r = w @ [0]"
  by (cases r rule: rev_cases) (auto simp: strip_nul_def)

section \<open>What is sent: INSTREAM\<close>

definition be32 :: "nat \<Rightarrow> bytes" where
  "be32 n = [word_of_nat (n div 16777216), word_of_nat (n div 65536), word_of_nat (n div 256),
     word_of_nat n]"

function instream_chunks :: "bytes \<Rightarrow> bytes" where
  "instream_chunks content =
    (if content = [] then []
     else be32 (length (take CHUNK_BYTES content)) @ take CHUNK_BYTES content @
          instream_chunks (drop CHUNK_BYTES content))"
  by pat_completeness auto

termination
  by (relation "measure length") (auto simp: CHUNK_BYTES_def)

declare instream_chunks.simps [simp del]

text \<open>Everything written to the socket on \<open>connect\<close>: the command, the chunks, the empty chunk.\<close>

definition instream :: "bytes \<Rightarrow> bytes" where
  "instream content =
    map (\<lambda>c. word_of_nat (of_char c)) ''zINSTREAM'' @ [0] @ instream_chunks content @ be32 0"

text \<open>How clamd reads it: length-prefixed chunks up to an empty one.\<close>

definition de32 :: "bytes \<Rightarrow> nat" where
  "de32 bs = foldl (\<lambda>acc b. 256 * acc + unat b) 0 (take 4 bs)"

function clamd_read :: "bytes \<Rightarrow> bytes option" where
  "clamd_read bs =
    (if length bs < 4 then None
     else let n = de32 bs; rest = drop 4 bs
          in if n = 0 then Some []
             else if length rest < n then None
             else map_option (\<lambda>r. take n rest @ r) (clamd_read (drop n rest)))"
  by pat_completeness auto

termination
  by (relation "measure length") auto

declare clamd_read.simps [simp del]

lemma de32_be32:
  assumes "n < 4294967296"
  shows "de32 (be32 n @ rest) = n"
proof -
  have "unat (word_of_nat m :: 8 word) = m mod 256" for m
    by (simp add: unat_of_nat)
  then have "de32 (be32 n @ rest) = ((n div 16777216 mod 256 * 256 + n div 65536 mod 256) * 256
      + n div 256 mod 256) * 256 + n mod 256"
    by (simp add: de32_def be32_def mult.commute)
  also have "n div 16777216 mod 256 = n div 16777216" using assms by simp
  also have "n div 16777216 * 256 + n div 65536 mod 256 = n div 65536"
    using div_mult_mod_eq [of "n div 65536" 256] by (simp add: div_mult2_eq [symmetric])
  also have "n div 65536 * 256 + n div 256 mod 256 = n div 256"
    using div_mult_mod_eq [of "n div 256" 256] by (simp add: div_mult2_eq [symmetric])
  also have "n div 256 * 256 + n mod 256 = n" by (rule div_mult_mod_eq)
  finally show ?thesis .
qed

lemma be32_length [simp]: "length (be32 n) = 4"
  by (simp add: be32_def)

lemma clamd_read_chunk:
  assumes "0 < length c" and "length c < 4294967296"
  shows "clamd_read (be32 (length c) @ c @ rest) = map_option (\<lambda>r. c @ r) (clamd_read rest)"
  using assms by (simp add: clamd_read.simps [of "be32 (length c) @ c @ rest"] de32_be32 Let_def)

text \<open>
  clamd reads back exactly the file: whatever its length, the chunks written frame all of
  it, in order, and end with the empty chunk.
\<close>

theorem instream_roundtrip: "clamd_read (drop 10 (instream content)) = Some content"
proof -
  have "clamd_read (instream_chunks content @ be32 0) = Some content"
  proof (induction content rule: instream_chunks.induct)
    case (1 content)
    show ?case
    proof (cases "content = []")
      case True
      have "de32 (be32 0) = 0" using de32_be32 [of 0 "[]"] by simp
      then show ?thesis
        by (simp add: True instream_chunks.simps [of "[]"] clamd_read.simps [of "be32 0"])
    next
      case False
      let ?c = "take CHUNK_BYTES content"
      have "0 < length ?c" "length ?c < 4294967296"
        using False by (auto simp: CHUNK_BYTES_def)
      from clamd_read_chunk [OF this] 1 [OF False] False show ?thesis
        by (simp add: instream_chunks.simps [of content] del: length_take)
    qed
  qed
  then show ?thesis by (simp add: instream_def)
qed

section \<open>The conversation\<close>

datatype socket_event = On_error | On_data bytes | On_end | On_close | On_timeout

text \<open>\<open>settled\<close> is what the promise was resolved or rejected with, if it was.\<close>

record clam_state =
  cl_chunks :: bytes
  cl_received :: nat
  cl_settled :: "(exn + scan_verdict) option"

definition clam_start :: clam_state where
  "clam_start = \<lparr>cl_chunks = [], cl_received = 0, cl_settled = None\<rparr>"

definition clam_fail :: "string \<Rightarrow> clam_state \<Rightarrow> clam_state" where
  "clam_fail msg st =
    (if cl_settled st \<noteq> None then st else st\<lparr>cl_settled := Some (Inl (AntivirusError msg))\<rparr>)"

fun clam_step :: "(bytes \<Rightarrow> js_text) \<Rightarrow> clam_state \<Rightarrow> socket_event \<Rightarrow> clam_state" where
  "clam_step utf8 st On_error = clam_fail ''clamd is unavailable'' st"
| "clam_step utf8 st On_timeout = clam_fail ''clamd did not answer in time'' st"
| "clam_step utf8 st (On_data dat) =
    (let st = st\<lparr>cl_received := cl_received st + length dat\<rparr>
     in if MAX_REPLY_BYTES < cl_received st then clam_fail ''clamd reply too long'' st
        else st\<lparr>cl_chunks := cl_chunks st @ dat\<rparr>)"
| "clam_step utf8 st On_end =
    (if cl_settled st \<noteq> None then st
     else case parseClamdReply (utf8 (cl_chunks st)) of
            Inr verdict \<Rightarrow> st\<lparr>cl_settled := Some (Inr verdict)\<rparr>
          | Inl e \<Rightarrow> st\<lparr>cl_settled := Some (Inl e)\<rparr>)"
| "clam_step utf8 st On_close =
    (if cl_settled st \<noteq> None then st
     else clam_fail ''clamd closed the connection without a verdict'' st)"

definition clam_scan :: "(bytes \<Rightarrow> js_text) \<Rightarrow> socket_event list \<Rightarrow> (exn + scan_verdict) option" where
  "clam_scan utf8 events = cl_settled (foldl (clam_step utf8) clam_start events)"

lemma clam_step_settled: "cl_settled st = Some r \<Longrightarrow> cl_settled (clam_step utf8 st ev) = Some r"
  by (cases ev) (auto simp: clam_fail_def Let_def)

lemma clam_run_settled:
  "cl_settled st = Some r \<Longrightarrow> cl_settled (foldl (clam_step utf8) st evs) = Some r"
  by (induction evs arbitrary: st) (auto simp: clam_step_settled)

lemma clam_run_verdict:
  assumes "cl_settled st = None" and "cl_received st = length (cl_chunks st)"
    and "cl_received st \<le> MAX_REPLY_BYTES"
    and "cl_settled (foldl (clam_step utf8) st evs) = Some (Inr v)"
  shows "\<exists>dats rest. evs = map On_data dats @ On_end # rest \<and>
    length (cl_chunks st @ concat dats) \<le> MAX_REPLY_BYTES \<and>
    parseClamdReply (utf8 (cl_chunks st @ concat dats)) = Inr v"
  using assms
proof (induction evs arbitrary: st)
  case (Cons ev evs)
  have failed: "cl_settled (foldl (clam_step utf8) (clam_fail msg st') evs) = Some (Inl (AntivirusError msg))"
    if "cl_settled st' = None" for msg st'
    using that by (simp add: clam_fail_def clam_run_settled)
  show ?case
  proof (cases ev)
    case (On_data dat)
    show ?thesis
    proof (cases "MAX_REPLY_BYTES < cl_received st + length dat")
      case True
      with Cons.prems On_data show ?thesis by (simp add: failed)
    next
      case False
      let ?st = "st\<lparr>cl_received := cl_received st + length dat, cl_chunks := cl_chunks st @ dat\<rparr>"
      from Cons.IH [of ?st] Cons.prems On_data False obtain dats rest where
        "evs = map On_data dats @ On_end # rest"
        "length (cl_chunks st @ dat @ concat dats) \<le> MAX_REPLY_BYTES"
        "parseClamdReply (utf8 (cl_chunks st @ dat @ concat dats)) = Inr v"
        by (auto simp: add.commute)
      with On_data show ?thesis
        by (intro exI [of _ "dat # dats"] exI [of _ rest]) simp
    qed
  next
    case On_end
    with Cons.prems have "parseClamdReply (utf8 (cl_chunks st)) = Inr v"
      by (auto simp: clam_run_settled split: sum.splits)
    with On_end Cons.prems show ?thesis
      by (intro exI [of _ "[]"] exI [of _ evs]) simp
  qed (use Cons.prems failed in auto)
qed simp

lemma parse_clean_iff:
  "parseClamdReply r = Inr Verdict_clean \<longleftrightarrow> r = ascii ''stream: OK'' \<or> r = ascii ''stream: OK'' @ [0]"
proof -
  have "last (ascii ''stream: OK'') \<noteq> 0" "ascii ''stream: OK'' \<noteq> []"
    by (simp_all add: ascii_def)
  from strip_nul_iff [OF this, of r] show ?thesis
    by (auto simp: parseClamdReply_def Let_def split: option.splits)
qed

text \<open>
  C37. A file is taken as clean only on the exact answer: the conversation ends with clean only
  if, before anything else happened, clamd sent at most 1024 bytes that read "stream: OK" (with
  or without its final NUL) and closed; and once settled, no later event changes the verdict.
\<close>

theorem clean_only_on_exact_answer:
  "(clam_scan utf8 events = Some (Inr Verdict_clean) \<longrightarrow>
     (\<exists>dats rest. events = map On_data dats @ On_end # rest \<and>
        length (concat dats) \<le> MAX_REPLY_BYTES \<and>
        utf8 (concat dats) \<in> {ascii ''stream: OK'', ascii ''stream: OK'' @ [0]})) \<and>
   (clam_scan utf8 events = Some r \<longrightarrow> clam_scan utf8 (events @ later) = Some r)"
proof (intro conjI impI)
  assume "clam_scan utf8 events = Some (Inr Verdict_clean)"
  then show "\<exists>dats rest. events = map On_data dats @ On_end # rest \<and>
        length (concat dats) \<le> MAX_REPLY_BYTES \<and>
        utf8 (concat dats) \<in> {ascii ''stream: OK'', ascii ''stream: OK'' @ [0]}"
    using clam_run_verdict [of clam_start utf8 events Verdict_clean]
    by (auto simp: clam_scan_def clam_start_def parse_clean_iff)
next
  assume "clam_scan utf8 events = Some r"
  then show "clam_scan utf8 (events @ later) = Some r"
    by (simp add: clam_scan_def clam_run_settled)
qed

text \<open>
  The answer of clamd is read strictly: an infected verdict comes only from
  "stream: NAME FOUND" (with or without NUL) where NAME has 1 to 200 characters of the
  plausible ones, and it carries that name; anything else that is not the clean answer is an
  error, never a verdict.
\<close>

theorem parseClamdReply_infected_iff:
  "parseClamdReply r = Inr (Verdict_infected s) \<longleftrightarrow>
    (\<exists>name. SIGNATURE_ok name \<and> s = text_string name \<and>
      r \<in> {ascii ''stream: '' @ name @ ascii '' FOUND'', ascii ''stream: '' @ name @ ascii '' FOUND'' @ [0]})"
proof -
  have line: "strip_nul r = ascii ''stream: '' @ name @ ascii '' FOUND'' \<longleftrightarrow>
      r \<in> {ascii ''stream: '' @ name @ ascii '' FOUND'', ascii ''stream: '' @ name @ ascii '' FOUND'' @ [0]}"
    for name
  proof -
    have "last (ascii ''stream: '' @ name @ ascii '' FOUND'') \<noteq> 0" by (simp add: ascii_def)
    from strip_nul_iff [OF this, of r] show ?thesis by (simp add: ascii_def)
  qed
  have found: "found_name (strip_nul r) = Some name \<longleftrightarrow>
      strip_nul r = ascii ''stream: '' @ name @ ascii '' FOUND''" if "SIGNATURE_ok name" for name
    using that signature_unit_no_terminator
    by (auto simp: found_name_iff SIGNATURE_ok_def list_all_iff)
  have "strip_nul r \<noteq> ascii ''stream: OK''" if "found_name (strip_nul r) = Some name" for name
  proof
    assume "strip_nul r = ascii ''stream: OK''"
    with that have "ascii ''stream: OK'' = ascii ''stream: '' @ name @ ascii '' FOUND''"
      by (simp add: found_name_iff)
    from arg_cong [OF this, of last] show False by (simp add: ascii_def)
  qed
  then have "parseClamdReply r = Inr (Verdict_infected s) \<longleftrightarrow>
      (\<exists>name. found_name (strip_nul r) = Some name \<and> SIGNATURE_ok name \<and> s = text_string name)"
    by (auto simp: parseClamdReply_def Let_def split: option.splits)
  also have "\<dots> \<longleftrightarrow> (\<exists>name. SIGNATURE_ok name \<and> s = text_string name \<and>
      strip_nul r = ascii ''stream: '' @ name @ ascii '' FOUND'')"
    using found by auto
  finally show ?thesis unfolding line .
qed

definition demo_utf8 :: "bytes \<Rightarrow> js_text" where
  "demo_utf8 bs = map (\<lambda>b. if b < 128 then ucast b else 0xfffd) bs"

theorem clean_only_on_exact_answer_witness:
  "\<exists>dats rest. [On_data [0x73, 0x74, 0x72, 0x65], On_data [0x61, 0x6d, 0x3a, 0x20, 0x4f, 0x4b, 0], On_end, On_close]
      = map On_data dats @ On_end # rest \<and> length (concat dats) \<le> MAX_REPLY_BYTES \<and>
      demo_utf8 (concat dats) \<in> {ascii ''stream: OK'', ascii ''stream: OK'' @ [0]}"
proof -
  have "clam_scan demo_utf8 [On_data [0x73, 0x74, 0x72, 0x65],
      On_data [0x61, 0x6d, 0x3a, 0x20, 0x4f, 0x4b, 0], On_end, On_close] = Some (Inr Verdict_clean)"
    by code_simp
  with clean_only_on_exact_answer show ?thesis by blast
qed

end
