(* ===== verification/Image_Metadata.thy ===== *)
theory Image_Metadata
  imports Contracts
begin

text \<open>
  What the code does with the bytes of a file: the type detected from its signature
  (apps/api/src/modules/documents/file-type.ts) and the copy of an image without identifying
  metadata (apps/worker/src/sanitize/image-metadata.ts). A position in the input is the list of
  the bytes from there on, so \<open>input.length - offset\<close> is the length of that list.
\<close>

section \<open>File types (file-type.ts)\<close>

definition SIGNATURES :: "(document_file_type \<times> bytes) list" where
  "SIGNATURES =
    [(PDF, [0x25, 0x50, 0x44, 0x46, 0x2d]),
     (JPEG, [0xff, 0xd8, 0xff]),
     (PNG, [0x89, 0x50, 0x4e, 0x47, 0x0d, 0x0a, 0x1a, 0x0a])]"

fun CONTENT_TYPES :: "document_file_type \<Rightarrow> string" where
  "CONTENT_TYPES PDF = ''application/pdf''"
| "CONTENT_TYPES JPEG = ''image/jpeg''"
| "CONTENT_TYPES PNG = ''image/png''"

definition detectFileType :: "bytes \<Rightarrow> document_file_type option" where
  "detectFileType content =
    map_option fst (find (\<lambda>(t, sig). length sig \<le> length content \<and>
       list_all (\<lambda>i. content ! i = sig ! i) [0..<length sig]) SIGNATURES)"

section \<open>JPEG\<close>

definition JPEG_REMOVED_MARKERS :: "8 word list" where
  "JPEG_REMOVED_MARKERS = [0xe1, 0xed, 0xfe]"

definition JPEG_STANDALONE :: "8 word list" where
  "JPEG_STANDALONE = [0x01, 0xd0, 0xd1, 0xd2, 0xd3, 0xd4, 0xd5, 0xd6, 0xd7]"

definition SOS :: "8 word" where "SOS = 0xda"

definition EOI :: "8 word" where "EOI = 0xd9"

text \<open>A marker that belongs to the entropy-coded data: a stuffed zero, or RST0 to RST7.\<close>

definition in_scan_marker :: "8 word \<Rightarrow> bool" where
  "in_scan_marker m \<longleftrightarrow> m = 0 \<or> (0xd0 \<le> m \<and> m \<le> 0xd7)"

definition u16be :: "8 word \<Rightarrow> 8 word \<Rightarrow> nat" where
  "u16be a b = 256 * unat a + unat b"

text \<open>Fill bytes before a marker are skipped.\<close>

fun skip_fill :: "bytes \<Rightarrow> bytes" where
  "skip_fill (a # b # r) = (if b = 0xff then skip_fill (b # r) else a # b # r)"
| "skip_fill r = r"

text \<open>The entropy-coded data and what follows it; None when the input ends inside it.\<close>

fun scan_data :: "bytes \<Rightarrow> (bytes \<times> bytes) option" where
  "scan_data (a # b # r) =
    (if a = 0xff then
       if \<not> in_scan_marker b then Some ([], a # b # r)
       else map_option (\<lambda>(dat, r'). (a # b # dat, r')) (scan_data r)
     else map_option (\<lambda>(dat, r'). (a # dat, r')) (scan_data (b # r)))"
| "scan_data _ = None"

abbreviation meta_error :: "string \<Rightarrow> exn + bytes" where
  "meta_error msg \<equiv> Inl (MetadataSanitizationError msg)"

definition keep_then :: "bytes \<Rightarrow> exn + bytes \<Rightarrow> exn + bytes" where
  "keep_then kept r = map_sum id (\<lambda>out. kept @ out) r"

lemma skip_fill_length [termination_simp]: "length (skip_fill r) \<le> length r"
  by (induction r rule: skip_fill.induct) auto

lemma scan_data_split: "scan_data r = Some (dat, r') \<Longrightarrow> r = dat @ r'"
  by (induction r arbitrary: dat rule: scan_data.induct) (auto split: if_splits)

lemma skip_fill_shorter: "skip_fill r = f # m # body \<Longrightarrow> length body < length r"
  using skip_fill_length [of r] by simp

function jpeg_walk :: "nat \<Rightarrow> bytes \<Rightarrow> exn + bytes" where
  "jpeg_walk scans rest =
    (case rest of
       [] \<Rightarrow> meta_error ''JPEG without EOI marker''
     | b # _ \<Rightarrow>
         if b \<noteq> 0xff then meta_error ''JPEG marker expected''
         else (case skip_fill rest of
             f # marker # body \<Rightarrow>
               if marker = EOI then
                 if scans = 0 then meta_error ''JPEG without image data (no SOS)''
                 else Inr [f, marker]
               else if marker \<in> set JPEG_STANDALONE then
                 keep_then [f, marker] (jpeg_walk scans body)
               else (case body of
                   l1 # l2 # _ \<Rightarrow>
                     let len = u16be l1 l2
                     in if len < 2 \<or> length body < len
                        then meta_error ''JPEG segment runs past the end of the file''
                        else
                          let kept = (if marker \<in> set JPEG_REMOVED_MARKERS then []
                                      else f # marker # take len body)
                          in if marker = SOS then
                               (case scan_data (drop len body) of
                                  None \<Rightarrow> meta_error ''truncated JPEG scan''
                                | Some (dat, after) \<Rightarrow>
                                    keep_then (kept @ dat) (jpeg_walk (scans + 1) after))
                             else keep_then kept (jpeg_walk scans (drop len body))
                 | _ \<Rightarrow> meta_error ''truncated JPEG'')
           | _ \<Rightarrow> meta_error ''truncated JPEG''))"
  by pat_completeness auto

termination
proof (relation "measure (\<lambda>(scans, rest). length rest)", goal_cases)
  case 1
  show ?case by simp
next
  case (2 scans rest)
  then show ?case
    using skip_fill_shorter [of rest] by simp
next
  case (3 scans rest)
  then show ?case
    using skip_fill_shorter [of rest] by (auto dest!: scan_data_split arg_cong [where f = length])
next
  case (4 scans rest)
  then show ?case
    using skip_fill_shorter [of rest] by auto
qed

declare jpeg_walk.simps [simp del]

definition stripJpegMetadata :: "bytes \<Rightarrow> exn + bytes" where
  "stripJpegMetadata input =
    (case input of
       a # b # rest \<Rightarrow>
         if length input < 4 \<or> a \<noteq> 0xff \<or> b \<noteq> 0xd8
         then meta_error ''not a JPEG (no SOI marker)''
         else keep_then [a, b] (jpeg_walk 0 rest)
     | _ \<Rightarrow> meta_error ''not a JPEG (no SOI marker)'')"

section \<open>PNG\<close>

definition PNG_SIGNATURE :: bytes where
  "PNG_SIGNATURE = [0x89, 0x50, 0x4e, 0x47, 0x0d, 0x0a, 0x1a, 0x0a]"

text \<open>eXIf, tEXt, zTXt and iTXt; IEND.\<close>

definition PNG_REMOVED_CHUNKS :: "bytes list" where
  "PNG_REMOVED_CHUNKS =
    [[0x65, 0x58, 0x49, 0x66], [0x74, 0x45, 0x58, 0x74], [0x7a, 0x54, 0x58, 0x74],
     [0x69, 0x54, 0x58, 0x74]]"

definition IEND :: bytes where
  "IEND = [0x49, 0x45, 0x4e, 0x44]"

definition u32be :: "bytes \<Rightarrow> nat" where
  "u32be bs = foldl (\<lambda>acc b. 256 * acc + unat b) 0 (take 4 bs)"

definition letter_byte :: "8 word \<Rightarrow> bool" where
  "letter_byte b \<longleftrightarrow> (0x41 \<le> b \<and> b \<le> 0x5a) \<or> (0x61 \<le> b \<and> b \<le> 0x7a)"

function png_walk :: "bytes \<Rightarrow> exn + bytes" where
  "png_walk rest =
    (if rest = [] then meta_error ''PNG without IEND chunk''
     else if length rest < 12 then meta_error ''truncated PNG chunk''
     else
       let len = u32be rest;
           ctype = take 4 (drop 4 rest)
       in if \<not> list_all letter_byte ctype then meta_error ''invalid PNG chunk type''
          else if length rest < 12 + len then meta_error ''PNG chunk runs past the end''
          else
            let kept = (if ctype \<in> set PNG_REMOVED_CHUNKS then [] else take (12 + len) rest)
            in if ctype = IEND then Inr kept
               else keep_then kept (png_walk (drop (12 + len) rest)))"
  by pat_completeness auto

termination
  by (relation "measure length") auto

declare png_walk.simps [simp del]

definition stripPngMetadata :: "bytes \<Rightarrow> exn + bytes" where
  "stripPngMetadata input =
    (if length input < 8 \<or> take 8 input \<noteq> PNG_SIGNATURE
     then meta_error ''not a PNG (bad signature)''
     else keep_then PNG_SIGNATURE (png_walk (drop 8 input)))"

section \<open>What the PNG copy contains\<close>

text \<open>A chunk as the format frames it: length, type, data and checksum.\<close>

definition chunk_type :: "bytes \<Rightarrow> bytes" where
  "chunk_type c = take 4 (drop 4 c)"

definition png_chunk :: "bytes \<Rightarrow> bool" where
  "png_chunk c \<longleftrightarrow> length c = 12 + u32be c \<and> list_all letter_byte (chunk_type c)"

definition png_kept :: "bytes \<Rightarrow> bool" where
  "png_kept c \<longleftrightarrow> chunk_type c \<notin> set PNG_REMOVED_CHUNKS"

text \<open>The chunks of an image: the last is the first IEND.\<close>

definition png_chunks :: "bytes list \<Rightarrow> bool" where
  "png_chunks cs \<longleftrightarrow> cs \<noteq> [] \<and> list_all png_chunk cs \<and> chunk_type (last cs) = IEND \<and>
     list_all (\<lambda>c. chunk_type c \<noteq> IEND) (butlast cs)"

lemma keep_then_Inr [simp]: "keep_then k r = Inr out \<longleftrightarrow> (\<exists>o'. r = Inr o' \<and> out = k @ o')"
  by (cases r) (auto simp: keep_then_def)

lemma u32be_append: "4 \<le> length c \<Longrightarrow> u32be (c @ xs) = u32be c"
  by (simp add: u32be_def)

lemma chunk_type_append: "8 \<le> length c \<Longrightarrow> take 4 (drop 4 (c @ xs)) = chunk_type c"
  by (simp add: chunk_type_def)

lemma chunk_take:
  assumes "12 \<le> n"
  shows "u32be (take n rest) = u32be rest \<and> chunk_type (take n rest) = take 4 (drop 4 rest)"
proof -
  have "take 4 (take n rest) = take 4 rest" using assms by (simp add: min_def)
  moreover have "take 4 (drop 4 (take n rest)) = take 4 (drop 4 rest)"
    using assms by (simp add: drop_take min_def)
  ultimately show ?thesis by (simp add: u32be_def chunk_type_def)
qed

lemma IEND_kept: "chunk_type c = IEND \<Longrightarrow> png_kept c"
  by (simp add: png_kept_def PNG_REMOVED_CHUNKS_def IEND_def)

lemma png_chunks_Cons:
  "chunk_type c \<noteq> IEND \<Longrightarrow> png_chunks (c # cs) \<longleftrightarrow> png_chunk c \<and> png_chunks cs"
  by (auto simp: png_chunks_def)

text \<open>What the walk accepts is a list of chunks, and what it keeps is the kept ones.\<close>

lemma png_walk_chunks:
  "png_walk rest = Inr out \<Longrightarrow>
    \<exists>cs trailing. png_chunks cs \<and> rest = concat cs @ trailing \<and> out = concat (filter png_kept cs)"
proof (induction rest arbitrary: out rule: png_walk.induct)
  case (1 rest)
  let ?len = "u32be rest"
  let ?c = "take (12 + ?len) rest"
  from "1.prems" have shape: "rest \<noteq> []" "\<not> length rest < 12"
    "list_all letter_byte (take 4 (drop 4 rest))" "\<not> length rest < 12 + ?len"
    by (auto simp: png_walk.simps [of rest] Let_def split: if_splits)
  have c: "png_chunk ?c" "chunk_type ?c = take 4 (drop 4 rest)"
    using shape chunk_take [of "12 + ?len" rest] by (auto simp: png_chunk_def)
  have rest: "rest = ?c @ drop (12 + ?len) rest" by simp
  show ?case
  proof (cases "take 4 (drop 4 rest) = IEND")
    case True
    then have "out = ?c"
      using "1.prems" shape by (auto simp: png_walk.simps [of rest] Let_def PNG_REMOVED_CHUNKS_def IEND_def)
    then show ?thesis
      using c True rest IEND_kept [of ?c]
      by (intro exI [of _ "[?c]"] exI [of _ "drop (12 + ?len) rest"]) (simp add: png_chunks_def)
  next
    case False
    then obtain out' where out': "png_walk (drop (12 + ?len) rest) = Inr out'"
      and out: "out = (if png_kept ?c then ?c else []) @ out'"
      using "1.prems" shape c(2)
      by (auto simp: png_walk.simps [of rest] Let_def png_kept_def split: if_splits)
    from "1.IH" [OF shape(1,2) refl refl _ shape(4) refl False out'] shape(3)
    obtain cs trailing where "png_chunks cs" "drop (12 + ?len) rest = concat cs @ trailing"
      "out' = concat (filter png_kept cs)" by auto
    then show ?thesis
      using c False rest out
      by (intro exI [of _ "?c # cs"] exI [of _ trailing]) (auto simp: png_chunks_Cons)
  qed
qed

lemma png_walk_concat:
  "png_chunks cs \<Longrightarrow> png_walk (concat cs @ trailing) = Inr (concat (filter png_kept cs))"
proof (induction cs)
  case (Cons c cs)
  then have c: "png_chunk c" by (simp add: png_chunks_def)
  then have len: "12 \<le> length c" "length c = 12 + u32be c" by (auto simp: png_chunk_def)
  let ?rest = "c @ concat cs @ trailing"
  have "4 \<le> length c" "8 \<le> length c" using len(1) by simp_all
  then have parts: "u32be ?rest = u32be c" "take 4 (drop 4 ?rest) = chunk_type c"
    by (simp_all only: u32be_append chunk_type_append)
  show ?case
  proof (cases "chunk_type c = IEND")
    case True
    then have "cs = []"
      using Cons.prems by (cases cs) (auto simp: png_chunks_def)
    then show ?thesis
      using c len parts True IEND_kept [OF True]
      by (auto simp: png_walk.simps [of "c @ trailing"] Let_def png_chunk_def png_kept_def)
  next
    case False
    then have "png_chunks cs" using Cons.prems by (simp add: png_chunks_Cons)
    then show ?thesis
      using Cons.IH c len parts False
      by (auto simp: png_walk.simps [of ?rest] Let_def png_chunk_def png_kept_def keep_then_def)
  qed
qed (simp add: png_chunks_def)

lemma png_chunks_filter: "png_chunks cs \<Longrightarrow> png_chunks (filter png_kept cs)"
proof (induction cs)
  case (Cons c cs)
  show ?case
  proof (cases "chunk_type c = IEND")
    case True
    then have "cs = []" using Cons.prems by (cases cs) (auto simp: png_chunks_def)
    then show ?thesis using Cons.prems IEND_kept [OF True] by simp
  next
    case False
    with Cons show ?thesis by (simp add: png_chunks_Cons)
  qed
qed simp

text \<open>
  The copy of a PNG is the signature and, in order and byte for byte, the chunks of the
  original up to its first IEND except eXIf, tEXt, zTXt and iTXt; nothing after IEND is kept,
  and treating the copy again changes nothing.
\<close>

theorem png_copy_exact:
  assumes "stripPngMetadata input = Inr out"
  shows "\<exists>cs trailing. png_chunks cs \<and> input = PNG_SIGNATURE @ concat cs @ trailing \<and>
    out = PNG_SIGNATURE @ concat (filter png_kept cs) \<and> stripPngMetadata out = Inr out"
proof -
  from assms obtain w where w: "png_walk (drop 8 input) = Inr w" "out = PNG_SIGNATURE @ w"
    and sig: "take 8 input = PNG_SIGNATURE"
    by (auto simp: stripPngMetadata_def split: if_splits)
  from png_walk_chunks [OF w(1)] obtain cs trailing where
    cs: "png_chunks cs" "drop 8 input = concat cs @ trailing" "w = concat (filter png_kept cs)" by blast
  have "input = PNG_SIGNATURE @ concat cs @ trailing"
    using sig cs(2) by (metis append_take_drop_id)
  moreover have "stripPngMetadata out = Inr out"
  proof -
    have "png_walk (concat (filter png_kept cs) @ []) = Inr (concat (filter png_kept cs))"
      using png_walk_concat [OF png_chunks_filter [OF cs(1)], of "[]"] by simp
    then show ?thesis
      by (simp add: stripPngMetadata_def w(2) cs(3) PNG_SIGNATURE_def)
  qed
  ultimately show ?thesis using cs w(2) by blast
qed

section \<open>What the JPEG copy contains\<close>

text \<open>
  A part of a JPEG between SOI and EOI: its marker, the segment after it (length field
  included; empty for a standalone marker) and, for a scan, its entropy-coded data.
\<close>

record jpeg_part =
  jp_marker :: "8 word"
  jp_segment :: bytes
  jp_data :: bytes

definition render_part :: "jpeg_part \<Rightarrow> bytes" where
  "render_part p = 0xff # jp_marker p # jp_segment p @ jp_data p"

text \<open>Entropy-coded data: every 0xFF in it is followed by a stuffed zero or a restart marker.\<close>

fun entropy :: "bytes \<Rightarrow> bool" where
  "entropy [] \<longleftrightarrow> True"
| "entropy [a] \<longleftrightarrow> a \<noteq> 0xff"
| "entropy (a # b # r) \<longleftrightarrow> (if a = 0xff then in_scan_marker b \<and> entropy r else entropy (b # r))"

definition jpeg_part_ok :: "jpeg_part \<Rightarrow> bool" where
  "jpeg_part_ok p \<longleftrightarrow> jp_marker p \<noteq> 0xff \<and> jp_marker p \<noteq> EOI \<and> entropy (jp_data p) \<and>
     (if jp_marker p \<in> set JPEG_STANDALONE then jp_segment p = [] \<and> jp_data p = []
      else 2 \<le> length (jp_segment p) \<and>
        length (jp_segment p) = u16be (jp_segment p ! 0) (jp_segment p ! 1) \<and>
        (if jp_marker p = SOS then True else jp_data p = []))"

definition jpeg_kept :: "jpeg_part \<Rightarrow> bool" where
  "jpeg_kept p \<longleftrightarrow> jp_marker p \<notin> set JPEG_REMOVED_MARKERS"

definition render_parts :: "jpeg_part list \<Rightarrow> bytes" where
  "render_parts ps = concat (map render_part ps)"

text \<open>The same with fill bytes before each marker, as an input may have them.\<close>

definition render_filled :: "(nat \<times> jpeg_part) list \<Rightarrow> bytes" where
  "render_filled qs = concat (map (\<lambda>(n, p). replicate n 0xff @ render_part p) qs)"

lemma render_parts_simps [simp]:
  "render_parts [] = []" "render_parts (p # ps) = render_part p @ render_parts ps"
  "render_parts (ps @ ps') = render_parts ps @ render_parts ps'"
  by (simp_all add: render_parts_def)

lemma render_filled_simps [simp]:
  "render_filled [] = []"
  "render_filled ((n, p) # qs) = replicate n 0xff @ render_part p @ render_filled qs"
  by (simp_all add: render_filled_def)

lemma skip_fill_split:
  assumes "skip_fill r = f # m # body" and "hd r = 0xff"
  shows "\<exists>n. r = replicate n 0xff @ 0xff # m # body \<and> f = 0xff \<and> m \<noteq> 0xff"
  using assms
proof (induction r rule: skip_fill.induct)
  case (1 a b r)
  show ?case
  proof (cases "b = 0xff")
    case True
    with 1 obtain n where "b # r = replicate n 0xff @ 0xff # m # body" "f = 0xff" "m \<noteq> 0xff" by auto
    with 1(3) show ?thesis by (intro exI [of _ "Suc n"]) simp
  next
    case False
    with 1 show ?thesis by (intro exI [of _ 0]) auto
  qed
qed auto

lemma skip_fill_marker: "m \<noteq> 0xff \<Longrightarrow> skip_fill (0xff # m # r) = 0xff # m # r"
  by simp

lemma scan_data_entropy: "scan_data r = Some (dat, r') \<Longrightarrow> entropy dat"
proof (induction r arbitrary: dat rule: scan_data.induct)
  case (1 a b r)
  show ?case
  proof (cases "a = 0xff")
    case True
    with 1 show ?thesis by (auto split: if_splits)
  next
    case False
    with 1 obtain d where d: "scan_data (b # r) = Some (d, r')" "dat = a # d" by auto
    with 1 False have "entropy d" by simp
    with d False show ?thesis by (cases d) auto
  qed
qed auto

lemma scan_data_stop:
  "entropy dat \<Longrightarrow> \<not> in_scan_marker m \<Longrightarrow> scan_data (dat @ 0xff # m # r) = Some (dat, 0xff # m # r)"
proof (induction dat rule: entropy.induct)
  case (2 a)
  then show ?case by simp
next
  case (3 a b dat)
  then show ?case by (cases "a = 0xff") auto
qed simp

lemma entropy_marker: "entropy dat \<Longrightarrow> in_scan_marker m \<Longrightarrow> entropy (dat @ [0xff, m])"
proof (induction dat rule: entropy.induct)
  case (2 a)
  then show ?case by simp
next
  case (3 a b dat)
  then show ?case by (cases "a = 0xff") auto
qed simp

text \<open>What the walk accepts is a list of parts up to EOI, and what it keeps is the kept ones.\<close>

lemma jpeg_walk_parts:
  "jpeg_walk scans rest = Inr out \<Longrightarrow>
    \<exists>qs k trailing. rest = render_filled qs @ replicate k 0xff @ [0xff, EOI] @ trailing \<and>
      list_all jpeg_part_ok (map snd qs) \<and>
      out = render_parts (filter jpeg_kept (map snd qs)) @ [0xff, EOI] \<and>
      (0 < scans \<or> SOS \<in> jp_marker ` snd ` set qs)"
proof (induction "length rest" arbitrary: scans rest out rule: less_induct)
  case less
  note simps = jpeg_walk.simps [of scans rest]
  from less.prems obtain b bs where rest: "rest = b # bs" "b = 0xff"
    by (auto simp: simps split: list.splits if_splits)
  from less.prems [unfolded simps] obtain f m body where skip: "skip_fill rest = f # m # body"
    by (auto split: list.splits if_splits)
  from skip_fill_split [OF skip] rest obtain n where
    n: "rest = replicate n 0xff @ 0xff # m # body" "f = 0xff" "m \<noteq> 0xff" by auto
  note run = less.prems [unfolded simps skip]
  consider (eoi) "m = EOI" | (alone) "m \<noteq> EOI" "m \<in> set JPEG_STANDALONE"
    | (seg) "m \<noteq> EOI" "m \<notin> set JPEG_STANDALONE" by blast
  then show ?case
  proof cases
    case eoi
    with run rest n have "out = [0xff, EOI]" "0 < scans"
      by (auto split: if_splits)
    with n eoi show ?thesis
      by (intro exI [of _ "[]"] exI [of _ n] exI [of _ body]) simp
  next
    case alone
    with run rest n obtain out' where out': "jpeg_walk scans body = Inr out'" "out = [0xff, m] @ out'"
      by auto
    have "length body < length rest" using n(1) by simp
    from less.hyps [OF this out'(1)] obtain qs k trailing where
      qs: "body = render_filled qs @ replicate k 0xff @ [0xff, EOI] @ trailing"
      "list_all jpeg_part_ok (map snd qs)"
      "out' = render_parts (filter jpeg_kept (map snd qs)) @ [0xff, EOI]"
      "0 < scans \<or> SOS \<in> jp_marker ` snd ` set qs" by blast
    let ?p = "\<lparr>jp_marker = m, jp_segment = [], jp_data = []\<rparr>"
    have "jpeg_part_ok ?p" "jpeg_kept ?p"
      using alone n(3) by (auto simp: jpeg_part_ok_def jpeg_kept_def JPEG_STANDALONE_def JPEG_REMOVED_MARKERS_def)
    then show ?thesis
      using n qs out'(2)
      by (intro exI [of _ "(n, ?p) # qs"] exI [of _ k] exI [of _ trailing]) (auto simp: render_part_def)
  next
    case seg
    with run rest n obtain l1 l2 tl where body: "body = l1 # l2 # tl"
      by (auto split: list.splits)
    let ?len = "u16be l1 l2"
    let ?seg = "take ?len body"
    let ?kept = "if m \<in> set JPEG_REMOVED_MARKERS then [] else 0xff # m # ?seg"
    from run rest n seg body have len: "2 \<le> ?len" "?len \<le> length body"
      by (auto simp: Let_def split: if_splits)
    have segment: "length ?seg = ?len" "2 \<le> ?len" "?seg ! 0 = l1" "?seg ! Suc 0 = l2"
      using len by (simp_all add: body)
    have split: "body = ?seg @ drop ?len body" by simp
    show ?thesis
    proof (cases "m = SOS")
      case False
      with run rest n seg body len obtain out' where
        out': "jpeg_walk scans (drop ?len body) = Inr out'" "out = ?kept @ out'"
        by (auto simp: Let_def split: if_splits)
      have "length (drop ?len body) < length rest" using n(1) by simp
      from less.hyps [OF this out'(1)] obtain qs k trailing where
        qs: "drop ?len body = render_filled qs @ replicate k 0xff @ [0xff, EOI] @ trailing"
        "list_all jpeg_part_ok (map snd qs)"
        "out' = render_parts (filter jpeg_kept (map snd qs)) @ [0xff, EOI]"
        "0 < scans \<or> SOS \<in> jp_marker ` snd ` set qs" by blast
      let ?p = "\<lparr>jp_marker = m, jp_segment = ?seg, jp_data = []\<rparr>"
      have "jpeg_part_ok ?p"
        using seg n(3) segment len by (simp add: jpeg_part_ok_def body del: length_take)
      then show ?thesis
        using n qs out'(2) split
        by (intro exI [of _ "(n, ?p) # qs"] exI [of _ k] exI [of _ trailing])
          (auto simp: render_part_def jpeg_kept_def)
    next
      case True
      from run rest n seg body len True obtain dat after where
        dat: "scan_data (drop ?len body) = Some (dat, after)"
        by (auto simp: Let_def split: option.splits if_splits)
      with run rest n seg body len True obtain out' where
        out': "jpeg_walk (scans + 1) after = Inr out'" "out = (0xff # m # ?seg @ dat) @ out'"
        by (auto simp: Let_def JPEG_REMOVED_MARKERS_def SOS_def split: if_splits)
      have split': "drop ?len body = dat @ after" using dat by (rule scan_data_split)
      have "length after < length rest"
        using arg_cong [OF split', of length] n(1) by simp
      from less.hyps [OF this out'(1)] obtain qs k trailing where
        qs: "after = render_filled qs @ replicate k 0xff @ [0xff, EOI] @ trailing"
        "list_all jpeg_part_ok (map snd qs)"
        "out' = render_parts (filter jpeg_kept (map snd qs)) @ [0xff, EOI]" by blast
      let ?p = "\<lparr>jp_marker = m, jp_segment = ?seg, jp_data = dat\<rparr>"
      have "jpeg_part_ok ?p" "jpeg_kept ?p"
        using seg n(3) segment True scan_data_entropy [OF dat]
        by (simp_all add: jpeg_part_ok_def jpeg_kept_def JPEG_REMOVED_MARKERS_def SOS_def del: length_take)
      moreover have "rest = (replicate n 0xff @ 0xff # m # ?seg @ dat) @ after"
        using n(1) split split' by simp
      ultimately show ?thesis
        using qs out'(2) True
        by (intro exI [of _ "(n, ?p) # qs"] exI [of _ k] exI [of _ trailing])
          (auto simp: render_part_def)
    qed
  qed
qed

text \<open>Walking what was kept keeps it: a restart marker may join the data before it.\<close>

lemma rst_standalone: "in_scan_marker m \<Longrightarrow> m \<noteq> 0 \<Longrightarrow> m \<in> set JPEG_STANDALONE"
proof -
  assume "in_scan_marker m" "m \<noteq> 0"
  then have "0xd0 \<le> unat m \<and> unat m \<le> 0xd7"
    by (simp add: in_scan_marker_def word_le_nat_alt)
  then have "unat m \<in> {0xd0, 0xd1, 0xd2, 0xd3, 0xd4, 0xd5, 0xd6, 0xd7}" by auto
  then show ?thesis by (simp add: JPEG_STANDALONE_def word_unat_eq_iff)
qed

lemma entropy_rst:
  "entropy dat \<Longrightarrow> list_all (\<lambda>p. in_scan_marker (jp_marker p) \<and> jp_segment p = [] \<and> jp_data p = []) rs
    \<Longrightarrow> entropy (dat @ render_parts rs)"
proof (induction rs arbitrary: dat)
  case (Cons p rs)
  then have "entropy (dat @ [0xff, jp_marker p])" by (simp add: entropy_marker)
  from Cons.IH [OF this] Cons.prems show ?case by (simp add: render_part_def)
qed simp

lemma walk_clean:
  assumes "list_all jpeg_part_ok ps" and "list_all jpeg_kept ps"
    and "list_all (\<lambda>p. jp_marker p \<noteq> 0) ps" and "0 < scans \<or> SOS \<in> jp_marker ` set ps"
  shows "jpeg_walk scans (render_parts ps @ [0xff, EOI]) = Inr (render_parts ps @ [0xff, EOI])"
  using assms
proof (induction "length ps" arbitrary: ps scans rule: less_induct)
  case less
  show ?case
  proof (cases ps)
    case Nil
    with less.prems show ?thesis by (simp add: jpeg_walk.simps EOI_def)
  next
    case (Cons p qs)
    let ?m = "jp_marker p"
    let ?tail = "render_parts qs @ [0xff, EOI]"
    from less.prems Cons have p: "jpeg_part_ok p" "jpeg_kept p" "?m \<noteq> 0"
      and qs: "list_all jpeg_part_ok qs" "list_all jpeg_kept qs" "list_all (\<lambda>p. jp_marker p \<noteq> 0) qs"
      by simp_all
    from p(1) have m: "?m \<noteq> 0xff" "?m \<noteq> EOI" by (simp_all add: jpeg_part_ok_def)
    let ?rest = "0xff # ?m # jp_segment p @ jp_data p @ ?tail"
    have rest: "render_parts ps @ [0xff, EOI] = ?rest" by (simp add: Cons render_part_def)
    note walk = jpeg_walk.simps [of scans ?rest] skip_fill_marker [OF m(1)]
    have shorter: "length qs < length ps" by (simp add: Cons)
    show ?thesis
    proof (cases "?m \<in> set JPEG_STANDALONE")
      case True
      with p(1) have "jp_segment p = []" "jp_data p = []" by (simp_all add: jpeg_part_ok_def)
      moreover have "?m \<noteq> SOS" using True by (auto simp: JPEG_STANDALONE_def SOS_def)
      then have "jpeg_walk scans ?tail = Inr ?tail"
        using less.hyps [OF shorter qs] less.prems(4) by (auto simp: Cons)
      ultimately show ?thesis
        unfolding rest using m True by (simp add: jpeg_walk.simps [of scans "0xff # ?m # ?tail"] keep_then_def)
    next
      case seg: False
      with p(1) have len: "2 \<le> length (jp_segment p)"
        "length (jp_segment p) = u16be (jp_segment p ! 0) (jp_segment p ! 1)"
        by (simp_all add: jpeg_part_ok_def)
      then obtain l1 l2 tl where s: "jp_segment p = l1 # l2 # tl"
        by (cases "jp_segment p" rule: remdups_adj.cases) auto
      with len have u: "u16be l1 l2 = Suc (Suc (length tl))" by simp
      have kept: "?m \<notin> set JPEG_REMOVED_MARKERS" using p(2) by (simp add: jpeg_kept_def)
      show ?thesis
      proof (cases "?m = SOS")
        case False
        with p(1) seg have "jp_data p = []" by (simp add: jpeg_part_ok_def)
        moreover have "jpeg_walk scans ?tail = Inr ?tail"
          using less.hyps [OF shorter qs] less.prems(4) False by (auto simp: Cons)
        ultimately show ?thesis
          unfolding rest using m seg s u kept False
          by (simp add: jpeg_walk.simps [of scans "0xff # ?m # l1 # l2 # tl @ ?tail"] keep_then_def)
      next
        case True
        let ?rs = "takeWhile (\<lambda>p. in_scan_marker (jp_marker p)) qs"
        let ?ts = "dropWhile (\<lambda>p. in_scan_marker (jp_marker p)) qs"
        have qs_split: "qs = ?rs @ ?ts" by simp
        have parts: "list_all jpeg_part_ok ?ts" "list_all jpeg_kept ?ts" "list_all (\<lambda>p. jp_marker p \<noteq> 0) ?ts"
          using qs by (auto simp: list_all_iff dest: set_dropWhileD)
        have rst: "list_all (\<lambda>p. in_scan_marker (jp_marker p) \<and> jp_segment p = [] \<and> jp_data p = []) ?rs"
          using qs rst_standalone by (fastforce simp: list_all_iff jpeg_part_ok_def dest: set_takeWhileD)
        have ent: "entropy (jp_data p @ render_parts ?rs)"
          using p(1) rst by (intro entropy_rst) (simp_all add: jpeg_part_ok_def)
        obtain m' r where after: "render_parts ?ts @ [0xff, EOI] = 0xff # m' # r" "\<not> in_scan_marker m'"
        proof (cases ?ts)
          case Nil
          then show ?thesis
            by (intro that [of EOI "[]"]) (simp_all only: render_parts_simps append_Nil,
                simp add: in_scan_marker_def EOI_def)
        next
          case (Cons t ts)
          then have "\<not> in_scan_marker (jp_marker t)" by (auto simp: dropWhile_eq_Cons_conv)
          with Cons show ?thesis by (intro that) (simp_all add: render_part_def)
        qed
        have tail: "jp_data p @ ?tail = (jp_data p @ render_parts ?rs) @ 0xff # m' # r"
          by (subst (1) qs_split) (simp only: render_parts_simps append_assoc after(1))
        have scan: "scan_data (jp_data p @ ?tail) = Some (jp_data p @ render_parts ?rs, 0xff # m' # r)"
          unfolding tail by (rule scan_data_stop [OF ent after(2)])
        have "length ?ts < length ps"
          using length_dropWhile_le [of "\<lambda>p. in_scan_marker (jp_marker p)" qs] by (simp add: Cons)
        then have "jpeg_walk (scans + 1) (0xff # m' # r) = Inr (0xff # m' # r)"
          using less.hyps [OF _ parts] unfolding after(1) by simp
        then have "jpeg_walk scans (0xff # SOS # l1 # l2 # tl @ jp_data p @ ?tail)
            = Inr (0xff # SOS # l1 # l2 # tl @ (jp_data p @ render_parts ?rs) @ 0xff # m' # r)"
          using m seg s u kept True scan
          by (simp add: jpeg_walk.simps [of scans "0xff # SOS # l1 # l2 # tl @ jp_data p @ ?tail"]
              keep_then_def)
        then show ?thesis
          unfolding rest s tail [symmetric] by (simp add: True)
      qed
    qed
  qed
qed

text \<open>
  C36. The copy of a JPEG is SOI, then, in order and byte for byte, every segment and scan of the
  original up to EOI except APP1, APP13 and comments (fill bytes and anything after EOI dropped),
  then EOI; and when no marker between the segments is a zero, treating the copy again changes
  nothing: what was removed does not reappear.
\<close>

theorem jpeg_copy_exact:
  assumes "stripJpegMetadata input = Inr out"
  shows "\<exists>qs k trailing. input = [0xff, 0xd8] @ render_filled qs @ replicate k 0xff @ [0xff, EOI] @ trailing \<and>
    list_all jpeg_part_ok (map snd qs) \<and>
    out = [0xff, 0xd8] @ render_parts (filter jpeg_kept (map snd qs)) @ [0xff, EOI] \<and>
    (list_all (\<lambda>p. jp_marker p \<noteq> 0) (map snd qs) \<longrightarrow> stripJpegMetadata out = Inr out)"
proof -
  from assms obtain rest w where w: "input = 0xff # 0xd8 # rest" "jpeg_walk 0 rest = Inr w"
    "out = [0xff, 0xd8] @ w"
    by (auto simp: stripJpegMetadata_def split: list.splits if_splits)
  from jpeg_walk_parts [OF w(2)] obtain qs k trailing where
    qs: "rest = render_filled qs @ replicate k 0xff @ [0xff, EOI] @ trailing"
    "list_all jpeg_part_ok (map snd qs)" "w = render_parts (filter jpeg_kept (map snd qs)) @ [0xff, EOI]"
    "0 < (0::nat) \<or> SOS \<in> jp_marker ` snd ` set qs" by blast
  let ?ps = "filter jpeg_kept (map snd qs)"
  have "stripJpegMetadata out = Inr out" if nz: "list_all (\<lambda>p. jp_marker p \<noteq> 0) (map snd qs)"
  proof -
    have "SOS \<in> jp_marker ` set ?ps"
      using qs(4) by (force simp: jpeg_kept_def JPEG_REMOVED_MARKERS_def SOS_def)
    then have "jpeg_walk 0 w = Inr w"
      unfolding qs(3) using qs(2) nz by (intro walk_clean) (auto simp: list_all_iff)
    moreover have "2 \<le> length w" by (simp add: qs(3))
    ultimately show ?thesis
      by (simp add: stripJpegMetadata_def w(3) keep_then_def)
  qed
  with qs w show ?thesis
    by (intro exI [of _ qs] exI [of _ k] exI [of _ trailing]) simp
qed

text \<open>
  The type a file is given is decided by its first bytes alone: it is the type whose
  signature the content starts with, and no content starts with two of them.
\<close>

theorem detectFileType_iff:
  "detectFileType content = Some t \<longleftrightarrow> take (length (the (map_of SIGNATURES t))) content = the (map_of SIGNATURES t)"
proof -
  have "(length sig \<le> length content \<and> list_all (\<lambda>i. content ! i = sig ! i) [0..<length sig])
      \<longleftrightarrow> take (length sig) content = sig" (is "?L sig \<longleftrightarrow> _") for sig
  proof
    assume "?L sig"
    then show "take (length sig) content = sig"
      by (intro nth_equalityI) (auto simp: list_all_iff)
  next
    assume eq: "take (length sig) content = sig"
    then have "length sig \<le> length content" by (metis length_take min.cobounded1)
    moreover have "content ! i = sig ! i" if "i < length sig" for i
      using that eq by (metis nth_take)
    ultimately show "?L sig" by (simp add: list_all_iff)
  qed
  then have *: "detectFileType content
      = map_option fst (find (\<lambda>(t, sig). take (length sig) content = sig) SIGNATURES)"
    unfolding detectFileType_def by presburger
  show ?thesis
  proof (cases content)
    case (Cons b bs)
    then show ?thesis
      unfolding * SIGNATURES_def by (cases t) auto
  next
    case Nil
    then show ?thesis
      unfolding * SIGNATURES_def by (cases t) auto
  qed
qed

section \<open>Concrete images\<close>

definition demo_png :: bytes where
  "demo_png = PNG_SIGNATURE @ [0, 0, 0, 1] @ [0x74, 0x45, 0x58, 0x74] @ [0x47] @ [1, 2, 3, 4]
     @ [0, 0, 0, 0] @ IEND @ [5, 6, 7, 8] @ [0xde, 0xad]"

theorem png_copy_exact_witness:
  "stripPngMetadata (PNG_SIGNATURE @ [0, 0, 0, 0] @ IEND @ [5, 6, 7, 8])
    = Inr (PNG_SIGNATURE @ [0, 0, 0, 0] @ IEND @ [5, 6, 7, 8])"
proof -
  have "stripPngMetadata demo_png = Inr (PNG_SIGNATURE @ [0, 0, 0, 0] @ IEND @ [5, 6, 7, 8])"
    by code_simp
  from png_copy_exact [OF this] show ?thesis by blast
qed

definition demo_jpeg :: bytes where
  "demo_jpeg = [0xff, 0xd8, 0xff, 0xff, 0xe1, 0, 4, 0x47, 0x50, 0xff, 0xda, 0, 2, 0x11, 0xff, 0, 0x22,
     0xff, 0xfe, 0, 3, 0x41, 0xff, 0xd9, 0x99]"

theorem jpeg_copy_exact_witness:
  "\<exists>qs k trailing. demo_jpeg = [0xff, 0xd8] @ render_filled qs @ replicate k 0xff @ [0xff, EOI] @ trailing \<and>
    [0xff, 0xd8, 0xff, 0xda, 0, 2, 0x11, 0xff, 0, 0x22, 0xff, 0xd9]
      = [0xff, 0xd8] @ render_parts (filter jpeg_kept (map snd qs)) @ [0xff, EOI]"
proof -
  have "stripJpegMetadata demo_jpeg = Inr [0xff, 0xd8, 0xff, 0xda, 0, 2, 0x11, 0xff, 0, 0x22, 0xff, 0xd9]"
    by code_simp
  from jpeg_copy_exact [OF this] show ?thesis by blast
qed

text \<open>
  Why the last part of the JPEG property needs its hypothesis: a comment between a scan and a
  segment whose marker byte is zero. Removing the comment joins the two, so in the copy
  \<open>FF 00\<close> reads as entropy-coded data, and the APP1 segment that was inside the odd one is a
  segment of the copy; treating the copy again removes it.
\<close>

definition crafted_jpeg :: bytes where
  "crafted_jpeg = [0xff, 0xd8, 0xff, 0xda, 0, 2, 0x11, 0xff, 0xfe, 0, 2,
     0xff, 0x00, 0, 8, 0xff, 0xe1, 0, 4, 0x47, 0x50, 0xff, 0xd9]"

lemma crafted_jpeg_keeps_metadata:
  "stripJpegMetadata crafted_jpeg
     = Inr [0xff, 0xd8, 0xff, 0xda, 0, 2, 0x11, 0xff, 0x00, 0, 8, 0xff, 0xe1, 0, 4, 0x47, 0x50, 0xff, 0xd9]
   \<and> stripJpegMetadata [0xff, 0xd8, 0xff, 0xda, 0, 2, 0x11, 0xff, 0x00, 0, 8, 0xff, 0xe1, 0, 4, 0x47,
       0x50, 0xff, 0xd9]
     = Inr [0xff, 0xd8, 0xff, 0xda, 0, 2, 0x11, 0xff, 0x00, 0, 8, 0xff, 0xd9]"
  by code_simp

end
