(* ===== verification/Scan_Document.thy ===== *)
theory Scan_Document
  imports Scan_Repository Antivirus Image_Metadata
begin

text \<open>
  The \<open>document.scan\<close> job (apps/worker/src/scan/scan-document.ts). Every call it makes to the
  database, the storage or the antivirus may fail, before or after it took effect, and anything
  may happen before it: its calls are numbered 0 to 5.
\<close>

section \<open>The job\<close>

record scan_deps =
  sd_ocr :: "ocr_activation option"
  sd_antivirus :: "bytes \<Rightarrow> exn + scan_verdict"
  sd_maxAttempts :: int
  sd_leaseSeconds :: int

datatype scan_outcome = Skipped | Clean | Infected | Failed | Lost

fun IMAGE_CONTENT_TYPES :: "document_file_type \<Rightarrow> string" where
  "IMAGE_CONTENT_TYPES JPEG = ''image/jpeg''"
| "IMAGE_CONTENT_TYPES PNG = ''image/png''"
| "IMAGE_CONTENT_TYPES PDF = ''undefined''"

definition sanitizedKeyOf :: "string \<Rightarrow> string" where
  "sanitizedKeyOf storageKey = storageKey @ ''.sanitized''"

definition sanitize :: "document_file_type \<Rightarrow> bytes \<Rightarrow> exn + bytes" where
  "sanitize fileType content =
     (if fileType = JPEG then stripJpegMetadata content else stripPngMetadata content)"

text \<open>Call 2 is the write of the copy.\<close>

definition storeSanitizedCopy :: "call_env \<Rightarrow> scan_claim \<Rightarrow> bytes \<Rightarrow> string option io" where
  "storeSanitizedCopy env claim content =
    (if sc_fileType claim = PDF then returnE None
     else case sanitize (sc_fileType claim) content of
            Inl e \<Rightarrow> throwE e
          | Inr sanitized \<Rightarrow>
              bindE (call env 2 (\<lambda>_. putObject (sanitizedKeyOf (sc_storageKey claim)) sanitized
                       (IMAGE_CONTENT_TYPES (sc_fileType claim))))
                (\<lambda>_. returnE (Some (sanitizedKeyOf (sc_storageKey claim)))))"

text \<open>Call 5 is the removal of the copy.\<close>

definition removeSanitizedCopy :: "call_env \<Rightarrow> scan_claim \<Rightarrow> unit io" where
  "removeSanitizedCopy env claim =
    (if sc_fileType claim = PDF then returnE ()
     else catchE (call env 5 (\<lambda>_. deleteObject (sanitizedKeyOf (sc_storageKey claim))))
            (\<lambda>e w. (Inr (), logging (Orphan_object ''scan_failed_copy'' (Some (sc_documentId claim))
                (sanitizedKeyOf (sc_storageKey claim))) w)))"

text \<open>The body of the \<open>try\<close>: call 1 reads the original, call 3 records the result.\<close>

definition treat :: "scan_deps \<Rightarrow> call_env \<Rightarrow> scan_claim \<Rightarrow> scan_outcome io" where
  "treat deps env claim =
     bindE (call env 1 (\<lambda>_. getObject (sc_storageKey claim)))
       (\<lambda>content.
          if int (length content) \<noteq> sc_fileSize claim
          then throwE (Error ''the stored object does not have the size recorded at upload'')
          else case sd_antivirus deps content of
                 Inl e \<Rightarrow> throwE e
               | Inr (Verdict_infected sig) \<Rightarrow>
                   bindE (call env 3 (\<lambda>now. in_db (markInfected (sd_ocr deps) now claim sig)))
                     (\<lambda>recorded. returnE (if recorded then Infected else Lost))
               | Inr Verdict_clean \<Rightarrow>
                   bindE (storeSanitizedCopy env claim content)
                     (\<lambda>sanitizedKey.
                        bindE (call env 3 (\<lambda>now. in_db (markClean (sd_ocr deps) now claim sanitizedKey)))
                          (\<lambda>recorded. returnE (if recorded then Clean else Lost))))"

text \<open>The \<open>catch\<close>: call 4 ends the claim, as failed or released.\<close>

definition treatment_failed :: "scan_deps \<Rightarrow> call_env \<Rightarrow> scan_claim \<Rightarrow> exn \<Rightarrow> scan_outcome io" where
  "treatment_failed deps env claim e =
    (if sd_maxAttempts deps \<le> sc_attempts claim
     then bindE (call env 4 (\<lambda>now. in_db (markFailed_scan (sd_ocr deps) now claim)))
            (\<lambda>marked. bindE (if marked then removeSanitizedCopy env claim else returnE ())
               (\<lambda>_. returnE Failed))
     else bindE (call env 4 (\<lambda>_. in_db (release_scan claim))) (\<lambda>_. throwE e))"

definition scanDocument :: "scan_deps \<Rightarrow> call_env \<Rightarrow> uuid \<Rightarrow> scan_outcome io" where
  "scanDocument deps env documentId =
     bindE (call env 0 (\<lambda>now. in_db (claim_scan documentId (sd_leaseSeconds deps) now)))
       (\<lambda>claimed. case claimed of
          None \<Rightarrow> returnE Skipped
        | Some claim \<Rightarrow> catchE (treat deps env claim) (treatment_failed deps env claim))"

section \<open>What a run sees\<close>

text \<open>
  An environment that is quiet for a document leaves its row and its two objects alone between
  the calls of the job; it may do anything else.
\<close>

definition quiet :: "call_env \<Rightarrow> uuid \<Rightarrow> string \<Rightarrow> bool" where
  "quiet env i key \<longleftrightarrow> (\<forall>n w. let w' = ce_during env n w in
     find_document i (w_db w') = find_document i (w_db w) \<and>
     (unique_documents (w_db w) \<longrightarrow> unique_documents (w_db w')) \<and>
     w_objects w' key = w_objects w key \<and>
     w_objects w' (sanitizedKeyOf key) = w_objects w (sanitizedKeyOf key))"

text \<open>What a job can see of a world: the row, the original and the copy of one document.\<close>

definition view :: "uuid \<Rightarrow> string \<Rightarrow> world \<Rightarrow> document_row option \<times> bytes option \<times> bytes option" where
  "view i key w = (find_document i (w_db w), map_option so_body (w_objects w key),
     map_option so_body (w_objects w (sanitizedKeyOf key)))"

lemma sanitizedKeyOf_neq [simp]: "sanitizedKeyOf key \<noteq> key" "key \<noteq> sanitizedKeyOf key"
  by (simp_all add: sanitizedKeyOf_def)

lemma quiet_view:
  assumes "quiet env i key"
  shows "view i key (ce_during env n w) = view i key w"
    and "unique_documents (w_db w) \<Longrightarrow> unique_documents (w_db (ce_during env n w))"
  using assms by (auto simp: quiet_def view_def Let_def)

text \<open>A call: what it returns, and the world it leaves, from one that looks the same.\<close>

lemma call_cases:
  assumes "call env n m w = (r, w')" and "quiet env i key" and "unique_documents (w_db w)"
  obtains (works) w0 where "view i key w0 = view i key w" "unique_documents (w_db w0)"
      "m (ce_clock env n) w0 = (r, w')"
  | (before) e where "r = Inl e" "view i key w' = view i key w" "unique_documents (w_db w')"
      "ce_fault env n = Some (Fails_before e)"
  | (after) e w0 where "r = Inl e" "view i key w0 = view i key w" "unique_documents (w_db w0)"
      "w' = snd (m (ce_clock env n) w0)" "ce_fault env n = Some (Fails_after e)"
proof (cases "ce_fault env n")
  case None
  with assms quiet_view [OF assms(2)] show ?thesis
    by (auto simp: call_def intro: works [of "ce_during env n w"])
next
  case (Some f)
  with assms quiet_view [OF assms(2)] show ?thesis
    by (cases f) (auto simp: call_def intro: before after [of _ "ce_during env n w"])
qed

text \<open>Calls that only read, or only touch the copy, keep the row and the original.\<close>

definition rowed :: "uuid \<Rightarrow> string \<Rightarrow> document_row \<Rightarrow> bytes option \<Rightarrow> world \<Rightarrow> bool" where
  "rowed i key r original w \<longleftrightarrow> unique_documents (w_db w) \<and> find_document i (w_db w) = Some r \<and>
     map_option so_body (w_objects w key) = original"

definition copied :: "string \<Rightarrow> world \<Rightarrow> bytes option" where
  "copied key w = map_option so_body (w_objects w (sanitizedKeyOf key))"

lemma rowed_view:
  "view i key w = view i key w' \<Longrightarrow> unique_documents (w_db w') \<Longrightarrow> rowed i key r original w \<Longrightarrow>
    rowed i key r original w' \<and> copied key w' = copied key w"
  by (auto simp: rowed_def view_def copied_def)

lemma call_pure:
  assumes "call env n m w = (res, w')" and "quiet env i key" and "rowed i key r original w"
    and "\<And>t v. rowed i key r original v \<Longrightarrow> rowed i key r original (snd (m t v))"
  shows "rowed i key r original w'"
proof -
  have u: "unique_documents (w_db w)" using assms(3) by (simp add: rowed_def)
  from assms(1,2) u show ?thesis
  proof (cases rule: call_cases)
    case (works w0)
    then show ?thesis
      using assms(3) assms(4) [of w0 "ce_clock env n"] rowed_view [OF works(1) [symmetric] works(2)] by simp
  next
    case (before e)
    then show ?thesis using assms(3) rowed_view [OF before(2) [symmetric] before(3)] by simp
  next
    case (after e w0)
    then show ?thesis
      using assms(3) assms(4) [of w0 "ce_clock env n"] rowed_view [OF after(2) [symmetric] after(3)] by simp
  qed
qed

text \<open>A call that ends the claim: it changes the held row, or nothing.\<close>

lemma call_close:
  assumes "call env n (\<lambda>now. in_db (close_scan (op now) c)) w = (res, w')" and "quiet env i key"
    and "rowed i key r original w" and "sc_documentId c = i"
  obtains (unchanged) "rowed i key r original w'" "copied key w' = copied key w" "res \<noteq> Inr True"
      "res = Inr False \<Longrightarrow> \<not> scan_held c r"
      "ce_fault env n = None \<Longrightarrow> scan_held c r \<Longrightarrow>
        \<exists>d e. fst (close_scan (op (ce_clock env n)) c d) = Inl e"
  | (recorded) w0 d' where "rowed i key r original w0" "copied key w' = copied key w" "scan_held c r"
      "close_scan (op (ce_clock env n)) c (w_db w0) = (Inr True, d')" "w_db w' = d'"
      "map_option so_body (w_objects w' key) = original" "res = Inr True \<or> (\<exists>e. res = Inl e)"
      "ce_fault env n = None \<longrightarrow> res = Inr True"
proof -
  have u: "unique_documents (w_db w)" using assms(3) by (simp add: rowed_def)
  have end_claim: thesis
    if "view i key w0 = view i key w" "unique_documents (w_db w0)"
      "w' = snd (in_db (close_scan (op (ce_clock env n)) c) w0)"
      "res = fst (in_db (close_scan (op (ce_clock env n)) c) w0) \<or> (\<exists>e. res = Inl e \<and> ce_fault env n = Some (Fails_after e))"
      for w0
  proof -
    have r0: "rowed i key r original w0" "copied key w0 = copied key w"
      using rowed_view [OF that(1) [symmetric] that(2) assms(3)] by auto
    have objs: "copied key w' = copied key w" "map_option so_body (w_objects w' key) = original"
      using r0 that(3) by (simp_all add: copied_def rowed_def)
    from that(2) show thesis
    proof (cases rule: close_scan_cases [where op = "op (ce_clock env n)" and c = c])
      case lost
      then have "rowed i key r original w'" using r0 objs that(3) by (simp add: rowed_def)
      moreover have "\<not> scan_held c r" using lost(1) r0 assms(4) by (simp add: rowed_def)
      ultimately show ?thesis using objs that(4) lost by (intro unchanged) (auto simp: in_db_def)
    next
      case (refused r1 e)
      then have "rowed i key r original w'" using r0 objs that(3) by (simp add: rowed_def)
      moreover have "\<exists>d e. fst (close_scan (op (ce_clock env n)) c d) = Inl e"
        using refused(3) by (metis fst_conv)
      ultimately show ?thesis using objs that(4) refused by (intro unchanged) (auto simp: in_db_def)
    next
      case (closed r1 f d')
      then have "scan_held c r" using r0 assms(4) by (simp add: rowed_def)
      with closed objs r0 that show ?thesis
        by (intro recorded [of w0 d']) (auto simp: in_db_def)
    qed
  qed
  from assms(1,2) u show ?thesis
  proof (cases rule: call_cases)
    case (works w0)
    then show ?thesis by (intro end_claim [of w0]) simp_all
  next
    case (before e)
    with assms(3) rowed_view [OF before(2) [symmetric] before(3)] show ?thesis
      by (intro unchanged) auto
  next
    case (after e w0)
    then show ?thesis by (intro end_claim [of w0]) simp_all
  qed
qed

lemma call_get:
  assumes "call env n (\<lambda>_. getObject key) w = (Inr content, w')" and "quiet env i key"
    and "rowed i key r original w"
  shows "original = Some content"
proof -
  have u: "unique_documents (w_db w)" using assms(3) by (simp add: rowed_def)
  from assms(1,2) u show ?thesis
  proof (cases rule: call_cases)
    case (works w0)
    then show ?thesis using assms(3) by (auto simp: getObject_Inr view_def rowed_def)
  qed auto
qed

lemma call_put:
  assumes "call env n (\<lambda>_. putObject (sanitizedKeyOf key) b t) w = (Inr u, w')"
  shows "copied key w' = Some b"
proof -
  from assms have "putObject (sanitizedKeyOf key) b t (ce_during env n w) = (Inr u, w')"
    by (simp add: call_def faulty_Inr)
  then have "w' = snd (putObject (sanitizedKeyOf key) b t (ce_during env n w))" by simp
  then show ?thesis by (simp add: copied_def)
qed

lemma rowed_pure [simp]:
  "rowed i key r o' (snd (getObject k v)) = rowed i key r o' v"
  "rowed i key r o' (snd (putObject (sanitizedKeyOf key) b t v)) = rowed i key r o' v"
  "rowed i key r o' (snd (deleteObject (sanitizedKeyOf key) v)) = rowed i key r o' v"
  by (simp_all add: rowed_def memory.get_pure)

text \<open>What a recorded result leaves in the row.\<close>

lemma finish_scan_row:
  assumes "finish_scan ocr now c s act v k sg d = (Inr True, d')" and "unique_documents d"
    and "find_document (sc_documentId c) d = Some r"
  shows "find_document (sc_documentId c) d' = Some (finish_row s (ocrStatusFor ocr c s) now sg k r)"
    and "unique_documents d'"
  using finish_scan_cases [OF assms(2), of ocr now c s act v k sg] assms
  by (auto simp: find_finished unique_documents_def table_simps split: if_splits)

lemma release_scan_row:
  assumes "release_scan c d = (Inr True, d')" and "unique_documents d"
    and "find_document (sc_documentId c) d = Some r"
  shows "find_document (sc_documentId c) d' = Some (release_row r)" and "unique_documents d'"
  using release_scan_cases [OF assms(2), of c] assms
    find_update_document [of release_row "sc_documentId c" "sc_documentId c" "scan_held c" d]
  by (auto simp: unique_update split: if_splits)

text \<open>
  The evidence for a clean result: the stored original has the recorded size, the antivirus said
  clean of it, and for an image the copy the row names is the original without its metadata.
\<close>

definition cleared :: "scan_deps \<Rightarrow> document_row \<Rightarrow> bytes option \<Rightarrow> bytes option \<Rightarrow> bool" where
  "cleared deps r original copy \<longleftrightarrow> (\<exists>content. original = Some content \<and>
     int (length content) = d_fileSize r \<and> sd_antivirus deps content = Inr Verdict_clean \<and>
     (if d_fileType r = PDF then d_sanitizedStorageKey r = None
      else d_sanitizedStorageKey r = Some (sanitizedKeyOf (d_storageKey r)) \<and>
        (\<exists>b. sanitize (d_fileType r) content = Inr b \<and> copy = Some b)))"

definition claim_of :: "scan_claim \<Rightarrow> document_row \<Rightarrow> bool" where
  "claim_of c r \<longleftrightarrow> sc_documentId c = d_id r \<and> sc_caseId c = d_caseId r \<and> sc_fileType c = d_fileType r \<and>
     sc_storageKey c = d_storageKey r \<and> sc_fileSize c = d_fileSize r \<and> scan_held c r"

text \<open>What a treatment leaves, in the row, on each of its paths.\<close>

definition treated ::
  "scan_deps \<Rightarrow> call_env \<Rightarrow> uuid \<Rightarrow> document_row \<Rightarrow> bytes option \<Rightarrow> exn + scan_outcome \<Rightarrow> world \<Rightarrow> bool" where
  "treated deps env i r original res w \<longleftrightarrow> (\<exists>r'. rowed i (d_storageKey r) r' original w \<and>
     d_storageKey r' = d_storageKey r \<and> d_scanAttempts r' = d_scanAttempts r \<and>
     (r' = r \<and> (\<exists>e. res = Inl e) \<or>
      d_status r' = INFECTED \<and> (ce_fault env 3 = None \<longrightarrow> res = Inr Infected) \<or>
      d_status r' = CLEAN \<and> (ce_fault env 3 = None \<longrightarrow> res = Inr Clean) \<and>
        cleared deps r' original (copied (d_storageKey r) w)))"

lemma treated_same:
  "rowed i (d_storageKey r) r original w \<Longrightarrow> treated deps env i r original (Inl e) w"
  by (auto simp: treated_def)

lemma claim_ofD:
  assumes "claim_of c r" and "rowed i (d_storageKey r) r original w"
  shows "sc_documentId c = i" "sc_storageKey c = d_storageKey r" "sc_fileType c = d_fileType r"
    "sc_fileSize c = d_fileSize r" "scan_held c r" "d_id r = i"
  using assms by (auto simp: claim_of_def rowed_def dest: find_document_SomeD)

lemma record_infected:
  assumes "bindE (call env 3 (\<lambda>now. in_db (markInfected (sd_ocr deps) now c sg)))
      (\<lambda>recorded. returnE (if recorded then Infected else Lost)) w = (res, w')"
    and "quiet env i (d_storageKey r)" and "rowed i (d_storageKey r) r original w" and "claim_of c r"
  shows "treated deps env i r original res w'"
proof -
  note c = claim_ofD [OF assms(4,3)]
  obtain r3 where r3: "call env 3 (\<lambda>now. in_db (close_scan (Close_infected (sd_ocr deps) now sg) c)) w = (r3, w')"
      and res: "res = map_sum id (\<lambda>recorded. if recorded then Infected else Lost) r3"
    using assms(1) by (auto simp: bindE_def split: prod.splits sum.splits)
  from r3 assms(2,3) c(1) show ?thesis
  proof (cases rule: call_close)
    case unchanged
    with c(5) obtain e where "r3 = Inl e" by (cases r3) auto
    with res unchanged show ?thesis by (simp add: treated_same)
  next
    case (recorded w0 d')
    from recorded(4) have "finish_scan (sd_ocr deps) (ce_clock env 3) c St_infected ''document.scan_infected''
        [(''status'', JStr ''INFECTED''), (''signature'', JStr sg)] None (Some sg) (w_db w0) = (Inr True, d')"
      by (simp add: mark_defs)
    from finish_scan_row [OF this] recorded(1) c(1)
    have "rowed i (d_storageKey r) (finish_row St_infected (ocrStatusFor (sd_ocr deps) c St_infected)
        (ce_clock env 3) (Some sg) None r) original w'" (is "rowed _ _ ?r _ _")
      using recorded(5,6) by (simp add: rowed_def)
    then show ?thesis using recorded(8) res unfolding treated_def
      by (intro exI [of _ ?r]) (simp add: finish_row_def)
  qed
qed

lemma copy_stored:
  assumes "storeSanitizedCopy env c content w = (res, w')"
    and "quiet env i (d_storageKey r)" and "rowed i (d_storageKey r) r original w" and "claim_of c r"
  shows "rowed i (d_storageKey r) r original w'"
    and "res = Inr k \<Longrightarrow> if d_fileType r = PDF then k = None
      else k = Some (sanitizedKeyOf (d_storageKey r)) \<and>
        (\<exists>b. sanitize (d_fileType r) content = Inr b \<and> copied (d_storageKey r) w' = Some b)"
proof -
  note c = claim_ofD [OF assms(4,3)]
  have "rowed i (d_storageKey r) r original w' \<and> (res = Inr k \<longrightarrow> (if d_fileType r = PDF then k = None
      else k = Some (sanitizedKeyOf (d_storageKey r)) \<and>
        (\<exists>b. sanitize (d_fileType r) content = Inr b \<and> copied (d_storageKey r) w' = Some b)))"
  proof (cases "d_fileType r = PDF")
    case True
    then show ?thesis using assms(1,3) c by (auto simp: storeSanitizedCopy_def)
  next
    case False
    show ?thesis
    proof (cases "sanitize (d_fileType r) content")
      case (Inl e)
      with False show ?thesis using assms(1,3) c by (auto simp: storeSanitizedCopy_def)
    next
      case (Inr b)
      obtain ru wu where put: "call env 2 (\<lambda>_. putObject (sanitizedKeyOf (d_storageKey r)) b
          (IMAGE_CONTENT_TYPES (d_fileType r))) w = (ru, wu)" by fastforce
      have "rowed i (d_storageKey r) r original wu"
        using put assms(2,3) by (rule call_pure) simp
      with put assms(1) False Inr c show ?thesis
        by (cases ru) (auto simp: storeSanitizedCopy_def bindE_def dest: call_put)
    qed
  qed
  then show "rowed i (d_storageKey r) r original w'"
    and "res = Inr k \<Longrightarrow> if d_fileType r = PDF then k = None
      else k = Some (sanitizedKeyOf (d_storageKey r)) \<and>
        (\<exists>b. sanitize (d_fileType r) content = Inr b \<and> copied (d_storageKey r) w' = Some b)"
    by blast+
qed

lemma record_clean:
  assumes "bindE (storeSanitizedCopy env c content) (\<lambda>k.
      bindE (call env 3 (\<lambda>now. in_db (markClean (sd_ocr deps) now c k)))
        (\<lambda>recorded. returnE (if recorded then Clean else Lost))) w = (res, w')"
    and "quiet env i (d_storageKey r)" and "rowed i (d_storageKey r) r (Some content) w" and "claim_of c r"
    and "int (length content) = d_fileSize r" and "sd_antivirus deps content = Inr Verdict_clean"
  shows "treated deps env i r (Some content) res w'"
  using assms(1)
proof (cases rule: bindE_cases)
  case (1 e)
  with copy_stored(1) [OF _ assms(2-4)] show ?thesis by (blast intro: treated_same)
next
  case (2 k w2)
  note c = claim_ofD [OF assms(4,3)]
  note w2 = copy_stored [OF 2(1) assms(2-4)]
  obtain r3 where r3: "call env 3 (\<lambda>now. in_db (close_scan (Close_clean (sd_ocr deps) now k) c)) w2 = (r3, w')"
      and res: "res = map_sum id (\<lambda>recorded. if recorded then Clean else Lost) r3"
    using 2(2) by (auto simp: bindE_def split: prod.splits sum.splits)
  from r3 assms(2) w2(1) c(1) show ?thesis
  proof (cases rule: call_close)
    case unchanged
    with c(5) obtain e where "r3 = Inl e" by (cases r3) auto
    with res unchanged show ?thesis by (simp add: treated_same)
  next
    case (recorded w0 d')
    let ?r = "finish_row St_clean (ocrStatusFor (sd_ocr deps) c St_clean) (ce_clock env 3) None k r"
    from recorded(4) have "finish_scan (sd_ocr deps) (ce_clock env 3) c St_clean ''document.scan_clean''
        [(''status'', JStr ''CLEAN'')] k None (w_db w0) = (Inr True, d')"
      by (simp add: mark_defs)
    from finish_scan_row [OF this] recorded(1) c(1)
    have "rowed i (d_storageKey r) ?r (Some content) w'" using recorded(5,6) by (simp add: rowed_def)
    moreover have "cleared deps ?r (Some content) (copied (d_storageKey r) w')"
      using w2(2) [of k] assms(5,6) recorded(2) by (auto simp: cleared_def finish_row_def)
    ultimately show ?thesis using recorded(8) res unfolding treated_def
      by (intro exI [of _ ?r]) (simp add: finish_row_def)
  qed
qed

lemma treat_row:
  assumes "treat deps env c w = (res, w')" and "quiet env i (d_storageKey r)"
    and "rowed i (d_storageKey r) r original w" and "claim_of c r"
  shows "treated deps env i r original res w'"
proof -
  note c = claim_ofD [OF assms(4,3)]
  obtain r1 w1 where get: "call env 1 (\<lambda>_. getObject (d_storageKey r)) w = (r1, w1)" by fastforce
  have w1: "rowed i (d_storageKey r) r original w1"
    using get assms(2,3) by (rule call_pure) simp
  show ?thesis
  proof (cases r1)
    case (Inl e)
    with assms(1) get c w1 show ?thesis by (auto simp: treat_def bindE_Inl treated_same)
  next
    case (Inr content)
    with get assms(2,3) have orig: "original = Some content" by (blast intro: call_get)
    have run: "(if int (length content) \<noteq> sc_fileSize c
          then throwE (Error ''the stored object does not have the size recorded at upload'')
          else case sd_antivirus deps content of
                 Inl e \<Rightarrow> throwE e
               | Inr (Verdict_infected sig) \<Rightarrow>
                   bindE (call env 3 (\<lambda>now. in_db (markInfected (sd_ocr deps) now c sig)))
                     (\<lambda>recorded. returnE (if recorded then Infected else Lost))
               | Inr Verdict_clean \<Rightarrow>
                   bindE (storeSanitizedCopy env c content)
                     (\<lambda>sanitizedKey.
                        bindE (call env 3 (\<lambda>now. in_db (markClean (sd_ocr deps) now c sanitizedKey)))
                          (\<lambda>recorded. returnE (if recorded then Clean else Lost)))) w1 = (res, w')"
      using assms(1) get Inr c(2) by (simp add: treat_def bindE_def)
    show ?thesis
    proof (cases "int (length content) = d_fileSize r")
      case False
      with run c w1 show ?thesis by (auto simp: treated_same)
    next
      case True
      show ?thesis
      proof (cases "sd_antivirus deps content")
        case (Inl e)
        with True run c w1 show ?thesis by (auto simp: treated_same)
      next
        case (Inr v)
        with True run c assms(2,4) w1 orig show ?thesis
          by (cases v) (auto intro: record_clean record_infected)
      qed
    qed
  qed
qed

text \<open>What the \<open>catch\<close> leaves of a row it gets from the \<open>try\<close>.\<close>

definition closed_off ::
  "scan_deps \<Rightarrow> call_env \<Rightarrow> uuid \<Rightarrow> scan_claim \<Rightarrow> document_row \<Rightarrow> bytes option \<Rightarrow> bytes option \<Rightarrow>
   exn + scan_outcome \<Rightarrow> world \<Rightarrow> bool" where
  "closed_off deps env i c r original copy res w \<longleftrightarrow> (\<exists>r'. rowed i (d_storageKey r) r' original w \<and>
     d_scanAttempts r' = d_scanAttempts r \<and>
     (r' = r \<and> copied (d_storageKey r) w = copy \<and> (ce_fault env 4 = None \<longrightarrow> \<not> scan_held c r) \<or>
      d_status r' = SCAN_FAILED \<and> sd_maxAttempts deps \<le> sc_attempts c \<and>
        (ce_fault env 4 = None \<longrightarrow> res = Inr Failed) \<or>
      d_status r' = PENDING_SCAN \<and> sc_attempts c < sd_maxAttempts deps \<and> (\<exists>e. res = Inl e)))"

lemma never_refused:
  "fst (close_scan (Close_failed ocr now) c d) \<noteq> Inl e" "fst (close_scan Close_release c d) \<noteq> Inl e"
  by (auto simp: mark_defs finish_scan_def transaction_def Let_def ocrStatusFor_def release_scan_def
      bindE_def split: option.splits)

lemma removed_row:
  assumes "removeSanitizedCopy env c w = (res, w')" and "quiet env i (d_storageKey r)"
    and "sc_storageKey c = d_storageKey r" and "rowed i (d_storageKey r) r' original w"
  shows "rowed i (d_storageKey r) r' original w' \<and> res = Inr ()"
proof (cases "sc_fileType c = PDF")
  case False
  obtain ru wu where del: "call env 5 (\<lambda>_. deleteObject (sanitizedKeyOf (d_storageKey r))) w = (ru, wu)"
    by fastforce
  have "rowed i (d_storageKey r) r' original wu"
    using del assms(2,4) by (rule call_pure) simp
  with del assms(1,3) False show ?thesis
    by (cases ru) (auto simp: removeSanitizedCopy_def catchE_def rowed_def)
qed (use assms in \<open>auto simp: removeSanitizedCopy_def\<close>)

lemma treatment_failed_row:
  assumes "treatment_failed deps env c e w = (res, w')" and "quiet env i (d_storageKey r)"
    and "rowed i (d_storageKey r) r original w" and "sc_documentId c = i"
    and "sc_storageKey c = d_storageKey r"
  shows "closed_off deps env i c r original (copied (d_storageKey r) w) res w'"
proof (cases "sd_maxAttempts deps \<le> sc_attempts c")
  case True
  obtain r4 w4 where mark: "call env 4 (\<lambda>now. in_db (close_scan (Close_failed (sd_ocr deps) now) c)) w = (r4, w4)"
    by fastforce
  have run: "bindE (\<lambda>_. (r4, w4)) (\<lambda>marked. bindE (if marked then removeSanitizedCopy env c else returnE ())
      (\<lambda>_. returnE Failed)) w = (res, w')"
    using assms(1) mark True by (simp add: treatment_failed_def bindE_def)
  from mark assms(2-4) show ?thesis
  proof (cases rule: call_close)
    case unchanged
    then have "w' = w4" using run by (auto simp: bindE_def split: sum.splits)
    with unchanged never_refused(1) show ?thesis
      by (auto simp: closed_off_def)
  next
    case (recorded w0 d')
    let ?r = "finish_row St_failed (ocrStatusFor (sd_ocr deps) c St_failed) (ce_clock env 4) None None r"
    from recorded(4) have "finish_scan (sd_ocr deps) (ce_clock env 4) c St_failed ''document.scan_failed''
        [(''status'', JStr ''SCAN_FAILED''), (''attempts'', JNum (sc_attempts c))] None None (w_db w0) = (Inr True, d')"
      by (simp add: mark_defs)
    from finish_scan_row [OF this] recorded(1) assms(4)
    have w4: "rowed i (d_storageKey r) ?r original w4"
      using recorded(5,6) by (simp add: rowed_def)
    have "rowed i (d_storageKey r) ?r original w' \<and> (ce_fault env 4 = None \<longrightarrow> res = Inr Failed)"
      using run recorded(7,8) w4 removed_row [OF _ assms(2) assms(5) w4]
      by (auto simp: bindE_def split: prod.splits sum.splits)
    with True show ?thesis unfolding closed_off_def
      by (intro exI [of _ ?r]) (simp add: finish_row_def)
  qed
next
  case False
  obtain r4 w4 where rel: "call env 4 (\<lambda>now. in_db (close_scan Close_release c)) w = (r4, w4)"
    by fastforce
  have run: "w' = w4 \<and> (\<exists>e. res = Inl e)"
    using assms(1) rel False by (cases r4) (auto simp: treatment_failed_def bindE_def)
  from rel assms(2-4) show ?thesis
  proof (cases rule: call_close)
    case unchanged
    with run never_refused(2) show ?thesis by (auto simp: closed_off_def)
  next
    case (recorded w0 d')
    from recorded(4) have "release_scan c (w_db w0) = (Inr True, d')" by simp
    from release_scan_row [OF this] recorded(1) assms(4)
    have "rowed i (d_storageKey r) (release_row r) original w'"
      using recorded(5,6) run by (simp add: rowed_def)
    with False run show ?thesis unfolding closed_off_def
      by (intro exI [of _ "release_row r"]) (simp add: release_row_def)
  qed
qed

text \<open>What the claim leaves: the row as it was, or started; and the claim, of the started row.\<close>

lemma claim_phase:
  assumes "call env 0 (\<lambda>now. in_db (claim_scan i lease now)) w = (res, w')"
    and "quiet env i (d_storageKey r)" and "rowed i (d_storageKey r) r original w"
  defines "started \<equiv> start_scan (ce_clock env 0) r"
  obtains (no_claim) "\<not> (\<exists>c. res = Inr (Some c))" "rowed i (d_storageKey r) r original w'"
      "claimable lease (ce_clock env 0) r \<longrightarrow> ce_fault env 0 \<noteq> None" "copied (d_storageKey r) w' = copied (d_storageKey r) w"
  | (unanswered) e where "res = Inl e" "rowed i (d_storageKey r) started original w'" "ce_fault env 0 \<noteq> None"
  | (given) "res = Inr (Some (to_scan_claim (ce_clock env 0) started))"
      "rowed i (d_storageKey r) started original w'" "claimable lease (ce_clock env 0) r"
proof -
  let ?now = "ce_clock env 0"
  have u: "unique_documents (w_db w)" using assms(3) by (simp add: rowed_def)
  have run: "(if claimable lease ?now r
        then fst (in_db (claim_scan i lease ?now) w0) = Inr (Some (to_scan_claim ?now started)) \<and>
          rowed i (d_storageKey r) started original (snd (in_db (claim_scan i lease ?now) w0))
        else in_db (claim_scan i lease ?now) w0 = (Inr None, w0)) \<and>
      rowed i (d_storageKey r) r original w0 \<and> copied (d_storageKey r) w0 = copied (d_storageKey r) w"
    if "view i (d_storageKey r) w0 = view i (d_storageKey r) w" "unique_documents (w_db w0)" for w0
  proof -
    have r0: "rowed i (d_storageKey r) r original w0" "copied (d_storageKey r) w0 = copied (d_storageKey r) w"
      using rowed_view [OF that(1) [symmetric] that(2) assms(3)] by auto
    then show ?thesis
      using claim_scan_cases [OF that(2), of i lease ?now]
        find_update_document [of "start_scan ?now" i i "claimable lease ?now" "w_db w0"]
      by (auto simp: in_db_def rowed_def started_def unique_update)
  qed
  from assms(1,2) u show ?thesis
  proof (cases rule: call_cases)
    case (works w0)
    with run [OF works(1,2)] show ?thesis
      by (cases "claimable lease ?now r") (auto intro: no_claim given)
  next
    case (before e)
    with rowed_view [OF before(2) [symmetric] before(3) assms(3)] show ?thesis
      by (intro no_claim) auto
  next
    case (after e w0)
    with run [OF after(2,3)] show ?thesis
      by (cases "claimable lease ?now r") (auto intro: no_claim unanswered)
  qed
qed

lemma started_claim:
  "rowed i (d_storageKey r) (start_scan now r) original w \<Longrightarrow>
    claim_of (to_scan_claim now (start_scan now r)) (start_scan now r)"
  by (simp add: claim_of_def to_scan_claim_def scan_held_def start_scan_def)

lemma started_key [simp]: "d_storageKey (start_scan now r) = d_storageKey r"
  "d_status (start_scan now r) = SCANNING"
  "d_scanAttempts (start_scan now r) = d_scanAttempts r + 1"
  by (simp_all add: start_scan_def)

text \<open>After the claim: what the whole treatment of a started row ends with.\<close>

lemma treatment_of_claim:
  assumes "catchE (treat deps env c) (treatment_failed deps env c) w = (res, w')"
    and "quiet env i (d_storageKey r)" and "rowed i (d_storageKey r) r original w" and "claim_of c r"
  obtains r' where "rowed i (d_storageKey r) r' original w'" and "d_scanAttempts r' = d_scanAttempts r"
    and "d_status r' = CLEAN \<Longrightarrow> cleared deps r' original (copied (d_storageKey r) w')"
    and "ce_fault env 3 = None \<Longrightarrow> ce_fault env 4 = None \<Longrightarrow>
      (d_status r' = CLEAN \<and> res = Inr Clean \<or> d_status r' = INFECTED \<and> res = Inr Infected \<or>
       d_status r' = SCAN_FAILED \<and> res = Inr Failed \<and> sd_maxAttempts deps \<le> sc_attempts c \<or>
       d_status r' = PENDING_SCAN \<and> (\<exists>e. res = Inl e) \<and> sc_attempts c < sd_maxAttempts deps)"
proof -
  note c = claim_ofD [OF assms(4,3)]
  obtain r1 w1 where tried: "treat deps env c w = (r1, w1)" by fastforce
  obtain r' where r': "rowed i (d_storageKey r) r' original w1" "d_storageKey r' = d_storageKey r"
      "d_scanAttempts r' = d_scanAttempts r" and how: "r' = r \<and> (\<exists>e. r1 = Inl e) \<or>
      d_status r' = INFECTED \<and> (ce_fault env 3 = None \<longrightarrow> r1 = Inr Infected) \<or>
      d_status r' = CLEAN \<and> (ce_fault env 3 = None \<longrightarrow> r1 = Inr Clean) \<and>
        cleared deps r' original (copied (d_storageKey r) w1)"
    using treat_row [OF tried assms(2-4)] by (auto simp: treated_def)
  show ?thesis
  proof (cases r1)
    case (Inr o1)
    with assms(1) tried have "res = Inr o1" "w' = w1" by (simp_all add: catchE_def)
    with r' how Inr show ?thesis by (intro that [of r']) auto
  next
    case (Inl e)
    with assms(1) tried have "treatment_failed deps env c e w1 = (res, w')" by (simp add: catchE_def)
    from treatment_failed_row [OF this, of i r'] assms(2) r' c
    have off: "closed_off deps env i c r' original (copied (d_storageKey r) w1) res w'" by simp
    have held: "d_status r = SCANNING" using c(5) by (simp add: scan_held_def)
    from off obtain r'' where r'': "rowed i (d_storageKey r) r'' original w'" "d_scanAttempts r'' = d_scanAttempts r"
      and off': "r'' = r' \<and> copied (d_storageKey r) w' = copied (d_storageKey r) w1 \<and>
          (ce_fault env 4 = None \<longrightarrow> \<not> scan_held c r') \<or>
        d_status r'' = SCAN_FAILED \<and> sd_maxAttempts deps \<le> sc_attempts c \<and>
          (ce_fault env 4 = None \<longrightarrow> res = Inr Failed) \<or>
        d_status r'' = PENDING_SCAN \<and> sc_attempts c < sd_maxAttempts deps \<and> (\<exists>e. res = Inl e)"
      using r'(2,3) by (auto simp: closed_off_def)
    have "d_status r'' = CLEAN \<Longrightarrow> cleared deps r'' original (copied (d_storageKey r) w')"
      using off' how held by (elim disjE) auto
    moreover have "ce_fault env 3 = None \<Longrightarrow> r' = r" using how Inl by auto
    ultimately show ?thesis using r'' off' c(5) by (intro that [of r'']) auto
  qed
qed

lemma scan_row:
  assumes "scanDocument deps env i w = (res, w')" and "quiet env i (d_storageKey r)"
    and "unique_documents (w_db w)" and "find_document i (w_db w) = Some r"
  defines "original \<equiv> map_option so_body (w_objects w (d_storageKey r))"
  obtains (untouched) "rowed i (d_storageKey r) r original w'" "\<not> (\<exists>c. res = Inr c \<and> c \<noteq> Skipped)"
      "claimable (sd_leaseSeconds deps) (ce_clock env 0) r \<Longrightarrow> ce_fault env 0 \<noteq> None"
  | (changed) r' where "rowed i (d_storageKey r) r' original w'"
      "d_status r' = CLEAN \<Longrightarrow> cleared deps r' original (copied (d_storageKey r) w')"
      "ce_fault env 0 = None \<Longrightarrow> ce_fault env 3 = None \<Longrightarrow> ce_fault env 4 = None \<Longrightarrow>
        d_scanAttempts r' = d_scanAttempts r + 1 \<and>
        (d_status r' = CLEAN \<and> res = Inr Clean \<or> d_status r' = INFECTED \<and> res = Inr Infected \<or>
         d_status r' = SCAN_FAILED \<and> res = Inr Failed \<and> sd_maxAttempts deps \<le> d_scanAttempts r' \<or>
         d_status r' = PENDING_SCAN \<and> (\<exists>e. res = Inl e) \<and> d_scanAttempts r' < sd_maxAttempts deps)"
proof -
  have rowed: "rowed i (d_storageKey r) r original w"
    using assms(3,4) by (simp add: rowed_def original_def)
  obtain rc w1 where claim: "call env 0 (\<lambda>now. in_db (claim_scan i (sd_leaseSeconds deps) now)) w = (rc, w1)"
    by fastforce
  from claim assms(2) rowed show ?thesis
  proof (cases rule: claim_phase)
    case no_claim
    have "w' = w1 \<and> \<not> (\<exists>c. res = Inr c \<and> c \<noteq> Skipped)"
      using assms(1) claim no_claim(1) by (auto simp: scanDocument_def bindE_def split: sum.splits option.splits)
    with no_claim show ?thesis by (intro untouched) auto
  next
    case (unanswered e)
    with assms(1) claim have "w' = w1" by (simp add: scanDocument_def bindE_def)
    with unanswered show ?thesis by (intro changed) auto
  next
    case given
    let ?r = "start_scan (ce_clock env 0) r" and ?c = "to_scan_claim (ce_clock env 0) (start_scan (ce_clock env 0) r)"
    have "catchE (treat deps env ?c) (treatment_failed deps env ?c) w1 = (res, w')"
      using assms(1) claim given(1) by (simp add: scanDocument_def bindE_def)
    moreover have "quiet env i (d_storageKey ?r)" "rowed i (d_storageKey ?r) ?r original w1" "claim_of ?c ?r"
      using assms(2) given(2) by (simp_all add: started_claim)
    ultimately show ?thesis
    proof (cases rule: treatment_of_claim)
      case (1 r')
      have "sc_attempts ?c = d_scanAttempts r'" using 1(2) by (simp add: to_scan_claim_def)
      with 1 show ?thesis by (intro changed [of r']) auto
    qed
  qed
qed

section \<open>Properties\<close>

text \<open>
  C22. Nothing ends CLEAN unless the antivirus said so. While no other process touches the row of
  the document, its original or its copy (\<open>quiet\<close>; interleaved treatments are in \<open>Lifecycle\<close> and
  \<open>System_Runs\<close>), and whichever calls fail, before or after they took effect: if the run leaves
  the document CLEAN and its row is not the same as before, the stored original has the size
  recorded at upload, the antivirus said clean of those bytes, and an image has its copy in
  storage, equal to the original without its metadata.
\<close>

theorem never_clean_without_verdict:
  assumes "scanDocument deps env i w = (res, w')" and "quiet env i (d_storageKey r)"
    and "unique_documents (w_db w)" and "find_document i (w_db w) = Some r"
    and "find_document i (w_db w') = Some r'" and "d_status r' = CLEAN" and "r' \<noteq> r"
  shows "cleared deps r' (map_option so_body (w_objects w' (d_storageKey r)))
    (copied (d_storageKey r) w')"
  using assms(1-4)
proof (cases rule: scan_row)
  case untouched
  with assms(5,7) show ?thesis by (simp add: rowed_def)
next
  case (changed r1)
  with assms(5,6) show ?thesis by (simp add: rowed_def)
qed

text \<open>
  C23. A treatment of a document that may be claimed settles, while no other process touches its row
  or its objects (a claim taken over meanwhile is another's to settle, see
  \<open>stale_scan_result_ignored\<close>) and the database answers the claim, the result and the release:
  whatever the storage and the antivirus do, the attempt is counted, the document is not left
  SCANNING, and the outcome is the state: clean, infected, failed once the attempts are used up,
  or back to PENDING_SCAN with the error thrown for pg-boss to retry.
\<close>

theorem scan_settles:
  assumes "scanDocument deps env i w = (res, w')" and "quiet env i (d_storageKey r)"
    and "unique_documents (w_db w)" and "find_document i (w_db w) = Some r"
    and "claimable (sd_leaseSeconds deps) (ce_clock env 0) r"
    and "ce_fault env 0 = None" and "ce_fault env 3 = None" and "ce_fault env 4 = None"
  shows "\<exists>r'. find_document i (w_db w') = Some r' \<and> d_scanAttempts r' = d_scanAttempts r + 1 \<and>
    (d_status r' = CLEAN \<and> res = Inr Clean \<or> d_status r' = INFECTED \<and> res = Inr Infected \<or>
     d_status r' = SCAN_FAILED \<and> res = Inr Failed \<and> sd_maxAttempts deps \<le> d_scanAttempts r' \<or>
     d_status r' = PENDING_SCAN \<and> (\<exists>e. res = Inl e) \<and> d_scanAttempts r' < sd_maxAttempts deps)"
  using assms(1-4)
proof (cases rule: scan_row)
  case untouched
  with assms(5,6) show ?thesis by simp
next
  case (changed r')
  from changed(3) [OF assms(6-8)] changed(1) show ?thesis by (auto simp: rowed_def)
qed

text \<open>The treatment as a function of the document and its stored original: the reference.\<close>

datatype assessment = Accept "bytes option" | Reject string

definition assess :: "scan_deps \<Rightarrow> document_row \<Rightarrow> bytes option \<Rightarrow> exn + assessment" where
  "assess deps r original =
    (case original of
       None \<Rightarrow> Inl (StorageObjectNotFoundError (d_storageKey r))
     | Some content \<Rightarrow>
         if int (length content) \<noteq> d_fileSize r
         then Inl (Error ''the stored object does not have the size recorded at upload'')
         else case sd_antivirus deps content of
                Inl e \<Rightarrow> Inl e
              | Inr (Verdict_infected sig) \<Rightarrow> Inr (Reject sig)
              | Inr Verdict_clean \<Rightarrow>
                  if d_fileType r = PDF then Inr (Accept None)
                  else map_sum id (\<lambda>b. Accept (Some b)) (sanitize (d_fileType r) content))"

definition assessed_row :: "scan_deps \<Rightarrow> (nat \<Rightarrow> time) \<Rightarrow> document_row \<Rightarrow> exn + assessment \<Rightarrow> document_row" where
  "assessed_row deps clock r a =
    (let c = to_scan_claim (clock 0) r; fin = (\<lambda>s. finish_row s (ocrStatusFor (sd_ocr deps) c s))
     in case a of
          Inr (Accept copy) \<Rightarrow> fin St_clean (clock 3) None
            (if d_fileType r = PDF then None else Some (sanitizedKeyOf (d_storageKey r))) r
        | Inr (Reject sig) \<Rightarrow> fin St_infected (clock 3) (Some sig) None r
        | Inl e \<Rightarrow>
            if sd_maxAttempts deps \<le> d_scanAttempts r then fin St_failed (clock 4) None None r
            else release_row r)"

definition assessed_outcome :: "scan_deps \<Rightarrow> document_row \<Rightarrow> exn + assessment \<Rightarrow> exn + scan_outcome" where
  "assessed_outcome deps r a =
    (case a of
       Inr (Accept _) \<Rightarrow> Inr Clean
     | Inr (Reject _) \<Rightarrow> Inr Infected
     | Inl e \<Rightarrow> if sd_maxAttempts deps \<le> d_scanAttempts r then Inr Failed else Inl e)"

lemma scan_held_claim [simp]:
  "d_status r = SCANNING \<Longrightarrow> d_scanStartedAt r = Some now \<Longrightarrow> scan_held (to_scan_claim now r) r"
  by (simp add: scan_held_def to_scan_claim_def)

text \<open>With the claim in hand, a result is recorded.\<close>

definition activation_sends :: "ocr_activation option \<Rightarrow> bool" where
  "activation_sends ocr \<longleftrightarrow> (case ocr of None \<Rightarrow> True | Some a \<Rightarrow> oa_sent a)"

lemma finish_scan_held:
  assumes "unique_documents d" and "find_document (sc_documentId c) d = Some r" and "scan_held c r"
    and "activation_sends ocr"
  shows "finish_scan ocr now c s act v k sg d = (Inr True, finished ocr now c s act v k sg d)"
  using finish_scan_cases [OF assms(1), of ocr now c s act v k sg] assms
  by (auto simp: activation_sends_def ocrStatusFor_def split: option.splits)

lemma catch_exact:
  assumes "undisturbed env" and "rowed i key r original w" and "claim_of c r"
    and "catchE (treat deps env c) (treatment_failed deps env c) w = (res, w')"
    and "activation_sends (sd_ocr deps)" and "key = d_storageKey r" and "c = to_scan_claim (ce_clock env 0) r"
  shows "res = assessed_outcome deps r (assess deps r original) \<and>
    find_document i (w_db w') = Some (assessed_row deps (ce_clock env) r (assess deps r original))"
proof -
  have u: "unique_documents (w_db w)" and f: "find_document i (w_db w) = Some r" and i: "sc_documentId c = i"
      and held: "scan_held c r"
    using assms(2,3) by (auto simp: rowed_def claim_of_def dest: find_document_SomeD)
  have fields: "sc_storageKey c = d_storageKey r" "sc_fileSize c = d_fileSize r"
      "sc_fileType c = d_fileType r" "sc_attempts c = d_scanAttempts r"
    by (simp_all add: assms(7) to_scan_claim_def)
  have row: "assessed_row deps (ce_clock env) r a =
    (case a of
       Inr (Accept copy) \<Rightarrow> finish_row St_clean (ocrStatusFor (sd_ocr deps) c St_clean) (ce_clock env 3) None
         (if d_fileType r = PDF then None else Some (sanitizedKeyOf (d_storageKey r))) r
     | Inr (Reject sig) \<Rightarrow>
         finish_row St_infected (ocrStatusFor (sd_ocr deps) c St_infected) (ce_clock env 3) (Some sig) None r
     | Inl e \<Rightarrow>
         if sd_maxAttempts deps \<le> d_scanAttempts r
         then finish_row St_failed (ocrStatusFor (sd_ocr deps) c St_failed) (ce_clock env 4) None None r
         else release_row r)" for a
    by (simp only: assessed_row_def Let_def assms(7))
  note fin = finish_scan_held [OF u f [folded i] held assms(5)]
  have rel: "release_scan c (w_db w) =
      (Inr True, update_document i (scan_held c) release_row (w_db w))"
    using release_scan_cases [OF u, of c] f i held by auto
  have failed: "fst (treatment_failed deps env c e w) =
      (if sd_maxAttempts deps \<le> d_scanAttempts r then Inr Failed else Inl e)"
    "find_document i (w_db (snd (treatment_failed deps env c e w))) =
      Some (if sd_maxAttempts deps \<le> d_scanAttempts r
        then finish_row St_failed (ocrStatusFor (sd_ocr deps) c St_failed) (ce_clock env 4) None None r
        else release_row r)" for e
    using fin rel f i held find_update_document [of release_row i i "scan_held c" "w_db w"]
    by (auto simp: treatment_failed_def bindE_def call_undisturbed [OF assms(1)] in_db_def mark_defs
        removeSanitizedCopy_def catchE_def deleteObject_def find_finished fields)
  have stops: ?thesis
    if "treat deps env c w = (Inl e, w)" "assess deps r original = Inl e" for e
  proof -
    have "treatment_failed deps env c e w = (res, w')" using that(1) assms(4) by (simp add: catchE_def)
    with failed [of e] that(2) show ?thesis
      by (simp add: assessed_outcome_def row)
  qed
  have get: "getObject (d_storageKey r) w = (case original of
      None \<Rightarrow> Inl (StorageObjectNotFoundError (d_storageKey r)) | Some b \<Rightarrow> Inr b, w)"
    using assms(2,6) by (auto simp: getObject_def rowed_def fields split: option.splits)
  note call = call_undisturbed [OF assms(1)]
  show ?thesis
  proof (cases original)
    case None
    with get show ?thesis by (intro stops) (simp_all add: treat_def bindE_def call assess_def fields)
  next
    case (Some content)
    note start = treat_def bindE_def call get Some fields assess_def
    show ?thesis
    proof (cases "int (length content) = d_fileSize r")
      case False
      then show ?thesis by (intro stops) (simp_all add: start)
    next
      case size: True
      note True = size
      show ?thesis
      proof (cases "sd_antivirus deps content")
        case (Inl e)
        with True show ?thesis by (intro stops) (simp_all add: start)
      next
        case (Inr v)
        show ?thesis
        proof (cases v)
          case (Verdict_infected sg)
          have "treat deps env c w = (Inr Infected, w\<lparr>w_db := finished (sd_ocr deps) (ce_clock env 3) c
              St_infected ''document.scan_infected'' [(''status'', JStr ''INFECTED''), (''signature'', JStr sg)]
              None (Some sg) (w_db w)\<rparr>)"
            using True Inr Verdict_infected fin by (simp add: start in_db_def mark_defs)
          with assms(4) have "res = Inr Infected" "w_db w' = finished (sd_ocr deps) (ce_clock env 3) c
              St_infected ''document.scan_infected'' [(''status'', JStr ''INFECTED''), (''signature'', JStr sg)]
              None (Some sg) (w_db w)"
            by (auto simp: catchE_def)
          with True Inr Verdict_infected f i held show ?thesis
            by (simp add: Some assess_def find_finished assessed_outcome_def row)
        next
          case Verdict_clean
          have clean: "treat deps env c w = bindE (storeSanitizedCopy env c content) (\<lambda>k.
              bindE (call env 3 (\<lambda>now. in_db (markClean (sd_ocr deps) now c k)))
                (\<lambda>recorded. returnE (if recorded then Clean else Lost))) w"
            using True Inr Verdict_clean by (simp add: start)
          have recorded: "bindE (call env 3 (\<lambda>now. in_db (markClean (sd_ocr deps) now c k)))
                (\<lambda>recorded. returnE (if recorded then Clean else Lost)) w1 =
              (Inr Clean, w1\<lparr>w_db := finished (sd_ocr deps) (ce_clock env 3) c St_clean
                ''document.scan_clean'' [(''status'', JStr ''CLEAN'')] k None (w_db w)\<rparr>)"
            if "w_db w1 = w_db w" for k w1
            using fin that by (simp add: bindE_def call in_db_def mark_defs)
          show ?thesis
          proof (cases "d_fileType r = PDF")
            case True
            with clean recorded [of w None] assms(4)
            have "res = Inr Clean" "w_db w' = finished (sd_ocr deps) (ce_clock env 3) c St_clean
                ''document.scan_clean'' [(''status'', JStr ''CLEAN'')] None None (w_db w)"
              by (auto simp: storeSanitizedCopy_def fields catchE_def)
            with True f i held show ?thesis
              by (simp add: find_finished assess_def Some Inr Verdict_clean size assessed_outcome_def row)
          next
            case False
            show ?thesis
            proof (cases "sanitize (d_fileType r) content")
              case (Inl e)
              with clean False show ?thesis
                by (intro stops) (simp_all add: storeSanitizedCopy_def fields bindE_def assess_def Some
                    Inr Verdict_clean size)
            next
              case (Inr b)
              have "treat deps env c w = (Inr Clean, snd (treat deps env c w)) \<and>
                  w_db (snd (treat deps env c w)) = finished (sd_ocr deps) (ce_clock env 3) c St_clean
                ''document.scan_clean'' [(''status'', JStr ''CLEAN'')]
                (Some (sanitizedKeyOf (d_storageKey r))) None (w_db w)"
                using clean False Inr recorded
                by (simp add: storeSanitizedCopy_def fields bindE_def call putObject_def)
              with assms(4) have "res = Inr Clean" "w_db w' = finished (sd_ocr deps) (ce_clock env 3) c St_clean
                ''document.scan_clean'' [(''status'', JStr ''CLEAN'')]
                (Some (sanitizedKeyOf (d_storageKey r))) None (w_db w)"
                by (auto simp: catchE_def split: prod.splits)
              with f i held False Inr \<open>sd_antivirus deps content = Inr v\<close> Verdict_clean
              show ?thesis
                by (simp add: find_finished assess_def Some size assessed_outcome_def row)
            qed
          qed
        qed
      qed
    qed
  qed
qed

text \<open>
  C24. The treatment computes exactly what it is meant to: undisturbed, the job of a document that
  may be claimed ends with the outcome and the row that the stored original, the antivirus's
  answer and the number of attempts determine, and the job of any other document changes nothing.
\<close>

theorem scan_exact:
  assumes "undisturbed env" and "unique_documents (w_db w)" and "find_document i (w_db w) = Some r"
    and "activation_sends (sd_ocr deps)"
  shows "if claimable (sd_leaseSeconds deps) (ce_clock env 0) r
    then let r1 = start_scan (ce_clock env 0) r;
             a = assess deps r1 (map_option so_body (w_objects w (d_storageKey r)))
      in fst (scanDocument deps env i w) = assessed_outcome deps r1 a \<and>
         find_document i (w_db (snd (scanDocument deps env i w))) = Some (assessed_row deps (ce_clock env) r1 a)
    else scanDocument deps env i w = (Inr Skipped, w)"
proof -
  let ?now = "ce_clock env 0"
  let ?r = "start_scan ?now r" and ?original = "map_option so_body (w_objects w (d_storageKey r))"
  let ?c = "to_scan_claim ?now ?r"
  let ?w = "w\<lparr>w_db := update_document i (claimable (sd_leaseSeconds deps) ?now) (start_scan ?now) (w_db w)\<rparr>"
  note cases = claim_scan_cases [OF assms(2), of i "sd_leaseSeconds deps" ?now]
  show ?thesis
  proof (cases "claimable (sd_leaseSeconds deps) ?now r")
    case True
    have run: "scanDocument deps env i w = catchE (treat deps env ?c) (treatment_failed deps env ?c) ?w"
      using cases assms(3) True
      by (simp add: scanDocument_def bindE_def call_undisturbed [OF assms(1)] in_db_def)
    have rowed: "rowed i (d_storageKey ?r) ?r ?original ?w"
      using assms(2,3) True
        find_update_document [of "start_scan ?now" i i "claimable (sd_leaseSeconds deps) ?now" "w_db w"]
      by (simp add: rowed_def unique_update)
    have "catchE (treat deps env ?c) (treatment_failed deps env ?c) ?w
        = (fst (scanDocument deps env i w), snd (scanDocument deps env i w))"
      by (simp add: run)
    from catch_exact [OF assms(1) rowed started_claim [OF rowed [simplified]] this assms(4) refl refl] True
    show ?thesis by (simp add: Let_def)
  next
    case False
    with cases assms(3) show ?thesis
      by (simp add: scanDocument_def bindE_def call_undisturbed [OF assms(1)] in_db_def)
  qed
qed

section \<open>Concrete runs\<close>

definition scan_row0 :: "document_file_type \<Rightarrow> int \<Rightarrow> document_row" where
  "scan_row0 t n = \<lparr>d_id = ''d1'', d_caseId = ''c1'', d_fileName = [], d_fileType = t,
     d_storageKey = ''k'', d_fileSize = n, d_uploadedByUserId = ''u1'', d_createdAt = 0,
     d_status = PENDING_SCAN, d_ocrStatus = NOT_STARTED, d_scanAttempts = 0, d_scanStartedAt = None,
     d_scannedAt = None, d_scanSignature = None, d_sanitizedStorageKey = None,
     d_ocrAttempts = 0, d_ocrStartedAt = None\<rparr>"

definition scan_world :: "document_row \<Rightarrow> bytes \<Rightarrow> world" where
  "scan_world r b = \<lparr>w_db = empty_db\<lparr>documents := [r]\<rparr>,
     w_objects = (\<lambda>k. if k = d_storageKey r then Some \<lparr>so_body = b, so_contentType = ''image/png''\<rparr> else None),
     w_urls = [], w_log = []\<rparr>"

definition png_deps :: scan_deps where
  "png_deps = \<lparr>sd_ocr = Some \<lparr>oa_pdfEnabled = False, oa_sent = True\<rparr>,
     sd_antivirus = (\<lambda>b. if length b = 0 then Inl (AntivirusError ''empty'') else Inr Verdict_clean),
     sd_maxAttempts = 3, sd_leaseSeconds = 60\<rparr>"

definition png_world :: world where
  "png_world = scan_world (scan_row0 PNG (int (length demo_png))) demo_png"

lemma calm_quiet: "quiet calm i key" "undisturbed calm"
  by (simp_all add: quiet_def calm_def undisturbed_def Let_def)

lemma png_world_facts:
  "unique_documents (w_db png_world)"
  "find_document ''d1'' (w_db png_world) = Some (scan_row0 PNG (int (length demo_png)))"
  by (simp_all add: png_world_def scan_world_def unique_documents_def find_document_def scan_row0_def)

definition scanned :: document_row where
  "scanned = (scan_row0 PNG (int (length demo_png)))\<lparr>d_status := CLEAN, d_ocrStatus := PENDING,
     d_scanAttempts := 1, d_scanStartedAt := Some 1000, d_scannedAt := Some 4000,
     d_sanitizedStorageKey := Some ''k.sanitized''\<rparr>"

lemma png_run:
  "fst (scanDocument png_deps calm ''d1'' png_world) = Inr Clean"
  "find_document ''d1'' (w_db (snd (scanDocument png_deps calm ''d1'' png_world))) = Some scanned"
  "map_option so_body (w_objects (snd (scanDocument png_deps calm ''d1'' png_world)) ''k'') = Some demo_png"
  by code_simp+

theorem never_clean_without_verdict_witness:
  "cleared png_deps scanned (Some demo_png)
    (copied ''k'' (snd (scanDocument png_deps calm ''d1'' png_world)))"
proof -
  have key: "d_storageKey (scan_row0 PNG (int (length demo_png))) = ''k''" by (simp add: scan_row0_def)
  have "d_status scanned = CLEAN" "scanned \<noteq> scan_row0 PNG (int (length demo_png))"
    by (simp_all add: scanned_def scan_row0_def)
  from never_clean_without_verdict [OF prod.collapse [symmetric] calm_quiet(1) png_world_facts png_run(2) this]
  show ?thesis by (simp add: key png_run(3))
qed

theorem scan_settles_witness:
  "\<exists>r'. find_document ''d1'' (w_db (snd (scanDocument png_deps calm ''d1'' png_world))) = Some r' \<and>
    d_scanAttempts r' = 1 \<and> d_status r' \<noteq> SCANNING"
proof -
  have "claimable (sd_leaseSeconds png_deps) (ce_clock calm 0) (scan_row0 PNG (int (length demo_png)))"
    by (simp add: claimable_def scan_row0_def)
  from scan_settles [OF prod.collapse [symmetric] calm_quiet(1) png_world_facts this]
  show ?thesis by (auto simp: calm_def scan_row0_def)
qed

theorem scan_exact_witness:
  "fst (scanDocument png_deps calm ''d1'' (scan_world (scan_row0 PDF 4) [1, 2, 3]))
    = Inl (Error ''the stored object does not have the size recorded at upload'')"
proof -
  let ?r = "scan_row0 PDF 4" and ?w = "scan_world (scan_row0 PDF 4) [1, 2, 3]"
  have facts: "unique_documents (w_db ?w)" "find_document ''d1'' (w_db ?w) = Some ?r"
      "activation_sends (sd_ocr png_deps)" "claimable (sd_leaseSeconds png_deps) (ce_clock calm 0) ?r"
    by (simp_all add: scan_world_def unique_documents_def find_document_def scan_row0_def
        activation_sends_def png_deps_def claimable_def)
  from scan_exact [OF calm_quiet(2) facts(1-3)] facts(4) show ?thesis
    by (simp add: Let_def assess_def assessed_outcome_def scan_world_def scan_row0_def start_scan_def
        png_deps_def)
qed

end
