(* ===== verification/Ocr_Repository.thy ===== *)
theory Ocr_Repository
  imports Scan_Repository
begin

text \<open>
  The OCR columns of the document table as the worker sees them
  (apps/worker/src/ocr/ocr.repository.ts): every method is one transaction, its clock an argument
  in microseconds. An execution is recorded with its pages, its state and its event, or not at all.
\<close>

record ocr_claim =
  oc_documentId :: uuid
  oc_caseId :: uuid
  oc_fileType :: document_file_type
  oc_storageKey :: string
  oc_sanitizedStorageKey :: "string option"
  oc_fileSize :: int
  oc_attempts :: int
  oc_token :: time

record ocr_execution =
  ex_id :: uuid
  ex_engine :: string
  ex_engineVersion :: "string option"
  ex_representation :: "ocr_representation option"
  ex_processedSha256 :: "string option"

record completed_execution = ocr_execution +
  ex_pages :: int

record failed_execution = ocr_execution +
  ex_errorCode :: ocr_error_code

section \<open>Claim\<close>

definition ocr_claimable :: "int \<Rightarrow> time \<Rightarrow> document_row \<Rightarrow> bool" where
  "ocr_claimable leaseSeconds now r \<longleftrightarrow> d_status r = CLEAN \<and>
     (d_ocrStatus r = PENDING \<or>
      (d_ocrStatus r = PROCESSING \<and> older_than (d_ocrStartedAt r) now leaseSeconds))"

definition start_ocr :: "time \<Rightarrow> document_row \<Rightarrow> document_row" where
  "start_ocr now r =
     r\<lparr>d_ocrStatus := PROCESSING, d_ocrAttempts := d_ocrAttempts r + 1, d_ocrStartedAt := Some now\<rparr>"

definition to_ocr_claim :: "time \<Rightarrow> document_row \<Rightarrow> ocr_claim" where
  "to_ocr_claim now r =
     \<lparr>oc_documentId = d_id r, oc_caseId = d_caseId r, oc_fileType = d_fileType r,
      oc_storageKey = d_storageKey r, oc_sanitizedStorageKey = d_sanitizedStorageKey r,
      oc_fileSize = d_fileSize r, oc_attempts = d_ocrAttempts r, oc_token = now\<rparr>"

definition claim_ocr :: "uuid \<Rightarrow> int \<Rightarrow> time \<Rightarrow> ocr_claim option tx" where
  "claim_ocr documentId leaseSeconds now = (\<lambda>d.
     case find (\<lambda>r. d_id r = documentId \<and> ocr_claimable leaseSeconds now r) (documents d) of
       None \<Rightarrow> (Inr None, d)
     | Some r \<Rightarrow>
         (Inr (Some (to_ocr_claim now (start_ocr now r))),
          update_document documentId (ocr_claimable leaseSeconds now) (start_ocr now) d))"

section \<open>Results\<close>

definition ocr_held :: "ocr_claim \<Rightarrow> document_row \<Rightarrow> bool" where
  "ocr_held claim r \<longleftrightarrow> d_ocrStatus r = PROCESSING \<and> d_ocrStartedAt r = Some (oc_token claim)"

text \<open>What \<open>finish\<close> is given besides the claim and the execution.\<close>

record finish_detail =
  fd_pages :: "int option"
  fd_pageTexts :: "js_text list"
  fd_errorCode :: "ocr_error_code option"
  fd_action :: string
  fd_newValue :: json_object

definition page_rows :: "uuid \<Rightarrow> js_text list \<Rightarrow> ocr_page_row list" where
  "page_rows resultId texts =
     map (\<lambda>(i, t). \<lparr>p_ocrResultId = resultId, p_pageNumber = int i + 1, p_text = t\<rparr>) (enumerate 0 texts)"

definition result_row ::
  "ocr_claim \<Rightarrow> ocr_outcome \<Rightarrow> 'x ocr_execution_scheme \<Rightarrow> finish_detail \<Rightarrow> time \<Rightarrow> ocr_result_row" where
  "result_row claim outcome execution detail now =
     \<lparr>r_id = ex_id execution, r_documentId = oc_documentId claim, r_outcome = outcome,
      r_engine = ex_engine execution, r_engineVersion = ex_engineVersion execution,
      r_representation = ex_representation execution,
      r_processedSha256 = ex_processedSha256 execution, r_pages = fd_pages detail,
      r_attempts = oc_attempts claim, r_startedAt = Some (oc_token claim), r_finishedAt = now,
      r_errorCode = fd_errorCode detail\<rparr>"

text \<open>
  The constraints of \<open>ocr_results\<close>: its identifier is the primary key, and a completed execution
  has at least one page, all of which are stored (the page trigger).
\<close>

definition result_violates :: "ocr_result_row \<Rightarrow> js_text list \<Rightarrow> db \<Rightarrow> bool" where
  "result_violates row texts d \<longleftrightarrow> (\<exists>r \<in> set (ocrResults d). r_id r = r_id row) \<or>
     (r_outcome row = Outcome_COMPLETED \<and>
       (case r_pages row of None \<Rightarrow> True | Some n \<Rightarrow> n < 1 \<or> n \<noteq> int (length texts)))"

definition ocr_outcome_status :: "ocr_outcome \<Rightarrow> document_ocr_status" where
  "ocr_outcome_status outcome = (case outcome of Outcome_COMPLETED \<Rightarrow> COMPLETED | Outcome_FAILED \<Rightarrow> FAILED)"

definition finish_ocr ::
  "time \<Rightarrow> ocr_claim \<Rightarrow> ocr_outcome \<Rightarrow> 'x ocr_execution_scheme \<Rightarrow> finish_detail \<Rightarrow> bool tx" where
  "finish_ocr now claim outcome execution detail = transaction (\<lambda>d.
     let row = result_row claim outcome execution detail now;
         changed = matching (oc_documentId claim) (ocr_held claim) d;
         d = update_document (oc_documentId claim) (ocr_held claim)
               (\<lambda>r. r\<lparr>d_ocrStatus := ocr_outcome_status outcome\<rparr>) d
     in if changed \<noteq> 1 then (Inr False, d)
        else if result_violates row (fd_pageTexts detail) d
        then (Inl (PrismaError (KnownRequestError ''P2010'' (Some ''23505''))), d)
        else
          let d = d\<lparr>ocrResults := ocrResults d @ [row]\<rparr>;
              d = d\<lparr>ocrPages := ocrPages d @ page_rows (ex_id execution) (fd_pageTexts detail)\<rparr>;
              d = insert_audit (system_entry (fd_action detail) (oc_documentId claim) (oc_caseId claim)
                    (fd_newValue detail)) now d
          in (Inr True, d))"

fun ocr_error_code_name :: "ocr_error_code \<Rightarrow> string" where
  "ocr_error_code_name timeout = ''timeout''"
| "ocr_error_code_name rate_limited = ''rate_limited''"
| "ocr_error_code_name provider_unavailable = ''provider_unavailable''"
| "ocr_error_code_name provider_error = ''provider_error''"
| "ocr_error_code_name unsupported_document = ''unsupported_document''"
| "ocr_error_code_name too_many_pages = ''too_many_pages''"
| "ocr_error_code_name invalid_response = ''invalid_response''"
| "ocr_error_code_name object_missing = ''object_missing''"
| "ocr_error_code_name object_mismatch = ''object_mismatch''"
| "ocr_error_code_name storage_unavailable = ''storage_unavailable''"
| "ocr_error_code_name text_store_unavailable = ''text_store_unavailable''"
| "ocr_error_code_name abandoned = ''abandoned''"

definition markCompleted :: "time \<Rightarrow> ocr_claim \<Rightarrow> completed_execution \<Rightarrow> js_text list \<Rightarrow> bool tx" where
  "markCompleted now claim execution texts =
    (if int (length texts) \<noteq> ex_pages execution
     then throwE (Error ''an OCR execution must record exactly its pages'')
     else finish_ocr now claim Outcome_COMPLETED execution
       \<lparr>fd_pages = Some (ex_pages execution), fd_pageTexts = texts, fd_errorCode = None,
        fd_action = ''document.ocr_completed'',
        fd_newValue = [(''status'', JStr ''COMPLETED''), (''pages'', JNum (ex_pages execution)),
          (''attempts'', JNum (oc_attempts claim))]\<rparr>)"

definition markFailed_ocr :: "time \<Rightarrow> ocr_claim \<Rightarrow> failed_execution \<Rightarrow> bool tx" where
  "markFailed_ocr now claim execution =
     finish_ocr now claim Outcome_FAILED execution
       \<lparr>fd_pages = None, fd_pageTexts = [], fd_errorCode = Some (ex_errorCode execution),
        fd_action = ''document.ocr_failed'',
        fd_newValue = [(''status'', JStr ''FAILED''),
          (''code'', JStr (ocr_error_code_name (ex_errorCode execution))),
          (''attempts'', JNum (oc_attempts claim))]\<rparr>"

definition markExcluded :: "ocr_claim \<Rightarrow> bool tx" where
  "markExcluded claim = (\<lambda>d.
     (Inr (matching (oc_documentId claim) (ocr_held claim) d = 1),
      update_document (oc_documentId claim) (ocr_held claim) (\<lambda>r. r\<lparr>d_ocrStatus := EXCLUDED\<rparr>) d))"

definition releaseForRetry :: "bool \<Rightarrow> ocr_claim \<Rightarrow> int \<Rightarrow> bool tx" where
  "releaseForRetry sent claim delaySeconds = transaction (\<lambda>d.
     let changed = matching (oc_documentId claim) (ocr_held claim) d;
         d = update_document (oc_documentId claim) (ocr_held claim)
               (\<lambda>r. r\<lparr>d_ocrStatus := PENDING, d_ocrStartedAt := None\<rparr>) d
     in if changed \<noteq> 1 then (Inr False, d)
        else bindE (boss_send sent ''a document.ocr job was not enqueued'' DOCUMENT_OCR_QUEUE
               (oc_documentId claim) delaySeconds) (\<lambda>_. returnE True) d)"

section \<open>The claim of an OCR is fenced\<close>

definition ocr_token :: "document_row \<Rightarrow> time option" where
  "ocr_token r = (if d_ocrStatus r = PROCESSING then d_ocrStartedAt r else None)"

datatype ocr_close =
    Close_completed time completed_execution "js_text list"
  | Close_ocr_failed time failed_execution
  | Close_excluded
  | Close_retry bool int

fun close_ocr :: "ocr_close \<Rightarrow> ocr_claim \<Rightarrow> bool tx" where
  "close_ocr (Close_completed now execution texts) claim = markCompleted now claim execution texts"
| "close_ocr (Close_ocr_failed now execution) claim = markFailed_ocr now claim execution"
| "close_ocr Close_excluded claim = markExcluded claim"
| "close_ocr (Close_retry sent delay) claim = releaseForRetry sent claim delay"

lemma ocr_held_token: "ocr_held claim r \<longleftrightarrow> ocr_token r = Some (oc_token claim)"
  by (auto simp: ocr_held_def ocr_token_def)

lemma ocr_matching:
  assumes "unique_documents d"
  shows "matching (oc_documentId c) (ocr_held c) d =
    (if \<exists>r. find_document (oc_documentId c) d = Some r \<and> ocr_held c r then 1 else 0)"
  using assms by (auto simp: matching_find split: option.splits)

lemma start_ocr_id [simp]: "d_id (start_ocr now r) = d_id r"
  by (simp add: start_ocr_def)

lemma ocr_result_token [simp]: "ocr_token (r\<lparr>d_ocrStatus := ocr_outcome_status outcome\<rparr>) = None"
  "ocr_token (r\<lparr>d_ocrStatus := EXCLUDED\<rparr>) = None"
  "ocr_token (r\<lparr>d_ocrStatus := PENDING, d_ocrStartedAt := None\<rparr>) = None"
  by (cases outcome; simp add: ocr_token_def ocr_outcome_status_def)+

text \<open>What a finished execution leaves, and when it is recorded.\<close>

definition ocr_finished ::
  "time \<Rightarrow> ocr_claim \<Rightarrow> ocr_outcome \<Rightarrow> 'x ocr_execution_scheme \<Rightarrow> finish_detail \<Rightarrow> db \<Rightarrow> db" where
  "ocr_finished now claim outcome execution detail d =
    (let d = update_document (oc_documentId claim) (ocr_held claim)
               (\<lambda>r. r\<lparr>d_ocrStatus := ocr_outcome_status outcome\<rparr>) d;
         d = d\<lparr>ocrResults := ocrResults d @ [result_row claim outcome execution detail now]\<rparr>;
         d = d\<lparr>ocrPages := ocrPages d @ page_rows (ex_id execution) (fd_pageTexts detail)\<rparr>
     in insert_audit (system_entry (fd_action detail) (oc_documentId claim) (oc_caseId claim)
          (fd_newValue detail)) now d)"

lemma ocr_finished_frame [simp]:
  "documents (ocr_finished now c outcome x detail d) =
    update_where (\<lambda>r. d_id r = oc_documentId c \<and> ocr_held c r) (\<lambda>r. r\<lparr>d_ocrStatus := ocr_outcome_status outcome\<rparr>)
      (documents d)"
  "ocrResults (ocr_finished now c outcome x detail d) = ocrResults d @ [result_row c outcome x detail now]"
  "ocrPages (ocr_finished now c outcome x detail d) = ocrPages d @ page_rows (ex_id x) (fd_pageTexts detail)"
  "cases (ocr_finished now c outcome x detail d) = cases d"
  "jobs (ocr_finished now c outcome x detail d) = jobs d"
  by (simp_all add: ocr_finished_def Let_def update_document_def)

lemma finish_ocr_cases:
  assumes "unique_documents d"
  shows "finish_ocr now c outcome x detail d =
    (if \<not> (\<exists>r. find_document (oc_documentId c) d = Some r \<and> ocr_held c r) then (Inr False, d)
     else if result_violates (result_row c outcome x detail now) (fd_pageTexts detail) d
     then (Inl (PrismaError (KnownRequestError ''P2010'' (Some ''23505''))), d)
     else (Inr True, ocr_finished now c outcome x detail d))"
proof (cases "\<exists>r. find_document (oc_documentId c) d = Some r \<and> ocr_held c r")
  case True
  have "result_violates row texts (update_document i P f d) = result_violates row texts d"
    for row texts i P f
    by (simp add: result_violates_def)
  with True show ?thesis
    by (simp add: finish_ocr_def transaction_def Let_def ocr_matching [OF assms] ocr_finished_def)
next
  case False
  have "update_document (oc_documentId c) (ocr_held c) f d = d" for f
    using False ocr_matching [OF assms, of c] by (intro update_document_none) simp
  with False show ?thesis
    by (simp add: finish_ocr_def transaction_def Let_def ocr_matching [OF assms])
qed

lemma ocr_update_none:
  "unique_documents d \<Longrightarrow> \<not> (\<exists>r. find_document (oc_documentId c) d = Some r \<and> ocr_held c r) \<Longrightarrow>
    update_document (oc_documentId c) (ocr_held c) f d = d"
  using ocr_matching [of d c] by (intro update_document_none) auto

lemma finish_ocr_obtain:
  assumes "unique_documents d"
  obtains
    (lost) "\<not> (\<exists>r. find_document (oc_documentId c) d = Some r \<and> ocr_held c r)"
      "finish_ocr now c outcome x detail d = (Inr False, d)"
  | (refused) e where "finish_ocr now c outcome x detail d = (Inl e, d)"
  | (closed) r where "find_document (oc_documentId c) d = Some r" "ocr_held c r"
      "finish_ocr now c outcome x detail d = (Inr True, ocr_finished now c outcome x detail d)"
  using finish_ocr_cases [OF assms, of now c outcome x detail] by (auto split: if_splits)

lemma close_ocr_cases:
  assumes "unique_documents d"
  obtains
    (lost) "\<not> (\<exists>r. find_document (oc_documentId c) d = Some r \<and> ocr_held c r)"
      "close_ocr op c d = (Inr False, d)"
  | (refused) e where "close_ocr op c d = (Inl e, d)"
  | (closed) r f d' where "find_document (oc_documentId c) d = Some r" "ocr_held c r"
      "close_ocr op c d = (Inr True, d')" "\<And>x. d_id (f x) = d_id x" "\<And>x. ocr_token (f x) = None"
      "documents d' = update_where (\<lambda>x. d_id x = oc_documentId c \<and> ocr_held c x) f (documents d)"
proof -
  note recorded = closed [OF _ _ _ _ ocr_result_token(1) ocr_finished_frame(1), simplified]
  show ?thesis
  proof (cases op)
    case (Close_completed now execution texts)
    show ?thesis
    proof (cases "int (length texts) = ex_pages execution")
      case True
      note [simp] = Close_completed True markCompleted_def
      show ?thesis
        by (rule finish_ocr_obtain [OF assms, of c now Outcome_COMPLETED execution])
          (auto intro: lost refused recorded)
    qed (use Close_completed refused in \<open>auto simp: markCompleted_def\<close>)
  next
    case (Close_ocr_failed now execution)
    note [simp] = Close_ocr_failed markFailed_ocr_def
    show ?thesis
      by (rule finish_ocr_obtain [OF assms, of c now Outcome_FAILED execution])
        (auto intro: lost refused recorded)
  next
    case Close_excluded
    show ?thesis
    proof (cases "\<exists>r. find_document (oc_documentId c) d = Some r \<and> ocr_held c r")
      case True
      with Close_excluded show ?thesis
        using closed [of _ "update_document (oc_documentId c) (ocr_held c) (\<lambda>r. r\<lparr>d_ocrStatus := EXCLUDED\<rparr>) d"
            "\<lambda>r. r\<lparr>d_ocrStatus := EXCLUDED\<rparr>"]
        by (auto simp: markExcluded_def ocr_matching [OF assms])
    next
      case False
      with Close_excluded ocr_update_none [OF assms False] show ?thesis
        by (intro lost) (auto simp: markExcluded_def ocr_matching [OF assms])
    qed
  next
    case (Close_retry sent delay)
    let ?f = "\<lambda>r. r\<lparr>d_ocrStatus := PENDING, d_ocrStartedAt := None\<rparr>"
    show ?thesis
    proof (cases "\<exists>r. find_document (oc_documentId c) d = Some r \<and> ocr_held c r")
      case True
      with Close_retry show ?thesis
        using refused closed [of _ "send_job DOCUMENT_OCR_QUEUE (oc_documentId c) delay
            (update_document (oc_documentId c) (ocr_held c) ?f d)" ?f]
        by (cases sent) (auto simp: releaseForRetry_def ocr_matching [OF assms] transaction_def Let_def
            boss_send_def bindE_def)
    next
      case False
      with Close_retry ocr_update_none [OF assms False] show ?thesis
        by (intro lost) (auto simp: releaseForRetry_def ocr_matching [OF assms] transaction_def Let_def)
    qed
  qed
qed

lemma claim_ocr_cases:
  assumes "unique_documents d"
  shows "claim_ocr i lease now d =
    (case find_document i d of
       Some r \<Rightarrow> if ocr_claimable lease now r
         then (Inr (Some (to_ocr_claim now (start_ocr now r))),
               update_document i (ocr_claimable lease now) (start_ocr now) d)
         else (Inr None, d)
     | None \<Rightarrow> (Inr None, d))"
  using find_document_where [OF assms, of i "ocr_claimable lease now"] find_document_SomeD [of i d]
  by (auto simp: claim_ocr_def split: option.splits if_splits)

lemma claim_ocr_given:
  assumes "unique_documents d" and "claim_ocr i lease now d = (Inr (Some c), d')"
  obtains r where "find_document i d = Some r" and "ocr_claimable lease now r"
    and "c = to_ocr_claim now (start_ocr now r)"
    and "d' = update_document i (ocr_claimable lease now) (start_ocr now) d"
    and "find_document i d' = Some (start_ocr now r)"
proof -
  obtain r where r: "find_document i d = Some r" "ocr_claimable lease now r"
      "c = to_ocr_claim now (start_ocr now r)"
      "d' = update_document i (ocr_claimable lease now) (start_ocr now) d"
    using assms(2) claim_ocr_cases [OF assms(1), of i lease now]
    by (auto split: option.splits if_splits)
  moreover have "find_document i d' = Some (start_ocr now r)"
    using r find_update_document [of "start_ocr now" i i "ocr_claimable lease now" d] by simp
  ultimately show ?thesis using that by blast
qed

lemma ocr_claimable_token:
  "ocr_claimable lease now r \<Longrightarrow> ocr_token r = None \<or> (\<exists>t. ocr_token r = Some t \<and> t < now - 1000000 * lease)"
  by (auto simp: ocr_claimable_def ocr_token_def older_than_def split: option.splits)

lemma close_ocr_lost:
  assumes "unique_documents d"
    and "\<not> (\<exists>r. find_document (oc_documentId c) d = Some r \<and> ocr_token r = Some (oc_token c))"
  shows "snd (close_ocr op c d) = d \<and> fst (close_ocr op c d) \<noteq> Inr True"
  using assms(1)
proof (cases rule: close_ocr_cases [where op = op and c = c])
  case (closed r f d')
  from closed(1,2) assms(2) show ?thesis by (simp add: ocr_held_token)
qed simp_all

lemma close_ocr_held:
  assumes "unique_documents d" and "find_document (oc_documentId c) d = Some r"
    and "ocr_token r = Some (oc_token c)"
  shows "fst (close_ocr op c d) \<noteq> Inr False"
  using assms(1)
proof (cases rule: close_ocr_cases [where op = op and c = c])
  case lost
  from lost(1) assms(2,3) show ?thesis by (simp add: ocr_held_token)
qed simp_all

lemma close_ocr_find:
  assumes "unique_documents d" and "close_ocr op c d = (Inr True, d')"
  shows "\<exists>r. find_document (oc_documentId c) d' = Some r \<and> ocr_token r = None"
  using assms(1)
proof (cases rule: close_ocr_cases [where op = op and c = c])
  case (closed r f d'')
  with assms(2) have "d'' = d'" by simp
  with closed find_update_document [OF closed(4), of "oc_documentId c" "oc_documentId c" "ocr_held c" d]
  show ?thesis by (simp add: find_document_def)
qed (use assms(2) in auto)

lemma close_ocr_shape:
  "fst (close_ocr op c d) = Inl e \<Longrightarrow> snd (close_ocr op c d) = d"
  "\<exists>f. (\<forall>x. d_id (f x) = d_id x) \<and>
    (documents (snd (close_ocr op c d)) = documents d \<or>
     documents (snd (close_ocr op c d)) = update_where (\<lambda>x. d_id x = oc_documentId c \<and> ocr_held c x) f (documents d))"
proof -
  show "fst (close_ocr op c d) = Inl e \<Longrightarrow> snd (close_ocr op c d) = d"
    by (cases op)
      (auto simp: markCompleted_def markFailed_ocr_def markExcluded_def releaseForRetry_def transaction_def
        Let_def finish_ocr_def bindE_def boss_send_def split: if_splits)
  show "\<exists>f. (\<forall>x. d_id (f x) = d_id x) \<and>
    (documents (snd (close_ocr op c d)) = documents d \<or>
     documents (snd (close_ocr op c d)) = update_where (\<lambda>x. d_id x = oc_documentId c \<and> ocr_held c x) f (documents d))"
  proof (cases op)
    case Close_completed
    then show ?thesis
      by (intro exI [of _ "\<lambda>r. r\<lparr>d_ocrStatus := ocr_outcome_status Outcome_COMPLETED\<rparr>"])
        (auto simp: markCompleted_def finish_ocr_def transaction_def Let_def)
  next
    case Close_ocr_failed
    then show ?thesis
      by (intro exI [of _ "\<lambda>r. r\<lparr>d_ocrStatus := ocr_outcome_status Outcome_FAILED\<rparr>"])
        (auto simp: markFailed_ocr_def finish_ocr_def transaction_def Let_def)
  next
    case Close_excluded
    then show ?thesis
      by (intro exI [of _ "\<lambda>r. r\<lparr>d_ocrStatus := EXCLUDED\<rparr>"]) (simp add: markExcluded_def)
  next
    case Close_retry
    then show ?thesis
      by (intro exI [of _ "\<lambda>r. r\<lparr>d_ocrStatus := PENDING, d_ocrStartedAt := None\<rparr>"])
        (auto simp: releaseForRetry_def transaction_def Let_def bindE_def boss_send_def)
  qed
qed

lemma close_ocr_other:
  assumes "j \<noteq> oc_documentId c"
  shows "find_document j (snd (close_ocr op c d)) = find_document j d"
proof -
  obtain f where f: "\<And>x. d_id (f x) = d_id x"
    and shape: "documents (snd (close_ocr op c d)) = documents d \<or>
     documents (snd (close_ocr op c d)) = documents (update_document (oc_documentId c) (ocr_held c) f d)"
    using close_ocr_shape(2) [of op c d] by auto
  from shape find_update_document [of f j "oc_documentId c" "ocr_held c" d, OF f] assms show ?thesis
    by (auto simp: find_document_def)
qed

lemma close_ocr_unique: "unique_documents d \<Longrightarrow> unique_documents (snd (close_ocr op c d))"
  using close_ocr_shape(2) [of op c d] by (auto simp: unique_documents_def table_simps)

interpretation ocr_claims: fenced_claim ocr_token claim_ocr close_ocr oc_documentId oc_token
proof unfold_locales
  fix d i lease now c d'
  assume u: "unique_documents d" and given: "claim_ocr i lease now d = (Inr (Some c), d')"
  obtain r where r: "find_document i d = Some r" "ocr_claimable lease now r"
      "c = to_ocr_claim now (start_ocr now r)" "find_document i d' = Some (start_ocr now r)"
    using claim_ocr_given [OF u given] by metis
  have "d_id r = i" using r(1) by (simp add: find_document_SomeD)
  with r(3) have "oc_documentId c = i" "oc_token c = now" by (simp_all add: to_ocr_claim_def)
  moreover have "ocr_token (start_ocr now r) = Some now"
    by (simp add: ocr_token_def start_ocr_def)
  ultimately show "oc_documentId c = i \<and> oc_token c = now \<and>
      (\<exists>r. find_document i d' = Some r \<and> ocr_token r = Some now) \<and>
      (\<forall>r. find_document i d = Some r \<longrightarrow>
        ocr_token r = None \<or> (\<exists>t. ocr_token r = Some t \<and> t < now - 1000000 * lease))"
    using ocr_claimable_token [OF r(2)] r(1,4) by simp
next
  show "d' = d" if "claim_ocr i lease now d = (Inr None, d')" for i lease now d d'
    using that by (auto simp: claim_ocr_def split: option.splits)
  show "fst (claim_ocr i lease now d) \<noteq> Inl e" for i lease now d e
    by (auto simp: claim_ocr_def split: option.splits)
  show "find_document j (snd (claim_ocr i lease now d)) = find_document j d" if "j \<noteq> i" for j i lease now d
    using that find_update_document [of "start_ocr now" j i "ocr_claimable lease now" d]
    by (auto simp: claim_ocr_def split: option.splits)
  show "unique_documents (snd (claim_ocr i lease now d))" if "unique_documents d" for i lease now d
    using that by (auto simp: claim_ocr_def unique_update split: option.splits)
  show "snd (close_ocr op c d) = d \<and> fst (close_ocr op c d) \<noteq> Inr True"
    if u: "unique_documents d" and "\<not> (\<exists>r. find_document (oc_documentId c) d = Some r \<and> ocr_token r = Some (oc_token c))"
    for op c d
    using that by (rule close_ocr_lost)
  show "fst (close_ocr op c d) \<noteq> Inr False"
    if u: "unique_documents d" and "find_document (oc_documentId c) d = Some r"
      and "ocr_token r = Some (oc_token c)" for op c d r
    using that by (rule close_ocr_held)
  show "\<exists>r. find_document (oc_documentId c) d' = Some r \<and> ocr_token r = None"
    if "unique_documents d" "close_ocr op c d = (Inr True, d')" for op c d d'
    using that by (rule close_ocr_find)
  show "d' = d" if "close_ocr op c d = (Inl e, d')" for op c d d' e
    using close_ocr_shape(1) [of op c d e] that by simp
  show "find_document j (snd (close_ocr op c d)) = find_document j d" if "j \<noteq> oc_documentId c" for j c op d
    using that by (rule close_ocr_other)
  show "unique_documents (snd (close_ocr op c d))" if "unique_documents d" for op c d
    using that by (rule close_ocr_unique)
qed

end
