(* ===== verification/Ocr_Document.thy ===== *)
theory Ocr_Document
  imports Ocr_Repository
begin

text \<open>
  The \<open>document.ocr\<close> job (apps/worker/src/ocr/ocr-document.ts) and what it uses: the normalization
  of a page (normalize-text.ts) and the answer of a provider (ocr-provider.ts). The provider, the
  SHA-256 of an object and Unicode's NFC are parameters; a provider's answer is any value, of which
  the code looks at whether its pages are an array (\<open>Some\<close>) and each page a string (\<open>Some\<close>).
  The calls of the job are numbered 0 (claim) to 4.
\<close>

section \<open>Normalization (normalize-text.ts)\<close>

text \<open>\<open>replace(/\r\n?/g, "\n")\<close>.\<close>

fun line_feeds :: "js_text \<Rightarrow> js_text" where
  "line_feeds [] = []"
| "line_feeds [u] = [if u = 0x0d then 0x0a else u]"
| "line_feeds (u # v # us) =
    (if u = 0x0d then 0x0a # (if v = 0x0a then line_feeds us else line_feeds (v # us))
     else u # line_feeds (v # us))"

definition normalizeOcrText :: "(js_text \<Rightarrow> js_text) \<Rightarrow> js_text \<Rightarrow> js_text" where
  "normalizeOcrText nfc page = line_feeds (nfc page)"

lemma line_feeds_no_cr: "0x0d \<notin> set (line_feeds t)"
  by (induction t rule: line_feeds.induct) auto

lemma line_feeds_id: "0x0d \<notin> set t \<Longrightarrow> line_feeds t = t"
  by (induction t rule: line_feeds.induct) auto

lemma line_feeds_no_nul: "0 \<notin> set t \<Longrightarrow> 0 \<notin> set (line_feeds t)"
  by (induction t rule: line_feeds.induct) auto

section \<open>The provider (ocr-provider.ts)\<close>

record ocr_input =
  in_content :: bytes
  in_contentType :: string
  in_maxPages :: int

record ocr_output =
  out_pages :: "js_text option list option"
  out_engineVersion :: "string option"

section \<open>The job (ocr-document.ts)\<close>

record ocr_deps =
  od_recognize :: "ocr_input \<Rightarrow> exn + ocr_output"
  od_engine :: string
  od_sha256 :: "bytes \<Rightarrow> string"
  od_nfc :: "js_text \<Rightarrow> js_text"
  od_imageRepresentation :: ocr_representation
  od_pdfAllowed :: bool
  od_maxAttempts :: int
  od_leaseSeconds :: int
  od_maxPages :: int
  od_retryDelaySeconds :: int
  od_sent :: bool

datatype ocr_job_outcome =
  Ocr_skipped | Ocr_completed | Ocr_failed | Ocr_retry | Ocr_lost | Ocr_excluded

fun OCR_CONTENT_TYPES :: "document_file_type \<Rightarrow> string" where
  "OCR_CONTENT_TYPES PDF = ''application/pdf''"
| "OCR_CONTENT_TYPES JPEG = ''image/jpeg''"
| "OCR_CONTENT_TYPES PNG = ''image/png''"

definition MAX_RETRY_DELAY_SECONDS :: int where
  "MAX_RETRY_DELAY_SECONDS = 3600"

definition permanently :: "ocr_error_code \<Rightarrow> exn" where
  "permanently c = OcrProviderError permanent c None"

definition transiently :: "ocr_error_code \<Rightarrow> exn" where
  "transiently c = OcrProviderError transient c None"

fun classify :: "exn \<Rightarrow> ocr_error_kind \<times> ocr_error_code \<times> int option" where
  "classify (OcrProviderError k c s) = (k, c, s)"
| "classify e = (transient, provider_error, None)"

text \<open>Call 2 reads the object.\<close>

definition readRepresentation :: "call_env \<Rightarrow> ocr_claim \<Rightarrow> ocr_representation \<Rightarrow> bytes io" where
  "readRepresentation env claim representation =
    (case (if representation = ORIGINAL then Some (oc_storageKey claim) else oc_sanitizedStorageKey claim) of
       None \<Rightarrow> throwE (permanently object_missing)
     | Some key \<Rightarrow>
         if key = [] then throwE (permanently object_missing)
         else bindE
           (catchE (call env 2 (\<lambda>_. getObject key))
             (\<lambda>e. case e of
                StorageObjectNotFoundError _ \<Rightarrow> throwE (permanently object_missing)
              | _ \<Rightarrow> throwE (transiently storage_unavailable)))
           (\<lambda>content.
              if representation = ORIGINAL \<and> int (length content) \<noteq> oc_fileSize claim
              then throwE (permanently object_mismatch) else returnE content))"

text \<open>The provider's answer, refused unless it is one string per page with no U+0000.\<close>

definition recognize :: "ocr_deps \<Rightarrow> ocr_input \<Rightarrow> exn + (js_text list \<times> string option)" where
  "recognize deps input =
    (case od_recognize deps input of
       Inl e \<Rightarrow> Inl e
     | Inr outp \<Rightarrow>
         (case out_pages outp of
            None \<Rightarrow> Inl (transiently invalid_response)
          | Some answers \<Rightarrow>
              if answers = [] \<or> None \<in> set answers then Inl (transiently invalid_response)
              else let pages = map the answers
                   in if list_ex (\<lambda>page. 0 \<in> set page) pages then Inl (permanently invalid_response)
                      else Inr (pages, out_engineVersion outp)))"

text \<open>
  The body of the \<open>try\<close>. A failure carries what was known of the execution: the digest of the
  object and the engine's version.
\<close>

record ocr_failure =
  of_error :: exn
  of_processedSha256 :: "string option"
  of_engineVersion :: "string option"

record ocr_reading =
  rd_pages :: "js_text list"
  rd_processedSha256 :: string
  rd_engineVersion :: "string option"

definition read_pages :: "ocr_deps \<Rightarrow> document_file_type \<Rightarrow> bytes \<Rightarrow> ocr_failure + ocr_reading" where
  "read_pages deps fileType content =
    (let sha = od_sha256 deps content
     in case recognize deps \<lparr>in_content = content, in_contentType = OCR_CONTENT_TYPES fileType,
               in_maxPages = od_maxPages deps\<rparr> of
          Inl e \<Rightarrow> Inl \<lparr>of_error = e, of_processedSha256 = Some sha, of_engineVersion = None\<rparr>
        | Inr (pages, version) \<Rightarrow>
            if od_maxPages deps < int (length pages)
            then Inl \<lparr>of_error = permanently too_many_pages, of_processedSha256 = Some sha,
                      of_engineVersion = version\<rparr>
            else Inr \<lparr>rd_pages = map (normalizeOcrText (od_nfc deps)) pages,
                      rd_processedSha256 = sha, rd_engineVersion = version\<rparr>)"

definition read_document ::
  "ocr_deps \<Rightarrow> call_env \<Rightarrow> ocr_claim \<Rightarrow> ocr_representation \<Rightarrow> world \<Rightarrow> (ocr_failure + ocr_reading) \<times> world" where
  "read_document deps env claim representation w =
    (case readRepresentation env claim representation w of
       (Inl e, w) \<Rightarrow> (Inl \<lparr>of_error = e, of_processedSha256 = None, of_engineVersion = None\<rparr>, w)
     | (Inr content, w) \<Rightarrow> (read_pages deps (oc_fileType claim) content, w))"

definition retry_delay :: "ocr_deps \<Rightarrow> ocr_claim \<Rightarrow> int" where
  "retry_delay deps claim =
     min (od_retryDelaySeconds deps * 2 ^ nat (oc_attempts claim - 1)) MAX_RETRY_DELAY_SECONDS"

text \<open>The \<open>catch\<close>: call 3 ends the claim, as failed or with a delayed retry.\<close>

definition ocr_attempt_failed ::
  "ocr_deps \<Rightarrow> call_env \<Rightarrow> uuid \<Rightarrow> ocr_claim \<Rightarrow> ocr_representation \<Rightarrow> ocr_failure \<Rightarrow> ocr_job_outcome io" where
  "ocr_attempt_failed deps env newId claim representation failure = (\<lambda>w.
     case classify (of_error failure) of
       (kind, errorCode, httpStatus) \<Rightarrow>
         (if kind = permanent \<or> od_maxAttempts deps \<le> oc_attempts claim
          then bindE (call env 3 (\<lambda>now. in_db (markFailed_ocr now claim
                 \<lparr>ex_id = newId, ex_engine = od_engine deps, ex_engineVersion = of_engineVersion failure,
                  ex_representation = Some representation,
                  ex_processedSha256 = of_processedSha256 failure, ex_errorCode = errorCode\<rparr>)))
                 (\<lambda>recorded. returnE (if recorded then Ocr_failed else Ocr_lost))
          else bindE (call env 3 (\<lambda>_. in_db (releaseForRetry (od_sent deps) claim (retry_delay deps claim))))
                 (\<lambda>released. returnE (if released then Ocr_retry else Ocr_lost)))
         (logging (Ocr_error (oc_documentId claim) errorCode kind httpStatus (oc_attempts claim)) w))"

definition ocr_treat :: "ocr_deps \<Rightarrow> call_env \<Rightarrow> uuid \<Rightarrow> ocr_claim \<Rightarrow> ocr_job_outcome io" where
  "ocr_treat deps env newId claim =
    (if oc_fileType claim = PDF \<and> \<not> od_pdfAllowed deps
     then bindE (call env 1 (\<lambda>_. in_db (markExcluded claim)))
            (\<lambda>recorded. returnE (if recorded then Ocr_excluded else Ocr_lost))
     else (\<lambda>w.
       let representation = (if oc_fileType claim = PDF then ORIGINAL else od_imageRepresentation deps)
       in case read_document deps env claim representation w of
            (Inl failure, w) \<Rightarrow> ocr_attempt_failed deps env newId claim representation failure w
          | (Inr reading, w) \<Rightarrow>
              bindE (call env 4 (\<lambda>now. in_db (markCompleted now claim
                  \<lparr>ex_id = newId, ex_engine = od_engine deps, ex_engineVersion = rd_engineVersion reading,
                   ex_representation = Some representation,
                   ex_processedSha256 = Some (rd_processedSha256 reading),
                   ex_pages = int (length (rd_pages reading))\<rparr> (rd_pages reading))))
                (\<lambda>recorded. returnE (if recorded then Ocr_completed else Ocr_lost)) w))"

definition ocrDocument :: "ocr_deps \<Rightarrow> call_env \<Rightarrow> uuid \<Rightarrow> uuid \<Rightarrow> ocr_job_outcome io" where
  "ocrDocument deps env newId documentId =
     bindE (call env 0 (\<lambda>now. in_db (claim_ocr documentId (od_leaseSeconds deps) now)))
       (\<lambda>claimed. case claimed of
          None \<Rightarrow> returnE Ocr_skipped
        | Some claim \<Rightarrow> ocr_treat deps env newId claim)"

section \<open>What a reading is\<close>

lemma read_pages_Inr:
  assumes "read_pages deps t content = Inr reading"
  shows "0 < length (rd_pages reading)" and "int (length (rd_pages reading)) \<le> od_maxPages deps"
    and "\<exists>answers version. od_recognize deps \<lparr>in_content = content, in_contentType = OCR_CONTENT_TYPES t,
        in_maxPages = od_maxPages deps\<rparr> = Inr \<lparr>out_pages = Some (map Some answers), out_engineVersion = version\<rparr> \<and>
      rd_pages reading = map (normalizeOcrText (od_nfc deps)) answers \<and>
      list_all (\<lambda>page. 0 \<notin> set page) answers"
proof -
  let ?in = "\<lparr>in_content = content, in_contentType = OCR_CONTENT_TYPES t, in_maxPages = od_maxPages deps\<rparr>"
  obtain outp answers where out: "od_recognize deps ?in = Inr outp" "out_pages outp = Some answers"
      "answers \<noteq> []" "None \<notin> set answers" "\<not> list_ex (\<lambda>page. 0 \<in> set page) (map the answers)"
      "int (length answers) \<le> od_maxPages deps"
      "rd_pages reading = map (normalizeOcrText (od_nfc deps)) (map the answers)"
    using assms
    by (auto simp: read_pages_def recognize_def Let_def split: sum.splits option.splits if_splits prod.splits)
  have "answers = map Some (map the answers)"
    using out(4) by (induction answers) auto
  moreover have "outp = \<lparr>out_pages = out_pages outp, out_engineVersion = out_engineVersion outp\<rparr>" by simp
  ultimately show "\<exists>answers version. od_recognize deps ?in = Inr \<lparr>out_pages = Some (map Some answers), out_engineVersion = version\<rparr> \<and>
      rd_pages reading = map (normalizeOcrText (od_nfc deps)) answers \<and>
      list_all (\<lambda>page. 0 \<notin> set page) answers"
    using out by (metis (no_types, lifting) list_all_iff list_ex_iff)
  show "0 < length (rd_pages reading)" "int (length (rd_pages reading)) \<le> od_maxPages deps"
    using out by simp_all
qed

end
