(* ===== verification/Worker_Queue.thy ===== *)
theory Worker_Queue
  imports Scan_Document Ocr_Document
begin

text \<open>
  What the worker does beside the two treatments (apps/worker/src/queue.ts, ocr/ocr-queue.ts,
  ocr/ocr-activation.ts): it takes abandoned claims back, redoes what an administrator asked for,
  activates the OCR, and handles the jobs of its four queues. A sweep sees each row at its own
  instant (\<open>clock_timestamp()\<close>), skips the rows another transaction has locked, and is one
  transaction.
\<close>

section \<open>Rows a statement touches\<close>

definition update_all :: "(document_row \<Rightarrow> bool) \<Rightarrow> (document_row \<Rightarrow> document_row) \<Rightarrow> db \<Rightarrow> db" where
  "update_all P f d = d\<lparr>documents := update_where P f (documents d)\<rparr>"

fun for_each :: "('a \<Rightarrow> unit tx) \<Rightarrow> 'a list \<Rightarrow> unit tx" where
  "for_each f [] = returnE ()"
| "for_each f (x # xs) = bindE (f x) (\<lambda>_. for_each f xs)"

section \<open>Recovery of the security treatment (queue.ts)\<close>

record sweep_env =
  sw_locked :: "uuid \<Rightarrow> bool"
  sw_now :: "uuid \<Rightarrow> time"
  sw_scannedAt :: "uuid \<Rightarrow> time"
  sw_sent :: "uuid \<Rightarrow> bool"

record sweep_options =
  so_leaseSeconds :: int
  so_maxAttempts :: int

record sweep_result =
  sr_requeued :: "uuid list"
  sr_failed :: "uuid list"

definition scan_abandoned :: "sweep_env \<Rightarrow> sweep_options \<Rightarrow> document_row \<Rightarrow> bool" where
  "scan_abandoned env opts r \<longleftrightarrow> d_status r = SCANNING \<and>
     older_than (d_scanStartedAt r) (sw_now env (d_id r)) (so_leaseSeconds opts)"

definition exhausted :: "sweep_env \<Rightarrow> sweep_options \<Rightarrow> document_row \<Rightarrow> bool" where
  "exhausted env opts r \<longleftrightarrow> \<not> sw_locked env (d_id r) \<and> scan_abandoned env opts r \<and>
     so_maxAttempts opts \<le> d_scanAttempts r"

definition recoverable :: "sweep_env \<Rightarrow> sweep_options \<Rightarrow> document_row \<Rightarrow> bool" where
  "recoverable env opts r \<longleftrightarrow> \<not> sw_locked env (d_id r) \<and>
     (d_status r = UPLOADED \<or> (scan_abandoned env opts r \<and> d_scanAttempts r < so_maxAttempts opts))"

definition give_up_row :: "sweep_env \<Rightarrow> document_row \<Rightarrow> document_row" where
  "give_up_row env r = r\<lparr>d_status := SCAN_FAILED, d_scannedAt := Some (sw_scannedAt env (d_id r))\<rparr>"

definition audit_given_up :: "sweep_env \<Rightarrow> document_row \<Rightarrow> unit tx" where
  "audit_given_up env r = (\<lambda>d.
     (Inr (), insert_audit (system_entry ''document.scan_failed'' (d_id r) (d_caseId r)
        [(''status'', JStr ''SCAN_FAILED''), (''attempts'', JNum (d_scanAttempts r))])
        (sw_scannedAt env (d_id r)) d))"

definition send_scan :: "(uuid \<Rightarrow> bool) \<Rightarrow> uuid \<Rightarrow> unit tx" where
  "send_scan sent i = boss_send (sent i) ''a document.scan job was not enqueued'' DOCUMENT_SCAN_QUEUE i 0"

definition sweepUntreatedDocuments :: "sweep_env \<Rightarrow> sweep_options \<Rightarrow> sweep_result tx" where
  "sweepUntreatedDocuments env opts = transaction (\<lambda>d.
     let failed = filter (exhausted env opts) (documents d);
         d = update_all (exhausted env opts) (give_up_row env) d
     in bindE (for_each (audit_given_up env) failed) (\<lambda>_ d.
          let requeued = filter (recoverable env opts) (documents d);
              d = update_all (recoverable env opts) release_row d
          in bindE (for_each (send_scan (sw_sent env)) (map d_id requeued))
               (\<lambda>_. returnE \<lparr>sr_requeued = map d_id requeued, sr_failed = map d_id failed\<rparr>) d) d)"

section \<open>Reprocessing asked for by an administrator (queue.ts)\<close>

datatype reprocess_outcome = Reprocessed | Reprocess_skipped

definition reprocess_row :: "document_row \<Rightarrow> document_row" where
  "reprocess_row r = r\<lparr>d_status := PENDING_SCAN, d_scanAttempts := 0, d_scanStartedAt := None,
     d_scannedAt := None, d_scanSignature := None, d_sanitizedStorageKey := None\<rparr>"

definition reprocessDocument :: "bool \<Rightarrow> time \<Rightarrow> uuid \<Rightarrow> reprocess_outcome tx" where
  "reprocessDocument sent now documentId = transaction (\<lambda>d.
     case find (\<lambda>r. d_id r = documentId \<and> d_status r = SCAN_FAILED) (documents d) of
       None \<Rightarrow> (Inr Reprocess_skipped, d)
     | Some r \<Rightarrow>
         let d = update_document documentId (\<lambda>r. d_status r = SCAN_FAILED) reprocess_row d
         in bindE (send_scan (\<lambda>_. sent) (d_id r))
              (\<lambda>_ d. (Inr Reprocessed, insert_audit
                 (system_entry ''document.scan_reprocessed'' (d_id r) (d_caseId r)
                   [(''status'', JStr ''PENDING_SCAN''), (''previousAttempts'', JNum (d_scanAttempts r))])
                 now d)) d)"

section \<open>Recovery of the OCR (ocr-queue.ts)\<close>

record ocr_sweep_env =
  os_locked :: "uuid \<Rightarrow> bool"
  os_now :: "uuid \<Rightarrow> time"
  os_newId :: "uuid \<Rightarrow> uuid"
  os_sent :: "uuid \<Rightarrow> bool"

record ocr_sweep_options = sweep_options +
  so_engine :: string

definition ocr_abandoned :: "ocr_sweep_env \<Rightarrow> ocr_sweep_options \<Rightarrow> document_row \<Rightarrow> bool" where
  "ocr_abandoned env opts r \<longleftrightarrow> \<not> os_locked env (d_id r) \<and> d_ocrStatus r = PROCESSING \<and>
     older_than (d_ocrStartedAt r) (os_now env (d_id r)) (so_leaseSeconds opts)"

definition abandoned_result :: "ocr_sweep_env \<Rightarrow> ocr_sweep_options \<Rightarrow> document_row \<Rightarrow> ocr_result_row" where
  "abandoned_result env opts r =
     \<lparr>r_id = os_newId env (d_id r), r_documentId = d_id r, r_outcome = Outcome_FAILED,
      r_engine = so_engine opts, r_engineVersion = None, r_representation = None,
      r_processedSha256 = None, r_pages = None, r_attempts = d_ocrAttempts r,
      r_startedAt = d_ocrStartedAt r, r_finishedAt = os_now env (d_id r), r_errorCode = Some abandoned\<rparr>"

text \<open>One row of the loop: given up with its result and event, or queued again.\<close>

definition sweep_ocr_row :: "ocr_sweep_env \<Rightarrow> ocr_sweep_options \<Rightarrow> document_row \<Rightarrow> unit tx" where
  "sweep_ocr_row env opts r = (\<lambda>d.
     if so_maxAttempts opts \<le> d_ocrAttempts r then
       let d = update_document (d_id r) (\<lambda>_. True) (\<lambda>r. r\<lparr>d_ocrStatus := FAILED\<rparr>) d
       in if result_violates (abandoned_result env opts r) [] d
          then (Inl (PrismaError (KnownRequestError ''P2010'' (Some ''23505''))), d)
          else (Inr (), insert_audit
             (system_entry ''document.ocr_failed'' (d_id r) (d_caseId r)
               [(''status'', JStr ''FAILED''), (''code'', JStr ''abandoned''),
                (''attempts'', JNum (d_ocrAttempts r))]) (os_now env (d_id r))
             (d\<lparr>ocrResults := ocrResults d @ [abandoned_result env opts r]\<rparr>))
     else enqueueOcr (os_sent env (d_id r)) (d_id r)
       (update_document (d_id r) (\<lambda>_. True) (\<lambda>r. r\<lparr>d_ocrStatus := PENDING, d_ocrStartedAt := None\<rparr>) d))"

definition sweepAbandonedOcr :: "ocr_sweep_env \<Rightarrow> ocr_sweep_options \<Rightarrow> sweep_result tx" where
  "sweepAbandonedOcr env opts = transaction (\<lambda>d.
     let rows = filter (ocr_abandoned env opts) (documents d)
     in bindE (for_each (sweep_ocr_row env opts) rows)
          (\<lambda>_. returnE
             \<lparr>sr_requeued = map d_id (filter (\<lambda>r. d_ocrAttempts r < so_maxAttempts opts) rows),
              sr_failed = map d_id (filter (\<lambda>r. so_maxAttempts opts \<le> d_ocrAttempts r) rows)\<rparr>) d)"

definition ocr_reprocess_row :: "document_row \<Rightarrow> document_row" where
  "ocr_reprocess_row r = r\<lparr>d_ocrStatus := PENDING, d_ocrAttempts := 0, d_ocrStartedAt := None\<rparr>"

definition reprocessOcr :: "bool \<Rightarrow> time \<Rightarrow> uuid \<Rightarrow> reprocess_outcome tx" where
  "reprocessOcr sent now documentId = transaction (\<lambda>d.
     case find (\<lambda>r. d_id r = documentId \<and> d_status r = CLEAN \<and> d_ocrStatus r = FAILED) (documents d) of
       None \<Rightarrow> (Inr Reprocess_skipped, d)
     | Some r \<Rightarrow>
         let d = update_document documentId (\<lambda>r. d_status r = CLEAN \<and> d_ocrStatus r = FAILED)
                   ocr_reprocess_row d
         in bindE (enqueueOcr sent (d_id r))
              (\<lambda>_ d. (Inr Reprocessed, insert_audit
                 (system_entry ''document.ocr_reprocessed'' (d_id r) (d_caseId r)
                   [(''status'', JStr ''PENDING''), (''previousAttempts'', JNum (d_ocrAttempts r))])
                 now d)) d)"

section \<open>Activation of the OCR (ocr-activation.ts)\<close>

record ocr_activation_result =
  ar_excluded :: nat
  ar_notApplicable :: nat

definition not_started_in :: "document_status \<Rightarrow> document_row \<Rightarrow> bool" where
  "not_started_in s r \<longleftrightarrow> d_status r = s \<and> d_ocrStatus r = NOT_STARTED"

definition countViolations :: "db \<Rightarrow> nat" where
  "countViolations d = count_where (not_started_in CLEAN) (documents d)"

definition activateOcr :: "ocr_activation_result tx" where
  "activateOcr = transaction (\<lambda>d.
     let excluded = count_where (not_started_in CLEAN) (documents d);
         d = update_all (not_started_in CLEAN) (\<lambda>r. r\<lparr>d_ocrStatus := EXCLUDED\<rparr>) d;
         notApplicable = count_where (not_started_in INFECTED) (documents d);
         d = update_all (not_started_in INFECTED) (\<lambda>r. r\<lparr>d_ocrStatus := NOT_APPLICABLE\<rparr>) d
     in if 0 < countViolations d
        then (Inl (Error ''OCR activation invariant does not hold''), d)
        else (Inr \<lparr>ar_excluded = excluded, ar_notApplicable = notApplicable\<rparr>, d))"

record ocr_startup =
  st_provider :: "bool option"
  st_pdfEnabled :: bool
  st_pdfP7Resolved :: bool

text \<open>\<open>st_provider\<close> is whether the configured provider is external, or None without one.\<close>

definition assertOcrStartupPreconditions :: "ocr_startup \<Rightarrow> db \<Rightarrow> exn + unit" where
  "assertOcrStartupPreconditions check d =
    (case st_provider check of
       None \<Rightarrow> Inl (Error ''OCR cannot start: no OCR provider is configured (decision P4 is open)'')
     | Some external \<Rightarrow>
         if st_pdfEnabled check \<and> external \<and> \<not> st_pdfP7Resolved check
         then Inl (Error ''OCR cannot start: PDF OCR with an external provider requires P7 to be resolved'')
         else if 0 < countViolations d
         then Inl (Error ''OCR cannot start: CLEAN documents have ocr_status NOT_STARTED; run the OCR activation first'')
         else Inr ())"

section \<open>The handlers of the four queues (queue.ts, ocr-queue.ts)\<close>

text \<open>
  A job has its id and a payload; the schema's \<open>safeParse\<close> gives the document id, or None for
  anything but one. What a handler logs is the job, the document and the outcome.
\<close>

fun scan_outcome_name :: "scan_outcome \<Rightarrow> string" where
  "scan_outcome_name Skipped = ''skipped''"
| "scan_outcome_name Clean = ''clean''"
| "scan_outcome_name Infected = ''infected''"
| "scan_outcome_name Failed = ''failed''"
| "scan_outcome_name Lost = ''lost''"

fun ocr_outcome_name :: "ocr_job_outcome \<Rightarrow> string" where
  "ocr_outcome_name Ocr_skipped = ''skipped''"
| "ocr_outcome_name Ocr_completed = ''completed''"
| "ocr_outcome_name Ocr_failed = ''failed''"
| "ocr_outcome_name Ocr_retry = ''retry''"
| "ocr_outcome_name Ocr_lost = ''lost''"
| "ocr_outcome_name Ocr_excluded = ''excluded''"

fun reprocess_outcome_name :: "reprocess_outcome \<Rightarrow> string" where
  "reprocess_outcome_name Reprocessed = ''reprocessed''"
| "reprocess_outcome_name Reprocess_skipped = ''skipped''"

definition handle :: "string \<Rightarrow> ('o \<Rightarrow> string) \<Rightarrow> (uuid \<Rightarrow> 'o io) \<Rightarrow> uuid \<Rightarrow> uuid option \<Rightarrow> unit io" where
  "handle invalid outcome_name run jobId payload =
    (case payload of
       None \<Rightarrow> throwE (Error invalid)
     | Some documentId \<Rightarrow>
         bindE (run documentId)
           (\<lambda>outcome w. (Inr (), logging (Outcome jobId documentId (outcome_name outcome)) w)))"

definition workDocumentScans :: "scan_deps \<Rightarrow> call_env \<Rightarrow> uuid \<Rightarrow> uuid option \<Rightarrow> unit io" where
  "workDocumentScans deps env =
     handle ''invalid document.scan payload'' scan_outcome_name (scanDocument deps env)"

definition workDocumentReprocesses :: "call_env \<Rightarrow> bool \<Rightarrow> uuid \<Rightarrow> uuid option \<Rightarrow> unit io" where
  "workDocumentReprocesses env sent =
     handle ''invalid document.reprocess payload'' reprocess_outcome_name
       (\<lambda>i. call env 0 (\<lambda>now. in_db (reprocessDocument sent now i)))"

definition workDocumentOcr :: "ocr_deps \<Rightarrow> call_env \<Rightarrow> uuid \<Rightarrow> uuid \<Rightarrow> uuid option \<Rightarrow> unit io" where
  "workDocumentOcr deps env newId =
     handle ''invalid document.ocr payload'' ocr_outcome_name (ocrDocument deps env newId)"

definition workDocumentOcrReprocesses :: "call_env \<Rightarrow> bool \<Rightarrow> uuid \<Rightarrow> uuid option \<Rightarrow> unit io" where
  "workDocumentOcrReprocesses env sent =
     handle ''invalid document.ocr_reprocess payload'' reprocess_outcome_name
       (\<lambda>i. call env 0 (\<lambda>now. in_db (reprocessOcr sent now i)))"

text \<open>The worker's sweep (main.ts): the security treatment, then the OCR once it runs.\<close>

definition worker_sweep ::
  "call_env \<Rightarrow> sweep_env \<Rightarrow> sweep_options \<Rightarrow> (ocr_sweep_env \<times> ocr_sweep_options) option \<Rightarrow> sweep_result io" where
  "worker_sweep env senv sopts ocr =
     bindE (call env 0 (\<lambda>_. in_db (sweepUntreatedDocuments senv sopts)))
       (\<lambda>scan. case ocr of
          None \<Rightarrow> returnE scan
        | Some (oenv, oopts) \<Rightarrow>
            bindE (call env 1 (\<lambda>_. in_db (sweepAbandonedOcr oenv oopts)))
              (\<lambda>o'. returnE \<lparr>sr_requeued = sr_requeued scan @ sr_requeued o',
                            sr_failed = sr_failed scan @ sr_failed o'\<rparr>))"

section \<open>The periodic sweep (queue.ts, startPeriodicSweep)\<close>

text \<open>
  The timer of \<open>setInterval\<close> fires while it is not cleared; a sweep answers some time later. A
  step gives the new state and whether it starts a sweep.
\<close>

record periodic =
  pr_timer :: bool
  pr_running :: bool
  pr_log :: "log_event list"

datatype periodic_event = Timer_fires | Sweep_answers "exn + sweep_result" | Stop_called

definition startPeriodicSweep :: periodic where
  "startPeriodicSweep = \<lparr>pr_timer = True, pr_running = False, pr_log = []\<rparr>"

definition sweep_log :: "exn + sweep_result \<Rightarrow> log_event list" where
  "sweep_log answer =
    (case answer of
       Inl e \<Rightarrow> [Sweep_failed e]
     | Inr r \<Rightarrow>
         if sr_requeued r \<noteq> [] \<or> sr_failed r \<noteq> []
         then [Sweep (length (sr_requeued r)) (length (sr_failed r))] else [])"

fun periodic_step :: "periodic_event \<Rightarrow> periodic \<Rightarrow> periodic \<times> bool" where
  "periodic_step Timer_fires p =
    (if \<not> pr_timer p \<or> pr_running p then (p, False) else (p\<lparr>pr_running := True\<rparr>, True))"
| "periodic_step (Sweep_answers answer) p =
    (p\<lparr>pr_running := False, pr_log := pr_log p @ sweep_log answer\<rparr>, False)"
| "periodic_step Stop_called p = (p\<lparr>pr_timer := False\<rparr>, False)"

end
