(* ===== verification/Cases.thy ===== *)
theory Cases
  imports Auth_Service
begin

text \<open>
  The cases module (apps/api/src/modules/cases): the state machine of case-status.ts, the
  repository, the public shapes and the service. A case is created in \<open>DRAFT\<close> with its first
  history entry and its event, and no transition is enabled yet.
\<close>

section \<open>The state machine (case-status.ts)\<close>

definition INITIAL_CASE_STATUS :: case_status where
  "INITIAL_CASE_STATUS = DRAFT"

datatype transition_basis = Explicit | Inferred

datatype transition_actor = System | Professional | Pending

datatype transition_phase =
  Questionnaire_or_documents | Documents | Pricing | Payments | Professionals

datatype transition_id = T1 | T2 | T3 | T4 | T5 | T6 | T7 | T8 | T9 | T10

record case_transition =
  ct_id :: transition_id
  ct_from :: case_status
  ct_to :: case_status
  ct_basis :: transition_basis
  ct_trigger :: string
  ct_actor :: transition_actor
  ct_phase :: transition_phase
  ct_enabled :: bool

definition CASE_TRANSITIONS :: "case_transition list" where
  "CASE_TRANSITIONS =
    [\<lparr>ct_id = T1, ct_from = DRAFT, ct_to = DOCUMENTS_PENDING, ct_basis = Inferred,
      ct_trigger = ''Datos iniciales completos (s.9 paso 3)'', ct_actor = Pending,
      ct_phase = Questionnaire_or_documents, ct_enabled = False\<rparr>,
     \<lparr>ct_id = T2, ct_from = DOCUMENTS_PENDING, ct_to = PRELIMINARY_ANALYSIS, ct_basis = Inferred,
      ct_trigger = ''Documentos cargados; el sistema realiza OCR y extraccion (s.9 pasos 4-5)'',
      ct_actor = System, ct_phase = Documents, ct_enabled = False\<rparr>,
     \<lparr>ct_id = T3, ct_from = PRELIMINARY_ANALYSIS, ct_to = PAYMENT_PENDING, ct_basis = Inferred,
      ct_trigger = ''Valoracion y oferta (s.5; s.9 paso 7)'', ct_actor = Pending,
      ct_phase = Pricing, ct_enabled = False\<rparr>,
     \<lparr>ct_id = T4, ct_from = PAYMENT_PENDING, ct_to = PAID, ct_basis = Explicit,
      ct_trigger = ''Webhook de pago verificado, nunca el frontend (s.9 paso 9; s.23)'',
      ct_actor = System, ct_phase = Payments, ct_enabled = False\<rparr>,
     \<lparr>ct_id = T5, ct_from = PAID, ct_to = LEGAL_REVIEW, ct_basis = Inferred,
      ct_trigger = ''Apertura formal y gestion (s.9 pasos 9-10)'', ct_actor = Pending,
      ct_phase = Professionals, ct_enabled = False\<rparr>,
     \<lparr>ct_id = T6, ct_from = LEGAL_REVIEW, ct_to = DOCUMENT_PREPARATION, ct_basis = Inferred,
      ct_trigger = ''Analisis completo (s.9 paso 10; s.6 PROFESSIONAL: actualizar estados)'',
      ct_actor = Professional, ct_phase = Professionals, ct_enabled = False\<rparr>,
     \<lparr>ct_id = T7, ct_from = DOCUMENT_PREPARATION, ct_to = READY_TO_FILE, ct_basis = Inferred,
      ct_trigger = ''Documentos aprobados (s.9 paso 11; s.6 PROFESSIONAL: aprobar documentos)'',
      ct_actor = Professional, ct_phase = Professionals, ct_enabled = False\<rparr>,
     \<lparr>ct_id = T8, ct_from = READY_TO_FILE, ct_to = FILED, ct_basis = Inferred,
      ct_trigger = ''Actuacion registrada (s.6 PROFESSIONAL: registrar actuaciones); requiere V8'',
      ct_actor = Professional, ct_phase = Professionals, ct_enabled = False\<rparr>,
     \<lparr>ct_id = T9, ct_from = FILED, ct_to = WAITING_RESPONSE, ct_basis = Inferred,
      ct_trigger = ''Actuacion radicada (s.9 paso 12)'', ct_actor = Pending,
      ct_phase = Professionals, ct_enabled = False\<rparr>,
     \<lparr>ct_id = T10, ct_from = WAITING_RESPONSE, ct_to = RESPONSE_RECEIVED, ct_basis = Inferred,
      ct_trigger = ''Respuesta incorporada al expediente (s.9 paso 13)'',
      ct_actor = Professional, ct_phase = Professionals, ct_enabled = False\<rparr>]"

definition documentedTransitions :: "case_status \<Rightarrow> case_transition list" where
  "documentedTransitions a = filter (\<lambda>t. ct_from t = a) CASE_TRANSITIONS"

definition canTransition :: "case_status \<Rightarrow> case_status \<Rightarrow> bool" where
  "canTransition a b \<longleftrightarrow> (\<exists>t \<in> set CASE_TRANSITIONS. ct_from t = a \<and> ct_to t = b \<and> ct_enabled t)"

definition assertTransition :: "case_status \<Rightarrow> case_status \<Rightarrow> exn + case_transition" where
  "assertTransition a b =
    (case find (\<lambda>t. ct_from t = a \<and> ct_to t = b \<and> ct_enabled t) CASE_TRANSITIONS of
       None \<Rightarrow> Inl (InvalidCaseTransitionError a b)
     | Some t \<Rightarrow> Inr t)"

section \<open>Repository (cases.repository.ts)\<close>

record create_case_input =
  cc_userId :: uuid
  cc_type :: case_type
  cc_audit :: "case_row \<Rightarrow> audit_entry"

definition createCase_repo :: "uuid \<Rightarrow> uuid \<Rightarrow> time \<Rightarrow> create_case_input \<Rightarrow> case_row tx" where
  "createCase_repo newId historyId now input = transaction (\<lambda>d.
     let created = \<lparr>c_id = newId, c_userId = cc_userId input, c_type = cc_type input,
           c_status = DRAFT, c_createdAt = now, c_updatedAt = now\<rparr>
     in if \<exists>c \<in> set (cases d). c_id c = newId then (Inl P2002, d)
        else
          let d = d\<lparr>cases := cases d @ [created]\<rparr>;
              d = d\<lparr>caseHistory := caseHistory d @
                    [\<lparr>h_id = historyId, h_caseId = c_id created, h_fromStatus = None,
                      h_toStatus = DRAFT, h_changedByUserId = cc_userId input,
                      h_changedAt = now\<rparr>]\<rparr>;
              d = insert_audit ((auditLogData (cc_audit input created))\<lparr>caseId := Some (c_id created)\<rparr>) now d
          in (Inr created, d))"

text \<open>\<open>ORDER BY created_at DESC, id DESC\<close>.\<close>

definition listOwnCases_repo :: "uuid \<Rightarrow> db \<Rightarrow> case_row list" where
  "listOwnCases_repo userId d =
     rev (sort_key (\<lambda>c. (c_createdAt c, c_id c)) (filter (\<lambda>c. c_userId c = userId) (cases d)))"

definition findOwnCase :: "uuid \<Rightarrow> uuid \<Rightarrow> db \<Rightarrow> (case_row \<times> status_change_row list) option" where
  "findOwnCase case_id userId d =
     (case find (\<lambda>c. c_id c = case_id \<and> c_userId c = userId) (cases d) of
        None \<Rightarrow> None
      | Some c \<Rightarrow> Some (c, sort_key (\<lambda>h. (h_changedAt h, h_id h))
                         (filter (\<lambda>h. h_caseId h = c_id c) (caseHistory d))))"

section \<open>Public shapes (cases.mapper.ts)\<close>

record public_case =
  pc_id :: uuid
  pc_type :: case_type
  pc_status :: case_status
  pc_createdAt :: time
  pc_updatedAt :: time

record public_status_change =
  ph_fromStatus :: "case_status option"
  ph_toStatus :: case_status
  ph_changedAt :: time

definition toPublicCase :: "case_row \<Rightarrow> public_case" where
  "toPublicCase c = \<lparr>pc_id = c_id c, pc_type = c_type c, pc_status = c_status c,
     pc_createdAt = c_createdAt c, pc_updatedAt = c_updatedAt c\<rparr>"

definition toPublicStatusChange :: "status_change_row \<Rightarrow> public_status_change" where
  "toPublicStatusChange h =
    \<lparr>ph_fromStatus = h_fromStatus h, ph_toStatus = h_toStatus h, ph_changedAt = h_changedAt h\<rparr>"

section \<open>Service (cases.service.ts)\<close>

text \<open>The names the enumerations have in the audit event.\<close>

fun case_type_name :: "case_type \<Rightarrow> string" where
  "case_type_name TRAFFIC_CITATION = ''TRAFFIC_CITATION''"
| "case_type_name INFRACTION = ''INFRACTION''"
| "case_type_name PHOTO_ENFORCEMENT = ''PHOTO_ENFORCEMENT''"
| "case_type_name TRANSPORT = ''TRANSPORT''"
| "case_type_name NOTIFICATION = ''NOTIFICATION''"
| "case_type_name ADMINISTRATIVE_PROCEEDING = ''ADMINISTRATIVE_PROCEEDING''"
| "case_type_name OTHER = ''OTHER''"

fun case_status_name :: "case_status \<Rightarrow> string" where
  "case_status_name DRAFT = ''DRAFT''"
| "case_status_name DOCUMENTS_PENDING = ''DOCUMENTS_PENDING''"
| "case_status_name PRELIMINARY_ANALYSIS = ''PRELIMINARY_ANALYSIS''"
| "case_status_name PAYMENT_PENDING = ''PAYMENT_PENDING''"
| "case_status_name PAID = ''PAID''"
| "case_status_name LEGAL_REVIEW = ''LEGAL_REVIEW''"
| "case_status_name DOCUMENT_PREPARATION = ''DOCUMENT_PREPARATION''"
| "case_status_name READY_TO_FILE = ''READY_TO_FILE''"
| "case_status_name FILED = ''FILED''"
| "case_status_name WAITING_RESPONSE = ''WAITING_RESPONSE''"
| "case_status_name RESPONSE_RECEIVED = ''RESPONSE_RECEIVED''"
| "case_status_name FOLLOW_UP = ''FOLLOW_UP''"
| "case_status_name RESOLVED = ''RESOLVED''"
| "case_status_name CLOSED = ''CLOSED''"
| "case_status_name CANCELLED = ''CANCELLED''"

definition createCase ::
  "uuid \<Rightarrow> uuid \<Rightarrow> time \<Rightarrow> current_user \<Rightarrow> case_type \<Rightarrow> request_context \<Rightarrow> public_case tx" where
  "createCase newId historyId now current ctype ctx =
     (if \<not> allowed (cases_can (cur_actor current) ''case:create'' (pu_id (cur_user current)))
      then throwE notFound
      else bindE (createCase_repo newId historyId now
              \<lparr>cc_userId = pu_id (cur_user current), cc_type = ctype,
               cc_audit = (\<lambda>r. (current_entry ''case.created'' ctx current ''Case'' (c_id r))
                 \<lparr>newValue := Some [(''type'', JStr (case_type_name (c_type r))),
                                   (''status'', JStr (case_status_name (c_status r)))]\<rparr>)\<rparr>)
             (\<lambda>created. returnE (toPublicCase created)))"

definition listOwnCases :: "current_user \<Rightarrow> db \<Rightarrow> exn + public_case list" where
  "listOwnCases current d =
     (if \<not> allowed (cases_can (cur_actor current) ''case:list'' (pu_id (cur_user current)))
      then Inl notFound
      else Inr (map toPublicCase (listOwnCases_repo (pu_id (cur_user current)) d)))"

definition readOwnCase ::
  "current_user \<Rightarrow> uuid \<Rightarrow> db \<Rightarrow> exn + (public_case \<times> public_status_change list)" where
  "readOwnCase current case_id d =
     (if \<not> allowed (cases_can (cur_actor current) ''case:read'' (pu_id (cur_user current)))
      then Inl notFound
      else (case findOwnCase case_id (pu_id (cur_user current)) d of
              None \<Rightarrow> Inl notFound
            | Some (c, hist) \<Rightarrow>
                if \<not> allowed (cases_can (cur_actor current) ''case:read'' (c_userId c))
                then Inl notFound
                else Inr (toPublicCase c, map toPublicStatusChange hist)))"

section \<open>The tables\<close>

text \<open>
  The case tables a step of this module, or of any other, may leave; every reachable state is
  well formed: identifiers are unique, every case is in \<open>DRAFT\<close> with one history entry, from
  nothing, by its owner, dated like the case.
\<close>

inductive case_step :: "db \<Rightarrow> db \<Rightarrow> bool" where
  case_step_create: "createCase newId historyId now current ctype ctx d = (r, d') \<Longrightarrow> case_step d d'"
| case_step_other: "cases d' = cases d \<Longrightarrow> caseHistory d' = caseHistory d \<Longrightarrow> case_step d d'"

definition cases_wf :: "db \<Rightarrow> bool" where
  "cases_wf d \<longleftrightarrow> distinct (map c_id (cases d)) \<and>
    (\<forall>h \<in> set (caseHistory d). h_caseId h \<in> c_id ` set (cases d)) \<and>
    (\<forall>c \<in> set (cases d). c_status c = DRAFT \<and> c_updatedAt c = c_createdAt c \<and>
      (\<exists>i. filter (\<lambda>h. h_caseId h = c_id c) (caseHistory d) =
        [\<lparr>h_id = i, h_caseId = c_id c, h_fromStatus = None, h_toStatus = DRAFT,
          h_changedByUserId = c_userId c, h_changedAt = c_createdAt c\<rparr>]))"

lemma createCase_Inr:
  assumes "createCase newId historyId now current ctype ctx d = (Inr pc, d')"
  shows "\<not> (\<exists>c \<in> set (cases d). c_id c = newId)"
    and "cases d' = cases d @ [\<lparr>c_id = newId, c_userId = pu_id (cur_user current), c_type = ctype,
           c_status = DRAFT, c_createdAt = now, c_updatedAt = now\<rparr>]"
    and "caseHistory d' = caseHistory d @ [\<lparr>h_id = historyId, h_caseId = newId, h_fromStatus = None,
           h_toStatus = DRAFT, h_changedByUserId = pu_id (cur_user current), h_changedAt = now\<rparr>]"
    and "allowed (cases_can (cur_actor current) ''case:create'' (pu_id (cur_user current)))"
    and "pc = \<lparr>pc_id = newId, pc_type = ctype, pc_status = DRAFT, pc_createdAt = now, pc_updatedAt = now\<rparr>"
  using assms
  by (auto simp: createCase_def createCase_repo_def Let_def bindE_eq_Inr toPublicCase_def
      split: if_splits)

lemma createCase_Inl:
  assumes "createCase newId historyId now current ctype ctx d = (Inl e, d')"
  shows "d' = d"
  using assms
  by (auto simp: createCase_def createCase_repo_def Let_def bindE_def transaction_def
      split: if_splits)

lemma cases_wf_create:
  assumes "cases_wf d" and "createCase newId historyId now current ctype ctx d = (r, d')"
  shows "cases_wf d'"
proof (cases r)
  case (Inl e)
  with assms createCase_Inl show ?thesis by blast
next
  case (Inr pc)
  note made = createCase_Inr [OF assms(2) [unfolded Inr]]
  let ?new = "\<lparr>c_id = newId, c_userId = pu_id (cur_user current), c_type = ctype,
           c_status = DRAFT, c_createdAt = now, c_updatedAt = now\<rparr>"
  have fresh: "filter (\<lambda>h. h_caseId h = newId) (caseHistory d) = []"
    using assms(1) made(1) by (fastforce simp: cases_wf_def filter_empty_conv)
  have "\<exists>i. filter (\<lambda>h. h_caseId h = c_id c) (caseHistory d') =
        [\<lparr>h_id = i, h_caseId = c_id c, h_fromStatus = None, h_toStatus = DRAFT,
          h_changedByUserId = c_userId c, h_changedAt = c_createdAt c\<rparr>]"
    if "c \<in> set (cases d')" for c
  proof (cases "c = ?new")
    case True
    then show ?thesis by (simp add: made(3) fresh)
  next
    case False
    with that made(2) have "c \<in> set (cases d)" by auto
    moreover from this made(1) have "c_id c \<noteq> newId" by blast
    ultimately show ?thesis using assms(1) by (auto simp: made(3) cases_wf_def)
  qed
  then show ?thesis
    using assms(1) made(1) by (fastforce simp: cases_wf_def made(2,3))
qed

lemma cases_wf_step: "case_step d d' \<Longrightarrow> cases_wf d \<Longrightarrow> cases_wf d'"
proof (induction rule: case_step.induct)
  case (case_step_create newId historyId now current ctype ctx d r d')
  then show ?case by (blast intro: cases_wf_create)
qed (simp add: cases_wf_def)

lemma cases_reach: "case_step\<^sup>*\<^sup>* empty_db d \<Longrightarrow> cases_wf d"
proof (induction rule: rtranclp_induct)
  case base
  show ?case by (simp add: cases_wf_def empty_db_def)
qed (rule cases_wf_step)

section \<open>Properties\<close>

text \<open>
  C38. In every reachable state every case is in \<open>DRAFT\<close> and has exactly one history entry,
  from nothing to \<open>DRAFT\<close>, by its owner, dated like the case.
\<close>

theorem cases_reachable_wf:
  assumes "case_step\<^sup>*\<^sup>* empty_db d"
  shows "cases_wf d"
  using assms by (rule cases_reach)

text \<open>
  No transition is allowed yet: \<open>assertTransition\<close> refuses every pair with the error that
  names it; and the documented ones form a single chain of ten steps that starts at the initial
  status, so a case could follow it in one order only and never come back.
\<close>

theorem transitions_closed:
  "assertTransition a b = Inl (InvalidCaseTransitionError a b) \<and> \<not> canTransition a b \<and>
   length (documentedTransitions a) \<le> 1 \<and>
   map ct_from CASE_TRANSITIONS = INITIAL_CASE_STATUS # butlast (map ct_to CASE_TRANSITIONS) \<and>
   distinct (INITIAL_CASE_STATUS # map ct_to CASE_TRANSITIONS)"
proof -
  have none: "\<not> ct_enabled t" if "t \<in> set CASE_TRANSITIONS" for t
    using that by (auto simp: CASE_TRANSITIONS_def)
  then have "find (\<lambda>t. ct_from t = a \<and> ct_to t = b \<and> ct_enabled t) CASE_TRANSITIONS = None"
    by (auto simp: find_None_iff)
  moreover have "\<not> canTransition a b"
    using none by (auto simp: canTransition_def)
  moreover have "length (documentedTransitions a) \<le> 1"
    by (cases a) (simp_all add: documentedTransitions_def CASE_TRANSITIONS_def)
  moreover have "map ct_from CASE_TRANSITIONS = INITIAL_CASE_STATUS # butlast (map ct_to CASE_TRANSITIONS)"
    by (simp add: CASE_TRANSITIONS_def INITIAL_CASE_STATUS_def)
  moreover have "distinct (INITIAL_CASE_STATUS # map ct_to CASE_TRANSITIONS)"
    by (simp add: CASE_TRANSITIONS_def INITIAL_CASE_STATUS_def)
  ultimately show ?thesis by (simp add: assertTransition_def)
qed

text \<open>
  What a user reads or lists depends on their own cases only: two databases with the same
  cases of the user and the same history of those answer alike, so another user's case cannot be
  told from one that does not exist.
\<close>

theorem cases_isolated:
  assumes "filter (\<lambda>c. c_userId c = pu_id (cur_user current)) (cases d1)
      = filter (\<lambda>c. c_userId c = pu_id (cur_user current)) (cases d2)"
    and "\<And>c. c \<in> set (cases d1) \<Longrightarrow> c_userId c = pu_id (cur_user current) \<Longrightarrow>
      filter (\<lambda>h. h_caseId h = c_id c) (caseHistory d1)
      = filter (\<lambda>h. h_caseId h = c_id c) (caseHistory d2)"
  shows "readOwnCase current i d1 = readOwnCase current i d2 \<and>
    listOwnCases current d1 = listOwnCases current d2"
proof -
  have find_filter: "find (\<lambda>c. c_id c = i \<and> c_userId c = u) cs
      = find (\<lambda>c. c_id c = i) (filter (\<lambda>c. c_userId c = u) cs)" for u and cs :: "case_row list"
    by (induction cs) auto
  have "findOwnCase i (pu_id (cur_user current)) d1 = findOwnCase i (pu_id (cur_user current)) d2"
    using assms(2) unfolding findOwnCase_def find_filter assms(1)
    by (auto split: option.splits dest!: find_SomeD simp flip: assms(1))
  then have "readOwnCase current i d1 = readOwnCase current i d2"
    unfolding readOwnCase_def by (simp only:)
  moreover have "listOwnCases current d1 = listOwnCases current d2"
    unfolding listOwnCases_def listOwnCases_repo_def assms(1) ..
  ultimately show ?thesis ..
qed

lemma created_case_reads:
  assumes "cases_wf d" and "createCase newId historyId now current ctype ctx d = (Inr pc, d')"
    and "cases d'' = cases d'" and "caseHistory d'' = caseHistory d'"
  shows "readOwnCase current newId d'' = Inr (pc, [\<lparr>ph_fromStatus = None, ph_toStatus = DRAFT,
      ph_changedAt = now\<rparr>]) \<and>
    (\<forall>other. pu_id (cur_user other) \<noteq> pu_id (cur_user current) \<longrightarrow>
      readOwnCase other newId d'' = Inl notFound)"
proof -
  note made = createCase_Inr [OF assms(2)]
  have fresh: "filter (\<lambda>h. h_caseId h = newId) (caseHistory d) = []"
    using assms(1) made(1) by (fastforce simp: cases_wf_def filter_empty_conv)
  have none: "find (\<lambda>c. c_id c = newId \<and> c_userId c = u) (cases d) = None" for u
    using made(1) by (auto simp: find_None_iff)
  have app: "find P (xs @ ys) = (case find P xs of None \<Rightarrow> find P ys | Some x \<Rightarrow> Some x)"
    for P :: "case_row \<Rightarrow> bool" and xs ys
    by (induction xs) auto
  have can: "allowed (cases_can (cur_actor current) ''case:read'' (pu_id (cur_user current)))"
    using made(4) by (auto simp: cases_can_def split: if_splits)
  show ?thesis
    using can
    by (auto simp: readOwnCase_def findOwnCase_def assms(3,4) made(2,3,5) app none fresh toPublicCase_def
        toPublicStatusChange_def)
qed

text \<open>
  A case that was just created is the one its owner reads, with its single history entry;
  nobody who is not its owner can read it.
\<close>

theorem createCase_then_read:
  assumes "case_step\<^sup>*\<^sup>* empty_db d"
    and "createCase newId historyId now current ctype ctx d = (Inr pc, d')"
  shows "readOwnCase current newId d' = Inr (pc, [\<lparr>ph_fromStatus = None, ph_toStatus = DRAFT,
      ph_changedAt = now\<rparr>]) \<and>
    (\<forall>other. pu_id (cur_user other) \<noteq> pu_id (cur_user current) \<longrightarrow>
      readOwnCase other newId d' = Inl notFound)"
  using created_case_reads [OF cases_reach [OF assms(1)] assms(2) refl refl] .

section \<open>Concrete runs\<close>

definition owner :: "uuid \<Rightarrow> current_user" where
  "owner i = \<lparr>cur_user = \<lparr>pu_id = i, pu_email = ''a'', pu_fullName = ''A'', pu_role = USER,
       pu_emailVerified = True, pu_createdAt = 0\<rparr>,
     cur_session = \<lparr>s_id = ''s'', s_userId = i, s_tokenHash = ''h'', s_csrfTokenHash = ''c'',
       s_createdAt = 0, s_lastSeenAt = 0, s_idleExpiresAt = 9, s_absoluteExpiresAt = 9,
       s_revokedAt = None, s_revokedReason = None, s_rotatedAt = None, s_ip = None, s_userAgent = None\<rparr>,
     cur_actor = \<lparr>actor_id = i, actor_role = USER, actor_status = ACTIVE\<rparr>\<rparr>"

definition run_ctx :: request_context where
  "run_ctx = \<lparr>ctx_ip = None, ctx_userAgent = None, ctx_requestId = ''r''\<rparr>"

definition one_case :: db where
  "one_case = snd (createCase ''c1'' ''h1'' 5 (owner ''u1'') INFRACTION run_ctx empty_db)"

lemma one_case_reachable: "case_step\<^sup>*\<^sup>* empty_db one_case"
proof -
  have "createCase ''c1'' ''h1'' 5 (owner ''u1'') INFRACTION run_ctx empty_db
      = (fst (createCase ''c1'' ''h1'' 5 (owner ''u1'') INFRACTION run_ctx empty_db), one_case)"
    by (simp add: one_case_def)
  then show ?thesis by (blast intro: case_step_create)
qed

theorem cases_reachable_wf_witness: "length (cases one_case) = 1 \<and> cases_wf one_case"
proof -
  have "length (cases one_case) = 1" by code_simp
  with cases_reachable_wf [OF one_case_reachable] show ?thesis by blast
qed

theorem cases_isolated_witness:
  "readOwnCase (owner ''u2'') ''c1'' one_case = readOwnCase (owner ''u2'') ''c1'' empty_db \<and>
   listOwnCases (owner ''u2'') one_case = listOwnCases (owner ''u2'') empty_db"
proof (rule cases_isolated)
  show *: "filter (\<lambda>c. c_userId c = pu_id (cur_user (owner ''u2''))) (cases one_case)
      = filter (\<lambda>c. c_userId c = pu_id (cur_user (owner ''u2''))) (cases empty_db)"
    by code_simp
  show "filter (\<lambda>h. h_caseId h = c_id c) (caseHistory one_case)
      = filter (\<lambda>h. h_caseId h = c_id c) (caseHistory empty_db)"
    if "c \<in> set (cases one_case)" "c_userId c = pu_id (cur_user (owner ''u2''))" for c
  proof -
    from that have "c \<in> set (filter (\<lambda>c. c_userId c = pu_id (cur_user (owner ''u2''))) (cases one_case))"
      by simp
    then show ?thesis unfolding * by (simp add: empty_db_def)
  qed
qed

theorem createCase_then_read_witness:
  "readOwnCase (owner ''u1'') ''c1'' one_case
    = Inr (\<lparr>pc_id = ''c1'', pc_type = INFRACTION, pc_status = DRAFT, pc_createdAt = 5, pc_updatedAt = 5\<rparr>,
        [\<lparr>ph_fromStatus = None, ph_toStatus = DRAFT, ph_changedAt = 5\<rparr>])"
proof -
  have "createCase ''c1'' ''h1'' 5 (owner ''u1'') INFRACTION run_ctx empty_db
      = (Inr \<lparr>pc_id = ''c1'', pc_type = INFRACTION, pc_status = DRAFT, pc_createdAt = 5,
          pc_updatedAt = 5\<rparr>, one_case)"
    by code_simp
  from createCase_then_read [OF _ this] show ?thesis by simp
qed

end
