(* ===== verification/Documents.thy ===== *)
theory Documents
  imports Cases Claims Image_Metadata
begin

text \<open>
  The documents of a case, as the API handles them (apps/api/src/modules/documents): the
  repository, each method one transaction with its clock an argument, the public shape, and the
  service. \<open>sent\<close> says whether pg-boss inserts the job a transaction sends.
\<close>

section \<open>Repository (documents.repository.ts, documents.types.ts)\<close>

record create_document_input =
  cd_id :: uuid
  cd_caseId :: uuid
  cd_userId :: uuid
  cd_fileName :: js_text
  cd_fileType :: document_file_type
  cd_storageKey :: string
  cd_fileSize :: int
  cd_quotaBytes :: int
  cd_audit :: "document_row \<Rightarrow> audit_entry"

datatype create_document_result =
  Created document_row | Case_not_writable | Quota_exceeded

record document_ocr_read =
  or_ocrStatus :: document_ocr_status
  or_pages :: "(int \<times> js_text) list"

record request_reprocess_input =
  rr_documentId :: uuid
  rr_caseId :: uuid
  rr_audit :: audit_entry

definition enqueueDocumentScan :: "bool \<Rightarrow> uuid \<Rightarrow> unit tx" where
  "enqueueDocumentScan sent documentId =
     boss_send sent ''the document.scan job was not enqueued'' DOCUMENT_SCAN_QUEUE documentId 0"

definition enqueueDocumentReprocess :: "bool \<Rightarrow> uuid \<Rightarrow> unit tx" where
  "enqueueDocumentReprocess sent documentId =
     boss_send sent ''the document.reprocess job was not enqueued'' DOCUMENT_REPROCESS_QUEUE documentId 0"

definition enqueueDocumentOcrReprocess :: "bool \<Rightarrow> uuid \<Rightarrow> unit tx" where
  "enqueueDocumentOcrReprocess sent documentId =
     boss_send sent ''the document.ocr_reprocess job was not enqueued'' DOCUMENT_OCR_REPROCESS_QUEUE
       documentId 0"

text \<open>\<open>documents d JOIN cases c ON c.id = d.case_id WHERE c.user_id = userId\<close>.\<close>

definition owned_case :: "uuid \<Rightarrow> db \<Rightarrow> uuid \<Rightarrow> bool" where
  "owned_case userId d case_id \<longleftrightarrow> (\<exists>c \<in> set (cases d). c_id c = case_id \<and> c_userId c = userId)"

definition usedBytes :: "uuid \<Rightarrow> db \<Rightarrow> int" where
  "usedBytes userId d =
     sum_list (map d_fileSize (filter (\<lambda>r. owned_case userId d (d_caseId r)) (documents d)))"

definition new_document :: "create_document_input \<Rightarrow> time \<Rightarrow> document_row" where
  "new_document input now =
     \<lparr>d_id = cd_id input, d_caseId = cd_caseId input, d_fileName = cd_fileName input,
      d_fileType = cd_fileType input, d_storageKey = cd_storageKey input, d_fileSize = cd_fileSize input,
      d_uploadedByUserId = cd_userId input, d_createdAt = now, d_status = PENDING_SCAN,
      d_ocrStatus = NOT_STARTED, d_scanAttempts = 0, d_scanStartedAt = None, d_scannedAt = None,
      d_scanSignature = None, d_sanitizedStorageKey = None, d_ocrAttempts = 0, d_ocrStartedAt = None\<rparr>"

text \<open>
  The advisory lock makes the check of the quota and the insertion one step for a user, which a
  transaction of the model is anyway. The identifier and the storage key are unique columns.
\<close>

definition createDocument :: "bool \<Rightarrow> time \<Rightarrow> create_document_input \<Rightarrow> create_document_result tx" where
  "createDocument sent now input = transaction (\<lambda>d.
     if \<not> (\<exists>c \<in> set (cases d). c_id c = cd_caseId input \<and> c_userId c = cd_userId input \<and> c_status c = DRAFT)
     then (Inr Case_not_writable, d)
     else if cd_quotaBytes input < usedBytes (cd_userId input) d + cd_fileSize input
     then (Inr Quota_exceeded, d)
     else if \<exists>r \<in> set (documents d). d_id r = cd_id input \<or> d_storageKey r = cd_storageKey input
     then (Inl P2002, d)
     else
       let created = new_document input now;
           d = d\<lparr>documents := documents d @ [created]\<rparr>;
           d = insert_audit ((auditLogData (cd_audit input created))\<lparr>caseId := Some (cd_caseId input)\<rparr>) now d
       in bindE (enqueueDocumentScan sent (d_id created)) (\<lambda>_. returnE (Created created)) d)"

text \<open>\<open>ORDER BY created_at DESC, id DESC\<close>.\<close>

definition listOwnCaseDocuments :: "uuid \<Rightarrow> uuid \<Rightarrow> db \<Rightarrow> document_row list" where
  "listOwnCaseDocuments case_id userId d =
     rev (sort_key (\<lambda>r. (d_createdAt r, d_id r))
       (filter (\<lambda>r. d_caseId r = case_id \<and> owned_case userId d (d_caseId r)) (documents d)))"

definition findOwnDocument :: "uuid \<Rightarrow> uuid \<Rightarrow> uuid \<Rightarrow> db \<Rightarrow> document_row option" where
  "findOwnDocument documentId case_id userId d =
     find (\<lambda>r. d_id r = documentId \<and> d_caseId r = case_id \<and> owned_case userId d (d_caseId r)) (documents d)"

text \<open>
  The execution whose text is current: the completed one with the greatest (finished_at, id), of
  a document of the user whose OCR is COMPLETED when the text is read.
\<close>

definition current_result :: "uuid \<Rightarrow> uuid \<Rightarrow> uuid \<Rightarrow> db \<Rightarrow> ocr_result_row option" where
  "current_result documentId case_id userId d =
    (case rev (sort_key (\<lambda>r. (r_finishedAt r, r_id r))
        (filter (\<lambda>r. r_documentId r = documentId \<and> r_outcome r = Outcome_COMPLETED \<and>
           (\<exists>x \<in> set (documents d). d_id x = documentId \<and> d_caseId x = case_id \<and>
              owned_case userId d (d_caseId x) \<and> d_ocrStatus x = COMPLETED)) (ocrResults d))) of
       [] \<Rightarrow> None
     | r # _ \<Rightarrow> Some r)"

definition pages_of :: "uuid \<Rightarrow> db \<Rightarrow> (int \<times> js_text) list" where
  "pages_of resultId d =
     map (\<lambda>p. (p_pageNumber p, p_text p))
       (sort_key p_pageNumber (filter (\<lambda>p. p_ocrResultId p = resultId) (ocrPages d)))"

definition findOwnDocumentOcr ::
  "(db \<Rightarrow> db) \<Rightarrow> uuid \<Rightarrow> uuid \<Rightarrow> uuid \<Rightarrow> db \<Rightarrow> document_ocr_read option \<times> db" where
  "findOwnDocumentOcr during documentId case_id userId d =
    (case findOwnDocument documentId case_id userId d of
       None \<Rightarrow> (None, d)
     | Some r \<Rightarrow>
         if d_ocrStatus r \<noteq> COMPLETED then (Some \<lparr>or_ocrStatus = d_ocrStatus r, or_pages = []\<rparr>, d)
         else
           let d = during d
           in (Some \<lparr>or_ocrStatus = COMPLETED,
                 or_pages = (case current_result documentId case_id userId d of
                   None \<Rightarrow> [] | Some res \<Rightarrow> pages_of (r_id res) d)\<rparr>, d))"

definition findDocumentForAdministration :: "uuid \<Rightarrow> db \<Rightarrow> document_row option" where
  "findDocumentForAdministration documentId d = find_document documentId d"

definition requestReprocess_repo :: "bool \<Rightarrow> time \<Rightarrow> request_reprocess_input \<Rightarrow> unit tx" where
  "requestReprocess_repo sent now input = transaction (\<lambda>d.
     enqueueDocumentReprocess sent (rr_documentId input)
       (insert_audit ((auditLogData (rr_audit input))\<lparr>caseId := Some (rr_caseId input)\<rparr>) now d))"

definition requestOcrReprocess_repo :: "bool \<Rightarrow> time \<Rightarrow> request_reprocess_input \<Rightarrow> unit tx" where
  "requestOcrReprocess_repo sent now input = transaction (\<lambda>d.
     enqueueDocumentOcrReprocess sent (rr_documentId input)
       (insert_audit ((auditLogData (rr_audit input))\<lparr>caseId := Some (rr_caseId input)\<rparr>) now d))"

section \<open>Public shape (documents.mapper.ts)\<close>

record public_document =
  pd_id :: uuid
  pd_fileName :: js_text
  pd_fileType :: document_file_type
  pd_fileSize :: int
  pd_status :: document_status
  pd_ocrStatus :: document_ocr_status
  pd_createdAt :: time

definition toPublicDocument :: "document_row \<Rightarrow> public_document" where
  "toPublicDocument r = \<lparr>pd_id = d_id r, pd_fileName = d_fileName r, pd_fileType = d_fileType r,
     pd_fileSize = d_fileSize r, pd_status = d_status r, pd_ocrStatus = d_ocrStatus r,
     pd_createdAt = d_createdAt r\<rparr>"

section \<open>Service (documents.service.ts)\<close>

definition quotaExceeded :: exn where
  "quotaExceeded =
     HttpError (http_error 403 FORBIDDEN ''Has alcanzado el espacio maximo para tus documentos (100 MB).'')"

definition storageUnavailable :: exn where
  "storageUnavailable = HttpError (http_error 503 SERVICE_UNAVAILABLE
     ''Servicio no disponible temporalmente. Intentalo mas tarde.'')"

definition downloadableKey :: "document_row \<Rightarrow> string option" where
  "downloadableKey r =
    (if d_status r \<noteq> CLEAN then None
     else if d_fileType r = PDF then Some (d_storageKey r)
     else d_sanitizedStorageKey r)"

text \<open>The constructor: the limit a service works with, refused above the system's.\<close>

record documents_options =
  do_limit :: int
  do_downloadUrlTtlSeconds :: int

definition new_documents_service :: "int option \<Rightarrow> int \<Rightarrow> exn + documents_options" where
  "new_documents_service maxBytes ttl =
    (let limit = (case maxBytes of None \<Rightarrow> DOCUMENT_MAX_BYTES | Some n \<Rightarrow> n)
     in if DOCUMENT_MAX_BYTES < limit
        then Inl (Error ''The upload limit cannot exceed DOCUMENT_MAX_BYTES (10 MiB).'')
        else Inr \<lparr>do_limit = limit, do_downloadUrlTtlSeconds = ttl\<rparr>)"

definition ownCase :: "current_user \<Rightarrow> uuid \<Rightarrow> string \<Rightarrow> db \<Rightarrow> exn + case_row" where
  "ownCase current case_id act d =
    (if \<not> allowed (documents_can (cur_actor current) act (pu_id (cur_user current))) then Inl notFound
     else case findOwnCase case_id (pu_id (cur_user current)) d of
            None \<Rightarrow> Inl notFound
          | Some (c, _) \<Rightarrow>
              if \<not> allowed (documents_can (cur_actor current) act (c_userId c)) then Inl notFound
              else Inr c)"

text \<open>A query made in a world: it reads the database and leaves everything as it is.\<close>

definition querying :: "(db \<Rightarrow> exn + 'a) \<Rightarrow> 'a io" where
  "querying q = (\<lambda>w. (q (w_db w), w))"

fun document_file_type_name :: "document_file_type \<Rightarrow> string" where
  "document_file_type_name PDF = ''PDF''"
| "document_file_type_name JPEG = ''JPEG''"
| "document_file_type_name PNG = ''PNG''"

fun document_status_name :: "document_status \<Rightarrow> string" where
  "document_status_name UPLOADED = ''UPLOADED''"
| "document_status_name PENDING_SCAN = ''PENDING_SCAN''"
| "document_status_name SCANNING = ''SCANNING''"
| "document_status_name CLEAN = ''CLEAN''"
| "document_status_name INFECTED = ''INFECTED''"
| "document_status_name SCAN_FAILED = ''SCAN_FAILED''"

text \<open>Call 4 is the removal of an upload without a row.\<close>

definition removeOrphan :: "call_env \<Rightarrow> string \<Rightarrow> unit io" where
  "removeOrphan env storageKey =
     catchE (call env 4 (\<lambda>_. deleteObject storageKey))
       (\<lambda>e w. (Inr (), logging (Orphan_object ''upload'' None storageKey) w))"

definition upload_input ::
  "uuid \<Rightarrow> uuid \<Rightarrow> current_user \<Rightarrow> js_text \<Rightarrow> bytes \<Rightarrow> document_file_type \<Rightarrow> string \<Rightarrow>
   request_context \<Rightarrow> create_document_input" where
  "upload_input newId case_id current fileName content fileType storageKey ctx =
     \<lparr>cd_id = newId, cd_caseId = case_id, cd_userId = pu_id (cur_user current), cd_fileName = fileName,
      cd_fileType = fileType, cd_storageKey = storageKey, cd_fileSize = int (length content),
      cd_quotaBytes = DOCUMENT_QUOTA_BYTES,
      cd_audit = (\<lambda>r. (current_entry ''document.uploaded'' ctx current ''Document'' (d_id r))
        \<lparr>newValue := Some [(''fileType'', JStr (document_file_type_name (d_fileType r))),
           (''fileSize'', JNum (d_fileSize r)), (''status'', JStr (document_status_name (d_status r)))]\<rparr>)\<rparr>"

text \<open>
  The write of an upload, once it was accepted: call 2 stores the object, call 3 writes the row
  with its event and its job.
\<close>

definition storage_key :: "uuid \<Rightarrow> uuid \<Rightarrow> string" where
  "storage_key case_id newId = ''cases/'' @ case_id @ ''/documents/'' @ newId"

definition store_upload ::
  "call_env \<Rightarrow> bool \<Rightarrow> string \<Rightarrow> bytes \<Rightarrow> document_file_type \<Rightarrow> create_document_input \<Rightarrow> public_document io" where
  "store_upload env sent storageKey content fileType input =
     bindE
       (catchE (call env 2 (\<lambda>_. putObject storageKey content (CONTENT_TYPES fileType)))
          (\<lambda>e w. bindE (removeOrphan env storageKey) (\<lambda>_. throwE storageUnavailable)
             (logging (Not_stored storageKey) w)))
       (\<lambda>_. bindE
          (catchE (call env 3 (\<lambda>now. in_db (createDocument sent now input)))
             (\<lambda>e. bindE (removeOrphan env storageKey) (\<lambda>_. throwE e)))
          (\<lambda>created. case created of
             Created r \<Rightarrow> returnE (toPublicDocument r)
           | Quota_exceeded \<Rightarrow> bindE (removeOrphan env storageKey) (\<lambda>_. throwE quotaExceeded)
           | Case_not_writable \<Rightarrow> bindE (removeOrphan env storageKey) (\<lambda>_. throwE notFound)))"

definition uploadDocument ::
  "call_env \<Rightarrow> bool \<Rightarrow> documents_options \<Rightarrow> uuid \<Rightarrow> current_user \<Rightarrow> uuid \<Rightarrow> js_text \<Rightarrow> bytes \<Rightarrow>
   request_context \<Rightarrow> public_document io" where
  "uploadDocument env sent opts newId current case_id fileName content ctx =
     bindE (call env 0 (\<lambda>_. querying (ownCase current case_id ''document:upload'')))
       (\<lambda>owned.
          if c_status owned \<noteq> DRAFT
          then throwE (HttpError (http_error 403 FORBIDDEN
                 ''No se pueden subir documentos a este caso en su estado actual.''))
          else if length content = 0
          then throwE (HttpError (http_error 400 VALIDATION_ERROR ''El archivo esta vacio.''))
          else if do_limit opts < int (length content)
          then throwE (HttpError (http_error 413 PAYLOAD_TOO_LARGE
                 ''La solicitud supera el tamano maximo permitido.''))
          else case detectFileType content of
                 None \<Rightarrow> throwE (HttpError (http_error 400 VALIDATION_ERROR
                   ''Tipo de archivo no permitido. Solo se admiten PDF, JPEG o PNG.''))
               | Some fileType \<Rightarrow>
                   bindE (call env 1 (\<lambda>_. querying (\<lambda>d. Inr (usedBytes (pu_id (cur_user current)) d))))
                     (\<lambda>used.
                        if DOCUMENT_QUOTA_BYTES < used + int (length content) then throwE quotaExceeded
                        else let storageKey = storage_key case_id newId
                             in store_upload env sent storageKey content fileType
                                  (upload_input newId case_id current fileName content fileType storageKey ctx)))"

definition listDocuments :: "current_user \<Rightarrow> uuid \<Rightarrow> db \<Rightarrow> exn + public_document list" where
  "listDocuments current case_id d =
    (case ownCase current case_id ''document:list'' d of
       Inl e \<Rightarrow> Inl e
     | Inr _ \<Rightarrow> Inr (map toPublicDocument (listOwnCaseDocuments case_id (pu_id (cur_user current)) d)))"

text \<open>The URL a document is downloaded with, and when it expires (milliseconds).\<close>

definition createDownloadUrl ::
  "documents_options \<Rightarrow> time \<Rightarrow> current_user \<Rightarrow> uuid \<Rightarrow> uuid \<Rightarrow> (string \<times> time) io" where
  "createDownloadUrl opts now current case_id documentId = (\<lambda>w.
     case ownCase current case_id ''document:download'' (w_db w) of
       Inl e \<Rightarrow> (Inl e, w)
     | Inr _ \<Rightarrow>
         (case findOwnDocument documentId case_id (pu_id (cur_user current)) (w_db w) of
            None \<Rightarrow> (Inl notFound, w)
          | Some r \<Rightarrow>
              (case (if downloadableKey r = Some [] then None else downloadableKey r) of
                 None \<Rightarrow> (Inl (HttpError (http_error 403 FORBIDDEN
                     ''El documento no esta disponible para descarga.'')), w)
               | Some key \<Rightarrow>
                   bindE (createDownloadUrl_store
                      \<lparr>dl_key = key, dl_fileName = d_fileName r, dl_contentType = CONTENT_TYPES (d_fileType r),
                       dl_expiresInSeconds = do_downloadUrlTtlSeconds opts\<rparr>)
                     (\<lambda>url. returnE (url, now + 1000 * do_downloadUrlTtlSeconds opts)) w)))"

definition readDocumentOcr ::
  "(db \<Rightarrow> db) \<Rightarrow> current_user \<Rightarrow> uuid \<Rightarrow> uuid \<Rightarrow> db \<Rightarrow> (exn + document_ocr_read) \<times> db" where
  "readDocumentOcr during current case_id documentId d =
    (case ownCase current case_id ''document:read_ocr'' d of
       Inl e \<Rightarrow> (Inl e, d)
     | Inr _ \<Rightarrow>
         (case findOwnDocumentOcr during documentId case_id (pu_id (cur_user current)) d of
            (None, d) \<Rightarrow> (Inl notFound, d)
          | (Some ocr, d) \<Rightarrow> (Inr \<lparr>or_ocrStatus = or_ocrStatus ocr, or_pages = or_pages ocr\<rparr>, d)))"

definition assertCanReprocess :: "current_user \<Rightarrow> exn + unit" where
  "assertCanReprocess current =
    (if \<not> allowed (documents_can (cur_actor current) ''document:reprocess'' (pu_id (cur_user current)))
     then Inl notFound else Inr ())"

definition assertCanReprocessOcr :: "current_user \<Rightarrow> exn + unit" where
  "assertCanReprocessOcr current =
    (if \<not> allowed (documents_can (cur_actor current) ''document:reprocess_ocr'' (pu_id (cur_user current)))
     then Inl notFound else Inr ())"

definition reprocess_entry :: "string \<Rightarrow> request_context \<Rightarrow> current_user \<Rightarrow> document_row \<Rightarrow> string \<Rightarrow> audit_entry" where
  "reprocess_entry act ctx current r reason =
     (current_entry act ctx current ''Document'' (d_id r))
       \<lparr>caseId := Some (d_caseId r), metadata := Some [(''reason'', JStr reason)]\<rparr>"

definition requestReprocess ::
  "bool \<Rightarrow> time \<Rightarrow> current_user \<Rightarrow> uuid \<Rightarrow> string \<Rightarrow> request_context \<Rightarrow> unit tx" where
  "requestReprocess sent now current documentId reason ctx = (\<lambda>d.
     case assertCanReprocess current of
       Inl e \<Rightarrow> (Inl e, d)
     | Inr _ \<Rightarrow>
         (case findDocumentForAdministration documentId d of
            None \<Rightarrow> (Inl notFound, d)
          | Some r \<Rightarrow>
              if d_status r \<noteq> SCAN_FAILED
              then (Inl (HttpError (http_error 403 FORBIDDEN
                     ''Solo se puede reprocesar un documento cuyo tratamiento fallo.'')), d)
              else requestReprocess_repo sent now
                     \<lparr>rr_documentId = d_id r, rr_caseId = d_caseId r,
                      rr_audit = reprocess_entry ''document.reprocess_requested'' ctx current r reason\<rparr> d))"

definition requestOcrReprocess ::
  "bool \<Rightarrow> time \<Rightarrow> current_user \<Rightarrow> uuid \<Rightarrow> string \<Rightarrow> request_context \<Rightarrow> unit tx" where
  "requestOcrReprocess sent now current documentId reason ctx = (\<lambda>d.
     case assertCanReprocessOcr current of
       Inl e \<Rightarrow> (Inl e, d)
     | Inr _ \<Rightarrow>
         (case findDocumentForAdministration documentId d of
            None \<Rightarrow> (Inl notFound, d)
          | Some r \<Rightarrow>
              if d_status r \<noteq> CLEAN \<or> d_ocrStatus r \<noteq> FAILED
              then (Inl (HttpError (http_error 403 FORBIDDEN
                     ''Solo se puede reprocesar el OCR de un documento cuyo OCR fallo.'')), d)
              else requestOcrReprocess_repo sent now
                     \<lparr>rr_documentId = d_id r, rr_caseId = d_caseId r,
                      rr_audit = reprocess_entry ''document.ocr_reprocess_requested'' ctx current r reason\<rparr> d))"

end
