(* ===== verification/Documents_Theorems.thy ===== *)
theory Documents_Theorems
  imports Documents
begin

text \<open>
  What the documents module guarantees: an upload is stored whole or not at all, the quota is
  never exceeded, only treated documents are downloaded and only by their owner, the text of an
  OCR is that of the current execution, and a reprocessing is an ADMIN's, of a failed treatment.
\<close>

section \<open>Uploads\<close>

text \<open>Nobody else touches the row or the object of an upload: its identifier is new.\<close>

definition undisturbed_for :: "call_env \<Rightarrow> uuid \<Rightarrow> string \<Rightarrow> bool" where
  "undisturbed_for env i key \<longleftrightarrow> (\<forall>n w. find_document i (w_db (ce_during env n w)) = find_document i (w_db w) \<and>
     w_objects (ce_during env n w) key = w_objects w key)"

definition orphan_logged :: "string \<Rightarrow> world \<Rightarrow> bool" where
  "orphan_logged key w \<longleftrightarrow> Orphan_object ''upload'' None key \<in> set (w_log w)"

lemma removeOrphan_result:
  assumes "removeOrphan env key w = (r, w')" and "undisturbed_for env i key"
  shows "r = Inr ()" and "find_document i (w_db w') = find_document i (w_db w)"
    and "w_objects w' key = None \<or> orphan_logged key w'"
proof -
  let ?w = "ce_during env 4 w"
  have run: "removeOrphan env key w = (case faulty (ce_fault env 4) (deleteObject key) ?w of
      (Inl e, v) \<Rightarrow> (Inr (), logging (Orphan_object ''upload'' None key) v) | (Inr u, v) \<Rightarrow> (Inr u, v))"
    by (simp add: removeOrphan_def catchE_def call_def)
  have db: "w_db (snd (faulty (ce_fault env 4) (deleteObject key) ?w)) = w_db ?w"
    by (rule memory.del_faulty_db)
  obtain r1 v where del: "faulty (ce_fault env 4) (deleteObject key) ?w = (r1, v)" by fastforce
  show "r = Inr ()" using assms(1) run del by (cases r1) auto
  show "find_document i (w_db w') = find_document i (w_db w)"
    using assms run del db by (cases r1) (auto simp: undisturbed_for_def)
  show "w_objects w' key = None \<or> orphan_logged key w'"
  proof (cases r1)
    case (Inl e)
    with assms(1) run del show ?thesis by (auto simp: orphan_logged_def)
  next
    case (Inr u)
    with del have "v = snd (deleteObject key ?w)" by (auto simp: faulty_Inr)
    with assms(1) run del Inr show ?thesis by auto
  qed
qed

text \<open>What the transaction of an upload leaves.\<close>

definition created_db :: "time \<Rightarrow> create_document_input \<Rightarrow> db \<Rightarrow> db" where
  "created_db now input d =
     send_job DOCUMENT_SCAN_QUEUE (cd_id input) 0
       (insert_audit ((cd_audit input (new_document input now))\<lparr>caseId := Some (cd_caseId input)\<rparr>) now
          (d\<lparr>documents := documents d @ [new_document input now]\<rparr>))"

definition draft_of :: "create_document_input \<Rightarrow> db \<Rightarrow> bool" where
  "draft_of input d \<longleftrightarrow>
     (\<exists>c \<in> set (cases d). c_id c = cd_caseId input \<and> c_userId c = cd_userId input \<and> c_status c = DRAFT)"

definition taken :: "create_document_input \<Rightarrow> db \<Rightarrow> bool" where
  "taken input d \<longleftrightarrow> (\<exists>r \<in> set (documents d). d_id r = cd_id input \<or> d_storageKey r = cd_storageKey input)"

lemma createDocument_eq:
  "createDocument sent now input d =
    (if \<not> draft_of input d then (Inr Case_not_writable, d)
     else if cd_quotaBytes input < usedBytes (cd_userId input) d + cd_fileSize input then (Inr Quota_exceeded, d)
     else if taken input d then (Inl P2002, d)
     else if sent then (Inr (Created (new_document input now)), created_db now input d)
     else (Inl (Error ''the document.scan job was not enqueued''), d))"
proof -
  have "d_id (new_document input now) = cd_id input" by (simp add: new_document_def)
  then show ?thesis
    unfolding createDocument_def transaction_def Let_def enqueueDocumentScan_def boss_send_def bindE_def
      draft_of_def taken_def created_db_def auditLogData_id
    by simp
qed

lemma created_db_frame [simp]:
  "documents (created_db now input d) = documents d @ [new_document input now]"
  "cases (created_db now input d) = cases d" "caseHistory (created_db now input d) = caseHistory d"
  "jobs (created_db now input d) =
    jobs d @ [\<lparr>j_queue = DOCUMENT_SCAN_QUEUE, j_documentId = cd_id input, j_startAfter = 0\<rparr>]"
  "auditLogs (created_db now input d) = auditLogs d @
    [\<lparr>a_entry = (cd_audit input (new_document input now))\<lparr>caseId := Some (cd_caseId input)\<rparr>, a_occurredAt = now\<rparr>]"
  "ocrResults (created_db now input d) = ocrResults d" "ocrPages (created_db now input d) = ocrPages d"
  by (simp_all add: created_db_def insert_audit_def)

text \<open>A document is created exactly when the case is the user's draft and it fits in the quota.\<close>

lemma createDocument_cases:
  obtains (created) "createDocument sent now input d = (Inr (Created (new_document input now)), created_db now input d)"
      "draft_of input d" "\<not> taken input d" "sent"
      "usedBytes (cd_userId input) d + cd_fileSize input \<le> cd_quotaBytes input"
  | (refused) x where "createDocument sent now input d = (x, d)" "\<And>r. x \<noteq> Inr (Created r)"
  using createDocument_eq [of sent now input d] that by (auto split: if_splits)

lemma find_document_append:
  "find_document i (d\<lparr>documents := documents d @ rs\<rparr>) =
    (case find_document i d of None \<Rightarrow> find (\<lambda>r. d_id r = i) rs | Some r \<Rightarrow> Some r)"
proof -
  have "find P (xs @ ys) = (case find P xs of None \<Rightarrow> find P ys | Some x \<Rightarrow> Some x)"
    for P :: "document_row \<Rightarrow> bool" and xs ys
    by (induction xs) auto
  then show ?thesis by (simp add: find_document_def)
qed

lemma find_created:
  assumes "documents d' = documents d @ [r]" and "find_document (d_id r) d = None"
  shows "find_document (d_id r) d' = Some r"
  using find_document_append [of "d_id r" d "[r]"] assms by (simp add: find_document_def)

text \<open>The write of an upload: everything is there, or nothing but a logged orphan.\<close>

definition fully_stored :: "create_document_input \<Rightarrow> bytes \<Rightarrow> public_document \<Rightarrow> world \<Rightarrow> bool" where
  "fully_stored input content doc w \<longleftrightarrow> (\<exists>now. let r = new_document input now in
     find_document (cd_id input) (w_db w) = Some r \<and> doc = toPublicDocument r \<and>
     map_option so_body (w_objects w (cd_storageKey input)) = Some content \<and>
     \<lparr>a_entry = (cd_audit input r)\<lparr>caseId := Some (cd_caseId input)\<rparr>, a_occurredAt = now\<rparr> \<in> set (auditLogs (w_db w)) \<and>
     \<lparr>j_queue = DOCUMENT_SCAN_QUEUE, j_documentId = cd_id input, j_startAfter = 0\<rparr> \<in> set (jobs (w_db w)))"

definition not_stored :: "call_env \<Rightarrow> uuid \<Rightarrow> string \<Rightarrow> world \<Rightarrow> bool" where
  "not_stored env i key w \<longleftrightarrow>
     ((\<forall>e. ce_fault env 3 \<noteq> Some (Fails_after e)) \<longrightarrow> find_document i (w_db w) = None) \<and>
     (w_objects w key = None \<or> orphan_logged key w)"

lemma orphan_removed:
  assumes "bindE (removeOrphan env key) (\<lambda>_. throwE e) w = (res, w')" and "undisturbed_for env i key"
    and "(\<forall>e. ce_fault env 3 \<noteq> Some (Fails_after e)) \<longrightarrow> find_document i (w_db w) = None"
  shows "(\<exists>e. res = Inl e) \<and> not_stored env i key w'"
proof -
  obtain r v where rm: "removeOrphan env key w = (r, v)" by fastforce
  note orphan = removeOrphan_result [OF rm assms(2)]
  with assms(1) rm have "res = Inl e" "v = w'" by (simp_all add: bindE_def)
  with orphan assms(3) show ?thesis by (simp add: not_stored_def)
qed

lemma store_upload_result:
  assumes "store_upload env sent key content t input w = (res, w')" and "undisturbed_for env (cd_id input) key"
    and "find_document (cd_id input) (w_db w) = None" and "key = cd_storageKey input"
  shows "case res of Inr doc \<Rightarrow> fully_stored input content doc w' | Inl e \<Rightarrow> not_stored env (cd_id input) key w'"
proof -
  let ?i = "cd_id input"
  obtain r2 w2 where put: "call env 2 (\<lambda>_. putObject key content (CONTENT_TYPES t)) w = (r2, w2)" by fastforce
  have db2: "find_document ?i (w_db w2) = None"
    using assms(2,3) memory.put_faulty_db [of "ce_fault env 2" key content "CONTENT_TYPES t" "ce_during env 2 w"] put
    by (simp add: call_def undisturbed_for_def)
  show ?thesis
  proof (cases r2)
    case (Inl e)
    with assms(1) put obtain "bindE (removeOrphan env key) (\<lambda>_. throwE storageUnavailable)
        (logging (Not_stored key) w2) = (map_sum id undefined res, w')" "\<exists>e. res = Inl e"
      by (auto simp: store_upload_def bindE_def catchE_def split: prod.splits sum.splits
          dest: removeOrphan_result(1) [OF _ assms(2)])
    with orphan_removed [OF this(1) assms(2)] db2 show ?thesis by auto
  next
    case (Inr u)
    have obj2: "map_option so_body (w_objects w2 key) = Some content"
      using put Inr by (auto simp: call_def faulty_Inr putObject_def)
    let ?w2 = "ce_during env 3 w2"
    let ?m = "in_db (createDocument sent (ce_clock env 3) input)"
    have w3: "find_document ?i (w_db ?w2) = None" "map_option so_body (w_objects ?w2 key) = Some content"
      using db2 obj2 assms(2) by (simp_all add: undisturbed_for_def)
    obtain r3 v where row: "call env 3 (\<lambda>now. in_db (createDocument sent now input)) w2 = (r3, v)" by fastforce
    then have row': "faulty (ce_fault env 3) ?m ?w2 = (r3, v)" by (simp add: call_def)
    have absent: "(\<forall>e. ce_fault env 3 \<noteq> Some (Fails_after e)) \<longrightarrow> find_document ?i (w_db v) = None"
      if "\<nexists>r. r3 = Inr (Created r)"
    proof (cases "ce_fault env 3")
      case None
      with row' have run: "?m ?w2 = (r3, v)" by simp
      show ?thesis
      proof (cases rule: createDocument_cases [of sent "ce_clock env 3" input "w_db ?w2"])
        case created
        with run that show ?thesis by (auto simp: in_db_def)
      next
        case (refused x)
        with run w3(1) show ?thesis by (auto simp: in_db_def)
      qed
    next
      case (Some f)
      with row' w3(1) show ?thesis by (cases f) auto
    qed
    show ?thesis
    proof (cases "\<exists>r. r3 = Inr (Created r)")
      case True
      then obtain r where r: "r3 = Inr (Created r)" by blast
      with row' have run: "?m ?w2 = (Inr (Created r), v)" by (simp add: faulty_Inr)
      have res: "res = Inr (toPublicDocument r)" "w' = v"
        using assms(1) put Inr row r by (simp_all add: store_upload_def bindE_def catchE_def)
      show ?thesis
      proof (cases rule: createDocument_cases [of sent "ce_clock env 3" input "w_db ?w2"])
        case created
        with run have v: "r = new_document input (ce_clock env 3)"
            "w_db v = created_db (ce_clock env 3) input (w_db ?w2)" "w_objects v = w_objects ?w2"
          by (auto simp: in_db_def)
        have "find_document ?i (w_db v) = Some r"
          using find_created [of "w_db v" "w_db ?w2" r] w3(1) v by (simp add: new_document_def)
        then show ?thesis
          using res w3(2) v assms(4) by (auto simp: fully_stored_def Let_def)
      next
        case (refused x)
        with run show ?thesis by (auto simp: in_db_def)
      qed
    next
      case False
      obtain e where "bindE (removeOrphan env key) (\<lambda>_. throwE e) v = (res, w')"
        using assms(1) put Inr row False
        by (cases r3)
          (auto simp: store_upload_def bindE_def catchE_def split: create_document_result.splits
            sum.splits prod.splits)
      from orphan_removed [OF this assms(2)] absent False show ?thesis by auto
    qed
  qed
qed

lemma query_call:
  assumes "call env n (\<lambda>_. querying q) w = (r, w')" and "undisturbed_for env i key"
  shows "find_document i (w_db w') = find_document i (w_db w)" and "w_objects w' key = w_objects w key"
    and "r = Inr x \<Longrightarrow> q (w_db w') = Inr x"
  using assms
  by (cases "(ce_fault env n, querying q, ce_during env n w)" rule: faulty.cases;
      auto simp: call_def querying_def undisturbed_for_def)+

text \<open>The event of an upload, written out.\<close>

definition upload_event ::
  "request_context \<Rightarrow> current_user \<Rightarrow> uuid \<Rightarrow> uuid \<Rightarrow> document_file_type \<Rightarrow> int \<Rightarrow> audit_entry" where
  "upload_event ctx current newId case_id t n =
    \<lparr>actorUserId = Some (pu_id (cur_user current)), actorRole = Some (pu_role (cur_user current)),
     action = ''document.uploaded'', entityType = Some ''Document'', entityId = Some newId, caseId = Some case_id,
     newValue = Some [(''fileType'', JStr (document_file_type_name t)), (''fileSize'', JNum n),
       (''status'', JStr ''PENDING_SCAN'')],
     metadata = None, requestId = Some (ctx_requestId ctx), ip = ctx_ip ctx, userAgent = ctx_userAgent ctx\<rparr>"

lemma upload_event_input:
  "(cd_audit (upload_input newId case_id current fileName content t key ctx)
      (new_document (upload_input newId case_id current fileName content t key ctx) now))\<lparr>caseId := Some case_id\<rparr>
    = upload_event ctx current newId case_id t (int (length content))"
  by (simp add: upload_input_def new_document_def upload_event_def current_entry_def request_entry_def)

lemma fully_stored_event:
  assumes "fully_stored (upload_input newId case_id current fileName content t key ctx) content doc w"
  shows "upload_event ctx current newId case_id t (int (length content)) \<in> a_entry ` set (auditLogs (w_db w))"
proof -
  let ?input = "upload_input newId case_id current fileName content t key ctx"
  obtain now where "\<lparr>a_entry = (cd_audit ?input (new_document ?input now))\<lparr>caseId := Some (cd_caseId ?input)\<rparr>,
      a_occurredAt = now\<rparr> \<in> set (auditLogs (w_db w))"
    using assms unfolding fully_stored_def Let_def by blast
  moreover have "cd_caseId ?input = case_id" by (simp add: upload_input_def)
  ultimately have "\<lparr>a_entry = upload_event ctx current newId case_id t (int (length content)), a_occurredAt = now\<rparr>
      \<in> set (auditLogs (w_db w))"
    by (simp only: upload_event_input)
  then show ?thesis by (rule rev_image_eqI) simp
qed

text \<open>
  C25. While no other process touches the row and the object of its new identifier, an upload is
  stored whole or not at all, whichever of its calls fail: if it succeeds, its row is there in
  PENDING_SCAN with a job for its treatment, an object with exactly the bytes sent and its audit
  event; if it fails, no object is left, or one that was logged for reconciliation, and no row,
  unless the commit itself took effect and was reported as failed.
\<close>

theorem upload_all_or_nothing:
  assumes "uploadDocument env sent opts newId current case_id fileName content ctx w = (res, w')"
    and "undisturbed_for env newId (storage_key case_id newId)"
    and "find_document newId (w_db w) = None" and "w_objects w (storage_key case_id newId) = None"
  shows "case res of
      Inr doc \<Rightarrow> \<exists>t. detectFileType content = Some t \<and> 0 < length content \<and> int (length content) \<le> do_limit opts \<and>
        fully_stored (upload_input newId case_id current fileName content t (storage_key case_id newId) ctx)
          content doc w' \<and>
        upload_event ctx current newId case_id t (int (length content)) \<in> a_entry ` set (auditLogs (w_db w'))
    | Inl e \<Rightarrow> not_stored env newId (storage_key case_id newId) w'"
proof -
  let ?key = "storage_key case_id newId"
  have stop: "not_stored env newId ?key v"
    if "find_document newId (w_db v) = None" "w_objects v ?key = None" for v
    using that by (simp add: not_stored_def)
  obtain r0 w0 where c0: "call env 0 (\<lambda>_. querying (ownCase current case_id ''document:upload'')) w = (r0, w0)"
    by fastforce
  have w0: "find_document newId (w_db w0) = None" "w_objects w0 ?key = None"
    using query_call(1,2) [OF c0 assms(2)] assms(3,4) by simp_all
  show ?thesis
  proof (cases "(\<exists>owned. r0 = Inr owned \<and> c_status owned = DRAFT) \<and> 0 < length content \<and>
      int (length content) \<le> do_limit opts \<and> (\<exists>t. detectFileType content = Some t)")
    case False
    have "w' = w0 \<and> (\<exists>e. res = Inl e)"
      using assms(1) c0 False
      by (cases r0) (auto simp: uploadDocument_def bindE_def split: if_splits option.splits)
    with w0 stop show ?thesis by auto
  next
    case True
    then obtain owned t where ok: "r0 = Inr owned" "c_status owned = DRAFT" "detectFileType content = Some t"
      by blast
    obtain r1 w1 where c1: "call env 1 (\<lambda>_. querying (\<lambda>d. Inr (usedBytes (pu_id (cur_user current)) d))) w0 = (r1, w1)"
      by fastforce
    have w1: "find_document newId (w_db w1) = None" "w_objects w1 ?key = None"
      using query_call(1,2) [OF c1 assms(2)] w0 by simp_all
    let ?input = "upload_input newId case_id current fileName content t ?key ctx"
    have run: "(case r1 of Inl e \<Rightarrow> (Inl e, w1) | Inr used \<Rightarrow>
        (if DOCUMENT_QUOTA_BYTES < used + int (length content) then (Inl quotaExceeded, w1)
         else store_upload env sent ?key content t ?input w1)) = (res, w')"
      using assms(1) c0 c1 ok True
      by (cases r1) (auto simp: uploadDocument_def bindE_def Let_def)
    have input: "cd_id ?input = newId" "cd_storageKey ?input = ?key" by (simp_all add: upload_input_def)
    show ?thesis
    proof (cases "store_upload env sent ?key content t ?input w1 = (res, w')")
      case stored: True
      from store_upload_result [OF stored] input assms(2) w1 True ok(3) fully_stored_event show ?thesis
        by (auto split: sum.splits)
    next
      case False
      with run have "w' = w1 \<and> (\<exists>e. res = Inl e)" by (auto split: sum.splits if_splits)
      with w1 stop show ?thesis by auto
    qed
  qed
qed

section \<open>Reprocessing\<close>

text \<open>
  Only an active ADMIN asks for a treatment or an OCR to be done again, only of a document
  whose treatment (or OCR) failed; the request writes one event with the justification and one
  job, and touches no document; a refused one writes nothing.
\<close>

theorem reprocess_requests:
  assumes "requestReprocess sent now current i reason ctx d = (res, d')"
    and "requestOcrReprocess sent' now' current i reason ctx d = (res', d'')"
  shows "documents d' = documents d \<and> documents d'' = documents d \<and>
    (res = Inr () \<longleftrightarrow> actor_status (cur_actor current) = ACTIVE \<and> actor_role (cur_actor current) = ADMIN \<and>
      sent \<and> (\<exists>r. find_document i d = Some r \<and> d_status r = SCAN_FAILED)) \<and>
    (res' = Inr () \<longleftrightarrow> actor_status (cur_actor current) = ACTIVE \<and> actor_role (cur_actor current) = ADMIN \<and>
      sent' \<and> (\<exists>r. find_document i d = Some r \<and> d_status r = CLEAN \<and> d_ocrStatus r = FAILED)) \<and>
    (if res = Inr () then \<exists>r. find_document i d = Some r \<and>
        jobs d' = jobs d @ [\<lparr>j_queue = DOCUMENT_REPROCESS_QUEUE, j_documentId = i, j_startAfter = 0\<rparr>] \<and>
        auditLogs d' = auditLogs d @ [\<lparr>a_entry = reprocess_entry ''document.reprocess_requested'' ctx current r reason,
          a_occurredAt = now\<rparr>]
     else d' = d) \<and>
    (if res' = Inr () then \<exists>r. find_document i d = Some r \<and>
        jobs d'' = jobs d @ [\<lparr>j_queue = DOCUMENT_OCR_REPROCESS_QUEUE, j_documentId = i, j_startAfter = 0\<rparr>] \<and>
        auditLogs d'' = auditLogs d @ [\<lparr>a_entry = reprocess_entry ''document.ocr_reprocess_requested'' ctx current r reason,
          a_occurredAt = now'\<rparr>]
     else d'' = d)"
proof -
  have caseId: "(reprocess_entry act ctx current r reason)\<lparr>caseId := Some (d_caseId r)\<rparr>
      = reprocess_entry act ctx current r reason" for act r
    by (simp add: reprocess_entry_def)
  note defs = assertCanReprocess_def assertCanReprocessOcr_def findDocumentForAdministration_def
    requestReprocess_repo_def requestOcrReprocess_repo_def transaction_def enqueueDocumentReprocess_def
    enqueueDocumentOcrReprocess_def boss_send_def caseId
  have ids: "find_document i d = Some r \<Longrightarrow> d_id r = i" for r
    by (simp add: find_document_SomeD)
  have one: "documents d' = documents d \<and>
    (res = Inr () \<longleftrightarrow> actor_status (cur_actor current) = ACTIVE \<and> actor_role (cur_actor current) = ADMIN \<and>
      sent \<and> (\<exists>r. find_document i d = Some r \<and> d_status r = SCAN_FAILED)) \<and>
    (if res = Inr () then \<exists>r. find_document i d = Some r \<and>
        jobs d' = jobs d @ [\<lparr>j_queue = DOCUMENT_REPROCESS_QUEUE, j_documentId = i, j_startAfter = 0\<rparr>] \<and>
        auditLogs d' = auditLogs d @ [\<lparr>a_entry = reprocess_entry ''document.reprocess_requested'' ctx current r reason,
          a_occurredAt = now\<rparr>]
     else d' = d)"
    using assms(1) ids
    by (cases "find_document i d"; cases sent) (auto simp: requestReprocess_def defs split: if_splits)
  have two: "documents d'' = documents d \<and>
    (res' = Inr () \<longleftrightarrow> actor_status (cur_actor current) = ACTIVE \<and> actor_role (cur_actor current) = ADMIN \<and>
      sent' \<and> (\<exists>r. find_document i d = Some r \<and> d_status r = CLEAN \<and> d_ocrStatus r = FAILED)) \<and>
    (if res' = Inr () then \<exists>r. find_document i d = Some r \<and>
        jobs d'' = jobs d @ [\<lparr>j_queue = DOCUMENT_OCR_REPROCESS_QUEUE, j_documentId = i, j_startAfter = 0\<rparr>] \<and>
        auditLogs d'' = auditLogs d @ [\<lparr>a_entry = reprocess_entry ''document.ocr_reprocess_requested'' ctx current r reason,
          a_occurredAt = now'\<rparr>]
     else d'' = d)"
    using assms(2) ids
    by (cases "find_document i d"; cases sent') (auto simp: requestOcrReprocess_def defs split: if_splits)
  from one two show ?thesis by blast
qed

section \<open>Isolation\<close>

text \<open>What belongs to a user: cases, their documents, the executions of their OCR and their pages.\<close>

definition own_documents :: "uuid \<Rightarrow> db \<Rightarrow> document_row list" where
  "own_documents u d = filter (\<lambda>r. owned_case u d (d_caseId r)) (documents d)"

definition own_results :: "uuid \<Rightarrow> db \<Rightarrow> ocr_result_row list" where
  "own_results u d = filter (\<lambda>x. r_documentId x \<in> d_id ` set (own_documents u d)) (ocrResults d)"

definition own_pages :: "uuid \<Rightarrow> db \<Rightarrow> ocr_page_row list" where
  "own_pages u d = filter (\<lambda>p. p_ocrResultId p \<in> r_id ` set (own_results u d)) (ocrPages d)"

definition own_view ::
  "uuid \<Rightarrow> db \<Rightarrow> case_row list \<times> document_row list \<times> ocr_result_row list \<times> ocr_page_row list" where
  "own_view u d = (filter (\<lambda>c. c_userId c = u) (cases d), own_documents u d, own_results u d, own_pages u d)"

lemma find_conj: "find (\<lambda>x. P x \<and> Q x) xs = find P (filter Q xs)"
  by (induction xs) auto

lemma findOwnDocument_view: "findOwnDocument i c u d = find (\<lambda>r. d_id r = i \<and> d_caseId r = c) (own_documents u d)"
  unfolding findOwnDocument_def own_documents_def find_conj [symmetric] by (simp add: conj_ac)

lemma listOwnCaseDocuments_view:
  "listOwnCaseDocuments c u d
    = rev (sort_key (\<lambda>r. (d_createdAt r, d_id r)) (filter (\<lambda>r. d_caseId r = c) (own_documents u d)))"
  by (simp add: listOwnCaseDocuments_def own_documents_def conj_commute)

lemma current_result_view:
  "current_result i c u d =
    (case rev (sort_key (\<lambda>r. (r_finishedAt r, r_id r))
        (filter (\<lambda>r. r_documentId r = i \<and> r_outcome r = Outcome_COMPLETED \<and>
           (\<exists>x \<in> set (own_documents u d). d_id x = i \<and> d_caseId x = c \<and> d_ocrStatus x = COMPLETED))
           (own_results u d))) of
       [] \<Rightarrow> None | r # _ \<Rightarrow> Some r)"
proof -
  have "filter (\<lambda>r. r_documentId r = i \<and> r_outcome r = Outcome_COMPLETED \<and>
       (\<exists>x \<in> set (documents d). d_id x = i \<and> d_caseId x = c \<and> owned_case u d (d_caseId x) \<and> d_ocrStatus x = COMPLETED))
       (ocrResults d)
    = filter (\<lambda>r. r_documentId r = i \<and> r_outcome r = Outcome_COMPLETED \<and>
       (\<exists>x \<in> set (own_documents u d). d_id x = i \<and> d_caseId x = c \<and> d_ocrStatus x = COMPLETED)) (own_results u d)"
    unfolding own_results_def filter_filter
    by (rule filter_cong) (auto simp: own_documents_def image_iff)
  then show ?thesis by (simp add: current_result_def)
qed

lemma current_result_own: "current_result i c u d = Some r \<Longrightarrow> r \<in> set (own_results u d)"
proof -
  assume "current_result i c u d = Some r"
  then have "r \<in> set (rev (sort_key (\<lambda>r. (r_finishedAt r, r_id r))
        (filter (\<lambda>r. r_documentId r = i \<and> r_outcome r = Outcome_COMPLETED \<and>
           (\<exists>x \<in> set (own_documents u d). d_id x = i \<and> d_caseId x = c \<and> d_ocrStatus x = COMPLETED))
           (own_results u d))))"
    unfolding current_result_view by (metis (no_types, lifting) list.case(1) list.case(2) list.exhaust
        list.set_intros(1) option.inject option.distinct(1))
  then show ?thesis by simp
qed

lemma pages_of_view:
  assumes "r \<in> set (own_results u d)"
  shows "pages_of (r_id r) d
    = map (\<lambda>p. (p_pageNumber p, p_text p)) (sort_key p_pageNumber (filter (\<lambda>p. p_ocrResultId p = r_id r) (own_pages u d)))"
proof -
  have "filter (\<lambda>p. p_ocrResultId p = r_id r) (ocrPages d) = filter (\<lambda>p. p_ocrResultId p = r_id r) (own_pages u d)"
    unfolding own_pages_def filter_filter using assms by (intro filter_cong) auto
  then show ?thesis by (simp add: pages_of_def)
qed

lemma ownCase_view:
  assumes "filter (\<lambda>c. c_userId c = pu_id (cur_user current)) (cases d1)
      = filter (\<lambda>c. c_userId c = pu_id (cur_user current)) (cases d2)"
  shows "ownCase current c act d1 = ownCase current c act d2"
  using assms by (simp add: ownCase_def findOwnCase_def find_conj split: option.splits)

lemma findOwnDocumentOcr_view:
  assumes "own_view u d1 = own_view u d2"
  shows "fst (findOwnDocumentOcr id i c u d1) = fst (findOwnDocumentOcr id i c u d2)"
proof -
  have docs: "own_documents u d1 = own_documents u d2" "own_results u d1 = own_results u d2"
      "own_pages u d1 = own_pages u d2"
    using assms by (simp_all add: own_view_def)
  have res: "current_result i c u d1 = current_result i c u d2"
    unfolding current_result_view docs ..
  have pages: "pages_of (r_id r) d1 = pages_of (r_id r) d2" if "current_result i c u d2 = Some r" for r
    using current_result_own [OF that] docs by (simp add: pages_of_view [of r u])
  show ?thesis
    unfolding findOwnDocumentOcr_def findOwnDocument_view docs
    by (auto simp: Let_def res pages split: option.splits)
qed

text \<open>
  C33. A user sees nothing of another's documents: two databases with the same cases of the user,
  the same documents in them, and the same OCR executions and pages of those documents, answer the
  user's requests alike, so a foreign document cannot be told from one that does not exist.
\<close>

theorem documents_isolated:
  assumes "own_view (pu_id (cur_user current)) (w_db w1) = own_view (pu_id (cur_user current)) (w_db w2)"
  shows "listDocuments current c (w_db w1) = listDocuments current c (w_db w2) \<and>
    fst (createDownloadUrl opts now current c i w1) = fst (createDownloadUrl opts now current c i w2) \<and>
    fst (readDocumentOcr id current c i (w_db w1)) = fst (readDocumentOcr id current c i (w_db w2))"
proof -
  let ?u = "pu_id (cur_user current)"
  have own: "ownCase current c act (w_db w1) = ownCase current c act (w_db w2)" for act
    using assms by (intro ownCase_view) (simp add: own_view_def)
  have docs: "own_documents ?u (w_db w1) = own_documents ?u (w_db w2)"
    using assms by (simp add: own_view_def)
  have found: "findOwnDocument i c ?u (w_db w1) = findOwnDocument i c ?u (w_db w2)"
    unfolding findOwnDocument_view docs ..
  have list: "listDocuments current c (w_db w1) = listDocuments current c (w_db w2)"
    unfolding listDocuments_def listOwnCaseDocuments_view docs own ..
  have url: "fst (createDownloadUrl opts now current c i w1) = fst (createDownloadUrl opts now current c i w2)"
    unfolding createDownloadUrl_def own found
    by (auto simp: bindE_def createDownloadUrl_store_def presigned_def split: sum.splits option.splits)
  have "fst (readDocumentOcr id current c i (w_db w1)) = fst (readDocumentOcr id current c i (w_db w2))"
    using findOwnDocumentOcr_view [OF assms, of i c]
    unfolding readDocumentOcr_def own by (auto split: sum.splits option.splits prod.splits)
  with list url show ?thesis by blast
qed

section \<open>Concrete runs\<close>

definition pdf_bytes :: bytes where
  "pdf_bytes = [0x25, 0x50, 0x44, 0x46, 0x2d, 0x31, 0x2e, 0x37]"

definition case_world :: world where
  "case_world = \<lparr>w_db = one_case, w_objects = (\<lambda>_. None), w_urls = [], w_log = []\<rparr>"

definition test_options :: documents_options where
  "test_options = \<lparr>do_limit = DOCUMENT_MAX_BYTES, do_downloadUrlTtlSeconds = 60\<rparr>"

definition uploaded :: "call_env \<Rightarrow> (exn + public_document) \<times> world" where
  "uploaded env = uploadDocument env True test_options ''d1'' (owner ''u1'') ''c1'' [0x61] pdf_bytes run_ctx case_world"

lemma calm_undisturbed_for: "undisturbed_for calm i key"
  by (simp add: undisturbed_for_def calm_def)

theorem upload_all_or_nothing_witness:
  "\<exists>t. detectFileType pdf_bytes = Some t \<and>
    fully_stored (upload_input ''d1'' ''c1'' (owner ''u1'') [0x61] pdf_bytes t (storage_key ''c1'' ''d1'') run_ctx)
      pdf_bytes
      \<lparr>pd_id = ''d1'', pd_fileName = [0x61], pd_fileType = PDF, pd_fileSize = 8, pd_status = PENDING_SCAN,
       pd_ocrStatus = NOT_STARTED, pd_createdAt = 4000\<rparr> (snd (uploaded calm))"
proof -
  have res: "fst (uploaded calm) = Inr \<lparr>pd_id = ''d1'', pd_fileName = [0x61], pd_fileType = PDF, pd_fileSize = 8,
       pd_status = PENDING_SCAN, pd_ocrStatus = NOT_STARTED, pd_createdAt = 4000\<rparr>"
    by code_simp
  have fresh: "find_document ''d1'' (w_db case_world) = None" by code_simp
  have "w_objects case_world (storage_key ''c1'' ''d1'') = None" by (simp add: case_world_def)
  from upload_all_or_nothing [OF prod.collapse [symmetric, of "uploaded calm", unfolded uploaded_def]
      calm_undisturbed_for fresh this, folded uploaded_def]
  show ?thesis unfolding res by auto
qed

text \<open>
  When the commit took effect and is reported as failed, the object of the new row is removed: the
  document is there, in PENDING_SCAN with its job, and what it names is not.
\<close>

definition lost_commit :: call_env where
  "lost_commit = calm\<lparr>ce_fault := (\<lambda>n. if n = 3 then Some (Fails_after (Error ''connection closed'')) else None)\<rparr>"

lemma lost_commit_removes_object:
  "fst (uploaded lost_commit) = Inl (Error ''connection closed'')"
  "map_option d_status (find_document ''d1'' (w_db (snd (uploaded lost_commit)))) = Some PENDING_SCAN"
  "w_objects (snd (uploaded lost_commit)) (storage_key ''c1'' ''d1'') = None"
  by code_simp+

definition failed_document :: db where
  "failed_document = one_case\<lparr>documents := [(new_document
     (upload_input ''d1'' ''c1'' (owner ''u1'') [] pdf_bytes PDF ''k'' run_ctx) 9)\<lparr>d_status := SCAN_FAILED\<rparr>]\<rparr>"

definition admin :: current_user where
  "admin = (owner ''a1'')\<lparr>cur_actor := \<lparr>actor_id = ''a1'', actor_role = ADMIN, actor_status = ACTIVE\<rparr>\<rparr>"

theorem reprocess_requests_witness:
  "fst (requestReprocess True 7 admin ''d1'' ''why'' run_ctx failed_document) = Inr () \<and>
   fst (requestOcrReprocess True 7 admin ''d1'' ''why'' run_ctx failed_document) \<noteq> Inr ()"
proof -
  have "find_document ''d1'' failed_document =
      Some ((new_document (upload_input ''d1'' ''c1'' (owner ''u1'') [] pdf_bytes PDF ''k'' run_ctx) 9)\<lparr>d_status := SCAN_FAILED\<rparr>)"
    by (simp add: find_document_def failed_document_def new_document_def upload_input_def)
  with reprocess_requests [OF prod.collapse [symmetric] prod.collapse [symmetric],
      of True 7 admin "''d1''" "''why''" run_ctx failed_document True 7]
  show ?thesis by (simp add: admin_def)
qed

theorem documents_isolated_witness:
  "listDocuments (owner ''u2'') ''c1'' (w_db (snd (uploaded calm))) = Inl notFound \<and>
   listDocuments (owner ''u2'') ''c1'' (w_db (snd (uploaded calm)))
     = listDocuments (owner ''u2'') ''c1'' (w_db (case_world\<lparr>w_db := empty_db\<rparr>))"
proof -
  have "own_view (pu_id (cur_user (owner ''u2''))) (w_db (snd (uploaded calm)))
      = own_view (pu_id (cur_user (owner ''u2''))) (w_db (case_world\<lparr>w_db := empty_db\<rparr>))"
    by code_simp
  moreover have "listDocuments (owner ''u2'') ''c1'' (w_db (snd (uploaded calm))) = Inl notFound"
    by code_simp
  ultimately show ?thesis
    using documents_isolated [of "owner ''u2''" "snd (uploaded calm)"] by blast
qed

end
