(* ===== verification/Ocr_Theorems.thy ===== *)
theory Ocr_Theorems
  imports Ocr_Document Documents_Theorems
begin

text \<open>
  What the OCR of a document guarantees, whatever other processes do between its calls: its
  outcome is what the tables say, the provider only sees a document the worker may send it, and
  the owner reads exactly the normalized text of the execution.
\<close>

section \<open>The tables between the calls\<close>

text \<open>Primary and foreign keys, which every process keeps.\<close>

definition tables_ok :: "db \<Rightarrow> bool" where
  "tables_ok d \<longleftrightarrow> unique_documents d \<and>
     (\<forall>p \<in> set (ocrPages d). \<exists>r \<in> set (ocrResults d). r_id r = p_ocrResultId p)"

definition keeps_tables :: "call_env \<Rightarrow> bool" where
  "keeps_tables env \<longleftrightarrow> (\<forall>n w. tables_ok (w_db w) \<longrightarrow> tables_ok (w_db (ce_during env n w)))"

lemma call_Inr: "call env n m w = (Inr x, w') \<Longrightarrow> m (ce_clock env n) (ce_during env n w) = (Inr x, w')"
  by (simp add: call_def faulty_Inr)

lemma in_db_Inr: "in_db m w = (Inr x, w') \<Longrightarrow> m (w_db w) = (Inr x, w_db w')"
  by (auto simp: in_db_def split: prod.splits)

lemma call_db_Inr:
  assumes "call env n (\<lambda>now. in_db (m now)) w = (Inr x, w')" and "keeps_tables env" and "tables_ok (w_db w)"
  obtains d where "tables_ok d" and "m (ce_clock env n) d = (Inr x, w_db w')"
  using call_Inr [OF assms(1)] assms(2,3) that [of "w_db (ce_during env n w)"]
  by (auto simp: keeps_tables_def dest: in_db_Inr)

lemma tables_ok_claim:
  assumes "tables_ok d" and "claim_ocr i lease now d = (r, d')"
  shows "tables_ok d'"
proof -
  have "ocrPages d' = ocrPages d" "ocrResults d' = ocrResults d"
    using assms(2) by (auto simp: claim_ocr_def split: option.splits)
  moreover have "unique_documents d'"
    using ocr_claims.claim_unique [of d i lease now] assms by (simp add: tables_ok_def)
  ultimately show ?thesis using assms(1) by (simp add: tables_ok_def)
qed

text \<open>Reading the object leaves the database to the others.\<close>

lemma readRepresentation_tables:
  assumes "readRepresentation env c rep w = (r, w')" and "keeps_tables env" and "tables_ok (w_db w)"
  shows "tables_ok (w_db w')"
proof -
  have get: "tables_ok (w_db (snd (call env 2 (\<lambda>_. getObject key) w)))" for key
    using assms(2,3) memory.get_faulty_pure [of "ce_fault env 2" key "ce_during env 2 w"]
    by (simp add: call_def keeps_tables_def)
  show ?thesis
  proof (cases "if rep = ORIGINAL then Some (oc_storageKey c) else oc_sanitizedStorageKey c")
    case None
    with assms(1,3) show ?thesis by (simp add: readRepresentation_def)
  next
    case (Some key)
    obtain rk wk where k: "call env 2 (\<lambda>_. getObject key) w = (rk, wk)" by fastforce
    have "w' = w \<or> w' = wk"
      using assms(1) Some k
      by (cases rk) (auto simp: readRepresentation_def bindE_def catchE_def split: if_splits exn.splits)
    with get [of key] k assms(3) show ?thesis by auto
  qed
qed

section \<open>What is recorded\<close>

text \<open>What each outcome says of the tables the job leaves.\<close>

definition outcome_recorded :: "ocr_deps \<Rightarrow> call_env \<Rightarrow> uuid \<Rightarrow> uuid \<Rightarrow> ocr_job_outcome \<Rightarrow> db \<Rightarrow> bool" where
  "outcome_recorded deps env newId i outcome d =
    (case outcome of
       Ocr_completed \<Rightarrow> \<exists>r t content reading x. find_document i d = Some r \<and> d_ocrStatus r = COMPLETED \<and>
         read_pages deps t content = Inr reading \<and>
         x \<in> set (ocrResults d) \<and> r_id x = newId \<and> r_documentId x = i \<and> r_outcome x = Outcome_COMPLETED \<and>
         r_pages x = Some (int (length (rd_pages reading))) \<and> r_finishedAt x = ce_clock env 4 \<and>
         filter (\<lambda>p. p_ocrResultId p = newId) (ocrPages d) = page_rows newId (rd_pages reading)
     | Ocr_failed \<Rightarrow> \<exists>r x e. find_document i d = Some r \<and> d_ocrStatus r = FAILED \<and>
         x \<in> set (ocrResults d) \<and> r_id x = newId \<and> r_documentId x = i \<and> r_outcome x = Outcome_FAILED \<and>
         r_errorCode x = Some e \<and> filter (\<lambda>p. p_ocrResultId p = newId) (ocrPages d) = []
     | Ocr_retry \<Rightarrow> \<exists>r n. find_document i d = Some r \<and> d_ocrStatus r = PENDING \<and> d_ocrStartedAt r = None \<and>
         0 < n \<and> n < od_maxAttempts deps \<and>
         \<lparr>j_queue = DOCUMENT_OCR_QUEUE, j_documentId = i,
          j_startAfter = min (od_retryDelaySeconds deps * 2 ^ nat (n - 1)) 3600\<rparr> \<in> set (jobs d)
     | Ocr_excluded \<Rightarrow> \<not> od_pdfAllowed deps \<and> (\<exists>r. find_document i d = Some r \<and> d_ocrStatus r = EXCLUDED)
     | Ocr_skipped \<Rightarrow> True
     | Ocr_lost \<Rightarrow> True)"

lemma completed_recordedI:
  assumes "\<exists>r. find_document i d = Some r \<and> d_ocrStatus r = COMPLETED" and "read_pages deps t content = Inr reading"
    and "x \<in> set (ocrResults d)" and "r_id x = newId" and "r_documentId x = i" and "r_outcome x = Outcome_COMPLETED"
    and "r_pages x = Some (int (length (rd_pages reading)))" and "r_finishedAt x = ce_clock env 4"
    and "filter (\<lambda>p. p_ocrResultId p = newId) (ocrPages d) = page_rows newId (rd_pages reading)"
  shows "outcome_recorded deps env newId i Ocr_completed d"
  using assms unfolding outcome_recorded_def ocr_job_outcome.case by blast

lemma failed_recordedI:
  assumes "\<exists>r. find_document i d = Some r \<and> d_ocrStatus r = FAILED"
    and "x \<in> set (ocrResults d)" and "r_id x = newId" and "r_documentId x = i" and "r_outcome x = Outcome_FAILED"
    and "r_errorCode x = Some e" and "filter (\<lambda>p. p_ocrResultId p = newId) (ocrPages d) = []"
  shows "outcome_recorded deps env newId i Ocr_failed d"
  using assms unfolding outcome_recorded_def ocr_job_outcome.case by blast

lemma find_ocr_update:
  assumes "find_document i d = Some r" and "ocr_held c r" and "oc_documentId c = i"
    and "\<And>x. d_id (f x) = d_id x"
    and "documents d' = update_where (\<lambda>x. d_id x = i \<and> ocr_held c x) f (documents d)"
  shows "find_document i d' = Some (f r)"
  using find_update_document [of f i i "ocr_held c" d] assms by (simp add: find_document_def)

lemma finish_ocr_recorded:
  assumes "finish_ocr now c outcome x detail d = (Inr True, d')" and "tables_ok d"
  shows "\<exists>r. find_document (oc_documentId c) d' = Some r \<and> d_ocrStatus r = ocr_outcome_status outcome"
    and "ocrResults d' = ocrResults d @ [result_row c outcome x detail now]"
    and "filter (\<lambda>p. p_ocrResultId p = ex_id x) (ocrPages d') = page_rows (ex_id x) (fd_pageTexts detail)"
proof -
  have u: "unique_documents d" using assms(2) by (simp add: tables_ok_def)
  obtain r where r: "find_document (oc_documentId c) d = Some r" "ocr_held c r"
      and fresh: "\<not> result_violates (result_row c outcome x detail now) (fd_pageTexts detail) d"
      and d': "d' = ocr_finished now c outcome x detail d"
    using finish_ocr_cases [OF u, of now c outcome x detail] assms(1) by (auto split: if_splits)
  have id: "\<not> (\<exists>r \<in> set (ocrResults d). r_id r = ex_id x)"
    using fresh by (auto simp: result_violates_def result_row_def)
  with assms(2) have "filter (\<lambda>p. p_ocrResultId p = ex_id x) (ocrPages d) = []"
    by (auto simp: tables_ok_def filter_empty_conv)
  moreover have "filter (\<lambda>p. p_ocrResultId p = ex_id x) (page_rows (ex_id x) ts) = page_rows (ex_id x) ts" for ts
    by (auto simp: page_rows_def filter_id_conv)
  ultimately show "filter (\<lambda>p. p_ocrResultId p = ex_id x) (ocrPages d') = page_rows (ex_id x) (fd_pageTexts detail)"
    by (simp add: d')
  have "find_document (oc_documentId c) d' = Some (r\<lparr>d_ocrStatus := ocr_outcome_status outcome\<rparr>)"
    by (rule find_ocr_update [OF r refl]) (simp_all add: d')
  then show "\<exists>r. find_document (oc_documentId c) d' = Some r \<and> d_ocrStatus r = ocr_outcome_status outcome"
    by simp
  show "ocrResults d' = ocrResults d @ [result_row c outcome x detail now]"
    by (simp add: d')
qed

lemma releaseForRetry_True:
  assumes "unique_documents d" and "releaseForRetry sent c delay d = (Inr True, d')"
  shows "\<exists>r. find_document (oc_documentId c) d = Some r \<and> ocr_held c r \<and>
    d' = send_job DOCUMENT_OCR_QUEUE (oc_documentId c) delay
      (update_document (oc_documentId c) (ocr_held c) (\<lambda>r. r\<lparr>d_ocrStatus := PENDING, d_ocrStartedAt := None\<rparr>) d)"
proof (cases "\<exists>r. find_document (oc_documentId c) d = Some r \<and> ocr_held c r")
  case True
  with assms(2) have "d' = send_job DOCUMENT_OCR_QUEUE (oc_documentId c) delay
      (update_document (oc_documentId c) (ocr_held c) (\<lambda>r. r\<lparr>d_ocrStatus := PENDING, d_ocrStartedAt := None\<rparr>) d)"
    by (cases sent) (auto simp: releaseForRetry_def transaction_def Let_def bindE_def boss_send_def
        ocr_matching [OF assms(1)])
  with True show ?thesis by blast
next
  case False
  then have "matching (oc_documentId c) (ocr_held c) d = 0" by (simp add: ocr_matching [OF assms(1)])
  with assms(2) show ?thesis by (simp add: releaseForRetry_def transaction_def Let_def)
qed

lemma markExcluded_True:
  assumes "unique_documents d" and "markExcluded c d = (Inr True, d')"
  shows "\<exists>r. find_document (oc_documentId c) d = Some r \<and> ocr_held c r \<and>
    d' = update_document (oc_documentId c) (ocr_held c) (\<lambda>r. r\<lparr>d_ocrStatus := EXCLUDED\<rparr>) d"
proof (cases "\<exists>r. find_document (oc_documentId c) d = Some r \<and> ocr_held c r")
  case True
  with assms(2) show ?thesis by (auto simp: markExcluded_def)
next
  case False
  then have "matching (oc_documentId c) (ocr_held c) d = 0" by (simp add: ocr_matching [OF assms(1)])
  with assms(2) show ?thesis by (simp add: markExcluded_def)
qed

lemma ocr_attempt_failed_recorded:
  assumes "ocr_attempt_failed deps env newId c rep failure w = (Inr outcome, w')"
    and "keeps_tables env" and "tables_ok (w_db w)" and "0 < oc_attempts c"
  shows "outcome_recorded deps env newId (oc_documentId c) outcome (w_db w')"
proof -
  obtain k e s where cl: "classify (of_error failure) = (k, e, s)" by (metis prod_cases3)
  let ?w = "logging (Ocr_error (oc_documentId c) e k s (oc_attempts c)) w"
  have w: "tables_ok (w_db ?w)" using assms(3) by simp
  let ?x = "\<lparr>ex_id = newId, ex_engine = od_engine deps, ex_engineVersion = of_engineVersion failure,
      ex_representation = Some rep, ex_processedSha256 = of_processedSha256 failure, ex_errorCode = e\<rparr>"
  show ?thesis
  proof (cases "k = permanent \<or> od_maxAttempts deps \<le> oc_attempts c")
    case True
    then obtain b where b: "call env 3 (\<lambda>now. in_db (markFailed_ocr now c ?x)) ?w = (Inr b, w')"
        "outcome = (if b then Ocr_failed else Ocr_lost)"
      using assms(1) cl by (auto simp: ocr_attempt_failed_def bindE_eq_Inr)
    obtain d where d: "tables_ok d" "markFailed_ocr (ce_clock env 3) c ?x d = (Inr b, w_db w')"
      using call_db_Inr [OF b(1) assms(2) w] by blast
    show ?thesis
    proof (cases b)
      case b': True
      let ?d = "\<lparr>fd_pages = None, fd_pageTexts = [], fd_errorCode = Some e,
          fd_action = ''document.ocr_failed'',
          fd_newValue = [(''status'', JStr ''FAILED''), (''code'', JStr (ocr_error_code_name e)),
            (''attempts'', JNum (oc_attempts c))]\<rparr>"
      have "finish_ocr (ce_clock env 3) c Outcome_FAILED ?x
          \<lparr>fd_pages = None, fd_pageTexts = [], fd_errorCode = Some e, fd_action = ''document.ocr_failed'',
           fd_newValue = [(''status'', JStr ''FAILED''), (''code'', JStr (ocr_error_code_name e)),
             (''attempts'', JNum (oc_attempts c))]\<rparr> d = (Inr True, w_db w')"
        using d(2) b' by (simp add: markFailed_ocr_def)
      note rec = finish_ocr_recorded [OF this d(1)]
      have "outcome_recorded deps env newId (oc_documentId c) Ocr_failed (w_db w')"
        by (rule failed_recordedI [OF rec(1) [unfolded ocr_outcome_status_def, simplified],
              of "result_row c Outcome_FAILED ?x ?d (ce_clock env 3)" _ e])
          (use rec(2,3) in \<open>simp_all add: result_row_def page_rows_def\<close>)
      with b(2) b' show ?thesis by simp
    qed (use b(2) in \<open>simp add: outcome_recorded_def\<close>)
  next
    case False
    then obtain b where b: "call env 3 (\<lambda>_. in_db (releaseForRetry (od_sent deps) c (retry_delay deps c))) ?w = (Inr b, w')"
        "outcome = (if b then Ocr_retry else Ocr_lost)"
      using assms(1) cl by (auto simp: ocr_attempt_failed_def bindE_eq_Inr)
    obtain d where d: "tables_ok d" "releaseForRetry (od_sent deps) c (retry_delay deps c) d = (Inr b, w_db w')"
      using call_db_Inr [OF b(1) assms(2) w] by blast
    show ?thesis
    proof (cases b)
      case b': True
      then have b'': "b = True" by simp
      let ?f = "\<lambda>r. r\<lparr>d_ocrStatus := PENDING, d_ocrStartedAt := None\<rparr>"
      have u: "unique_documents d" using d(1) by (simp add: tables_ok_def)
      obtain r where r: "find_document (oc_documentId c) d = Some r" "ocr_held c r"
        and d': "w_db w' = send_job DOCUMENT_OCR_QUEUE (oc_documentId c) (retry_delay deps c)
          (update_document (oc_documentId c) (ocr_held c) ?f d)"
        using releaseForRetry_True [OF u d(2) [unfolded b'' ]] by blast
      have "find_document (oc_documentId c) (w_db w') = Some (?f r)"
        by (rule find_ocr_update [OF r refl]) (simp_all add: d')
      with False b(2) b' d' assms(4) show ?thesis
        by (auto simp: outcome_recorded_def retry_delay_def MAX_RETRY_DELAY_SECONDS_def)
    qed (use b(2) in \<open>simp add: outcome_recorded_def\<close>)
  qed
qed

lemma ocr_treat_recorded:
  assumes "ocr_treat deps env newId c w = (Inr outcome, w')"
    and "keeps_tables env" and "tables_ok (w_db w)" and "0 < oc_attempts c"
  shows "outcome_recorded deps env newId (oc_documentId c) outcome (w_db w')"
proof (cases "oc_fileType c = PDF \<and> \<not> od_pdfAllowed deps")
  case True
  then obtain b where b: "call env 1 (\<lambda>_. in_db (markExcluded c)) w = (Inr b, w')"
      "outcome = (if b then Ocr_excluded else Ocr_lost)"
    using assms(1) by (auto simp: ocr_treat_def bindE_eq_Inr)
  obtain d where d: "tables_ok d" "markExcluded c d = (Inr b, w_db w')"
    using call_db_Inr [OF b(1) assms(2,3)] by blast
  show ?thesis
  proof (cases b)
    case b': True
    then have b'': "b = True" by simp
    let ?f = "\<lambda>r. r\<lparr>d_ocrStatus := EXCLUDED\<rparr>"
    have u: "unique_documents d" using d(1) by (simp add: tables_ok_def)
    obtain r where r: "find_document (oc_documentId c) d = Some r" "ocr_held c r"
      and d': "w_db w' = update_document (oc_documentId c) (ocr_held c) ?f d"
      using markExcluded_True [OF u d(2) [unfolded b'' ]] by blast
    have "find_document (oc_documentId c) (w_db w') = Some (?f r)"
      by (rule find_ocr_update [OF r refl]) (simp_all add: d')
    with True b(2) b' show ?thesis by (simp add: outcome_recorded_def)
  qed (use b(2) in \<open>simp add: outcome_recorded_def\<close>)
next
  case False
  let ?rep = "if oc_fileType c = PDF then ORIGINAL else od_imageRepresentation deps"
  obtain rr w1 where rd: "readRepresentation env c ?rep w = (rr, w1)" by fastforce
  have w1: "tables_ok (w_db w1)" by (rule readRepresentation_tables [OF rd assms(2,3)])
  show ?thesis
  proof (cases "fst (read_document deps env c ?rep w)")
    case (Inl failure)
    have "snd (read_document deps env c ?rep w) = w1"
      using rd by (simp add: read_document_def split: sum.splits)
    with Inl have "read_document deps env c ?rep w = (Inl failure, w1)" by (simp add: prod_eq_iff)
    with assms(1) have "ocr_attempt_failed deps env newId c ?rep failure w1 = (Inr outcome, w')"
      unfolding ocr_treat_def if_not_P [OF False] Let_def by simp
    from ocr_attempt_failed_recorded [OF this assms(2) w1 assms(4)] show ?thesis .
  next
    case (Inr reading)
    then obtain content where read: "rr = Inr content" "read_pages deps (oc_fileType c) content = Inr reading"
      using rd by (auto simp: read_document_def split: sum.splits)
    let ?x = "\<lparr>ex_id = newId, ex_engine = od_engine deps, ex_engineVersion = rd_engineVersion reading,
        ex_representation = Some ?rep, ex_processedSha256 = Some (rd_processedSha256 reading),
        ex_pages = int (length (rd_pages reading))\<rparr>"
    obtain b where b: "call env 4 (\<lambda>now. in_db (markCompleted now c ?x (rd_pages reading))) w1 = (Inr b, w')"
        "outcome = (if b then Ocr_completed else Ocr_lost)"
      using assms(1) rd read unfolding ocr_treat_def if_not_P [OF False] Let_def
      by (auto simp: read_document_def bindE_eq_Inr)
    obtain d where d: "tables_ok d" "markCompleted (ce_clock env 4) c ?x (rd_pages reading) d = (Inr b, w_db w')"
      using call_db_Inr [OF b(1) assms(2) w1] by blast
    show ?thesis
    proof (cases b)
      case b': True
      let ?d = "\<lparr>fd_pages = Some (int (length (rd_pages reading))), fd_pageTexts = rd_pages reading,
          fd_errorCode = None, fd_action = ''document.ocr_completed'',
          fd_newValue = [(''status'', JStr ''COMPLETED''), (''pages'', JNum (int (length (rd_pages reading)))),
            (''attempts'', JNum (oc_attempts c))]\<rparr>"
      have "finish_ocr (ce_clock env 4) c Outcome_COMPLETED ?x
          \<lparr>fd_pages = Some (int (length (rd_pages reading))), fd_pageTexts = rd_pages reading,
           fd_errorCode = None, fd_action = ''document.ocr_completed'',
           fd_newValue = [(''status'', JStr ''COMPLETED''), (''pages'', JNum (int (length (rd_pages reading)))),
             (''attempts'', JNum (oc_attempts c))]\<rparr> d = (Inr True, w_db w')"
        using d(2) b' by (simp add: markCompleted_def)
      note rec = finish_ocr_recorded [OF this d(1)]
      have "outcome_recorded deps env newId (oc_documentId c) Ocr_completed (w_db w')"
        by (rule completed_recordedI [OF rec(1) [unfolded ocr_outcome_status_def, simplified] read(2),
              of "result_row c Outcome_COMPLETED ?x ?d (ce_clock env 4)"])
          (use rec(2,3) in \<open>simp_all add: result_row_def\<close>)
      with b(2) b' show ?thesis by simp
    qed (use b(2) in \<open>simp add: outcome_recorded_def\<close>)
  qed
qed

text \<open>The claim the job works with.\<close>

lemma ocr_claim_call:
  assumes "call env 0 (\<lambda>now. in_db (claim_ocr i lease now)) w = (Inr (Some c), w')"
    and "keeps_tables env" and "tables_ok (w_db w)"
  obtains r where "find_document i (w_db (ce_during env 0 w)) = Some r"
    and "ocr_claimable lease (ce_clock env 0) r" and "c = to_ocr_claim (ce_clock env 0) (start_ocr (ce_clock env 0) r)"
    and "oc_documentId c = i" and "tables_ok (w_db w')" and "w_objects w' = w_objects (ce_during env 0 w)"
proof -
  let ?w = "ce_during env 0 w"
  have d0: "tables_ok (w_db ?w)" using assms(2,3) by (simp add: keeps_tables_def)
  have run: "in_db (claim_ocr i lease (ce_clock env 0)) ?w = (Inr (Some c), w')"
    by (rule call_Inr [OF assms(1)])
  then have db: "claim_ocr i lease (ce_clock env 0) (w_db ?w) = (Inr (Some c), w_db w')" by (rule in_db_Inr)
  obtain r where "find_document i (w_db ?w) = Some r" "ocr_claimable lease (ce_clock env 0) r"
      "c = to_ocr_claim (ce_clock env 0) (start_ocr (ce_clock env 0) r)"
    using claim_ocr_given [OF _ db] d0 by (metis tables_ok_def)
  moreover have "tables_ok (w_db w')" by (rule tables_ok_claim [OF d0 db])
  moreover have "w_objects w' = w_objects ?w" using run by (auto simp: in_db_def split: prod.splits)
  moreover from calculation have "oc_documentId c = i"
    by (simp add: to_ocr_claim_def find_document_SomeD)
  ultimately show ?thesis using that by blast
qed

section \<open>Properties\<close>

definition attempts_sane :: "call_env \<Rightarrow> world \<Rightarrow> uuid \<Rightarrow> bool" where
  "attempts_sane env w i \<longleftrightarrow>
     (case find_document i (w_db (ce_during env 0 w)) of None \<Rightarrow> True | Some r \<Rightarrow> 0 \<le> d_ocrAttempts r)"

text \<open>
  C27. The outcome of an OCR job is what the tables say, whatever other processes did meanwhile:
  completed, the document is COMPLETED and the execution has its result and exactly its pages;
  failed, it is FAILED with a result that has an error code and no page; retried, it is PENDING
  with a job delayed by the doubling delay, never over an hour, and attempts are left; excluded,
  a PDF this worker may not process.
\<close>

theorem ocr_outcome_recorded:
  assumes "ocrDocument deps env newId i w = (Inr outcome, w')"
    and "keeps_tables env" and "tables_ok (w_db w)" and "attempts_sane env w i"
  shows "outcome_recorded deps env newId i outcome (w_db w')"
proof (cases "outcome = Ocr_skipped")
  case True
  then show ?thesis by (simp add: outcome_recorded_def)
next
  case False
  then obtain c w1 where claim: "call env 0 (\<lambda>now. in_db (claim_ocr i (od_leaseSeconds deps) now)) w = (Inr (Some c), w1)"
    and treat: "ocr_treat deps env newId c w1 = (Inr outcome, w')"
    using assms(1) by (auto simp: ocrDocument_def bindE_eq_Inr split: option.splits)
  obtain r where r: "find_document i (w_db (ce_during env 0 w)) = Some r"
      "c = to_ocr_claim (ce_clock env 0) (start_ocr (ce_clock env 0) r)" "oc_documentId c = i" "tables_ok (w_db w1)"
    using ocr_claim_call [OF claim assms(2,3)] by metis
  have "0 < oc_attempts c"
    using assms(4) r(1,2) by (simp add: attempts_sane_def to_ocr_claim_def start_ocr_def)
  from ocr_treat_recorded [OF treat assms(2) r(4) this] r(3) show ?thesis by simp
qed

text \<open>
  C29. The provider is never called without a valid claim, nor for a PDF this worker may not send
  it: if the document may not be claimed, or is such a PDF, the job does the same with any other
  provider.
\<close>

theorem provider_not_called:
  assumes "\<And>r. find_document i (w_db (ce_during env 0 w)) = Some r \<Longrightarrow>
      \<not> ocr_claimable (od_leaseSeconds deps) (ce_clock env 0) r \<or> d_fileType r = PDF \<and> \<not> od_pdfAllowed deps"
    and "keeps_tables env" and "tables_ok (w_db w)"
  shows "ocrDocument (deps\<lparr>od_recognize := provider\<rparr>) env newId i w = ocrDocument deps env newId i w"
proof -
  let ?claim = "call env 0 (\<lambda>now. in_db (claim_ocr i (od_leaseSeconds deps) now)) w"
  obtain rc w1 where claim: "?claim = (rc, w1)" by fastforce
  have "ocr_treat (deps\<lparr>od_recognize := provider\<rparr>) env newId c = ocr_treat deps env newId c"
    if "rc = Inr (Some c)" for c
  proof -
    have claim': "?claim = (Inr (Some c), w1)" using claim that by simp
    obtain r where r: "find_document i (w_db (ce_during env 0 w)) = Some r"
        "ocr_claimable (od_leaseSeconds deps) (ce_clock env 0) r"
        "c = to_ocr_claim (ce_clock env 0) (start_ocr (ce_clock env 0) r)"
      using ocr_claim_call [OF claim' assms(2,3)] by metis
    with assms(1) [OF r(1)] have "oc_fileType c = PDF \<and> \<not> od_pdfAllowed deps"
      by (simp add: to_ocr_claim_def start_ocr_def)
    then show ?thesis by (simp add: ocr_treat_def)
  qed
  then show ?thesis using claim by (auto simp: ocrDocument_def bindE_def split: sum.splits option.splits)
qed

section \<open>From the provider to the owner\<close>

lemma sorted_page_rows: "sort_key p_pageNumber (page_rows i texts) = page_rows i texts"
proof -
  have "map p_pageNumber (page_rows i texts) = map (\<lambda>n. int n + 1) [0..<length texts]"
    by (intro nth_equalityI) (simp_all add: page_rows_def nth_enumerate_eq)
  moreover have "sorted (map (\<lambda>n. int n + 1) [0..<m])" for m
    by (simp add: sorted_iff_nth_mono)
  ultimately show ?thesis by (simp add: sort_key_id_if_sorted)
qed

definition numbered :: "js_text list \<Rightarrow> (int \<times> js_text) list" where
  "numbered texts = map (\<lambda>(k, t). (int k + 1, t)) (enumerate 0 texts)"

lemma pages_of_recorded:
  assumes "filter (\<lambda>p. p_ocrResultId p = x) (ocrPages d) = page_rows x texts"
  shows "pages_of x d = numbered texts"
  by (simp add: pages_of_def assms sorted_page_rows) (simp add: page_rows_def numbered_def split_def)

lemma in_set_not_Nil: "x \<in> set xs \<Longrightarrow> xs \<noteq> []"
  by auto

lemma rev_exhaust': "xs \<noteq> [] \<Longrightarrow> (\<And>ys y. xs = ys @ [y] \<Longrightarrow> P) \<Longrightarrow> P"
  by (cases xs rule: rev_cases) auto

lemma current_result_latest:
  assumes "find_document i d = Some r" and "d_caseId r = c" and "owned_case u d c" and "d_ocrStatus r = COMPLETED"
    and "x \<in> set (ocrResults d)" and "r_documentId x = i" and "r_outcome x = Outcome_COMPLETED"
    and "\<And>y. y \<in> set (ocrResults d) \<Longrightarrow> r_documentId y = i \<Longrightarrow> r_id y = r_id x \<or> r_finishedAt y < r_finishedAt x"
  shows "\<exists>y. current_result i c u d = Some y \<and> r_id y = r_id x"
proof -
  let ?k = "\<lambda>r. (r_finishedAt r, r_id r)"
  let ?P = "\<lambda>y. r_documentId y = i \<and> r_outcome y = Outcome_COMPLETED \<and>
      (\<exists>z \<in> set (documents d). d_id z = i \<and> d_caseId z = c \<and> owned_case u d (d_caseId z) \<and> d_ocrStatus z = COMPLETED)"
  let ?ys = "sort_key ?k (filter ?P (ocrResults d))"
  have "?P x" using assms(2-4,6,7) find_document_SomeD [OF assms(1)] by blast
  then have x: "x \<in> set ?ys" using assms(5) by simp
  then have "?ys \<noteq> []" by (rule in_set_not_Nil)
  then obtain ys y where ys: "?ys = ys @ [y]" by (rule rev_exhaust')
  have cur: "current_result i c u d = Some y" by (simp add: current_result_def ys)
  have y: "y \<in> set (ocrResults d)" "r_documentId y = i"
    using arg_cong [OF ys, of set] by auto
  have "sorted (map ?k (ys @ [y]))" unfolding ys [symmetric] by (rule sorted_sort_key)
  then have "?k x \<le> ?k y" using x unfolding ys by (auto simp: sorted_append)
  then have "r_finishedAt x \<le> r_finishedAt y" by auto
  with assms(8) [OF y] cur show ?thesis by auto
qed

text \<open>
  C28. What the owner reads is what the provider answered: after a completed OCR, the owner's
  request for the document's text gets the provider's pages, in order, numbered from 1, each
  normalized, as long as no later execution of the document was recorded.
\<close>

theorem ocr_then_read:
  assumes "ocrDocument deps env newId i w = (Inr Ocr_completed, w')"
    and "keeps_tables env" and "tables_ok (w_db w)" and "attempts_sane env w i"
    and "ownCase current c ''document:read_ocr'' (w_db w') = Inr cs"
    and "findOwnDocument i c (pu_id (cur_user current)) (w_db w') = Some r"
    and "\<And>y. y \<in> set (ocrResults (w_db w')) \<Longrightarrow> r_documentId y = i \<Longrightarrow>
      r_id y = newId \<or> r_finishedAt y < ce_clock env 4"
    and "unique_documents (w_db w')"
  shows "\<exists>input answers version.
    od_recognize deps input = Inr \<lparr>out_pages = Some (map Some answers), out_engineVersion = version\<rparr> \<and>
    fst (readDocumentOcr id current c i (w_db w')) =
      Inr \<lparr>or_ocrStatus = COMPLETED, or_pages = numbered (map (normalizeOcrText (od_nfc deps)) answers)\<rparr>"
proof -
  let ?d = "w_db w'" and ?u = "pu_id (cur_user current)"
  obtain r' t content reading x where rec: "find_document i ?d = Some r'" "d_ocrStatus r' = COMPLETED"
      "read_pages deps t content = Inr reading" "x \<in> set (ocrResults ?d)" "r_id x = newId" "r_documentId x = i"
      "r_outcome x = Outcome_COMPLETED" "r_finishedAt x = ce_clock env 4"
      "filter (\<lambda>p. p_ocrResultId p = newId) (ocrPages ?d) = page_rows newId (rd_pages reading)"
    using ocr_outcome_recorded [OF assms(1-4)] unfolding outcome_recorded_def ocr_job_outcome.case by blast
  have own: "r \<in> set (documents ?d)" "d_id r = i" "d_caseId r = c" "owned_case ?u ?d c"
    using find_SomeD [OF assms(6) [unfolded findOwnDocument_def]] by auto
  then have "find_document i ?d = Some r" using assms(8) by (simp add: find_document_iff)
  with rec(1) have r': "r' = r" by simp
  obtain y where y: "current_result i c ?u ?d = Some y" "r_id y = newId"
    using current_result_latest [OF rec(1) _ own(4) rec(2,4,6,7)] own(3) r' rec(5,8) assms(7) by metis
  have pages: "pages_of newId ?d = numbered (rd_pages reading)"
    by (rule pages_of_recorded [OF rec(9)])
  obtain answers version where answers: "od_recognize deps \<lparr>in_content = content,
        in_contentType = OCR_CONTENT_TYPES t, in_maxPages = od_maxPages deps\<rparr>
      = Inr \<lparr>out_pages = Some (map Some answers), out_engineVersion = version\<rparr>"
      "rd_pages reading = map (normalizeOcrText (od_nfc deps)) answers"
    using read_pages_Inr(3) [OF rec(3)] by blast
  have "fst (readDocumentOcr id current c i ?d) = Inr \<lparr>or_ocrStatus = COMPLETED, or_pages = pages_of newId ?d\<rparr>"
    using rec(2) r' y by (simp add: readDocumentOcr_def assms(5,6) findOwnDocumentOcr_def Let_def)
  with answers pages show ?thesis by metis
qed

section \<open>Concrete runs\<close>

definition clean_document :: "document_file_type \<Rightarrow> document_row" where
  "clean_document t = (new_document
     (upload_input ''d1'' ''c1'' (owner ''u1'') [0x61] pdf_bytes t ''k'' run_ctx) 9)
       \<lparr>d_status := CLEAN, d_ocrStatus := PENDING\<rparr>"

definition ocr_world :: "document_file_type \<Rightarrow> world" where
  "ocr_world t = \<lparr>w_db = one_case\<lparr>documents := [clean_document t]\<rparr>,
     w_objects = (\<lambda>k. if k = ''k'' then Some \<lparr>so_body = pdf_bytes, so_contentType = ''application/pdf''\<rparr> else None),
     w_urls = [], w_log = []\<rparr>"

definition two_pages :: ocr_deps where
  "two_pages = \<lparr>od_recognize = (\<lambda>_. Inr \<lparr>out_pages = Some [Some [0x61, 0x0d, 0x0a], Some []], out_engineVersion = None\<rparr>),
     od_engine = ''engine'', od_sha256 = (\<lambda>_. ''digest''), od_nfc = id, od_imageRepresentation = SANITIZED,
     od_pdfAllowed = True, od_maxAttempts = 3, od_leaseSeconds = 900, od_maxPages = 5,
     od_retryDelaySeconds = 60, od_sent = True\<rparr>"

lemma calm_keeps_tables: "keeps_tables calm"
  by (simp add: keeps_tables_def calm_def)

lemma one_case_no_pages: "ocrPages one_case = []"
  by code_simp

lemma ocr_world_facts:
  "tables_ok (w_db (ocr_world t))" "attempts_sane calm (ocr_world t) i"
  "find_document ''d1'' (w_db (ocr_world t)) = Some (clean_document t)"
  by (simp_all add: ocr_world_def tables_ok_def unique_documents_def one_case_no_pages
      attempts_sane_def calm_def find_document_def clean_document_def new_document_def upload_input_def)

definition read_run :: "ocr_deps \<Rightarrow> document_file_type \<Rightarrow> (exn + ocr_job_outcome) \<times> world" where
  "read_run deps t = ocrDocument deps calm ''e1'' ''d1'' (ocr_world t)"

lemma read_run_completed: "fst (read_run two_pages PDF) = Inr Ocr_completed"
  by code_simp

theorem ocr_outcome_recorded_witness:
  "\<exists>x. ocrResults (w_db (snd (read_run two_pages PDF))) = [x] \<and> r_pages x = Some 2 \<and>
    outcome_recorded two_pages calm ''e1'' ''d1'' Ocr_completed (w_db (snd (read_run two_pages PDF)))"
proof -
  have "ocrDocument two_pages calm ''e1'' ''d1'' (ocr_world PDF) = (Inr Ocr_completed, snd (read_run two_pages PDF))"
    using read_run_completed by (simp add: read_run_def prod_eq_iff)
  from ocr_outcome_recorded [OF this calm_keeps_tables ocr_world_facts(1,2)]
  have "outcome_recorded two_pages calm ''e1'' ''d1'' Ocr_completed (w_db (snd (read_run two_pages PDF)))" .
  moreover have "map r_pages (ocrResults (w_db (snd (read_run two_pages PDF)))) = [Some 2]" by code_simp
  ultimately show ?thesis by auto
qed

theorem provider_not_called_witness:
  "fst (ocrDocument (two_pages\<lparr>od_pdfAllowed := False, od_recognize := (\<lambda>_. Inl P2002)\<rparr>) calm ''e1'' ''d1'' (ocr_world PDF))
    = Inr Ocr_excluded"
proof -
  have "d_fileType r = PDF \<and> \<not> od_pdfAllowed (two_pages\<lparr>od_pdfAllowed := False\<rparr>)"
    if "find_document ''d1'' (w_db (ce_during calm 0 (ocr_world PDF))) = Some r" for r
    using that ocr_world_facts(3) [of PDF]
    by (auto simp: calm_def clean_document_def new_document_def upload_input_def)
  then have "ocrDocument (two_pages\<lparr>od_pdfAllowed := False, od_recognize := (\<lambda>_. Inl P2002)\<rparr>) calm ''e1'' ''d1'' (ocr_world PDF)
      = ocrDocument (two_pages\<lparr>od_pdfAllowed := False\<rparr>) calm ''e1'' ''d1'' (ocr_world PDF)"
    by (intro provider_not_called [OF disjI2]) (simp_all add: calm_keeps_tables ocr_world_facts)
  moreover have "fst (ocrDocument (two_pages\<lparr>od_pdfAllowed := False\<rparr>) calm ''e1'' ''d1'' (ocr_world PDF)) = Inr Ocr_excluded"
    by code_simp
  ultimately show ?thesis by simp
qed

theorem ocr_then_read_witness:
  "\<exists>input answers version.
    od_recognize two_pages input = Inr \<lparr>out_pages = Some (map Some answers), out_engineVersion = version\<rparr> \<and>
    fst (readDocumentOcr id (owner ''u1'') ''c1'' ''d1'' (w_db (snd (read_run two_pages PDF)))) =
      Inr \<lparr>or_ocrStatus = COMPLETED, or_pages = numbered (map (normalizeOcrText id) answers)\<rparr> \<and>
    numbered (map (normalizeOcrText id) answers) = [(1, [0x61, 0x0a]), (2, [])]"
proof -
  let ?w = "snd (read_run two_pages PDF)"
  have run: "ocrDocument two_pages calm ''e1'' ''d1'' (ocr_world PDF) = (Inr Ocr_completed, ?w)"
    using read_run_completed by (simp add: read_run_def prod_eq_iff)
  have own: "ownCase (owner ''u1'') ''c1'' ''document:read_ocr'' (w_db ?w)
        = Inr (hd (cases one_case))"
      "findOwnDocument ''d1'' ''c1'' (pu_id (cur_user (owner ''u1''))) (w_db ?w) = Some (hd (documents (w_db ?w)))"
      "map r_id (ocrResults (w_db ?w)) = [''e1'']" "map d_id (documents (w_db ?w)) = [''d1'']"
    by code_simp+
  have rd: "fst (readDocumentOcr id (owner ''u1'') ''c1'' ''d1'' (w_db ?w)) =
      Inr \<lparr>or_ocrStatus = COMPLETED, or_pages = [(1, [0x61, 0x0a]), (2, [])]\<rparr>"
    by code_simp
  have later: "r_id y = ''e1'' \<or> r_finishedAt y < ce_clock calm 4" if "y \<in> set (ocrResults (w_db ?w))" for y
    using that own(3) by (auto simp: map_eq_Cons_conv)
  have u: "unique_documents (w_db ?w)" using own(4) by (simp add: unique_documents_def)
  have nfc: "od_nfc two_pages = id" by (simp add: two_pages_def)
  from ocr_then_read [OF run calm_keeps_tables ocr_world_facts(1,2) own(1,2) later u] rd
  show ?thesis unfolding nfc by (metis (no_types, lifting) document_ocr_read.ext_inject sum.inject(2))
qed

end
