(* ===== verification/Worker_Theorems.thy ===== *)
theory Worker_Theorems
  imports Worker_Queue Ocr_Theorems
begin

text \<open>
  What the worker's recovery guarantees: a sweep takes back exactly the abandoned documents that
  nobody has locked, one job or one event each, and what a worker that lost its claim records
  afterwards is nothing.
\<close>

section \<open>Loops over rows\<close>

lemma update_all_frame [frame_simps, simp]:
  "documents (update_all P f d) = update_where P f (documents d)" "cases (update_all P f d) = cases d"
  "jobs (update_all P f d) = jobs d" "auditLogs (update_all P f d) = auditLogs d"
  "ocrResults (update_all P f d) = ocrResults d" "ocrPages (update_all P f d) = ocrPages d"
  by (simp_all add: update_all_def)

lemma for_each_Inr:
  assumes "for_each f xs d = (Inr u, d')" and "\<And>x d d'. x \<in> set xs \<Longrightarrow> f x d = (Inr (), d') \<Longrightarrow> g d' = g d @ [h x]"
  shows "g d' = g d @ map h xs"
  using assms
proof (induction xs arbitrary: d)
  case (Cons x xs)
  then obtain d1 where "f x d = (Inr (), d1)" "for_each f xs d1 = (Inr u, d')"
    by (auto simp: bindE_eq_Inr)
  with Cons.IH [of d1] Cons.prems(2) show ?case by simp
qed simp

lemma for_each_keeps:
  assumes "\<And>x d. g (snd (f x d)) = g d"
  shows "g (snd (for_each f xs d)) = g d"
proof (induction xs arbitrary: d)
  case (Cons x xs)
  show ?case using assms [of x d] Cons.IH [of "snd (f x d)"]
    by (auto simp: bindE_def split: prod.splits sum.splits)
qed simp

lemma for_each_total: "(\<And>x d. fst (f x d) \<noteq> Inl e) \<Longrightarrow> for_each f xs d \<noteq> (Inl e, d')"
proof (induction xs arbitrary: d)
  case (Cons x xs)
  obtain r d1 where "f x d = (r, d1)" by fastforce
  with Cons.prems [of x d] Cons.IH [OF Cons.prems, of d1] show ?case
    by (cases r) (auto simp: bindE_def)
qed simp

lemma send_scan_frame [simp]:
  "documents (snd (send_scan sent i d)) = documents d" "cases (snd (send_scan sent i d)) = cases d"
  "auditLogs (snd (send_scan sent i d)) = auditLogs d"
  "ocrResults (snd (send_scan sent i d)) = ocrResults d" "ocrPages (snd (send_scan sent i d)) = ocrPages d"
  by (simp_all add: send_scan_def boss_send_def)

lemma audit_given_up_frame [simp]:
  "documents (snd (audit_given_up env r d)) = documents d" "cases (snd (audit_given_up env r d)) = cases d"
  "jobs (snd (audit_given_up env r d)) = jobs d"
  "ocrResults (snd (audit_given_up env r d)) = ocrResults d" "ocrPages (snd (audit_given_up env r d)) = ocrPages d"
  by (simp_all add: audit_given_up_def)

lemmas for_each_frame [simp] =
  for_each_keeps [of documents, OF send_scan_frame(1)] for_each_keeps [of cases, OF send_scan_frame(2)]
  for_each_keeps [of auditLogs, OF send_scan_frame(3)] for_each_keeps [of ocrResults, OF send_scan_frame(4)]
  for_each_keeps [of ocrPages, OF send_scan_frame(5)]
  for_each_keeps [of documents, OF audit_given_up_frame(1)] for_each_keeps [of cases, OF audit_given_up_frame(2)]
  for_each_keeps [of jobs, OF audit_given_up_frame(3)] for_each_keeps [of ocrResults, OF audit_given_up_frame(4)]
  for_each_keeps [of ocrPages, OF audit_given_up_frame(5)]

section \<open>A sweep\<close>

definition swept_row :: "sweep_env \<Rightarrow> sweep_options \<Rightarrow> document_row \<Rightarrow> document_row" where
  "swept_row env opts r =
    (if exhausted env opts r then give_up_row env r
     else if recoverable env opts r then release_row r else r)"

lemma exhausted_not_recoverable:
  "exhausted env opts r \<Longrightarrow> \<not> recoverable env opts r"
  "\<not> recoverable env opts (give_up_row env r)"
  by (auto simp: exhausted_def recoverable_def scan_abandoned_def give_up_row_def)

lemma swept_rows:
  "update_where (recoverable env opts) release_row (update_where (exhausted env opts) (give_up_row env) rows)
    = map (swept_row env opts) rows"
  by (induction rows) (auto simp: swept_row_def exhausted_not_recoverable)

lemma swept_requeued:
  "map d_id (filter (recoverable env opts) (update_where (exhausted env opts) (give_up_row env) rows))
    = map d_id (filter (recoverable env opts) rows)"
  by (induction rows) (auto simp: exhausted_not_recoverable)

definition scan_job :: "uuid \<Rightarrow> job" where
  "scan_job i = \<lparr>j_queue = DOCUMENT_SCAN_QUEUE, j_documentId = i, j_startAfter = 0\<rparr>"

definition given_up_event :: "sweep_env \<Rightarrow> document_row \<Rightarrow> audit_row" where
  "given_up_event env r =
     \<lparr>a_entry = system_entry ''document.scan_failed'' (d_id r) (d_caseId r)
        [(''status'', JStr ''SCAN_FAILED''), (''attempts'', JNum (d_scanAttempts r))],
      a_occurredAt = sw_scannedAt env (d_id r)\<rparr>"

lemma audits_given_up:
  "for_each (audit_given_up env) rows d = (Inr (), d') \<Longrightarrow>
    auditLogs d' = auditLogs d @ map (given_up_event env) rows"
  by (rule for_each_Inr) (auto simp: audit_given_up_def given_up_event_def insert_audit_def)

lemma scans_sent:
  "for_each (send_scan sent) is d = (Inr (), d') \<Longrightarrow> jobs d' = jobs d @ map scan_job is"
  by (rule for_each_Inr) (auto simp: send_scan_def boss_send_Inr scan_job_def send_job_def)

lemma sweep_Inr:
  assumes "sweepUntreatedDocuments env opts d = (Inr res, d')"
  shows "documents d' = map (swept_row env opts) (documents d)"
    and "sr_failed res = map d_id (filter (exhausted env opts) (documents d))"
    and "sr_requeued res = map d_id (filter (recoverable env opts) (documents d))"
    and "jobs d' = jobs d @ map scan_job (sr_requeued res)"
    and "auditLogs d' = auditLogs d @ map (given_up_event env) (filter (exhausted env opts) (documents d))"
    and "cases d' = cases d" "ocrResults d' = ocrResults d" "ocrPages d' = ocrPages d"
proof -
  let ?failed = "filter (exhausted env opts) (documents d)"
  let ?d0 = "update_all (exhausted env opts) (give_up_row env) d"
  let ?ids = "\<lambda>d. map d_id (filter (recoverable env opts) (documents d))"
  obtain d1 where d1: "for_each (audit_given_up env) ?failed ?d0 = (Inr (), d1)"
    and d2: "for_each (send_scan (sw_sent env)) (?ids d1)
        (update_all (recoverable env opts) release_row d1) = (Inr (), d')"
    and res: "res = \<lparr>sr_requeued = ?ids d1, sr_failed = map d_id ?failed\<rparr>"
    using assms by (auto simp: sweepUntreatedDocuments_def Let_def bindE_eq_Inr)
  have s1: "d1 = snd (for_each (audit_given_up env) ?failed ?d0)" by (simp add: d1)
  have s2: "d' = snd (for_each (send_scan (sw_sent env)) (?ids d1)
      (update_all (recoverable env opts) release_row d1))" by (simp add: d2)
  have f1: "documents d1 = documents ?d0" "cases d1 = cases ?d0" "jobs d1 = jobs ?d0"
      "ocrResults d1 = ocrResults ?d0" "ocrPages d1 = ocrPages ?d0"
    unfolding s1 by simp_all
  have f2: "documents d' = update_where (recoverable env opts) release_row (documents d1)"
      "cases d' = cases d1" "auditLogs d' = auditLogs d1" "ocrResults d' = ocrResults d1" "ocrPages d' = ocrPages d1"
    unfolding s2 by simp_all
  show "documents d' = map (swept_row env opts) (documents d)"
    by (simp add: f2(1) f1(1) swept_rows)
  show "sr_requeued res = map d_id (filter (recoverable env opts) (documents d))"
    by (simp add: res f1(1) swept_requeued)
  show "sr_failed res = map d_id ?failed" by (simp add: res)
  show "jobs d' = jobs d @ map scan_job (sr_requeued res)"
    using scans_sent [OF d2] by (simp add: res f1(3))
  show "auditLogs d' = auditLogs d @ map (given_up_event env) ?failed"
    using audits_given_up [OF d1] by (simp add: f2(3))
  show "cases d' = cases d" "ocrResults d' = ocrResults d" "ocrPages d' = ocrPages d"
    by (simp_all add: f2 f1)
qed

text \<open>
  C34. A sweep takes back exactly what is abandoned: of the documents nobody has locked, one whose
  SCANNING claim outlived its lease ends SCAN_FAILED with its event if its attempts are used up,
  and goes back to PENDING_SCAN with one job otherwise, as does one still UPLOADED; every other
  document is left as it is, and afterwards no unlocked document is abandoned or UPLOADED. A
  sweep that cannot send a job changes nothing.
\<close>

theorem sweep_recovers:
  "case sweepUntreatedDocuments env opts d of
     (Inl e, d') \<Rightarrow> d' = d \<and> (\<exists>i. \<not> sw_sent env i)
   | (Inr res, d') \<Rightarrow>
       documents d' = map (swept_row env opts) (documents d) \<and>
       sr_failed res = map d_id (filter (exhausted env opts) (documents d)) \<and>
       sr_requeued res = map d_id (filter (recoverable env opts) (documents d)) \<and>
       jobs d' = jobs d @ map scan_job (sr_requeued res) \<and>
       auditLogs d' = auditLogs d @ map (given_up_event env) (filter (exhausted env opts) (documents d)) \<and>
       list_all (\<lambda>r. sw_locked env (d_id r) \<or> (d_status r \<noteq> UPLOADED \<and> \<not> scan_abandoned env opts r)) (documents d')"
proof (cases "fst (sweepUntreatedDocuments env opts d)")
  case (Inr res)
  then obtain d' where run: "sweepUntreatedDocuments env opts d = (Inr res, d')" by (metis prod.collapse)
  have "list_all (\<lambda>r. sw_locked env (d_id r) \<or> (d_status r \<noteq> UPLOADED \<and> \<not> scan_abandoned env opts r)) (documents d')"
    unfolding sweep_Inr(1) [OF run]
    by (auto simp: list_all_iff swept_row_def exhausted_def recoverable_def scan_abandoned_def
        give_up_row_def release_row_def)
  with run sweep_Inr [OF run] show ?thesis by simp
next
  case (Inl e)
  then obtain d' where run: "sweepUntreatedDocuments env opts d = (Inl e, d')" by (metis prod.collapse)
  then have "d' = d" by (auto simp: sweepUntreatedDocuments_def dest: transaction_Inl)
  moreover have "\<exists>i. \<not> sw_sent env i"
  proof (rule ccontr)
    assume all: "\<not> (\<exists>i. \<not> sw_sent env i)"
    have "for_each (audit_given_up env) xs d1 \<noteq> (Inl e', d2)"
      "for_each (send_scan (sw_sent env)) is d1 \<noteq> (Inl e', d2)" for xs "is" d1 d2 e'
      using all by (auto intro!: for_each_total simp: audit_given_up_def send_scan_def boss_send_def)
    with run show False
      by (auto simp: sweepUntreatedDocuments_def transaction_def Let_def bindE_def split: prod.splits sum.splits)
  qed
  ultimately show ?thesis using run by simp
qed

section \<open>A worker that lost its claim\<close>

lemma swept_row_id [simp]: "d_id (swept_row env opts r) = d_id r"
  by (simp add: swept_row_def give_up_row_def)

lemma find_map_id:
  "(\<And>r. d_id (f r) = d_id r) \<Longrightarrow> find (\<lambda>r. d_id r = i) (map f rows) = map_option f (find (\<lambda>r. d_id r = i) rows)"
  by (induction rows) auto

lemma sweep_find:
  assumes "sweepUntreatedDocuments env opts d = (Inr res, d')"
  shows "find_document i d' = map_option (swept_row env opts) (find_document i d)"
  by (simp add: find_document_def sweep_Inr(1) [OF assms] find_map_id)

lemma sweep_unique:
  assumes "sweepUntreatedDocuments env opts d = (Inr res, d')" and "unique_documents d"
  shows "unique_documents d'"
  using assms(2) by (simp add: unique_documents_def sweep_Inr(1) [OF assms(1)] comp_def)

lemma swept_no_token:
  assumes "sweepUntreatedDocuments env opts d = (Inr res, d')" and "unique_documents d"
    and "i \<in> set (sr_requeued res) \<union> set (sr_failed res)" and "find_document i d' = Some r"
  shows "scan_token r = None"
proof -
  obtain r0 where r0: "r0 \<in> set (documents d)" "d_id r0 = i" "exhausted env opts r0 \<or> recoverable env opts r0"
    using assms(3) sweep_Inr(2,3) [OF assms(1)] by auto
  then have "find_document i d = Some r0" using assms(2) by (simp add: find_document_iff)
  with assms(4) sweep_find [OF assms(1)] have "r = swept_row env opts r0" by simp
  with r0(3) show ?thesis
    by (auto simp: swept_row_def scan_token_def give_up_row_def release_row_def)
qed

text \<open>
  C35. A worker whose claim a sweep took back records nothing afterwards: not after the sweep, and
  not after another worker claimed the document at another instant. Whatever it tries (clean,
  infected, failed or release), the database stays as it is and it is not told that it recorded
  anything. So no document is treated by two workers with both results kept.
\<close>

theorem stale_scan_result_ignored:
  assumes "sweepUntreatedDocuments env opts d = (Inr res, d1)" and "unique_documents d"
    and "sc_documentId c \<in> set (sr_requeued res) \<union> set (sr_failed res)"
    and "claim_scan (sc_documentId c) lease now d1 = (claimed, d2)" and "now \<noteq> sc_token c"
  shows "snd (close_scan op c d1) = d1 \<and> fst (close_scan op c d1) \<noteq> Inr True \<and>
    snd (close_scan op c d2) = d2 \<and> fst (close_scan op c d2) \<noteq> Inr True"
proof -
  have u: "unique_documents d1" by (rule sweep_unique [OF assms(1,2)])
  have free: "\<not> (\<exists>r. find_document (sc_documentId c) d1 = Some r \<and> scan_token r = Some (sc_token c))"
    using swept_no_token [OF assms(1-3)] by auto
  note now1 = scan_claims.close_lost [OF u free]
  show ?thesis
  proof (cases claimed)
    case (Inl e)
    with assms(4) scan_claims.claim_total [of "sc_documentId c" lease now d1 e] show ?thesis by simp
  next
    case (Inr given)
    show ?thesis
    proof (cases given)
      case None
      with Inr assms(4) have "d2 = d1" using scan_claims.claim_none by metis
      with now1 show ?thesis by simp
    next
      case (Some c')
      with Inr assms(4) have claim: "claim_scan (sc_documentId c) lease now d1 = (Inr (Some c'), d2)" by simp
      from scan_claims.taken_over_lost [OF u claim] assms(5) now1 show ?thesis by auto
    qed
  qed
qed

text \<open>
  The same holds for the OCR: a claim taken over after its lease records no result, no page,
  no event and no retry, and the new claim was only given because the lease of the old one, if it
  was still held, was over.
\<close>

theorem stale_ocr_result_ignored:
  assumes "claim_ocr (oc_documentId c) lease now d = (Inr (Some c'), d')" and "unique_documents d"
    and "now \<noteq> oc_token c"
  shows "snd (close_ocr op c d') = d' \<and> fst (close_ocr op c d') \<noteq> Inr True \<and>
    fst (close_ocr op c' d') \<noteq> Inr False \<and>
    (ocr_claims.holds c d \<longrightarrow> oc_token c < now - 1000000 * lease)"
proof -
  have "oc_documentId c' = oc_documentId c" "oc_token c' = now"
    using ocr_claims.claim_given [OF assms(2,1)] by simp_all
  then have held: "ocr_claims.holds c' d'" using ocr_claims.claim_then_holds [OF assms(2,1)] by simp
  have u: "unique_documents d'" using ocr_claims.claim_unique [OF assms(2)] assms(1) by (metis snd_conv)
  show ?thesis
    using ocr_claims.taken_over_lost [OF assms(2,1)] assms(3) held
      ocr_claims.close_held [OF u, of c'] ocr_claims.claim_takes_expired [OF assms(2) _ assms(1)]
    unfolding ocr_claims.holds_def by blast
qed

section \<open>The recovery of the OCR\<close>

definition swept_ocr_row :: "ocr_sweep_options \<Rightarrow> document_row \<Rightarrow> document_row" where
  "swept_ocr_row opts r =
    (if so_maxAttempts opts \<le> d_ocrAttempts r then r\<lparr>d_ocrStatus := FAILED\<rparr>
     else r\<lparr>d_ocrStatus := PENDING, d_ocrStartedAt := None\<rparr>)"

lemma swept_ocr_row_id [simp]: "d_id (swept_ocr_row opts r) = d_id r"
  by (simp add: swept_ocr_row_def)

lemma update_where_map: "update_where P f rows = map (\<lambda>r. if P r then f r else r) rows"
  by (induction rows) auto

lemma sweep_ocr_row_Inr:
  assumes "sweep_ocr_row env opts x d = (Inr (), d')" and "unique_documents d" and "x \<in> set (documents d)"
  shows "documents d' = map (\<lambda>r. if r = x then swept_ocr_row opts r else r) (documents d)"
    and "cases d' = cases d" "ocrPages d' = ocrPages d" "set (ocrResults d) \<subseteq> set (ocrResults d')"
proof -
  have same: "r = x" if "r \<in> set (documents d)" "d_id r = d_id x" for r
    using that assms(2,3) by (metis find_document_iff option.inject)
  have "documents d' = update_where (\<lambda>r. d_id r = d_id x \<and> True) (\<lambda>r.
      if so_maxAttempts opts \<le> d_ocrAttempts x then r\<lparr>d_ocrStatus := FAILED\<rparr>
      else r\<lparr>d_ocrStatus := PENDING, d_ocrStartedAt := None\<rparr>) (documents d)"
    using assms(1) by (auto simp: sweep_ocr_row_def Let_def enqueueOcr_def boss_send_Inr split: if_splits)
  also have "\<dots> = map (\<lambda>r. if r = x then swept_ocr_row opts r else r) (documents d)"
    unfolding update_where_map using same by (intro map_cong refl) (auto simp: swept_ocr_row_def)
  finally show "documents d' = map (\<lambda>r. if r = x then swept_ocr_row opts r else r) (documents d)" .
  show "cases d' = cases d" "ocrPages d' = ocrPages d" "set (ocrResults d) \<subseteq> set (ocrResults d')"
    using assms(1) by (auto simp: sweep_ocr_row_def Let_def enqueueOcr_def boss_send_Inr split: if_splits)
qed

lemma sweep_ocr_rows:
  assumes "for_each (sweep_ocr_row env opts) rs d = (Inr (), d')" and "unique_documents d"
    and "set rs \<subseteq> set (documents d)" and "distinct (map d_id rs)"
  shows "documents d' = map (\<lambda>r. if r \<in> set rs then swept_ocr_row opts r else r) (documents d) \<and>
    cases d' = cases d \<and> ocrPages d' = ocrPages d \<and> set (ocrResults d) \<subseteq> set (ocrResults d')"
  using assms
proof (induction rs arbitrary: d)
  case (Cons x xs)
  then obtain d1 where d1: "sweep_ocr_row env opts x d = (Inr (), d1)"
    and rest: "for_each (sweep_ocr_row env opts) xs d1 = (Inr (), d')"
    by (auto simp: bindE_eq_Inr)
  note one = sweep_ocr_row_Inr [OF d1 Cons.prems(2)]
  have x: "x \<in> set (documents d)" using Cons.prems(3) by simp
  have "map d_id (documents d1) = map d_id (documents d)" by (simp add: one(1) [OF x])
  then have u: "unique_documents d1" using Cons.prems(2) by (simp add: unique_documents_def)
  have sub: "set xs \<subseteq> set (documents d1)"
    using Cons.prems(3,4) by (force simp: one(1) [OF x])
  from Cons.IH [OF rest u sub] Cons.prems(4)
  have ih: "documents d' = map (\<lambda>r. if r \<in> set xs then swept_ocr_row opts r else r) (documents d1)"
      "cases d' = cases d1" "ocrPages d' = ocrPages d1" "set (ocrResults d1) \<subseteq> set (ocrResults d')"
    by simp_all
  have notin: "swept_ocr_row opts x \<notin> set xs" "x \<notin> set xs"
    using Cons.prems(4) by (auto simp: image_iff dest: arg_cong [where f = d_id])
  have "documents d' = map (\<lambda>r. if r \<in> set (x # xs) then swept_ocr_row opts r else r) (documents d)"
    unfolding ih(1) one(1) [OF x] map_map comp_def using notin by (intro map_cong refl) auto
  with ih one [OF x] show ?case by auto
qed simp

lemma sweep_ocr_Inr:
  assumes "sweepAbandonedOcr env opts d = (Inr res, d')" and "unique_documents d"
  shows "documents d' = map (\<lambda>r. if ocr_abandoned env opts r then swept_ocr_row opts r else r) (documents d)"
    and "cases d' = cases d" "ocrPages d' = ocrPages d" "set (ocrResults d) \<subseteq> set (ocrResults d')"
proof -
  let ?rs = "filter (ocr_abandoned env opts) (documents d)"
  have run: "for_each (sweep_ocr_row env opts) ?rs d = (Inr (), d')"
    using assms(1) by (auto simp: sweepAbandonedOcr_def Let_def bindE_eq_Inr)
  have "distinct (map d_id ?rs)"
    using assms(2) by (simp add: unique_documents_def distinct_map_filter)
  from sweep_ocr_rows [OF run assms(2) _ this]
  show "documents d' = map (\<lambda>r. if ocr_abandoned env opts r then swept_ocr_row opts r else r) (documents d)"
    "cases d' = cases d" "ocrPages d' = ocrPages d" "set (ocrResults d) \<subseteq> set (ocrResults d')"
    by (auto cong: if_cong map_cong)
qed

section \<open>Concrete runs\<close>

definition stuck_db :: db where
  "stuck_db = empty_db\<lparr>documents :=
     [(scan_row0 PDF 4)\<lparr>d_status := SCANNING, d_scanAttempts := 1, d_scanStartedAt := Some 5\<rparr>,
      (scan_row0 PDF 4)\<lparr>d_id := ''d2'', d_status := SCANNING, d_scanAttempts := 3, d_scanStartedAt := Some 5\<rparr>]\<rparr>"

definition late_sweep :: sweep_env where
  "late_sweep = \<lparr>sw_locked = (\<lambda>_. False), sw_now = (\<lambda>_. 100000000), sw_scannedAt = (\<lambda>_. 100000001), sw_sent = (\<lambda>_. True)\<rparr>"

definition sweep_settings :: sweep_options where
  "sweep_settings = \<lparr>so_leaseSeconds = 60, so_maxAttempts = 3\<rparr>"

lemma stuck_swept:
  "fst (sweepUntreatedDocuments late_sweep sweep_settings stuck_db) = Inr \<lparr>sr_requeued = [''d1''], sr_failed = [''d2'']\<rparr>"
  by code_simp

theorem sweep_recovers_witness:
  "map d_status (documents (snd (sweepUntreatedDocuments late_sweep sweep_settings stuck_db))) = [PENDING_SCAN, SCAN_FAILED] \<and>
   list_all (\<lambda>r. sw_locked late_sweep (d_id r) \<or> (d_status r \<noteq> UPLOADED \<and> \<not> scan_abandoned late_sweep sweep_settings r))
     (documents (snd (sweepUntreatedDocuments late_sweep sweep_settings stuck_db)))"
proof -
  have "map d_status (documents (snd (sweepUntreatedDocuments late_sweep sweep_settings stuck_db))) = [PENDING_SCAN, SCAN_FAILED]"
    by code_simp
  with sweep_recovers [where env = late_sweep and opts = sweep_settings and d = stuck_db] stuck_swept show ?thesis
    by (auto split: prod.splits)
qed

definition stuck_claim :: scan_claim where
  "stuck_claim = to_scan_claim 5 (hd (documents stuck_db))"

theorem stale_scan_result_ignored_witness:
  "snd (close_scan (Close_clean None 7 None) stuck_claim (snd (sweepUntreatedDocuments late_sweep sweep_settings stuck_db)))
    = snd (sweepUntreatedDocuments late_sweep sweep_settings stuck_db)"
proof -
  have run: "sweepUntreatedDocuments late_sweep sweep_settings stuck_db
      = (Inr \<lparr>sr_requeued = [''d1''], sr_failed = [''d2'']\<rparr>, snd (sweepUntreatedDocuments late_sweep sweep_settings stuck_db))"
    using stuck_swept by (simp add: prod_eq_iff)
  have "unique_documents stuck_db" "sc_documentId stuck_claim = ''d1''" "sc_token stuck_claim = 5"
    by (simp_all add: unique_documents_def stuck_db_def scan_row0_def stuck_claim_def to_scan_claim_def)
  with stale_scan_result_ignored [where c = stuck_claim and lease = 60 and now = 200000000 and op = "Close_clean None 7 None",
      OF run _ _ prod.collapse [symmetric]] show ?thesis by simp
qed

theorem stale_ocr_result_ignored_witness:
  "fst (close_ocr Close_excluded (to_ocr_claim 5 (start_ocr 5 (clean_document PDF)))
     (snd (claim_ocr ''d1'' 60 100000000 ((w_db (ocr_world PDF))\<lparr>documents := [start_ocr 5 (clean_document PDF)]\<rparr>)))) \<noteq> Inr True"
proof -
  let ?d = "(w_db (ocr_world PDF))\<lparr>documents := [start_ocr 5 (clean_document PDF)]\<rparr>"
  let ?old = "to_ocr_claim 5 (start_ocr 5 (clean_document PDF))"
  have u: "unique_documents ?d" by (simp add: unique_documents_def)
  have "fst (claim_ocr ''d1'' 60 100000000 ?d) \<noteq> Inr None" "oc_documentId ?old = ''d1''" "oc_token ?old = 5"
    by code_simp+
  moreover from this(1) ocr_claims.claim_total [of "''d1''" 60 100000000 ?d]
  obtain c' where "claim_ocr ''d1'' 60 100000000 ?d = (Inr (Some c'), snd (claim_ocr ''d1'' 60 100000000 ?d))"
    by (metis not_None_eq obj_sumE prod.collapse)
  ultimately show ?thesis
    using stale_ocr_result_ignored [of ?old 60 100000000 ?d c' "snd (claim_ocr ''d1'' 60 100000000 ?d)" Close_excluded] u
    by simp
qed

end
