(* ===== verification/Lifecycle.thy ===== *)
theory Lifecycle
  imports Worker_Theorems
begin

text \<open>
  The life of a document across the API and the worker. An abstract machine says how the pair of
  a document's treatment and OCR states may move (docs/DATABASE_SPEC.md, "Tratamiento de seguridad
  del documento" and "OCR del documento"); the steps of the system are the transactions of the
  modelled repositories, in any order and by any number of processes, and each of them implements
  the machine.
\<close>

section \<open>The documented machine\<close>

type_synonym phase = "document_status \<times> document_ocr_status"

inductive doc_move :: "phase \<Rightarrow> phase \<Rightarrow> bool" where
  move_start: "s \<in> {PENDING_SCAN, SCANNING} \<Longrightarrow> doc_move (s, NOT_STARTED) (SCANNING, NOT_STARTED)"
| move_clean: "t \<in> {NOT_STARTED, PENDING, EXCLUDED} \<Longrightarrow> doc_move (SCANNING, NOT_STARTED) (CLEAN, t)"
| move_infected: "t \<in> {NOT_STARTED, NOT_APPLICABLE} \<Longrightarrow> doc_move (SCANNING, NOT_STARTED) (INFECTED, t)"
| move_failed: "doc_move (SCANNING, NOT_STARTED) (SCAN_FAILED, NOT_STARTED)"
| move_again: "s \<in> {UPLOADED, SCANNING, SCAN_FAILED} \<Longrightarrow> doc_move (s, NOT_STARTED) (PENDING_SCAN, NOT_STARTED)"
| move_ocr_start: "t \<in> {PENDING, PROCESSING} \<Longrightarrow> doc_move (CLEAN, t) (CLEAN, PROCESSING)"
| move_ocr_end: "t \<in> {COMPLETED, FAILED, EXCLUDED} \<Longrightarrow> doc_move (CLEAN, PROCESSING) (CLEAN, t)"
| move_ocr_again: "t \<in> {PROCESSING, FAILED} \<Longrightarrow> doc_move (CLEAN, t) (CLEAN, PENDING)"
| move_activate_clean: "doc_move (CLEAN, NOT_STARTED) (CLEAN, EXCLUDED)"
| move_activate_infected: "doc_move (INFECTED, NOT_STARTED) (INFECTED, NOT_APPLICABLE)"

inductive_simps doc_move_simps: "doc_move (s, t) (s', t')"

inductive_cases doc_moveE: "doc_move p q"

text \<open>The verdicts are final, and only a CLEAN document has an OCR.\<close>

lemma doc_moves_final:
  assumes "doc_move\<^sup>*\<^sup>* p q"
  shows "fst p = CLEAN \<Longrightarrow> fst q = CLEAN" and "fst p = INFECTED \<Longrightarrow> fst q = INFECTED"
    and "snd p = COMPLETED \<Longrightarrow> snd q = COMPLETED" and "snd p = EXCLUDED \<Longrightarrow> snd q = EXCLUDED"
  using assms by (induction rule: rtranclp_induct) (auto elim!: doc_moveE)

section \<open>Rows\<close>

definition phase_of :: "document_row \<Rightarrow> phase" where
  "phase_of r = (d_status r, d_ocrStatus r)"

text \<open>What no operation changes.\<close>

definition identity :: "document_row \<Rightarrow> uuid \<times> uuid \<times> js_text \<times> document_file_type \<times> string \<times> int \<times> uuid \<times> time" where
  "identity r = (d_id r, d_caseId r, d_fileName r, d_fileType r, d_storageKey r, d_fileSize r,
     d_uploadedByUserId r, d_createdAt r)"

definition copy_key :: "document_file_type \<Rightarrow> string \<Rightarrow> string option" where
  "copy_key t key = (if t = PDF then None else Some (sanitizedKeyOf key))"

text \<open>
  A row of a reachable state: the OCR starts after the verdict, a CLEAN image names its copy and
  nothing else does, and a claimed row has the instant of its claim.
\<close>

definition row_ok :: "document_row \<Rightarrow> bool" where
  "row_ok r \<longleftrightarrow>
     (d_status r = CLEAN \<or> d_status r = INFECTED \<or> d_ocrStatus r = NOT_STARTED) \<and>
     (d_status r = INFECTED \<longrightarrow> d_ocrStatus r \<in> {NOT_STARTED, NOT_APPLICABLE}) \<and>
     (d_status r = CLEAN \<longrightarrow> d_ocrStatus r \<noteq> NOT_APPLICABLE) \<and>
     d_sanitizedStorageKey r = (if d_status r = CLEAN then copy_key (d_fileType r) (d_storageKey r) else None) \<and>
     (d_status r = SCANNING \<longrightarrow> d_scanStartedAt r \<noteq> None) \<and>
     (d_ocrStatus r = PROCESSING \<longrightarrow> d_ocrStartedAt r \<noteq> None) \<and>
     0 \<le> d_scanAttempts r \<and> 0 \<le> d_ocrAttempts r"

definition row_move :: "document_row \<Rightarrow> document_row \<Rightarrow> bool" where
  "row_move r r' \<longleftrightarrow> identity r' = identity r \<and> row_ok r' \<and>
     (phase_of r' = phase_of r \<or> doc_move (phase_of r) (phase_of r'))"

lemmas row_simps = row_move_def row_ok_def identity_def phase_of_def copy_key_def doc_move_simps

lemma row_move_refl: "row_ok r \<Longrightarrow> row_move r r"
  by (simp add: row_move_def)

lemma row_move_start_scan: "row_ok r \<Longrightarrow> claimable lease now r \<Longrightarrow> row_move r (start_scan now r)"
  by (auto simp: row_simps claimable_def start_scan_def)

lemma row_move_finish:
  assumes "row_ok r" and "scan_held c r"
    and "s = St_clean \<Longrightarrow> k = copy_key (d_fileType r) (d_storageKey r)" and "s \<noteq> St_clean \<Longrightarrow> k = None"
  shows "row_move r (finish_row s (ocrStatusFor ocr c s) now sig k r)"
  using assms by (cases s) (auto simp: row_simps scan_held_def finish_row_def ocrStatusFor_def split: option.splits)

lemma row_move_release: "row_ok r \<Longrightarrow> d_status r \<in> {SCANNING, UPLOADED} \<Longrightarrow> row_move r (release_row r)"
  by (auto simp: row_simps release_row_def)

lemma row_move_give_up: "row_ok r \<Longrightarrow> d_status r = SCANNING \<Longrightarrow> row_move r (give_up_row env r)"
  by (auto simp: row_simps give_up_row_def)

lemma row_move_swept: "row_ok r \<Longrightarrow> row_move r (swept_row env opts r)"
  using row_move_refl [of r] row_move_release [of r] row_move_give_up [of r env]
  by (auto simp: swept_row_def exhausted_def recoverable_def scan_abandoned_def)

lemma row_move_reprocess: "row_ok r \<Longrightarrow> d_status r = SCAN_FAILED \<Longrightarrow> row_move r (reprocess_row r)"
  by (auto simp: row_simps reprocess_row_def)

lemma row_move_start_ocr: "row_ok r \<Longrightarrow> ocr_claimable lease now r \<Longrightarrow> row_move r (start_ocr now r)"
  by (auto simp: row_simps ocr_claimable_def start_ocr_def)

lemma row_ok_processing: "row_ok r \<Longrightarrow> d_ocrStatus r = PROCESSING \<Longrightarrow> d_status r = CLEAN"
  by (auto simp: row_ok_def)

lemma row_move_ocr:
  assumes "row_ok r" and "d_ocrStatus r = PROCESSING"
  shows "row_move r (r\<lparr>d_ocrStatus := ocr_outcome_status outcome\<rparr>)" "row_move r (r\<lparr>d_ocrStatus := EXCLUDED\<rparr>)"
    "row_move r (r\<lparr>d_ocrStatus := PENDING, d_ocrStartedAt := None\<rparr>)" "row_move r (swept_ocr_row opts r)"
  using assms by (cases outcome; auto simp: row_simps ocr_outcome_status_def swept_ocr_row_def)+

lemma row_move_ocr_reprocess:
  "row_ok r \<Longrightarrow> d_status r = CLEAN \<Longrightarrow> d_ocrStatus r = FAILED \<Longrightarrow> row_move r (ocr_reprocess_row r)"
  by (auto simp: row_simps ocr_reprocess_row_def)

lemma row_move_activate:
  "row_ok r \<Longrightarrow> not_started_in CLEAN r \<Longrightarrow> row_move r (r\<lparr>d_ocrStatus := EXCLUDED\<rparr>)"
  "row_ok r \<Longrightarrow> not_started_in INFECTED r \<Longrightarrow> row_move r (r\<lparr>d_ocrStatus := NOT_APPLICABLE\<rparr>)"
  by (auto simp: row_simps not_started_in_def)

lemma new_row_ok: "row_ok (new_document input now)" "phase_of (new_document input now) = (PENDING_SCAN, NOT_STARTED)"
  by (simp_all add: row_ok_def new_document_def phase_of_def)

lemma new_document_id: "d_id (new_document input now) = cd_id input"
  by (simp add: new_document_def)

section \<open>Steps of the system\<close>

text \<open>
  A worker closes a claim it was given: the claim names the document's type and storage key, and
  a clean result names the copy of an image.
\<close>

definition genuine :: "scan_claim \<Rightarrow> db \<Rightarrow> bool" where
  "genuine c d \<longleftrightarrow> (\<forall>r. find_document (sc_documentId c) d = Some r \<longrightarrow>
     d_fileType r = sc_fileType c \<and> d_storageKey r = sc_storageKey c)"

fun names_copy :: "scan_close \<Rightarrow> scan_claim \<Rightarrow> bool" where
  "names_copy (Close_clean ocr now key) c = (key = copy_key (sc_fileType c) (sc_storageKey c))"
| "names_copy op c = True"

inductive doc_step :: "db \<Rightarrow> db \<Rightarrow> bool" where
  step_upload: "cd_quotaBytes input = DOCUMENT_QUOTA_BYTES \<Longrightarrow> createDocument sent now input d = (r, d') \<Longrightarrow> doc_step d d'"
| step_scan_claim: "claim_scan i lease now d = (claimed, d') \<Longrightarrow> doc_step d d'"
| step_scan_close: "genuine c d \<Longrightarrow> names_copy op c \<Longrightarrow> close_scan op c d = (closed, d') \<Longrightarrow> doc_step d d'"
| step_scan_sweep: "sweepUntreatedDocuments env opts d = (swept, d') \<Longrightarrow> doc_step d d'"
| step_reprocess: "reprocessDocument sent now i d = (redone, d') \<Longrightarrow> doc_step d d'"
| step_ocr_claim: "claim_ocr i lease now d = (ocr_claimed, d') \<Longrightarrow> doc_step d d'"
| step_ocr_close: "close_ocr oop oc d = (closed, d') \<Longrightarrow> doc_step d d'"
| step_ocr_sweep: "sweepAbandonedOcr oenv oopts d = (swept, d') \<Longrightarrow> doc_step d d'"
| step_ocr_reprocess: "reprocessOcr sent now i d = (redone, d') \<Longrightarrow> doc_step d d'"
| step_activate: "activateOcr d = (activated, d') \<Longrightarrow> doc_step d d'"
| step_case: "createCase newId historyId now current ctype ctx d = (made, d') \<Longrightarrow> doc_step d d'"
| step_elsewhere: "documents d' = documents d \<Longrightarrow> cases d' = cases d \<Longrightarrow>
    ocrResults d' = ocrResults d \<Longrightarrow> ocrPages d' = ocrPages d \<Longrightarrow> doc_step d d'"

inductive_cases doc_stepE: "doc_step d d'"

text \<open>What a step may do to the document table.\<close>

definition rows_step :: "db \<Rightarrow> db \<Rightarrow> bool" where
  "rows_step d d' \<longleftrightarrow> (\<exists>f. documents d' = map f (documents d) \<and> (\<forall>r \<in> set (documents d). row_move r (f r)))"

definition uploaded_step :: "db \<Rightarrow> db \<Rightarrow> bool" where
  "uploaded_step d d' \<longleftrightarrow> (\<exists>input now. documents d' = documents d @ [new_document input now] \<and> cases d' = cases d \<and>
     \<not> taken input d \<and> draft_of input d \<and>
     usedBytes (cd_userId input) d + cd_fileSize input \<le> DOCUMENT_QUOTA_BYTES)"

definition rows_ok :: "db \<Rightarrow> bool" where
  "rows_ok d \<longleftrightarrow> unique_documents d \<and> (\<forall>r \<in> set (documents d). row_ok r)"

lemma rows_step_same: "rows_ok d \<Longrightarrow> documents d' = documents d \<Longrightarrow> rows_step d d'"
  unfolding rows_step_def rows_ok_def by (intro exI [of _ id]) (auto simp: row_move_refl)

lemma rows_step_map:
  assumes "documents d' = map f (documents d)" and "\<And>r. r \<in> set (documents d) \<Longrightarrow> row_move r (f r)"
  shows "rows_step d d'"
  unfolding rows_step_def using assms by auto

lemma rows_step_where:
  assumes "rows_ok d" and "documents d' = update_where P f (documents d)"
    and "\<And>r. r \<in> set (documents d) \<Longrightarrow> row_ok r \<Longrightarrow> P r \<Longrightarrow> row_move r (f r)"
  shows "rows_step d d'"
  using assms(2) unfolding update_where_map
  by (rule rows_step_map) (use assms in \<open>auto simp: rows_ok_def row_move_refl\<close>)

lemma rows_upload:
  assumes "rows_ok d" and "createDocument sent now input d = (r, d')" and "cd_quotaBytes input = DOCUMENT_QUOTA_BYTES"
  shows "rows_step d d' \<or> uploaded_step d d'"
proof (cases "d' = d")
  case False
  with assms(2,3) have "d' = created_db now input d" "\<not> taken input d" "draft_of input d"
      "usedBytes (cd_userId input) d + cd_fileSize input \<le> DOCUMENT_QUOTA_BYTES"
    by (auto simp: createDocument_eq split: if_splits)
  then show ?thesis unfolding uploaded_step_def
    by (intro disjI2 exI [of _ input] exI [of _ now]) simp
qed (use assms(1) rows_step_same in blast)

lemma rows_scan_claim:
  assumes "rows_ok d" and "claim_scan i lease now d = (claimed, d')"
  shows "rows_step d d'"
proof (cases "d' = d")
  case False
  with assms(2) have "documents d' = update_where (\<lambda>r. d_id r = i \<and> claimable lease now r) (start_scan now) (documents d)"
    by (auto simp: claim_scan_def split: option.splits)
  with assms(1) show ?thesis by (rule rows_step_where) (auto intro: row_move_start_scan)
qed (use assms(1) rows_step_same in blast)

lemma rows_finish:
  assumes "rows_ok d" and "genuine c d" and "finish_scan ocr now c s act v k sig d = (closed, d')"
    and "s = St_clean \<Longrightarrow> k = copy_key (sc_fileType c) (sc_storageKey c)" and "s \<noteq> St_clean \<Longrightarrow> k = None"
  shows "rows_step d d'"
proof (cases "d' = d")
  case False
  have u: "unique_documents d" using assms(1) by (simp add: rows_ok_def)
  have d': "d' = finished ocr now c s act v k sig d"
    using assms(3) False finish_scan_cases [OF u, of ocr now c s act v k sig] by (auto split: if_splits)
  have row: "d_fileType r = sc_fileType c \<and> d_storageKey r = sc_storageKey c"
    if "r \<in> set (documents d)" "d_id r = sc_documentId c" for r
    using assms(2) that find_document_iff [OF u] by (simp add: genuine_def)
  show ?thesis unfolding d'
    by (rule rows_step_where [OF assms(1) finished_frame(1)])
      (use row assms(4,5) in \<open>auto intro!: row_move_finish\<close>)
qed (use assms(1) rows_step_same in blast)

lemma rows_scan_close:
  assumes "rows_ok d" and "genuine c d" and "names_copy op c" and "close_scan op c d = (closed, d')"
  shows "rows_step d d'"
proof (cases op)
  case Close_release
  with assms(4) have "documents d' = update_where (\<lambda>r. d_id r = sc_documentId c \<and> scan_held c r) release_row (documents d)"
    by (auto simp: release_scan_def)
  with assms(1) show ?thesis by (rule rows_step_where) (auto simp: scan_held_def intro: row_move_release)
qed (use assms in \<open>auto simp: mark_defs intro: rows_finish [OF assms(1,2)]\<close>)

lemma rows_sweep:
  assumes "rows_ok d" and "sweepUntreatedDocuments env opts d = (swept, d')"
  shows "rows_step d d'"
proof (cases swept)
  case (Inl e)
  with assms have "d' = d" by (auto simp: sweepUntreatedDocuments_def dest: transaction_Inl)
  with assms(1) rows_step_same show ?thesis by blast
next
  case (Inr res)
  from sweep_Inr(1) [OF assms(2) [unfolded Inr]] show ?thesis
    by (rule rows_step_map) (use assms(1) in \<open>auto simp: rows_ok_def intro: row_move_swept\<close>)
qed

lemma rows_reprocess:
  assumes "rows_ok d" and "reprocessDocument sent now i d = (redone, d')"
  shows "rows_step d d'"
proof (cases "d' = d")
  case False
  with assms(2) have "documents d' = update_where (\<lambda>r. d_id r = i \<and> d_status r = SCAN_FAILED) reprocess_row (documents d)"
    by (auto simp: reprocessDocument_def transaction_def Let_def bindE_def send_scan_def boss_send_def
        split: option.splits if_splits)
  with assms(1) show ?thesis by (rule rows_step_where) (auto intro: row_move_reprocess)
qed (use assms(1) rows_step_same in blast)

lemma rows_ocr_claim:
  assumes "rows_ok d" and "claim_ocr i lease now d = (claimed, d')"
  shows "rows_step d d'"
proof (cases "d' = d")
  case False
  with assms(2) have "documents d' = update_where (\<lambda>r. d_id r = i \<and> ocr_claimable lease now r) (start_ocr now) (documents d)"
    by (auto simp: claim_ocr_def split: option.splits)
  with assms(1) show ?thesis by (rule rows_step_where) (auto intro: row_move_start_ocr)
qed (use assms(1) rows_step_same in blast)

lemma rows_finish_ocr:
  assumes "rows_ok d" and "finish_ocr now c outcome x detail d = (closed, d')"
  shows "rows_step d d'"
proof (cases "d' = d")
  case False
  have u: "unique_documents d" using assms(1) by (simp add: rows_ok_def)
  have d': "d' = ocr_finished now c outcome x detail d"
    using assms(2) False finish_ocr_cases [OF u, of now c outcome x detail] by (auto split: if_splits)
  show ?thesis unfolding d'
    by (rule rows_step_where [OF assms(1) ocr_finished_frame(1)]) (auto simp: ocr_held_def intro: row_move_ocr(1))
qed (use assms(1) rows_step_same in blast)

lemma rows_ocr_close:
  assumes "rows_ok d" and "close_ocr op c d = (closed, d')"
  shows "rows_step d d'"
proof (cases op)
  case (Close_completed now execution texts)
  with assms rows_step_same [OF assms(1), of d] show ?thesis
    by (auto simp: markCompleted_def intro: rows_finish_ocr split: if_splits)
next
  case (Close_ocr_failed now execution)
  with assms show ?thesis by (auto simp: markFailed_ocr_def intro: rows_finish_ocr)
next
  case Close_excluded
  with assms(2) have "documents d' = update_where (\<lambda>r. d_id r = oc_documentId c \<and> ocr_held c r)
      (\<lambda>r. r\<lparr>d_ocrStatus := EXCLUDED\<rparr>) (documents d)"
    by (auto simp: markExcluded_def)
  with assms(1) show ?thesis by (rule rows_step_where) (auto simp: ocr_held_def intro: row_move_ocr(2))
next
  case (Close_retry sent delay)
  show ?thesis
  proof (cases "d' = d")
    case False
    with assms(2) Close_retry have "documents d' = update_where (\<lambda>r. d_id r = oc_documentId c \<and> ocr_held c r)
        (\<lambda>r. r\<lparr>d_ocrStatus := PENDING, d_ocrStartedAt := None\<rparr>) (documents d)"
      by (auto simp: releaseForRetry_def transaction_def Let_def bindE_def boss_send_def split: if_splits)
    with assms(1) show ?thesis by (rule rows_step_where) (auto simp: ocr_held_def intro: row_move_ocr(3))
  qed (use assms(1) rows_step_same in blast)
qed

lemma rows_ocr_sweep:
  assumes "rows_ok d" and "sweepAbandonedOcr env opts d = (swept, d')"
  shows "rows_step d d'"
proof (cases swept)
  case (Inl e)
  with assms have "d' = d" by (auto simp: sweepAbandonedOcr_def dest: transaction_Inl)
  with assms(1) rows_step_same show ?thesis by blast
next
  case (Inr res)
  have u: "unique_documents d" using assms(1) by (simp add: rows_ok_def)
  from sweep_ocr_Inr(1) [OF assms(2) [unfolded Inr] u] show ?thesis
    by (rule rows_step_map)
      (use assms(1) in \<open>auto simp: rows_ok_def ocr_abandoned_def intro: row_move_ocr(4) row_move_refl\<close>)
qed

lemma rows_ocr_reprocess:
  assumes "rows_ok d" and "reprocessOcr sent now i d = (redone, d')"
  shows "rows_step d d'"
proof (cases "d' = d")
  case False
  with assms(2) have "documents d' = update_where (\<lambda>r. d_id r = i \<and> d_status r = CLEAN \<and> d_ocrStatus r = FAILED)
      ocr_reprocess_row (documents d)"
    by (auto simp: reprocessOcr_def transaction_def Let_def bindE_def enqueueOcr_def boss_send_def
        split: option.splits if_splits)
  with assms(1) show ?thesis by (rule rows_step_where) (auto intro: row_move_ocr_reprocess)
qed (use assms(1) rows_step_same in blast)

lemma rows_activate:
  assumes "rows_ok d" and "activateOcr d = (activated, d')"
  shows "rows_step d d'"
proof (cases "d' = d")
  case False
  let ?clean = "\<lambda>r. r\<lparr>d_ocrStatus := EXCLUDED\<rparr>" and ?infected = "\<lambda>r. r\<lparr>d_ocrStatus := NOT_APPLICABLE\<rparr>"
  let ?f = "\<lambda>r. if not_started_in CLEAN r then ?clean r else if not_started_in INFECTED r then ?infected r else r"
  have "update_where (not_started_in INFECTED) ?infected (update_where (not_started_in CLEAN) ?clean rows) = map ?f rows" for rows
    by (induction rows) (auto simp: not_started_in_def)
  with assms(2) False have "documents d' = map ?f (documents d)"
    by (auto simp: activateOcr_def transaction_def Let_def split: if_splits)
  then show ?thesis
    by (rule rows_step_map) (use assms(1) in \<open>auto simp: rows_ok_def intro: row_move_activate row_move_refl\<close>)
qed (use assms(1) rows_step_same in blast)

lemma createCase_documents:
  assumes "createCase newId historyId now current ctype ctx d = (r, d')"
  shows "documents d' = documents d" "ocrResults d' = ocrResults d" "ocrPages d' = ocrPages d"
  using assms
  by (auto simp: createCase_def createCase_repo_def Let_def bindE_def transaction_def insert_audit_def
      split: if_splits)

lemma rows_of_step:
  assumes "rows_ok d" and "doc_step d d'"
  shows "rows_step d d' \<or> uploaded_step d d'"
  using assms(2)
  by (rule doc_stepE)
    (auto intro: rows_step_same rows_scan_claim rows_scan_close rows_sweep rows_reprocess
      rows_ocr_claim rows_ocr_close rows_ocr_sweep rows_ocr_reprocess rows_activate
      dest: createCase_documents(1) rows_upload [OF assms(1)] simp: assms(1))

section \<open>The other tables\<close>

definition pages_kept :: "db \<Rightarrow> db \<Rightarrow> bool" where
  "pages_kept d d' \<longleftrightarrow> set (ocrResults d) \<subseteq> set (ocrResults d') \<and>
     (\<forall>p \<in> set (ocrPages d'). p \<in> set (ocrPages d) \<or> (\<exists>x \<in> set (ocrResults d'). r_id x = p_ocrResultId p))"

lemma pages_kept_same: "ocrResults d' = ocrResults d \<Longrightarrow> ocrPages d' = ocrPages d \<Longrightarrow> pages_kept d d'"
  by (simp add: pages_kept_def)

lemma page_rows_result: "p \<in> set (page_rows x texts) \<Longrightarrow> x = p_ocrResultId p"
  by (auto simp: page_rows_def)

lemma finish_ocr_frame:
  assumes "finish_ocr now c outcome x detail d = (closed, d')"
  shows "cases d' = cases d \<and> pages_kept d d'"
proof -
  have "(cases d' = cases d \<and> ocrResults d' = ocrResults d \<and> ocrPages d' = ocrPages d) \<or>
      (cases d' = cases d \<and> ocrResults d' = ocrResults d @ [result_row c outcome x detail now] \<and>
      ocrPages d' = ocrPages d @ page_rows (ex_id x) (fd_pageTexts detail))"
    using assms by (auto simp: finish_ocr_def transaction_def Let_def split: if_splits)
  then show ?thesis
    by (auto simp: pages_kept_def result_row_def dest: page_rows_result)
qed

lemma close_ocr_frame:
  assumes "close_ocr op c d = (closed, d')"
  shows "cases d' = cases d \<and> pages_kept d d'"
  using assms
  by (cases op) (auto simp: markCompleted_def markFailed_ocr_def markExcluded_def releaseForRetry_def
      transaction_def Let_def bindE_def boss_send_def pages_kept_same dest: finish_ocr_frame split: if_splits)

lemma finish_scan_frame:
  assumes "finish_scan ocr now c s act v k sig d = (closed, d')"
  shows "cases d' = cases d \<and> ocrResults d' = ocrResults d \<and> ocrPages d' = ocrPages d"
  using assms
  by (auto simp: finish_scan_def transaction_def Let_def bindE_def enqueueOcr_def boss_send_def split: if_splits)

lemma close_scan_frame:
  assumes "close_scan op c d = (closed, d')"
  shows "cases d' = cases d \<and> ocrResults d' = ocrResults d \<and> ocrPages d' = ocrPages d"
  using assms by (cases op) (auto simp: mark_defs release_scan_def dest: finish_scan_frame)

lemma sweeps_frame:
  "sweepUntreatedDocuments env opts d = (swept, d') \<Longrightarrow>
    cases d' = cases d \<and> ocrResults d' = ocrResults d \<and> ocrPages d' = ocrPages d"
  "unique_documents d \<Longrightarrow> sweepAbandonedOcr oenv oopts d = (oswept, d') \<Longrightarrow>
    cases d' = cases d \<and> ocrPages d' = ocrPages d \<and> set (ocrResults d) \<subseteq> set (ocrResults d')"
proof -
  show "cases d' = cases d \<and> ocrResults d' = ocrResults d \<and> ocrPages d' = ocrPages d"
    if "sweepUntreatedDocuments env opts d = (swept, d')"
  proof (cases swept)
    case (Inl e)
    with that have "d' = d" by (auto simp: sweepUntreatedDocuments_def dest: transaction_Inl)
    then show ?thesis by simp
  qed (use that sweep_Inr(6-8) in blast)
  show "cases d' = cases d \<and> ocrPages d' = ocrPages d \<and> set (ocrResults d) \<subseteq> set (ocrResults d')"
    if "unique_documents d" "sweepAbandonedOcr oenv oopts d = (oswept, d')"
  proof (cases oswept)
    case (Inl e)
    with that have "d' = d" by (auto simp: sweepAbandonedOcr_def dest: transaction_Inl)
    then show ?thesis by simp
  qed (use that sweep_ocr_Inr(2-4) in blast)
qed

lemma plain_frames:
  "createDocument sent now input d = (r, d') \<Longrightarrow> cases d' = cases d \<and> ocrResults d' = ocrResults d \<and> ocrPages d' = ocrPages d"
  "claim_scan i lease now d = (claimed, d') \<Longrightarrow> cases d' = cases d \<and> ocrResults d' = ocrResults d \<and> ocrPages d' = ocrPages d"
  "claim_ocr i lease now d = (oclaimed, d') \<Longrightarrow> cases d' = cases d \<and> ocrResults d' = ocrResults d \<and> ocrPages d' = ocrPages d"
  "reprocessDocument sent now i d = (redone, d') \<Longrightarrow> cases d' = cases d \<and> ocrResults d' = ocrResults d \<and> ocrPages d' = ocrPages d"
  "reprocessOcr sent now i d = (redone, d') \<Longrightarrow> cases d' = cases d \<and> ocrResults d' = ocrResults d \<and> ocrPages d' = ocrPages d"
  "activateOcr d = (activated, d') \<Longrightarrow> cases d' = cases d \<and> ocrResults d' = ocrResults d \<and> ocrPages d' = ocrPages d"
  by (auto simp: createDocument_eq claim_scan_def claim_ocr_def reprocessDocument_def reprocessOcr_def
    transaction_def Let_def bindE_def send_scan_def enqueueOcr_def boss_send_def activateOcr_def
    split: if_splits option.splits)

lemma step_pages:
  assumes "unique_documents d" and "doc_step d d'"
  shows "pages_kept d d'"
  using assms(2)
  by (rule doc_stepE)
    (use assms(1) in \<open>auto intro: pages_kept_same simp: pages_kept_def
      dest: plain_frames close_scan_frame sweeps_frame createCase_documents close_ocr_frame [unfolded pages_kept_def]\<close>)

text \<open>A case is only ever added, with an identifier of its own.\<close>

lemma step_cases:
  assumes "unique_documents d" and "doc_step d d'"
  shows "cases d' = cases d \<or> (\<exists>c. cases d' = cases d @ [c] \<and> c_id c \<notin> c_id ` set (cases d) \<and> documents d' = documents d)"
  using assms(2)
proof (cases rule: doc_step.cases)
  case (step_case newId historyId now current ctype ctx made)
  show ?thesis
  proof (cases made)
    case (Inl e)
    with step_case createCase_Inl show ?thesis by blast
  next
    case (Inr pc)
    from createCase_Inr(1,2) [OF step_case [unfolded Inr]] createCase_documents(1) [OF step_case]
    show ?thesis by auto
  qed
qed (use assms(1) in \<open>auto dest: plain_frames close_scan_frame sweeps_frame close_ocr_frame\<close>)

section \<open>The invariant of the tables\<close>

definition db_ok :: "db \<Rightarrow> bool" where
  "db_ok d \<longleftrightarrow> rows_ok d \<and> distinct (map c_id (cases d)) \<and>
     (\<forall>r \<in> set (documents d). owned_case (d_uploadedByUserId r) d (d_caseId r)) \<and>
     (\<forall>u. usedBytes u d \<le> DOCUMENT_QUOTA_BYTES) \<and>
     (\<forall>p \<in> set (ocrPages d). \<exists>x \<in> set (ocrResults d). r_id x = p_ocrResultId p)"

lemma one_owner:
  assumes "distinct (map c_id (cases d))" and "owned_case u d c" and "owned_case v d c"
  shows "v = u"
  using assms by (auto simp: owned_case_def distinct_map dest: inj_onD)

lemma owned_case_step:
  assumes "cases d' = cases d \<or> (\<exists>c. cases d' = cases d @ [c] \<and> c_id c \<notin> c_id ` set (cases d))"
    and "owned_case v d c"
  shows "owned_case u d' c \<longleftrightarrow> owned_case u d c"
  using assms by (auto simp: owned_case_def)

lemma identityD:
  assumes "identity r' = identity r"
  shows "d_id r' = d_id r" "d_caseId r' = d_caseId r" "d_fileType r' = d_fileType r"
    "d_storageKey r' = d_storageKey r" "d_fileSize r' = d_fileSize r" "d_uploadedByUserId r' = d_uploadedByUserId r"
  using assms by (simp_all add: identity_def)

lemma sum_owned_cong:
  assumes "map identity rows' = map identity rows" and "\<And>r. r \<in> set rows \<Longrightarrow> P (d_caseId r) \<longleftrightarrow> Q (d_caseId r)"
  shows "sum_list (map d_fileSize (filter (\<lambda>r. P (d_caseId r)) rows'))
    = sum_list (map d_fileSize (filter (\<lambda>r. Q (d_caseId r)) rows))"
  using assms
proof (induction rows' arbitrary: rows)
  case (Cons a rows')
  then obtain b bs where "rows = b # bs" "identity a = identity b" "map identity rows' = map identity bs"
    by (cases rows) simp_all
  moreover from this(2) have "d_caseId a = d_caseId b" "d_fileSize a = d_fileSize b"
    by (blast dest: identityD(2,5))+
  moreover have "sum_list (map d_fileSize (filter (\<lambda>r. P (d_caseId r)) rows'))
      = sum_list (map d_fileSize (filter (\<lambda>r. Q (d_caseId r)) bs))"
    using calculation Cons.prems(2) by (intro Cons.IH) simp_all
  ultimately show ?case using Cons.prems(2) [of b] by simp
qed simp

lemma rows_step_identity:
  assumes "rows_step d d'"
  shows "map identity (documents d') = map identity (documents d)"
  using assms by (auto simp: rows_step_def row_move_def)

lemma identity_ids: "map identity rows' = map identity rows \<Longrightarrow> map d_id rows' = map d_id rows"
proof -
  assume "map identity rows' = map identity rows"
  then have "map fst (map identity rows') = map fst (map identity rows)" by simp
  then show ?thesis by (simp add: identity_def comp_def)
qed

lemma db_ok_rows_step:
  assumes "db_ok d" and "rows_step d d'" and "doc_step d d'"
  shows "db_ok d'"
proof -
  have ok: "rows_ok d" "unique_documents d" using assms(1) by (simp_all add: db_ok_def rows_ok_def)
  have ids: "map identity (documents d') = map identity (documents d)" by (rule rows_step_identity [OF assms(2)])
  have cs: "cases d' = cases d \<or> (\<exists>c. cases d' = cases d @ [c] \<and> c_id c \<notin> c_id ` set (cases d))"
    using step_cases [OF ok(2) assms(3)] by blast
  have owned: "owned_case u d' (d_caseId r) \<longleftrightarrow> owned_case u d (d_caseId r)" if "r \<in> set (documents d)" for r u
    using owned_case_step [OF cs] assms(1) that by (auto simp: db_ok_def)
  obtain f where f: "documents d' = map f (documents d)" "\<And>r. r \<in> set (documents d) \<Longrightarrow> row_move r (f r)"
    using assms(2) by (auto simp: rows_step_def)
  have rows: "rows_ok d'"
    using ok(2) f by (auto simp: rows_ok_def row_move_def unique_documents_def simp flip: identity_ids [OF ids])
  have used: "usedBytes u d' \<le> DOCUMENT_QUOTA_BYTES" for u
    using sum_owned_cong [OF ids, of "owned_case u d'" "owned_case u d"] owned assms(1)
    by (simp add: usedBytes_def db_ok_def)
  have fk: "owned_case (d_uploadedByUserId r) d' (d_caseId r)" if mem: "r \<in> set (documents d')" for r
  proof -
    obtain r0 where r0: "r0 \<in> set (documents d)" "r = f r0" using mem f(1) by auto
    with f(2) have "identity r = identity r0" by (simp add: row_move_def)
    then have "d_uploadedByUserId r = d_uploadedByUserId r0" "d_caseId r = d_caseId r0"
      by (blast dest: identityD)+
    with owned [OF r0(1)] r0(1) assms(1) show ?thesis by (simp add: db_ok_def)
  qed
  have "distinct (map c_id (cases d'))"
    using cs assms(1) by (auto simp: db_ok_def)
  moreover have "\<forall>p \<in> set (ocrPages d'). \<exists>x \<in> set (ocrResults d'). r_id x = p_ocrResultId p"
    using step_pages [OF ok(2) assms(3)] assms(1) unfolding pages_kept_def db_ok_def by blast
  ultimately show ?thesis using rows used fk by (simp add: db_ok_def)
qed

lemma db_ok_upload:
  assumes "db_ok d" and "uploaded_step d d'" and "doc_step d d'"
  shows "db_ok d'"
proof -
  obtain input now where up: "documents d' = documents d @ [new_document input now]" "cases d' = cases d"
      "\<not> taken input d" "draft_of input d"
      "usedBytes (cd_userId input) d + cd_fileSize input \<le> DOCUMENT_QUOTA_BYTES"
    using assms(2) by (auto simp: uploaded_step_def)
  have owned: "owned_case u d' c \<longleftrightarrow> owned_case u d c" for u c
    by (simp add: owned_case_def up(2))
  have mine: "owned_case (cd_userId input) d (cd_caseId input)"
    using up(4) by (auto simp: draft_of_def owned_case_def)
  have used: "usedBytes u d' = usedBytes u d + (if u = cd_userId input then cd_fileSize input else 0)" for u
  proof (cases "u = cd_userId input")
    case True
    then show ?thesis using mine by (simp add: usedBytes_def up(1) owned new_document_def)
  next
    case False
    then have "\<not> owned_case u d (cd_caseId input)"
      using one_owner [OF _ mine] assms(1) by (auto simp: db_ok_def)
    with False show ?thesis by (simp add: usedBytes_def up(1) owned new_document_def)
  qed
  have "rows_ok d'"
    using assms(1) up(3) new_row_ok(1) [of input now]
    by (auto simp: db_ok_def rows_ok_def unique_documents_def up(1) taken_def new_document_id)
  moreover have "\<forall>p \<in> set (ocrPages d'). \<exists>x \<in> set (ocrResults d'). r_id x = p_ocrResultId p"
    using step_pages [OF _ assms(3)] assms(1) unfolding pages_kept_def db_ok_def rows_ok_def by blast
  moreover have "owned_case (d_uploadedByUserId r) d' (d_caseId r)" if "r \<in> set (documents d')" for r
    using that assms(1) mine by (auto simp: up(1) owned db_ok_def new_document_def)
  ultimately show ?thesis using assms(1) up(5) by (auto simp: db_ok_def used up(2))
qed

lemma db_ok_step: "doc_step d d' \<Longrightarrow> db_ok d \<Longrightarrow> db_ok d'"
  using rows_of_step [of d d'] db_ok_rows_step [of d d'] db_ok_upload [of d d'] unfolding db_ok_def by blast

lemma db_ok_steps: "doc_step\<^sup>*\<^sup>* d d' \<Longrightarrow> db_ok d \<Longrightarrow> db_ok d'"
  by (induction rule: rtranclp_induct) (auto intro: db_ok_step)

lemma db_ok_empty: "db_ok empty_db"
  by (simp add: db_ok_def rows_ok_def unique_documents_def empty_db_def usedBytes_def DOCUMENT_QUOTA_BYTES_def MIB_def)

lemma reachable_ok: "doc_step\<^sup>*\<^sup>* empty_db d \<Longrightarrow> db_ok d"
  by (rule db_ok_steps [OF _ db_ok_empty])

section \<open>Properties\<close>

text \<open>
  C3. In every state the system can reach, whatever its processes did in whatever order, the
  tables satisfy the invariant: identifiers are unique, every document belongs to a case of the
  user who uploaded it, no user is over the quota, the OCR of a document starts only after a clean
  verdict, a CLEAN image names its copy without metadata and nothing else names one, a claimed row
  has the instant of its claim, and every stored page belongs to a recorded execution.
\<close>

theorem reachable_documents_ok:
  assumes "doc_step\<^sup>*\<^sup>* empty_db d"
  shows "db_ok d"
  by (rule reachable_ok [OF assms])

lemma find_map_row:
  assumes "documents d' = map f (documents d)" and "\<And>r. r \<in> set (documents d) \<Longrightarrow> d_id (f r) = d_id r"
  shows "find_document i d' = map_option f (find_document i d)"
proof -
  have "find (\<lambda>r. d_id r = i) (map f rows) = map_option f (find (\<lambda>r. d_id r = i) rows)"
    if "\<And>r. r \<in> set rows \<Longrightarrow> d_id (f r) = d_id r" for rows
    using that by (induction rows) auto
  with assms show ?thesis by (simp add: find_document_def)
qed

lemma find_append_other: "find P xs = Some r \<Longrightarrow> find P (xs @ ys) = Some r"
  by (induction xs) auto

lemma step_row:
  assumes "db_ok d" and "doc_step d d'" and "find_document i d = Some r"
  shows "\<exists>r'. find_document i d' = Some r' \<and> row_move r r'"
proof -
  have ok: "rows_ok d" using assms(1) by (simp add: db_ok_def)
  have r: "r \<in> set (documents d)" "row_ok r"
    using assms(3) ok find_document_SomeD by (auto simp: rows_ok_def)
  from rows_of_step [OF ok assms(2)] show ?thesis
  proof
    assume "rows_step d d'"
    then obtain f where f: "documents d' = map f (documents d)" "\<forall>r \<in> set (documents d). row_move r (f r)"
      unfolding rows_step_def by blast
    then have "find_document i d' = map_option f (find_document i d)"
      by (intro find_map_row) (auto simp: row_move_def identity_def)
    with f(2) r(1) assms(3) show ?thesis by simp
  next
    assume "uploaded_step d d'"
    then obtain new where "documents d' = documents d @ [new]" by (auto simp: uploaded_step_def)
    with assms(3) have "find_document i d' = Some r"
      by (simp add: find_document_def find_append_other)
    with row_move_refl [OF r(2)] show ?thesis by blast
  qed
qed

lemma steps_row:
  assumes "doc_step\<^sup>*\<^sup>* d d'" and "db_ok d" and "find_document i d = Some r"
  shows "\<exists>r'. find_document i d' = Some r' \<and> identity r' = identity r \<and>
    doc_move\<^sup>*\<^sup>* (phase_of r) (phase_of r')"
  using assms(1)
proof (induction rule: rtranclp_induct)
  case base
  with assms(3) show ?case by blast
next
  case (step d1 d2)
  then obtain r1 where r1: "find_document i d1 = Some r1" "identity r1 = identity r"
      "doc_move\<^sup>*\<^sup>* (phase_of r) (phase_of r1)" by blast
  have "db_ok d1" using db_ok_steps [OF step(1) assms(2)] .
  from step_row [OF this step(2) r1(1)] obtain r2 where "find_document i d2 = Some r2" "row_move r1 r2" by blast
  with r1 show ?case by (auto simp: row_move_def intro: rtranclp.rtrancl_into_rtrancl)
qed

text \<open>
  C2. The system implements the documented life of a document: along any history of steps a
  document is never removed, its identity (id, case, name, type, key, size, owner, date) never
  changes, and its treatment and OCR states only move along the abstract machine.
\<close>

theorem lifecycle_refined:
  assumes "doc_step\<^sup>*\<^sup>* d d'" and "db_ok d" and "find_document i d = Some r"
  shows "\<exists>r'. find_document i d' = Some r' \<and> identity r' = identity r \<and>
    doc_move\<^sup>*\<^sup>* (phase_of r) (phase_of r')"
  using steps_row [OF assms] .

lemma createDownloadUrl_Inr:
  assumes "createDownloadUrl opts now current c i w = (Inr (url, expiry), w')"
  shows "\<exists>r key. findOwnDocument i c (pu_id (cur_user current)) (w_db w) = Some r \<and> downloadableKey r = Some key \<and>
    w_urls w' = w_urls w @ [\<lparr>dl_key = key, dl_fileName = d_fileName r, dl_contentType = CONTENT_TYPES (d_fileType r),
      dl_expiresInSeconds = do_downloadUrlTtlSeconds opts\<rparr>] \<and> expiry = now + 1000 * do_downloadUrlTtlSeconds opts"
  using assms
  by (auto simp: createDownloadUrl_def createDownloadUrl_store_def bindE_def split: sum.splits option.splits if_splits)

text \<open>
  C4. Only what was treated is served: in a reachable state, a download URL is only ever issued
  for a CLEAN document of the caller, uploaded by the caller, and it names the copy without
  metadata of an image, or the original of a PDF, with the lifetime configured.
\<close>

theorem download_only_treated:
  assumes "doc_step\<^sup>*\<^sup>* empty_db (w_db w)"
    and "createDownloadUrl opts now current c i w = (Inr (url, expiry), w')"
  shows "\<exists>r. find_document i (w_db w) = Some r \<and> d_caseId r = c \<and> d_status r = CLEAN \<and>
    d_uploadedByUserId r = pu_id (cur_user current) \<and> expiry = now + 1000 * do_downloadUrlTtlSeconds opts \<and>
    w_urls w' = w_urls w @
      [\<lparr>dl_key = (if d_fileType r = PDF then d_storageKey r else sanitizedKeyOf (d_storageKey r)),
        dl_fileName = d_fileName r, dl_contentType = CONTENT_TYPES (d_fileType r),
        dl_expiresInSeconds = do_downloadUrlTtlSeconds opts\<rparr>]"
proof -
  let ?d = "w_db w" and ?u = "pu_id (cur_user current)"
  have ok: "db_ok ?d" by (rule reachable_ok [OF assms(1)])
  obtain r key where r: "findOwnDocument i c ?u ?d = Some r" "downloadableKey r = Some key"
      "w_urls w' = w_urls w @ [\<lparr>dl_key = key, dl_fileName = d_fileName r, dl_contentType = CONTENT_TYPES (d_fileType r),
         dl_expiresInSeconds = do_downloadUrlTtlSeconds opts\<rparr>]" "expiry = now + 1000 * do_downloadUrlTtlSeconds opts"
    using createDownloadUrl_Inr [OF assms(2)] by blast
  have own: "r \<in> set (documents ?d)" "d_id r = i" "d_caseId r = c" "owned_case ?u ?d c"
    using find_SomeD [OF r(1) [unfolded findOwnDocument_def]] by auto
  have "owned_case (d_uploadedByUserId r) ?d c" "distinct (map c_id (cases ?d))" "row_ok r"
    using ok own(1,3) by (auto simp: db_ok_def rows_ok_def)
  then have "d_uploadedByUserId r = ?u" using own(4) one_owner by blast
  moreover have "find_document i ?d = Some r"
    using ok own(1,2) by (simp add: find_document_iff db_ok_def rows_ok_def)
  moreover have "d_status r = CLEAN \<and> key = (if d_fileType r = PDF then d_storageKey r else sanitizedKeyOf (d_storageKey r))"
    using r(2) \<open>row_ok r\<close> by (auto simp: downloadableKey_def row_ok_def copy_key_def split: if_splits)
  ultimately show ?thesis using r(3,4) own(3) by auto
qed

text \<open>
  C5. A verdict is final: once a document is INFECTED, no later state of the system gives anyone
  a URL for it or the text of its OCR, and an administrator can neither have it treated nor read again.
\<close>

theorem infected_never_served:
  assumes "doc_step\<^sup>*\<^sup>* d d'" and "db_ok d" and "find_document i d = Some r" and "d_status r = INFECTED"
    and "w_db w = d'"
  shows "(\<forall>x. fst (createDownloadUrl opts now current c i w) \<noteq> Inr x) \<and>
    (\<forall>x. fst (readDocumentOcr id current c i d') = Inr x \<longrightarrow> or_pages x = []) \<and>
    fst (requestReprocess sent now current i reason ctx d') \<noteq> Inr () \<and>
    fst (requestOcrReprocess sent now current i reason ctx d') \<noteq> Inr ()"
proof -
  have ok: "db_ok d'" by (rule db_ok_steps [OF assms(1,2)])
  obtain r' where r': "find_document i d' = Some r'" "doc_move\<^sup>*\<^sup>* (phase_of r) (phase_of r')"
    using steps_row [OF assms(1-3)] by blast
  have inf: "d_status r' = INFECTED"
    using doc_moves_final(2) [OF r'(2)] assms(4) by (simp add: phase_of_def)
  have "row_ok r'" using ok r'(1) find_document_SomeD by (auto simp: db_ok_def rows_ok_def)
  then have notdone: "d_ocrStatus r' \<noteq> COMPLETED" using inf by (auto simp: row_ok_def)
  have only: "s = r'" if "findOwnDocument i c u d' = Some s" for s u
  proof -
    have "find_document i d' = Some s"
      using find_SomeD [OF that [unfolded findOwnDocument_def]] ok
      by (simp add: find_document_iff db_ok_def rows_ok_def)
    with r'(1) show ?thesis by simp
  qed
  have "fst (createDownloadUrl opts now current c i w) \<noteq> Inr x" for x
    using createDownloadUrl_Inr [of opts now current c i w "fst x" "snd x" "snd (createDownloadUrl opts now current c i w)"]
      only inf assms(5) by (auto simp: downloadableKey_def prod_eq_iff)
  moreover have "or_pages x = []" if "fst (readDocumentOcr id current c i d') = Inr x" for x
    using that only notdone
    by (auto simp: readDocumentOcr_def findOwnDocumentOcr_def split: sum.splits option.splits prod.splits if_splits)
  ultimately show ?thesis
    using r'(1) inf
    by (auto simp: requestReprocess_def requestOcrReprocess_def findDocumentForAdministration_def split: sum.splits)
qed

section \<open>Concrete histories\<close>

definition pdf_input :: create_document_input where
  "pdf_input = upload_input ''d1'' ''c1'' (owner ''u1'') [0x61] pdf_bytes PDF (storage_key ''c1'' ''d1'') run_ctx"

definition uploaded_db :: db where
  "uploaded_db = snd (createDocument True 9 pdf_input one_case)"

definition scanning_db :: db where
  "scanning_db = snd (claim_scan ''d1'' 60 1000 uploaded_db)"

definition pdf_claim :: scan_claim where
  "pdf_claim = to_scan_claim 1000 (start_scan 1000 (new_document pdf_input 9))"

definition clean_db :: db where
  "clean_db = snd (close_scan (Close_clean None 2000 None) pdf_claim scanning_db)"

definition infected_db :: db where
  "infected_db = snd (close_scan (Close_infected None 2000 ''Eicar'') pdf_claim scanning_db)"

lemma histories:
  "doc_step\<^sup>*\<^sup>* empty_db uploaded_db" "doc_step\<^sup>*\<^sup>* uploaded_db clean_db" "doc_step\<^sup>*\<^sup>* uploaded_db infected_db"
proof -
  have "doc_step empty_db one_case"
    unfolding one_case_def by (rule step_case) (rule prod.collapse [symmetric])
  moreover have "doc_step one_case uploaded_db"
    unfolding uploaded_db_def
    by (rule step_upload [of pdf_input]) (simp add: pdf_input_def upload_input_def, rule prod.collapse [symmetric])
  ultimately show "doc_step\<^sup>*\<^sup>* empty_db uploaded_db" by (meson r_into_rtranclp rtranclp.rtrancl_into_rtrancl)
  have claim: "doc_step uploaded_db scanning_db"
    unfolding scanning_db_def by (rule step_scan_claim) (rule prod.collapse [symmetric])
  have "find_document ''d1'' scanning_db = Some (start_scan 1000 (new_document pdf_input 9))"
    by code_simp
  then have "genuine pdf_claim scanning_db"
    by (auto simp: genuine_def pdf_claim_def to_scan_claim_def start_scan_def new_document_def pdf_input_def upload_input_def)
  then have close: "doc_step scanning_db (snd (close_scan op pdf_claim scanning_db))" if "names_copy op pdf_claim" for op
    using that by (rule step_scan_close) (rule prod.collapse [symmetric])
  have "names_copy (Close_clean None 2000 None) pdf_claim" by code_simp
  from close [OF this] claim show "doc_step\<^sup>*\<^sup>* uploaded_db clean_db"
    unfolding clean_db_def by (meson r_into_rtranclp rtranclp.rtrancl_into_rtrancl)
  from close [of "Close_infected None 2000 ''Eicar''"] claim show "doc_step\<^sup>*\<^sup>* uploaded_db infected_db"
    unfolding infected_db_def by (meson names_copy.simps(2) r_into_rtranclp rtranclp.rtrancl_into_rtrancl)
qed

theorem reachable_documents_ok_witness:
  "db_ok uploaded_db \<and> map d_id (documents uploaded_db) = [''d1'']"
proof -
  have "map d_id (documents uploaded_db) = [''d1'']" by code_simp
  with reachable_documents_ok [OF histories(1)] show ?thesis by simp
qed

lemma uploaded_row: "find_document ''d1'' uploaded_db = Some (new_document pdf_input 9)"
  by code_simp

theorem lifecycle_refined_witness:
  "\<exists>r'. find_document ''d1'' clean_db = Some r' \<and> d_status r' = CLEAN \<and>
    doc_move\<^sup>*\<^sup>* (PENDING_SCAN, NOT_STARTED) (phase_of r')"
proof -
  have "map_option d_status (find_document ''d1'' clean_db) = Some CLEAN" by code_simp
  with lifecycle_refined [OF histories(2) reachable_ok [OF histories(1)] uploaded_row]
  show ?thesis by (auto simp: new_row_ok)
qed

definition clean_world :: world where
  "clean_world = \<lparr>w_db = clean_db, w_objects = (\<lambda>_. None), w_urls = [], w_log = []\<rparr>"

theorem download_only_treated_witness:
  "fst (createDownloadUrl test_options 5000 (owner ''u1'') ''c1'' ''d1'' clean_world) \<noteq> Inl notFound \<and>
   (\<exists>r. find_document ''d1'' clean_db = Some r \<and> d_status r = CLEAN \<and> d_uploadedByUserId r = ''u1'')"
proof -
  let ?run = "createDownloadUrl test_options 5000 (owner ''u1'') ''c1'' ''d1'' clean_world"
  have res: "map_option snd (case fst ?run of Inl e \<Rightarrow> None | Inr x \<Rightarrow> Some x) = Some 65000" by code_simp
  then obtain url t where "fst ?run = Inr (url, t)" by (auto split: sum.splits)
  then have run: "?run = (Inr (url, t), snd ?run)" by (simp add: prod_eq_iff)
  have "doc_step\<^sup>*\<^sup>* empty_db (w_db clean_world)"
    using histories(1,2) by (simp add: clean_world_def)
  note only = download_only_treated [OF this run]
  have "pu_id (cur_user (owner ''u1'')) = ''u1''" "w_db clean_world = clean_db" by (simp_all add: owner_def clean_world_def)
  with only have "\<exists>r. find_document ''d1'' clean_db = Some r \<and> d_status r = CLEAN \<and> d_uploadedByUserId r = ''u1''"
    by metis
  with run show ?thesis by (metis fst_conv sum.distinct(1))
qed

theorem infected_never_served_witness:
  "map_option d_status (find_document ''d1'' infected_db) = Some INFECTED \<and>
   (\<forall>x. fst (createDownloadUrl test_options 5000 (owner ''u1'') ''c1'' ''d1'' (clean_world\<lparr>w_db := infected_db\<rparr>)) \<noteq> Inr x)"
proof -
  have inf: "map_option d_status (find_document ''d1'' infected_db) = Some INFECTED" by code_simp
  then obtain r where r: "find_document ''d1'' infected_db = Some r" "d_status r = INFECTED" by auto
  have "db_ok infected_db"
    by (rule reachable_ok) (meson histories(1,3) rtranclp_trans)
  from infected_never_served [OF rtranclp.rtrancl_refl this r, of "clean_world\<lparr>w_db := infected_db\<rparr>"] inf
  show ?thesis by simp
qed

end
