(* ===== verification/System_Runs.thy ===== *)
theory System_Runs
  imports Lifecycle
begin

text \<open>
  The jobs of the worker and the uploads of the API as sequences of steps: each run, with whatever
  other processes do between its calls and whichever of its calls fail before or after taking
  effect, leaves a database that the steps of the system reach. So every property of reachable
  states holds while and after any number of runs interleave.
\<close>

section \<open>Programs made of steps\<close>

text \<open>Between its calls, a run sees what other processes did: steps of the system as well.\<close>

definition stepping :: "call_env \<Rightarrow> bool" where
  "stepping env \<longleftrightarrow> (\<forall>n w. db_ok (w_db w) \<longrightarrow> doc_step\<^sup>*\<^sup>* (w_db w) (w_db (ce_during env n w)))"

definition stable :: "(db \<Rightarrow> bool) \<Rightarrow> bool" where
  "stable I \<longleftrightarrow> (\<forall>d. I d \<longrightarrow> db_ok d) \<and> (\<forall>d d'. I d \<longrightarrow> doc_step d d' \<longrightarrow> I d')"

definition runs :: "(db \<Rightarrow> bool) \<Rightarrow> 'a io \<Rightarrow> bool" where
  "runs I m \<longleftrightarrow> (\<forall>w. I (w_db w) \<longrightarrow> doc_step\<^sup>*\<^sup>* (w_db w) (w_db (snd (m w))))"

lemma stable_steps: "stable I \<Longrightarrow> doc_step\<^sup>*\<^sup>* d d' \<Longrightarrow> I d \<Longrightarrow> I d'"
  by (rotate_tac 1, induction rule: rtranclp_induct) (auto simp: stable_def)

lemma runs_pure: "(\<And>w. w_db (snd (m w)) = w_db w) \<Longrightarrow> runs I m"
  by (simp add: runs_def)

lemma runs_return [simp, intro]: "runs I (returnE x)" "runs I (throwE e)" "runs I (Pair r)"
  by (auto intro: runs_pure)

lemma runs_bind:
  assumes "stable I" and "runs I m" and "\<And>x. runs I (f x)"
  shows "runs I (bindE m f)"
  unfolding runs_def
proof (intro allI impI)
  fix w :: world assume I: "I (w_db w)"
  obtain r w1 where m: "m w = (r, w1)" by fastforce
  with assms(2) I have s1: "doc_step\<^sup>*\<^sup>* (w_db w) (w_db w1)" by (auto simp: runs_def)
  with assms(1,3) I have "doc_step\<^sup>*\<^sup>* (w_db w1) (w_db (snd (f x w1)))" for x
    using stable_steps [OF assms(1) s1 I] by (simp add: runs_def)
  with s1 m show "doc_step\<^sup>*\<^sup>* (w_db w) (w_db (snd (bindE m f w)))"
    by (cases r) (auto simp: bindE_def intro: rtranclp_trans)
qed

lemma runs_catch:
  assumes "stable I" and "runs I m" and "\<And>e. runs I (h e)"
  shows "runs I (catchE m h)"
  unfolding runs_def
proof (intro allI impI)
  fix w :: world assume I: "I (w_db w)"
  obtain r w1 where m: "m w = (r, w1)" by fastforce
  with assms(2) I have s1: "doc_step\<^sup>*\<^sup>* (w_db w) (w_db w1)" by (auto simp: runs_def)
  with assms(1,3) I have "doc_step\<^sup>*\<^sup>* (w_db w1) (w_db (snd (h e w1)))" for e
    using stable_steps [OF assms(1) s1 I] by (simp add: runs_def)
  with s1 m show "doc_step\<^sup>*\<^sup>* (w_db w) (w_db (snd (catchE m h w)))"
    by (cases r) (auto simp: catchE_def intro: rtranclp_trans)
qed

lemma runs_call:
  assumes "stable I" and "stepping env" and "runs I (m (ce_clock env n))"
  shows "runs I (call env n m)"
  unfolding runs_def
proof (intro allI impI)
  fix w :: world assume I: "I (w_db w)"
  let ?w = "ce_during env n w"
  have s1: "doc_step\<^sup>*\<^sup>* (w_db w) (w_db ?w)"
    using assms(1,2) I by (simp add: stepping_def stable_def)
  with assms(1,3) I have "doc_step\<^sup>*\<^sup>* (w_db ?w) (w_db (snd (m (ce_clock env n) ?w)))"
    using stable_steps [OF assms(1) s1 I] by (simp add: runs_def)
  with s1 faulty_snd [of "ce_fault env n" "m (ce_clock env n)" ?w]
  show "doc_step\<^sup>*\<^sup>* (w_db w) (w_db (snd (call env n m w)))"
    by (auto simp: call_def intro: rtranclp_trans)
qed

lemma runs_tx:
  assumes "\<And>d r d'. I d \<Longrightarrow> m d = (r, d') \<Longrightarrow> doc_step d d'"
  shows "runs I (in_db m)"
  using assms by (auto simp: runs_def in_db_def split: prod.splits intro: r_into_rtranclp)

lemma runs_storage [simp, intro]:
  "runs I (putObject k b t)" "runs I (getObject k)" "runs I (deleteObject k)"
  by (auto intro!: runs_pure simp: getObject_def split: option.splits)

lemma runs_logging: "runs I m \<Longrightarrow> runs I (\<lambda>w. m (logging e w))"
  by (auto simp: runs_def) (metis logging_simps(1))

lemma runs_logged: "runs I (\<lambda>w. (Inr x, logging e w))"
  by (simp add: runs_def)

section \<open>What a claim remembers stays true\<close>

definition for_claim :: "scan_claim \<Rightarrow> db \<Rightarrow> bool" where
  "for_claim c d \<longleftrightarrow> db_ok d \<and> (\<exists>r. find_document (sc_documentId c) d = Some r \<and>
     d_fileType r = sc_fileType c \<and> d_storageKey r = sc_storageKey c)"

lemma stable_db_ok: "stable db_ok"
  by (auto simp: stable_def intro: db_ok_step)

lemma stable_for_claim: "stable (for_claim c)"
  unfolding stable_def
proof (intro conjI allI impI)
  show "db_ok d" if "for_claim c d" for d using that by (simp add: for_claim_def)
next
  fix d d' assume c: "for_claim c d" and s: "doc_step d d'"
  then obtain r where r: "find_document (sc_documentId c) d = Some r" "d_fileType r = sc_fileType c"
      "d_storageKey r = sc_storageKey c" by (auto simp: for_claim_def)
  from c s obtain r' where "find_document (sc_documentId c) d' = Some r'" "row_move r r'"
    using step_row [OF _ s r(1)] by (auto simp: for_claim_def)
  with r c s show "for_claim c d'"
    by (auto simp: for_claim_def row_move_def identity_def intro: db_ok_step)
qed

lemma for_claim_genuine: "for_claim c d \<Longrightarrow> genuine c d"
  by (auto simp: for_claim_def genuine_def)

lemma claim_for_claim:
  assumes "db_ok d" and "claim_scan i lease now d = (Inr (Some c), d')"
  shows "for_claim c d'"
proof -
  have u: "unique_documents d" using assms(1) by (simp add: db_ok_def rows_ok_def)
  obtain r where r: "find_document i d = Some r" "c = to_scan_claim now (start_scan now r)"
      "find_document i d' = Some (start_scan now r)"
    using claim_scan_given [OF u assms(2)] by metis
  moreover have "db_ok d'" using db_ok_step [OF step_scan_claim [OF assms(2)] assms(1)] .
  moreover have "d_id r = i" using find_document_SomeD [OF r(1)] by simp
  ultimately show ?thesis by (simp add: for_claim_def to_scan_claim_def start_scan_def)
qed

section \<open>The jobs\<close>

lemma runs_close:
  assumes "names_copy op c"
  shows "runs (for_claim c) (in_db (close_scan op c))"
  by (rule runs_tx) (auto intro: step_scan_close [OF for_claim_genuine assms])

lemmas runs_rules = runs_bind runs_catch runs_call

lemma runs_storeSanitizedCopy:
  assumes "stepping env" and "stable I"
  shows "runs I (storeSanitizedCopy env c content)"
  using assms by (auto simp: storeSanitizedCopy_def intro!: runs_rules split: sum.splits)

text \<open>A result whose value is known.\<close>

lemma runs_bind_value:
  assumes "stable I" and "runs I m" and "\<And>w x w'. m w = (Inr x, w') \<Longrightarrow> x = v" and "runs I (f v)"
  shows "runs I (bindE m f)"
proof -
  have "bindE m f = bindE m (\<lambda>_. f v)"
    using assms(3) by (fastforce simp: bindE_def split: prod.splits sum.splits)
  with runs_bind [OF assms(1,2,4)] show ?thesis by simp
qed

lemma storeSanitizedCopy_key:
  "storeSanitizedCopy env c content w = (Inr key, w') \<Longrightarrow> key = copy_key (sc_fileType c) (sc_storageKey c)"
  by (auto simp: storeSanitizedCopy_def copy_key_def bindE_eq_Inr split: if_splits sum.splits)

lemma runs_treat:
  assumes "stepping env"
  shows "runs (for_claim c) (treat deps env c)"
proof -
  note rules = runs_bind [OF stable_for_claim] runs_call [OF stable_for_claim assms]
  have inf: "runs (for_claim c) (in_db (markInfected ocr now c sig))" for ocr now sig
    using runs_close [of "Close_infected ocr now sig" c] by simp
  have clean: "runs (for_claim c) (in_db (markClean ocr now c (copy_key (sc_fileType c) (sc_storageKey c))))" for ocr now
    using runs_close [of "Close_clean ocr now (copy_key (sc_fileType c) (sc_storageKey c))" c] by simp
  have copy: "runs (for_claim c) (bindE (storeSanitizedCopy env c content)
      (\<lambda>key. bindE (call env 3 (\<lambda>now. in_db (markClean (sd_ocr deps) now c key)))
        (\<lambda>recorded. returnE (if recorded then Clean else Lost))))" for content
    by (rule runs_bind_value [OF stable_for_claim runs_storeSanitizedCopy [OF assms stable_for_claim]
          storeSanitizedCopy_key]) (auto intro!: rules clean)
  show ?thesis
    unfolding treat_def
    by (auto intro!: rules inf copy split: sum.splits scan_verdict.splits)
qed

lemma runs_treatment_failed:
  assumes "stepping env"
  shows "runs (for_claim c) (treatment_failed deps env c e)"
proof -
  note rules = runs_bind [OF stable_for_claim] runs_call [OF stable_for_claim assms] runs_catch [OF stable_for_claim]
  have failed: "runs (for_claim c) (in_db (markFailed_scan ocr now c))" for ocr now
    using runs_close [of "Close_failed ocr now" c] by simp
  have release: "runs (for_claim c) (in_db (release_scan c))"
    using runs_close [of Close_release c] by simp
  show ?thesis
    unfolding treatment_failed_def removeSanitizedCopy_def
    by (auto intro!: rules failed release runs_logged)
qed

lemma runs_scanDocument:
  assumes "stepping env"
  shows "runs db_ok (scanDocument deps env i)"
  unfolding runs_def
proof (intro allI impI)
  fix w :: world assume ok: "db_ok (w_db w)"
  let ?claim = "call env 0 (\<lambda>now. in_db (claim_scan i (sd_leaseSeconds deps) now))"
  have claims: "runs db_ok ?claim"
    by (rule runs_call [OF stable_db_ok assms runs_tx]) (rule step_scan_claim)
  obtain r w1 where c: "?claim w = (r, w1)" by fastforce
  with claims ok have s1: "doc_step\<^sup>*\<^sup>* (w_db w) (w_db w1)" by (auto simp: runs_def)
  show "doc_step\<^sup>*\<^sup>* (w_db w) (w_db (snd (scanDocument deps env i w)))"
  proof (cases "\<exists>claim. r = Inr (Some claim)")
    case True
    then obtain claim where r: "r = Inr (Some claim)" by blast
    have "db_ok (w_db (ce_during env 0 w))"
      using assms ok db_ok_steps by (auto simp: stepping_def)
    moreover from call_Inr [OF c [unfolded r]]
    have "claim_scan i (sd_leaseSeconds deps) (ce_clock env 0) (w_db (ce_during env 0 w)) = (Inr (Some claim), w_db w1)"
      by (rule in_db_Inr)
    ultimately have "for_claim claim (w_db w1)" by (rule claim_for_claim)
    moreover have "runs (for_claim claim) (catchE (treat deps env claim) (treatment_failed deps env claim))"
      by (intro runs_catch stable_for_claim runs_treat runs_treatment_failed assms)
    ultimately show ?thesis
      using s1 c r by (auto simp: scanDocument_def bindE_def runs_def intro: rtranclp_trans)
  next
    case False
    with c s1 show ?thesis
      by (cases r) (auto simp: scanDocument_def bindE_def split: option.splits)
  qed
qed

lemma runs_ocr_close: "runs db_ok (in_db (close_ocr op c))"
  by (rule runs_tx) (rule step_ocr_close)

lemma runs_read:
  assumes "stepping env"
  shows "runs db_ok (readRepresentation env c rep)"
  unfolding readRepresentation_def
  by (auto intro!: runs_bind [OF stable_db_ok] runs_catch [OF stable_db_ok] runs_call [OF stable_db_ok assms]
      split: option.splits exn.splits)

lemma runs_ocr_treat:
  assumes "stepping env"
  shows "runs db_ok (ocr_treat deps env newId c)"
  unfolding runs_def
proof (intro allI impI)
  fix w :: world assume ok: "db_ok (w_db w)"
  note rules = runs_bind [OF stable_db_ok] runs_call [OF stable_db_ok assms]
  have done': "runs db_ok (in_db (markCompleted now c x texts))" "runs db_ok (in_db (markFailed_ocr now c y))"
    "runs db_ok (in_db (markExcluded c))" "runs db_ok (in_db (releaseForRetry sent c delay))" for now x y texts sent delay
    using runs_ocr_close [of "Close_completed now x texts" c] runs_ocr_close [of "Close_ocr_failed now y" c]
      runs_ocr_close [of Close_excluded c] runs_ocr_close [of "Close_retry sent delay" c] by simp_all
  have failed: "runs db_ok (ocr_attempt_failed deps env newId c rep f)" for rep f
    unfolding ocr_attempt_failed_def
    by (cases "classify (of_error f)") (auto intro!: runs_logging rules done')
  let ?rep = "if oc_fileType c = PDF then ORIGINAL else od_imageRepresentation deps"
  show "doc_step\<^sup>*\<^sup>* (w_db w) (w_db (snd (ocr_treat deps env newId c w)))"
  proof (cases "oc_fileType c = PDF \<and> \<not> od_pdfAllowed deps")
    case True
    have "runs db_ok (ocr_treat deps env newId c)"
      unfolding ocr_treat_def if_P [OF True] by (intro rules done' runs_return)
    with ok show ?thesis by (simp add: runs_def)
  next
    case False
    obtain rr w1 where rd: "readRepresentation env c ?rep w = (rr, w1)" by fastforce
    with runs_read [OF assms, of c ?rep] ok have s1: "doc_step\<^sup>*\<^sup>* (w_db w) (w_db w1)" by (auto simp: runs_def)
    then have ok1: "db_ok (w_db w1)" using db_ok_steps ok by blast
    have snd_rd: "snd (read_document deps env c ?rep w) = w1"
      using rd by (simp add: read_document_def split: sum.splits)
    show ?thesis
    proof (cases "fst (read_document deps env c ?rep w)")
      case (Inl failure)
      with snd_rd have "read_document deps env c ?rep w = (Inl failure, w1)" by (simp add: prod_eq_iff)
      with failed [of ?rep failure] ok1 s1 show ?thesis
        unfolding ocr_treat_def if_not_P [OF False] Let_def by (auto simp: runs_def intro: rtranclp_trans)
    next
      case (Inr reading)
      with snd_rd have read: "read_document deps env c ?rep w = (Inr reading, w1)" by (simp add: prod_eq_iff)
      have "runs db_ok (bindE (call env 4 (\<lambda>now. in_db (markCompleted now c
                  \<lparr>ex_id = newId, ex_engine = od_engine deps, ex_engineVersion = rd_engineVersion reading,
                   ex_representation = Some ?rep, ex_processedSha256 = Some (rd_processedSha256 reading),
                   ex_pages = int (length (rd_pages reading))\<rparr> (rd_pages reading))))
                (\<lambda>recorded. returnE (if recorded then Ocr_completed else Ocr_lost)))"
        by (intro rules done' runs_return)
      with read ok1 s1 show ?thesis
        unfolding ocr_treat_def if_not_P [OF False] Let_def by (auto simp: runs_def intro: rtranclp_trans)
    qed
  qed
qed

lemma runs_ocrDocument:
  assumes "stepping env"
  shows "runs db_ok (ocrDocument deps env newId i)"
proof -
  have "runs db_ok (in_db (claim_ocr i lease now))" for lease now
    by (rule runs_tx) (rule step_ocr_claim)
  then show ?thesis
    unfolding ocrDocument_def
    by (auto intro!: runs_bind [OF stable_db_ok] runs_call [OF stable_db_ok assms] runs_ocr_treat [OF assms]
        split: option.splits)
qed

section \<open>Uploads, handlers and sweeps\<close>

lemma runs_querying [simp, intro]: "runs I (querying q)"
  by (rule runs_pure) (simp add: querying_def)

lemma runs_uploadDocument:
  assumes "stepping env"
  shows "runs db_ok (uploadDocument env sent opts newId current c name content ctx)"
proof -
  note rules = runs_bind [OF stable_db_ok] runs_call [OF stable_db_ok assms] runs_catch [OF stable_db_ok]
  have create: "runs db_ok (in_db (createDocument sent now input))" if "cd_quotaBytes input = DOCUMENT_QUOTA_BYTES" for now input
    using that by (auto intro!: runs_tx intro: step_upload)
  have orphan: "runs db_ok (removeOrphan env key)" for key
    unfolding removeOrphan_def by (auto intro!: rules runs_logged)
  have quota: "cd_quotaBytes (upload_input newId c current name content t key ctx) = DOCUMENT_QUOTA_BYTES" for t key
    by (simp add: upload_input_def)
  have store: "runs db_ok (store_upload env sent key content t input)" if "cd_quotaBytes input = DOCUMENT_QUOTA_BYTES" for key t input
    unfolding store_upload_def
    by (auto intro!: rules runs_logging orphan create [OF that] split: create_document_result.splits)
  show ?thesis
    unfolding uploadDocument_def Let_def
    by (auto intro!: rules store quota split: option.splits)
qed

lemma runs_handle:
  assumes "\<And>i. runs db_ok (run i)"
  shows "runs db_ok (handle invalid name run job payload)"
  unfolding handle_def
  by (auto intro!: runs_bind [OF stable_db_ok] assms runs_logged split: option.splits)

lemma runs_reprocesses:
  assumes "stepping env"
  shows "runs db_ok (call env n (\<lambda>now. in_db (reprocessDocument sent now i)))"
    and "runs db_ok (call env n (\<lambda>now. in_db (reprocessOcr sent now i)))"
  by (rule runs_call [OF stable_db_ok assms runs_tx], erule step_reprocess step_ocr_reprocess)+

lemma runs_worker_sweep:
  assumes "stepping env"
  shows "runs db_ok (worker_sweep env senv sopts ocr)"
proof -
  have "runs db_ok (in_db (sweepUntreatedDocuments senv sopts))" "runs db_ok (in_db (sweepAbandonedOcr oenv oopts))"
    for oenv oopts
    by (auto intro!: runs_tx intro: step_scan_sweep step_ocr_sweep)
  then show ?thesis
    unfolding worker_sweep_def
    by (auto intro!: runs_bind [OF stable_db_ok] runs_call [OF stable_db_ok assms] split: option.splits)
qed

text \<open>The jobs a worker handles and the requests that write documents, each with its payload.\<close>

datatype activity =
    Scan_job scan_deps uuid "uuid option"
  | Reprocess_job bool uuid "uuid option"
  | Ocr_job ocr_deps uuid uuid "uuid option"
  | Ocr_reprocess_job bool uuid "uuid option"
  | Sweep_run sweep_env sweep_options "(ocr_sweep_env \<times> ocr_sweep_options) option"
  | Upload bool documents_options uuid current_user uuid js_text bytes request_context
  | Ask_reprocess bool time current_user uuid string request_context
  | Ask_ocr_reprocess bool time current_user uuid string request_context

fun perform :: "call_env \<Rightarrow> activity \<Rightarrow> world \<Rightarrow> world" where
  "perform env (Scan_job deps job payload) w = snd (workDocumentScans deps env job payload w)"
| "perform env (Reprocess_job sent job payload) w = snd (workDocumentReprocesses env sent job payload w)"
| "perform env (Ocr_job deps newId job payload) w = snd (workDocumentOcr deps env newId job payload w)"
| "perform env (Ocr_reprocess_job sent job payload) w = snd (workDocumentOcrReprocesses env sent job payload w)"
| "perform env (Sweep_run senv sopts ocr) w = snd (worker_sweep env senv sopts ocr w)"
| "perform env (Upload sent opts newId current c name content ctx) w =
    snd (uploadDocument env sent opts newId current c name content ctx w)"
| "perform env (Ask_reprocess sent now current i reason ctx) w =
    snd (in_db (requestReprocess sent now current i reason ctx) w)"
| "perform env (Ask_ocr_reprocess sent now current i reason ctx) w =
    snd (in_db (requestOcrReprocess sent now current i reason ctx) w)"

lemma requests_elsewhere:
  "documents (snd (requestReprocess sent now current i reason ctx d)) = documents d \<and>
   cases (snd (requestReprocess sent now current i reason ctx d)) = cases d \<and>
   ocrResults (snd (requestReprocess sent now current i reason ctx d)) = ocrResults d \<and>
   ocrPages (snd (requestReprocess sent now current i reason ctx d)) = ocrPages d"
  "documents (snd (requestOcrReprocess sent now current i reason ctx d)) = documents d \<and>
   cases (snd (requestOcrReprocess sent now current i reason ctx d)) = cases d \<and>
   ocrResults (snd (requestOcrReprocess sent now current i reason ctx d)) = ocrResults d \<and>
   ocrPages (snd (requestOcrReprocess sent now current i reason ctx d)) = ocrPages d"
  by (auto simp: requestReprocess_def requestOcrReprocess_def requestReprocess_repo_def requestOcrReprocess_repo_def
      enqueueDocumentReprocess_def enqueueDocumentOcrReprocess_def transaction_def boss_send_def
      split: sum.splits option.splits)

lemma performed:
  assumes "stepping env" and "db_ok (w_db w)"
  shows "doc_step\<^sup>*\<^sup>* (w_db w) (w_db (perform env a w))"
proof (cases a)
  case (Scan_job deps job payload)
  have "runs db_ok (workDocumentScans deps env job payload)"
    unfolding workDocumentScans_def by (intro runs_handle runs_scanDocument assms)
  with Scan_job assms(2) show ?thesis by (simp add: runs_def)
next
  case (Reprocess_job sent job payload)
  have "runs db_ok (workDocumentReprocesses env sent job payload)"
    unfolding workDocumentReprocesses_def by (intro runs_handle runs_reprocesses assms)
  with Reprocess_job assms(2) show ?thesis by (simp add: runs_def)
next
  case (Ocr_job deps newId job payload)
  have "runs db_ok (workDocumentOcr deps env newId job payload)"
    unfolding workDocumentOcr_def by (intro runs_handle runs_ocrDocument assms)
  with Ocr_job assms(2) show ?thesis by (simp add: runs_def)
next
  case (Ocr_reprocess_job sent job payload)
  have "runs db_ok (workDocumentOcrReprocesses env sent job payload)"
    unfolding workDocumentOcrReprocesses_def by (intro runs_handle runs_reprocesses assms)
  with Ocr_reprocess_job assms(2) show ?thesis by (simp add: runs_def)
next
  case (Sweep_run senv sopts ocr)
  with runs_worker_sweep [OF assms(1)] assms(2) show ?thesis by (simp add: runs_def)
next
  case (Upload sent opts newId current c name content ctx)
  with runs_uploadDocument [OF assms(1)] assms(2) show ?thesis by (simp add: runs_def)
next
  case (Ask_reprocess sent now current i reason ctx)
  then show ?thesis
    by (auto simp: requests_elsewhere(1) intro!: r_into_rtranclp step_elsewhere)
next
  case (Ask_ocr_reprocess sent now current i reason ctx)
  then show ?thesis
    by (auto simp: requests_elsewhere(2) intro!: r_into_rtranclp step_elsewhere)
qed

text \<open>A process may be anything the system does: another activity, with what interferes with it.\<close>

lemma stepping_performed:
  assumes "stepping env"
  shows "stepping (env'\<lparr>ce_during := (\<lambda>n w. perform env (acts n) w)\<rparr>)"
  using performed [OF assms] by (simp add: stepping_def)

text \<open>
  C1. Every job of the worker, every sweep, every upload and every administrator's request is a
  sequence of steps of the system, whatever the antivirus, the OCR provider and the storage
  answer, whichever of its calls fail before or after taking effect, and whatever steps other
  processes take between its calls; so it keeps the invariant of the tables.
\<close>

theorem runs_refine_steps:
  assumes "stepping env" and "db_ok (w_db w)"
  shows "doc_step\<^sup>*\<^sup>* (w_db w) (w_db (perform env a w)) \<and> db_ok (w_db (perform env a w))"
  using performed [OF assms] db_ok_steps [OF performed [OF assms] assms(2)] by blast

section \<open>A concrete run\<close>

lemma calm_stepping: "stepping calm"
  by (simp add: stepping_def calm_def)

theorem runs_refine_steps_witness:
  "map_option d_status (find_document ''d1'' (w_db
     (perform calm (Scan_job png_deps ''j1'' (Some ''d1'')) (clean_world\<lparr>w_db := uploaded_db\<rparr>)))) = Some PENDING_SCAN \<and>
   db_ok (w_db (perform calm (Scan_job png_deps ''j1'' (Some ''d1'')) (clean_world\<lparr>w_db := uploaded_db\<rparr>)))"
proof -
  have "db_ok (w_db (clean_world\<lparr>w_db := uploaded_db\<rparr>))" using reachable_ok [OF histories(1)] by simp
  from runs_refine_steps [OF calm_stepping this, of "Scan_job png_deps ''j1'' (Some ''d1'')"]
  have "db_ok (w_db (perform calm (Scan_job png_deps ''j1'' (Some ''d1'')) (clean_world\<lparr>w_db := uploaded_db\<rparr>)))" ..
  moreover have "map_option d_status (find_document ''d1'' (w_db
     (perform calm (Scan_job png_deps ''j1'' (Some ''d1'')) (clean_world\<lparr>w_db := uploaded_db\<rparr>)))) = Some PENDING_SCAN"
    by code_simp
  ultimately show ?thesis by blast
qed

end
