(* ===== verification/Outbox.thy ===== *)
theory Outbox
  imports Auth_Theorems Storage
begin

text \<open>
  The email outbox (apps/api/src/modules/notifications): the repository that hands out pending
  entries, the composers of the three kinds of email, and the dispatcher. A round of the
  dispatcher is one database transaction; what the transport did is not undone with it. Each
  round has its own interference, locks, clock, random token, transport answer and fault.
\<close>

section \<open>Messages (notifications.types.ts)\<close>

text \<open>
  What a run of the dispatcher changes: the database, the messages the transport took, and its
  own list \<open>attempted\<close>. \<open>ms_handed\<close> is no variable of the program: it is the trace of the entries
  the repository handed to a handler, written by \<open>dispatchNext\<close> as it calls one and read by nothing,
  so that what was tried can be compared with what the dispatcher remembers.
\<close>

record email_message =
  em_to :: string
  em_subject :: string
  em_text :: string

record mail_state =
  ms_db :: db
  ms_delivered :: "email_message list"
  ms_attempted :: "uuid list"
  ms_handed :: "uuid list"

type_synonym 'a mailer = "(mail_state, exn, 'a) prog"

record dispatch_round =
  dr_during :: "db \<Rightarrow> db"
  dr_locked :: "uuid \<Rightarrow> bool"
  dr_now :: time
  dr_raw :: string
  dr_send :: "email_message \<Rightarrow> exn option"
  dr_fault :: "fault option"

definition in_mail_db :: "'a tx \<Rightarrow> 'a mailer" where
  "in_mail_db m = (\<lambda>s. case m (ms_db s) of (r, d) \<Rightarrow> (r, s\<lparr>ms_db := d\<rparr>))"

text \<open>\<open>$transaction\<close>: an exception restores the database, and nothing else.\<close>

definition mail_transaction :: "'a mailer \<Rightarrow> 'a mailer" where
  "mail_transaction m = (\<lambda>s. case m s of
     (Inl e, s') \<Rightarrow> (Inl e, s'\<lparr>ms_db := ms_db s\<rparr>)
   | (Inr x, s') \<Rightarrow> (Inr x, s'))"

section \<open>The outbox (outbox.repository.ts)\<close>

text \<open>\<open>enqueueEmail\<close> is \<open>insert_outbox\<close>, in the transaction of the caller.\<close>

definition pending :: "(uuid \<Rightarrow> bool) \<Rightarrow> uuid list \<Rightarrow> db \<Rightarrow> outbox_row list" where
  "pending locked exclude d = sort_key (\<lambda>o'. (o_createdAt o', o_id o'))
     (filter (\<lambda>o'. o_sentAt o' = None \<and> o_id o' \<notin> set exclude \<and> \<not> locked (o_id o')) (outbox d))"

definition mark_sent :: "uuid \<Rightarrow> time \<Rightarrow> unit tx" where
  "mark_sent i now = (\<lambda>d.
     if \<exists>o' \<in> set (outbox d). o_id o' = i
     then (Inr (), d\<lparr>outbox := update_where (\<lambda>o'. o_id o' = i) (\<lambda>o'. o'\<lparr>o_sentAt := Some now\<rparr>) (outbox d)\<rparr>)
     else (Inl P2025, d))"

text \<open>The three operations a composer may use.\<close>

definition findUserEmail :: "uuid \<Rightarrow> db \<Rightarrow> string option" where
  "findUserEmail userId d = map_option u_email (findUserById userId d)"

definition replace_token :: "uuid \<Rightarrow> string \<Rightarrow> time \<Rightarrow> time \<Rightarrow> token_row list \<Rightarrow> exn + token_row list" where
  "replace_token userId tokenHash expiresAt now tokens =
    (let used = update_where (\<lambda>t. t_userId t = userId \<and> t_usedAt t = None) (\<lambda>t. t\<lparr>t_usedAt := Some now\<rparr>) tokens
     in if \<exists>t \<in> set tokens. t_tokenHash t = tokenHash then Inl P2002
        else Inr (used @ [\<lparr>t_userId = userId, t_tokenHash = tokenHash, t_expiresAt = expiresAt,
                           t_usedAt = None, t_createdAt = now\<rparr>]))"

definition replaceEmailVerificationToken :: "time \<Rightarrow> uuid \<Rightarrow> string \<Rightarrow> time \<Rightarrow> unit tx" where
  "replaceEmailVerificationToken now userId tokenHash expiresAt = (\<lambda>d.
     case replace_token userId tokenHash expiresAt now (emailTokens d) of
       Inl e \<Rightarrow> (Inl e, d) | Inr ts \<Rightarrow> (Inr (), d\<lparr>emailTokens := ts\<rparr>))"

definition replacePasswordResetToken :: "time \<Rightarrow> uuid \<Rightarrow> string \<Rightarrow> time \<Rightarrow> unit tx" where
  "replacePasswordResetToken now userId tokenHash expiresAt = (\<lambda>d.
     case replace_token userId tokenHash expiresAt now (resetTokens d) of
       Inl e \<Rightarrow> (Inl e, d) | Inr ts \<Rightarrow> (Inr (), d\<lparr>resetTokens := ts\<rparr>))"

definition dispatchNext :: "dispatch_round \<Rightarrow> uuid list \<Rightarrow> (outbox_row \<Rightarrow> unit mailer) \<Rightarrow> bool mailer" where
  "dispatchNext rd exclude handle = mail_transaction (\<lambda>s.
     case pending (dr_locked rd) exclude (ms_db s) of
       [] \<Rightarrow> (Inr False, s)
     | row # _ \<Rightarrow>
         bindE (handle row) (\<lambda>_. bindE (in_mail_db (mark_sent (o_id row) (dr_now rd))) (\<lambda>_. returnE True))
           (s\<lparr>ms_handed := ms_handed s @ [o_id row]\<rparr>))"

section \<open>The composers (composers.ts)\<close>

definition EMAIL_VERIFICATION_PATH :: string where
  "EMAIL_VERIFICATION_PATH = ''/verificar-correo''"

definition PASSWORD_RESET_PATH :: string where
  "PASSWORD_RESET_PATH = ''/restablecer-contrasena''"

record composer_options =
  co_appOrigin :: string
  co_emailVerificationTokenTtlMs :: int
  co_passwordResetTokenTtlMs :: int

text \<open>\<open>Math.round\<close> of a quotient by a positive number.\<close>

definition rounded :: "int \<Rightarrow> int \<Rightarrow> int" where
  "rounded ms unit = (2 * ms + unit) div (2 * unit)"

definition hours :: "int \<Rightarrow> int" where
  "hours ms = rounded ms (60 * 60 * 1000)"

definition minutes :: "int \<Rightarrow> int" where
  "minutes ms = rounded ms (60 * 1000)"

definition line_end :: string where
  "line_end = [CHR 0x0A]"

definition recipient :: "uuid \<Rightarrow> string tx" where
  "recipient userId = (\<lambda>d. case findUserEmail userId d of
     None \<Rightarrow> (Inl (Error ''recipient not found''), d)
   | Some to' \<Rightarrow> if to' = [] then (Inl (Error ''recipient not found''), d) else (Inr to', d))"

definition link :: "string \<Rightarrow> string \<Rightarrow> opaque_token \<Rightarrow> string" where
  "link appOrigin path token = appOrigin @ path @ ''#token='' @ tok_raw token"

definition verification_text :: "composer_options \<Rightarrow> opaque_token \<Rightarrow> string" where
  "verification_text opts token = ''Hola:'' @ line_end @ line_end
     @ ''Para verificar tu correo electronico, abre este enlace:'' @ line_end @ line_end
     @ link (co_appOrigin opts) EMAIL_VERIFICATION_PATH token @ line_end @ line_end
     @ ''El enlace caduca en '' @ decimal (nat (hours (co_emailVerificationTokenTtlMs opts)))
     @ '' horas y solo sirve una vez. Si no creaste una cuenta, ignora este mensaje.'' @ line_end"

definition reset_text :: "composer_options \<Rightarrow> opaque_token \<Rightarrow> string" where
  "reset_text opts token = ''Hola:'' @ line_end @ line_end
     @ ''Recibimos una solicitud para restablecer la contrasena de tu cuenta. Para elegir una nueva, abre este enlace:''
     @ line_end @ line_end @ link (co_appOrigin opts) PASSWORD_RESET_PATH token @ line_end @ line_end
     @ ''El enlace caduca en '' @ decimal (nat (minutes (co_passwordResetTokenTtlMs opts)))
     @ '' minutos y solo sirve una vez. Si no lo solicitaste, ignora este mensaje: tu contrasena no cambiara.'' @ line_end"

definition changed_text :: string where
  "changed_text = ''Hola:'' @ line_end @ line_end
     @ ''La contrasena de tu cuenta se acaba de cambiar y todas tus sesiones se han cerrado.''
     @ line_end @ line_end @ ''Si no fuiste tu, restablece tu contrasena de inmediato.'' @ line_end"

fun compose :: "composer_options \<Rightarrow> crypto \<Rightarrow> string \<Rightarrow> time \<Rightarrow> outbox_row \<Rightarrow> email_message tx" where
  "compose opts c raw now row =
    (case o_kind row of
       Kind_EMAIL_VERIFICATION \<Rightarrow>
         bindE (recipient (o_userId row)) (\<lambda>to'.
           let token = generateOpaqueToken c raw
           in bindE (replaceEmailVerificationToken now (o_userId row) (tok_hash token)
                  (now + co_emailVerificationTokenTtlMs opts))
                (\<lambda>_. returnE \<lparr>em_to = to', em_subject = ''Verifica tu correo electronico'',
                   em_text = verification_text opts token\<rparr>))
     | Kind_PASSWORD_RESET \<Rightarrow>
         bindE (recipient (o_userId row)) (\<lambda>to'.
           let token = generateOpaqueToken c raw
           in bindE (replacePasswordResetToken now (o_userId row) (tok_hash token)
                  (now + co_passwordResetTokenTtlMs opts))
                (\<lambda>_. returnE \<lparr>em_to = to', em_subject = ''Restablece tu contrasena'',
                   em_text = reset_text opts token\<rparr>))
     | Kind_PASSWORD_RESET_COMPLETED \<Rightarrow>
         bindE (recipient (o_userId row)) (\<lambda>to'.
           returnE \<lparr>em_to = to', em_subject = ''Tu contrasena se ha cambiado'', em_text = changed_text\<rparr>))"

section \<open>The transport (transports.ts)\<close>

definition assertSingleLine :: "string \<Rightarrow> string \<Rightarrow> exn + unit" where
  "assertSingleLine value field =
    (if list_ex (\<lambda>ch. ch = CHR 0x0D \<or> ch = CHR 0x0A) value
     then Inl (Error (''email '' @ field @ '' must be a single line'')) else Inr ())"

text \<open>
  Both transports refuse a header with a line break, then deliver (\<open>dr_send\<close> is None) or throw.
\<close>

definition send_mail :: "dispatch_round \<Rightarrow> email_message \<Rightarrow> unit mailer" where
  "send_mail rd m = (\<lambda>s.
     case assertSingleLine (em_to m) ''recipient'' of
       Inl e \<Rightarrow> (Inl e, s)
     | Inr _ \<Rightarrow>
         (case assertSingleLine (em_subject m) ''subject'' of
            Inl e \<Rightarrow> (Inl e, s)
          | Inr _ \<Rightarrow>
              (case dr_send rd m of
                 Some e \<Rightarrow> (Inl e, s)
               | None \<Rightarrow> (Inr (), s\<lparr>ms_delivered := ms_delivered s @ [m]\<rparr>))))"

section \<open>The dispatcher (dispatch.ts)\<close>

record dispatch_result =
  dp_sent :: int
  dp_failed :: int

text \<open>What the dispatcher does with an entry; \<open>composers\<close> says which kinds have a composer.\<close>

definition handle_entry ::
  "(email_outbox_kind \<Rightarrow> bool) \<Rightarrow> composer_options \<Rightarrow> crypto \<Rightarrow> dispatch_round \<Rightarrow> outbox_row \<Rightarrow> unit mailer" where
  "handle_entry composers opts c rd row = (\<lambda>s.
     let s = s\<lparr>ms_attempted := ms_attempted s @ [o_id row]\<rparr>
     in if \<not> composers (o_kind row) then (Inl (Error ''no composer for this kind of email''), s)
        else bindE (in_mail_db (compose opts c (dr_raw rd) (dr_now rd) row)) (send_mail rd) s)"

definition dispatch_one ::
  "(email_outbox_kind \<Rightarrow> bool) \<Rightarrow> composer_options \<Rightarrow> crypto \<Rightarrow> dispatch_round \<Rightarrow> bool mailer" where
  "dispatch_one composers opts c rd = (\<lambda>s.
     let s = s\<lparr>ms_db := dr_during rd (ms_db s)\<rparr>;
         run = dispatchNext rd (ms_attempted s) (handle_entry composers opts c rd) s
     in case dr_fault rd of
          None \<Rightarrow> run
        | Some (Fails_before e) \<Rightarrow> (Inl e, s)
        | Some (Fails_after e) \<Rightarrow> (Inl e, snd run))"

function dispatch_loop ::
  "(email_outbox_kind \<Rightarrow> bool) \<Rightarrow> composer_options \<Rightarrow> crypto \<Rightarrow> (nat \<Rightarrow> dispatch_round) \<Rightarrow> int \<Rightarrow>
   dispatch_result \<Rightarrow> mail_state \<Rightarrow> dispatch_result \<times> mail_state" where
  "dispatch_loop composers opts c rounds limit res s =
    (if dp_sent res + dp_failed res < limit then
       (case dispatch_one composers opts c (rounds (nat (dp_sent res + dp_failed res))) s of
          (Inr False, s) \<Rightarrow> (res, s)
        | (Inr True, s) \<Rightarrow> dispatch_loop composers opts c rounds limit (res\<lparr>dp_sent := dp_sent res + 1\<rparr>) s
        | (Inl _, s) \<Rightarrow> dispatch_loop composers opts c rounds limit (res\<lparr>dp_failed := dp_failed res + 1\<rparr>) s)
     else (res, s))"
  by pat_completeness auto
termination
  by (relation "measure (\<lambda>(_, _, _, _, limit, res, _). nat (limit - dp_sent res - dp_failed res))") auto

declare dispatch_loop.simps [simp del]

definition dispatchPendingEmails ::
  "(email_outbox_kind \<Rightarrow> bool) \<Rightarrow> composer_options \<Rightarrow> crypto \<Rightarrow> (nat \<Rightarrow> dispatch_round) \<Rightarrow> int option \<Rightarrow>
   db \<times> email_message list \<Rightarrow> dispatch_result \<times> mail_state" where
  "dispatchPendingEmails composers opts c rounds limit start =
     dispatch_loop composers opts c rounds (case limit of None \<Rightarrow> 100 | Some n \<Rightarrow> n)
       \<lparr>dp_sent = 0, dp_failed = 0\<rparr>
       \<lparr>ms_db = fst start, ms_delivered = snd start, ms_attempted = [], ms_handed = []\<rparr>"

definition assertDispatchAllowed :: "string option \<Rightarrow> exn + unit" where
  "assertDispatchAllowed nodeEnv =
    (if nodeEnv \<noteq> Some ''development'' \<and> nodeEnv \<noteq> Some ''test''
     then Inl (Error ''The email dispatch command only runs with NODE_ENV=development or test.'')
     else Inr ())"

section \<open>What a round does\<close>

lemma in_mail_db_frame [simp]:
  "ms_attempted (snd (in_mail_db m s)) = ms_attempted s" "ms_handed (snd (in_mail_db m s)) = ms_handed s"
  "ms_delivered (snd (in_mail_db m s)) = ms_delivered s"
  "ms_db (snd (in_mail_db m s)) = snd (m (ms_db s))" "fst (in_mail_db m s) = fst (m (ms_db s))"
  by (simp_all add: in_mail_db_def split: prod.splits)

lemma send_mail_frame [simp]:
  "ms_attempted (snd (send_mail rd m s)) = ms_attempted s" "ms_handed (snd (send_mail rd m s)) = ms_handed s"
  "ms_db (snd (send_mail rd m s)) = ms_db s"
  by (auto simp: send_mail_def split: sum.splits option.splits)

lemma bindE_frame:
  assumes "\<And>s. g (snd (m s)) = g s" and "\<And>x s. g (snd (f x s)) = g s"
  shows "g (snd (bindE m f s)) = g s"
proof -
  obtain r s' where "m s = (r, s')" by fastforce
  with assms(1) [of s] assms(2) [of _ s'] show ?thesis by (cases r) (simp_all add: bindE_def)
qed

lemma bindE_keeps:
  assumes "\<And>x s. g (snd (f x s)) = g s"
  shows "g (snd (bindE m f s)) = g (snd (m s))"
proof -
  obtain r s' where "m s = (r, s')" by fastforce
  with assms [of _ s'] show ?thesis by (cases r) (simp_all add: bindE_def)
qed

lemma handle_attempted:
  "ms_attempted (snd (handle_entry composers opts c rd row s)) = ms_attempted s @ [o_id row]"
  "ms_handed (snd (handle_entry composers opts c rd row s)) = ms_handed s"
  by (simp_all add: handle_entry_def Let_def bindE_frame [where g = ms_attempted] bindE_frame [where g = ms_handed])

lemma mail_transaction_frame [simp]:
  "ms_attempted (snd (mail_transaction m s)) = ms_attempted (snd (m s))"
  "ms_handed (snd (mail_transaction m s)) = ms_handed (snd (m s))"
  "fst (mail_transaction m s) = fst (m s)"
  by (auto simp: mail_transaction_def split: prod.splits sum.splits)

lemma pending_in: "o' \<in> set (pending locked exclude d) \<Longrightarrow>
    o' \<in> set (outbox d) \<and> o_sentAt o' = None \<and> o_id o' \<notin> set exclude \<and> \<not> locked (o_id o')"
  by (auto simp: pending_def)

text \<open>A round adds at most one entry to the trace, one not in the list it was given, and to the list the same one.\<close>

definition tried_more :: "mail_state \<Rightarrow> mail_state \<Rightarrow> bool" where
  "tried_more s s' \<longleftrightarrow>
    ms_attempted s' = ms_attempted s \<and> ms_handed s' = ms_handed s \<or>
    (\<exists>i. i \<notin> set (ms_attempted s) \<and> ms_attempted s' = ms_attempted s @ [i] \<and> ms_handed s' = ms_handed s @ [i])"

lemma next_attempted:
  "tried_more s (snd (dispatchNext rd (ms_attempted s) (handle_entry composers opts c rd) s))"
proof (cases "pending (dr_locked rd) (ms_attempted s) (ms_db s)")
  case (Cons row rows)
  then have "o_id row \<notin> set (ms_attempted s)"
    using pending_in [of row "dr_locked rd" "ms_attempted s" "ms_db s"] by simp
  moreover define s0 where "s0 = s\<lparr>ms_handed := ms_handed s @ [o_id row]\<rparr>"
  define s1 where "s1 = snd (bindE (handle_entry composers opts c rd row)
      (\<lambda>_. bindE (in_mail_db (mark_sent (o_id row) (dr_now rd))) (\<lambda>_. returnE True)) s0)"
  have "ms_attempted s1 = ms_attempted (snd (handle_entry composers opts c rd row s0))"
    "ms_handed s1 = ms_handed (snd (handle_entry composers opts c rd row s0))"
    unfolding s1_def by (simp_all add: bindE_keeps)
  ultimately show ?thesis
    by (simp add: dispatchNext_def Cons tried_more_def handle_attempted s0_def s1_def)
qed (simp add: dispatchNext_def tried_more_def)

lemma one_attempted:
  assumes "dispatch_one composers opts c rd s = (r, s')"
  shows "tried_more s s'"
  using next_attempted [of "s\<lparr>ms_db := dr_during rd (ms_db s)\<rparr>" rd composers opts c] assms
  by (auto simp: dispatch_one_def Let_def tried_more_def split: option.splits fault.splits)

lemma next_False:
  assumes "dispatchNext rd exclude handle s = (Inr False, s')"
  shows "s' = s \<and> pending (dr_locked rd) exclude (ms_db s) = []"
  using assms
  by (auto simp: dispatchNext_def mail_transaction_def bindE_eq_Inr split: list.splits prod.splits sum.splits)

lemma one_False:
  assumes "dispatch_one composers opts c rd s = (Inr False, s')"
  shows "pending (dr_locked rd) (ms_attempted s') (ms_db s') = []"
  using assms next_False
  by (fastforce simp: dispatch_one_def Let_def split: option.splits fault.splits)

lemma loop_result:
  assumes "dispatch_loop composers opts c rounds limit res s = (res', s')"
    and "0 \<le> dp_sent res" and "0 \<le> dp_failed res" and "distinct (ms_attempted s)"
    and "dp_sent res + dp_failed res \<le> max 0 limit"
    and "int (length (ms_attempted s)) \<le> dp_sent res + dp_failed res" and "ms_handed s = ms_attempted s"
  shows "0 \<le> dp_sent res' \<and> 0 \<le> dp_failed res' \<and> distinct (ms_attempted s') \<and>
    dp_sent res' + dp_failed res' \<le> max 0 limit \<and>
    int (length (ms_attempted s')) \<le> dp_sent res' + dp_failed res' \<and> ms_handed s' = ms_attempted s' \<and>
    (dp_sent res' + dp_failed res' < limit \<longrightarrow>
      pending (dr_locked (rounds (nat (dp_sent res' + dp_failed res')))) (ms_attempted s') (ms_db s') = [])"
  using assms
proof (induction composers opts c rounds limit res s rule: dispatch_loop.induct)
  case (1 composers opts c rounds limit res s)
  show ?case
  proof (cases "dp_sent res + dp_failed res < limit")
    case True
    let ?rd = "rounds (nat (dp_sent res + dp_failed res))"
    obtain r s1 where one: "dispatch_one composers opts c ?rd s = (r, s1)" by fastforce
    have tried: "distinct (ms_attempted s1)" "int (length (ms_attempted s1)) \<le> dp_sent res + dp_failed res + 1"
      "ms_handed s1 = ms_attempted s1"
      using one_attempted [OF one] "1.prems"(4,6,7) by (auto simp: tried_more_def)
    consider (stop) "r = Inr False" | (sent) "r = Inr True" | (failed) e where "r = Inl e"
      by (cases r) auto
    then show ?thesis
    proof cases
      case stop
      with one True "1.prems"(1) have res: "res' = res" "s' = s1"
        by (auto simp: dispatch_loop.simps [of _ _ _ _ _ res])
      have "int (length (ms_attempted s1)) \<le> dp_sent res + dp_failed res"
        using one stop "1.prems"(6) next_False
        by (fastforce simp: dispatch_one_def Let_def split: option.splits fault.splits)
      with one_False [OF one [unfolded stop]] "1.prems"(2,3,5) tried(1,3) show ?thesis by (simp add: res)
    next
      case sent
      with one True "1.prems"(1)
      have "dispatch_loop composers opts c rounds limit (res\<lparr>dp_sent := dp_sent res + 1\<rparr>) s1 = (res', s')"
        by (simp add: dispatch_loop.simps [of _ _ _ _ _ res])
      from "1.IH"(2) [OF True one [symmetric] sent refl this] True "1.prems"(2,3) tried show ?thesis by simp
    next
      case failed
      with one True "1.prems"(1)
      have "dispatch_loop composers opts c rounds limit (res\<lparr>dp_failed := dp_failed res + 1\<rparr>) s1 = (res', s')"
        by (simp add: dispatch_loop.simps [of _ _ _ _ _ res])
      from "1.IH"(1) [OF True one [symmetric] failed this] True "1.prems"(2,3) tried show ?thesis by simp
    qed
  next
    case False
    with "1.prems" show ?thesis by (auto simp: dispatch_loop.simps [of _ _ _ _ _ res])
  qed
qed

section \<open>Properties\<close>

text \<open>
  C18. The dispatcher always ends, whatever the database and the transport do: it makes at most
  \<open>limit\<close> rounds (100 by default), no entry is handed to its handler twice in a run, whether its
  sending worked or failed, so a broken entry never blocks the others, and the run stops before
  the limit only when no entry is pending and unlocked but those already handed over in it.
\<close>

theorem dispatch_terminates:
  fixes composers opts c rounds limit start
  defines "run \<equiv> dispatchPendingEmails composers opts c rounds limit start"
    and "most \<equiv> (case limit of None \<Rightarrow> 100 | Some n \<Rightarrow> n)"
  shows "0 \<le> dp_sent (fst run) \<and> 0 \<le> dp_failed (fst run) \<and> distinct (ms_handed (snd run)) \<and>
    dp_sent (fst run) + dp_failed (fst run) \<le> max 0 most \<and>
    int (length (ms_handed (snd run))) \<le> dp_sent (fst run) + dp_failed (fst run) \<and>
    (dp_sent (fst run) + dp_failed (fst run) < most \<longrightarrow>
      pending (dr_locked (rounds (nat (dp_sent (fst run) + dp_failed (fst run)))))
        (ms_handed (snd run)) (ms_db (snd run)) = [])"
proof -
  let ?s = "\<lparr>ms_db = fst start, ms_delivered = snd start, ms_attempted = [], ms_handed = []\<rparr>"
  have "run = (fst run, snd run)" by simp
  from loop_result [OF this [unfolded run_def dispatchPendingEmails_def]]
  show ?thesis by (simp add: run_def most_def dispatchPendingEmails_def)
qed

text \<open>A round that delivers an entry.\<close>

lemma next_True:
  assumes "dispatchNext rd exclude handle s = (Inr True, s')"
  shows "\<exists>row rows s1. pending (dr_locked rd) exclude (ms_db s) = row # rows \<and>
    handle row (s\<lparr>ms_handed := ms_handed s @ [o_id row]\<rparr>) = (Inr (), s1) \<and>
    mark_sent (o_id row) (dr_now rd) (ms_db s1) = (Inr (), ms_db s') \<and> ms_delivered s' = ms_delivered s1"
proof (cases "pending (dr_locked rd) exclude (ms_db s)")
  case (Cons row rows)
  let ?s = "s\<lparr>ms_handed := ms_handed s @ [o_id row]\<rparr>"
  from Cons assms have "(bindE (handle row) (\<lambda>_. bindE (in_mail_db (mark_sent (o_id row) (dr_now rd))) (\<lambda>_. returnE True))) ?s
      = (Inr True, s')"
    by (auto simp: dispatchNext_def mail_transaction_def split: prod.splits sum.splits)
  then obtain s1 where s1: "handle row ?s = (Inr (), s1)" "in_mail_db (mark_sent (o_id row) (dr_now rd)) s1 = (Inr (), s')"
    by (auto simp: bindE_eq_Inr)
  with in_mail_db_frame [of "mark_sent (o_id row) (dr_now rd)" s1] Cons show ?thesis
    by (metis fst_conv snd_conv prod.collapse)
qed (use assms in \<open>simp add: dispatchNext_def mail_transaction_def\<close>)

lemma mark_sent_frame:
  assumes "mark_sent i now d = (Inr (), d')"
  shows "emailTokens d' = emailTokens d" "resetTokens d' = resetTokens d" "users d' = users d"
  using assms by (auto simp: mark_sent_def split: if_splits)

lemma handle_Inr:
  assumes "handle_entry composers opts c rd row s = (Inr (), s1)"
  shows "\<exists>m. compose opts c (dr_raw rd) (dr_now rd) row (ms_db s) = (Inr m, ms_db s1) \<and>
    ms_delivered s1 = ms_delivered s @ [m] \<and> assertSingleLine (em_to m) ''recipient'' = Inr ()"
proof -
  let ?s = "s\<lparr>ms_attempted := ms_attempted s @ [o_id row]\<rparr>"
  obtain m s2 where m: "in_mail_db (compose opts c (dr_raw rd) (dr_now rd) row) ?s = (Inr m, s2)"
      "send_mail rd m s2 = (Inr (), s1)"
    using assms by (auto simp: handle_entry_def Let_def bindE_eq_Inr split: if_splits)
  have "compose opts c (dr_raw rd) (dr_now rd) row (ms_db s) = (Inr m, ms_db s2)" "ms_delivered s2 = ms_delivered s"
    using m(1) by (auto simp: in_mail_db_def split: prod.splits)
  with m(2) show ?thesis by (auto simp: send_mail_def split: sum.splits option.splits)
qed

lemma new_token_only:
  assumes "replace_token u h expiry now tokens = Inr tokens'" and "now' < expiry"
  shows "find (usable_token now' h) tokens' = Some \<lparr>t_userId = u, t_tokenHash = h, t_expiresAt = expiry, t_usedAt = None, t_createdAt = now\<rparr>"
proof -
  have none: "\<not> (\<exists>t \<in> set tokens. t_tokenHash t = h)" and
    t': "tokens' = update_where (\<lambda>t. t_userId t = u \<and> t_usedAt t = None) (\<lambda>t. t\<lparr>t_usedAt := Some now\<rparr>) tokens
      @ [\<lparr>t_userId = u, t_tokenHash = h, t_expiresAt = expiry, t_usedAt = None, t_createdAt = now\<rparr>]"
    using assms(1) by (auto simp: replace_token_def Let_def split: if_splits)
  have "find (usable_token now' h) (update_where P (\<lambda>t. t\<lparr>t_usedAt := Some now\<rparr>) tokens @ ys) = find (usable_token now' h) ys" for P ys
    using none by (induction tokens) (auto simp: usable_token_def)
  with assms(2) show ?thesis by (simp add: t' usable_token_def)
qed

lemma verify_usable:
  assumes "find (usable_token (sup_pgNow env) (sha256Hex c raw)) (emailTokens d) = Some t"
    and "findUserById (t_userId t) d = Some u" and "t_userId t \<noteq> []"
  shows "\<exists>d'. verifyEmail c env raw ctx d = (Inr (), d') \<and>
    map_option u_emailVerifiedAt (findUserById (t_userId t) d') =
      Some (Some (case u_emailVerifiedAt u of None \<Rightarrow> sup_pgNow env | Some v \<Rightarrow> v))"
proof -
  let ?i = "t_userId t"
  let ?f = "\<lambda>u. u\<lparr>u_emailVerifiedAt := Some (sup_pgNow env)\<rparr>"
  let ?users = "update_where (\<lambda>u. u_id u = ?i \<and> u_emailVerifiedAt u = None) ?f (users d)"
  have "find (\<lambda>u. u_id u = ?i) ?users = map_option (\<lambda>u. if u_id u = ?i \<and> u_emailVerifiedAt u = None then ?f u else u)
      (find (\<lambda>u. u_id u = ?i) (users d))"
    by (rule find_update_where) simp
  moreover have "u_id u = ?i" using assms(2) by (auto simp: findUserById_def dest: find_SomeD)
  ultimately have u': "find (\<lambda>u. u_id u = ?i) ?users = Some (if u_emailVerifiedAt u = None then ?f u else u)"
    using assms(2) by (simp add: findUserById_def)
  then show ?thesis using assms(1,3)
    by (auto simp: verifyEmail_def bindE_def consumeEmailVerificationToken_def Let_def findUserById_def transaction_def
        split: option.splits)
qed

lemma verification_text_link:
  "\<exists>pre post. verification_text opts token = pre @ link (co_appOrigin opts) EMAIL_VERIFICATION_PATH token @ post"
proof -
  have "verification_text opts token = (''Hola:'' @ line_end @ line_end
     @ ''Para verificar tu correo electronico, abre este enlace:'' @ line_end @ line_end)
     @ link (co_appOrigin opts) EMAIL_VERIFICATION_PATH token @ (line_end @ line_end
     @ ''El enlace caduca en '' @ decimal (nat (hours (co_emailVerificationTokenTtlMs opts)))
     @ '' horas y solo sirve una vez. Si no creaste una cuenta, ignora este mensaje.'' @ line_end)"
    unfolding verification_text_def append_assoc ..
  then show ?thesis by (intro exI)
qed

lemma compose_verification:
  assumes "compose opts c raw now row d = (Inr m, d')" and "o_kind row = Kind_EMAIL_VERIFICATION"
    and "findUserById (o_userId row) d = Some u"
  shows "em_to m = u_email u \<and> em_text m = verification_text opts (generateOpaqueToken c raw) \<and>
    (\<exists>ts. replace_token (o_userId row) (sha256Hex c raw) (now + co_emailVerificationTokenTtlMs opts) now (emailTokens d) = Inr ts \<and>
      d' = d\<lparr>emailTokens := ts\<rparr>)"
  using assms
  by (auto simp: bindE_def recipient_def findUserEmail_def replaceEmailVerificationToken_def generateOpaqueToken_def
      Let_def split: sum.splits if_splits)

text \<open>
  A verification email works: when a round delivers a verification entry, the message goes to
  the user's address and carries a link with the raw token, of which the database only keeps the
  hash; posting that token before it expires verifies the user's address, and every token sent to
  the user before is spent.
\<close>

theorem verification_email_works:
  assumes "dispatchNext rd exclude (handle_entry composers opts c rd) s = (Inr True, s')"
    and "pending (dr_locked rd) exclude (ms_db s) = row # rows" and "o_kind row = Kind_EMAIL_VERIFICATION"
    and "findUserById (o_userId row) (ms_db s) = Some u" and "o_userId row \<noteq> []"
    and "sup_pgNow env < dr_now rd + co_emailVerificationTokenTtlMs opts"
  shows "\<exists>m pre post. ms_delivered s' = ms_delivered s @ [m] \<and> em_to m = u_email u \<and>
    em_text m = pre @ co_appOrigin opts @ EMAIL_VERIFICATION_PATH @ ''#token='' @ dr_raw rd @ post \<and>
    (\<exists>d'. verifyEmail c env (dr_raw rd) ctx (ms_db s') = (Inr (), d') \<and>
      map_option u_emailVerifiedAt (findUserById (o_userId row) d') =
        Some (Some (case u_emailVerifiedAt u of None \<Rightarrow> sup_pgNow env | Some v \<Rightarrow> v))) \<and>
    (\<forall>t \<in> set (emailTokens (ms_db s')). t_userId t = o_userId row \<longrightarrow> t_tokenHash t \<noteq> sha256Hex c (dr_raw rd) \<longrightarrow>
      t_usedAt t \<noteq> None)"
proof -
  let ?h = "sha256Hex c (dr_raw rd)" and ?x = "dr_now rd + co_emailVerificationTokenTtlMs opts" and ?i = "o_userId row"
  obtain s1 where s1: "handle_entry composers opts c rd row (s\<lparr>ms_handed := ms_handed s @ [o_id row]\<rparr>) = (Inr (), s1)"
      "mark_sent (o_id row) (dr_now rd) (ms_db s1) = (Inr (), ms_db s')" "ms_delivered s' = ms_delivered s1"
    using next_True [OF assms(1)] assms(2) by auto
  obtain m where m: "compose opts c (dr_raw rd) (dr_now rd) row (ms_db s) = (Inr m, ms_db s1)"
      "ms_delivered s1 = ms_delivered s @ [m]"
    using handle_Inr [OF s1(1)] by auto
  obtain ts where ts: "replace_token ?i ?h ?x (dr_now rd) (emailTokens (ms_db s)) = Inr ts"
    and db1: "ms_db s1 = (ms_db s)\<lparr>emailTokens := ts\<rparr>" and addr: "em_to m = u_email u"
    and body: "em_text m = verification_text opts (generateOpaqueToken c (dr_raw rd))"
    using compose_verification [OF m(1) assms(3,4)] by blast
  obtain pre post where txt': "em_text m = pre @ link (co_appOrigin opts) EMAIL_VERIFICATION_PATH (generateOpaqueToken c (dr_raw rd)) @ post"
    using body verification_text_link by metis
  have db': "emailTokens (ms_db s') = ts" "users (ms_db s') = users (ms_db s)"
    using mark_sent_frame [OF s1(2)] db1 by simp_all
  have tok: "find (usable_token (sup_pgNow env) ?h) ts = Some \<lparr>t_userId = ?i, t_tokenHash = ?h, t_expiresAt = ?x, t_usedAt = None, t_createdAt = dr_now rd\<rparr>"
    by (rule new_token_only [OF ts assms(6)])
  have spent: "t_usedAt t \<noteq> None" if "t \<in> set ts" "t_userId t = ?i" "t_tokenHash t \<noteq> ?h" for t
    using ts that by (auto simp: replace_token_def Let_def elim!: mem_update_whereE split: if_splits)
  have found: "findUserById ?i (ms_db s') = Some u" using assms(4) db'(2) by (simp add: findUserById_def)
  obtain d' where v: "verifyEmail c env (dr_raw rd) ctx (ms_db s') = (Inr (), d')"
      "map_option u_emailVerifiedAt (findUserById ?i d') = Some (Some (case u_emailVerifiedAt u of None \<Rightarrow> sup_pgNow env | Some v \<Rightarrow> v))"
    using verify_usable [OF tok [folded db'(1)], of u ctx] found assms(5) by auto
  show ?thesis
    using s1(3) m(2) addr txt' v spent db'(1)
    by (intro exI [of _ m] exI [of _ pre] exI [of _ post]) (auto simp: link_def generateOpaqueToken_def)
qed

section \<open>A concrete run\<close>

definition outbox_row0 :: outbox_row where
  "outbox_row0 = \<lparr>o_id = ''o1'', o_kind = Kind_EMAIL_VERIFICATION, o_userId = ''u1'', o_createdAt = 5, o_sentAt = None\<rparr>"

definition outbox_db :: db where
  "outbox_db = demo_db\<lparr>outbox := [outbox_row0, outbox_row0\<lparr>o_id := ''o2'', o_kind := Kind_PASSWORD_RESET\<rparr>]\<rparr>"

definition mail_options :: composer_options where
  "mail_options = \<lparr>co_appOrigin = ''https://x.co'', co_emailVerificationTokenTtlMs = EMAIL_VERIFICATION_TOKEN_TTL_MS,
     co_passwordResetTokenTtlMs = PASSWORD_RESET_TOKEN_TTL_MS\<rparr>"

definition plain_round :: "nat \<Rightarrow> dispatch_round" where
  "plain_round n = \<lparr>dr_during = id, dr_locked = (\<lambda>_. False), dr_now = 100, dr_raw = ''T'', dr_send = (\<lambda>_. None), dr_fault = None\<rparr>"

definition only_verification :: "email_outbox_kind \<Rightarrow> bool" where
  "only_verification k \<longleftrightarrow> k = Kind_EMAIL_VERIFICATION"

theorem dispatch_terminates_witness:
  "fst (dispatchPendingEmails only_verification mail_options demo_crypto plain_round None (outbox_db, []))
     = \<lparr>dp_sent = 1, dp_failed = 1\<rparr> \<and>
   pending (\<lambda>_. False) [''o1'', ''o2'']
     (ms_db (snd (dispatchPendingEmails only_verification mail_options demo_crypto plain_round None (outbox_db, [])))) = []"
proof -
  let ?run = "dispatchPendingEmails only_verification mail_options demo_crypto plain_round None (outbox_db, [])"
  have run: "fst ?run = \<lparr>dp_sent = 1, dp_failed = 1\<rparr>" "ms_handed (snd ?run) = [''o1'', ''o2'']"
    by code_simp+
  have "dr_locked (plain_round n) = (\<lambda>_. False)" for n by (simp add: plain_round_def)
  with dispatch_terminates [of only_verification mail_options demo_crypto plain_round None "(outbox_db, [])"] run
  show ?thesis by simp
qed

theorem verification_email_works_witness:
  "\<exists>m. ms_delivered (snd (dispatchNext (plain_round 0) [] (handle_entry only_verification mail_options demo_crypto (plain_round 0))
      \<lparr>ms_db = outbox_db, ms_delivered = [], ms_attempted = [], ms_handed = []\<rparr>)) = [m] \<and> em_to m = ''ana@x.co'' \<and>
    fst (verifyEmail demo_crypto demo_env ''T'' demo_ctx
      (ms_db (snd (dispatchNext (plain_round 0) [] (handle_entry only_verification mail_options demo_crypto (plain_round 0))
      \<lparr>ms_db = outbox_db, ms_delivered = [], ms_attempted = [], ms_handed = []\<rparr>)))) = Inr ()"
proof -
  let ?s = "\<lparr>ms_db = outbox_db, ms_delivered = [], ms_attempted = [], ms_handed = []\<rparr>"
  let ?run = "dispatchNext (plain_round 0) [] (handle_entry only_verification mail_options demo_crypto (plain_round 0)) ?s"
  have "fst ?run = Inr True" by code_simp
  then have run: "?run = (Inr True, snd ?run)" by (simp add: prod_eq_iff)
  have first: "pending (dr_locked (plain_round 0)) [] (ms_db ?s)
      = outbox_row0 # [outbox_row0\<lparr>o_id := ''o2'', o_kind := Kind_PASSWORD_RESET\<rparr>]"
    by code_simp
  have u: "findUserById (o_userId outbox_row0) (ms_db ?s) = Some demo_user" by code_simp
  have at: "sup_pgNow demo_env < dr_now (plain_round 0) + co_emailVerificationTokenTtlMs mail_options" by code_simp
  have row: "o_kind outbox_row0 = Kind_EMAIL_VERIFICATION" "o_userId outbox_row0 \<noteq> []"
    by (simp_all add: outbox_row0_def)
  have "dr_raw (plain_round 0) = ''T''" "u_email demo_user = ''ana@x.co''" by (simp_all add: plain_round_def demo_user_def)
  with verification_email_works [OF run first row(1) u row(2) at, of demo_ctx] show ?thesis by auto
qed

end
