(* ===== verification/File_Names.thy ===== *)
theory File_Names
  imports Documents
begin

text \<open>
  The name of a file on its way from the browser to a download: \<open>encodeURIComponent\<close> in the
  \<open>X-File-Name\<close> header (apps/web/src/lib/api-client.ts), \<open>decodeURIComponent\<close> and the schema of
  a file name in the API (documents.routes.ts, packages/contracts/src/documents.ts), and the
  \<open>Content-Disposition\<close> of the download (packages/storage/src/storage.types.ts). The two URI
  functions are ECMAScript's: UTF-16 code units, their code points, UTF-8 octets, percent escapes.
\<close>

section \<open>Code points\<close>

definition high_surrogate :: "16 word \<Rightarrow> bool" where
  "high_surrogate u \<longleftrightarrow> 0xD800 \<le> unat u \<and> unat u < 0xDC00"

definition low_surrogate :: "16 word \<Rightarrow> bool" where
  "low_surrogate u \<longleftrightarrow> 0xDC00 \<le> unat u \<and> unat u < 0xE000"

text \<open>The code points of a text; None for an unpaired surrogate.\<close>

fun code_points :: "js_text \<Rightarrow> nat list option" where
  "code_points [] = Some []"
| "code_points [u] = (if high_surrogate u \<or> low_surrogate u then None else Some [unat u])"
| "code_points (u # v # us) =
    (if high_surrogate u then
       (if low_surrogate v
        then map_option ((#) (0x10000 + 1024 * (unat u - 0xD800) + (unat v - 0xDC00))) (code_points us)
        else None)
     else if low_surrogate u then None
     else map_option ((#) (unat u)) (code_points (v # us)))"

definition units_of_point :: "nat \<Rightarrow> js_text" where
  "units_of_point c =
    (if c < 0x10000 then [word_of_nat c]
     else [word_of_nat (0xD800 + (c - 0x10000) div 1024), word_of_nat (0xDC00 + (c - 0x10000) mod 1024)])"

definition scalar :: "nat \<Rightarrow> bool" where
  "scalar c \<longleftrightarrow> c < 0xD800 \<or> (0xE000 \<le> c \<and> c < 0x110000)"

section \<open>UTF-8\<close>

definition utf8_octets :: "nat \<Rightarrow> nat list" where
  "utf8_octets c =
    (if c < 0x80 then [c]
     else if c < 0x800 then [0xC0 + c div 64, 0x80 + c mod 64]
     else if c < 0x10000 then [0xE0 + c div 4096, 0x80 + c div 64 mod 64, 0x80 + c mod 64]
     else [0xF0 + c div 262144, 0x80 + c div 4096 mod 64, 0x80 + c div 64 mod 64, 0x80 + c mod 64])"

text \<open>How many octets a first octet announces; 1 and 5 announce none.\<close>

definition announced :: "nat \<Rightarrow> nat" where
  "announced b = (if b < 0xC0 then 1 else if b < 0xE0 then 2 else if b < 0xF0 then 3
                  else if b < 0xF8 then 4 else 5)"

definition continuation :: "nat \<Rightarrow> bool" where
  "continuation b \<longleftrightarrow> 0x80 \<le> b \<and> b < 0xC0"

text \<open>The code point of a valid encoding: shortest form, no surrogate, at most 10FFFF.\<close>

definition point_if :: "nat \<Rightarrow> nat \<Rightarrow> nat option" where
  "point_if least c = (if least \<le> c \<and> scalar c then Some c else None)"

fun utf8_point :: "nat list \<Rightarrow> nat option" where
  "utf8_point [a, b] =
    (if continuation b then point_if 0x80 (64 * (a - 0xC0) + (b - 0x80)) else None)"
| "utf8_point [a, b, c] =
    (if continuation b \<and> continuation c
     then point_if 0x800 (4096 * (a - 0xE0) + 64 * (b - 0x80) + (c - 0x80)) else None)"
| "utf8_point [a, b, c, e] =
    (if continuation b \<and> continuation c \<and> continuation e
     then point_if 0x10000 (262144 * (a - 0xF0) + 4096 * (b - 0x80) + 64 * (c - 0x80) + (e - 0x80))
     else None)"
| "utf8_point _ = None"

section \<open>\<open>encodeURIComponent\<close>\<close>

text \<open>Letters, digits and \<open>- _ . ! ~ * ' ( )\<close>.\<close>

definition unreserved :: "nat \<Rightarrow> bool" where
  "unreserved c \<longleftrightarrow> (48 \<le> c \<and> c \<le> 57) \<or> (65 \<le> c \<and> c \<le> 90) \<or> (97 \<le> c \<and> c \<le> 122) \<or>
     c \<in> {45, 95, 46, 33, 126, 42, 39, 40, 41}"

definition upper_hex :: "nat \<Rightarrow> char" where
  "upper_hex n = char_of (if n < 10 then 48 + n else 55 + n)"

definition percent :: "nat \<Rightarrow> string" where
  "percent b = [CHR ''%'', upper_hex (b div 16), upper_hex (b mod 16)]"

definition encode_point :: "nat \<Rightarrow> string" where
  "encode_point c = (if unreserved c then [char_of c] else concat (map percent (utf8_octets c)))"

text \<open>None is the \<open>URIError\<close>.\<close>

definition encodeURIComponent :: "js_text \<Rightarrow> string option" where
  "encodeURIComponent t = map_option (\<lambda>cs. concat (map encode_point cs)) (code_points t)"

section \<open>\<open>decodeURIComponent\<close>\<close>

fun escaped_octet :: "string \<Rightarrow> (nat \<times> string) option" where
  "escaped_octet (p # a # b # rest) =
    (if p = CHR ''%'' then
       (case (hex_digit a, hex_digit b) of
          (Some x, Some y) \<Rightarrow> Some (16 * x + y, rest)
        | _ \<Rightarrow> None)
     else None)"
| "escaped_octet _ = None"

fun escaped_octets :: "nat \<Rightarrow> string \<Rightarrow> (nat list \<times> string) option" where
  "escaped_octets 0 s = Some ([], s)"
| "escaped_octets (Suc n) s =
    (case escaped_octet s of
       None \<Rightarrow> None
     | Some (b, rest) \<Rightarrow> map_option (\<lambda>(bs, rest). (b # bs, rest)) (escaped_octets n rest))"

text \<open>One escape: an octet of ASCII, or the octets its first one announces.\<close>

definition decode_escape :: "string \<Rightarrow> (js_text \<times> string) option" where
  "decode_escape s =
    (case escaped_octet s of
       None \<Rightarrow> None
     | Some (b, rest) \<Rightarrow>
         if b < 0x80 then Some ([word_of_nat b], rest)
         else if announced b = 1 \<or> 4 < announced b then None
         else (case escaped_octets (announced b - 1) rest of
                 None \<Rightarrow> None
               | Some (bs, rest) \<Rightarrow>
                   map_option (\<lambda>c. (units_of_point c, rest)) (utf8_point (b # bs))))"

lemma escaped_octet_length: "escaped_octet s = Some (b, rest) \<Longrightarrow> length rest < length s"
  by (cases s rule: escaped_octet.cases) (auto split: if_splits option.splits)

lemma escaped_octets_length: "escaped_octets n s = Some (bs, rest) \<Longrightarrow> length rest \<le> length s"
proof (induction n arbitrary: s bs rest)
  case (Suc n)
  then show ?case
    by (auto split: option.splits dest!: escaped_octet_length) (metis le_trans less_imp_le_nat)
qed simp

lemma decode_escape_length: "decode_escape s = Some (us, rest) \<Longrightarrow> length rest < length s"
  by (auto simp: decode_escape_def split: option.splits if_splits
      dest!: escaped_octet_length escaped_octets_length)

function decodeURIComponent :: "string \<Rightarrow> js_text option" where
  "decodeURIComponent [] = Some []"
| "decodeURIComponent (c # cs) =
    (if c = CHR ''%'' then
       (case decode_escape (c # cs) of
          None \<Rightarrow> None
        | Some (us, rest) \<Rightarrow> map_option ((@) us) (decodeURIComponent rest))
     else map_option ((#) (of_char c)) (decodeURIComponent cs))"
  by pat_completeness auto
termination
  by (relation "measure length") (auto dest: decode_escape_length)

section \<open>The name in the API\<close>

text \<open>What \<open>trim()\<close> removes: white space and line terminators.\<close>

definition js_white :: "16 word \<Rightarrow> bool" where
  "js_white u \<longleftrightarrow> u \<in> {9, 10, 11, 12, 13, 32, 160, 0x1680, 0x2028, 0x2029, 0x202F, 0x205F, 0x3000, 0xFEFF}
     \<or> (0x2000 \<le> u \<and> u \<le> 0x200A)"

definition trim_text :: "js_text \<Rightarrow> js_text" where
  "trim_text t = rev (dropWhile js_white (rev (dropWhile js_white t)))"

text \<open>A path separator or a control character.\<close>

definition forbidden_unit :: "16 word \<Rightarrow> bool" where
  "forbidden_unit u \<longleftrightarrow> u = 0x2F \<or> u = 0x5C \<or> u \<le> 0x1F \<or> u = 0x7F"

definition documentFileNameSchema :: "js_text option \<Rightarrow> js_text option" where
  "documentFileNameSchema t =
    (case t of
       None \<Rightarrow> None
     | Some t \<Rightarrow>
         let name = trim_text t
         in if 1 \<le> length name \<and> length name \<le> 255 \<and> \<not> list_ex forbidden_unit name
            then Some name else None)"

text \<open>\<open>fileNameOf\<close>: \<open>raw\<close> is the first value of the header, None when there is none.\<close>

definition fileNameOf :: "string option \<Rightarrow> exn + js_text" where
  "fileNameOf raw =
    (case documentFileNameSchema (Option.bind raw decodeURIComponent) of
       None \<Rightarrow> Inl (HttpError ((http_error 400 VALIDATION_ERROR ''Nombre de archivo invalido.'')
                 \<lparr>details := [(''X-File-Name'', ''invalid'')]\<rparr>))
     | Some name \<Rightarrow> Inr name)"

section \<open>The name in a download\<close>

text \<open>The fallback name: anything that is not printable ASCII, and the quotes, become \<open>_\<close>.\<close>

definition fallback_unit :: "16 word \<Rightarrow> char" where
  "fallback_unit u =
    (if unat u < 0x20 \<or> 0x7E < unat u \<or> u = 0x22 \<or> u = 0x5C then CHR ''_'' else char_of (unat u))"

text \<open>\<open>'\<close>, \<open>(\<close>, \<open>)\<close> and \<open>*\<close>, which \<open>encodeURIComponent\<close> leaves, are escaped too.\<close>

definition extended_char :: "char \<Rightarrow> string" where
  "extended_char c = (if (of_char c :: nat) \<in> {39, 40, 41, 42} then percent (of_char c) else [c])"

definition attachmentDisposition :: "js_text \<Rightarrow> string option" where
  "attachmentDisposition fileName =
    map_option (\<lambda>encoded. ''attachment; filename='' @ [CHR 0x22] @ map fallback_unit fileName @ [CHR 0x22]
        @ ''; filename*=UTF-8'' @ [CHR 0x27, CHR 0x27] @ concat (map extended_char encoded))
      (encodeURIComponent fileName)"

section \<open>The two URI functions are inverse\<close>

lemma hex_digit_upper: "n < 16 \<Longrightarrow> hex_digit (upper_hex n) = Some n"
  by (auto simp: hex_digit_def upper_hex_def Let_def)

lemma escaped_percent [simp]: "b < 256 \<Longrightarrow> escaped_octet (percent b @ r) = Some (b, r)"
  by (simp add: percent_def hex_digit_upper)

lemma escaped_octets_percent [simp]:
  "\<forall>b \<in> set bs. b < 256 \<Longrightarrow> escaped_octets (length bs) (concat (map percent bs) @ r) = Some (bs, r)"
  by (induction bs) auto

lemma decode_percent [simp]:
  "decodeURIComponent (percent b @ r) =
    (case decode_escape (percent b @ r) of
       None \<Rightarrow> None
     | Some (us, rest) \<Rightarrow> map_option ((@) us) (decodeURIComponent rest))"
  by (simp add: percent_def)

text \<open>The octets of a code point are those the decoder expects.\<close>

lemma base64_digits:
  fixes c :: nat
  shows "4096 * (c div 4096) + 64 * (c div 64 mod 64) + c mod 64 = c"
    and "262144 * (c div 262144) + 4096 * (c div 4096 mod 64) + 64 * (c div 64 mod 64) + c mod 64 = c"
proof -
  have q: "c div 4096 = c div 64 div 64" "c div 262144 = c div 64 div 64 div 64"
    by (simp_all add: div_mult2_eq [symmetric])
  have "64 * (c div 64) + c mod 64 = c" "64 * (c div 64 div 64) + c div 64 mod 64 = c div 64"
    "64 * (c div 64 div 64 div 64) + c div 64 div 64 mod 64 = c div 64 div 64"
    by (rule mult_div_mod_eq)+
  then show "4096 * (c div 4096) + 64 * (c div 64 mod 64) + c mod 64 = c"
    and "262144 * (c div 262144) + 4096 * (c div 4096 mod 64) + 64 * (c div 64 mod 64) + c mod 64 = c"
    unfolding q by linarith+
qed

lemma octets_back:
  assumes "scalar c" and "0x80 \<le> c"
  obtains b bs where "utf8_octets c = b # bs" and "0x80 \<le> b" and "announced b = Suc (length bs)"
    and "announced b \<noteq> 1" and "announced b \<le> 4" and "utf8_point (b # bs) = Some c"
    and "\<forall>x \<in> set (b # bs). x < 256"
proof -
  have "c < 0x110000" using assms by (auto simp: scalar_def)
  then consider "c < 0x800" | "0x800 \<le> c" "c < 0x10000" | "0x10000 \<le> c" "c < 0x110000"
    by (meson not_less)
  then show ?thesis
  proof cases
    case 1
    have "c div 64 < 32" "2 \<le> c div 64" using 1 assms(2) by auto
    with 1 assms show ?thesis
      by (intro that [of "0xC0 + c div 64" "[0x80 + c mod 64]"])
        (auto simp: utf8_octets_def announced_def continuation_def point_if_def)
  next
    case 2
    have "c div 4096 < 16" using 2 by auto
    moreover have "4096 * (c div 4096) + 64 * (c div 64 mod 64) + c mod 64 = c"
      using base64_digits(1) .
    ultimately show ?thesis using 2 assms
      by (intro that [of "0xE0 + c div 4096" "[0x80 + c div 64 mod 64, 0x80 + c mod 64]"])
        (auto simp: utf8_octets_def announced_def continuation_def point_if_def)
  next
    case 3
    have "c div 262144 < 5" using 3 by auto
    moreover have "262144 * (c div 262144) + 4096 * (c div 4096 mod 64) + 64 * (c div 64 mod 64) + c mod 64 = c"
      using base64_digits(2) .
    ultimately show ?thesis using 3 assms
      by (intro that [of "0xF0 + c div 262144"
            "[0x80 + c div 4096 mod 64, 0x80 + c div 64 mod 64, 0x80 + c mod 64]"])
        (auto simp: utf8_octets_def announced_def continuation_def point_if_def)
  qed
qed

lemma unreserved_char: "unreserved c \<Longrightarrow> c < 128 \<and> c \<noteq> 37"
  by (auto simp: unreserved_def)

lemma decode_point:
  assumes "scalar c"
  shows "decodeURIComponent (encode_point c @ r) = map_option ((@) (units_of_point c)) (decodeURIComponent r)"
proof (cases "unreserved c")
  case True
  then have "c < 128" "c \<noteq> 37" using unreserved_char by auto
  then have "char_of c \<noteq> CHR ''%''"
    by (auto simp: char_of_eq_iff take_bit_eq_mod)
  moreover have "of_char (char_of c :: char) = (word_of_nat c :: 16 word)"
    using \<open>c < 128\<close> of_nat_of_char [of "char_of c", where 'a = "16 word"] by simp
  ultimately show ?thesis using True \<open>c < 128\<close>
    by (cases "decodeURIComponent r") (simp_all add: encode_point_def units_of_point_def)
next
  case False
  show ?thesis
  proof (cases "c < 0x80")
    case True
    with False show ?thesis
      by (simp add: encode_point_def utf8_octets_def decode_escape_def units_of_point_def)
  next
    case big: False
    then obtain b bs where o: "utf8_octets c = b # bs" "0x80 \<le> b" "announced b = Suc (length bs)"
      "announced b \<noteq> 1" "announced b \<le> 4" "utf8_point (b # bs) = Some c" "\<forall>x \<in> set (b # bs). x < 256"
      using octets_back [OF assms] by (metis not_less)
    then show ?thesis
      using False by (simp add: encode_point_def decode_escape_def)
  qed
qed

lemma unit_bound: "unat (u :: 16 word) < 65536"
  using unsigned_less [of u, where 'a = nat] by simp

lemma surrogate_pair:
  assumes "high_surrogate u" and "low_surrogate v"
  shows "scalar (0x10000 + 1024 * (unat u - 0xD800) + (unat v - 0xDC00))"
    and "units_of_point (0x10000 + 1024 * (unat u - 0xD800) + (unat v - 0xDC00)) = [u, v]"
proof -
  obtain a b where a: "unat u = 0xD800 + a" "a < 1024" and b: "unat v = 0xDC00 + b" "b < 1024"
    using assms that [of "unat u - 0xD800" "unat v - 0xDC00"]
    by (auto simp: high_surrogate_def low_surrogate_def)
  have "u = word_of_nat (0xD800 + a)" "v = word_of_nat (0xDC00 + b)"
    unfolding a(1) [symmetric] b(1) [symmetric] by simp_all
  then show "units_of_point (0x10000 + 1024 * (unat u - 0xD800) + (unat v - 0xDC00)) = [u, v]"
    unfolding a b using a(2) b(2) by (simp add: units_of_point_def)
  show "scalar (0x10000 + 1024 * (unat u - 0xD800) + (unat v - 0xDC00))"
    unfolding a b using a(2) b(2) by (simp add: scalar_def)
qed

lemma code_points_scalar:
  "code_points t = Some cs \<Longrightarrow> (\<forall>c \<in> set cs. scalar c) \<and> concat (map units_of_point cs) = t"
proof (induction t arbitrary: cs rule: code_points.induct)
  case (2 u)
  then show ?case
    using unit_bound [of u]
    by (auto simp: scalar_def units_of_point_def high_surrogate_def low_surrogate_def split: if_splits)
next
  case (3 u v us)
  show ?case
  proof (cases "high_surrogate u")
    case True
    with "3.prems" obtain ds where ds: "low_surrogate v" "code_points us = Some ds"
      "cs = (0x10000 + 1024 * (unat u - 0xD800) + (unat v - 0xDC00)) # ds"
      by (auto split: if_splits)
    with "3.IH"(1) [OF True ds(1,2)] surrogate_pair [OF True ds(1)] show ?thesis by simp
  next
    case False
    with "3.prems" obtain ds where ds: "\<not> low_surrogate u" "code_points (v # us) = Some ds" "cs = unat u # ds"
      by (auto split: if_splits)
    have "scalar (unat u)" "units_of_point (unat u) = [u]"
      using False ds(1) unit_bound [of u]
      by (auto simp: scalar_def units_of_point_def high_surrogate_def low_surrogate_def)
    with "3.IH"(2) [OF False ds(1,2)] ds(3) show ?thesis by simp
  qed
qed simp

theorem decode_encode:
  assumes "encodeURIComponent t = Some s"
  shows "decodeURIComponent s = Some t"
proof -
  obtain cs where cs: "code_points t = Some cs" "s = concat (map encode_point cs)"
    using assms by (auto simp: encodeURIComponent_def)
  have "decodeURIComponent (concat (map encode_point cs)) = Some (concat (map units_of_point cs))"
    if "\<forall>c \<in> set cs. scalar c" for cs
    using that by (induction cs) (simp_all add: decode_point)
  with code_points_scalar [OF cs(1)] cs(2) show ?thesis by simp
qed

section \<open>A stored name can always be sent back\<close>

lemma code_points_plain:
  "\<not> high_surrogate u \<Longrightarrow> \<not> low_surrogate u \<Longrightarrow>
    code_points (u # t) = map_option ((#) (unat u)) (code_points t)"
  by (cases t) auto

lemma units_pair:
  assumes "0x10000 \<le> c" and "c < 0x110000"
  obtains u v where "units_of_point c = [u, v]" and "high_surrogate u" and "low_surrogate v"
    and "0x10000 + 1024 * (unat u - 0xD800) + (unat v - 0xDC00) = c"
proof (rule that)
  let ?u = "word_of_nat (0xD800 + (c - 0x10000) div 1024) :: 16 word"
  let ?v = "word_of_nat (0xDC00 + (c - 0x10000) mod 1024) :: 16 word"
  show "units_of_point c = [?u, ?v]" using assms by (simp add: units_of_point_def)
  have "(c - 0x10000) div 1024 < 1024" using assms by auto
  then have "unat ?u = 0xD800 + (c - 0x10000) div 1024" "unat ?v = 0xDC00 + (c - 0x10000) mod 1024"
    by (simp_all only: unsigned_of_nat) (simp_all add: take_bit_eq_mod)
  moreover note \<open>(c - 0x10000) div 1024 < 1024\<close>
  moreover have "1024 * ((c - 0x10000) div 1024) + (c - 0x10000) mod 1024 = c - 0x10000"
    by (rule mult_div_mod_eq)
  ultimately show "high_surrogate ?u" "low_surrogate ?v"
    "0x10000 + 1024 * (unat ?u - 0xD800) + (unat ?v - 0xDC00) = c"
    using assms(1) by (simp_all only: high_surrogate_def low_surrogate_def) simp_all
qed

lemma code_points_units:
  assumes "scalar c"
  shows "code_points (units_of_point c @ t) = map_option ((#) c) (code_points t)"
proof (cases "c < 0x10000")
  case True
  then have "unat (word_of_nat c :: 16 word) = c"
    by (simp add: unsigned_of_nat take_bit_eq_mod)
  with True assms show ?thesis
    by (simp add: units_of_point_def, subst code_points_plain)
      (auto simp: high_surrogate_def low_surrogate_def scalar_def)
next
  case False
  with assms obtain u v where "units_of_point c = [u, v]" "high_surrogate u" "low_surrogate v"
    "0x10000 + 1024 * (unat u - 0xD800) + (unat v - 0xDC00) = c"
    using units_pair [of c] by (auto simp: scalar_def)
  then show ?thesis by simp
qed

lemma utf8_point_scalar: "utf8_point bs = Some c \<Longrightarrow> scalar c"
  by (cases bs rule: utf8_point.cases) (auto simp: point_if_def split: if_splits)

lemma decode_escape_scalar:
  assumes "decode_escape s = Some (us, rest)"
  obtains c where "scalar c" and "us = units_of_point c"
proof -
  obtain b r where b: "escaped_octet s = Some (b, r)"
    using assms by (auto simp: decode_escape_def split: option.splits)
  show ?thesis
  proof (cases "b < 0x80")
    case True
    with assms b have "us = units_of_point b" "scalar b"
      by (auto simp: decode_escape_def units_of_point_def scalar_def)
    then show ?thesis by (rule that [rotated])
  next
    case False
    with assms b obtain c bs where "us = units_of_point c" "utf8_point (b # bs) = Some c"
      by (auto simp: decode_escape_def split: option.splits if_splits)
    then show ?thesis using that utf8_point_scalar by blast
  qed
qed

lemma unat_char_word: "unat (word_of_nat (of_char c) :: 16 word) = of_char c"
  using less_trans [OF nat_of_char_less_256 [of c], of 65536] by (simp add: unsigned_of_nat take_bit_eq_mod)

lemma decode_well_formed: "decodeURIComponent s = Some t \<Longrightarrow> code_points t \<noteq> None"
proof (induction s arbitrary: t rule: decodeURIComponent.induct)
  case (2 c cs)
  show ?case
  proof (cases "c = CHR ''%''")
    case True
    with "2.prems" obtain us rest t' where *: "decode_escape (c # cs) = Some (us, rest)"
      "decodeURIComponent rest = Some t'" "t = us @ t'"
      by (auto split: option.splits)
    with "2.IH"(1) [OF True *(1) refl *(2)] decode_escape_scalar [OF *(1)] show ?thesis
      by (metis code_points_units option.map_disc_iff)
  next
    case False
    with "2.prems" obtain t' where *: "decodeURIComponent cs = Some t'" "t = of_char c # t'"
      by auto
    have "unat (of_char c :: 16 word) = of_char c"
      unfolding of_nat_of_char [of c, where 'a = "16 word", symmetric]
      by (rule unat_char_word)
    then have "unat (of_char c :: 16 word) < 256" by simp
    with *(2) "2.IH"(2) [OF False *(1)] show ?thesis
      by (simp add: code_points_plain high_surrogate_def low_surrogate_def)
  qed
qed simp

lemma white_plain: "js_white u \<Longrightarrow> \<not> high_surrogate u \<and> \<not> low_surrogate u"
  by (auto simp: js_white_def high_surrogate_def low_surrogate_def word_le_nat_alt)

lemma code_points_snoc:
  assumes "\<not> high_surrogate u" and "\<not> low_surrogate u"
  shows "code_points (t @ [u]) = map_option (\<lambda>cs. cs @ [unat u]) (code_points t)"
  using assms
proof (induction t rule: code_points.induct)
  case (3 a b us)
  then show ?case by (auto simp: option.map_comp comp_def)
qed (auto simp: option.map_comp)

lemma trim_well_formed:
  assumes "code_points t \<noteq> None"
  shows "code_points (trim_text t) \<noteq> None"
proof -
  have left: "code_points (dropWhile js_white t) \<noteq> None" if "code_points t \<noteq> None" for t
    using that by (induction t) (auto simp: code_points_plain white_plain)
  have right: "code_points (rev (dropWhile js_white t)) \<noteq> None" if "code_points (rev t) \<noteq> None" for t
    using that by (induction t) (auto simp: code_points_snoc white_plain)
  show ?thesis unfolding trim_text_def using right left assms by simp
qed

text \<open>What the two parameters of the header may contain.\<close>

definition quoted_char :: "char \<Rightarrow> bool" where
  "quoted_char c \<longleftrightarrow> 32 \<le> (of_char c :: nat) \<and> (of_char c :: nat) \<le> 126 \<and> (of_char c :: nat) \<notin> {34, 92}"

definition value_char :: "char \<Rightarrow> bool" where
  "value_char c \<longleftrightarrow> (of_char c :: nat) = 37 \<or>
     unreserved (of_char c) \<and> (of_char c :: nat) \<notin> {39, 40, 41, 42}"

lemma unat_inj: "unat u = unat v \<Longrightarrow> u = (v :: 16 word)"
  by (rule unsigned_word_eqI)

lemma fallback_quoted: "quoted_char (fallback_unit u)"
  by (auto simp: quoted_char_def fallback_unit_def take_bit_eq_mod dest: unat_inj [of _ 34, simplified]
      unat_inj [of _ 92, simplified])

lemma extended_percent: "b < 256 \<Longrightarrow> concat (map extended_char (percent b)) = percent b"
proof -
  have digit: "extended_char (upper_hex n) = [upper_hex n]" if "n < 16" for n
    using that by (auto simp: extended_char_def upper_hex_def take_bit_eq_mod)
  show "b < 256 \<Longrightarrow> ?thesis"
    by (simp add: percent_def digit) (simp add: extended_char_def)
qed

lemma utf8_octets_bound: "scalar c \<Longrightarrow> b \<in> set (utf8_octets c) \<Longrightarrow> b < 256"
  by (auto simp: utf8_octets_def scalar_def split: if_splits)

lemma extended_point:
  assumes "scalar c"
  shows "concat (map extended_char (encode_point c)) =
    (if c \<in> {39, 40, 41, 42} then percent c else encode_point c)"
proof (cases "unreserved c")
  case True
  then have "(of_char (char_of c :: char) :: nat) = c"
    using unreserved_char [of c] by simp
  with True show ?thesis by (simp add: encode_point_def extended_char_def)
next
  case False
  have "concat (map extended_char (concat (map percent bs))) = concat (map percent bs)"
    if "\<forall>b \<in> set bs. b < 256" for bs
    using that by (induction bs) (simp_all add: extended_percent)
  moreover have "c \<notin> {39, 40, 41, 42}" using False by (auto simp: unreserved_def)
  ultimately show ?thesis
    using False utf8_octets_bound [OF assms] by (simp add: encode_point_def)
qed

lemma decode_extended_point:
  assumes "scalar c"
  shows "decodeURIComponent (concat (map extended_char (encode_point c)) @ r)
    = map_option ((@) (units_of_point c)) (decodeURIComponent r)"
  unfolding extended_point [OF assms]
  using decode_point [OF assms]
  by (auto simp: decode_escape_def units_of_point_def)

lemma extended_chars:
  assumes "scalar c" and "x \<in> set (concat (map extended_char (encode_point c)))"
  shows "value_char x"
proof -
  have hex: "value_char (upper_hex n)" if "n < 16" for n
    using that by (auto simp: value_char_def unreserved_def upper_hex_def take_bit_eq_mod)
  have percents: "value_char x" if "b < 256" and "x \<in> set (percent b)" for b
    using that hex by (auto simp: percent_def) (simp add: value_char_def)
  consider (quoted) "c \<in> {39, 40, 41, 42}" "x \<in> set (percent c)"
    | (plain) "unreserved c" "c \<notin> {39, 40, 41, 42}" "x = char_of c"
    | (octets) b where "b \<in> set (utf8_octets c)" "x \<in> set (percent b)"
    using assms(2) unfolding extended_point [OF assms(1)]
    by (auto simp: encode_point_def split: if_splits)
  then show ?thesis
  proof cases
    case quoted
    then have "c < 256" by auto
    then show ?thesis using quoted(2) by (rule percents)
  next
    case plain
    then have "(of_char x :: nat) = c" using unreserved_char [of c] by simp
    with plain show ?thesis by (simp add: value_char_def)
  next
    case octets
    then show ?thesis using percents utf8_octets_bound [OF assms(1)] by blast
  qed
qed

lemma extended_decodes:
  assumes "encodeURIComponent t = Some e"
  shows "decodeURIComponent (concat (map extended_char e)) = Some t"
    and "list_all value_char (concat (map extended_char e))"
proof -
  obtain cs where cs: "code_points t = Some cs" "e = concat (map encode_point cs)"
    using assms by (auto simp: encodeURIComponent_def)
  have "list_all value_char (concat (map extended_char (encode_point c)))" if "scalar c" for c
    using extended_chars [OF that] unfolding list_all_iff by blast
  then have "decodeURIComponent (concat (map extended_char (concat (map encode_point cs))))
      = Some (concat (map units_of_point cs)) \<and>
    list_all value_char (concat (map extended_char (concat (map encode_point cs))))"
    if "\<forall>c \<in> set cs. scalar c" for cs
    using that by (induction cs) (simp_all add: decode_extended_point)
  with code_points_scalar [OF cs(1)] cs(2)
  show "decodeURIComponent (concat (map extended_char e)) = Some t"
    and "list_all value_char (concat (map extended_char e))" by simp_all
qed

section \<open>The property\<close>

lemma fileNameOf_Inr:
  assumes "fileNameOf raw = Inr name"
  obtains h t where "raw = Some h" and "decodeURIComponent h = Some t" and "name = trim_text t"
    and "1 \<le> length name" and "length name \<le> 255" and "\<not> list_ex forbidden_unit name"
proof (cases "Option.bind raw decodeURIComponent")
  case None
  with assms show ?thesis by (simp add: fileNameOf_def documentFileNameSchema_def)
next
  case (Some t)
  then obtain h where h: "raw = Some h" "decodeURIComponent h = Some t"
    by (auto simp: bind_eq_Some_conv)
  show ?thesis
    using assms that [OF h]
    by (auto simp: fileNameOf_def documentFileNameSchema_def Some Let_def split: if_splits)
qed

text \<open>
  Both ends of a name. Whatever the header says, a name the API accepts is
  1 to 255 units without path separators or control characters, and it can be sent back: the
  \<open>Content-Disposition\<close> of its download exists, nothing in it can leave the quotes or the parameter
  it stands in, and a browser that decodes it reads exactly the stored name. When the header is
  what the web client sends for a file, the stored name is the file's, trimmed.
\<close>

lemma accepted_name:
  assumes accepted: "fileNameOf raw = Inr name"
  shows "1 \<le> length name \<and> length name \<le> 255 \<and> \<not> list_ex forbidden_unit name \<and>
    (\<exists>fallback ext. attachmentDisposition name
          = Some (''attachment; filename='' @ [CHR 0x22] @ fallback @ [CHR 0x22]
              @ ''; filename*=UTF-8'' @ [CHR 0x27, CHR 0x27] @ ext)
        \<and> list_all quoted_char fallback \<and> list_all value_char ext \<and> decodeURIComponent ext = Some name) \<and>
    (\<forall>original. raw = encodeURIComponent original \<longrightarrow> name = trim_text original)"
proof -
  obtain h t where ht: "raw = Some h" "decodeURIComponent h = Some t" "name = trim_text t"
    and limits: "1 \<le> length name" "length name \<le> 255" "\<not> list_ex forbidden_unit name"
    using accepted by (rule fileNameOf_Inr)
  have "encodeURIComponent name \<noteq> None"
    using trim_well_formed [OF decode_well_formed [OF ht(2)]] by (simp add: ht(3) encodeURIComponent_def)
  then obtain e where e: "encodeURIComponent name = Some e" by blast
  have "\<exists>fallback ext. attachmentDisposition name
          = Some (''attachment; filename='' @ [CHR 0x22] @ fallback @ [CHR 0x22]
              @ ''; filename*=UTF-8'' @ [CHR 0x27, CHR 0x27] @ ext)
        \<and> list_all quoted_char fallback \<and> list_all value_char ext \<and> decodeURIComponent ext = Some name"
    using extended_decodes [OF e]
    by (intro exI [of _ "map fallback_unit name"] exI [of _ "concat (map extended_char e)"])
      (simp add: attachmentDisposition_def e list_all_iff fallback_quoted)
  moreover have "name = trim_text original" if "raw = encodeURIComponent original" for original
    using that ht decode_encode [of original h] by auto
  ultimately show ?thesis using limits by blast
qed

text \<open>An accented name with a space, quotes and a character outside the basic plane.\<close>

definition sample_name :: js_text where
  "sample_name = [0x20, 0xE9, 0x22, 0x27, 0xD83D, 0xDE00, 0x2E, 0x70]"

lemma sample_points: "code_points sample_name = Some [0x20, 0xE9, 0x22, 0x27, 0x1F600, 0x2E, 0x70]"
  by (simp add: sample_name_def high_surrogate_def low_surrogate_def)

lemma sample_header:
  "encodeURIComponent sample_name = Some (''%20%C3%A9%22'' @ [CHR 0x27] @ ''%F0%9F%98%80.p'')"
  by (simp add: encodeURIComponent_def sample_points encode_point_def unreserved_def utf8_octets_def
      percent_def upper_hex_def) code_simp

lemma sample_accepted: "documentFileNameSchema (Some sample_name) = Some (tl sample_name)"
proof -
  have "trim_text sample_name = tl sample_name"
    by (simp add: trim_text_def sample_name_def js_white_def)
  then show ?thesis
    by (simp add: documentFileNameSchema_def) (simp add: sample_name_def forbidden_unit_def)
qed

lemma sample_name_accepted:
  "encodeURIComponent sample_name = Some (''%20%C3%A9%22'' @ [CHR 0x27] @ ''%F0%9F%98%80.p'') \<and>
   fileNameOf (encodeURIComponent sample_name) = Inr (tl sample_name) \<and>
   trim_text sample_name = tl sample_name"
proof -
  have accepted: "fileNameOf (encodeURIComponent sample_name) = Inr (tl sample_name)"
    using decode_encode [OF sample_header] by (simp add: fileNameOf_def sample_header sample_accepted)
  moreover have "trim_text sample_name = tl sample_name"
    using accepted_name [OF accepted] by metis
  ultimately show ?thesis using sample_header by blast
qed

end
