(* ===== verification/Net.thy ===== *)
theory Net
  imports Auth_Service
begin

text \<open>
  Addresses and texts as the configuration and the request guards read them: \<open>split\<close>, \<open>isIP\<close> of
  \<open>node:net\<close>, and the checks of the trusted proxies of apps/api/src/config/env.ts.
\<close>

section \<open>Texts\<close>

text \<open>\<open>s.split(c)\<close> for one character.\<close>

fun split_on :: "char \<Rightarrow> string \<Rightarrow> string list" where
  "split_on c [] = [[]]"
| "split_on c (x # xs) =
    (if x = c then [] # split_on c xs
     else (case split_on c xs of [] \<Rightarrow> [[x]] | p # ps \<Rightarrow> (x # p) # ps))"

lemma split_on_not_Nil [simp]: "split_on c s \<noteq> []"
  by (cases s) (auto split: list.splits)

text \<open>\<open>s.split("::")\<close>.\<close>

fun split_double :: "string \<Rightarrow> string list" where
  "split_double (a # b # xs) =
    (if a = CHR '':'' \<and> b = CHR '':'' then [] # split_double xs
     else (case split_double (b # xs) of [] \<Rightarrow> [[a]] | p # ps \<Rightarrow> (a # p) # ps))"
| "split_double s = [s]"

definition is_digit :: "char \<Rightarrow> bool" where
  "is_digit c \<longleftrightarrow> (let n = of_char c :: nat in 48 \<le> n \<and> n \<le> 57)"

text \<open>\<open>Number(s)\<close> of a text of decimal digits.\<close>

definition number_of_digits :: "string \<Rightarrow> nat" where
  "number_of_digits s = foldl (\<lambda>acc c. 10 * acc + (of_char c - 48)) 0 s"

section \<open>\<open>isIP\<close>\<close>

text \<open>0 to 255 in decimal, without a leading zero.\<close>

definition dec_octet :: "string \<Rightarrow> bool" where
  "dec_octet s \<longleftrightarrow> s \<noteq> [] \<and> length s \<le> 3 \<and> list_all is_digit s \<and> (hd s = CHR ''0'' \<longrightarrow> length s = 1) \<and>
     number_of_digits s \<le> 255"

definition is_ipv4 :: "string \<Rightarrow> bool" where
  "is_ipv4 s \<longleftrightarrow> (let parts = split_on (CHR ''.'') s in length parts = 4 \<and> list_all dec_octet parts)"

definition hex_group :: "string \<Rightarrow> bool" where
  "hex_group s \<longleftrightarrow> s \<noteq> [] \<and> length s \<le> 4 \<and> list_all (\<lambda>c. hex_digit c \<noteq> None) s"

text \<open>
  The number of 16-bit groups in a run of groups separated by single colons, of which the very
  last of an address (\<open>final\<close>) may be an IPv4 address; None when the run is malformed.
\<close>

fun group_count :: "bool \<Rightarrow> string list \<Rightarrow> nat option" where
  "group_count final [] = Some 0"
| "group_count final [g] = (if hex_group g then Some 1 else if final \<and> is_ipv4 g then Some 2 else None)"
| "group_count final (g # gs) = (if hex_group g then map_option Suc (group_count final gs) else None)"

definition run_of :: "string \<Rightarrow> string list" where
  "run_of s = (if s = [] then [] else split_on (CHR '':'') s)"

text \<open>Eight groups, or at most seven around one \<open>::\<close>.\<close>

definition ipv6_groups_ok :: "string \<Rightarrow> bool" where
  "ipv6_groups_ok s =
    (case split_double s of
       [whole] \<Rightarrow> group_count True (run_of whole) = Some 8
     | [head, tail] \<Rightarrow>
         (case (group_count False (run_of head), group_count True (run_of tail)) of
            (Some m, Some n) \<Rightarrow> m + n \<le> 7
          | _ \<Rightarrow> False)
     | _ \<Rightarrow> False)"

definition zone_char :: "char \<Rightarrow> bool" where
  "zone_char c \<longleftrightarrow> is_digit c \<or> (let n = of_char c :: nat in (65 \<le> n \<and> n \<le> 90) \<or> (97 \<le> n \<and> n \<le> 122)) \<or>
     c \<in> {CHR ''-'', CHR ''.'', CHR '':''}"

text \<open>An IPv6 address may carry a zone after \<open>%\<close>.\<close>

definition is_ipv6 :: "string \<Rightarrow> bool" where
  "is_ipv6 s =
    (case split_on (CHR ''%'') s of
       [a] \<Rightarrow> ipv6_groups_ok a
     | [a, zone] \<Rightarrow> ipv6_groups_ok a \<and> zone \<noteq> [] \<and> list_all zone_char zone
     | _ \<Rightarrow> False)"

definition isIP :: "string \<Rightarrow> nat" where
  "isIP s = (if is_ipv4 s then 4 else if is_ipv6 s then 6 else 0)"

section \<open>Trusted proxies (env.ts)\<close>

definition isIpOrCidr :: "string \<Rightarrow> bool" where
  "isIpOrCidr entry =
    (case split_on (CHR ''/'') entry of
       [address] \<Rightarrow> isIP address \<noteq> 0
     | [address, prefix] \<Rightarrow>
         isIP address \<noteq> 0 \<and> 1 \<le> length prefix \<and> length prefix \<le> 3 \<and> list_all is_digit prefix \<and>
         number_of_digits prefix \<le> (if isIP address = 4 then 32 else 128)
     | _ \<Rightarrow> False)"

text \<open>
  \<open>ipv6Groups\<close>: the dotted tail, when there is one, is two groups. \<open>parseInt(group, 16)\<close> of a
  group of hexadecimal digits is \<open>parse_hex 0\<close>.
\<close>

definition dotted_groups :: "string \<Rightarrow> nat list" where
  "dotted_groups s =
    (case map number_of_digits (split_on (CHR ''.'') s) of
       [a, b, c, e] \<Rightarrow> [256 * a + b, 256 * c + e]
     | _ \<Rightarrow> [parse_hex 0 s])"

definition parse_run :: "string \<Rightarrow> nat list" where
  "parse_run s = concat (map dotted_groups (run_of s))"

definition ipv6Groups :: "string \<Rightarrow> nat list" where
  "ipv6Groups address =
    (case split_double (hd (split_on (CHR ''%'') address)) of
       [head] \<Rightarrow> parse_run head
     | head # tail # _ \<Rightarrow>
         (let front = parse_run head; back = parse_run tail
          in front @ replicate (8 - length front - length back) 0 @ back)
     | [] \<Rightarrow> [])"

definition isGlobalTrust :: "string \<Rightarrow> bool" where
  "isGlobalTrust entry =
    (case split_on (CHR ''/'') entry of
       address # prefix # _ \<Rightarrow>
         if number_of_digits prefix = 0 then True
         else if number_of_digits prefix \<noteq> 96 \<or> isIP address \<noteq> 6 then False
         else (let groups = ipv6Groups address
               in list_all (\<lambda>g. g = 0) (take 5 groups) \<and> 5 < length groups \<and> groups ! 5 = 0xFFFF)
     | _ \<Rightarrow> False)"

text \<open>\<open>API_TRUST_PROXY\<close>: the list of the addresses and ranges whose X-Forwarded-For is honoured.\<close>

definition trust_proxy_entries :: "string \<Rightarrow> string list" where
  "trust_proxy_entries value' = filter (\<lambda>entry. entry \<noteq> []) (map js_trim (split_on (CHR '','') value'))"

definition trust_proxy_ok :: "string list \<Rightarrow> bool" where
  "trust_proxy_ok entries \<longleftrightarrow> list_all isIpOrCidr entries \<and>
     \<not> list_ex (\<lambda>entry. isIpOrCidr entry \<and> isGlobalTrust entry) entries"

end
