(* ===== verification/Http.thy ===== *)
theory Http
  imports Auth_Steps Rate_Limiter File_Names Net
begin

text \<open>
  Requests and replies of the API: the guards every route shares (apps/api/src/modules/auth:
  auth.request.ts, auth.origin.ts, auth.cookies.ts), the uniform error answers
  (apps/api/src/plugins/error-handler.ts), the request identifier (apps/api/src/app.ts) and the
  calls a route makes. Fastify is a library: a request here is one it has parsed and routed, with
  the status of its own refusal where the body could not be read.
\<close>

section \<open>Requests\<close>

datatype header = Absent | One string | Many "string list"

datatype jvalue =
  JString string | JNumber int | JBool bool | JNullV | JArr "jvalue list" | JObj "(string \<times> jvalue) list"

datatype body = No_body | Json jvalue | Raw bytes | Refused int

record request =
  rq_id :: string
  rq_ip :: string
  rq_peer :: "string option"
  rq_origin :: header
  rq_referer :: header
  rq_csrf :: header
  rq_fileName :: header
  rq_userAgent :: "string option"
  rq_cookies :: "(string \<times> string) list"
  rq_params :: "(string \<times> string) list"
  rq_body :: body

text \<open>
  What a route is configured with: the web origin, the options of the services, the hash
  functions, the origin of a URL as the WHATWG parser reads it (None when it throws), and zod's
  own checks with the issues it reports for a body a schema refuses.
\<close>

record api_cfg =
  ac_appOrigin :: string
  ac_crypto :: crypto
  ac_auth :: auth_cfg
  ac_documents :: documents_options
  ac_urlOrigin :: "string \<Rightarrow> string option"
  ac_email :: "string \<Rightarrow> bool"
  ac_uuid :: "string \<Rightarrow> bool"
  ac_issues :: "string \<Rightarrow> body \<Rightarrow> (string list \<times> string) list"

text \<open>A well-formed identifier that comes with the request is kept.\<close>

definition request_id_char :: "char \<Rightarrow> bool" where
  "request_id_char c \<longleftrightarrow> is_digit c \<or> (let n = of_char c :: nat in (65 \<le> n \<and> n \<le> 90) \<or> (97 \<le> n \<and> n \<le> 122)) \<or>
     c \<in> {CHR ''.'', CHR ''_'', CHR ''-''}"

definition genReqId :: "header \<Rightarrow> string \<Rightarrow> string" where
  "genReqId inbound newId =
    (case inbound of
       One s \<Rightarrow> if 1 \<le> length s \<and> length s \<le> 64 \<and> list_all request_id_char s then s else newId
     | _ \<Rightarrow> newId)"

section \<open>Replies\<close>

record api_error =
  ae_code :: api_error_code
  ae_message :: string
  ae_details :: "(string \<times> string) list"
  ae_requestId :: string

datatype reply_body =
    B_none
  | B_error api_error
  | B_csrf string
  | B_accepted
  | B_user public_user
  | B_sessions "public_session list"
  | B_rotated bool
  | B_case public_case
  | B_cases "public_case list"
  | B_case_detail "public_case \<times> public_status_change list"
  | B_document public_document
  | B_documents "public_document list"
  | B_download "string \<times> time"
  | B_ocr document_ocr_read
  | B_health bool

record set_cookie =
  ck_name :: string
  ck_value :: string
  ck_secure :: bool
  ck_sameSite :: string
  ck_path :: string
  ck_httpOnly :: bool
  ck_expired :: bool

record reply =
  rp_status :: int
  rp_headers :: "(string \<times> string) list"
  rp_cookies :: "set_cookie list"
  rp_body :: reply_body

definition answer :: "int \<Rightarrow> reply_body \<Rightarrow> reply" where
  "answer st b = \<lparr>rp_status = st, rp_headers = [], rp_cookies = [], rp_body = b\<rparr>"

section \<open>Cookies (auth.cookies.ts)\<close>

definition SESSION_COOKIE :: string where
  "SESSION_COOKIE = ''__Host-session''"

definition CSRF_COOKIE :: string where
  "CSRF_COOKIE = ''__Host-csrf''"

definition base_cookie :: "string \<Rightarrow> string \<Rightarrow> bool \<Rightarrow> set_cookie" where
  "base_cookie name value' httpOnly =
    \<lparr>ck_name = name, ck_value = value', ck_secure = True, ck_sameSite = ''lax'', ck_path = ''/'',
     ck_httpOnly = httpOnly, ck_expired = False\<rparr>"

definition readSessionToken :: "request \<Rightarrow> string option" where
  "readSessionToken req = map_of (rq_cookies req) SESSION_COOKIE"

definition readCsrfToken :: "request \<Rightarrow> string option" where
  "readCsrfToken req = map_of (rq_cookies req) CSRF_COOKIE"

definition setCsrfCookie :: "string \<Rightarrow> reply \<Rightarrow> reply" where
  "setCsrfCookie csrfRaw r = r\<lparr>rp_cookies := rp_cookies r @ [base_cookie CSRF_COOKIE csrfRaw False]\<rparr>"

definition setSessionCookies :: "string \<Rightarrow> string \<Rightarrow> reply \<Rightarrow> reply" where
  "setSessionCookies sessionRaw csrfRaw r =
     setCsrfCookie csrfRaw (r\<lparr>rp_cookies := rp_cookies r @ [base_cookie SESSION_COOKIE sessionRaw True]\<rparr>)"

text \<open>\<open>clearCookie\<close> sets the same cookie with an empty value, expired.\<close>

definition clearSessionCookies :: "reply \<Rightarrow> reply" where
  "clearSessionCookies r = r\<lparr>rp_cookies := rp_cookies r @
     [(base_cookie SESSION_COOKIE '''' True)\<lparr>ck_expired := True\<rparr>,
      (base_cookie CSRF_COOKIE '''' False)\<lparr>ck_expired := True\<rparr>]\<rparr>"

section \<open>Guards (auth.origin.ts, auth.request.ts)\<close>

definition firstHeader :: "header \<Rightarrow> string option" where
  "firstHeader h = (case h of Absent \<Rightarrow> None | One s \<Rightarrow> Some s | Many [] \<Rightarrow> None | Many (s # _) \<Rightarrow> Some s)"

text \<open>An empty header counts as absent.\<close>

definition isSameOrigin :: "api_cfg \<Rightarrow> request \<Rightarrow> bool" where
  "isSameOrigin cfg req =
    (case firstHeader (rq_origin req) of
       Some origin \<Rightarrow>
         if origin \<noteq> [] then origin = ac_appOrigin cfg
         else (case firstHeader (rq_referer req) of
                 Some referer \<Rightarrow> referer \<noteq> [] \<and> ac_urlOrigin cfg referer = Some (ac_appOrigin cfg)
               | None \<Rightarrow> False)
     | None \<Rightarrow>
         (case firstHeader (rq_referer req) of
            Some referer \<Rightarrow> referer \<noteq> [] \<and> ac_urlOrigin cfg referer = Some (ac_appOrigin cfg)
          | None \<Rightarrow> False))"

definition clientIp :: "request \<Rightarrow> string" where
  "clientIp req = (if isIP (rq_ip req) \<noteq> 0 then rq_ip req else case rq_peer req of Some a \<Rightarrow> a | None \<Rightarrow> '''')"

definition requestContext :: "request \<Rightarrow> request_context" where
  "requestContext req =
    \<lparr>ctx_ip = Some (clientIp req), ctx_userAgent = rq_userAgent req, ctx_requestId = rq_id req\<rparr>"

definition readCsrfHeader :: "request \<Rightarrow> string option" where
  "readCsrfHeader req = firstHeader (rq_csrf req)"

text \<open>\<open>issue.path.join(".") || "(root)"\<close>.\<close>

fun joined :: "string \<Rightarrow> string list \<Rightarrow> string" where
  "joined sep [] = []"
| "joined sep [p] = p"
| "joined sep (p # ps) = p @ sep @ joined sep ps"

definition validationError :: "(string list \<times> string) list \<Rightarrow> exn" where
  "validationError issues =
     HttpError ((http_error 400 VALIDATION_ERROR ''Solicitud invalida.'')
       \<lparr>details := map (\<lambda>(path, msg).
          (if joined ''.'' path = [] then ''(root)'' else joined ''.'' path, msg)) issues\<rparr>)"

definition originRefused :: exn where
  "originRefused = HttpError (http_error 403 CSRF_INVALID ''Origen no permitido.'')"

definition csrfRefused :: exn where
  "csrfRefused = HttpError (http_error 403 CSRF_INVALID ''Token CSRF invalido o ausente.'')"

definition requireSameOrigin :: "api_cfg \<Rightarrow> request \<Rightarrow> exn + unit" where
  "requireSameOrigin cfg req = (if \<not> isSameOrigin cfg req then Inl originRefused else Inr ())"

definition requireCsrf :: "api_cfg \<Rightarrow> request \<Rightarrow> session_row \<Rightarrow> exn + unit" where
  "requireCsrf cfg req s =
    (case requireSameOrigin cfg req of
       Inl e \<Rightarrow> Inl e
     | Inr _ \<Rightarrow> if \<not> verifyCsrf (ac_crypto cfg) s (readCsrfHeader req) then Inl csrfRefused else Inr ())"

section \<open>What a route runs in\<close>

text \<open>
  The state of one process of the API: the world it shares with every other process, and its own
  per-address limiters.
\<close>

record api_state =
  as_world :: world
  as_register :: rate_limiter
  as_login :: rate_limiter
  as_resend :: rate_limiter
  as_forgot :: rate_limiter
  as_reset :: rate_limiter

text \<open>A failure: what the code threw, or an error of Fastify with its status.\<close>

datatype failure = Thrown exn | Framework int

type_synonym 'a handler = "(api_state, failure, 'a) prog"

text \<open>
  A request's calls to the services are numbered: the environment of a call says what other
  processes did before it and whether it fails, and each call has its clocks and generators.
\<close>

record request_env =
  re_calls :: call_env
  re_sup :: "nat \<Rightarrow> supplies"
  re_now :: time
  re_race :: "db \<Rightarrow> db"
  re_upload :: call_env
  re_sent :: bool
  re_newId :: uuid
  re_historyId :: uuid
  re_csrfRaw :: string

definition lift_io :: "'a io \<Rightarrow> 'a handler" where
  "lift_io m = (\<lambda>s. case m (as_world s) of
     (Inl e, w) \<Rightarrow> (Inl (Thrown e), s\<lparr>as_world := w\<rparr>)
   | (Inr x, w) \<Rightarrow> (Inr x, s\<lparr>as_world := w\<rparr>))"

definition service :: "request_env \<Rightarrow> nat \<Rightarrow> (time \<Rightarrow> 'a io) \<Rightarrow> 'a handler" where
  "service re n m = lift_io (call (re_calls re) n m)"

definition check :: "exn + 'a \<Rightarrow> 'a handler" where
  "check r = (case r of Inl e \<Rightarrow> throwE (Thrown e) | Inr x \<Rightarrow> returnE x)"

definition throwH :: "exn \<Rightarrow> 'a handler" where
  "throwH e = throwE (Thrown e)"

text \<open>The body is parsed before the handler of a route runs.\<close>

definition with_body :: "request \<Rightarrow> 'a handler \<Rightarrow> 'a handler" where
  "with_body req h = (case rq_body req of Refused st \<Rightarrow> throwE (Framework st) | _ \<Rightarrow> h)"

definition current :: "api_cfg \<Rightarrow> request_env \<Rightarrow> nat \<Rightarrow> request \<Rightarrow> current_user option handler" where
  "current cfg re n req =
     service re n (\<lambda>_. in_db (currentUser (ac_crypto cfg) (sup_now (re_sup re n)) (readSessionToken req)))"

definition requireCurrentUser :: "api_cfg \<Rightarrow> request_env \<Rightarrow> request \<Rightarrow> current_user handler" where
  "requireCurrentUser cfg re req =
     bindE (current cfg re 0 req)
       (\<lambda>cur. case cur of None \<Rightarrow> throwH unauthenticated | Some u \<Rightarrow> returnE u)"

text \<open>A request that acts for a user: authentication, then the origin and the CSRF token.\<close>

definition acting_user :: "api_cfg \<Rightarrow> request_env \<Rightarrow> request \<Rightarrow> current_user handler" where
  "acting_user cfg re req =
     bindE (requireCurrentUser cfg re req)
       (\<lambda>cur. bindE (check (requireCsrf cfg req (cur_session cur))) (\<lambda>_. returnE cur))"

section \<open>Errors (error-handler.ts)\<close>

fun KNOWN :: "int \<Rightarrow> (api_error_code \<times> string) option" where
  "KNOWN st =
    (if st = 400 then Some (VALIDATION_ERROR, ''Solicitud invalida.'')
     else if st = 401 then Some (UNAUTHENTICATED, ''Se requiere autenticacion.'')
     else if st = 403 then Some (FORBIDDEN, ''No tienes permiso para esta accion.'')
     else if st = 404 then Some (NOT_FOUND, ''Recurso no encontrado.'')
     else if st = 413 then Some (PAYLOAD_TOO_LARGE, ''La solicitud supera el tamano maximo permitido.'')
     else if st = 415 then Some (VALIDATION_ERROR, ''Tipo de contenido no admitido.'')
     else if st = 429 then Some (RATE_LIMITED, ''Demasiadas solicitudes. Intentalo mas tarde.'')
     else None)"

declare KNOWN.simps [simp del]

definition INTERNAL :: "api_error_code \<times> string" where
  "INTERNAL = (INTERNAL_ERROR, ''Error interno.'')"

text \<open>Only Fastify's errors carry a numeric status.\<close>

definition statusCodeOf :: "failure \<Rightarrow> int" where
  "statusCodeOf f = (case f of Framework st \<Rightarrow> st | Thrown _ \<Rightarrow> 500)"

definition error_body :: "string \<Rightarrow> api_error_code \<times> string \<Rightarrow> (string \<times> string) list \<Rightarrow> reply_body" where
  "error_body rid known ds =
     B_error \<lparr>ae_code = fst known, ae_message = snd known, ae_details = ds, ae_requestId = rid\<rparr>"

definition error_handler :: "request \<Rightarrow> failure \<Rightarrow> reply" where
  "error_handler req f =
    (case f of
       Thrown (HttpError e) \<Rightarrow>
         \<lparr>rp_status = statusCode e, rp_headers = headers e, rp_cookies = [],
          rp_body = error_body (rq_id req) (code e, message e) (details e)\<rparr>
     | _ \<Rightarrow>
         let status = statusCodeOf f
         in (case KNOWN status of
               Some known \<Rightarrow> answer status (error_body (rq_id req) known [])
             | None \<Rightarrow> answer 500 (error_body (rq_id req) INTERNAL [])))"

definition not_found_handler :: "request \<Rightarrow> reply" where
  "not_found_handler req =
     answer 404 (error_body (rq_id req) (NOT_FOUND, ''Recurso no encontrado.'') [])"

text \<open>The \<open>onSend\<close> hook.\<close>

definition on_send :: "request \<Rightarrow> reply \<Rightarrow> reply" where
  "on_send req r = r\<lparr>rp_headers := rp_headers r @ [(''x-request-id'', rq_id req)]\<rparr>"

definition respond :: "request \<Rightarrow> reply handler \<Rightarrow> api_state \<Rightarrow> reply \<times> api_state" where
  "respond req h s =
    (case h s of
       (Inl f, s') \<Rightarrow> (on_send req (error_handler req f), s')
     | (Inr r, s') \<Rightarrow> (on_send req r, s'))"

end
