(* ===== verification/Routes.thy ===== *)
theory Routes
  imports Http
begin

text \<open>
  The routes of the API (apps/api/src/modules: auth.routes.ts, cases.routes.ts,
  documents.routes.ts, health.routes.ts): the schemas of their requests (packages/contracts/src),
  one definition per route, and the application that serves them (app.ts). Texts of requests are
  limited to code units below 256, as everywhere in the account modules.
\<close>

section \<open>Schemas\<close>

text \<open>An object with no other field than the named ones.\<close>

definition strict_object :: "string list \<Rightarrow> body \<Rightarrow> (string \<times> jvalue) list option" where
  "strict_object names b =
    (case b of
       Json (JObj kvs) \<Rightarrow> if list_all (\<lambda>(k, _). k \<in> set names) kvs then Some kvs else None
     | _ \<Rightarrow> None)"

definition string_field :: "string \<Rightarrow> (string \<times> jvalue) list \<Rightarrow> string option" where
  "string_field name kvs = (case map_of kvs name of Some (JString s) \<Rightarrow> Some s | _ \<Rightarrow> None)"

definition bounded :: "nat \<Rightarrow> nat \<Rightarrow> string \<Rightarrow> string option" where
  "bounded least most s = (if least \<le> length s \<and> length s \<le> most then Some s else None)"

definition email_field :: "api_cfg \<Rightarrow> (string \<times> jvalue) list \<Rightarrow> string option" where
  "email_field cfg kvs =
    (case string_field ''email'' kvs of
       None \<Rightarrow> None
     | Some raw \<Rightarrow> let e = js_trim raw in if 1 \<le> length e \<and> ac_email cfg e then Some e else None)"

definition registerRequestSchema :: "api_cfg \<Rightarrow> body \<Rightarrow> register_input option" where
  "registerRequestSchema cfg b =
     Option.bind (strict_object [''email'', ''password'', ''fullName''] b) (\<lambda>o'.
     Option.bind (email_field cfg o') (\<lambda>email.
     Option.bind (Option.bind (string_field ''password'' o') (bounded 12 128)) (\<lambda>password.
     Option.bind (Option.bind (string_field ''fullName'' o') (\<lambda>n. bounded 1 200 (js_trim n))) (\<lambda>fullName.
       Some \<lparr>ri_email = email, ri_password = password, ri_fullName = fullName\<rparr>))))"

definition loginRequestSchema :: "api_cfg \<Rightarrow> body \<Rightarrow> login_input option" where
  "loginRequestSchema cfg b =
     Option.bind (strict_object [''email'', ''password''] b) (\<lambda>o'.
     Option.bind (email_field cfg o') (\<lambda>email.
     Option.bind (Option.bind (string_field ''password'' o') (bounded 1 128)) (\<lambda>password.
       Some \<lparr>li_email = email, li_password = password\<rparr>)))"

definition verifyEmailRequestSchema :: "body \<Rightarrow> string option" where
  "verifyEmailRequestSchema b =
     Option.bind (strict_object [''token''] b) (\<lambda>o'. Option.bind (string_field ''token'' o') (bounded 1 256))"

definition forgotPasswordRequestSchema :: "api_cfg \<Rightarrow> body \<Rightarrow> string option" where
  "forgotPasswordRequestSchema cfg b = Option.bind (strict_object [''email''] b) (email_field cfg)"

definition resetPasswordRequestSchema :: "body \<Rightarrow> (string \<times> string) option" where
  "resetPasswordRequestSchema b =
     Option.bind (strict_object [''token'', ''newPassword''] b) (\<lambda>o'.
     Option.bind (Option.bind (string_field ''token'' o') (bounded 1 256)) (\<lambda>token.
     Option.bind (Option.bind (string_field ''newPassword'' o') (bounded 12 128)) (\<lambda>newPassword.
       Some (token, newPassword))))"

fun case_type_of_name :: "string \<Rightarrow> case_type option" where
  "case_type_of_name s =
    find (\<lambda>t. case_type_name t = s) [TRAFFIC_CITATION, INFRACTION, PHOTO_ENFORCEMENT, TRANSPORT,
      NOTIFICATION, ADMINISTRATIVE_PROCEEDING, OTHER]"

definition createCaseRequestSchema :: "body \<Rightarrow> case_type option" where
  "createCaseRequestSchema b =
     Option.bind (strict_object [''type''] b) (\<lambda>o'. Option.bind (string_field ''type'' o') case_type_of_name)"

definition reprocessDocumentRequestSchema :: "body \<Rightarrow> string option" where
  "reprocessDocumentRequestSchema b =
     Option.bind (strict_object [''reason''] b) (\<lambda>o'.
       Option.bind (string_field ''reason'' o') (\<lambda>r. bounded 1 500 (js_trim r)))"

text \<open>A path parameter that must be a UUID.\<close>

definition uuid_param :: "api_cfg \<Rightarrow> string \<Rightarrow> request \<Rightarrow> uuid option" where
  "uuid_param cfg name req =
    (case map_of (rq_params req) name of
       Some v \<Rightarrow> if ac_uuid cfg v then Some v else None
     | None \<Rightarrow> None)"

definition documentParamsSchema :: "api_cfg \<Rightarrow> request \<Rightarrow> (uuid \<times> uuid) option" where
  "documentParamsSchema cfg req =
    (case (uuid_param cfg ''caseId'' req, uuid_param cfg ''documentId'' req) of
       (Some i, Some j) \<Rightarrow> Some (i, j)
     | _ \<Rightarrow> None)"

text \<open>\<open>if (!parsed.success) throw validationError(parsed.error)\<close>.\<close>

definition parsed :: "api_cfg \<Rightarrow> string \<Rightarrow> request \<Rightarrow> 'a option \<Rightarrow> ('a \<Rightarrow> 'b handler) \<Rightarrow> 'b handler" where
  "parsed cfg schema req p h =
    (case p of None \<Rightarrow> throwH (validationError (ac_issues cfg schema (rq_body req))) | Some x \<Rightarrow> h x)"

definition found :: "'a option \<Rightarrow> ('a \<Rightarrow> 'b handler) \<Rightarrow> 'b handler" where
  "found p h = (case p of None \<Rightarrow> throwH notFound | Some x \<Rightarrow> h x)"

section \<open>The limits per address (auth.routes.ts)\<close>

datatype ip_limiter = Register_limiter | Login_limiter | Resend_limiter | Forgot_limiter | Reset_limiter

fun get_limiter :: "ip_limiter \<Rightarrow> api_state \<Rightarrow> rate_limiter" where
  "get_limiter Register_limiter s = as_register s"
| "get_limiter Login_limiter s = as_login s"
| "get_limiter Resend_limiter s = as_resend s"
| "get_limiter Forgot_limiter s = as_forgot s"
| "get_limiter Reset_limiter s = as_reset s"

fun set_limiter :: "ip_limiter \<Rightarrow> rate_limiter \<Rightarrow> api_state \<Rightarrow> api_state" where
  "set_limiter Register_limiter l s = s\<lparr>as_register := l\<rparr>"
| "set_limiter Login_limiter l s = s\<lparr>as_login := l\<rparr>"
| "set_limiter Resend_limiter l s = s\<lparr>as_resend := l\<rparr>"
| "set_limiter Forgot_limiter l s = s\<lparr>as_forgot := l\<rparr>"
| "set_limiter Reset_limiter l s = s\<lparr>as_reset := l\<rparr>"

definition limiter_of :: "ip_limit \<Rightarrow> rate_limiter" where
  "limiter_of l = new_rate_limiter (ipl_max l) (ipl_windowMs l)"

text \<open>A process that starts over a world.\<close>

definition new_api :: "world \<Rightarrow> api_state" where
  "new_api w =
    \<lparr>as_world = w, as_register = new_rate_limiter 5 (10 * 60 * 1000),
     as_login = new_rate_limiter 10 (10 * 60 * 1000), as_resend = limiter_of RESEND_IP_LIMIT,
     as_forgot = limiter_of FORGOT_IP_LIMIT, as_reset = limiter_of RESET_IP_LIMIT\<rparr>"

definition enforceIpLimit :: "ip_limiter \<Rightarrow> request_env \<Rightarrow> request \<Rightarrow> unit handler" where
  "enforceIpLimit lim re req = (\<lambda>s.
     case consume (get_limiter lim s) (clientIp req) (re_now re) of
       (result, l) \<Rightarrow>
         if \<not> rl_allowed result
         then (Inl (Thrown (rateLimited (retryAfterSeconds result))), set_limiter lim l s)
         else (Inr (), set_limiter lim l s))"

section \<open>Authentication routes (auth.routes.ts)\<close>

definition csrf_route :: "api_cfg \<Rightarrow> request_env \<Rightarrow> request \<Rightarrow> reply handler" where
  "csrf_route cfg re req =
     bindE (requireCurrentUser cfg re req) (\<lambda>cur.
       let existingRaw = readCsrfToken req;
           fresh = generateOpaqueToken (ac_crypto cfg) (re_csrfRaw re)
       in if verifyCsrf (ac_crypto cfg) (cur_session cur) existingRaw
          then returnE (answer 200 (B_csrf (the existingRaw)))
          else bindE (service re 1 (\<lambda>_. in_db (rotateCsrfToken (s_id (cur_session cur)) (tok_hash fresh))))
                 (\<lambda>_. returnE (setCsrfCookie (tok_raw fresh) (answer 200 (B_csrf (tok_raw fresh))))))"

definition register_route :: "api_cfg \<Rightarrow> request_env \<Rightarrow> request \<Rightarrow> reply handler" where
  "register_route cfg re req = with_body req
    (bindE (check (requireSameOrigin cfg req)) (\<lambda>_.
     bindE (enforceIpLimit Register_limiter re req) (\<lambda>_.
     parsed cfg ''register'' req (registerRequestSchema cfg (rq_body req)) (\<lambda>input.
     bindE (service re 0 (\<lambda>_. in_db
       (register (ac_crypto cfg) (re_sup re 0) (re_race re) input (requestContext req)))) (\<lambda>_.
     returnE (answer 202 B_accepted))))))"

definition login_route :: "api_cfg \<Rightarrow> request_env \<Rightarrow> request \<Rightarrow> reply handler" where
  "login_route cfg re req = with_body req
    (bindE (check (requireSameOrigin cfg req)) (\<lambda>_.
     bindE (enforceIpLimit Login_limiter re req) (\<lambda>_.
     parsed cfg ''login'' req (loginRequestSchema cfg (rq_body req)) (\<lambda>input.
     bindE (service re 0 (\<lambda>_. in_db (login (ac_crypto cfg) (ac_auth cfg) (re_sup re 0) input
       (requestContext req) (readSessionToken req)))) (\<lambda>result.
     returnE (setSessionCookies (lr_sessionRaw result) (lr_csrfRaw result)
       (answer 200 (B_user (lr_user result)))))))))"

definition me_route :: "api_cfg \<Rightarrow> request_env \<Rightarrow> request \<Rightarrow> reply handler" where
  "me_route cfg re req =
     bindE (service re 0 (\<lambda>_. in_db
       (readOwnProfile (ac_crypto cfg) (sup_now (re_sup re 0)) (readSessionToken req))))
     (\<lambda>u. returnE (answer 200 (B_user u)))"

definition sessions_route :: "api_cfg \<Rightarrow> request_env \<Rightarrow> request \<Rightarrow> reply handler" where
  "sessions_route cfg re req =
     bindE (service re 0 (\<lambda>_. in_db (listOwnSessions (ac_crypto cfg) (sup_now (re_sup re 0))
       (sup_now2 (re_sup re 0)) (readSessionToken req))))
     (\<lambda>ss. returnE (answer 200 (B_sessions ss)))"

definition requireCsrfIfSessionValid :: "api_cfg \<Rightarrow> request_env \<Rightarrow> request \<Rightarrow> unit handler" where
  "requireCsrfIfSessionValid cfg re req =
     bindE (current cfg re 0 req) (\<lambda>cur.
       case cur of None \<Rightarrow> returnE () | Some u \<Rightarrow> check (requireCsrf cfg req (cur_session u)))"

definition logout_route :: "api_cfg \<Rightarrow> request_env \<Rightarrow> request \<Rightarrow> reply handler" where
  "logout_route cfg re req = with_body req
    (bindE (requireCsrfIfSessionValid cfg re req) (\<lambda>_.
     bindE (service re 1 (\<lambda>_. in_db
       (logout (ac_crypto cfg) (re_sup re 1) (readSessionToken req) (requestContext req)))) (\<lambda>_.
     returnE (clearSessionCookies (answer 204 B_none)))))"

definition verify_email_route :: "api_cfg \<Rightarrow> request_env \<Rightarrow> request \<Rightarrow> reply handler" where
  "verify_email_route cfg re req = with_body req
    (bindE (check (requireSameOrigin cfg req)) (\<lambda>_.
     parsed cfg ''verifyEmail'' req (verifyEmailRequestSchema (rq_body req)) (\<lambda>token.
     bindE (service re 0 (\<lambda>_. in_db
       (verifyEmail (ac_crypto cfg) (re_sup re 0) token (requestContext req)))) (\<lambda>_.
     returnE (answer 204 B_none)))))"

definition resend_route :: "api_cfg \<Rightarrow> request_env \<Rightarrow> request \<Rightarrow> reply handler" where
  "resend_route cfg re req = with_body req
    (bindE (acting_user cfg re req) (\<lambda>cur.
     bindE (enforceIpLimit Resend_limiter re req) (\<lambda>_.
     bindE (service re 1 (\<lambda>_. in_db (resendEmailVerification (re_sup re 1) cur))) (\<lambda>_.
     returnE (answer 202 B_accepted)))))"

definition forgot_route :: "api_cfg \<Rightarrow> request_env \<Rightarrow> request \<Rightarrow> reply handler" where
  "forgot_route cfg re req = with_body req
    (bindE (check (requireSameOrigin cfg req)) (\<lambda>_.
     bindE (enforceIpLimit Forgot_limiter re req) (\<lambda>_.
     parsed cfg ''forgotPassword'' req (forgotPasswordRequestSchema cfg (rq_body req)) (\<lambda>email.
     bindE (service re 0 (\<lambda>_. in_db
       (forgotPassword (ac_crypto cfg) (re_sup re 0) email (requestContext req)))) (\<lambda>_.
     returnE (answer 202 B_accepted))))))"

definition reset_route :: "api_cfg \<Rightarrow> request_env \<Rightarrow> request \<Rightarrow> reply handler" where
  "reset_route cfg re req = with_body req
    (bindE (check (requireSameOrigin cfg req)) (\<lambda>_.
     bindE (enforceIpLimit Reset_limiter re req) (\<lambda>_.
     parsed cfg ''resetPassword'' req (resetPasswordRequestSchema (rq_body req)) (\<lambda>(token, newPassword).
     bindE (service re 0 (\<lambda>_. in_db
       (resetPassword_service (ac_crypto cfg) (re_sup re 0) token newPassword (requestContext req)))) (\<lambda>_.
     returnE (answer 204 B_none))))))"

definition rotate_route :: "api_cfg \<Rightarrow> request_env \<Rightarrow> request \<Rightarrow> reply handler" where
  "rotate_route cfg re req = with_body req
    (bindE (acting_user cfg re req) (\<lambda>cur.
     bindE (service re 1 (\<lambda>_. in_db
       (rotateSession_service (ac_crypto cfg) (re_sup re 1) cur (requestContext req)))) (\<lambda>result.
     returnE (case result of
       None \<Rightarrow> answer 200 (B_rotated False)
     | Some (sessionRaw, csrfRaw) \<Rightarrow> setSessionCookies sessionRaw csrfRaw (answer 200 (B_rotated True))))))"

definition logout_all_route :: "api_cfg \<Rightarrow> request_env \<Rightarrow> request \<Rightarrow> reply handler" where
  "logout_all_route cfg re req = with_body req
    (bindE (acting_user cfg re req) (\<lambda>cur.
     bindE (service re 1 (\<lambda>_. in_db (logoutAll (re_sup re 1) cur (requestContext req)))) (\<lambda>_.
     returnE (clearSessionCookies (answer 204 B_none)))))"

definition revoke_session_route :: "api_cfg \<Rightarrow> request_env \<Rightarrow> request \<Rightarrow> reply handler" where
  "revoke_session_route cfg re req = with_body req
    (bindE (acting_user cfg re req) (\<lambda>cur.
     found (uuid_param cfg ''sessionId'' req) (\<lambda>sessionId.
     bindE (service re 1 (\<lambda>_. in_db
       (revokeOwnSession_service (re_sup re 1) cur sessionId (requestContext req)))) (\<lambda>revokedCurrent.
     returnE (if revokedCurrent then clearSessionCookies (answer 204 B_none) else answer 204 B_none)))))"

section \<open>Case routes (cases.routes.ts)\<close>

definition create_case_route :: "api_cfg \<Rightarrow> request_env \<Rightarrow> request \<Rightarrow> reply handler" where
  "create_case_route cfg re req = with_body req
    (bindE (acting_user cfg re req) (\<lambda>cur.
     parsed cfg ''createCase'' req (createCaseRequestSchema (rq_body req)) (\<lambda>ctype.
     bindE (service re 1 (\<lambda>now. in_db
       (createCase (re_newId re) (re_historyId re) now cur ctype (requestContext req)))) (\<lambda>c.
     returnE (answer 201 (B_case c))))))"

definition list_cases_route :: "api_cfg \<Rightarrow> request_env \<Rightarrow> request \<Rightarrow> reply handler" where
  "list_cases_route cfg re req =
     bindE (requireCurrentUser cfg re req) (\<lambda>cur.
     bindE (service re 1 (\<lambda>_. querying (listOwnCases cur))) (\<lambda>cs. returnE (answer 200 (B_cases cs))))"

definition read_case_route :: "api_cfg \<Rightarrow> request_env \<Rightarrow> request \<Rightarrow> reply handler" where
  "read_case_route cfg re req =
     bindE (requireCurrentUser cfg re req) (\<lambda>cur.
     found (uuid_param cfg ''caseId'' req) (\<lambda>case_id.
     bindE (service re 1 (\<lambda>_. querying (readOwnCase cur case_id))) (\<lambda>c.
     returnE (answer 200 (B_case_detail c)))))"

section \<open>Document routes (documents.routes.ts)\<close>

definition unsupportedBody :: exn where
  "unsupportedBody = HttpError (http_error 415 VALIDATION_ERROR ''Tipo de contenido no admitido.'')"

text \<open>The guard of an upload runs in \<open>onRequest\<close>, before its body is read.\<close>

definition upload_route :: "api_cfg \<Rightarrow> request_env \<Rightarrow> request \<Rightarrow> reply handler" where
  "upload_route cfg re req =
     bindE (acting_user cfg re req) (\<lambda>cur.
     with_body req (found (uuid_param cfg ''caseId'' req) (\<lambda>case_id.
       case rq_body req of
         Raw content \<Rightarrow>
           bindE (check (fileNameOf (firstHeader (rq_fileName req)))) (\<lambda>fileName.
           bindE (lift_io (uploadDocument (re_upload re) (re_sent re) (ac_documents cfg) (re_newId re)
              cur case_id fileName content (requestContext req))) (\<lambda>doc.
           returnE (answer 201 (B_document doc))))
       | _ \<Rightarrow> throwH unsupportedBody)))"

definition list_documents_route :: "api_cfg \<Rightarrow> request_env \<Rightarrow> request \<Rightarrow> reply handler" where
  "list_documents_route cfg re req =
     bindE (requireCurrentUser cfg re req) (\<lambda>cur.
     found (uuid_param cfg ''caseId'' req) (\<lambda>case_id.
     bindE (service re 1 (\<lambda>_. querying (listDocuments cur case_id))) (\<lambda>ds.
     returnE (answer 200 (B_documents ds)))))"

definition no_store :: "reply \<Rightarrow> reply" where
  "no_store r = r\<lparr>rp_headers := rp_headers r @ [(''cache-control'', ''no-store'')]\<rparr>"

definition download_route :: "api_cfg \<Rightarrow> request_env \<Rightarrow> request \<Rightarrow> reply handler" where
  "download_route cfg re req =
     bindE (requireCurrentUser cfg re req) (\<lambda>cur.
     found (documentParamsSchema cfg req) (\<lambda>(case_id, documentId).
     bindE (service re 1 (\<lambda>_. createDownloadUrl (ac_documents cfg) (re_now re) cur case_id documentId)) (\<lambda>url.
     returnE (no_store (answer 200 (B_download url))))))"

definition ocr_route :: "api_cfg \<Rightarrow> request_env \<Rightarrow> request \<Rightarrow> reply handler" where
  "ocr_route cfg re req =
     bindE (requireCurrentUser cfg re req) (\<lambda>cur.
     found (documentParamsSchema cfg req) (\<lambda>(case_id, documentId).
     bindE (service re 1 (\<lambda>_. in_db (readDocumentOcr (re_race re) cur case_id documentId))) (\<lambda>ocr.
     returnE (no_store (answer 200 (B_ocr ocr))))))"

definition reprocess_route :: "api_cfg \<Rightarrow> request_env \<Rightarrow> request \<Rightarrow> reply handler" where
  "reprocess_route cfg re req = with_body req
    (bindE (acting_user cfg re req) (\<lambda>cur.
     bindE (check (assertCanReprocess cur)) (\<lambda>_.
     found (uuid_param cfg ''documentId'' req) (\<lambda>documentId.
     parsed cfg ''reprocessDocument'' req (reprocessDocumentRequestSchema (rq_body req)) (\<lambda>reason.
     bindE (service re 1 (\<lambda>now. in_db
       (requestReprocess (re_sent re) now cur documentId reason (requestContext req)))) (\<lambda>_.
     returnE (answer 202 B_accepted)))))))"

definition ocr_reprocess_route :: "api_cfg \<Rightarrow> request_env \<Rightarrow> request \<Rightarrow> reply handler" where
  "ocr_reprocess_route cfg re req = with_body req
    (bindE (acting_user cfg re req) (\<lambda>cur.
     bindE (check (assertCanReprocessOcr cur)) (\<lambda>_.
     found (uuid_param cfg ''documentId'' req) (\<lambda>documentId.
     parsed cfg ''reprocessDocument'' req (reprocessDocumentRequestSchema (rq_body req)) (\<lambda>reason.
     bindE (service re 1 (\<lambda>now. in_db
       (requestOcrReprocess (re_sent re) now cur documentId reason (requestContext req)))) (\<lambda>_.
     returnE (answer 202 B_accepted)))))))"

section \<open>The application (app.ts, health.routes.ts)\<close>

definition live_route :: reply where
  "live_route = answer 200 (B_health True)"

definition ready_route :: "bool \<Rightarrow> reply" where
  "ready_route databaseUp = answer (if databaseUp then 200 else 503) (B_health databaseUp)"

datatype endpoint =
    GET_live | GET_ready bool
  | GET_csrf | POST_register | POST_login | GET_me | GET_sessions | POST_logout | POST_verify
  | POST_resend | POST_forgot | POST_reset | POST_rotate | POST_logout_all | DELETE_session
  | POST_case | GET_cases | GET_case
  | POST_document | GET_documents | GET_download | GET_ocr
  | POST_reprocess | POST_ocr_reprocess
  | Unknown_route

fun route :: "api_cfg \<Rightarrow> request_env \<Rightarrow> endpoint \<Rightarrow> request \<Rightarrow> reply handler" where
  "route cfg re GET_live req = returnE live_route"
| "route cfg re (GET_ready up) req = returnE (ready_route up)"
| "route cfg re GET_csrf req = csrf_route cfg re req"
| "route cfg re POST_register req = register_route cfg re req"
| "route cfg re POST_login req = login_route cfg re req"
| "route cfg re GET_me req = me_route cfg re req"
| "route cfg re GET_sessions req = sessions_route cfg re req"
| "route cfg re POST_logout req = logout_route cfg re req"
| "route cfg re POST_verify req = verify_email_route cfg re req"
| "route cfg re POST_resend req = resend_route cfg re req"
| "route cfg re POST_forgot req = forgot_route cfg re req"
| "route cfg re POST_reset req = reset_route cfg re req"
| "route cfg re POST_rotate req = rotate_route cfg re req"
| "route cfg re POST_logout_all req = logout_all_route cfg re req"
| "route cfg re DELETE_session req = revoke_session_route cfg re req"
| "route cfg re POST_case req = create_case_route cfg re req"
| "route cfg re GET_cases req = list_cases_route cfg re req"
| "route cfg re GET_case req = read_case_route cfg re req"
| "route cfg re POST_document req = upload_route cfg re req"
| "route cfg re GET_documents req = list_documents_route cfg re req"
| "route cfg re GET_download req = download_route cfg re req"
| "route cfg re GET_ocr req = ocr_route cfg re req"
| "route cfg re POST_reprocess req = reprocess_route cfg re req"
| "route cfg re POST_ocr_reprocess req = ocr_reprocess_route cfg re req"
| "route cfg re Unknown_route req = returnE (not_found_handler req)"

definition serve :: "api_cfg \<Rightarrow> request_env \<Rightarrow> endpoint \<Rightarrow> request \<Rightarrow> api_state \<Rightarrow> reply \<times> api_state" where
  "serve cfg re e req = respond req (route cfg re e req)"

end
