(* ===== verification/Route_Guards.thy ===== *)
theory Route_Guards
  imports Routes Auth_Theorems
begin

text \<open>
  What the guards of the routes are worth: a request that changes something is only acted upon
  for the origin of the web application and, once there is a session, with its CSRF token; a
  route for administrators cannot be told from a route that does not exist.
\<close>

section \<open>Environments\<close>

text \<open>Nothing else runs between the calls; the failures are those of the database.\<close>

definition alone :: "call_env \<Rightarrow> bool" where
  "alone env \<longleftrightarrow> (\<forall>n w. ce_during env n w = w)"

fun fault_exn :: "fault \<Rightarrow> exn" where
  "fault_exn (Fails_before e) = e"
| "fault_exn (Fails_after e) = e"

definition is_http_error :: "exn \<Rightarrow> bool" where
  "is_http_error e = (case e of HttpError _ \<Rightarrow> True | _ \<Rightarrow> False)"

definition plain_faults :: "call_env \<Rightarrow> bool" where
  "plain_faults env \<longleftrightarrow> (\<forall>n f. ce_fault env n = Some f \<longrightarrow> \<not> is_http_error (fault_exn f))"

section \<open>What a refused request leaves\<close>

definition touched_row :: "session_row \<Rightarrow> session_row \<Rightarrow> bool" where
  "touched_row s s' \<longleftrightarrow> s' = s\<lparr>s_lastSeenAt := s_lastSeenAt s', s_idleExpiresAt := s_idleExpiresAt s'\<rparr>"

text \<open>Nothing but the idle windows of sessions moved.\<close>

definition only_touched :: "db \<Rightarrow> db \<Rightarrow> bool" where
  "only_touched d d' \<longleftrightarrow> d' = d\<lparr>sessions := sessions d'\<rparr> \<and> list_all2 touched_row (sessions d) (sessions d')"

definition kept :: "api_state \<Rightarrow> api_state \<Rightarrow> bool" where
  "kept s s' \<longleftrightarrow> only_touched (w_db (as_world s)) (w_db (as_world s')) \<and>
     s' = s\<lparr>as_world := (as_world s)\<lparr>w_db := w_db (as_world s')\<rparr>\<rparr>"

lemma touched_row_refl [simp]: "touched_row s s"
  by (simp add: touched_row_def)

lemma only_touched_refl [simp]: "only_touched d d"
  by (simp add: only_touched_def list_all2_refl)

lemma kept_refl [simp]: "kept s s"
  by (simp add: kept_def)

lemma slide_only_touched: "only_touched d (slide_window c now raw d)"
proof -
  have "list_all2 touched_row rows (update_where P (\<lambda>x. x\<lparr>s_lastSeenAt := a, s_idleExpiresAt := b\<rparr>) rows)"
    for rows P a b
    by (induction rows) (auto simp: touched_row_def)
  then show ?thesis
    by (auto simp: slide_window_def only_touched_def list_all2_same split: option.splits)
qed

text \<open>Why a guard refused: no user, another origin, no token, or the failure of the call.\<close>

definition refusal :: "request_env \<Rightarrow> exn \<Rightarrow> bool" where
  "refusal re e \<longleftrightarrow> e \<in> {unauthenticated, originRefused, csrfRefused} \<or>
     (\<exists>n f. ce_fault (re_calls re) n = Some f \<and> e = fault_exn f)"

lemma refusal_fault: "ce_fault (re_calls re) n = Some f \<Longrightarrow> refusal re (fault_exn f)"
  by (auto simp: refusal_def)

lemma refusal_guard: "e \<in> {unauthenticated, originRefused, csrfRefused} \<Longrightarrow> refusal re e"
  by (auto simp: refusal_def)

definition barred :: "request_env \<Rightarrow> request \<Rightarrow> 'a handler \<Rightarrow> api_state \<Rightarrow> bool" where
  "barred re req h s \<longleftrightarrow> (\<exists>f s'. h s = (Inl f, s') \<and> kept s s' \<and>
     (case f of Thrown e \<Rightarrow> refusal re e | Framework st \<Rightarrow> rq_body req = Refused st))"

lemma barred_bind : "barred re req m s \<Longrightarrow> barred re req (bindE m f) s"
  by (auto simp: barred_def bindE_Inl)

lemma barred_body : "barred re req h s \<Longrightarrow> barred re req (with_body req h) s"
  by (auto simp: barred_def with_body_def split: body.splits)

lemma barred_reply:
  assumes "barred re req h s" and "plain_faults (re_calls re)" and "respond req h s = (r, s')"
  shows "rp_status r \<in> {400, 401, 403, 404, 413, 415, 429, 500} \<and> rp_cookies r = [] \<and> kept s s'"
proof -
  obtain f t where f: "h s = (Inl f, t)" "kept s t"
    "case f of Thrown e \<Rightarrow> refusal re e | Framework st \<Rightarrow> rq_body req = Refused st"
    using assms(1) by (auto simp: barred_def)
  have "rp_status (error_handler req f) \<in> {400, 401, 403, 404, 413, 415, 429, 500} \<and>
    rp_cookies (error_handler req f) = []"
  proof (cases f)
    case (Framework st)
    then show ?thesis
      by (auto simp: error_handler_def statusCodeOf_def answer_def KNOWN.simps Let_def split: option.splits)
  next
    case (Thrown e)
    with f(3) consider "e \<in> {unauthenticated, originRefused, csrfRefused}"
      | n g where "ce_fault (re_calls re) n = Some g" "e = fault_exn g"
      by (auto simp: refusal_def)
    then show ?thesis
    proof cases
      case 1
      then show ?thesis
        by (auto simp: Thrown error_handler_def unauthenticated_def originRefused_def csrfRefused_def
            http_error_def)
    next
      case 2
      with assms(2) have "\<not> is_http_error e" by (auto simp: plain_faults_def)
      then show ?thesis
        by (auto simp: Thrown error_handler_def statusCodeOf_def answer_def KNOWN.simps is_http_error_def
            Let_def split: exn.splits)
    qed
  qed
  with f(1,2) assms(3) show ?thesis by (auto simp: respond_def on_send_def)
qed

section \<open>Authentication\<close>

lemma in_db_eq: "in_db m w = (fst (m (w_db w)), w\<lparr>w_db := snd (m (w_db w))\<rparr>)"
  by (simp add: in_db_def split: prod.splits)

lemma current_run:
  assumes "alone (re_calls re)" and "current cfg re n req s = (r, s')"
  shows "kept s s' \<and>
    (r = Inr (map_option current_of (authenticated (ac_crypto cfg) (sup_now (re_sup re n))
            (readSessionToken req) (w_db (as_world s)))) \<or>
     (\<exists>f. ce_fault (re_calls re) n = Some f \<and> r = Inl (Thrown (fault_exn f))))"
  using assms currentUser_answer [of "ac_crypto cfg" "sup_now (re_sup re n)" "readSessionToken req" "w_db (as_world s)"]
    currentUser_state [of "ac_crypto cfg" "sup_now (re_sup re n)" "readSessionToken req" "w_db (as_world s)"]
    slide_only_touched [of "w_db (as_world s)"]
  by (cases "ce_fault (re_calls re) n"; cases "the (ce_fault (re_calls re) n)")
    (auto simp: current_def service_def lift_io_def call_def alone_def in_db_eq kept_def)

lemma authenticated_session:
  "authenticated c now raw d = Some (x, u) \<Longrightarrow> session_of_cookie c raw d = Some x \<and> session_valid now x"
  by (auto simp: authenticated_def split: option.splits if_splits)

text \<open>
  A forged request: made from another origin, or, where there is a session, without the token of
  the session its cookie names.
\<close>

definition before_session :: "endpoint \<Rightarrow> bool" where
  "before_session e \<longleftrightarrow> e \<in> {POST_register, POST_login, POST_verify, POST_forgot, POST_reset}"

definition with_session :: "endpoint \<Rightarrow> bool" where
  "with_session e \<longleftrightarrow> e \<in> {POST_resend, POST_rotate, POST_logout_all, DELETE_session, POST_case,
     POST_document, POST_reprocess, POST_ocr_reprocess}"

definition wrong_token :: "api_cfg \<Rightarrow> request \<Rightarrow> db \<Rightarrow> bool" where
  "wrong_token cfg req d \<longleftrightarrow> (\<forall>x. session_of_cookie (ac_crypto cfg) (readSessionToken req) d = Some x \<longrightarrow>
     \<not> verifyCsrf (ac_crypto cfg) x (readCsrfHeader req))"

definition forged :: "api_cfg \<Rightarrow> endpoint \<Rightarrow> request \<Rightarrow> db \<Rightarrow> bool" where
  "forged cfg e req d \<longleftrightarrow> (before_session e \<and> \<not> isSameOrigin cfg req) \<or>
     (with_session e \<and> (\<not> isSameOrigin cfg req \<or> wrong_token cfg req d))"

lemma requireCsrf_refused:
  assumes "\<not> isSameOrigin cfg req \<or> \<not> verifyCsrf (ac_crypto cfg) x (readCsrfHeader req)"
  obtains e where "requireCsrf cfg req x = Inl e" and "e \<in> {originRefused, csrfRefused}"
  using assms that
  by (cases "isSameOrigin cfg req") (auto simp: requireCsrf_def requireSameOrigin_def)

lemma barred_requireCurrentUser:
  assumes "alone (re_calls re)" and "ce_fault (re_calls re) 0 \<noteq> None \<or>
    authenticated (ac_crypto cfg) (sup_now (re_sup re 0)) (readSessionToken req) (w_db (as_world s)) = None"
  shows "barred re req (requireCurrentUser cfg re req) s"
proof -
  obtain r s' where run: "current cfg re 0 req s = (r, s')" by fastforce
  have kept: "kept s s'" and r: "r = Inr (map_option current_of (authenticated (ac_crypto cfg)
      (sup_now (re_sup re 0)) (readSessionToken req) (w_db (as_world s)))) \<or>
     (\<exists>f. ce_fault (re_calls re) 0 = Some f \<and> r = Inl (Thrown (fault_exn f)))"
    using current_run [OF assms(1) run] by simp_all
  show ?thesis
  proof (cases r)
    case (Inl f)
    with r run kept show ?thesis
      by (auto simp: barred_def requireCurrentUser_def bindE_Inl refusal_fault)
  next
    case (Inr cur)
    then have "ce_fault (re_calls re) 0 = None"
      using run by (cases "ce_fault (re_calls re) 0"; cases "the (ce_fault (re_calls re) 0)")
        (auto simp: current_def service_def lift_io_def call_def in_db_eq split: prod.splits sum.splits)
    with Inr r assms(2) have "cur = None" by simp
    with Inr run kept show ?thesis
      by (auto simp: barred_def requireCurrentUser_def bindE_Inr throwH_def refusal_def)
  qed
qed

lemma barred_acting_user:
  assumes "alone (re_calls re)" and "\<not> isSameOrigin cfg req \<or> wrong_token cfg req (w_db (as_world s))"
  shows "barred re req (acting_user cfg re req) s"
proof (cases "barred re req (requireCurrentUser cfg re req) s")
  case True
  then show ?thesis unfolding acting_user_def by (rule barred_bind)
next
  case False
  then obtain x u where au: "authenticated (ac_crypto cfg) (sup_now (re_sup re 0)) (readSessionToken req)
      (w_db (as_world s)) = Some (x, u)" and nf: "ce_fault (re_calls re) 0 = None"
    using barred_requireCurrentUser [OF assms(1)] by (metis option.exhaust surj_pair)
  obtain r s' where run: "current cfg re 0 req s = (r, s')" by fastforce
  have kept: "kept s s'" and r: "r = Inr (Some (current_of (x, u)))"
    using current_run [OF assms(1) run] au nf by simp_all
  have "session_of_cookie (ac_crypto cfg) (readSessionToken req) (w_db (as_world s)) = Some x"
    using authenticated_session [OF au] by simp
  with assms(2) have "\<not> isSameOrigin cfg req \<or> \<not> verifyCsrf (ac_crypto cfg) x (readCsrfHeader req)"
    by (auto simp: wrong_token_def)
  then obtain e where e: "requireCsrf cfg req x = Inl e" "e \<in> {originRefused, csrfRefused}"
    by (rule requireCsrf_refused)
  have "acting_user cfg re req s = (Inl (Thrown e), s')"
    using run r e(1)
    by (simp add: acting_user_def requireCurrentUser_def bindE_def current_of_def check_def)
  with kept e(2) show ?thesis by (auto simp: barred_def refusal_def)
qed

lemma barred_forged:
  assumes "alone (re_calls re)" and "forged cfg e req (w_db (as_world s))"
  shows "barred re req (route cfg re e req) s"
proof -
  consider "before_session e" "\<not> isSameOrigin cfg req"
    | "with_session e" "\<not> isSameOrigin cfg req \<or> wrong_token cfg req (w_db (as_world s))"
    using assms(2) by (auto simp: forged_def)
  then show ?thesis
  proof cases
    case 1
    then have "barred re req (check (requireSameOrigin cfg req)) s"
      by (simp add: barred_def check_def requireSameOrigin_def refusal_def)
    then show ?thesis
      using 1(1)
      by (auto simp: before_session_def register_route_def login_route_def
          verify_email_route_def forgot_route_def reset_route_def intro!: barred_body barred_bind)
  next
    case 2
    have "barred re req (acting_user cfg re req) s"
      by (rule barred_acting_user [OF assms(1) 2(2)])
    then show ?thesis
      using 2(1) by (auto simp: with_session_def resend_route_def rotate_route_def logout_all_route_def
          revoke_session_route_def create_case_route_def upload_route_def reprocess_route_def
          ocr_reprocess_route_def intro!: barred_body barred_bind)
  qed
qed

lemma forged_kept:
  assumes "alone (re_calls re)" and "plain_faults (re_calls re)"
    and "forged cfg e req (w_db (as_world s))"
  shows "rp_status (fst (serve cfg re e req s)) \<in> {400, 401, 403, 404, 413, 415, 429, 500} \<and>
    rp_cookies (fst (serve cfg re e req s)) = [] \<and> kept s (snd (serve cfg re e req s))"
  unfolding serve_def by (rule barred_reply [OF barred_forged [OF assms(1,3)] assms(2)]) simp

section \<open>Logging out\<close>

text \<open>
  A forged request to log out ends no session either, provided the holder of the session is
  active: with a valid session the guard refuses it, and without one there is nothing to end.
\<close>

lemma session_valid_earlier: "session_valid t x \<Longrightarrow> t' \<le> t \<Longrightarrow> session_valid t' x"
  by (auto simp: session_valid_def)

definition holder_active :: "api_cfg \<Rightarrow> request \<Rightarrow> time \<Rightarrow> db \<Rightarrow> bool" where
  "holder_active cfg req now d \<longleftrightarrow>
    (\<forall>x. session_of_cookie (ac_crypto cfg) (readSessionToken req) d = Some x \<and> session_valid now x \<longrightarrow>
      (\<exists>u. findUserById (s_userId x) d = Some u \<and> u_status u = ACTIVE))"

lemma logout_no_session:
  assumes "\<And>x. session_of_cookie c raw d = Some x \<Longrightarrow> \<not> session_valid (sup_now env) x"
  shows "logout c env raw ctx d = (Inr (), d)"
  using assms by (cases "session_of_cookie c raw d") (auto simp: logout_def bindE_def loadValidSession_eq)

lemma service_unchanged:
  assumes "alone (re_calls re)" and "m (w_db (as_world s)) = (x, w_db (as_world s))"
  shows "snd (service re n (\<lambda>_. in_db m) s) = s"
proof -
  have "snd (in_db m (as_world s)) = as_world s"
    using assms(2) by (simp add: in_db_eq)
  then have "snd (faulty f (in_db m) (as_world s)) = as_world s" for f
    using faulty_snd [of f "in_db m" "as_world s"] by auto
  then obtain y where "call (re_calls re) n (\<lambda>_. in_db m) (as_world s) = (y, as_world s)"
    using assms(1) by (metis alone_def call_def prod.collapse)
  then show ?thesis
    by (simp add: service_def lift_io_def split: sum.split)
qed

lemma forged_logout_keeps:
  assumes "alone (re_calls re)" and "plain_faults (re_calls re)"
    and "sup_now (re_sup re 0) \<le> sup_now (re_sup re 1)"
    and "\<not> isSameOrigin cfg req \<or> wrong_token cfg req (w_db (as_world s))"
    and "holder_active cfg req (sup_now (re_sup re 0)) (w_db (as_world s))"
  shows "kept s (snd (serve cfg re POST_logout req s))"
proof -
  let ?d = "w_db (as_world s)" and ?raw = "readSessionToken req" and ?c = "ac_crypto cfg"
  let ?cur = "\<lambda>u. case u of None \<Rightarrow> returnE () | Some u \<Rightarrow> check (requireCsrf cfg req (cur_session u))"
  obtain r s' where run: "current cfg re 0 req s = (r, s')" by fastforce
  show ?thesis
  proof (cases "barred re req (requireCsrfIfSessionValid cfg re req) s")
    case True
    then have "barred re req (route cfg re POST_logout req) s"
      by (simp add: logout_route_def barred_body barred_bind)
    then show ?thesis
      unfolding serve_def using barred_reply [OF _ assms(2)] by (metis prod.collapse)
  next
    case False
    have r: "kept s s'" "r = Inr (map_option current_of (authenticated ?c (sup_now (re_sup re 0)) ?raw ?d)) \<or>
        (\<exists>f. ce_fault (re_calls re) 0 = Some f \<and> r = Inl (Thrown (fault_exn f)))"
      using current_run [OF assms(1) run] by simp_all
    have none: "authenticated ?c (sup_now (re_sup re 0)) ?raw ?d = None"
    proof (rule ccontr)
      assume "authenticated ?c (sup_now (re_sup re 0)) ?raw ?d \<noteq> None"
      then obtain x u where au: "authenticated ?c (sup_now (re_sup re 0)) ?raw ?d = Some (x, u)" by auto
      have "\<not> isSameOrigin cfg req \<or> \<not> verifyCsrf ?c x (readCsrfHeader req)"
        using assms(4) authenticated_session [OF au] by (auto simp: wrong_token_def)
      then obtain e where "requireCsrf cfg req x = Inl e" "e \<in> {originRefused, csrfRefused}"
        by (rule requireCsrf_refused)
      with r run au have "barred re req (requireCsrfIfSessionValid cfg re req) s"
        by (auto simp: barred_def requireCsrfIfSessionValid_def bindE_def current_of_def check_def
            refusal_fault refusal_guard)
      with False show False by simp
    qed
    then have invalid: "\<not> session_valid (sup_now (re_sup re 0)) x"
      if "session_of_cookie ?c ?raw ?d = Some x" for x
      using that assms(5) by (auto simp: authenticated_def holder_active_def split: option.splits)
    then have "slide_window ?c (sup_now (re_sup re 0)) ?raw ?d = ?d"
      by (auto simp: slide_window_def split: option.splits)
    then have "currentUser ?c (sup_now (re_sup re 0)) ?raw ?d = (Inr None, ?d)"
      using currentUser_answer [of ?c _ ?raw ?d] currentUser_state [of ?c _ ?raw ?d] none
      by (metis option.map(1) prod.collapse)
    then have s': "s' = s"
      using service_unchanged [OF assms(1)] run by (metis current_def snd_conv)
    have "logout ?c (re_sup re 1) ?raw (requestContext req) ?d = (Inr (), ?d)"
      using invalid session_valid_earlier [OF _ assms(3)] by (intro logout_no_session) blast
    then have "snd (service re 1 (\<lambda>_. in_db (logout ?c (re_sup re 1) ?raw (requestContext req))) s) = s"
      by (rule service_unchanged [OF assms(1)])
    then have "snd (logout_route cfg re req s) = s"
      using run r none s'
      by (auto simp: logout_route_def with_body_def requireCsrfIfSessionValid_def bindE_def
          split: body.splits prod.splits sum.splits)
    then have "snd (serve cfg re POST_logout req s) = s"
      by (auto simp: serve_def respond_def split: prod.splits sum.splits)
    then show ?thesis by simp
  qed
qed

section \<open>Forged requests\<close>

text \<open>
  C7. While no other process acts between its calls, and whatever their failures, a forged request
  changes nothing on any of the POST and DELETE routes. On the five before a session, one from
  another origin, and on the eight that act for a user, one from another origin or without the
  token of the session whose cookie the browser attached, is refused: no cookie is set, no limiter
  counts it, no object and no row is written, and all that moves is the idle window of a session.
  Logging out with such a request does not change more either, when the holder of the session is
  active (\<open>suspended_logout_unguarded\<close> shows the exception) and the clock does not run backwards.
  The GET routes have no such guard; the only one that writes more than an idle window is the one
  that hands out the CSRF token, which replaces the hash of the cookie's own session.
\<close>

theorem forged_request_changes_nothing:
  assumes "alone (re_calls re)" and "plain_faults (re_calls re)"
    and "forged cfg e req (w_db (as_world s)) \<or>
      (e = POST_logout \<and> (\<not> isSameOrigin cfg req \<or> wrong_token cfg req (w_db (as_world s))) \<and>
        holder_active cfg req (sup_now (re_sup re 0)) (w_db (as_world s)) \<and>
        sup_now (re_sup re 0) \<le> sup_now (re_sup re 1))"
  shows "kept s (snd (serve cfg re e req s)) \<and>
    (e \<noteq> POST_logout \<longrightarrow>
      rp_status (fst (serve cfg re e req s)) \<in> {400, 401, 403, 404, 413, 415, 429, 500} \<and>
      rp_cookies (fst (serve cfg re e req s)) = [])"
proof (cases "e = POST_logout")
  case True
  then have "\<not> forged cfg e req (w_db (as_world s))"
    by (simp add: forged_def before_session_def with_session_def)
  with assms(3) forged_logout_keeps [OF assms(1,2)] True show ?thesis by blast
next
  case False
  with assms(3) forged_kept [OF assms(1,2)] show ?thesis by blast
qed

section \<open>Routes for administrators\<close>

lemma acting_user_run:
  assumes "alone (re_calls re)" and "ce_fault (re_calls re) 0 = None"
    and "authenticated (ac_crypto cfg) (sup_now (re_sup re 0)) (readSessionToken req) (w_db (as_world s)) = Some (x, u)"
    and "isSameOrigin cfg req" and "verifyCsrf (ac_crypto cfg) x (readCsrfHeader req)"
  obtains s' where "acting_user cfg re req s = (Inr (current_of (x, u)), s')" and "kept s s'"
proof -
  obtain r s' where run: "current cfg re 0 req s = (r, s')" by fastforce
  with current_run [OF assms(1) run] assms(2,3) have "kept s s'" "r = Inr (Some (current_of (x, u)))" by simp_all
  moreover have "requireCsrf cfg req x = Inr ()"
    using assms(4,5) by (simp add: requireCsrf_def requireSameOrigin_def)
  ultimately show ?thesis
    using run by (intro that [of s'])
      (simp_all add: acting_user_def requireCurrentUser_def bindE_def current_of_def check_def)
qed

text \<open>The parameters of the path play no part in the guards.\<close>

lemma acting_user_params: "acting_user cfg re (req\<lparr>rq_params := ps\<rparr>) = acting_user cfg re req"
proof -
  have "isSameOrigin cfg (req\<lparr>rq_params := ps\<rparr>) = isSameOrigin cfg req"
    by (simp add: isSameOrigin_def cong: option.case_cong)
  then have "requireCsrf cfg (req\<lparr>rq_params := ps\<rparr>) = requireCsrf cfg req"
    by (intro ext) (simp add: requireCsrf_def requireSameOrigin_def readCsrfHeader_def)
  then show ?thesis
    by (simp add: acting_user_def requireCurrentUser_def current_def readSessionToken_def)
qed

lemma error_handler_params: "error_handler (req\<lparr>rq_params := ps\<rparr>) f = error_handler req f"
proof -
  have same: "rq_id (req\<lparr>rq_params := ps\<rparr>) = rq_id req" by simp
  show ?thesis unfolding error_handler_def same ..
qed

text \<open>Who is no ADMIN is stopped before the parameters and the tables are looked at.\<close>

definition stopped :: "request \<Rightarrow> (failure + current_user) \<times> api_state \<Rightarrow> api_state \<Rightarrow> (failure + reply) \<times> api_state" where
  "stopped req acting s =
    (case rq_body req of
       Refused st \<Rightarrow> (Inl (Framework st), s)
     | _ \<Rightarrow> (case acting of (Inl f, s') \<Rightarrow> (Inl f, s') | (Inr c, s') \<Rightarrow> (Inl (Thrown notFound), s')))"

lemma admin_route_stopped:
  assumes "e \<in> {POST_reprocess, POST_ocr_reprocess}"
    and "\<And>c s'. acting_user cfg re req s = (Inr c, s') \<Longrightarrow> actor_role (cur_actor c) \<noteq> ADMIN"
  shows "route cfg re e req s = stopped req (acting_user cfg re req s) s"
proof -
  obtain r s' where run: "acting_user cfg re req s = (r, s')" by fastforce
  show ?thesis
    using assms run
    by (cases r) (auto simp: stopped_def reprocess_route_def ocr_reprocess_route_def with_body_def bindE_def check_def
        assertCanReprocess_def assertCanReprocessOcr_def split: body.splits)
qed

lemma acting_user_no_admin:
  assumes "alone (re_calls re)" and "acting_user cfg re req s = (r, s')"
    and "\<And>x u. authenticated (ac_crypto cfg) (sup_now (re_sup re 0)) (readSessionToken req) (w_db (as_world s)) = Some (x, u)
      \<Longrightarrow> u_role u \<noteq> ADMIN"
  shows "kept s s'" and "r = Inr c \<Longrightarrow> actor_role (cur_actor c) \<noteq> ADMIN"
proof -
  obtain r0 s0 where cur: "current cfg re 0 req s = (r0, s0)" by fastforce
  note user = current_run [OF assms(1) cur]
  have "s' = s0"
    using assms(2) cur by (auto simp: acting_user_def requireCurrentUser_def bindE_def check_def throwH_def
        split: sum.splits option.splits)
  with user show "kept s s'" by simp
  show "actor_role (cur_actor c) \<noteq> ADMIN" if "r = Inr c"
    using that assms(2,3) cur user
    by (auto simp: acting_user_def requireCurrentUser_def bindE_def check_def throwH_def current_of_def
        split: sum.splits option.splits)
qed

text \<open>
  C31. While no other process acts between its calls, an administrators' route tells nothing of a
  document to who is no ADMIN, visitor or user, whatever their request: nothing is written but the
  idle window of the session, and the answer does not depend on the document named in the path. To
  an authenticated user of another role with the right origin, the token of the session and a
  body that can be read, the answer is, header by header, that of a path that does not exist.
\<close>

theorem admin_routes_hidden:
  assumes "alone (re_calls re)" and "e \<in> {POST_reprocess, POST_ocr_reprocess}"
    and "\<forall>x u. authenticated (ac_crypto cfg) (sup_now (re_sup re 0)) (readSessionToken req) (w_db (as_world s)) = Some (x, u)
      \<longrightarrow> u_role u \<noteq> ADMIN"
  shows "kept s (snd (serve cfg re e req s)) \<and>
    fst (serve cfg re e (req\<lparr>rq_params := ps\<rparr>) s) = fst (serve cfg re e req s) \<and>
    (\<forall>x u. authenticated (ac_crypto cfg) (sup_now (re_sup re 0)) (readSessionToken req) (w_db (as_world s)) = Some (x, u) \<longrightarrow>
      ce_fault (re_calls re) 0 = None \<longrightarrow> isSameOrigin cfg req \<longrightarrow> verifyCsrf (ac_crypto cfg) x (readCsrfHeader req) \<longrightarrow>
      \<not> (\<exists>st. rq_body req = Refused st) \<longrightarrow>
      fst (serve cfg re e req s) = fst (serve cfg re Unknown_route req s))"
proof -
  obtain r s' where run: "acting_user cfg re req s = (r, s')" by fastforce
  note user = acting_user_no_admin [OF assms(1) run assms(3) [rule_format]]
  have at: "route cfg re e (req\<lparr>rq_params := ps\<rparr>) s = stopped req (acting_user cfg re req s) s"
    "route cfg re e req s = stopped req (acting_user cfg re req s) s"
    using admin_route_stopped [OF assms(2), of cfg re "req\<lparr>rq_params := ps\<rparr>" s]
      admin_route_stopped [OF assms(2), of cfg re req s] user(2) run
    by (auto simp: acting_user_params stopped_def)
  have "\<exists>f t. stopped req (acting_user cfg re req s) s = (Inl f, t) \<and> (t = s \<or> t = s')"
    unfolding run by (cases r; cases "rq_body req") (simp_all add: stopped_def)
  then obtain f t where f: "stopped req (acting_user cfg re req s) s = (Inl f, t)" "t = s \<or> t = s'"
    by blast
  have same: "fst (serve cfg re e (req\<lparr>rq_params := ps\<rparr>) s) = fst (serve cfg re e req s)"
    by (simp add: serve_def respond_def at f(1) error_handler_params on_send_def)
  have kept: "kept s (snd (serve cfg re e req s))"
    using f user(1) by (auto simp: serve_def respond_def at)
  have hidden: "fst (serve cfg re e req s) = fst (serve cfg re Unknown_route req s)"
    if who: "authenticated (ac_crypto cfg) (sup_now (re_sup re 0)) (readSessionToken req) (w_db (as_world s)) = Some (x, u)"
      "ce_fault (re_calls re) 0 = None" "isSameOrigin cfg req" "verifyCsrf (ac_crypto cfg) x (readCsrfHeader req)"
      "\<not> (\<exists>st. rq_body req = Refused st)" for x u
  proof -
    obtain s1 where "acting_user cfg re req s = (Inr (current_of (x, u)), s1)"
      using acting_user_run [OF assms(1) who(2,1,3,4)] by blast
    then have "stopped req (acting_user cfg re req s) s = (Inl (Thrown notFound), s1)"
      using who(5) by (auto simp: stopped_def split: body.splits)
    then show ?thesis
      by (simp add: serve_def respond_def at error_handler_def notFound_def http_error_def not_found_handler_def answer_def)
  qed
  show ?thesis using kept same hidden by blast
qed

section \<open>Concrete requests\<close>

text \<open>A stand-in for the digests: a hexadecimal text for each token used here.\<close>

definition hex_crypto :: crypto where
  "hex_crypto = \<lparr>sha256Hex = (\<lambda>t. if t = ''S'' then ''0a'' else if t = ''C'' then ''0b''
      else if t = ''F'' then ''0c'' else ''ff''),
    argon2_hash = (\<lambda>t. CHR ''$'' # t), argon2_verify = (\<lambda>h p. Some (h = CHR ''$'' # p)),
    random_secret = ''?''\<rparr>"

definition web_cfg :: api_cfg where
  "web_cfg = \<lparr>ac_appOrigin = ''https://app.co'', ac_crypto = hex_crypto,
    ac_auth = default_auth_cfg True, ac_documents = \<lparr>do_limit = 100, do_downloadUrlTtlSeconds = 60\<rparr>,
    ac_urlOrigin = (\<lambda>_. None), ac_email = (\<lambda>_. True), ac_uuid = (\<lambda>_. True), ac_issues = (\<lambda>_ _. [])\<rparr>"

definition web_env :: request_env where
  "web_env = \<lparr>re_calls = calm, re_sup = (\<lambda>_. demo_env), re_now = 1000, re_race = (\<lambda>d. d),
    re_upload = calm, re_sent = True, re_newId = ''n1'', re_historyId = ''h1'', re_csrfRaw = ''F''\<rparr>"

definition web_request :: request where
  "web_request = \<lparr>rq_id = ''r1'', rq_ip = ''1.2.3.4'', rq_peer = None, rq_origin = One ''https://app.co'',
    rq_referer = Absent, rq_csrf = Absent, rq_fileName = Absent, rq_userAgent = None,
    rq_cookies = [], rq_params = [], rq_body = No_body\<rparr>"

definition world_of :: "db \<Rightarrow> world" where
  "world_of d = \<lparr>w_db = d, w_objects = (\<lambda>_. None), w_urls = [], w_log = []\<rparr>"

definition login_body :: body where
  "login_body = Json (JObj [(''email'', JString '' Ana@X.co''), (''password'', JString ''pw'')])"

definition after_login :: api_state where
  "after_login = snd (serve web_cfg web_env POST_login (web_request\<lparr>rq_body := login_body\<rparr>)
     (new_api (world_of demo_db)))"

text \<open>The request of a page that creates a case, with the cookie of that session.\<close>

definition case_request :: "header \<Rightarrow> header \<Rightarrow> request" where
  "case_request origin token = web_request\<lparr>rq_origin := origin, rq_csrf := token,
     rq_cookies := [(SESSION_COOKIE, ''S''), (CSRF_COOKIE, ''C'')],
     rq_body := Json (JObj [(''type'', JString ''OTHER'')])\<rparr>"

lemma alone_calm: "alone (re_calls web_env)"
  by (simp add: web_env_def alone_def calm_def)

lemma plain_calm: "plain_faults (re_calls web_env)"
  by (simp add: web_env_def plain_faults_def calm_def)

lemma foreign_origin: "\<not> isSameOrigin web_cfg (case_request (One ''https://evil.co'') (One ''C''))"
  by code_simp

theorem forged_request_changes_nothing_witness:
  "rp_status (fst (serve web_cfg web_env POST_case (case_request (One ''https://app.co'') (One ''C'')) after_login)) = 201
   \<and> rp_status (fst (serve web_cfg web_env POST_case (case_request (One ''https://evil.co'') (One ''C'')) after_login)) = 403
   \<and> kept after_login (snd (serve web_cfg web_env POST_case (case_request (One ''https://evil.co'') (One ''C'')) after_login))"
proof -
  have "forged web_cfg POST_case (case_request (One ''https://evil.co'') (One ''C'')) (w_db (as_world after_login))"
    using foreign_origin by (simp add: forged_def with_session_def)
  then have "kept after_login (snd (serve web_cfg web_env POST_case (case_request (One ''https://evil.co'') (One ''C'')) after_login))"
    using forged_request_changes_nothing [OF alone_calm plain_calm] by blast
  moreover have "rp_status (fst (serve web_cfg web_env POST_case (case_request (One ''https://app.co'') (One ''C'')) after_login)) = 201"
    by code_simp
  moreover have "rp_status (fst (serve web_cfg web_env POST_case (case_request (One ''https://evil.co'') (One ''C'')) after_login)) = 403"
    by code_simp
  ultimately show ?thesis by blast
qed

text \<open>
  With a suspended holder the guard finds no current user and lets the request to log out pass,
  and the session, still valid for \<open>logout\<close>, is ended: no origin and no token are asked for.
\<close>

definition suspended_state :: api_state where
  "suspended_state = after_login\<lparr>as_world := (as_world after_login)
     \<lparr>w_db := (w_db (as_world after_login))\<lparr>users := [demo_user\<lparr>u_status := SUSPENDED\<rparr>]\<rparr>\<rparr>\<rparr>"

lemma suspended_logout_unguarded:
  "map s_revokedAt (sessions (w_db (as_world suspended_state))) = [None] \<and>
   map s_revokedAt (sessions (w_db (as_world (snd (serve web_cfg web_env POST_logout
     (case_request (One ''https://evil.co'') Absent) suspended_state))))) = [Some 1000]"
  by code_simp

declare session_valid_alt [code]

text \<open>A user who is no administrator asks for a document to be reprocessed.\<close>

definition admin_request :: request where
  "admin_request = (case_request (One ''https://app.co'') (One ''C''))\<lparr>rq_params := [(''documentId'', ''d1'')],
     rq_body := Json (JObj [(''reason'', JString ''again'')])\<rparr>"

theorem admin_routes_hidden_witness:
  "fst (serve web_cfg web_env POST_reprocess admin_request after_login)
     = fst (serve web_cfg web_env Unknown_route admin_request after_login)
   \<and> rp_status (fst (serve web_cfg web_env POST_reprocess admin_request after_login)) = 404
   \<and> fst (serve web_cfg web_env POST_reprocess (admin_request\<lparr>rq_params := [(''documentId'', ''d2'')]\<rparr>) after_login)
     = fst (serve web_cfg web_env POST_reprocess admin_request after_login)"
proof -
  have user: "authenticated (ac_crypto web_cfg) (sup_now (re_sup web_env 0)) (readSessionToken admin_request)
      (w_db (as_world after_login)) = Some (hd (sessions (w_db (as_world after_login))), demo_user)"
    by code_simp
  have guards: "u_role demo_user \<noteq> ADMIN" "isSameOrigin web_cfg admin_request"
    "verifyCsrf (ac_crypto web_cfg) (hd (sessions (w_db (as_world after_login)))) (readCsrfHeader admin_request)"
    by code_simp+
  have body: "\<not> (\<exists>st. rq_body admin_request = Refused st)" "ce_fault (re_calls web_env) 0 = None"
    by (simp_all add: admin_request_def web_env_def calm_def)
  have e: "POST_reprocess \<in> {POST_reprocess, POST_ocr_reprocess}" by simp
  have no_admin: "\<forall>x u. authenticated (ac_crypto web_cfg) (sup_now (re_sup web_env 0))
      (readSessionToken admin_request) (w_db (as_world after_login)) = Some (x, u) \<longrightarrow> u_role u \<noteq> ADMIN"
    using user guards(1) by simp
  have "rp_status (fst (serve web_cfg web_env POST_reprocess admin_request after_login)) = 404"
    by code_simp
  then show ?thesis
    using admin_routes_hidden [where cfg = web_cfg and req = admin_request and s = after_login
      and ps = "[(''documentId'', ''d2'')]", OF alone_calm e no_admin] user guards(2,3) body by blast
qed

end
