(* ===== verification/Route_Errors.thy ===== *)
theory Route_Errors
  imports Route_Guards Documents_Theorems
begin

text \<open>
  What an error of the API may say. Every answer with an error is one of a fixed list of status,
  code and text; what the database, the storage or a library threw never reaches the client.
\<close>

section \<open>The public errors\<close>

definition PUBLIC_ERRORS :: "(int \<times> api_error_code \<times> string) list" where
  "PUBLIC_ERRORS =
    [(400, VALIDATION_ERROR, ''Solicitud invalida.''),
     (400, VALIDATION_ERROR, ''Nombre de archivo invalido.''),
     (400, VALIDATION_ERROR, ''El archivo esta vacio.''),
     (400, VALIDATION_ERROR, ''Tipo de archivo no permitido. Solo se admiten PDF, JPEG o PNG.''),
     (400, INVALID_OR_EXPIRED_TOKEN, ''El enlace no es valido o ha caducado.''),
     (401, UNAUTHENTICATED, ''Se requiere autenticacion.''),
     (401, INVALID_CREDENTIALS, ''Credenciales invalidas.''),
     (403, FORBIDDEN, ''No tienes permiso para esta accion.''),
     (403, FORBIDDEN, ''El inicio de sesion para este rol requiere autenticacion multifactor, aun no disponible.''),
     (403, FORBIDDEN, ''No se pueden subir documentos a este caso en su estado actual.''),
     (403, FORBIDDEN, ''Has alcanzado el espacio maximo para tus documentos (100 MB).''),
     (403, FORBIDDEN, ''El documento no esta disponible para descarga.''),
     (403, FORBIDDEN, ''Solo se puede reprocesar un documento cuyo tratamiento fallo.''),
     (403, FORBIDDEN, ''Solo se puede reprocesar el OCR de un documento cuyo OCR fallo.''),
     (403, CSRF_INVALID, ''Origen no permitido.''),
     (403, CSRF_INVALID, ''Token CSRF invalido o ausente.''),
     (404, NOT_FOUND, ''Recurso no encontrado.''),
     (413, PAYLOAD_TOO_LARGE, ''La solicitud supera el tamano maximo permitido.''),
     (415, VALIDATION_ERROR, ''Tipo de contenido no admitido.''),
     (429, RATE_LIMITED, ''Demasiadas solicitudes. Intentalo mas tarde.''),
     (500, INTERNAL_ERROR, ''Error interno.''),
     (503, SERVICE_UNAVAILABLE, ''Servicio no disponible temporalmente. Intentalo mas tarde.'')]"

definition error_key :: "http_error \<Rightarrow> int \<times> api_error_code \<times> string" where
  "error_key h = (statusCode h, code h, message h)"

text \<open>The details are empty, name the header of a file name, or are zod's issues.\<close>

definition public_details :: "api_cfg \<Rightarrow> (string \<times> string) list \<Rightarrow> bool" where
  "public_details cfg ds \<longleftrightarrow> ds = [] \<or> ds = [(''X-File-Name'', ''invalid'')] \<or>
     (\<exists>schema b h. validationError (ac_issues cfg schema b) = HttpError h \<and> ds = details h)"

definition public_http :: "api_cfg \<Rightarrow> http_error \<Rightarrow> bool" where
  "public_http cfg h \<longleftrightarrow> error_key h \<in> set PUBLIC_ERRORS \<and> public_details cfg (details h)"

definition public_exn :: "api_cfg \<Rightarrow> exn \<Rightarrow> bool" where
  "public_exn cfg e \<longleftrightarrow> (\<forall>h. e = HttpError h \<longrightarrow> public_http cfg h)"

definition public_failure :: "api_cfg \<Rightarrow> failure \<Rightarrow> bool" where
  "public_failure cfg f \<longleftrightarrow> (\<forall>e. f = Thrown e \<longrightarrow> public_exn cfg e)"

lemma public_others [simp]:
  "public_exn cfg DuplicateEmailError" "public_exn cfg LoginAttemptUnavailableError"
  "public_exn cfg (PrismaError p)" "public_exn cfg (StorageObjectNotFoundError k)"
  "public_exn cfg (Error m)" "public_failure cfg (Framework st)"
  "public_failure cfg (Thrown e) = public_exn cfg e"
  "\<not> is_http_error e \<Longrightarrow> public_exn cfg e"
  by (auto simp: public_exn_def public_failure_def is_http_error_def)

lemma public_http_error [simp]:
  "(st, c, m) \<in> set PUBLIC_ERRORS \<Longrightarrow> public_exn cfg (HttpError (http_error st c m))"
  by (auto simp: public_exn_def public_http_def error_key_def http_error_def public_details_def)

lemma public_variant:
  assumes "public_exn cfg (HttpError (http_error st c m))"
  shows "public_exn cfg (HttpError ((http_error st c m)\<lparr>headers := hs\<rparr>))"
    and "public_details cfg ds \<Longrightarrow> public_exn cfg (HttpError ((http_error st c m)\<lparr>details := ds\<rparr>))"
  using assms by (simp_all add: public_exn_def public_http_def error_key_def http_error_def)

lemma public_named [simp]:
  "public_exn cfg notFound"
  "public_exn cfg unauthenticated"
  "public_exn cfg invalid_or_expired"
  "public_exn cfg originRefused"
  "public_exn cfg csrfRefused"
  "public_exn cfg unsupportedBody"
  "public_exn cfg quotaExceeded"
  "public_exn cfg storageUnavailable"
  unfolding notFound_def unauthenticated_def invalid_or_expired_def originRefused_def
    csrfRefused_def unsupportedBody_def quotaExceeded_def storageUnavailable_def
  by (rule public_http_error, code_simp)+

lemma public_retry [simp]: "public_exn cfg serviceUnavailable" "public_exn cfg (rateLimited n)"
  unfolding serviceUnavailable_def rateLimited_def
  by (rule public_variant(1), rule public_http_error, code_simp)+

lemma public_validation [simp]: "public_exn cfg (validationError (ac_issues cfg schema b))"
proof -
  have ok: "public_exn cfg (HttpError (http_error 400 VALIDATION_ERROR ''Solicitud invalida.''))"
    by (rule public_http_error, code_simp)
  have "public_details cfg (map (\<lambda>(path, msg). (if joined ''.'' path = [] then ''(root)'' else joined ''.'' path, msg))
      (ac_issues cfg schema b))"
    unfolding public_details_def
    by (intro disjI2 exI [of _ schema] exI [of _ b]) (auto simp: validationError_def)
  then show ?thesis
    unfolding validationError_def
    by (rule public_variant(2) [OF ok])
qed

lemma public_fileName: "fileNameOf raw = Inl e \<Longrightarrow> public_exn cfg e"
proof -
  have "public_exn cfg (HttpError (http_error 400 VALIDATION_ERROR ''Nombre de archivo invalido.''))"
    by (rule public_http_error, code_simp)
  then have "public_exn cfg (HttpError ((http_error 400 VALIDATION_ERROR ''Nombre de archivo invalido.'')
      \<lparr>details := [(''X-File-Name'', ''invalid'')]\<rparr>))"
    by (rule public_variant(2)) (simp add: public_details_def)
  then show "fileNameOf raw = Inl e \<Longrightarrow> ?thesis"
    by (auto simp: fileNameOf_def split: option.splits)
qed

section \<open>What a program may throw\<close>

definition raises :: "('e \<Rightarrow> bool) \<Rightarrow> ('s, 'e, 'a) prog \<Rightarrow> bool" where
  "raises Q m \<longleftrightarrow> (\<forall>s e. fst (m s) = Inl e \<longrightarrow> Q e)"

named_theorems raises_intros \<open>one rule per construct of a program\<close>

lemma raisesI: "(\<And>s e s'. m s = (Inl e, s') \<Longrightarrow> Q e) \<Longrightarrow> raises Q m"
  by (auto simp: raises_def) (metis prod.collapse)

lemma raisesD: "raises Q m \<Longrightarrow> m s = (Inl e, s') \<Longrightarrow> Q e"
  by (auto simp: raises_def) (metis fst_conv)

lemma raises_return [raises_intros]: "raises Q (returnE x)"
  by (simp add: raises_def)

lemma raises_throw [raises_intros]: "Q e \<Longrightarrow> raises Q (throwE e)"
  by (simp add: raises_def)

lemma raises_bind [raises_intros]: "raises Q m \<Longrightarrow> (\<And>x. raises Q (f x)) \<Longrightarrow> raises Q (bindE m f)"
  by (rule raisesI) (auto elim!: bindE_cases dest: raisesD)

lemma raises_catch [raises_intros]:
  "raises Q m \<Longrightarrow> (\<And>e. Q e \<Longrightarrow> raises Q (h e)) \<Longrightarrow> raises Q (catchE m h)"
  by (rule raisesI) (auto simp: catchE_def dest: raisesD split: prod.splits sum.splits)

lemma raises_transaction [raises_intros]: "raises Q m \<Longrightarrow> raises Q (transaction m)"
  by (rule raisesI) (auto simp: transaction_def dest: raisesD split: prod.splits sum.splits)

lemma raises_in_db [raises_intros]: "raises Q m \<Longrightarrow> raises Q (in_db m)"
  by (simp add: raises_def)

lemma raises_call [raises_intros]:
  assumes "plain_faults env" and "\<And>t. raises (public_exn cfg) (m t)"
  shows "raises (public_exn cfg) (call env n m)"
proof (rule raisesI)
  fix s e s' assume "call env n m s = (Inl e, s')"
  with assms show "public_exn cfg e"
    by (cases "ce_fault env n"; cases "the (ce_fault env n)")
      (auto simp: call_def plain_faults_def dest: raisesD, fastforce+)
qed

lemma raises_querying [raises_intros]: "(\<And>d e. q d = Inl e \<Longrightarrow> Q e) \<Longrightarrow> raises Q (querying q)"
  by (rule raisesI) (auto simp: querying_def)

lemma raises_lift [raises_intros]:
  "raises (public_exn cfg) m \<Longrightarrow> raises (public_failure cfg) (lift_io m)"
  by (rule raisesI) (auto simp: lift_io_def dest: raisesD split: prod.splits sum.splits)

lemma raises_service [raises_intros]:
  "plain_faults (re_calls re) \<Longrightarrow> (\<And>t. raises (public_exn cfg) (m t)) \<Longrightarrow>
    raises (public_failure cfg) (service re n m)"
  unfolding service_def by (intro raises_intros)

lemma raises_check [raises_intros]: "(\<And>e. r = Inl e \<Longrightarrow> public_exn cfg e) \<Longrightarrow> raises (public_failure cfg) (check r)"
  by (rule raisesI) (auto simp: check_def split: sum.splits)

lemma raises_throwH [raises_intros]: "public_exn cfg e \<Longrightarrow> raises (public_failure cfg) (throwH e)"
  by (rule raisesI) (auto simp: throwH_def)

lemma raises_body [raises_intros]: "raises (public_failure cfg) h \<Longrightarrow> raises (public_failure cfg) (with_body req h)"
  by (auto simp: with_body_def raises_def split: body.splits)

lemma raises_parsed [raises_intros]:
  "(\<And>x. raises (public_failure cfg) (h x)) \<Longrightarrow> raises (public_failure cfg) (parsed cfg schema req p h)"
  by (auto simp: parsed_def throwH_def raises_def split: option.splits)

lemma raises_found [raises_intros]:
  "(\<And>x. raises (public_failure cfg) (h x)) \<Longrightarrow> raises (public_failure cfg) (found p h)"
  by (auto simp: found_def throwH_def raises_def split: option.splits)

lemma raises_limit [raises_intros]: "raises (public_failure cfg) (enforceIpLimit lim re req)"
  by (rule raisesI) (auto simp: enforceIpLimit_def split: prod.splits if_splits)

section \<open>The services\<close>

lemma currentUser_raises: "raises Q (currentUser c now raw)"
  by (simp add: raises_def currentUser_answer)

lemma boss_send_raises: "raises (public_exn cfg) (boss_send sent m q i n)"
  by (rule raisesI) (auto simp: boss_send_def split: if_splits)

lemma P_public [simp]: "public_exn cfg P2002" "public_exn cfg P2025"
  by (simp_all add: P2002_def P2025_def)

lemma locked_raises: "raises (public_exn cfg) body \<Longrightarrow> raises (public_exn cfg) (locked_attempt fault body)"
  unfolding locked_attempt_def
  by (intro raises_intros) (auto intro!: raises_intros split: option.split)

lemma createSessionForUser_raises:
  "raises (public_exn cfg) (createSessionForUser c i a b u r x y t)"
  unfolding createSessionForUser_def Let_def
  by (intro raises_intros) (auto simp: createSession_def raises_def)

lemma register_raises: "raises (public_exn cfg) (register c env race input ctx)"
  by (rule raisesI)
    (auto simp: register_def Let_def createUserWithEmailVerification_def createUser_def bindE_def
      transaction_def split: option.splits prod.splits sum.splits exn.splits if_splits)

lemma login_attempt_raises: "raises Q (login_attempt c cfg email h pw ctx scope)"
proof (rule raisesI)
  fix d e d' assume "login_attempt c cfg email h pw ctx scope d = (Inl e, d')"
  with login_attempt_total [of c cfg email h pw ctx scope d] show "Q e" by auto
qed

text \<open>A function of the answer of a program, which keeps its state.\<close>

lemma raises_total: "(\<And>d. \<exists>x d'. m d = (Inr x, d')) \<Longrightarrow> raises Q m"
  by (rule raisesI) (metis Inl_Inr_False prod.inject)

lemma login_raises: "raises (public_exn cfg) (login c acfg env input ctx prev)"
proof (rule raisesI)
  fix d e d' assume run: "login c acfg env input ctx prev d = (Inl e, d')"
  let ?email = "normalizeEmail (li_email input)"
  obtain r d1 where att: "runLoginAttempt (sup_fault env) (sup_pgNow env) (sha256Hex c ?email)
      (accountLoginWindowMs acfg) (login_attempt c acfg ?email (sha256Hex c ?email) (li_password input) ctx) d = (r, d1)"
    by fastforce
  have att_raises: "raises (public_exn cfg) (runLoginAttempt (sup_fault env) (sup_pgNow env) (sha256Hex c ?email)
      (accountLoginWindowMs acfg) (login_attempt c acfg ?email (sha256Hex c ?email) (li_password input) ctx))"
    unfolding runLoginAttempt_def Let_def
    by (intro locked_raises raisesI) (auto dest: raisesD [OF login_attempt_raises])
  have thrown: "public_exn cfg f" if "r = Inl f" for f
    using raisesD [OF att_raises, of d f d1] att that by simp
  have refused: "public_exn cfg (HttpError (http_error 401 INVALID_CREDENTIALS ''Credenciales invalidas.''))"
    "public_exn cfg (HttpError (http_error 403 FORBIDDEN
       ''El inicio de sesion para este rol requiere autenticacion multifactor, aun no disponible.''))"
    by (rule public_http_error, code_simp)+
  show "public_exn cfg e"
  proof (cases r)
    case (Inl f)
    show ?thesis
      using run att thrown [OF Inl] unfolding Inl login_def Let_def
      by (cases f) (simp_all only: prod.case sum.case exn.case, auto)
  next
    case (Inr out)
    show ?thesis
    proof (cases out)
      case (Granted u)
      with run att Inr show ?thesis
        by (auto simp: login_def Let_def elim!: bindE_cases dest: raisesD [OF createSessionForUser_raises])
    qed (use run att Inr refused in \<open>auto simp: login_def Let_def\<close>)
  qed
qed

lemma logout_raises: "raises Q (logout c env raw ctx)"
proof (rule raises_total)
  show "\<exists>x d'. logout c env raw ctx d = (Inr x, d')" for d
    by (cases "session_of_cookie c raw d") (auto simp: logout_def bindE_def loadValidSession_eq)
qed

lemma readOwnProfile_raises: "raises (public_exn cfg) (readOwnProfile c now raw)"
  unfolding readOwnProfile_def
  by (intro raises_intros currentUser_raises) (auto intro!: raises_intros split: option.split)

lemma listOwnSessions_raises: "raises (public_exn cfg) (listOwnSessions c now now2 raw)"
  unfolding listOwnSessions_def
  by (intro raises_intros currentUser_raises) (auto simp: raises_def split: option.split)

lemma rotateSession_service_raises: "raises (public_exn cfg) (rotateSession_service c env cur ctx)"
proof -
  have "raises (public_exn cfg) (rotateSession i x)" for i x
    unfolding rotateSession_def Let_def
    by (intro raises_transaction raisesI)
      (auto simp: createSession_def bindE_def split: if_splits)
  then show ?thesis
    unfolding rotateSession_service_def rotateSessionForUser_def Let_def
    by (auto intro!: raises_intros)
qed

lemma verifyEmail_raises: "raises (public_exn cfg) (verifyEmail c env token ctx)"
proof -
  have "raises (public_exn cfg) (consumeEmailVerificationToken now h audit)" for now h audit
    unfolding consumeEmailVerificationToken_def
    by (intro raises_transaction raisesI) (auto simp: Let_def split: option.splits)
  then show ?thesis
    unfolding verifyEmail_def by (auto intro!: raises_intros split: option.split)
qed

lemma resetPassword_raises: "raises (public_exn cfg) (resetPassword_service c env token pw ctx)"
proof -
  have "raises (public_exn cfg) (resetPassword now i x)" for now i x
    unfolding resetPassword_def
    by (intro raises_transaction raisesI) (auto simp: Let_def split: option.splits)
  then show ?thesis
    unfolding resetPassword_service_def by (auto intro!: raises_intros split: option.split)
qed

lemma email_answer_raises:
  assumes "raises (public_exn cfg) m"
  shows "raises (public_exn cfg) (\<lambda>d. email_answer (m d))"
proof (rule raisesI)
  fix d e d' assume run: "email_answer (m d) = (Inl e, d')"
  obtain r d1 where m: "m d = (r, d1)" by fastforce
  show "public_exn cfg e"
  proof (cases r)
    case (Inl f)
    with raisesD [OF assms, of d f d1] m run show ?thesis
      by (cases f) (auto simp: email_answer_def)
  next
    case (Inr out)
    with m run show ?thesis by (cases out) (auto simp: email_answer_def)
  qed
qed

lemma resend_raises: "raises (public_exn cfg) (resendEmailVerification env cur)"
proof -
  have "raises (public_exn cfg) (\<lambda>d. email_answer
     (runEmailVerificationResend f now u w (\<lambda>scope d. if P scope d then (Inr (A scope d), d) else (Inr B, D scope d)) d))"
    for f now u w P A B D
    unfolding runEmailVerificationResend_def Let_def
    by (intro email_answer_raises locked_raises) (auto simp: raises_def)
  then show ?thesis
    unfolding resendEmailVerification_def Let_def
    by (auto simp: raises_def)
qed

lemma forgot_raises: "raises (public_exn cfg) (forgotPassword c env email ctx)"
proof -
  have "raises (public_exn cfg) (\<lambda>d. email_answer
     (runPasswordResetRequest f now h w (\<lambda>scope d. if P scope d then (Inr (A scope d), d) else (Inr B, D scope d)) d))"
    for f now h w P A B D
    unfolding runPasswordResetRequest_def Let_def
    by (intro email_answer_raises locked_raises) (auto simp: raises_def)
  then show ?thesis
    unfolding forgotPassword_def Let_def .
qed

lemma revokeOwnSession_raises: "raises (public_exn cfg) (revokeOwnSession_service env cur i ctx)"
  by (rule raisesI) (auto simp: revokeOwnSession_service_def split: if_splits prod.splits)

lemma logoutAll_raises: "raises (public_exn cfg) (logoutAll env cur ctx)"
  by (rule raisesI) (auto simp: logoutAll_def split: if_splits)

lemma rotateCsrf_raises: "raises (public_exn cfg) (rotateCsrfToken i h)"
  by (rule raisesI) (auto simp: rotateCsrfToken_def rotateSessionCsrf_def split: if_splits)

lemma createCase_raises: "raises (public_exn cfg) (createCase i h now cur t ctx)"
proof -
  have "raises (public_exn cfg) (createCase_repo i h now x)" for x
    unfolding createCase_repo_def
    by (intro raises_transaction raisesI) (auto simp: Let_def split: if_splits)
  then show ?thesis unfolding createCase_def by (auto intro!: raises_intros)
qed

lemma ownCase_public: "ownCase cur i act d = Inl e \<Longrightarrow> public_exn cfg e"
  by (auto simp: ownCase_def split: if_splits option.splits)

lemma cases_queries_public:
  "listOwnCases cur d = Inl e \<Longrightarrow> public_exn cfg e"
  "readOwnCase cur i d = Inl e \<Longrightarrow> public_exn cfg e"
  "listDocuments cur i d = Inl e \<Longrightarrow> public_exn cfg e"
  by (auto simp: listOwnCases_def readOwnCase_def listDocuments_def dest: ownCase_public
      split: if_splits option.splits sum.splits)

lemma removeOrphan_raises: "raises Q (removeOrphan env k)"
  by (rule raisesI) (auto simp: removeOrphan_def catchE_def split: prod.splits sum.splits)

lemma store_raises [raises_intros]: "raises Q (putObject k b t)"
  by (simp add: raises_def)

lemma createDocument_raises: "raises (public_exn cfg) (createDocument sent now input)"
  unfolding createDocument_def enqueueDocumentScan_def
  by (intro raises_transaction raisesI)
    (auto simp: Let_def elim!: bindE_cases dest: raisesD [OF boss_send_raises] split: if_splits)

lemma upload_public:
  "public_exn cfg (HttpError (http_error 403 FORBIDDEN ''No se pueden subir documentos a este caso en su estado actual.''))"
  "public_exn cfg (HttpError (http_error 400 VALIDATION_ERROR ''El archivo esta vacio.''))"
  "public_exn cfg (HttpError (http_error 413 PAYLOAD_TOO_LARGE ''La solicitud supera el tamano maximo permitido.''))"
  "public_exn cfg (HttpError (http_error 400 VALIDATION_ERROR
     ''Tipo de archivo no permitido. Solo se admiten PDF, JPEG o PNG.''))"
  "public_exn cfg (HttpError (http_error 403 FORBIDDEN ''El documento no esta disponible para descarga.''))"
  "public_exn cfg (HttpError (http_error 403 FORBIDDEN ''Solo se puede reprocesar un documento cuyo tratamiento fallo.''))"
  "public_exn cfg (HttpError (http_error 403 FORBIDDEN ''Solo se puede reprocesar el OCR de un documento cuyo OCR fallo.''))"
  by (rule public_http_error, code_simp)+

lemma uploadDocument_raises:
  assumes "plain_faults env"
  shows "raises (public_exn cfg) (uploadDocument env sent opts i cur case_id name content ctx)"
proof -
  have failed: "raises (public_exn cfg) (\<lambda>w. bindE (removeOrphan env k) (\<lambda>_. throwE storageUnavailable) (f w))" for k f
    by (rule raisesI) (auto elim!: bindE_cases dest: raisesD [OF removeOrphan_raises [where Q = "public_exn cfg"]])
  have stored: "raises (public_exn cfg) (store_upload env sent k content t input)" for k t input
    unfolding store_upload_def
    using assms failed
    by (auto intro!: raises_intros createDocument_raises removeOrphan_raises split: create_document_result.split)
  show ?thesis
    unfolding uploadDocument_def Let_def using assms
    by (auto intro!: raises_intros stored upload_public dest: ownCase_public split: option.split)
qed

lemma createDownloadUrl_raises: "raises (public_exn cfg) (createDownloadUrl opts now cur i j)"
  by (rule raisesI)
    (auto simp: createDownloadUrl_def createDownloadUrl_store_def upload_public bindE_def
      dest: ownCase_public split: sum.splits option.splits if_splits)

lemma readDocumentOcr_raises: "raises (public_exn cfg) (readDocumentOcr during cur i j)"
  by (rule raisesI)
    (auto simp: readDocumentOcr_def dest: ownCase_public split: sum.splits option.splits prod.splits)

lemma assert_public:
  "assertCanReprocess cur = Inl e \<Longrightarrow> public_exn cfg e"
  "assertCanReprocessOcr cur = Inl e \<Longrightarrow> public_exn cfg e"
  by (auto simp: assertCanReprocess_def assertCanReprocessOcr_def split: if_splits)

lemma send_request_raises:
  "raises (public_exn cfg) (requestReprocess_repo sent now input)"
  "raises (public_exn cfg) (requestOcrReprocess_repo sent now input)"
  unfolding requestReprocess_repo_def requestOcrReprocess_repo_def enqueueDocumentReprocess_def
    enqueueDocumentOcrReprocess_def
  by (intro raises_transaction raisesI, blast dest: raisesD [OF boss_send_raises])+

lemma requestReprocess_raises:
  "raises (public_exn cfg) (requestReprocess sent now cur i reason ctx)"
  "raises (public_exn cfg) (requestOcrReprocess sent now cur i reason ctx)"
  by (rule raisesI, auto simp: requestReprocess_def requestOcrReprocess_def upload_public
      dest: assert_public raisesD [OF send_request_raises(1)] raisesD [OF send_request_raises(2)]
      split: sum.splits option.splits if_splits)+

lemmas service_raises = currentUser_raises register_raises login_raises logout_raises
  readOwnProfile_raises listOwnSessions_raises rotateSession_service_raises verifyEmail_raises
  resetPassword_raises resend_raises forgot_raises revokeOwnSession_raises logoutAll_raises
  rotateCsrf_raises createCase_raises uploadDocument_raises createDownloadUrl_raises
  readDocumentOcr_raises requestReprocess_raises

section \<open>The routes\<close>

lemma guards_public:
  "requireSameOrigin cfg req = Inl e \<Longrightarrow> public_exn cfg' e"
  "requireCsrf cfg req x = Inl e \<Longrightarrow> public_exn cfg' e"
  by (auto simp: requireSameOrigin_def requireCsrf_def split: if_splits sum.splits)

lemma current_raises: "plain_faults (re_calls re) \<Longrightarrow> raises (public_failure cfg) (current acfg re n req)"
  unfolding current_def by (intro raises_intros currentUser_raises)

lemma requireCurrentUser_raises:
  "plain_faults (re_calls re) \<Longrightarrow> raises (public_failure cfg) (requireCurrentUser acfg re req)"
  unfolding requireCurrentUser_def
  by (auto intro!: raises_intros current_raises split: option.split)

lemma acting_user_raises:
  "plain_faults (re_calls re) \<Longrightarrow> raises (public_failure cfg) (acting_user acfg re req)"
  unfolding acting_user_def
  by (auto intro!: raises_intros requireCurrentUser_raises dest: guards_public)

lemma csrf_route_raises:
  "plain_faults (re_calls re) \<Longrightarrow> raises (public_failure cfg) (csrf_route cfg re req)"
  unfolding csrf_route_def Let_def
  by (auto intro!: raises_intros requireCurrentUser_raises service_raises)

lemma logout_route_raises:
  "plain_faults (re_calls re) \<Longrightarrow> raises (public_failure cfg) (logout_route cfg re req)"
  unfolding logout_route_def requireCsrfIfSessionValid_def
  by (auto intro!: raises_intros current_raises service_raises dest: guards_public split: option.split)

lemma public_routes_raise:
  assumes "plain_faults (re_calls re)"
  shows "raises (public_failure cfg) (register_route cfg re req)"
    and "raises (public_failure cfg) (login_route cfg re req)"
    and "raises (public_failure cfg) (verify_email_route cfg re req)"
    and "raises (public_failure cfg) (forgot_route cfg re req)"
    and "raises (public_failure cfg) (reset_route cfg re req)"
    and "raises (public_failure cfg) (me_route cfg re req)"
    and "raises (public_failure cfg) (sessions_route cfg re req)"
  unfolding register_route_def login_route_def verify_email_route_def forgot_route_def reset_route_def
    me_route_def sessions_route_def
  using assms
  by (auto intro!: raises_intros service_raises dest: guards_public split: prod.split)

lemma session_routes_raise:
  assumes "plain_faults (re_calls re)"
  shows "raises (public_failure cfg) (resend_route cfg re req)"
    and "raises (public_failure cfg) (rotate_route cfg re req)"
    and "raises (public_failure cfg) (logout_all_route cfg re req)"
    and "raises (public_failure cfg) (revoke_session_route cfg re req)"
    and "raises (public_failure cfg) (create_case_route cfg re req)"
    and "raises (public_failure cfg) (reprocess_route cfg re req)"
    and "raises (public_failure cfg) (ocr_reprocess_route cfg re req)"
  unfolding resend_route_def rotate_route_def logout_all_route_def revoke_session_route_def
    create_case_route_def reprocess_route_def ocr_reprocess_route_def
  using assms
  by (auto intro!: raises_intros acting_user_raises service_raises dest: assert_public)

lemma reading_routes_raise:
  assumes "plain_faults (re_calls re)"
  shows "raises (public_failure cfg) (list_cases_route cfg re req)"
    and "raises (public_failure cfg) (read_case_route cfg re req)"
    and "raises (public_failure cfg) (list_documents_route cfg re req)"
    and "raises (public_failure cfg) (download_route cfg re req)"
    and "raises (public_failure cfg) (ocr_route cfg re req)"
  unfolding list_cases_route_def read_case_route_def list_documents_route_def download_route_def ocr_route_def
  using assms
  by (auto intro!: raises_intros requireCurrentUser_raises service_raises
      dest: cases_queries_public split: prod.split)

lemma upload_route_raises:
  assumes "plain_faults (re_calls re)" and "plain_faults (re_upload re)"
  shows "raises (public_failure cfg) (upload_route cfg re req)"
  unfolding upload_route_def
  using assms
  by (auto intro!: raises_intros acting_user_raises service_raises dest: public_fileName split: body.split)

lemma route_raises:
  assumes "plain_faults (re_calls re)" and "plain_faults (re_upload re)"
  shows "raises (public_failure cfg) (route cfg re e req)"
  using assms
  by (cases e)
    (auto intro!: raises_return csrf_route_raises logout_route_raises public_routes_raise
      session_routes_raise reading_routes_raise upload_route_raises)

section \<open>What a route answers when it does not throw\<close>

definition returns :: "('a \<Rightarrow> bool) \<Rightarrow> ('s, 'e, 'a) prog \<Rightarrow> bool" where
  "returns Q m \<longleftrightarrow> (\<forall>s x. fst (m s) = Inr x \<longrightarrow> Q x)"

definition fine :: "reply \<Rightarrow> bool" where
  "fine r \<longleftrightarrow> rp_status r < 400 \<and> (\<forall>ae. rp_body r \<noteq> B_error ae)"

lemma returns_return: "Q x \<Longrightarrow> returns Q (returnE x)"
  by (simp add: returns_def)

lemma returns_bind: "(\<And>x. returns Q (f x)) \<Longrightarrow> returns Q (bindE m f)"
  by (auto simp: returns_def bindE_def split: prod.splits sum.splits)

lemma returns_body: "returns Q h \<Longrightarrow> returns Q (with_body req h)"
  by (auto simp: returns_def with_body_def split: body.splits)

lemma returns_parsed: "(\<And>x. returns Q (h x)) \<Longrightarrow> returns Q (parsed cfg schema req p h)"
  by (auto simp: returns_def parsed_def throwH_def split: option.splits)

lemma returns_found: "(\<And>x. returns Q (h x)) \<Longrightarrow> returns Q (found p h)"
  by (auto simp: returns_def found_def throwH_def split: option.splits)

lemma returns_throw: "returns Q (throwH e)"
  by (simp add: returns_def throwH_def)

lemmas returns_intros = returns_return returns_bind returns_body returns_parsed returns_found returns_throw

lemma fine_answers [simp]:
  "st < 400 \<Longrightarrow> (\<And>ae. b \<noteq> B_error ae) \<Longrightarrow> fine (answer st b)"
  "fine (setCsrfCookie t r) = fine r" "fine (setSessionCookies t u r) = fine r"
  "fine (clearSessionCookies r) = fine r" "fine (no_store r) = fine r"
  by (simp_all add: fine_def answer_def setCsrfCookie_def setSessionCookies_def clearSessionCookies_def no_store_def)

lemma auth_routes_fine:
  "returns fine (csrf_route cfg re req)" "returns fine (register_route cfg re req)"
  "returns fine (login_route cfg re req)" "returns fine (me_route cfg re req)"
  "returns fine (sessions_route cfg re req)" "returns fine (logout_route cfg re req)"
  "returns fine (verify_email_route cfg re req)" "returns fine (resend_route cfg re req)"
  "returns fine (forgot_route cfg re req)" "returns fine (reset_route cfg re req)"
  "returns fine (rotate_route cfg re req)" "returns fine (logout_all_route cfg re req)"
  "returns fine (revoke_session_route cfg re req)"
  unfolding csrf_route_def register_route_def login_route_def me_route_def sessions_route_def
    logout_route_def verify_email_route_def resend_route_def forgot_route_def reset_route_def
    rotate_route_def logout_all_route_def revoke_session_route_def Let_def
  by (auto intro!: returns_intros split: prod.split option.split)

lemma other_routes_fine:
  "returns fine (create_case_route cfg re req)" "returns fine (list_cases_route cfg re req)"
  "returns fine (read_case_route cfg re req)" "returns fine (upload_route cfg re req)"
  "returns fine (list_documents_route cfg re req)" "returns fine (download_route cfg re req)"
  "returns fine (ocr_route cfg re req)" "returns fine (reprocess_route cfg re req)"
  "returns fine (ocr_reprocess_route cfg re req)"
  unfolding create_case_route_def list_cases_route_def read_case_route_def upload_route_def
    list_documents_route_def download_route_def ocr_route_def reprocess_route_def ocr_reprocess_route_def
  by (auto intro!: returns_intros split: prod.split body.split)

lemma route_fine:
  "e \<noteq> GET_ready False \<Longrightarrow> e \<noteq> Unknown_route \<Longrightarrow> returns fine (route cfg re e req)"
proof (cases e)
  case (GET_ready up)
  then show "e \<noteq> GET_ready False \<Longrightarrow> ?thesis"
    by (auto simp: ready_route_def intro!: returns_return)
qed (auto simp: live_route_def auth_routes_fine other_routes_fine intro!: returns_return)

section \<open>The property\<close>

definition error_ok :: "api_cfg \<Rightarrow> request \<Rightarrow> reply \<Rightarrow> bool" where
  "error_ok cfg req r \<longleftrightarrow> (\<exists>ae. rp_body r = B_error ae \<and>
     (rp_status r, ae_code ae, ae_message ae) \<in> set PUBLIC_ERRORS \<and> ae_requestId ae = rq_id req \<and>
     public_details cfg (ae_details ae))"

lemma known_public: "KNOWN st = Some (c, m) \<Longrightarrow> (st, c, m) \<in> set PUBLIC_ERRORS"
  by (auto simp: KNOWN.simps PUBLIC_ERRORS_def split: if_splits)

lemma internal_public: "(500, fst INTERNAL, snd INTERNAL) \<in> set PUBLIC_ERRORS"
  by code_simp

lemma handler_ok:
  assumes "public_failure cfg f"
  shows "error_ok cfg req (error_handler req f)"
proof (cases "\<exists>h. f = Thrown (HttpError h)")
  case True
  then obtain h where "f = Thrown (HttpError h)" "public_http cfg h"
    using assms by (auto simp: public_failure_def public_exn_def)
  then show ?thesis
    by (auto simp: error_handler_def error_ok_def error_body_def public_http_def error_key_def)
next
  case False
  then have "error_handler req f = (case KNOWN (statusCodeOf f) of
      Some known \<Rightarrow> answer (statusCodeOf f) (error_body (rq_id req) known [])
    | None \<Rightarrow> answer 500 (error_body (rq_id req) INTERNAL []))"
    by (auto simp: error_handler_def Let_def split: failure.split exn.split)
  then show ?thesis
    using known_public internal_public
    by (auto simp: error_ok_def answer_def error_body_def public_details_def split: option.splits)
qed

text \<open>
  C8. No error tells more than it should. Whatever the route, the request and the state, and
  whatever the database, the storage or the framework threw, an answer is either a success without
  an error, the health check's 503, or one of the fixed errors, with its status, code and text from
  a closed list, the identifier of the request, and details that are empty, name the header of the
  file name or are the issues of a refused body.
\<close>

theorem error_answers_public:
  assumes "plain_faults (re_calls re)" and "plain_faults (re_upload re)"
  shows "fine (fst (serve cfg re e req s)) \<or> error_ok cfg req (fst (serve cfg re e req s)) \<or>
    (e = GET_ready False \<and> rp_status (fst (serve cfg re e req s)) = 503 \<and>
     rp_body (fst (serve cfg re e req s)) = B_health False)"
proof -
  obtain r s' where run: "route cfg re e req s = (r, s')" by fastforce
  show ?thesis
  proof (cases r)
    case (Inl f)
    then have "public_failure cfg f" using raisesD [OF route_raises [OF assms]] run by blast
    with Inl run show ?thesis
      using handler_ok [of cfg f req] by (simp add: serve_def respond_def on_send_def error_ok_def)
  next
    case (Inr x)
    consider "e = GET_ready False" | "e = Unknown_route" | "returns fine (route cfg re e req)"
      using route_fine by blast
    then show ?thesis
    proof cases
      case 1
      with run show ?thesis
        by (auto simp: serve_def respond_def on_send_def ready_route_def answer_def)
    next
      case 2
      have "(404, NOT_FOUND, ''Recurso no encontrado.'') \<in> set PUBLIC_ERRORS" by code_simp
      with 2 run show ?thesis
        by (auto simp: serve_def respond_def on_send_def not_found_handler_def answer_def error_ok_def
            error_body_def public_details_def)
    next
      case 3
      with run Inr have "fine x" by (auto simp: returns_def) (metis fst_conv)
      with run Inr show ?thesis by (simp add: serve_def respond_def on_send_def fine_def)
    qed
  qed
qed

text \<open>A failure of the database with a text of its own, and what the client is told.\<close>

definition failing_env :: request_env where
  "failing_env = web_env\<lparr>re_calls := calm\<lparr>ce_fault := (\<lambda>_. Some (Fails_before (Error ''SELECT * FROM users'')))\<rparr>\<rparr>"

theorem error_answers_public_witness:
  "error_ok web_cfg (case_request (One ''https://app.co'') (One ''C''))
     (fst (serve web_cfg failing_env POST_case (case_request (One ''https://app.co'') (One ''C'')) after_login)) \<and>
   rp_body (fst (serve web_cfg failing_env POST_case (case_request (One ''https://app.co'') (One ''C'')) after_login))
     = B_error \<lparr>ae_code = INTERNAL_ERROR, ae_message = ''Error interno.'', ae_details = [], ae_requestId = ''r1''\<rparr>"
proof -
  have plain: "plain_faults (re_calls failing_env)" "plain_faults (re_upload failing_env)"
    by (simp_all add: failing_env_def plain_faults_def web_env_def calm_def is_http_error_def)
  have body: "rp_body (fst (serve web_cfg failing_env POST_case (case_request (One ''https://app.co'') (One ''C'')) after_login))
     = B_error \<lparr>ae_code = INTERNAL_ERROR, ae_message = ''Error interno.'', ae_details = [], ae_requestId = ''r1''\<rparr>"
    by code_simp
  then show ?thesis
    using error_answers_public [OF plain, of web_cfg POST_case] unfolding fine_def by blast
qed

end
