(* ===== verification/Numbers.thy ===== *)
theory Numbers
  imports Net
begin

text \<open>
  \<open>Number(s)\<close> of a text, as ECMAScript defines it: the literals it accepts and the rounding of
  their value to a double. The configuration (apps/api/src/config/env.ts,
  apps/worker/src/config.ts) and the guard of the uploads (apps/web/src/config/upload-guard.ts)
  read numbers this way. Texts are limited to code units below 256.
\<close>

section \<open>Doubles\<close>

text \<open>A finite double is \<open>m * 2^e\<close>; the sign of a zero is not kept.\<close>

datatype js_number = NaN | Infinite bool | Finite int int

fun bit_length :: "nat \<Rightarrow> nat" where
  "bit_length n = (if n = 0 then 0 else Suc (bit_length (n div 2)))"

declare bit_length.simps [simp del]

text \<open>The integer nearest to \<open>a / b\<close>, the even one of two.\<close>

definition nearest :: "nat \<Rightarrow> nat \<Rightarrow> nat" where
  "nearest a b =
    (let q = a div b; r = a mod b
     in if 2 * r > b \<or> (2 * r = b \<and> odd q) then q + 1 else q)"

text \<open>The double nearest to \<open>a / b\<close>: 53 bits, the least exponent is -1074.\<close>

definition scaled :: "nat \<Rightarrow> nat \<Rightarrow> int \<Rightarrow> nat \<times> nat" where
  "scaled a b e = (if e \<ge> 0 then (a, b * 2 ^ nat e) else (a * 2 ^ nat (- e), b))"

definition double_of_ratio :: "nat \<Rightarrow> nat \<Rightarrow> js_number" where
  "double_of_ratio a b =
    (if a = 0 then Finite 0 0
     else
       let e0 = int (bit_length a) - int (bit_length b) - 53;
           (a0, b0) = scaled a b e0;
           e1 = (if a0 \<ge> 2 ^ 53 * b0 then e0 + 1 else e0);
           e = max e1 (- 1074);
           (a1, b1) = scaled a b e;
           q = nearest a1 b1
       in if e \<ge> 0 \<and> q * 2 ^ nat e \<ge> 2 ^ 1024 then Infinite False else Finite (int q) e)"

fun negated :: "js_number \<Rightarrow> js_number" where
  "negated NaN = NaN"
| "negated (Infinite s) = Infinite (\<not> s)"
| "negated (Finite m e) = Finite (- m) e"

text \<open>\<open>Number.isInteger\<close>, with the integer.\<close>

fun integer_value :: "js_number \<Rightarrow> int option" where
  "integer_value (Finite m e) =
    (if e \<ge> 0 then Some (m * 2 ^ nat e)
     else if m mod 2 ^ nat (- e) = 0 then Some (m div 2 ^ nat (- e)) else None)"
| "integer_value _ = None"

text \<open>\<open>x <= n\<close> for an integer.\<close>

fun at_most :: "js_number \<Rightarrow> int \<Rightarrow> bool" where
  "at_most NaN n \<longleftrightarrow> False"
| "at_most (Infinite negative) n \<longleftrightarrow> negative"
| "at_most (Finite m e) n \<longleftrightarrow> (if e \<ge> 0 then m * 2 ^ nat e \<le> n else m \<le> n * 2 ^ nat (- e))"

definition is_finite :: "js_number \<Rightarrow> bool" where
  "is_finite x = (case x of Finite _ _ \<Rightarrow> True | _ \<Rightarrow> False)"

section \<open>Literals\<close>

text \<open>A non-empty text of digits of a base.\<close>

definition digit_below :: "nat \<Rightarrow> char \<Rightarrow> bool" where
  "digit_below base c \<longleftrightarrow> (case hex_digit c of Some d \<Rightarrow> d < base | None \<Rightarrow> False)"

definition based_literal :: "nat \<Rightarrow> string \<Rightarrow> js_number" where
  "based_literal base s =
    (if s \<noteq> [] \<and> list_all (digit_below base) s
     then double_of_ratio (foldl (\<lambda>acc c. base * acc + the (hex_digit c)) 0 s) 1
     else NaN)"

text \<open>The exponent part of a decimal literal: nothing, or \<open>e\<close>, a sign and digits.\<close>

definition exponent_part :: "string \<Rightarrow> int option" where
  "exponent_part s =
    (case s of
       [] \<Rightarrow> Some 0
     | c # rest \<Rightarrow>
         if c \<noteq> CHR ''e'' \<and> c \<noteq> CHR ''E'' then None
         else
           let negative = (rest \<noteq> [] \<and> hd rest = CHR ''-'');
               ds = (if rest \<noteq> [] \<and> (hd rest = CHR ''-'' \<or> hd rest = CHR ''+'') then tl rest else rest)
           in if ds = [] \<or> \<not> list_all is_digit ds then None
              else Some (if negative then - int (number_of_digits ds) else int (number_of_digits ds)))"

definition decimal_value :: "nat \<Rightarrow> int \<Rightarrow> js_number" where
  "decimal_value m x =
    (if x \<ge> 0 then double_of_ratio (m * 10 ^ nat x) 1 else double_of_ratio m (10 ^ nat (- x)))"

definition unsigned_literal :: "string \<Rightarrow> js_number" where
  "unsigned_literal s =
    (if s = ''Infinity'' then Infinite False
     else
       let whole = takeWhile is_digit s; after = dropWhile is_digit s;
           dotted = (after \<noteq> [] \<and> hd after = CHR ''.'');
           frac = (if dotted then takeWhile is_digit (tl after) else []);
           rest = (if dotted then dropWhile is_digit (tl after) else after)
       in if whole = [] \<and> frac = [] then NaN
          else (case exponent_part rest of
                  None \<Rightarrow> NaN
                | Some x \<Rightarrow> decimal_value (number_of_digits (whole @ frac)) (x - int (length frac))))"

definition js_Number :: "string \<Rightarrow> js_number" where
  "js_Number text0 =
    (case js_trim text0 of
       [] \<Rightarrow> Finite 0 0
     | c # s \<Rightarrow>
         if c = CHR ''+'' then unsigned_literal s
         else if c = CHR ''-'' then negated (unsigned_literal s)
         else if c = CHR ''0'' \<and> s \<noteq> [] \<and> hd s \<in> {CHR ''x'', CHR ''X''} then based_literal 16 (tl s)
         else if c = CHR ''0'' \<and> s \<noteq> [] \<and> hd s \<in> {CHR ''o'', CHR ''O''} then based_literal 8 (tl s)
         else if c = CHR ''0'' \<and> s \<noteq> [] \<and> hd s \<in> {CHR ''b'', CHR ''B''} then based_literal 2 (tl s)
         else unsigned_literal (c # s))"

section \<open>Integers\<close>

lemma bit_length_bounds: "n \<noteq> 0 \<Longrightarrow> 2 ^ (bit_length n - 1) \<le> n \<and> n < 2 ^ bit_length n"
proof (induction n rule: bit_length.induct)
  case (1 n)
  show ?case
  proof (cases "n div 2 = 0")
    case True
    then have "n = 1" using 1 by simp
    then show ?thesis by (simp add: bit_length.simps)
  next
    case False
    have IH: "2 ^ (bit_length (n div 2) - 1) \<le> n div 2" "n div 2 < 2 ^ bit_length (n div 2)"
      using 1 False by blast+
    have pos: "bit_length (n div 2) \<noteq> 0" using False by (simp add: bit_length.simps)
    have "bit_length n = Suc (bit_length (n div 2))" using 1 by (simp add: bit_length.simps)
    moreover have "2 ^ bit_length (n div 2) = (2::nat) * 2 ^ (bit_length (n div 2) - 1)"
      using pos by (metis power_eq_if)
    moreover define p :: nat where "p = 2 ^ (bit_length (n div 2) - 1)"
    ultimately have "p \<le> n div 2" "n div 2 < 2 * p" "2 ^ (bit_length n - 1) = 2 * p" "2 ^ bit_length n = 4 * p"
      using IH by simp_all
    moreover from this(1,2) have "2 * p \<le> n" "n < 4 * p" by presburger+
    ultimately show ?thesis by simp
  qed
qed

lemma bit_length_le: "n < 2 ^ k \<Longrightarrow> bit_length n \<le> k"
proof (cases "n = 0")
  case False
  assume "n < 2 ^ k"
  with bit_length_bounds [OF False] have "(2::nat) ^ (bit_length n - 1) < 2 ^ k" by linarith
  then have "bit_length n - 1 < k" by simp
  then show ?thesis by simp
qed (simp add: bit_length.simps)

lemma nearest_exact: "b \<noteq> 0 \<Longrightarrow> nearest (q * b) b = q"
  by (simp add: nearest_def)

lemma scaled_down: "scaled a b (- int k) = (a * 2 ^ k, b)"
  by (cases "k = 0") (simp_all add: scaled_def)

lemma decimal_is_exact: "decimal_value n 0 = double_of_ratio n 1"
  by (simp add: decimal_value_def)

text \<open>An integer of at most 53 bits is exact.\<close>

lemma double_of_integer:
  assumes "n < 2 ^ 53"
  shows "integer_value (double_of_ratio n 1) = Some (int n)"
proof (cases "n = 0")
  case False
  let ?k = "53 - bit_length n"
  have le: "bit_length n \<le> 53" by (rule bit_length_le [OF assms])
  have one: "bit_length 1 = 1" by (simp add: bit_length.simps)
  have big: "2 ^ 53 \<le> n * 2 ^ (Suc ?k)"
  proof -
    have "(2::nat) ^ 53 = 2 ^ (bit_length n - 1) * 2 ^ (Suc ?k)"
    proof -
      have "bit_length n \<noteq> 0" using False by (simp add: bit_length.simps)
      then have "bit_length n - 1 + Suc ?k = 53" using le by linarith
      then show ?thesis by (metis power_add)
    qed
    also have "\<dots> \<le> n * 2 ^ (Suc ?k)"
      using bit_length_bounds [OF False] by (intro mult_right_mono) auto
    finally show ?thesis .
  qed
  have e0: "int (bit_length n) - int (bit_length 1) - 53 = - int (Suc ?k)"
    using le one by linarith
  have e1: "max (- int (Suc ?k) + 1) (- 1074) = - int ?k" using le by linarith
  have sc: "scaled n 1 (- int (Suc ?k)) = (n * 2 ^ Suc ?k, 1)" by (rule scaled_down)
  have sc1: "scaled n 1 (- int ?k) = (n * 2 ^ ?k, 1)" by (rule scaled_down)
  have "double_of_ratio n 1 = (if - int ?k \<ge> 0 \<and> n * 2 ^ ?k * 2 ^ nat (- int ?k) \<ge> 2 ^ 1024
      then Infinite False else Finite (int (n * 2 ^ ?k)) (- int ?k))"
    using False big nearest_exact [of 1 "n * 2 ^ ?k"]
    unfolding double_of_ratio_def Let_def e0 sc
    by (simp only: e1 sc1 Let_def prod.case if_True mult_1_right if_False)
  also have "\<dots> = Finite (int (n * 2 ^ ?k)) (- int ?k)"
  proof (cases "?k = 0")
    case True
    have "n < 2 ^ 1024" using assms by (rule order.strict_trans) simp
    then show ?thesis using True by simp
  qed simp
  finally have "integer_value (double_of_ratio n 1) =
      integer_value (Finite (int n * 2 ^ ?k) (- int ?k))"
    by (simp only: of_nat_mult of_nat_power of_nat_numeral)
  also have "\<dots> = Some (int n)"
    by (cases "?k = 0") (simp_all del: of_nat_diff)
  finally show ?thesis .
qed (simp add: double_of_ratio_def)

lemma digits_snoc: "number_of_digits (s @ [c]) = 10 * number_of_digits s + (of_char c - 48)"
  by (simp add: number_of_digits_def)

lemma decimal_digit: "n < 10 \<Longrightarrow> is_digit (char_of (48 + n :: nat))"
  by (simp add: is_digit_def)

lemma decimal_digits: "list_all is_digit (decimal n) \<and> decimal n \<noteq> [] \<and> number_of_digits (decimal n) = n"
proof (induction n rule: decimal.induct)
  case (1 n)
  then show ?case
    using decimal_digit [of "n mod 10"]
    by (cases "n < 10") (simp_all add: decimal.simps [of n] digits_snoc decimal_digit number_of_digits_def)
qed

lemma not_white_digit: "is_digit c \<Longrightarrow> \<not> js_space c"
  by (auto simp: is_digit_def js_space_def Let_def)

lemma trim_digits: "list_all is_digit s \<Longrightarrow> js_trim s = s"
proof -
  assume digits: "list_all is_digit s"
  have keep: "list_all is_digit t \<Longrightarrow> dropWhile js_space t = t" for t
    by (cases t) (auto simp: not_white_digit)
  show ?thesis using digits by (simp add: js_trim_def keep)
qed

text \<open>The number of a text of decimal digits without a leading zero is the one it writes.\<close>

lemma js_Number_digits:
  assumes "list_all is_digit s" and "s \<noteq> []" and "number_of_digits s < 2 ^ 53"
  shows "integer_value (js_Number s) = Some (int (number_of_digits s))"
proof -
  obtain c t where s: "s = c # t" using assms(2) by (cases s) auto
  have c: "is_digit c" using assms(1) s by simp
  have t: "t \<noteq> [] \<Longrightarrow> is_digit (hd t)" using assms(1) s by (cases t) auto
  have sign: "c \<noteq> CHR ''+''" "c \<noteq> CHR ''-''" "c \<noteq> CHR ''I''"
    using c by (auto simp: is_digit_def Let_def)
  have letter: "t \<noteq> [] \<Longrightarrow> hd t \<notin> {CHR ''x'', CHR ''X''} \<union> {CHR ''o'', CHR ''O''} \<union> {CHR ''b'', CHR ''B''}"
    using t by (auto simp: is_digit_def Let_def)
  have all: "takeWhile is_digit s = s" "dropWhile is_digit s = []"
    using assms(1) by (simp_all add: list_all_iff)
  have "js_Number s = unsigned_literal s"
    using sign letter trim_digits [OF assms(1)] s by (auto simp: js_Number_def)
  moreover have name: "s \<noteq> ''Infinity''" using s sign by auto
  moreover have "unsigned_literal s = double_of_ratio (number_of_digits s) 1"
    using assms(2) name by (simp add: unsigned_literal_def Let_def exponent_part_def decimal_is_exact all)
  ultimately show ?thesis using double_of_integer [OF assms(3)] by simp
qed

lemma js_Number_decimal: "n < 2 ^ 53 \<Longrightarrow> integer_value (js_Number (decimal n)) = Some (int n)"
  using js_Number_digits [of "decimal n"] decimal_digits [of n] by simp

text \<open>An integer compares as itself.\<close>

lemma at_most_integer: "integer_value x = Some k \<Longrightarrow> at_most x n \<longleftrightarrow> k \<le> n"
proof (cases x)
  case (Finite m e)
  assume k: "integer_value x = Some k"
  show ?thesis
  proof (cases "e \<ge> 0")
    case False
    then have m: "m = k * 2 ^ nat (- e)"
      using k Finite by (auto split: if_splits)
    then show ?thesis using Finite False by simp
  qed (use k Finite in auto)
qed auto

text \<open>Literals as JavaScript reads them.\<close>

lemma bit_length_numeral:
  "bit_length 0 = 0" "bit_length (Suc 0) = 1" "bit_length (numeral k) = Suc (bit_length (numeral k div 2))"
  by (subst bit_length.simps, simp)+

lemmas number_simps = js_Number_def js_trim_def js_space_def unsigned_literal_def exponent_part_def
  is_digit_def number_of_digits_def decimal_value_def double_of_ratio_def scaled_def nearest_def
  bit_length_numeral based_literal_def digit_below_def hex_digit_def
lemma js_Number_samples:
  "integer_value (js_Number '' 4000 '') = Some 4000"
  "integer_value (js_Number ''1e3'') = Some 1000"
  "integer_value (js_Number ''0x1F'') = Some 31"
  "integer_value (js_Number ''1.5'') = None"
  "integer_value (js_Number ''12.50e2'') = Some 1250"
  "js_Number ''12a'' = NaN" "js_Number ''1e'' = NaN"
  "integer_value (js_Number '''') = Some 0" "integer_value (js_Number ''-5'') = Some (- 5)"
  "js_Number ''0x'' = NaN" "js_Number ''-Infinity'' = Infinite True"
  "integer_value (js_Number ''4000.00000000000000001'') = Some 4000"
  "integer_value (js_Number ''9007199254740993'') = Some 9007199254740992"
  by (simp_all add: number_simps)

end
