(* ===== verification/Config.thy ===== *)
theory Config
  imports Numbers Routes Worker_Queue
begin

text \<open>
  The configuration of the two processes: apps/api/src/config/env.ts, apps/worker/src/config.ts,
  packages/storage/src/storage-env.ts, and how apps/api/src/server.ts and apps/worker/src/main.ts
  hand its values to the services and the jobs. zod is a library: the checks the schemas name are
  written out here, the text of its own messages and its check of a URL are parameters.
\<close>

section \<open>Checks\<close>

text \<open>What a check reports; \<open>Custom\<close> is a message the schema gives itself.\<close>

datatype issue =
    Missing
  | Not_an_option string
  | Not_a_number
  | Not_an_integer
  | Below int
  | Above int
  | Empty_text
  | Not_a_url
  | Custom string

record zod =
  z_url :: "string \<Rightarrow> bool"
  z_origin :: "string \<Rightarrow> string option"
  z_text :: "issue \<Rightarrow> string"

type_synonym environment = "string \<Rightarrow> string option"

text \<open>The issues of a value, and the value unless the check gave it up.\<close>

type_synonym 'a checked = "issue list \<times> 'a option"

definition string_min1 :: "string option \<Rightarrow> string checked" where
  "string_min1 v =
    (case v of None \<Rightarrow> ([Missing], None) | Some s \<Rightarrow> (if s = [] then [Empty_text] else [], Some s))"

definition one_of :: "string list \<Rightarrow> string option \<Rightarrow> string checked" where
  "one_of options v =
    (case v of
       None \<Rightarrow> ([Missing], None)
     | Some s \<Rightarrow> if s \<in> set options then ([], Some s) else ([Not_an_option s], None))"

text \<open>\<open>z.coerce.number().int().min(least).max(most)\<close>: only a value that is no number is given up.\<close>

definition integer_between :: "int \<Rightarrow> int \<Rightarrow> string option \<Rightarrow> js_number checked" where
  "integer_between least most v =
    (case v of
       None \<Rightarrow> ([Not_a_number], None)
     | Some s \<Rightarrow>
         let x = js_Number s
         in if x = NaN then ([Not_a_number], None)
            else ((if integer_value x = None then [Not_an_integer] else []) @
                  (if at_most (negated x) (- least) then [] else [Below least]) @
                  (if at_most x most then [] else [Above most]), Some x))"

definition with_default :: "'a \<Rightarrow> (string option \<Rightarrow> 'a checked) \<Rightarrow> string option \<Rightarrow> 'a checked" where
  "with_default d c v = (case v of None \<Rightarrow> ([], Some d) | Some s \<Rightarrow> c (Some s))"

definition optional :: "(string option \<Rightarrow> 'a checked) \<Rightarrow> string option \<Rightarrow> 'a option checked" where
  "optional c v =
    (case v of None \<Rightarrow> ([], Some None) | Some s \<Rightarrow> (case c (Some s) of (is', x) \<Rightarrow> (is', map_option Some x)))"

definition custom_text :: "string \<Rightarrow> 'a checked \<Rightarrow> 'a checked" where
  "custom_text m c = (case c of (is', x) \<Rightarrow> (map (\<lambda>_. Custom m) is', x))"

definition in_range :: "int \<Rightarrow> int \<Rightarrow> int \<Rightarrow> string option \<Rightarrow> js_number checked" where
  "in_range least most d = with_default (Finite d 0) (integer_between least most)"

text \<open>The integer of a number that passed its checks.\<close>

definition number_field :: "js_number checked \<Rightarrow> int" where
  "number_field c = (case snd c of Some x \<Rightarrow> (case integer_value x of Some k \<Rightarrow> k | None \<Rightarrow> 0) | None \<Rightarrow> 0)"

definition optional_field :: "js_number option checked \<Rightarrow> int option" where
  "optional_field c =
    (case snd c of Some (Some x) \<Rightarrow> Some (case integer_value x of Some k \<Rightarrow> k | None \<Rightarrow> 0) | _ \<Rightarrow> None)"

definition at_path :: "string \<Rightarrow> 'a checked \<Rightarrow> (string \<times> issue) list" where
  "at_path name c = map (Pair name) (fst c)"

definition issue_text :: "zod \<Rightarrow> issue \<Rightarrow> string" where
  "issue_text z i = (case i of Custom m \<Rightarrow> m | _ \<Rightarrow> z_text z i)"

text \<open>The error of a refused configuration.\<close>

definition config_error :: "zod \<Rightarrow> string \<Rightarrow> (string \<times> issue) list \<Rightarrow> exn" where
  "config_error z prefix issues =
     Error (prefix @ joined ''; '' (map (\<lambda>(path, i). path @ '': '' @ issue_text z i) issues))"

definition accept :: "zod \<Rightarrow> string \<Rightarrow> (string \<times> issue) list \<Rightarrow> 'a \<Rightarrow> exn + 'a" where
  "accept z prefix issues v = (if issues \<noteq> [] then Inl (config_error z prefix issues) else Inr v)"

lemma accept_Inr: "accept z prefix issues v = Inr e \<longleftrightarrow> issues = [] \<and> e = v"
  by (auto simp: accept_def)

section \<open>The API (env.ts, server.ts)\<close>

record env =
  NODE_ENV :: string
  API_HOST :: string
  API_PORT :: int
  LOG_LEVEL :: string
  APP_ORIGIN :: string
  DATABASE_URL :: string
  DOCUMENT_DOWNLOAD_URL_TTL_SECONDS :: int
  API_TRUST_PROXY :: "string list"

definition isBareOrigin :: "zod \<Rightarrow> string \<Rightarrow> bool" where
  "isBareOrigin z value' \<longleftrightarrow> z_origin z value' = Some value'"

definition origin_check :: "zod \<Rightarrow> string option \<Rightarrow> string checked" where
  "origin_check z v =
    (case v of
       None \<Rightarrow> ([Missing], None)
     | Some s \<Rightarrow>
         ((if z_url z s then [] else [Not_a_url]) @
          (if isBareOrigin z s then []
           else [Custom ''must be a bare origin (scheme://host[:port]) with no trailing slash, path, query or fragment'']),
          Some s))"

definition trust_proxy_check :: "string option \<Rightarrow> string list checked" where
  "trust_proxy_check v =
    (let entries = trust_proxy_entries (case v of Some s \<Rightarrow> s | None \<Rightarrow> '''')
     in ((if list_all isIpOrCidr entries then []
          else [Custom ''must be a comma-separated list of IP addresses or CIDR ranges'']) @
         (if \<not> list_ex (\<lambda>entry. isIpOrCidr entry \<and> isGlobalTrust entry) entries then []
          else [Custom ''must not trust every address (a /0 range or the IPv4-mapped ::ffff:0:0/96 range)'']),
         Some entries))"

definition NODE_ENVS :: "string list" where
  "NODE_ENVS = [''development'', ''test'', ''production'']"

definition loadEnv :: "zod \<Rightarrow> environment \<Rightarrow> exn + env" where
  "loadEnv z source =
    (let nodeEnv = one_of NODE_ENVS (source ''NODE_ENV'');
         host = with_default ''127.0.0.1'' string_min1 (source ''API_HOST'');
         port = in_range 1 65535 4000 (source ''API_PORT'');
         level = with_default ''info''
           (one_of [''fatal'', ''error'', ''warn'', ''info'', ''debug'', ''trace'', ''silent'']) (source ''LOG_LEVEL'');
         origin = origin_check z (source ''APP_ORIGIN'');
         database = string_min1 (source ''DATABASE_URL'');
         ttl = in_range 1 900 60 (source ''DOCUMENT_DOWNLOAD_URL_TTL_SECONDS'');
         trust = trust_proxy_check (source ''API_TRUST_PROXY'');
         issues = at_path ''NODE_ENV'' nodeEnv @ at_path ''API_HOST'' host @ at_path ''API_PORT'' port @
           at_path ''LOG_LEVEL'' level @ at_path ''APP_ORIGIN'' origin @ at_path ''DATABASE_URL'' database @
           at_path ''DOCUMENT_DOWNLOAD_URL_TTL_SECONDS'' ttl @ at_path ''API_TRUST_PROXY'' trust
     in accept z ''Invalid environment configuration: '' issues
       \<lparr>NODE_ENV = the (snd nodeEnv), API_HOST = the (snd host), API_PORT = number_field port,
               LOG_LEVEL = the (snd level), APP_ORIGIN = the (snd origin), DATABASE_URL = the (snd database),
               DOCUMENT_DOWNLOAD_URL_TTL_SECONDS = number_field ttl, API_TRUST_PROXY = the (snd trust)\<rparr>)"

text \<open>
  What server.ts and app.ts configure the routes with (None stands for an absent
  \<open>maxBytes\<close>), and the proxies Fastify trusts.
\<close>

definition configured_api :: "env \<Rightarrow> crypto \<Rightarrow> api_cfg \<Rightarrow> exn + api_cfg" where
  "configured_api e c library =
     (case new_documents_service None (DOCUMENT_DOWNLOAD_URL_TTL_SECONDS e) of
        Inl x \<Rightarrow> Inl x
      | Inr opts \<Rightarrow>
          Inr (library\<lparr>ac_appOrigin := APP_ORIGIN e, ac_crypto := c,
            ac_auth := default_auth_cfg (NODE_ENV e = ''production''), ac_documents := opts\<rparr>))"

definition trusted_proxies :: "env \<Rightarrow> string list option" where
  "trusted_proxies e = (if 0 < length (API_TRUST_PROXY e) then Some (API_TRUST_PROXY e) else None)"

section \<open>The storage (storage-env.ts)\<close>

record storage_env =
  STORAGE_BUCKET :: string
  STORAGE_REGION :: string
  STORAGE_ENDPOINT :: "string option"
  STORAGE_PUBLIC_ENDPOINT :: "string option"
  STORAGE_FORCE_PATH_STYLE :: bool
  STORAGE_ACCESS_KEY_ID :: "string option"
  STORAGE_SECRET_ACCESS_KEY :: "string option"

definition url_check :: "zod \<Rightarrow> string option \<Rightarrow> string checked" where
  "url_check z v =
    (case v of
       None \<Rightarrow> ([Missing], None)
     | Some s \<Rightarrow> if z_url z s then ([], Some s) else ([Not_a_url], Some s))"

text \<open>The refinement of the whole object is only run when no field was given up.\<close>

definition loadStorageEnv :: "zod \<Rightarrow> environment \<Rightarrow> exn + storage_env" where
  "loadStorageEnv z source =
    (let bucket = string_min1 (source ''STORAGE_BUCKET'');
         region = with_default ''us-east-1'' string_min1 (source ''STORAGE_REGION'');
         endpoint = optional (url_check z) (source ''STORAGE_ENDPOINT'');
         public = optional (url_check z) (source ''STORAGE_PUBLIC_ENDPOINT'');
         style = with_default ''false'' (one_of [''true'', ''false'']) (source ''STORAGE_FORCE_PATH_STYLE'');
         key = optional string_min1 (source ''STORAGE_ACCESS_KEY_ID'');
         secret = optional string_min1 (source ''STORAGE_SECRET_ACCESS_KEY'');
         own = at_path ''STORAGE_BUCKET'' bucket @ at_path ''STORAGE_REGION'' region @
           at_path ''STORAGE_ENDPOINT'' endpoint @ at_path ''STORAGE_PUBLIC_ENDPOINT'' public @
           at_path ''STORAGE_FORCE_PATH_STYLE'' style @ at_path ''STORAGE_ACCESS_KEY_ID'' key @
           at_path ''STORAGE_SECRET_ACCESS_KEY'' secret;
         given_up = (snd bucket = None \<or> snd region = None \<or> snd endpoint = None \<or> snd public = None \<or>
           snd style = None \<or> snd key = None \<or> snd secret = None);
         set_to = (\<lambda>v. case v of Some (Some s) \<Rightarrow> s \<noteq> [] | _ \<Rightarrow> False);
         issues = own @
           (if given_up \<or> set_to (snd key) = set_to (snd secret) then []
            else [(''STORAGE_ACCESS_KEY_ID'',
                   Custom ''STORAGE_ACCESS_KEY_ID and STORAGE_SECRET_ACCESS_KEY must be set together'')])
     in accept z ''Invalid storage configuration: '' issues
       \<lparr>STORAGE_BUCKET = the (snd bucket), STORAGE_REGION = the (snd region),
               STORAGE_ENDPOINT = the (snd endpoint), STORAGE_PUBLIC_ENDPOINT = the (snd public),
               STORAGE_FORCE_PATH_STYLE = (the (snd style) = ''true''),
               STORAGE_ACCESS_KEY_ID = the (snd key), STORAGE_SECRET_ACCESS_KEY = the (snd secret)\<rparr>)"

section \<open>The worker (config.ts)\<close>

record worker_env =
  WORKER_NODE_ENV :: string
  WORKER_DATABASE_URL :: string
  CLAMAV_HOST :: string
  CLAMAV_PORT :: int
  CLAMAV_TIMEOUT_MS :: int
  SCAN_MAX_ATTEMPTS :: int
  SCAN_LEASE_SECONDS :: int
  SCAN_SWEEP_INTERVAL_SECONDS :: int
  OCR_ENABLED :: bool
  OCR_PDF_ENABLED :: bool
  OCR_PDF_P7_RESOLVED :: bool
  OCR_IMAGE_REPRESENTATION :: "ocr_representation option"
  OCR_MAX_ATTEMPTS :: "int option"
  OCR_LEASE_SECONDS :: "int option"
  OCR_RETRY_DELAY_SECONDS :: "int option"
  OCR_MAX_PAGES :: "int option"

definition flag :: "string option \<Rightarrow> bool checked" where
  "flag v = (case custom_text ''must be true or false''
       (with_default ''false'' (one_of [''true'', ''false'']) v) of
     (is', x) \<Rightarrow> (is', map_option (\<lambda>s. s = ''true'') x))"

fun representation_of :: "string \<Rightarrow> ocr_representation" where
  "representation_of s = (if s = ''ORIGINAL'' then ORIGINAL else SANITIZED)"

definition representation_check :: "string option \<Rightarrow> ocr_representation option checked" where
  "representation_check v = (case custom_text ''must be ORIGINAL or SANITIZED''
       (optional (one_of [''ORIGINAL'', ''SANITIZED'']) v) of
     (is', x) \<Rightarrow> (is', map_option (map_option representation_of) x))"

definition OCR_REQUIRED :: "string list" where
  "OCR_REQUIRED = [''OCR_IMAGE_REPRESENTATION'', ''OCR_MAX_ATTEMPTS'', ''OCR_LEASE_SECONDS'',
     ''OCR_RETRY_DELAY_SECONDS'', ''OCR_MAX_PAGES'']"

text \<open>\<open>superRefine\<close>: the values that come from the evaluation are required once the OCR is on.\<close>

definition missing_ocr :: "bool \<Rightarrow> environment \<Rightarrow> (string \<times> issue) list" where
  "missing_ocr enabled source =
    (if \<not> enabled then []
     else map (\<lambda>name. (name, Custom ''required when OCR_ENABLED=true (set from the provider evaluation)''))
       (filter (\<lambda>name. source name = None) OCR_REQUIRED))"

definition loadWorkerEnv :: "zod \<Rightarrow> environment \<Rightarrow> exn + worker_env" where
  "loadWorkerEnv z source =
    (let nodeEnv = one_of NODE_ENVS (source ''NODE_ENV'');
         database = string_min1 (source ''WORKER_DATABASE_URL'');
         host = with_default ''127.0.0.1'' string_min1 (source ''CLAMAV_HOST'');
         port = in_range 1 65535 3310 (source ''CLAMAV_PORT'');
         timeout_ms = in_range 1000 300000 60000 (source ''CLAMAV_TIMEOUT_MS'');
         attempts = in_range 1 20 5 (source ''SCAN_MAX_ATTEMPTS'');
         lease = in_range 60 3600 600 (source ''SCAN_LEASE_SECONDS'');
         interval = in_range 10 3600 60 (source ''SCAN_SWEEP_INTERVAL_SECONDS'');
         enabled = flag (source ''OCR_ENABLED'');
         pdf = flag (source ''OCR_PDF_ENABLED'');
         p7 = flag (source ''OCR_PDF_P7_RESOLVED'');
         representation = representation_check (source ''OCR_IMAGE_REPRESENTATION'');
         ocr_attempts = optional (integer_between 1 20) (source ''OCR_MAX_ATTEMPTS'');
         ocr_lease = optional (integer_between 60 3600) (source ''OCR_LEASE_SECONDS'');
         delay = optional (integer_between 1 3600) (source ''OCR_RETRY_DELAY_SECONDS'');
         pages = optional (integer_between 1 2000) (source ''OCR_MAX_PAGES'');
         own = at_path ''NODE_ENV'' nodeEnv @ at_path ''WORKER_DATABASE_URL'' database @
           at_path ''CLAMAV_HOST'' host @ at_path ''CLAMAV_PORT'' port @
           at_path ''CLAMAV_TIMEOUT_MS'' timeout_ms @ at_path ''SCAN_MAX_ATTEMPTS'' attempts @
           at_path ''SCAN_LEASE_SECONDS'' lease @ at_path ''SCAN_SWEEP_INTERVAL_SECONDS'' interval @
           at_path ''OCR_ENABLED'' enabled @ at_path ''OCR_PDF_ENABLED'' pdf @
           at_path ''OCR_PDF_P7_RESOLVED'' p7 @ at_path ''OCR_IMAGE_REPRESENTATION'' representation @
           at_path ''OCR_MAX_ATTEMPTS'' ocr_attempts @ at_path ''OCR_LEASE_SECONDS'' ocr_lease @
           at_path ''OCR_RETRY_DELAY_SECONDS'' delay @ at_path ''OCR_MAX_PAGES'' pages;
         given_up = (snd nodeEnv = None \<or> snd database = None \<or> snd host = None \<or> snd port = None \<or>
           snd timeout_ms = None \<or> snd attempts = None \<or> snd lease = None \<or> snd interval = None \<or>
           snd enabled = None \<or> snd pdf = None \<or> snd p7 = None \<or> snd representation = None \<or>
           snd ocr_attempts = None \<or> snd ocr_lease = None \<or> snd delay = None \<or> snd pages = None);
         issues = own @ (if given_up then [] else missing_ocr (the (snd enabled)) source)
     in accept z ''Invalid worker configuration: '' issues
       \<lparr>WORKER_NODE_ENV = the (snd nodeEnv), WORKER_DATABASE_URL = the (snd database),
               CLAMAV_HOST = the (snd host), CLAMAV_PORT = number_field port,
               CLAMAV_TIMEOUT_MS = number_field timeout_ms, SCAN_MAX_ATTEMPTS = number_field attempts,
               SCAN_LEASE_SECONDS = number_field lease, SCAN_SWEEP_INTERVAL_SECONDS = number_field interval,
               OCR_ENABLED = the (snd enabled), OCR_PDF_ENABLED = the (snd pdf),
               OCR_PDF_P7_RESOLVED = the (snd p7), OCR_IMAGE_REPRESENTATION = the (snd representation),
               OCR_MAX_ATTEMPTS = optional_field ocr_attempts, OCR_LEASE_SECONDS = optional_field ocr_lease,
               OCR_RETRY_DELAY_SECONDS = optional_field delay, OCR_MAX_PAGES = optional_field pages\<rparr>)"

section \<open>The worker's process (main.ts)\<close>

text \<open>
  No provider is chosen yet: \<open>ocrProvider\<close> is null. The definitions take the provider as
  whether it is external and its engine, to say what the code does once there is one.
\<close>

type_synonym configured_provider = "(bool \<times> string) option"

definition main_provider :: configured_provider where
  "main_provider = None"

definition worker_start :: "configured_provider \<Rightarrow> worker_env \<Rightarrow> db \<Rightarrow> exn + unit" where
  "worker_start provider e d =
    (if OCR_ENABLED e
     then assertOcrStartupPreconditions
       \<lparr>st_provider = map_option fst provider, st_pdfEnabled = OCR_PDF_ENABLED e,
        st_pdfP7Resolved = OCR_PDF_P7_RESOLVED e\<rparr> d
     else Inr ())"

definition main_sweep_options :: "worker_env \<Rightarrow> sweep_options" where
  "main_sweep_options e = \<lparr>so_leaseSeconds = SCAN_LEASE_SECONDS e, so_maxAttempts = SCAN_MAX_ATTEMPTS e\<rparr>"

definition main_ocr_sweep :: "configured_provider \<Rightarrow> worker_env \<Rightarrow> ocr_sweep_options option" where
  "main_ocr_sweep provider e =
    (if \<not> OCR_ENABLED e then None
     else case provider of
       None \<Rightarrow> None
     | Some (_, engine) \<Rightarrow>
         Some \<lparr>so_leaseSeconds = the (OCR_LEASE_SECONDS e), so_maxAttempts = the (OCR_MAX_ATTEMPTS e),
               so_engine = engine\<rparr>)"

definition main_scan_deps :: "worker_env \<Rightarrow> bool \<Rightarrow> (bytes \<Rightarrow> exn + scan_verdict) \<Rightarrow> scan_deps" where
  "main_scan_deps e sent antivirus =
    \<lparr>sd_ocr = (if OCR_ENABLED e then Some \<lparr>oa_pdfEnabled = OCR_PDF_ENABLED e, oa_sent = sent\<rparr> else None),
     sd_antivirus = antivirus, sd_maxAttempts = SCAN_MAX_ATTEMPTS e, sd_leaseSeconds = SCAN_LEASE_SECONDS e\<rparr>"

text \<open>The provider's calls, SHA-256 and NFC come with \<open>library\<close>.\<close>

definition main_ocr_deps :: "configured_provider \<Rightarrow> worker_env \<Rightarrow> ocr_deps \<Rightarrow> ocr_deps option" where
  "main_ocr_deps provider e library =
    (if \<not> OCR_ENABLED e then None
     else case provider of
       None \<Rightarrow> None
     | Some (external, engine) \<Rightarrow>
         Some (library\<lparr>od_engine := engine, od_imageRepresentation := the (OCR_IMAGE_REPRESENTATION e),
           od_pdfAllowed := (OCR_PDF_ENABLED e \<and> (\<not> external \<or> OCR_PDF_P7_RESOLVED e)),
           od_maxAttempts := the (OCR_MAX_ATTEMPTS e), od_leaseSeconds := the (OCR_LEASE_SECONDS e),
           od_maxPages := the (OCR_MAX_PAGES e), od_retryDelaySeconds := the (OCR_RETRY_DELAY_SECONDS e)\<rparr>))"

section \<open>What an accepted configuration holds\<close>

lemma at_path_Nil [simp]: "at_path name c = [] \<longleftrightarrow> fst c = []"
  by (simp add: at_path_def)

lemma at_least_integer: "integer_value x = Some k \<Longrightarrow> at_most (negated x) (- n) \<longleftrightarrow> n \<le> k"
proof (cases x)
  case (Finite m e)
  assume k: "integer_value x = Some k"
  then have "integer_value (negated x) = Some (- k)"
    using Finite by (auto split: if_splits simp: zmod_zminus1_eq_if zdiv_zminus1_eq_if)
  then show ?thesis using at_most_integer [of "negated x" "- k" "- n"] by simp
qed auto

lemma integer_between_ok:
  assumes "fst (integer_between least most v) = []"
  obtains s k where "v = Some s" and "snd (integer_between least most v) = Some (js_Number s)"
    and "integer_value (js_Number s) = Some k" and "least \<le> k" and "k \<le> most"
proof (cases v)
  case (Some s)
  obtain k where k: "integer_value (js_Number s) = Some k"
    using assms Some by (auto simp: integer_between_def Let_def split: if_splits)
  then show ?thesis
    using that [of s k] assms Some at_most_integer [OF k] at_least_integer [OF k]
    by (auto simp: integer_between_def Let_def split: if_splits)
qed (use assms in \<open>simp add: integer_between_def\<close>)

lemma in_range_ok:
  assumes "fst (in_range least most d v) = []" and "least \<le> d" and "d \<le> most"
  shows "least \<le> number_field (in_range least most d v) \<and> number_field (in_range least most d v) \<le> most"
proof (cases v)
  case None
  then show ?thesis using assms by (simp add: in_range_def with_default_def number_field_def)
next
  case (Some s)
  then have eq: "in_range least most d v = integer_between least most v"
    by (simp add: in_range_def with_default_def)
  from assms(1) show ?thesis
    unfolding eq by (rule integer_between_ok) (simp add: number_field_def)
qed

lemma optional_ok:
  assumes "fst (optional (integer_between least most) v) = []"
  shows "optional_field (optional (integer_between least most) v) = None \<and> v = None \<or>
    (\<exists>k. optional_field (optional (integer_between least most) v) = Some k \<and> v \<noteq> None \<and> least \<le> k \<and> k \<le> most)"
proof (cases v)
  case None
  then show ?thesis by (simp add: optional_def optional_field_def)
next
  case (Some s)
  then have "fst (integer_between least most v) = []"
    using assms by (simp add: optional_def split: prod.splits)
  then show ?thesis
    by (rule integer_between_ok) (auto simp: optional_def optional_field_def Some split: prod.splits)
qed

lemma one_of_ok: "fst (one_of options v) = [] \<Longrightarrow> \<exists>s \<in> set options. v = Some s \<and> snd (one_of options v) = Some s"
  by (auto simp: one_of_def split: option.splits if_splits)

text \<open>
  The API only starts for a web origin that a browser's Origin header can equal, with URLs that
  live fifteen minutes at most, and with no proxy list that the checks of a global trust refuse.
\<close>

theorem api_configuration:
  assumes "loadEnv z source = Inr e"
  shows "z_origin z (APP_ORIGIN e) = Some (APP_ORIGIN e) \<and> source ''APP_ORIGIN'' = Some (APP_ORIGIN e) \<and>
    NODE_ENV e \<in> set NODE_ENVS \<and> source ''NODE_ENV'' = Some (NODE_ENV e) \<and>
    1 \<le> API_PORT e \<and> API_PORT e \<le> 65535 \<and>
    1 \<le> DOCUMENT_DOWNLOAD_URL_TTL_SECONDS e \<and> DOCUMENT_DOWNLOAD_URL_TTL_SECONDS e \<le> 900 \<and>
    trust_proxy_ok (API_TRUST_PROXY e)"
proof -
  define nodeEnv where "nodeEnv = one_of NODE_ENVS (source ''NODE_ENV'')"
  define port where "port = in_range 1 65535 4000 (source ''API_PORT'')"
  define origin where "origin = origin_check z (source ''APP_ORIGIN'')"
  define ttl where "ttl = in_range 1 900 60 (source ''DOCUMENT_DOWNLOAD_URL_TTL_SECONDS'')"
  define trust where "trust = trust_proxy_check (source ''API_TRUST_PROXY'')"
  note defs = nodeEnv_def port_def origin_def ttl_def trust_def
  have empty: "fst nodeEnv = []" "fst port = []" "fst origin = []" "fst ttl = []" "fst trust = []"
    and e: "NODE_ENV e = the (snd nodeEnv)" "API_PORT e = number_field port"
      "APP_ORIGIN e = the (snd origin)" "DOCUMENT_DOWNLOAD_URL_TTL_SECONDS e = number_field ttl"
      "API_TRUST_PROXY e = the (snd trust)"
    using assms by (auto simp: loadEnv_def accept_Inr Let_def defs)
  have "z_origin z (APP_ORIGIN e) = Some (APP_ORIGIN e) \<and> source ''APP_ORIGIN'' = Some (APP_ORIGIN e)"
    using empty(3) e(3) by (auto simp: origin_def origin_check_def isBareOrigin_def split: option.splits if_splits)
  moreover have "NODE_ENV e \<in> set NODE_ENVS \<and> source ''NODE_ENV'' = Some (NODE_ENV e)"
    using one_of_ok [OF empty(1) [unfolded nodeEnv_def]] e(1) by (auto simp: nodeEnv_def)
  moreover have "1 \<le> API_PORT e \<and> API_PORT e \<le> 65535"
    using in_range_ok [OF empty(2) [unfolded port_def]] e(2) by (simp add: port_def)
  moreover have "1 \<le> DOCUMENT_DOWNLOAD_URL_TTL_SECONDS e \<and> DOCUMENT_DOWNLOAD_URL_TTL_SECONDS e \<le> 900"
    using in_range_ok [OF empty(4) [unfolded ttl_def]] e(4) by (simp add: ttl_def)
  moreover have "trust_proxy_ok (API_TRUST_PROXY e)"
    using empty(5) e(5)
    by (auto simp: trust_def trust_proxy_check_def trust_proxy_ok_def Let_def split: if_splits)
  ultimately show ?thesis by blast
qed

lemma flag_ok: "fst (flag v) = [] \<Longrightarrow> snd (flag v) = Some (v = Some ''true'')"
  by (auto simp: flag_def custom_text_def with_default_def one_of_def split: option.splits if_splits prod.splits)

lemma representation_ok:
  "fst (representation_check v) = [] \<Longrightarrow> (the (snd (representation_check v)) = None) \<longleftrightarrow> v = None"
  by (cases v) (auto simp: representation_check_def custom_text_def optional_def one_of_def split: if_splits prod.splits)

lemma optional_some:
  assumes "fst (optional (integer_between least most) v) = []" and "v \<noteq> None"
  shows "least \<le> the (optional_field (optional (integer_between least most) v)) \<and>
    the (optional_field (optional (integer_between least most) v)) \<le> most"
  using optional_ok [OF assms(1)] assms(2) by auto

text \<open>A check without issues did not give its value up.\<close>

lemma one_of_kept: "fst (one_of options v) = [] \<Longrightarrow> snd (one_of options v) = None \<longleftrightarrow> False"
  by (auto simp: one_of_def split: option.splits if_splits)

lemma string_min1_kept: "fst (string_min1 v) = [] \<Longrightarrow> snd (string_min1 v) = None \<longleftrightarrow> False"
  by (auto simp: string_min1_def split: option.splits if_splits)

lemma integer_between_kept:
  "fst (integer_between least most v) = [] \<Longrightarrow> snd (integer_between least most v) = None \<longleftrightarrow> False"
  by (auto simp: integer_between_def Let_def split: option.splits if_splits)

lemma with_default_kept:
  assumes "\<And>v. fst (c v) = [] \<Longrightarrow> snd (c v) = None \<longleftrightarrow> False" and "fst (with_default d c v) = []"
  shows "snd (with_default d c v) = None \<longleftrightarrow> False"
  using assms by (auto simp: with_default_def split: option.splits)

lemma optional_kept:
  assumes "\<And>v. fst (c v) = [] \<Longrightarrow> snd (c v) = None \<longleftrightarrow> False" and "fst (optional c v) = []"
  shows "snd (optional c v) = None \<longleftrightarrow> False"
  using assms by (auto simp: optional_def split: option.splits prod.splits) (metis fst_conv snd_conv)

lemma flag_kept: "fst (flag v) = [] \<Longrightarrow> snd (flag v) = None \<longleftrightarrow> False"
  using flag_ok by force

lemma representation_kept:
  "fst (representation_check v) = [] \<Longrightarrow> snd (representation_check v) = None \<longleftrightarrow> False"
  by (cases v) (auto simp: representation_check_def custom_text_def optional_def one_of_def split: if_splits prod.splits)

lemma in_range_kept: "fst (in_range least most d v) = [] \<Longrightarrow> snd (in_range least most d v) = None \<longleftrightarrow> False"
  unfolding in_range_def by (rule with_default_kept [OF integer_between_kept])

lemmas kept_values = one_of_kept string_min1_kept flag_kept representation_kept
  with_default_kept [OF string_min1_kept] optional_kept [OF integer_between_kept] in_range_kept

text \<open>What the worker's schema leaves of an accepted environment, variable by variable.\<close>

lemma loadWorkerEnv_fields:
  assumes "loadWorkerEnv z source = Inr e"
  shows "1 \<le> SCAN_MAX_ATTEMPTS e \<and> SCAN_MAX_ATTEMPTS e \<le> 20"
    and "60 \<le> SCAN_LEASE_SECONDS e \<and> SCAN_LEASE_SECONDS e \<le> 3600"
    and "10 \<le> SCAN_SWEEP_INTERVAL_SECONDS e \<and> SCAN_SWEEP_INTERVAL_SECONDS e \<le> 3600"
    and "1000 \<le> CLAMAV_TIMEOUT_MS e \<and> CLAMAV_TIMEOUT_MS e \<le> 300000"
    and "OCR_ENABLED e \<longleftrightarrow> source ''OCR_ENABLED'' = Some ''true''"
    and "OCR_PDF_ENABLED e \<longleftrightarrow> source ''OCR_PDF_ENABLED'' = Some ''true''"
    and "OCR_PDF_P7_RESOLVED e \<longleftrightarrow> source ''OCR_PDF_P7_RESOLVED'' = Some ''true''"
proof -
  note accepted = assms [unfolded loadWorkerEnv_def Let_def accept_Inr append_is_Nil_conv at_path_Nil]
  have ok: "fst (in_range 1 20 5 (source ''SCAN_MAX_ATTEMPTS'')) = []"
    "fst (in_range 60 3600 600 (source ''SCAN_LEASE_SECONDS'')) = []"
    "fst (in_range 10 3600 60 (source ''SCAN_SWEEP_INTERVAL_SECONDS'')) = []"
    "fst (in_range 1000 300000 60000 (source ''CLAMAV_TIMEOUT_MS'')) = []"
    "fst (flag (source ''OCR_ENABLED'')) = []" "fst (flag (source ''OCR_PDF_ENABLED'')) = []"
    "fst (flag (source ''OCR_PDF_P7_RESOLVED'')) = []"
    using accepted by blast+
  have e: "SCAN_MAX_ATTEMPTS e = number_field (in_range 1 20 5 (source ''SCAN_MAX_ATTEMPTS''))"
    "SCAN_LEASE_SECONDS e = number_field (in_range 60 3600 600 (source ''SCAN_LEASE_SECONDS''))"
    "SCAN_SWEEP_INTERVAL_SECONDS e = number_field (in_range 10 3600 60 (source ''SCAN_SWEEP_INTERVAL_SECONDS''))"
    "CLAMAV_TIMEOUT_MS e = number_field (in_range 1000 300000 60000 (source ''CLAMAV_TIMEOUT_MS''))"
    "OCR_ENABLED e = the (snd (flag (source ''OCR_ENABLED'')))"
    "OCR_PDF_ENABLED e = the (snd (flag (source ''OCR_PDF_ENABLED'')))"
    "OCR_PDF_P7_RESOLVED e = the (snd (flag (source ''OCR_PDF_P7_RESOLVED'')))"
    using conjunct2 [OF accepted] by simp_all
  show "1 \<le> SCAN_MAX_ATTEMPTS e \<and> SCAN_MAX_ATTEMPTS e \<le> 20"
    using in_range_ok [OF ok(1)] e(1) by simp
  show "60 \<le> SCAN_LEASE_SECONDS e \<and> SCAN_LEASE_SECONDS e \<le> 3600"
    using in_range_ok [OF ok(2)] e(2) by simp
  show "10 \<le> SCAN_SWEEP_INTERVAL_SECONDS e \<and> SCAN_SWEEP_INTERVAL_SECONDS e \<le> 3600"
    using in_range_ok [OF ok(3)] e(3) by simp
  show "1000 \<le> CLAMAV_TIMEOUT_MS e \<and> CLAMAV_TIMEOUT_MS e \<le> 300000"
    using in_range_ok [OF ok(4)] e(4) by simp
  show "OCR_ENABLED e \<longleftrightarrow> source ''OCR_ENABLED'' = Some ''true''"
    using flag_ok [OF ok(5)] e(5) by simp
  show "OCR_PDF_ENABLED e \<longleftrightarrow> source ''OCR_PDF_ENABLED'' = Some ''true''"
    using flag_ok [OF ok(6)] e(6) by simp
  show "OCR_PDF_P7_RESOLVED e \<longleftrightarrow> source ''OCR_PDF_P7_RESOLVED'' = Some ''true''"
    using flag_ok [OF ok(7)] e(7) by simp
qed

lemma loadWorkerEnv_ocr:
  assumes "loadWorkerEnv z source = Inr e" and "OCR_ENABLED e"
  shows "OCR_IMAGE_REPRESENTATION e \<noteq> None"
    and "1 \<le> the (OCR_MAX_ATTEMPTS e) \<and> the (OCR_MAX_ATTEMPTS e) \<le> 20"
    and "60 \<le> the (OCR_LEASE_SECONDS e) \<and> the (OCR_LEASE_SECONDS e) \<le> 3600"
    and "1 \<le> the (OCR_RETRY_DELAY_SECONDS e) \<and> the (OCR_RETRY_DELAY_SECONDS e) \<le> 3600"
    and "1 \<le> the (OCR_MAX_PAGES e) \<and> the (OCR_MAX_PAGES e) \<le> 2000"
proof -
  note accepted = assms(1) [unfolded loadWorkerEnv_def Let_def accept_Inr append_is_Nil_conv at_path_Nil]
  have ok: "fst (representation_check (source ''OCR_IMAGE_REPRESENTATION'')) = []"
    "fst (optional (integer_between 1 20) (source ''OCR_MAX_ATTEMPTS'')) = []"
    "fst (optional (integer_between 60 3600) (source ''OCR_LEASE_SECONDS'')) = []"
    "fst (optional (integer_between 1 3600) (source ''OCR_RETRY_DELAY_SECONDS'')) = []"
    "fst (optional (integer_between 1 2000) (source ''OCR_MAX_PAGES'')) = []"
    using accepted by blast+
  have e: "OCR_IMAGE_REPRESENTATION e = the (snd (representation_check (source ''OCR_IMAGE_REPRESENTATION'')))"
    "OCR_MAX_ATTEMPTS e = optional_field (optional (integer_between 1 20) (source ''OCR_MAX_ATTEMPTS''))"
    "OCR_LEASE_SECONDS e = optional_field (optional (integer_between 60 3600) (source ''OCR_LEASE_SECONDS''))"
    "OCR_RETRY_DELAY_SECONDS e = optional_field (optional (integer_between 1 3600) (source ''OCR_RETRY_DELAY_SECONDS''))"
    "OCR_MAX_PAGES e = optional_field (optional (integer_between 1 2000) (source ''OCR_MAX_PAGES''))"
    using conjunct2 [OF accepted] by simp_all
  have missing: "missing_ocr (OCR_ENABLED e) source = []"
    using conjunct1 [OF accepted] conjunct2 [OF accepted] by (elim conjE) (simp add: kept_values)
  then have set': "\<forall>name \<in> set OCR_REQUIRED. source name \<noteq> None"
    using assms(2) by (auto simp: missing_ocr_def filter_empty_conv)
  show "OCR_IMAGE_REPRESENTATION e \<noteq> None"
    using set' representation_ok [OF ok(1)] e(1) by (simp add: OCR_REQUIRED_def)
  show "1 \<le> the (OCR_MAX_ATTEMPTS e) \<and> the (OCR_MAX_ATTEMPTS e) \<le> 20"
    using set' optional_some [OF ok(2)] e(2) by (simp add: OCR_REQUIRED_def)
  show "60 \<le> the (OCR_LEASE_SECONDS e) \<and> the (OCR_LEASE_SECONDS e) \<le> 3600"
    using set' optional_some [OF ok(3)] e(3) by (simp add: OCR_REQUIRED_def)
  show "1 \<le> the (OCR_RETRY_DELAY_SECONDS e) \<and> the (OCR_RETRY_DELAY_SECONDS e) \<le> 3600"
    using set' optional_some [OF ok(4)] e(4) by (simp add: OCR_REQUIRED_def)
  show "1 \<le> the (OCR_MAX_PAGES e) \<and> the (OCR_MAX_PAGES e) \<le> 2000"
    using set' optional_some [OF ok(5)] e(5) by (simp add: OCR_REQUIRED_def)
qed

text \<open>
  C39. A worker only starts with bounded attempts, leases and intervals; with the OCR on it has every
  value the evaluation must give, within its bounds, and a PDF may go to an external provider only
  when the environment says that P7 is resolved. Today, without a provider, a worker with the OCR
  on does not start.
\<close>

theorem worker_configuration:
  assumes "loadWorkerEnv z source = Inr e"
  shows "1 \<le> sd_maxAttempts (main_scan_deps e sent antivirus) \<and> sd_maxAttempts (main_scan_deps e sent antivirus) \<le> 20 \<and>
    60 \<le> sd_leaseSeconds (main_scan_deps e sent antivirus) \<and> sd_leaseSeconds (main_scan_deps e sent antivirus) \<le> 3600 \<and>
    sd_leaseSeconds (main_scan_deps e sent antivirus) = so_leaseSeconds (main_sweep_options e) \<and>
    sd_maxAttempts (main_scan_deps e sent antivirus) = so_maxAttempts (main_sweep_options e) \<and>
    10 \<le> SCAN_SWEEP_INTERVAL_SECONDS e \<and> SCAN_SWEEP_INTERVAL_SECONDS e \<le> 3600 \<and>
    (\<forall>provider library deps. main_ocr_deps provider e library = Some deps \<longrightarrow>
      1 \<le> od_maxAttempts deps \<and> od_maxAttempts deps \<le> 20 \<and>
      60 \<le> od_leaseSeconds deps \<and> od_leaseSeconds deps \<le> 3600 \<and>
      1 \<le> od_maxPages deps \<and> od_maxPages deps \<le> 2000 \<and>
      1 \<le> od_retryDelaySeconds deps \<and> od_retryDelaySeconds deps \<le> 3600 \<and>
      OCR_IMAGE_REPRESENTATION e = Some (od_imageRepresentation deps) \<and>
      (od_pdfAllowed deps \<and> map_option fst provider = Some True \<longrightarrow>
        source ''OCR_PDF_P7_RESOLVED'' = Some ''true'') \<and>
      (\<exists>opts. main_ocr_sweep provider e = Some opts \<and> so_engine opts = od_engine deps \<and>
        so_leaseSeconds opts = od_leaseSeconds deps \<and> so_maxAttempts opts = od_maxAttempts deps)) \<and>
    (source ''OCR_ENABLED'' = Some ''true'' \<longrightarrow> (\<forall>d. worker_start main_provider e d \<noteq> Inr ()))"
proof -
  note fields = loadWorkerEnv_fields [OF assms]
  have ocr: "1 \<le> od_maxAttempts deps \<and> od_maxAttempts deps \<le> 20 \<and>
      60 \<le> od_leaseSeconds deps \<and> od_leaseSeconds deps \<le> 3600 \<and>
      1 \<le> od_maxPages deps \<and> od_maxPages deps \<le> 2000 \<and>
      1 \<le> od_retryDelaySeconds deps \<and> od_retryDelaySeconds deps \<le> 3600 \<and>
      OCR_IMAGE_REPRESENTATION e = Some (od_imageRepresentation deps) \<and>
      (od_pdfAllowed deps \<and> map_option fst provider = Some True \<longrightarrow>
        source ''OCR_PDF_P7_RESOLVED'' = Some ''true'') \<and>
      (\<exists>opts. main_ocr_sweep provider e = Some opts \<and> so_engine opts = od_engine deps \<and>
        so_leaseSeconds opts = od_leaseSeconds deps \<and> so_maxAttempts opts = od_maxAttempts deps)"
    if built: "main_ocr_deps provider e library = Some deps" for provider library deps
  proof -
    obtain external engine where on: "OCR_ENABLED e" "provider = Some (external, engine)"
      using built by (auto simp: main_ocr_deps_def split: if_splits option.splits)
    then show ?thesis
      using built loadWorkerEnv_ocr [OF assms on(1)] fields(7)
      by (auto simp: main_ocr_deps_def main_ocr_sweep_def)
  qed
  have start: "source ''OCR_ENABLED'' = Some ''true'' \<longrightarrow> (\<forall>d. worker_start main_provider e d \<noteq> Inr ())"
    using fields(5) by (simp add: worker_start_def main_provider_def assertOcrStartupPreconditions_def)
  show ?thesis
    using fields ocr start by (simp add: main_scan_deps_def main_sweep_options_def)
qed

section \<open>Concrete environments\<close>

lemma integer_between_digits:
  assumes "list_all is_digit s" and "s \<noteq> []" and "number_of_digits s < 2 ^ 53"
    and "least \<le> int (number_of_digits s)" and "int (number_of_digits s) \<le> most"
  shows "integer_between least most (Some s) = ([], Some (js_Number s))"
    and "optional_field (optional (integer_between least most) (Some s)) = Some (int (number_of_digits s))"
proof -
  note k = js_Number_digits [OF assms(1-3)]
  then have "js_Number s \<noteq> NaN" by auto
  then show *: "integer_between least most (Some s) = ([], Some (js_Number s))"
    using at_most_integer [OF k] at_least_integer [OF k] assms(4,5) k by (simp add: integer_between_def)
  show "optional_field (optional (integer_between least most) (Some s)) = Some (int (number_of_digits s))"
    using k by (simp add: optional_def * optional_field_def)
qed

definition plain_zod :: zod where
  "plain_zod = \<lparr>z_url = (\<lambda>_. True), z_origin = Some, z_text = (\<lambda>_. ''invalid'')\<rparr>"

definition api_environment :: environment where
  "api_environment = map_of [(''NODE_ENV'', ''production''), (''APP_ORIGIN'', ''https://app.co''),
     (''DATABASE_URL'', ''postgres://db''), (''DOCUMENT_DOWNLOAD_URL_TTL_SECONDS'', ''900''),
     (''API_TRUST_PROXY'', ''10.0.0.0/8'')]"

definition worker_environment :: environment where
  "worker_environment = map_of [(''NODE_ENV'', ''production''), (''WORKER_DATABASE_URL'', ''postgres://db''),
     (''OCR_ENABLED'', ''true''), (''OCR_PDF_ENABLED'', ''true''), (''OCR_IMAGE_REPRESENTATION'', ''ORIGINAL''),
     (''OCR_MAX_ATTEMPTS'', ''3''), (''OCR_LEASE_SECONDS'', ''120''), (''OCR_RETRY_DELAY_SECONDS'', ''30''),
     (''OCR_MAX_PAGES'', ''100'')]"

theorem api_configuration_witness:
  "\<exists>e. loadEnv plain_zod api_environment = Inr e \<and> APP_ORIGIN e = ''https://app.co'' \<and>
    DOCUMENT_DOWNLOAD_URL_TTL_SECONDS e \<le> 900"
proof -
  have ttl: "integer_between 1 900 (Some ''900'') = ([], Some (js_Number ''900''))"
    by (rule integer_between_digits) (simp_all add: is_digit_def number_of_digits_def)
  have entries: "trust_proxy_entries ''10.0.0.0/8'' = [''10.0.0.0/8'']"
    by code_simp
  have "isIpOrCidr ''10.0.0.0/8''" "\<not> isGlobalTrust ''10.0.0.0/8''"
    by code_simp+
  then have trust: "trust_proxy_check (Some ''10.0.0.0/8'') = ([], Some [''10.0.0.0/8''])"
    by (simp add: trust_proxy_check_def entries)
  have "\<exists>e. loadEnv plain_zod api_environment = Inr e"
    by (simp add: loadEnv_def api_environment_def ttl trust accept_Inr one_of_def NODE_ENVS_def string_min1_def
        with_default_def in_range_def origin_check_def isBareOrigin_def plain_zod_def Let_def)
  then obtain e where e: "loadEnv plain_zod api_environment = Inr e" by blast
  have "api_environment ''APP_ORIGIN'' = Some ''https://app.co''"
    by (simp add: api_environment_def)
  with api_configuration [OF e] e show ?thesis by auto
qed

theorem worker_configuration_witness:
  "\<exists>e. loadWorkerEnv plain_zod worker_environment = Inr e \<and>
    (\<forall>library. \<exists>deps. main_ocr_deps (Some (False, ''engine'')) e library = Some deps \<and> od_maxAttempts deps \<le> 20) \<and>
    (\<forall>d. worker_start main_provider e d \<noteq> Inr ())"
proof -
  have numbers: "integer_between 1 20 (Some ''3'') = ([], Some (js_Number ''3''))"
    "integer_between 60 3600 (Some ''120'') = ([], Some (js_Number ''120''))"
    "integer_between 1 3600 (Some ''30'') = ([], Some (js_Number ''30''))"
    "integer_between 1 2000 (Some ''100'') = ([], Some (js_Number ''100''))"
    by (rule integer_between_digits; simp add: is_digit_def number_of_digits_def)+
  have "\<exists>e. loadWorkerEnv plain_zod worker_environment = Inr e"
    by (simp add: loadWorkerEnv_def worker_environment_def numbers accept_Inr one_of_def NODE_ENVS_def
        string_min1_def with_default_def in_range_def optional_def flag_def custom_text_def
        representation_check_def missing_ocr_def OCR_REQUIRED_def Let_def)
  then obtain e where e: "loadWorkerEnv plain_zod worker_environment = Inr e" by blast
  note holds = worker_configuration [OF e, THEN conjunct2, THEN conjunct2, THEN conjunct2, THEN conjunct2,
    THEN conjunct2, THEN conjunct2, THEN conjunct2, THEN conjunct2]
  have on: "worker_environment ''OCR_ENABLED'' = Some ''true''"
    by (simp add: worker_environment_def)
  have "\<exists>deps. main_ocr_deps (Some (False, ''engine'')) e library = Some deps \<and> od_maxAttempts deps \<le> 20" for library
  proof -
    obtain deps where deps: "main_ocr_deps (Some (False, ''engine'')) e library = Some deps"
      using loadWorkerEnv_fields(5) [OF e] on by (simp add: main_ocr_deps_def)
    have "od_maxAttempts deps \<le> 20"
      using holds [THEN conjunct1, THEN spec, THEN spec, THEN spec, THEN mp, OF deps] by simp
    with deps show ?thesis by blast
  qed
  moreover have "worker_start main_provider e d \<noteq> Inr ()" for d
    using holds [THEN conjunct2] on by simp
  ultimately show ?thesis using e by (intro exI [of _ e] conjI allI) simp_all
qed

end
