(* ===== verification/Seed.thy ===== *)
theory Seed
  imports Route_Guards
begin

text \<open>
  The seed of the internal accounts (apps/api/src/scripts/seed-internal-users.ts and its command):
  the store it is given as an interface, the loop over the accounts, and the store of the command,
  whose calls may fail before or after their effect.
\<close>

section \<open>Accounts\<close>

record seed_account =
  sa_email :: string
  sa_fullName :: string
  sa_role :: role

definition INTERNAL_SEED_ACCOUNTS :: "seed_account list" where
  "INTERNAL_SEED_ACCOUNTS =
    [\<lparr>sa_email = ''professional@legaltech.test'', sa_fullName = ''Profesional (desarrollo)'', sa_role = PROFESSIONAL\<rparr>,
     \<lparr>sa_email = ''admin@legaltech.test'', sa_fullName = ''Administrador (desarrollo)'', sa_role = ADMIN\<rparr>,
     \<lparr>sa_email = ''superadmin@legaltech.test'', sa_fullName = ''Superadministrador (desarrollo)'',
      sa_role = SUPER_ADMIN\<rparr>]"

definition SEED_AUDIT_ACTION :: string where
  "SEED_AUDIT_ACTION = ''user.seeded''"

record seed_result =
  sd_created :: "seed_account list"
  sd_skipped :: "seed_account list"

definition assertSeedAllowed :: "string option \<Rightarrow> exn + unit" where
  "assertSeedAllowed nodeEnv =
    (if nodeEnv \<noteq> Some ''development'' \<and> nodeEnv \<noteq> Some ''test''
     then Inl (Error ''The internal-accounts seed only runs with NODE_ENV=development or NODE_ENV=test.'')
     else Inr ())"

definition assertSeedPassword :: "string option \<Rightarrow> exn + string" where
  "assertSeedPassword password =
    (case password of
       None \<Rightarrow> Inl (Error ''SEED_INTERNAL_PASSWORD must be set, with 12 to 128 characters.'')
     | Some s \<Rightarrow>
         if length s < 12 \<or> length s > 128
         then Inl (Error ''SEED_INTERNAL_PASSWORD must be set, with 12 to 128 characters.'')
         else Inr s)"

section \<open>The loop\<close>

record 's seed_store =
  find_user :: "string \<Rightarrow> ('s, exn, uuid option) prog"
  create_internal_user :: "string \<Rightarrow> string \<Rightarrow> string \<Rightarrow> role \<Rightarrow> ('s, exn, uuid) prog"
  write_audit :: "audit_entry \<Rightarrow> ('s, exn, unit) prog"

fun role_name :: "role \<Rightarrow> string" where
  "role_name USER = ''USER''"
| "role_name PROFESSIONAL = ''PROFESSIONAL''"
| "role_name ADMIN = ''ADMIN''"
| "role_name SUPER_ADMIN = ''SUPER_ADMIN''"

definition seed_event :: "uuid \<Rightarrow> role \<Rightarrow> audit_entry" where
  "seed_event userId r =
    \<lparr>actorUserId = None, actorRole = None, action = SEED_AUDIT_ACTION, entityType = Some ''User'',
     entityId = Some userId, caseId = None, newValue = None,
     metadata = Some [(''role'', JStr (role_name r))], requestId = None, ip = None, userAgent = None\<rparr>"

fun seed_accounts ::
  "'s seed_store \<Rightarrow> string \<Rightarrow> (string \<Rightarrow> string) \<Rightarrow> seed_account list \<Rightarrow> seed_result \<Rightarrow> ('s, exn, seed_result) prog" where
  "seed_accounts store password hash [] result = returnE result"
| "seed_accounts store password hash (account # accounts) result =
     bindE (find_user store (sa_email account)) (\<lambda>existing.
       case existing of
         Some _ \<Rightarrow> seed_accounts store password hash accounts
                    (result\<lparr>sd_skipped := sd_skipped result @ [account]\<rparr>)
       | None \<Rightarrow>
           bindE (create_internal_user store (sa_email account) (hash password) (sa_fullName account) (sa_role account))
             (\<lambda>userId. bindE (write_audit store (seed_event userId (sa_role account)))
               (\<lambda>_. seed_accounts store password hash accounts
                      (result\<lparr>sd_created := sd_created result @ [account]\<rparr>))))"

definition seedInternalUsers ::
  "'s seed_store \<Rightarrow> string \<Rightarrow> (string \<Rightarrow> string) \<Rightarrow> seed_account list \<Rightarrow> ('s, exn, seed_result) prog" where
  "seedInternalUsers store password hash accounts =
     seed_accounts store password hash accounts \<lparr>sd_created = [], sd_skipped = []\<rparr>"

section \<open>What the loop relies on and keeps\<close>

text \<open>
  The contract of a store, over the accounts it holds: looking up changes no account and finds the
  one with the address; creating adds the account asked for, at most, and exactly that one when it
  answers; writing an event changes no account.
\<close>

definition new_account :: "string \<Rightarrow> string \<Rightarrow> string \<Rightarrow> role \<Rightarrow> user_row \<Rightarrow> bool" where
  "new_account email hashed name r u \<longleftrightarrow> u_email u = email \<and> u_passwordHash u = hashed \<and>
     u_fullName u = name \<and> u_role u = r \<and> u_status u = ACTIVE \<and> u_emailVerifiedAt u = None"

lemma list_all2_left: "list_all2 P xs ys \<Longrightarrow> x \<in> set xs \<Longrightarrow> \<exists>y \<in> set ys. P x y"
  by (induction rule: list_all2_induct) auto

locale seed_contract =
  fixes store :: "'s seed_store" and accounts_of :: "'s \<Rightarrow> user_row list"
  assumes find_keeps: "accounts_of (snd (find_user store email s)) = accounts_of s"
    and find_answers: "fst (find_user store email s) = Inr x \<Longrightarrow>
      (x = None) = (\<forall>u \<in> set (accounts_of s). u_email u \<noteq> email)"
    and create_adds: "accounts_of (snd (create_internal_user store email hashed name r s)) = accounts_of s \<or>
      (\<exists>u. new_account email hashed name r u \<and>
        accounts_of (snd (create_internal_user store email hashed name r s)) = accounts_of s @ [u])"
    and create_done: "fst (create_internal_user store email hashed name r s) = Inr i \<Longrightarrow>
      \<exists>u. new_account email hashed name r u \<and>
        accounts_of (snd (create_internal_user store email hashed name r s)) = accounts_of s @ [u]"
    and audit_keeps: "accounts_of (snd (write_audit store e s)) = accounts_of s"
begin

text \<open>Whatever fails, accounts are only added, each one asked for.\<close>

lemma only_adds:
  "\<exists>new. accounts_of (snd (seed_accounts store password hash as result s)) = accounts_of s @ new \<and>
     (\<forall>u \<in> set new. \<exists>a \<in> set as. new_account (sa_email a) (hash password) (sa_fullName a) (sa_role a) u)"
proof (induction as arbitrary: result s)
  case Nil
  then show ?case by (simp add: returnE_def)
next
  case (Cons a as)
  obtain x s1 where f: "find_user store (sa_email a) s = (x, s1)" by fastforce
  have s1: "accounts_of s1 = accounts_of s" using find_keeps [of "sa_email a" s] f by simp
  show ?case
  proof (cases x)
    case (Inl e)
    then show ?thesis using f s1 by (simp add: bindE_Inl)
  next
    case (Inr existing)
    show ?thesis
    proof (cases existing)
      case (Some i)
      then show ?thesis
        using Cons.IH [of "result\<lparr>sd_skipped := sd_skipped result @ [a]\<rparr>" s1] f s1 Inr
        by (auto simp: bindE_def)
    next
      case None
      obtain y s2 where c: "create_internal_user store (sa_email a) (hash password) (sa_fullName a) (sa_role a) s1 = (y, s2)"
        by fastforce
      obtain n where n: "accounts_of s2 = accounts_of s1 @ n"
        "\<forall>u \<in> set n. new_account (sa_email a) (hash password) (sa_fullName a) (sa_role a) u"
        using create_adds [of "sa_email a" "hash password" "sa_fullName a" "sa_role a" s1] c by fastforce
      show ?thesis
      proof (cases y)
        case (Inl e)
        then show ?thesis using f c s1 n Inr None by (auto simp: bindE_def)
      next
        case (Inr i)
        obtain z s3 where w: "write_audit store (seed_event i (sa_role a)) s2 = (z, s3)" by fastforce
        have "accounts_of s3 = accounts_of s2" using audit_keeps [of "seed_event i (sa_role a)" s2] w by simp
        then show ?thesis
          using Cons.IH [of "result\<lparr>sd_created := sd_created result @ [a]\<rparr>" s3] f c w s1 n \<open>x = Inr existing\<close> None Inr
          by (cases z) (auto simp: bindE_def)
      qed
    qed
  qed
qed

text \<open>A run that answers created the accounts that were missing, and only those.\<close>

definition taken :: "'s \<Rightarrow> seed_account \<Rightarrow> bool" where
  "taken s a \<longleftrightarrow> (\<exists>u \<in> set (accounts_of s). u_email u = sa_email a)"

lemma completes:
  assumes "fst (seed_accounts store password hash as result s) = Inr r" and "distinct (map sa_email as)"
  shows "sd_created r = sd_created result @ filter (\<lambda>a. \<not> taken s a) as \<and>
    sd_skipped r = sd_skipped result @ filter (taken s) as \<and>
    (\<exists>new. accounts_of (snd (seed_accounts store password hash as result s)) = accounts_of s @ new \<and>
      list_all2 (\<lambda>a. new_account (sa_email a) (hash password) (sa_fullName a) (sa_role a))
        (filter (\<lambda>a. \<not> taken s a) as) new)"
  using assms
proof (induction as arbitrary: result s)
  case Nil
  then show ?case by (simp add: returnE_def)
next
  case (Cons a as)
  obtain x s1 where f: "find_user store (sa_email a) s = (x, s1)" by fastforce
  have s1: "accounts_of s1 = accounts_of s" using find_keeps [of "sa_email a" s] f by simp
  then have same: "taken s1 = taken s" by (auto simp: taken_def fun_eq_iff)
  obtain existing where x: "x = Inr existing" using Cons.prems(1) f by (cases x) (auto simp: bindE_def)
  have known: "existing = None \<longleftrightarrow> \<not> taken s a"
    using find_answers [of "sa_email a" s existing] f x by (auto simp: taken_def)
  show ?case
  proof (cases existing)
    case (Some i)
    then show ?thesis
      using Cons.IH [of "result\<lparr>sd_skipped := sd_skipped result @ [a]\<rparr>" s1] Cons.prems f x known s1 same
      by (simp add: bindE_def)
  next
    case None
    obtain y s2 where c: "create_internal_user store (sa_email a) (hash password) (sa_fullName a) (sa_role a) s1 = (y, s2)"
      by fastforce
    obtain i where y: "y = Inr i" using Cons.prems(1) f x c None by (cases y) (auto simp: bindE_def)
    obtain u where u: "new_account (sa_email a) (hash password) (sa_fullName a) (sa_role a) u"
      "accounts_of s2 = accounts_of s @ [u]"
      using create_done [of "sa_email a" "hash password" "sa_fullName a" "sa_role a" s1 i] c y s1 by auto
    obtain z s3 where w: "write_audit store (seed_event i (sa_role a)) s2 = (z, s3)" by fastforce
    have z: "z = Inr ()" using Cons.prems(1) f x c y w None by (cases z) (auto simp: bindE_def)
    have s3: "accounts_of s3 = accounts_of s @ [u]"
      using audit_keeps [of "seed_event i (sa_role a)" s2] w u(2) by simp
    have "b \<in> set as \<Longrightarrow> taken s3 b = taken s b" for b
      using Cons.prems(2) s3 u(1) by (auto simp: taken_def new_account_def rev_image_eqI)
    then have rest: "filter (taken s3) as = filter (taken s) as"
      "filter (\<lambda>b. \<not> taken s3 b) as = filter (\<lambda>b. \<not> taken s b) as"
      by (auto intro!: filter_cong)
    have run: "seed_accounts store password hash (a # as) result s =
        seed_accounts store password hash as (result\<lparr>sd_created := sd_created result @ [a]\<rparr>) s3"
      using f x c y w z None by (simp add: bindE_def)
    obtain new where new: "accounts_of (snd (seed_accounts store password hash (a # as) result s)) = accounts_of s3 @ new"
      "list_all2 (\<lambda>a. new_account (sa_email a) (hash password) (sa_fullName a) (sa_role a))
        (filter (\<lambda>b. \<not> taken s b) as) new"
      "sd_created r = sd_created result @ [a] @ filter (\<lambda>b. \<not> taken s b) as"
      "sd_skipped r = sd_skipped result @ filter (taken s) as"
      using Cons.IH [of "result\<lparr>sd_created := sd_created result @ [a]\<rparr>" s3] Cons.prems run rest by auto
    show ?thesis
      using new s3 u(1) known None by (auto intro!: exI [of _ "u # new"])
  qed
qed

lemma all_taken:
  assumes "fst (seed_accounts store password hash as result s) = Inr r" and "distinct (map sa_email as)"
    and "a \<in> set as"
  shows "taken (snd (seed_accounts store password hash as result s)) a"
proof -
  let ?s' = "snd (seed_accounts store password hash as result s)"
  obtain new where new: "accounts_of ?s' = accounts_of s @ new"
    "list_all2 (\<lambda>a. new_account (sa_email a) (hash password) (sa_fullName a) (sa_role a)) (filter (\<lambda>a. \<not> taken s a) as) new"
    using completes [OF assms(1,2)] by blast
  show ?thesis
  proof (cases "taken s a")
    case True
    then show ?thesis using new(1) by (auto simp: taken_def)
  next
    case False
    then have "a \<in> set (filter (\<lambda>a. \<not> taken s a) as)"
      using assms(3) by simp
    then obtain u where "u \<in> set new" "u_email u = sa_email a"
      using list_all2_left [OF new(2)] by (auto simp: new_account_def)
    then show ?thesis using new(1) by (auto simp: taken_def)
  qed
qed

end

section \<open>The store of the command (seed-internal-users.cli.ts)\<close>

text \<open>
  The calls are numbered; each is a statement of its own, and may fail. Nothing else writes
  meanwhile.
\<close>

definition solo :: "(nat \<Rightarrow> fault option) \<Rightarrow> (nat \<Rightarrow> time) \<Rightarrow> call_env" where
  "solo faults clock = \<lparr>ce_during = (\<lambda>_ w. w), ce_fault = faults, ce_clock = clock\<rparr>"

definition numbered :: "call_env \<Rightarrow> (nat \<Rightarrow> time \<Rightarrow> 'a tx) \<Rightarrow> (nat \<times> world, exn, 'a) prog" where
  "numbered env m = (\<lambda>(n, w). case call env n (\<lambda>now. in_db (m n now)) w of (r, w') \<Rightarrow> (r, (Suc n, w')))"

definition createInternalUser :: "uuid \<Rightarrow> time \<Rightarrow> string \<Rightarrow> string \<Rightarrow> string \<Rightarrow> role \<Rightarrow> uuid tx" where
  "createInternalUser newId now email passwordHash' fullName r = (\<lambda>d.
     if \<exists>u \<in> set (users d). u_email u = email \<or> u_id u = newId then (Inl P2002, d)
     else (Inr newId, d\<lparr>users := users d @
       [\<lparr>u_id = newId, u_email = email, u_passwordHash = passwordHash', u_fullName = fullName, u_role = r,
         u_status = ACTIVE, u_emailVerifiedAt = None, u_createdAt = now\<rparr>]\<rparr>))"

definition prisma_seed_store :: "call_env \<Rightarrow> (nat \<Rightarrow> uuid) \<Rightarrow> (nat \<times> world) seed_store" where
  "prisma_seed_store env ids =
    \<lparr>find_user = (\<lambda>email. numbered env (\<lambda>_ _ d. (Inr (map_option u_id (findUserByEmail email d)), d))),
     create_internal_user = (\<lambda>email hashed name r. numbered env (\<lambda>n now. createInternalUser (ids n) now email hashed name r)),
     write_audit = (\<lambda>e. numbered env (\<lambda>_ now d. (Inr (), insert_audit e now d)))\<rparr>"

definition accounts_in :: "nat \<times> world \<Rightarrow> user_row list" where
  "accounts_in s = users (w_db (snd s))"

text \<open>A statement that fails has its whole effect or none.\<close>

lemma numbered_eq:
  "numbered (solo faults clock) m s =
    (let result = m (fst s) (clock (fst s)) (w_db (snd s)); after = (Suc (fst s), (snd s)\<lparr>w_db := snd result\<rparr>)
     in case faults (fst s) of
          None \<Rightarrow> (fst result, after)
        | Some (Fails_before e) \<Rightarrow> (Inl e, (Suc (fst s), snd s))
        | Some (Fails_after e) \<Rightarrow> (Inl e, after))"
  by (auto simp: numbered_def call_def solo_def in_db_def Let_def split: option.split fault.split prod.split)

lemma users_insert_audit [simp]: "users (insert_audit e now d) = users d"
  by (simp add: insert_audit_def)

lemmas seed_store_simps = prisma_seed_store_def accounts_in_def numbered_eq Let_def createInternalUser_def
  new_account_def findUserByEmail_def

interpretation prisma_seed: seed_contract "prisma_seed_store (solo faults clock) ids" accounts_in
  for faults clock ids
proof
  fix email hashed name and r :: role and s :: "nat \<times> world" and e x i
  let ?store = "prisma_seed_store (solo faults clock) ids"
  show "accounts_in (snd (find_user ?store email s)) = accounts_in s"
    by (simp add: seed_store_simps split: option.split fault.split)
  show "(x = None) = (\<forall>u \<in> set (accounts_in s). u_email u \<noteq> email)" if "fst (find_user ?store email s) = Inr x"
    using that by (auto simp: seed_store_simps find_None_iff split: option.splits fault.splits)
  show "accounts_in (snd (write_audit ?store e s)) = accounts_in s"
    by (simp add: seed_store_simps split: option.split fault.split)
  show "accounts_in (snd (create_internal_user ?store email hashed name r s)) = accounts_in s \<or>
      (\<exists>u. new_account email hashed name r u \<and>
        accounts_in (snd (create_internal_user ?store email hashed name r s)) = accounts_in s @ [u])"
    by (auto simp: seed_store_simps split: option.split fault.split)
  show "\<exists>u. new_account email hashed name r u \<and>
        accounts_in (snd (create_internal_user ?store email hashed name r s)) = accounts_in s @ [u]"
    if "fst (create_internal_user ?store email hashed name r s) = Inr i"
    using that by (auto simp: seed_store_simps split: option.splits fault.splits if_splits)
qed

text \<open>The command: the environment it accepts, then the seed.\<close>

definition seed_command ::
  "string option \<Rightarrow> string option \<Rightarrow> string option \<Rightarrow> call_env \<Rightarrow> (nat \<Rightarrow> uuid) \<Rightarrow> crypto \<Rightarrow> world \<Rightarrow>
     (exn + seed_result) \<times> world" where
  "seed_command nodeEnv password databaseUrl env ids c w =
    (case assertSeedAllowed nodeEnv of
       Inl e \<Rightarrow> (Inl e, w)
     | Inr _ \<Rightarrow>
         (case assertSeedPassword password of
            Inl e \<Rightarrow> (Inl e, w)
          | Inr pw \<Rightarrow>
              if databaseUrl = None \<or> databaseUrl = Some [] then (Inl (Error ''DATABASE_URL must be set.''), w)
              else (case seedInternalUsers (prisma_seed_store env ids) pw (hashPassword c) INTERNAL_SEED_ACCOUNTS (0, w) of
                 (r, s) \<Rightarrow> (r, snd s))))"

lemma seed_command_cases:
  assumes "seed_command nodeEnv password databaseUrl env ids c w = (r, w')"
  obtains e where "r = Inl e" and "w' = w"
  | pw where "nodeEnv \<in> {Some ''development'', Some ''test''}" and "password = Some pw"
    and "r = fst (seed_accounts (prisma_seed_store env ids) pw (hashPassword c) INTERNAL_SEED_ACCOUNTS
      \<lparr>sd_created = [], sd_skipped = []\<rparr> (0, w))"
    and "w' = snd (snd (seed_accounts (prisma_seed_store env ids) pw (hashPassword c) INTERNAL_SEED_ACCOUNTS
      \<lparr>sd_created = [], sd_skipped = []\<rparr> (0, w)))"
proof (cases "nodeEnv \<in> {Some ''development'', Some ''test''} \<and> databaseUrl \<notin> {None, Some []} \<and>
    (\<exists>pw. assertSeedPassword password = Inr pw)")
  case False
  then have "w' = w \<and> (\<exists>e. r = Inl e)"
    using assms by (auto simp: seed_command_def assertSeedAllowed_def split: sum.splits if_splits)
  then show ?thesis using that(1) by blast
next
  case True
  then obtain pw where pw: "assertSeedPassword password = Inr pw" by blast
  then have given: "password = Some pw"
    by (auto simp: assertSeedPassword_def split: option.splits if_splits)
  have env: "assertSeedAllowed nodeEnv = Inr ()" and url: "\<not> (databaseUrl = None \<or> databaseUrl = Some [])"
    using True by (auto simp: assertSeedAllowed_def)
  have "(case seed_accounts (prisma_seed_store env ids) pw (hashPassword c) INTERNAL_SEED_ACCOUNTS
      \<lparr>sd_created = [], sd_skipped = []\<rparr> (0, w) of (x, s) \<Rightarrow> (x, snd s)) = (r, w')"
    using assms unfolding seed_command_def env pw sum.case if_not_P [OF url] seedInternalUsers_def .
  then show ?thesis
    using that(2) True given by (simp split: prod.splits)
qed

lemma internal_accounts:
  "a \<in> set INTERNAL_SEED_ACCOUNTS \<Longrightarrow> sa_role a \<noteq> USER" "distinct (map sa_email INTERNAL_SEED_ACCOUNTS)"
  by (auto simp: INTERNAL_SEED_ACCOUNTS_def)

text \<open>
  C40. The seed never touches an account that exists and never creates a USER: whatever statement
  fails, the table of users only grows, by internal accounts with the password given. Outside
  development and test it does nothing. A run that answers has created exactly the accounts that
  were missing, in order, and the next one creates none.
\<close>

theorem seed_only_adds:
  fixes w :: world
  assumes "seed_command nodeEnv password databaseUrl (solo faults clock) ids c w = (r, w')"
  shows "(\<exists>new. users (w_db w') = users (w_db w) @ new \<and>
      (\<forall>u \<in> set new. u_role u \<noteq> USER \<and> u_status u = ACTIVE \<and>
        (\<exists>a \<in> set INTERNAL_SEED_ACCOUNTS. u_email u = sa_email a \<and> u_role u = sa_role a) \<and>
        (\<exists>pw. password = Some pw \<and> u_passwordHash u = hashPassword c pw))) \<and>
    (nodeEnv \<notin> {Some ''development'', Some ''test''} \<longrightarrow> w' = w) \<and>
    (\<forall>result. r = Inr result \<longrightarrow>
      sd_created result = filter (\<lambda>a. \<forall>u \<in> set (users (w_db w)). u_email u \<noteq> sa_email a) INTERNAL_SEED_ACCOUNTS \<and>
      (\<forall>a \<in> set INTERNAL_SEED_ACCOUNTS. \<exists>u \<in> set (users (w_db w')). u_email u = sa_email a))"
  using assms
proof (cases rule: seed_command_cases)
  case (2 pw)
  let ?run = "seed_accounts (prisma_seed_store (solo faults clock) ids) pw (hashPassword c)
    INTERNAL_SEED_ACCOUNTS \<lparr>sd_created = [], sd_skipped = []\<rparr> (0, w)"
  obtain new where new: "users (w_db w') = users (w_db w) @ new"
    "\<forall>u \<in> set new. \<exists>a \<in> set INTERNAL_SEED_ACCOUNTS. new_account (sa_email a) (hashPassword c pw) (sa_fullName a) (sa_role a) u"
    using prisma_seed.only_adds [of faults clock ids pw "hashPassword c" INTERNAL_SEED_ACCOUNTS
        "\<lparr>sd_created = [], sd_skipped = []\<rparr>" "(0, w)"] 2(4)
    by (auto simp: accounts_in_def)
  have added: "u_role u \<noteq> USER \<and> u_status u = ACTIVE \<and>
        (\<exists>a \<in> set INTERNAL_SEED_ACCOUNTS. u_email u = sa_email a \<and> u_role u = sa_role a) \<and>
        (\<exists>pw. password = Some pw \<and> u_passwordHash u = hashPassword c pw)" if "u \<in> set new" for u
    using new(2) that internal_accounts(1) 2(2) by (force simp: new_account_def)
  have done': "sd_created result = filter (\<lambda>a. \<forall>u \<in> set (users (w_db w)). u_email u \<noteq> sa_email a) INTERNAL_SEED_ACCOUNTS \<and>
      (\<forall>a \<in> set INTERNAL_SEED_ACCOUNTS. \<exists>u \<in> set (users (w_db w')). u_email u = sa_email a)"
    if "r = Inr result" for result
  proof -
    have answer: "fst ?run = Inr result"
      using that 2(3) by simp
    have "sd_created result = filter (\<lambda>a. \<not> prisma_seed.taken (0, w) a) INTERNAL_SEED_ACCOUNTS"
      using prisma_seed.completes [OF answer internal_accounts(2)] by simp
    moreover have "prisma_seed.taken (snd ?run) a" if "a \<in> set INTERNAL_SEED_ACCOUNTS" for a
      using prisma_seed.all_taken [OF answer internal_accounts(2) that] .
    ultimately show ?thesis
      using 2(4) by (simp add: prisma_seed.taken_def accounts_in_def)
  qed
  show ?thesis using new(1) added done' 2(1) by blast
qed auto

text \<open>
  The account and its event are two statements: when the second fails, the account exists without
  its event, and the next run takes it for one that was there before.
\<close>

definition seed_fault :: "nat \<Rightarrow> fault option" where
  "seed_fault n = (if n = 2 then Some (Fails_before (Error ''down'')) else None)"

lemma seed_unaudited:
  "map u_email (users (w_db (snd (seed_command (Some ''test'') (Some ''twelve-chars'') (Some ''postgres:'') (solo seed_fault int)
       (\<lambda>n. decimal n) hex_crypto (world_of empty_db))))) = [''professional@legaltech.test''] \<and>
   auditLogs (w_db (snd (seed_command (Some ''test'') (Some ''twelve-chars'') (Some ''postgres:'') (solo seed_fault int)
       (\<lambda>n. decimal n) hex_crypto (world_of empty_db)))) = []"
  by code_simp

theorem seed_only_adds_witness:
  "\<exists>result w'. seed_command (Some ''test'') (Some ''twelve-chars'') (Some ''postgres:'') (solo (\<lambda>_. None) int) (\<lambda>n. decimal n)
      hex_crypto (world_of empty_db) = (Inr result, w') \<and>
    length (users (w_db w')) = 3 \<and> sd_created result = INTERNAL_SEED_ACCOUNTS"
proof -
  let ?run = "seed_command (Some ''test'') (Some ''twelve-chars'') (Some ''postgres:'') (solo (\<lambda>_. None) int) (\<lambda>n. decimal n)
      hex_crypto (world_of empty_db)"
  have run: "?run = (fst ?run, snd ?run)" by simp
  have three: "length (users (w_db (snd ?run))) = 3" by code_simp
  have "case fst ?run of Inr _ \<Rightarrow> True | Inl _ \<Rightarrow> False" by code_simp
  then obtain result where result: "fst ?run = Inr result" by (auto split: sum.splits)
  have "sd_created result = INTERNAL_SEED_ACCOUNTS"
    using seed_only_adds [OF run] result by (simp add: world_of_def empty_db_def)
  then show ?thesis using run result three by metis
qed

end
