(* ===== verification/Web_Client.thy ===== *)
theory Web_Client
  imports Route_Guards Numbers
begin

text \<open>
  The web application's side of the API. In the browser: the client of apps/web/src/lib/api-client.ts,
  over a \<open>fetch\<close> it is given, and the token of an email link (verification-link.ts). On the web
  server: the reads for the pages (session.ts, cases.ts) and what stands before the API on the web
  origin (middleware.ts, config/upload-guard.ts, config/api-proxy.ts, config/csp.ts). The bodies of
  the API's replies keep their shape: reading a property another body has not gives undefined,
  written None.
\<close>

section \<open>Answers\<close>

datatype payload = Not_json | Body reply_body

record response =
  rs_status :: int
  rs_payload :: payload

text \<open>\<open>data\<close> is undefined after a 204.\<close>

datatype 'a api_result = Ok 'a | Failed int string

definition FALLBACK_MESSAGE :: string where
  "FALLBACK_MESSAGE = ''No se pudo completar la solicitud. Intentalo de nuevo.''"

record fetch_init =
  fi_method :: string
  fi_headers :: "(string \<times> string) list"
  fi_credentials :: string
  fi_cache :: string
  fi_body :: body

type_synonym 's fetch = "string \<Rightarrow> fetch_init \<Rightarrow> 's \<Rightarrow> response option \<times> 's"

record client_init =
  ci_method :: string
  ci_body :: "jvalue option"
  ci_csrfToken :: "string option"
  ci_file :: "(bytes \<times> js_text) option"

definition set_header :: "string \<Rightarrow> string \<Rightarrow> (string \<times> string) list \<Rightarrow> (string \<times> string) list" where
  "set_header name v hs = filter (\<lambda>(n, _). n \<noteq> name) hs @ [(name, v)]"

definition type_error :: exn where
  "type_error = Error ''TypeError''"

section \<open>The client in the browser (api-client.ts)\<close>

text \<open>\<open>encodeURIComponent\<close> throws for a lone surrogate; an empty token counts as absent.\<close>

definition client_headers :: "client_init \<Rightarrow> exn + (string \<times> string) list" where
  "client_headers init =
    (let hs = [(''accept'', ''application/json'')];
         hs = (if ci_body init \<noteq> None then set_header ''content-type'' ''application/json'' hs else hs)
     in case (case ci_file init of
                None \<Rightarrow> Inr hs
              | Some (_, name) \<Rightarrow>
                  (case encodeURIComponent name of
                     None \<Rightarrow> Inl (Error ''URIError'')
                   | Some encoded \<Rightarrow>
                       Inr (set_header ''x-file-name'' encoded
                             (set_header ''content-type'' ''application/octet-stream'' hs)))) of
          Inl e \<Rightarrow> Inl e
        | Inr hs' \<Rightarrow>
            Inr (case ci_csrfToken init of
                   Some token \<Rightarrow> if token \<noteq> [] then set_header ''x-csrf-token'' token hs' else hs'
                 | None \<Rightarrow> hs'))"

definition client_body :: "client_init \<Rightarrow> body" where
  "client_body init =
    (case ci_file init of
       Some (content, _) \<Rightarrow> Raw content
     | None \<Rightarrow> (case ci_body init of None \<Rightarrow> No_body | Some v \<Rightarrow> Json v))"

definition response_ok :: "response \<Rightarrow> bool" where
  "response_ok r \<longleftrightarrow> 200 \<le> rs_status r \<and> rs_status r \<le> 299"

text \<open>\<open>error?.error?.message ?? FALLBACK_MESSAGE\<close>.\<close>

definition shown_message :: "payload \<Rightarrow> string" where
  "shown_message p = (case p of Body (B_error e) \<Rightarrow> ae_message e | _ \<Rightarrow> FALLBACK_MESSAGE)"

definition client_request ::
  "'s fetch \<Rightarrow> string \<Rightarrow> client_init \<Rightarrow> ('s, exn, reply_body option api_result) prog" where
  "client_request fetchImpl path init =
    (case client_headers init of
       Inl e \<Rightarrow> throwE e
     | Inr hs \<Rightarrow> (\<lambda>s.
         case fetchImpl path \<lparr>fi_method = ci_method init, fi_headers = hs, fi_credentials = ''same-origin'',
                fi_cache = ''no-store'', fi_body = client_body init\<rparr> s of
           (None, s') \<Rightarrow> (Inr (Failed 0 FALLBACK_MESSAGE), s')
         | (Some r, s') \<Rightarrow>
             if response_ok r
             then if rs_status r = 204 then (Inr (Ok None), s')
                  else (case rs_payload r of
                          Not_json \<Rightarrow> (Inl (Error ''SyntaxError''), s')
                        | Body b \<Rightarrow> (Inr (Ok (Some b)), s'))
             else (Inr (Failed (rs_status r) (shown_message (rs_payload r))), s')))"

text \<open>\<open>result.ok ? { ok: true, data: result.data.name } : result\<close>.\<close>

definition selecting ::
  "(reply_body \<Rightarrow> 'a option) \<Rightarrow> ('s, exn, reply_body option api_result) prog \<Rightarrow> ('s, exn, 'a option api_result) prog" where
  "selecting sel m = bindE m (\<lambda>result.
     case result of
       Ok (Some b) \<Rightarrow> returnE (Ok (sel b))
     | Ok None \<Rightarrow> throwE type_error
     | Failed st msg \<Rightarrow> returnE (Failed st msg))"

definition discarding ::
  "('s, exn, reply_body option api_result) prog \<Rightarrow> ('s, exn, unit api_result) prog" where
  "discarding m = bindE m (\<lambda>result.
     case result of Ok _ \<Rightarrow> returnE (Ok ()) | Failed st msg \<Rightarrow> returnE (Failed st msg))"

definition posting :: "jvalue \<Rightarrow> client_init" where
  "posting v = \<lparr>ci_method = ''POST'', ci_body = Some v, ci_csrfToken = None, ci_file = None\<rparr>"

definition getting :: client_init where
  "getting = \<lparr>ci_method = ''GET'', ci_body = None, ci_csrfToken = None, ci_file = None\<rparr>"

definition user_of :: "reply_body \<Rightarrow> public_user option" where
  "user_of b = (case b of B_user u \<Rightarrow> Some u | _ \<Rightarrow> None)"

definition csrf_of :: "reply_body \<Rightarrow> string option" where
  "csrf_of b = (case b of B_csrf t \<Rightarrow> Some t | _ \<Rightarrow> None)"

definition case_of :: "reply_body \<Rightarrow> public_case option" where
  "case_of b = (case b of B_case c \<Rightarrow> Some c | _ \<Rightarrow> None)"

definition document_of :: "reply_body \<Rightarrow> public_document option" where
  "document_of b = (case b of B_document d \<Rightarrow> Some d | _ \<Rightarrow> None)"

definition client_login :: "'s fetch \<Rightarrow> string \<Rightarrow> string \<Rightarrow> ('s, exn, public_user option api_result) prog" where
  "client_login fetchImpl email password =
     selecting user_of (client_request fetchImpl ''/api/auth/login''
       (posting (JObj [(''email'', JString email), (''password'', JString password)])))"

definition client_register :: "'s fetch \<Rightarrow> string \<Rightarrow> string \<Rightarrow> string \<Rightarrow> ('s, exn, unit api_result) prog" where
  "client_register fetchImpl email password fullName =
     discarding (client_request fetchImpl ''/api/auth/register''
       (posting (JObj [(''email'', JString email), (''password'', JString password), (''fullName'', JString fullName)])))"

definition client_verifyEmail :: "'s fetch \<Rightarrow> string \<Rightarrow> ('s, exn, unit api_result) prog" where
  "client_verifyEmail fetchImpl token =
     discarding (client_request fetchImpl ''/api/auth/email/verify'' (posting (JObj [(''token'', JString token)])))"

definition client_forgotPassword :: "'s fetch \<Rightarrow> string \<Rightarrow> ('s, exn, unit api_result) prog" where
  "client_forgotPassword fetchImpl email =
     discarding (client_request fetchImpl ''/api/auth/password/forgot'' (posting (JObj [(''email'', JString email)])))"

definition client_resetPassword :: "'s fetch \<Rightarrow> string \<Rightarrow> string \<Rightarrow> ('s, exn, unit api_result) prog" where
  "client_resetPassword fetchImpl token newPassword =
     discarding (client_request fetchImpl ''/api/auth/password/reset''
       (posting (JObj [(''token'', JString token), (''newPassword'', JString newPassword)])))"

text \<open>
  The calls with a session first ask for its CSRF token; all but the logout stop when that fails.
\<close>

definition client_csrf :: "'s fetch \<Rightarrow> ('s, exn, string option api_result) prog" where
  "client_csrf fetchImpl = selecting csrf_of (client_request fetchImpl ''/api/auth/csrf'' getting)"

definition with_csrf ::
  "'s fetch \<Rightarrow> (string option \<Rightarrow> ('s, exn, 'a api_result) prog) \<Rightarrow> ('s, exn, 'a api_result) prog" where
  "with_csrf fetchImpl h = bindE (client_csrf fetchImpl) (\<lambda>csrf.
     case csrf of Failed st msg \<Rightarrow> returnE (Failed st msg) | Ok token \<Rightarrow> h token)"

definition client_rotateSession :: "'s fetch \<Rightarrow> ('s, exn, reply_body option api_result) prog" where
  "client_rotateSession fetchImpl = with_csrf fetchImpl (\<lambda>token.
     client_request fetchImpl ''/api/auth/session/rotate''
       \<lparr>ci_method = ''POST'', ci_body = None, ci_csrfToken = token, ci_file = None\<rparr>)"

definition client_logout :: "'s fetch \<Rightarrow> ('s, exn, reply_body option api_result) prog" where
  "client_logout fetchImpl = bindE (client_csrf fetchImpl) (\<lambda>csrf.
     client_request fetchImpl ''/api/auth/logout''
       \<lparr>ci_method = ''POST'', ci_body = None,
        ci_csrfToken = (case csrf of Ok token \<Rightarrow> token | Failed _ _ \<Rightarrow> None), ci_file = None\<rparr>)"

definition client_createCase :: "'s fetch \<Rightarrow> case_type \<Rightarrow> ('s, exn, public_case option api_result) prog" where
  "client_createCase fetchImpl ctype = with_csrf fetchImpl (\<lambda>token.
     selecting case_of (client_request fetchImpl ''/api/cases''
       ((posting (JObj [(''type'', JString (case_type_name ctype))]))\<lparr>ci_csrfToken := token\<rparr>)))"

definition encoded_path :: "string \<Rightarrow> js_text \<Rightarrow> string \<Rightarrow> exn + string" where
  "encoded_path before part after =
    (case encodeURIComponent part of None \<Rightarrow> Inl (Error ''URIError'') | Some p \<Rightarrow> Inr (before @ p @ after))"

definition at_url :: "exn + string \<Rightarrow> (string \<Rightarrow> ('s, exn, 'a) prog) \<Rightarrow> ('s, exn, 'a) prog" where
  "at_url url h = (case url of Inl e \<Rightarrow> throwE e | Inr u \<Rightarrow> h u)"

definition client_uploadDocument ::
  "'s fetch \<Rightarrow> js_text \<Rightarrow> bytes \<Rightarrow> js_text \<Rightarrow> ('s, exn, public_document option api_result) prog" where
  "client_uploadDocument fetchImpl case_id content name = with_csrf fetchImpl (\<lambda>token.
     at_url (encoded_path ''/api/cases/'' case_id ''/documents'') (\<lambda>url.
       selecting document_of (client_request fetchImpl url
         \<lparr>ci_method = ''POST'', ci_body = None, ci_csrfToken = token, ci_file = Some (content, name)\<rparr>)))"

definition document_url :: "js_text \<Rightarrow> js_text \<Rightarrow> string \<Rightarrow> exn + string" where
  "document_url case_id documentId what =
    (case encoded_path ''/api/cases/'' case_id ''/documents/'' of
       Inl e \<Rightarrow> Inl e
     | Inr front \<Rightarrow> encoded_path front documentId what)"

definition client_getDocumentDownloadUrl ::
  "'s fetch \<Rightarrow> js_text \<Rightarrow> js_text \<Rightarrow> ('s, exn, reply_body option api_result) prog" where
  "client_getDocumentDownloadUrl fetchImpl case_id documentId =
     at_url (document_url case_id documentId ''/download'') (\<lambda>url. client_request fetchImpl url getting)"

definition client_getDocumentOcr ::
  "'s fetch \<Rightarrow> js_text \<Rightarrow> js_text \<Rightarrow> ('s, exn, reply_body option api_result) prog" where
  "client_getDocumentOcr fetchImpl case_id documentId =
     at_url (document_url case_id documentId ''/ocr'') (\<lambda>url. client_request fetchImpl url getting)"

end
