(* ===== verification/Web_Server.thy ===== *)
theory Web_Server
  imports Web_Client
begin

text \<open>
  What runs on the web origin besides the pages: the reads of the API by the web server
  (apps/web/src/lib/session.ts, cases.ts), the token of an email link (verification-link.ts), the
  middleware with its policy and its guard of the uploads (middleware.ts, config/csp.ts,
  config/upload-guard.ts), and the proxy to the API (config/api-proxy.ts).
\<close>

section \<open>Reads of the API (session.ts, cases.ts)\<close>

definition token_char :: "char \<Rightarrow> bool" where
  "token_char c \<longleftrightarrow> is_digit c \<or> (let n = of_char c :: nat in (65 \<le> n \<and> n \<le> 90) \<or> (97 \<le> n \<and> n \<le> 122)) \<or>
     c = CHR ''_'' \<or> c = CHR ''-''"

text \<open>\<open>SESSION_TOKEN_PATTERN\<close>, the same in both files and in verification-link.ts.\<close>

definition SESSION_TOKEN_PATTERN :: "string \<Rightarrow> bool" where
  "SESSION_TOKEN_PATTERN s \<longleftrightarrow> 1 \<le> length s \<and> length s \<le> 256 \<and> list_all token_char s"

definition CASE_ID_PATTERN :: "string \<Rightarrow> bool" where
  "CASE_ID_PATTERN s \<longleftrightarrow> map length (split_on (CHR ''-'') s) = [8, 4, 4, 4, 12] \<and>
     list_all (\<lambda>g. list_all (\<lambda>c. hex_digit c \<noteq> None) g) (split_on (CHR ''-'') s)"

text \<open>The web server's \<open>fetch\<close>: a GET of a URL with headers.\<close>

type_synonym 's server_fetch = "string \<Rightarrow> (string \<times> string) list \<Rightarrow> 's \<Rightarrow> response option \<times> 's"

definition forwarded_headers :: "string \<Rightarrow> (string \<times> string) list" where
  "forwarded_headers sessionToken =
     [(''cookie'', SESSION_COOKIE @ ''='' @ sessionToken), (''accept'', ''application/json'')]"

definition refused_token :: "string option \<Rightarrow> bool" where
  "refused_token sessionToken \<longleftrightarrow>
    (case sessionToken of None \<Rightarrow> True | Some t \<Rightarrow> t = [] \<or> \<not> SESSION_TOKEN_PATTERN t)"

definition getCurrentUser ::
  "'s server_fetch \<Rightarrow> string \<Rightarrow> string option \<Rightarrow> 's \<Rightarrow> public_user option \<times> 's" where
  "getCurrentUser fetchImpl apiInternalUrl sessionToken s =
    (if refused_token sessionToken then (None, s)
     else case fetchImpl (apiInternalUrl @ ''/api/auth/me'') (forwarded_headers (the sessionToken)) s of
       (None, s') \<Rightarrow> (None, s')
     | (Some r, s') \<Rightarrow>
         if rs_status r \<noteq> 200 then (None, s')
         else (case rs_payload r of Not_json \<Rightarrow> (None, s') | Body b \<Rightarrow> (user_of b, s')))"

datatype 'a cases_read = Read_ok 'a | Read_unauthenticated | Read_not_found | Read_error

definition readFromApi ::
  "'s server_fetch \<Rightarrow> string \<Rightarrow> string \<Rightarrow> string option \<Rightarrow> 's \<Rightarrow> reply_body cases_read \<times> 's" where
  "readFromApi fetchImpl apiInternalUrl path sessionToken s =
    (if refused_token sessionToken then (Read_unauthenticated, s)
     else case fetchImpl (apiInternalUrl @ path) (forwarded_headers (the sessionToken)) s of
       (None, s') \<Rightarrow> (Read_error, s')
     | (Some r, s') \<Rightarrow>
         if rs_status r = 200
         then (case rs_payload r of Not_json \<Rightarrow> (Read_error, s') | Body b \<Rightarrow> (Read_ok b, s'))
         else if rs_status r = 401 then (Read_unauthenticated, s')
         else if rs_status r = 404 then (Read_not_found, s')
         else (Read_error, s'))"

fun reading :: "(reply_body \<Rightarrow> 'a) \<Rightarrow> reply_body cases_read \<Rightarrow> 'a cases_read" where
  "reading sel (Read_ok b) = Read_ok (sel b)"
| "reading sel Read_unauthenticated = Read_unauthenticated"
| "reading sel Read_not_found = Read_not_found"
| "reading sel Read_error = Read_error"

definition cases_of :: "reply_body \<Rightarrow> public_case list option" where
  "cases_of b = (case b of B_cases cs \<Rightarrow> Some cs | _ \<Rightarrow> None)"

definition case_detail_of :: "reply_body \<Rightarrow> (public_case \<times> public_status_change list) option" where
  "case_detail_of b = (case b of B_case_detail p \<Rightarrow> Some p | _ \<Rightarrow> None)"

definition documents_of :: "reply_body \<Rightarrow> public_document list option" where
  "documents_of b = (case b of B_documents ds \<Rightarrow> Some ds | _ \<Rightarrow> None)"

definition getOwnCases ::
  "'s server_fetch \<Rightarrow> string \<Rightarrow> string option \<Rightarrow> 's \<Rightarrow> public_case list option cases_read \<times> 's" where
  "getOwnCases fetchImpl apiInternalUrl sessionToken s =
    (case readFromApi fetchImpl apiInternalUrl ''/api/cases'' sessionToken s of
       (r, s') \<Rightarrow> (reading cases_of r, s'))"

text \<open>A malformed id still sends an anonymous visitor to the login page.\<close>

definition at_case ::
  "string \<Rightarrow> string option \<Rightarrow> ('s \<Rightarrow> 'a cases_read \<times> 's) \<Rightarrow> 's \<Rightarrow> 'a cases_read \<times> 's" where
  "at_case case_id sessionToken h s =
    (if \<not> CASE_ID_PATTERN case_id
     then (if refused_token sessionToken then (Read_unauthenticated, s) else (Read_not_found, s))
     else h s)"

definition getOwnCase ::
  "'s server_fetch \<Rightarrow> string \<Rightarrow> string \<Rightarrow> string option \<Rightarrow> 's \<Rightarrow>
     (public_case \<times> public_status_change list) option cases_read \<times> 's" where
  "getOwnCase fetchImpl apiInternalUrl case_id sessionToken = at_case case_id sessionToken (\<lambda>s.
     case readFromApi fetchImpl apiInternalUrl (''/api/cases/'' @ case_id) sessionToken s of
       (r, s') \<Rightarrow> (reading case_detail_of r, s'))"

definition getCaseDocuments ::
  "'s server_fetch \<Rightarrow> string \<Rightarrow> string \<Rightarrow> string option \<Rightarrow> 's \<Rightarrow>
     public_document list option cases_read \<times> 's" where
  "getCaseDocuments fetchImpl apiInternalUrl case_id sessionToken = at_case case_id sessionToken (\<lambda>s.
     case readFromApi fetchImpl apiInternalUrl (''/api/cases/'' @ case_id @ ''/documents'') sessionToken s of
       (r, s') \<Rightarrow> (reading documents_of r, s'))"

section \<open>The token of an email link (verification-link.ts)\<close>

text \<open>
  \<open>URLSearchParams\<close>: a leading question mark is dropped, the pairs are separated by \<open>&\<close>, the
  first \<open>=\<close> ends the name, \<open>+\<close> is a space and \<open>%\<close> escapes an octet. Names and values are
  octets here; both are compared with ASCII texts only.
\<close>

fun percent_decode :: "string \<Rightarrow> string" where
  "percent_decode (c # a # b # s) =
    (if c = CHR ''%'' \<and> hex_digit a \<noteq> None \<and> hex_digit b \<noteq> None
     then char_of (16 * the (hex_digit a) + the (hex_digit b)) # percent_decode s
     else c # percent_decode (a # b # s))"
| "percent_decode s = s"

definition form_decode :: "string \<Rightarrow> string" where
  "form_decode s = percent_decode (map (\<lambda>c. if c = CHR ''+'' then CHR '' '' else c) s)"

definition form_pair :: "string \<Rightarrow> string \<times> string" where
  "form_pair s =
    (form_decode (takeWhile (\<lambda>c. c \<noteq> CHR ''='') s), form_decode (drop 1 (dropWhile (\<lambda>c. c \<noteq> CHR ''='') s)))"

definition search_params :: "string \<Rightarrow> (string \<times> string) list" where
  "search_params s =
     map form_pair (filter (\<lambda>p. p \<noteq> [])
       (split_on (CHR ''&'') (case s of c # r \<Rightarrow> if c = CHR ''?'' then r else s | [] \<Rightarrow> [])))"

definition readTokenFromFragment :: "string \<Rightarrow> string option" where
  "readTokenFromFragment hash =
    (case map_of (search_params (case hash of c # r \<Rightarrow> if c = CHR ''#'' then r else hash | [] \<Rightarrow> [])) ''token'' of
       None \<Rightarrow> None
     | Some token \<Rightarrow> if token \<noteq> [] \<and> SESSION_TOKEN_PATTERN token then Some token else None)"

section \<open>The middleware (middleware.ts, upload-guard.ts, csp.ts)\<close>

definition UPLOAD_PATH :: "string \<Rightarrow> bool" where
  "UPLOAD_PATH pathname \<longleftrightarrow>
    (case split_on (CHR ''/'') pathname of
       [a, b, c, caseId', d] \<Rightarrow> a = [] \<and> b = ''api'' \<and> c = ''cases'' \<and> caseId' \<noteq> [] \<and> d = ''documents''
     | _ \<Rightarrow> False)"

definition oversizedUploadError :: "string \<Rightarrow> string \<Rightarrow> string option \<Rightarrow> string \<Rightarrow> api_error option" where
  "oversizedUploadError method pathname contentLength rid =
    (case contentLength of
       None \<Rightarrow> None
     | Some s \<Rightarrow>
         if method \<noteq> ''POST'' \<or> \<not> UPLOAD_PATH pathname then None
         else let declared = js_Number s
              in if \<not> is_finite declared \<or> at_most declared DOCUMENT_MAX_BYTES then None
                 else Some \<lparr>ae_code = PAYLOAD_TOO_LARGE,
                            ae_message = ''La solicitud supera el tamano maximo permitido.'',
                            ae_details = [], ae_requestId = rid\<rparr>)"

text \<open>\<open>btoa\<close> of octets.\<close>

definition base64_char :: "nat \<Rightarrow> char" where
  "base64_char n =
    (if n < 26 then char_of (65 + n) else if n < 52 then char_of (71 + n)
     else if n < 62 then char_of (n - 4) else if n = 62 then CHR ''+'' else CHR ''/'')"

fun btoa :: "nat list \<Rightarrow> string" where
  "btoa [] = []"
| "btoa [a] = [base64_char (a div 4), base64_char (16 * (a mod 4)), CHR ''='', CHR ''='']"
| "btoa [a, b] = [base64_char (a div 4), base64_char (16 * (a mod 4) + b div 16),
     base64_char (4 * (b mod 16)), CHR ''='']"
| "btoa (a # b # c # s) = [base64_char (a div 4), base64_char (16 * (a mod 4) + b div 16),
     base64_char (4 * (b mod 16) + c div 64), base64_char (c mod 64)] @ btoa s"

text \<open>The nonce of a request, from its sixteen random octets.\<close>

definition generateNonce :: "nat list \<Rightarrow> string" where
  "generateNonce octets = btoa octets"

definition quoted :: "string \<Rightarrow> string" where
  "quoted s = CHR 0x27 # s @ [CHR 0x27]"

definition csp_directives :: "string \<Rightarrow> bool \<Rightarrow> string list list" where
  "csp_directives nonce isDevelopment =
     [[''default-src'', quoted ''self''],
      [''script-src'', quoted ''self'', quoted (''nonce-'' @ nonce),
       quoted ''strict-dynamic''] @
        (if isDevelopment then [quoted ''unsafe-eval''] else []),
      [''style-src'', quoted ''self''] @
        (if isDevelopment then [quoted ''unsafe-inline'']
         else [quoted (''nonce-'' @ nonce)]),
      [''img-src'', quoted ''self'', ''blob:'', ''data:''],
      [''font-src'', quoted ''self''],
      [''connect-src'', quoted ''self''],
      [''object-src'', quoted ''none''],
      [''base-uri'', quoted ''self''],
      [''form-action'', quoted ''self''],
      [''frame-ancestors'', quoted ''none'']] @
     (if \<not> isDevelopment then [[''upgrade-insecure-requests'']] else [])"

definition buildContentSecurityPolicy :: "string \<Rightarrow> bool \<Rightarrow> string" where
  "buildContentSecurityPolicy nonce isDevelopment =
     joined ''; '' (map (joined '' '') (csp_directives nonce isDevelopment))"

record web_request =
  wr_method :: string
  wr_pathname :: string
  wr_contentLength :: "string option"
  wr_headers :: "(string \<times> string) list"

datatype middleware_result =
    Forwarded
  | Answered int api_error "(string \<times> string) list"
  | Page_request "(string \<times> string) list" "(string \<times> string) list"

text \<open>\<open>Page_request\<close> has the headers the page is rendered with and those of its response.\<close>

definition middleware :: "string \<Rightarrow> nat list \<Rightarrow> bool \<Rightarrow> web_request \<Rightarrow> middleware_result" where
  "middleware newId octets isDevelopment req =
    (if take 5 (wr_pathname req) = ''/api/''
     then (case oversizedUploadError (wr_method req) (wr_pathname req) (wr_contentLength req) newId of
             None \<Rightarrow> Forwarded
           | Some e \<Rightarrow> Answered 413 e [(''x-request-id'', newId), (''cache-control'', ''no-store'')])
     else
       let nonce = generateNonce octets; policy = buildContentSecurityPolicy nonce isDevelopment
       in Page_request
            (set_header ''content-security-policy'' policy (set_header ''x-nonce'' nonce (wr_headers req)))
            [(''content-security-policy'', policy)])"

section \<open>The proxy (api-proxy.ts, next.config.ts)\<close>

definition DEFAULT_API_INTERNAL_URL :: string where
  "DEFAULT_API_INTERNAL_URL = ''http://127.0.0.1:4000''"

text \<open>\<open>new URL(value)\<close> throws (None) or has a protocol and an origin.\<close>

definition resolveApiInternalUrl :: "(string \<Rightarrow> (string \<times> string) option) \<Rightarrow> string option \<Rightarrow> exn + string" where
  "resolveApiInternalUrl url v =
    (case v of
       None \<Rightarrow> Inr DEFAULT_API_INTERNAL_URL
     | Some value' \<Rightarrow>
         if value' = [] then Inr DEFAULT_API_INTERNAL_URL
         else (case url value' of
                 None \<Rightarrow> Inl (Error ''API_INTERNAL_URL must be an absolute http(s) URL.'')
               | Some (protocol, origin) \<Rightarrow>
                   if (protocol \<noteq> ''http:'' \<and> protocol \<noteq> ''https:'') \<or> origin \<noteq> value'
                   then Inl (Error ''API_INTERNAL_URL must be a bare origin (scheme://host[:port]) with no trailing slash or path.'')
                   else Inr value'))"

definition PROXY_BODY_BUFFER_BYTES :: int where
  "PROXY_BODY_BUFFER_BYTES = DOCUMENT_MAX_BYTES + 1024 * 1024"

definition apiProxyRewrites :: "string \<Rightarrow> (string \<times> string) list" where
  "apiProxyRewrites apiInternalUrl = [(''/api/:path*'', apiInternalUrl @ ''/api/:path*'')]"

definition securityHeaders :: "(string \<times> string) list" where
  "securityHeaders =
    [(''X-Content-Type-Options'', ''nosniff''), (''X-Frame-Options'', ''DENY''),
     (''Referrer-Policy'', ''strict-origin-when-cross-origin''),
     (''Permissions-Policy'', ''camera=(), microphone=(), geolocation=()'')]"

end
