(* ===== verification/Web_Pages.thy ===== *)
theory Web_Pages
  imports Web_Server
begin

text \<open>
  The pages of the web application (apps/web/src/app): what each page of the server decides from
  its reads, what each form and button of the browser does with the client's answer, and the labels
  they share (apps/web/src/lib/case-labels.ts). A page is described by what depends on the data:
  the redirections, the texts computed from it and the controls shown; the markup is left out.
\<close>

section \<open>Labels (case-labels.ts)\<close>

fun CASE_TYPE_LABELS :: "case_type \<Rightarrow> string" where
  "CASE_TYPE_LABELS TRAFFIC_CITATION = ''Comparendo''"
| "CASE_TYPE_LABELS INFRACTION = ''Infraccion''"
| "CASE_TYPE_LABELS PHOTO_ENFORCEMENT = ''Fotodeteccion''"
| "CASE_TYPE_LABELS TRANSPORT = ''Transporte''"
| "CASE_TYPE_LABELS NOTIFICATION = ''Notificacion''"
| "CASE_TYPE_LABELS ADMINISTRATIVE_PROCEEDING = ''Actuacion administrativa''"
| "CASE_TYPE_LABELS OTHER = ''Otro''"

definition CASE_TYPES :: "case_type list" where
  "CASE_TYPES = [TRAFFIC_CITATION, INFRACTION, PHOTO_ENFORCEMENT, TRANSPORT, NOTIFICATION,
     ADMINISTRATIVE_PROCEEDING, OTHER]"

fun CASE_STATUS_LABELS :: "case_status \<Rightarrow> string" where
  "CASE_STATUS_LABELS DRAFT = ''Borrador''"
| "CASE_STATUS_LABELS DOCUMENTS_PENDING = ''Documentos pendientes''"
| "CASE_STATUS_LABELS PRELIMINARY_ANALYSIS = ''Analisis preliminar''"
| "CASE_STATUS_LABELS PAYMENT_PENDING = ''Pago pendiente''"
| "CASE_STATUS_LABELS PAID = ''Pagado''"
| "CASE_STATUS_LABELS LEGAL_REVIEW = ''Revision juridica''"
| "CASE_STATUS_LABELS DOCUMENT_PREPARATION = ''Preparacion de documentos''"
| "CASE_STATUS_LABELS READY_TO_FILE = ''Listo para radicar''"
| "CASE_STATUS_LABELS FILED = ''Radicado''"
| "CASE_STATUS_LABELS WAITING_RESPONSE = ''En espera de respuesta''"
| "CASE_STATUS_LABELS RESPONSE_RECEIVED = ''Respuesta recibida''"
| "CASE_STATUS_LABELS FOLLOW_UP = ''Seguimiento''"
| "CASE_STATUS_LABELS RESOLVED = ''Resuelto''"
| "CASE_STATUS_LABELS CLOSED = ''Cerrado''"
| "CASE_STATUS_LABELS CANCELLED = ''Cancelado''"

definition isClosedStatus :: "case_status \<Rightarrow> bool" where
  "isClosedStatus status \<longleftrightarrow> status \<in> {RESOLVED, CLOSED, CANCELLED}"

definition splitByActivity :: "public_case list \<Rightarrow> public_case list \<times> public_case list" where
  "splitByActivity cs =
     (filter (\<lambda>c. \<not> isClosedStatus (pc_status c)) cs, filter (\<lambda>c. isClosedStatus (pc_status c)) cs)"

fun DOCUMENT_FILE_TYPE_LABELS :: "document_file_type \<Rightarrow> string" where
  "DOCUMENT_FILE_TYPE_LABELS PDF = ''PDF''"
| "DOCUMENT_FILE_TYPE_LABELS JPEG = ''Imagen JPEG''"
| "DOCUMENT_FILE_TYPE_LABELS PNG = ''Imagen PNG''"

fun DOCUMENT_STATUS_LABELS :: "document_status \<Rightarrow> string" where
  "DOCUMENT_STATUS_LABELS UPLOADED = ''Pendiente de analisis''"
| "DOCUMENT_STATUS_LABELS PENDING_SCAN = ''Pendiente de analisis''"
| "DOCUMENT_STATUS_LABELS SCANNING = ''En analisis''"
| "DOCUMENT_STATUS_LABELS CLEAN = ''Disponible''"
| "DOCUMENT_STATUS_LABELS INFECTED = ''Bloqueado: se detecto una amenaza''"
| "DOCUMENT_STATUS_LABELS SCAN_FAILED = ''Bloqueado: no se pudo analizar''"

fun DOCUMENT_OCR_STATUS_LABELS :: "document_ocr_status \<Rightarrow> string" where
  "DOCUMENT_OCR_STATUS_LABELS NOT_STARTED = ''Texto no procesado''"
| "DOCUMENT_OCR_STATUS_LABELS PENDING = ''Texto pendiente de procesar''"
| "DOCUMENT_OCR_STATUS_LABELS PROCESSING = ''Procesando el texto''"
| "DOCUMENT_OCR_STATUS_LABELS COMPLETED = ''Texto disponible''"
| "DOCUMENT_OCR_STATUS_LABELS FAILED = ''No se pudo obtener el texto''"
| "DOCUMENT_OCR_STATUS_LABELS NOT_APPLICABLE = ''Sin procesamiento de texto''"
| "DOCUMENT_OCR_STATUS_LABELS EXCLUDED = ''Sin procesamiento de texto por ahora''"

definition OCR_UNVERIFIED_WARNING :: string where
  "OCR_UNVERIFIED_WARNING = ''Texto obtenido automaticamente a partir del documento. No esta verificado y puede contener errores.''"

definition isDownloadable :: "document_status \<Rightarrow> bool" where
  "isDownloadable status \<longleftrightarrow> status = CLEAN"

text \<open>
  How the locale writes an instant, and a number of bytes divided by a unit with one decimal: of
  the runtime.
\<close>

record locale_text =
  lt_date :: "time \<Rightarrow> string"
  lt_quotient :: "int \<Rightarrow> int \<Rightarrow> string"

definition formatDate :: "locale_text \<Rightarrow> time \<Rightarrow> string" where
  "formatDate l t = lt_date l t"

definition formatFileSize :: "locale_text \<Rightarrow> int \<Rightarrow> string" where
  "formatFileSize l bytes' =
    (if bytes' < 1024 then (if bytes' < 0 then ''-'' else '''') @ decimal (nat \<bar>bytes'\<bar>) @ '' B''
     else if bytes' < 1024 * 1024 then lt_quotient l bytes' 1024 @ '' KB''
     else lt_quotient l bytes' (1024 * 1024) @ '' MB'')"

section \<open>Pages\<close>

datatype 'v page = Redirect string | Not_found_page | Shown 'v

text \<open>
  A page reads through the web server's \<open>fetch\<close> with the session cookie of its request. A value
  that a reply did not have throws when the page uses it.
\<close>

record page_env =
  pe_apiInternalUrl :: string
  pe_sessionToken :: "string option"
  pe_locale :: locale_text

type_synonym ('s, 'v) page_prog = "('s, exn, 'v page) prog"

definition used :: "'a option \<Rightarrow> ('a \<Rightarrow> ('s, exn, 'b) prog) \<Rightarrow> ('s, exn, 'b) prog" where
  "used v h = (case v of None \<Rightarrow> throwE type_error | Some x \<Rightarrow> h x)"

definition plain :: "('s \<Rightarrow> 'a \<times> 's) \<Rightarrow> ('s, exn, 'a) prog" where
  "plain m = (\<lambda>s. case m s of (x, s') \<Rightarrow> (Inr x, s'))"

record case_item =
  it_href :: string
  it_label :: string
  it_line :: string

definition case_item_of :: "page_env \<Rightarrow> public_case \<Rightarrow> case_item" where
  "case_item_of e c =
    \<lparr>it_href = ''/casos/'' @ pc_id c, it_label = CASE_TYPE_LABELS (pc_type c),
     it_line = CASE_STATUS_LABELS (pc_status c) @ '' - '' @ formatDate (pe_locale e) (pc_createdAt c)\<rparr>"

datatype cases_view = Case_items "case_item list" | Cases_message string

definition casesPage :: "'s server_fetch \<Rightarrow> page_env \<Rightarrow> ('s, cases_view) page_prog" where
  "casesPage fetchImpl e =
     bindE (plain (getOwnCases fetchImpl (pe_apiInternalUrl e) (pe_sessionToken e))) (\<lambda>result.
       case result of
         Read_unauthenticated \<Rightarrow> returnE (Redirect ''/iniciar-sesion'')
       | Read_ok cs \<Rightarrow> used cs (\<lambda>cs. returnE (Shown (Case_items (map (case_item_of e) cs))))
       | Read_not_found \<Rightarrow> returnE (Shown (Cases_message ''Los casos no estan disponibles para tu cuenta.''))
       | Read_error \<Rightarrow> returnE (Shown (Cases_message ''No se pudieron cargar tus casos. Intentalo de nuevo.'')))"

record panel_view =
  pv_fullName :: string
  pv_active :: "case_item list"
  pv_closed :: "case_item list"
  pv_message :: "string option"

definition dashboardPage :: "'s server_fetch \<Rightarrow> page_env \<Rightarrow> ('s, panel_view) page_prog" where
  "dashboardPage fetchImpl e =
     bindE (plain (getCurrentUser fetchImpl (pe_apiInternalUrl e) (pe_sessionToken e))) (\<lambda>user.
       case user of
         None \<Rightarrow> returnE (Redirect ''/iniciar-sesion'')
       | Some u \<Rightarrow>
           bindE (plain (getOwnCases fetchImpl (pe_apiInternalUrl e) (pe_sessionToken e))) (\<lambda>result.
             let message' = (\<lambda>m. returnE (Shown \<lparr>pv_fullName = pu_fullName u, pv_active = [], pv_closed = [], pv_message = Some m\<rparr>))
             in case result of
                  Read_ok cs \<Rightarrow> used cs (\<lambda>cs. returnE (Shown
                    \<lparr>pv_fullName = pu_fullName u,
                     pv_active = map (case_item_of e) (fst (splitByActivity cs)),
                     pv_closed = map (case_item_of e) (snd (splitByActivity cs)), pv_message = None\<rparr>))
                | Read_not_found \<Rightarrow> message' ''Todavia no hay nada que mostrar aqui.''
                | _ \<Rightarrow> message' ''No se pudieron cargar tus casos. Intentalo de nuevo.''))"

definition newCasePage :: "'s server_fetch \<Rightarrow> page_env \<Rightarrow> ('s, unit) page_prog" where
  "newCasePage fetchImpl e =
     bindE (plain (getCurrentUser fetchImpl (pe_apiInternalUrl e) (pe_sessionToken e))) (\<lambda>user.
       returnE (if user = None then Redirect ''/iniciar-sesion'' else Shown ()))"

text \<open>One document of a case: its line, and whether its text and its download are offered.\<close>

record document_item =
  di_id :: uuid
  di_fileName :: js_text
  di_line :: "string list"
  di_ocr :: "document_ocr_status option"
  di_download :: bool

definition document_item_of :: "page_env \<Rightarrow> public_document \<Rightarrow> document_item" where
  "document_item_of e d =
    \<lparr>di_id = pd_id d, di_fileName = pd_fileName d,
     di_line = [DOCUMENT_FILE_TYPE_LABELS (pd_fileType d), formatFileSize (pe_locale e) (pd_fileSize d),
       formatDate (pe_locale e) (pd_createdAt d), DOCUMENT_STATUS_LABELS (pd_status d)],
     di_ocr = (if isDownloadable (pd_status d) then Some (pd_ocrStatus d) else None),
     di_download = isDownloadable (pd_status d)\<rparr>"

record case_view =
  cv_title :: string
  cv_status :: string
  cv_created :: string
  cv_history :: "string list"
  cv_documents :: "document_item list option"
  cv_upload :: bool

definition history_line :: "page_env \<Rightarrow> public_status_change \<Rightarrow> string" where
  "history_line e h = formatDate (pe_locale e) (ph_changedAt h) @ '' - '' @
     (case ph_fromStatus h of
        Some from' \<Rightarrow> CASE_STATUS_LABELS from' @ '' > '' @ CASE_STATUS_LABELS (ph_toStatus h)
      | None \<Rightarrow> ''Creado en '' @ CASE_STATUS_LABELS (ph_toStatus h))"

text \<open>Without an answer about the case itself (\<open>error\<close>) there is no view of it.\<close>

definition casePage :: "'s server_fetch \<Rightarrow> page_env \<Rightarrow> string \<Rightarrow> ('s, case_view option) page_prog" where
  "casePage fetchImpl e i =
     bindE (plain (getOwnCase fetchImpl (pe_apiInternalUrl e) i (pe_sessionToken e))) (\<lambda>result.
       case result of
         Read_unauthenticated \<Rightarrow> returnE (Redirect ''/iniciar-sesion'')
       | Read_not_found \<Rightarrow> returnE Not_found_page
       | Read_error \<Rightarrow> returnE (Shown None)
       | Read_ok detail \<Rightarrow>
           bindE (plain (getCaseDocuments fetchImpl (pe_apiInternalUrl e) i (pe_sessionToken e))) (\<lambda>ds.
             used detail (\<lambda>(c, history).
               bindE (case ds of Read_ok v \<Rightarrow> used v (\<lambda>l. returnE (Some l)) | _ \<Rightarrow> returnE None) (\<lambda>shown.
                 returnE (Shown (Some
                   \<lparr>cv_title = CASE_TYPE_LABELS (pc_type c), cv_status = CASE_STATUS_LABELS (pc_status c),
                    cv_created = formatDate (pe_locale e) (pc_createdAt c),
                    cv_history = map (history_line e) history,
                    cv_documents = map_option (map (document_item_of e)) shown,
                    cv_upload = (pc_status c = DRAFT)\<rparr>))))))"

section \<open>Forms and buttons\<close>

text \<open>\<open>String(form.get(name) ?? "")\<close>.\<close>

definition given :: "string option \<Rightarrow> string" where
  "given v = (case v of Some s \<Rightarrow> s | None \<Rightarrow> [])"

text \<open>
  What a form does with an answer: it navigates, shows a message as an error, or changes to its
  final text. \<open>Nothing\<close> is a submission the form ignores.
\<close>

datatype form_result = Navigate string | Message string | Finished | Nothing

definition login_form :: "'s fetch \<Rightarrow> string option \<Rightarrow> string option \<Rightarrow> ('s, exn, form_result) prog" where
  "login_form fetchImpl email password =
     bindE (client_login fetchImpl (given email) (given password))
       (\<lambda>result. case result of Ok _ \<Rightarrow> returnE (Navigate ''/panel'') | Failed _ msg \<Rightarrow> returnE (Message msg))"

definition settled :: "'a api_result \<Rightarrow> form_result" where
  "settled result = (case result of Ok _ \<Rightarrow> Finished | Failed _ msg \<Rightarrow> Message msg)"

definition register_form ::
  "'s fetch \<Rightarrow> string option \<Rightarrow> string option \<Rightarrow> string option \<Rightarrow> ('s, exn, form_result) prog" where
  "register_form fetchImpl fullName email password =
     bindE (client_register fetchImpl (given email)
       (given password) (given fullName))
       (\<lambda>result. returnE (settled result))"

definition forgot_password_form :: "'s fetch \<Rightarrow> string option \<Rightarrow> ('s, exn, form_result) prog" where
  "forgot_password_form fetchImpl email =
     bindE (client_forgotPassword fetchImpl (given email))
       (\<lambda>result. returnE (settled result))"

text \<open>
  The token was read from the fragment when the page was mounted; without one there is only the
  message of an invalid link.
\<close>

definition INVALID_LINK :: string where
  "INVALID_LINK = ''El enlace no es valido o ha caducado.''"

definition reset_password_form :: "'s fetch \<Rightarrow> string \<Rightarrow> string option \<Rightarrow> ('s, exn, form_result) prog" where
  "reset_password_form fetchImpl hash newPassword =
     (case readTokenFromFragment hash of
        None \<Rightarrow> returnE Nothing
      | Some token \<Rightarrow>
          bindE (client_resetPassword fetchImpl token (given newPassword))
            (\<lambda>result. returnE (settled result)))"

definition verify_email_page :: "'s fetch \<Rightarrow> string \<Rightarrow> ('s, exn, form_result) prog" where
  "verify_email_page fetchImpl hash =
     (case readTokenFromFragment hash of
        None \<Rightarrow> returnE (Message INVALID_LINK)
      | Some token \<Rightarrow> bindE (client_verifyEmail fetchImpl token) (\<lambda>result. returnE (settled result)))"

definition new_case_form :: "'s fetch \<Rightarrow> string option \<Rightarrow> ('s, exn, form_result) prog" where
  "new_case_form fetchImpl v =
     (case Option.bind v (\<lambda>name. find (\<lambda>t. case_type_name t = name) CASE_TYPES) of
        None \<Rightarrow> returnE (Message ''Elige el tipo de situacion.'')
      | Some ctype \<Rightarrow>
          bindE (client_createCase fetchImpl ctype) (\<lambda>result.
            case result of
              Ok c \<Rightarrow> used c (\<lambda>c. returnE (Navigate (''/casos/'' @ pc_id c)))
            | Failed _ msg \<Rightarrow> returnE (Message msg)))"

definition document_upload ::
  "'s fetch \<Rightarrow> locale_text \<Rightarrow> js_text \<Rightarrow> (bytes \<times> js_text) option \<Rightarrow> ('s, exn, form_result) prog" where
  "document_upload fetchImpl l case_id file =
     (case file of
        None \<Rightarrow> returnE (Message ''Elige un archivo.'')
      | Some (content, name) \<Rightarrow>
          if content = [] then returnE (Message ''Elige un archivo.'')
          else if int (length content) > DOCUMENT_MAX_BYTES
          then returnE (Message (''El archivo supera el tamano maximo ('' @ formatFileSize l DOCUMENT_MAX_BYTES @ '').''))
          else bindE (client_uploadDocument fetchImpl case_id content name) (\<lambda>result. returnE (settled result)))"

definition document_download :: "'s fetch \<Rightarrow> js_text \<Rightarrow> js_text \<Rightarrow> ('s, exn, form_result) prog" where
  "document_download fetchImpl case_id documentId =
     bindE (client_getDocumentDownloadUrl fetchImpl case_id documentId) (\<lambda>result.
       case result of
         Failed _ msg \<Rightarrow> returnE (Message msg)
       | Ok b \<Rightarrow> used b (\<lambda>b. case b of B_download (url, _) \<Rightarrow> returnE (Navigate url) | _ \<Rightarrow> returnE (Navigate ''undefined'')))"

text \<open>The pages of text, or the message.\<close>

definition document_ocr ::
  "'s fetch \<Rightarrow> js_text \<Rightarrow> js_text \<Rightarrow> ('s, exn, string + (int \<times> js_text) list option) prog" where
  "document_ocr fetchImpl case_id documentId =
     bindE (client_getDocumentOcr fetchImpl case_id documentId) (\<lambda>result.
       case result of
         Failed _ msg \<Rightarrow> returnE (Inl msg)
       | Ok b \<Rightarrow> used b (\<lambda>b. returnE (Inr (case b of B_ocr ocr \<Rightarrow> Some (or_pages ocr) | _ \<Rightarrow> None))))"

definition logout_button :: "'s fetch \<Rightarrow> ('s, exn, form_result) prog" where
  "logout_button fetchImpl =
     bindE (client_logout fetchImpl) (\<lambda>result.
       case result of Failed _ msg \<Rightarrow> returnE (Message msg) | Ok _ \<Rightarrow> returnE (Navigate ''/iniciar-sesion''))"

text \<open>
  What the keeper of an open page does at once and every interval from then on: it asks for a
  rotation, and ignores the answer.
\<close>

definition session_keeper_tick :: "'s fetch \<Rightarrow> 's \<Rightarrow> 's" where
  "session_keeper_tick fetchImpl s = snd (client_rotateSession fetchImpl s)"

definition SESSION_ROTATION_CHECK_INTERVAL_MS :: int where
  "SESSION_ROTATION_CHECK_INTERVAL_MS = 5 * 60 * 1000"

end
