(* ===== verification/Web_Site.thy ===== *)
theory Web_Site
  imports Web_Pages
begin

text \<open>
  The web application and the API together: the paths the API registers (the plugins' prefixes of
  apps/api/src/app.ts and the routes of the modules), and the browser and the web server between
  them. Fastify's router, the browser's \<open>fetch\<close> and Next.js' proxy are libraries: the properties
  take them as parameters, with what the code relies on as the hypotheses \<open>registered\<close>,
  \<open>first_party\<close> and \<open>reads_api\<close>.
\<close>

section \<open>The registered routes\<close>

datatype segment = Static string | Param string

definition ROUTES :: "bool \<Rightarrow> (string \<times> segment list \<times> endpoint) list" where
  "ROUTES databaseUp =
    [(''GET'', [Static ''api'', Static ''health'', Static ''live''], GET_live),
     (''GET'', [Static ''api'', Static ''health'', Static ''ready''], GET_ready databaseUp),
     (''GET'', [Static ''api'', Static ''auth'', Static ''csrf''], GET_csrf),
     (''POST'', [Static ''api'', Static ''auth'', Static ''register''], POST_register),
     (''POST'', [Static ''api'', Static ''auth'', Static ''login''], POST_login),
     (''GET'', [Static ''api'', Static ''auth'', Static ''me''], GET_me),
     (''GET'', [Static ''api'', Static ''auth'', Static ''sessions''], GET_sessions),
     (''POST'', [Static ''api'', Static ''auth'', Static ''logout''], POST_logout),
     (''POST'', [Static ''api'', Static ''auth'', Static ''email'', Static ''verify''], POST_verify),
     (''POST'', [Static ''api'', Static ''auth'', Static ''email'', Static ''verification'', Static ''resend''], POST_resend),
     (''POST'', [Static ''api'', Static ''auth'', Static ''password'', Static ''forgot''], POST_forgot),
     (''POST'', [Static ''api'', Static ''auth'', Static ''password'', Static ''reset''], POST_reset),
     (''POST'', [Static ''api'', Static ''auth'', Static ''session'', Static ''rotate''], POST_rotate),
     (''POST'', [Static ''api'', Static ''auth'', Static ''logout-all''], POST_logout_all),
     (''DELETE'', [Static ''api'', Static ''auth'', Static ''sessions'', Param ''sessionId''], DELETE_session),
     (''POST'', [Static ''api'', Static ''cases''], POST_case),
     (''GET'', [Static ''api'', Static ''cases''], GET_cases),
     (''GET'', [Static ''api'', Static ''cases'', Param ''caseId''], GET_case),
     (''POST'', [Static ''api'', Static ''cases'', Param ''caseId'', Static ''documents''], POST_document),
     (''GET'', [Static ''api'', Static ''cases'', Param ''caseId'', Static ''documents''], GET_documents),
     (''GET'', [Static ''api'', Static ''cases'', Param ''caseId'', Static ''documents'', Param ''documentId'',
        Static ''download''], GET_download),
     (''GET'', [Static ''api'', Static ''cases'', Param ''caseId'', Static ''documents'', Param ''documentId'',
        Static ''ocr''], GET_ocr),
     (''POST'', [Static ''api'', Static ''admin'', Static ''documents'', Param ''documentId'', Static ''reprocess''],
        POST_reprocess),
     (''POST'', [Static ''api'', Static ''admin'', Static ''documents'', Param ''documentId'', Static ''ocr'',
        Static ''reprocess''], POST_ocr_reprocess)]"

text \<open>A parameter takes one segment that is not empty, decoded; texts beyond Latin-1 are left open.\<close>

definition decoded_segment :: "string \<Rightarrow> string option" where
  "decoded_segment s =
    (case decodeURIComponent s of
       Some t \<Rightarrow> if list_all (\<lambda>u. unat u < 256) t then Some (map (\<lambda>u. char_of (unat u)) t) else None
     | None \<Rightarrow> None)"

fun filled :: "segment list \<Rightarrow> string list \<Rightarrow> (string \<times> string) list option" where
  "filled [] [] = Some []"
| "filled (Static a # pat) (s # segs) = (if s = a then filled pat segs else None)"
| "filled (Param name # pat) (s # segs) =
    (if s = [] then None
     else case decoded_segment s of
       None \<Rightarrow> None
     | Some v \<Rightarrow> map_option (Cons (name, v)) (filled pat segs))"
| "filled _ _ = None"

definition path_segments :: "string \<Rightarrow> string list option" where
  "path_segments path = (case split_on (CHR ''/'') path of [] # segs \<Rightarrow> Some segs | _ \<Rightarrow> None)"

type_synonym router = "string \<Rightarrow> string \<Rightarrow> (endpoint \<times> (string \<times> string) list) option"

text \<open>What Fastify's router does with the registered routes.\<close>

definition registered :: "bool \<Rightarrow> router \<Rightarrow> bool" where
  "registered databaseUp router \<longleftrightarrow>
    (\<forall>(m, pat, e) \<in> set (ROUTES databaseUp). \<forall>path segs ps.
       path_segments path = Some segs \<longrightarrow> filled pat segs = Some ps \<longrightarrow> router m path = Some (e, ps))"

section \<open>The browser\<close>

text \<open>
  The cookies of the web origin, the API behind it, and the number of requests made so far: each
  request has its own clocks, generators and failures.
\<close>

record browser =
  br_jar :: "(string \<times> string) list"
  br_api :: api_state
  br_count :: nat

record site =
  st_cfg :: api_cfg
  st_router :: router
  st_env :: "nat \<Rightarrow> request_env"

fun set_cookies :: "(string \<times> string) list \<Rightarrow> set_cookie list \<Rightarrow> (string \<times> string) list" where
  "set_cookies jar [] = jar"
| "set_cookies jar (c # cs) =
     set_cookies (filter (\<lambda>(n, _). n \<noteq> ck_name c) jar @ (if ck_expired c then [] else [(ck_name c, ck_value c)])) cs"

definition header_of :: "string \<Rightarrow> (string \<times> string) list \<Rightarrow> header" where
  "header_of name hs = (case map_of hs name of None \<Rightarrow> Absent | Some v \<Rightarrow> One v)"

definition response_of :: "reply \<Rightarrow> response" where
  "response_of r =
    \<lparr>rs_status = rp_status r, rs_payload = (case rp_body r of B_none \<Rightarrow> Not_json | b \<Rightarrow> Body b)\<rparr>"

text \<open>
  The request that reaches the API: the cookies and the headers as they are, the page's origin for
  everything but a GET, the parameters of the path. The proxy passes a body on whole up to its
  buffer, \<open>PROXY_BODY_BUFFER_BYTES\<close>; what arrives of a larger one is left open.
\<close>

definition delivered :: "site \<Rightarrow> browser \<Rightarrow> string \<Rightarrow> fetch_init \<Rightarrow> endpoint \<Rightarrow> request \<Rightarrow> bool" where
  "delivered site b path init e req \<longleftrightarrow>
    (case st_router site (fi_method init) path of
       None \<Rightarrow> e = Unknown_route
     | Some (e', ps) \<Rightarrow> e = e' \<and> rq_params req = ps) \<and>
    rq_cookies req = br_jar b \<and>
    rq_csrf req = header_of ''x-csrf-token'' (fi_headers init) \<and>
    rq_fileName req = header_of ''x-file-name'' (fi_headers init) \<and>
    (case fi_body init of
       Raw content \<Rightarrow> int (length content) \<le> PROXY_BODY_BUFFER_BYTES \<longrightarrow> rq_body req = Raw content
     | _ \<Rightarrow> rq_body req = fi_body init) \<and>
    (fi_method init \<noteq> ''GET'' \<longrightarrow> rq_origin req = One (ac_appOrigin (st_cfg site)))"

definition declared_length :: "body \<Rightarrow> string option" where
  "declared_length b = (case b of Raw content \<Rightarrow> Some (decimal (length content)) | _ \<Rightarrow> None)"

text \<open>What the page sees of a request that is answered.\<close>

definition answered :: "site \<Rightarrow> browser \<Rightarrow> endpoint \<Rightarrow> request \<Rightarrow> response option \<times> browser" where
  "answered site b e req =
    (case serve (st_cfg site) (st_env site (br_count b)) e req (br_api b) of
       (r, s) \<Rightarrow> (Some (response_of r),
         \<lparr>br_jar = set_cookies (br_jar b) (rp_cookies r), br_api = s, br_count = Suc (br_count b)\<rparr>))"

text \<open>
  What the middleware sees of a \<open>fetch\<close>: its method, the path without the query and the fragment,
  and the declared length of a file.
\<close>

definition pathname_of :: "string \<Rightarrow> string" where
  "pathname_of path = takeWhile (\<lambda>x. x \<noteq> CHR ''?'' \<and> x \<noteq> CHR ''#'') path"

definition web_request_of :: "string \<Rightarrow> fetch_init \<Rightarrow> web_request" where
  "web_request_of path init =
    \<lparr>wr_method = fi_method init, wr_pathname = pathname_of path,
     wr_contentLength = declared_length (fi_body init), wr_headers = fi_headers init\<rparr>"

text \<open>
  A \<open>fetch\<close> of the web origin goes through \<open>middleware\<close> (the matcher leaves the routes without files
  out, and the middleware forwards them): what it answers is what the page gets, and what it
  forwards is answered by the API. The hypothesis says nothing of a \<open>fetch\<close> of a page.
\<close>

definition first_party :: "site \<Rightarrow> browser fetch \<Rightarrow> bool" where
  "first_party site fetchImpl \<longleftrightarrow> (\<forall>path init b. \<exists>newId octets isDevelopment.
    case middleware newId octets isDevelopment (web_request_of path init) of
      Forwarded \<Rightarrow> \<exists>e req. delivered site b path init e req \<and> fetchImpl path init b = answered site b e req
    | Answered st e hs \<Rightarrow> fetchImpl path init b = (Some \<lparr>rs_status = st, rs_payload = Body (B_error e)\<rparr>, b)
    | Page_request _ _ \<Rightarrow> True)"

lemma first_party_at:
  assumes "first_party site fetchImpl"
  obtains newId octets isDevelopment where "case middleware newId octets isDevelopment (web_request_of path init) of
      Forwarded \<Rightarrow> \<exists>e req. delivered site b path init e req \<and> fetchImpl path init b = answered site b e req
    | Answered st e hs \<Rightarrow> fetchImpl path init b = (Some \<lparr>rs_status = st, rs_payload = Body (B_error e)\<rparr>, b)
    | Page_request _ _ \<Rightarrow> True"
  using assms unfolding first_party_def by blast

lemma first_party_forwarded:
  assumes "first_party site fetchImpl"
    and "\<And>newId octets isDevelopment. middleware newId octets isDevelopment (web_request_of path init) = Forwarded"
  obtains e req where "delivered site b path init e req" and "fetchImpl path init b = answered site b e req"
  by (rule first_party_at [OF assms(1), where path = path and init = init and b = b]) (use assms(2) that in auto)

lemma first_party_answered:
  assumes "first_party site fetchImpl"
    and "\<And>newId octets isDevelopment. middleware newId octets isDevelopment (web_request_of path init) =
      Answered st (e newId) (hs newId)"
  obtains newId where "fetchImpl path init b = (Some \<lparr>rs_status = st, rs_payload = Body (B_error (e newId))\<rparr>, b)"
  by (rule first_party_at [OF assms(1), where path = path and init = init and b = b]) (use assms(2) that in auto)

lemma api_pathname:
  assumes "take 5 path = ''/api/''"
  shows "take 5 (pathname_of path) = ''/api/''"
proof -
  have "pathname_of (''/api/'' @ rest) = ''/api/'' @ pathname_of rest" for rest
    by (simp add: pathname_of_def)
  moreover have "path = ''/api/'' @ drop 5 path" by (metis assms append_take_drop_id)
  ultimately have "pathname_of path = ''/api/'' @ pathname_of (drop 5 path)" by metis
  then show ?thesis by simp
qed

section \<open>The web server's reads\<close>

text \<open>
  The web server asks the same API, over its internal address, with the one cookie it forwards.
\<close>

definition reads_api :: "site \<Rightarrow> string \<Rightarrow> browser server_fetch \<Rightarrow> bool" where
  "reads_api site apiInternalUrl fetchImpl \<longleftrightarrow> (\<forall>path token b.
    (\<exists>e req. (case st_router site ''GET'' path of
         None \<Rightarrow> e = Unknown_route
       | Some (e', ps) \<Rightarrow> e = e' \<and> rq_params req = ps) \<and>
      rq_cookies req = [(SESSION_COOKIE, token)] \<and> rq_body req = No_body \<and>
      fetchImpl (apiInternalUrl @ path) (forwarded_headers token) b =
        (fst (answered site b e req), (snd (answered site b e req))\<lparr>br_jar := br_jar b\<rparr>)))"

end
