(* ===== verification/Web_Sessions.thy ===== *)
theory Web_Sessions
  imports Web_Site
begin

text \<open>
  What a session is worth to the web application: the handshake of the CSRF token, the requests
  that act for a user after it, and the end of a session. The lemmas follow a request through the
  API of an undisturbed process; the properties of the pages rest on them.
\<close>

section \<open>One row of the sessions\<close>

definition with_session_row :: "session_row \<Rightarrow> (session_row \<Rightarrow> session_row) \<Rightarrow> db \<Rightarrow> db" where
  "with_session_row x f d = d\<lparr>sessions := update_where (\<lambda>y. s_id y = s_id x) f (sessions d)\<rparr>"

text \<open>A change that keeps what identifies a session.\<close>

definition same_identity :: "(session_row \<Rightarrow> session_row) \<Rightarrow> bool" where
  "same_identity f \<longleftrightarrow> (\<forall>y. s_id (f y) = s_id y \<and> s_tokenHash (f y) = s_tokenHash y \<and> s_userId (f y) = s_userId y)"

lemma same_identity_touched [simp]: "same_identity (touched now)"
  by (simp add: same_identity_def touched_def)

lemma same_identity_comp: "same_identity f \<Longrightarrow> same_identity g \<Longrightarrow> same_identity (\<lambda>y. g (f y))"
  by (simp add: same_identity_def)

lemma cookie_after_update:
  assumes "session_of_cookie c raw d = Some x" and "same_identity f"
  shows "session_of_cookie c raw (with_session_row x f d) = Some (f x)"
proof -
  obtain t where t: "raw = Some t" "t \<noteq> []" "findSessionByTokenHash (sha256Hex c t) d = Some x"
    using assms(1) by (auto simp: session_of_cookie_def split: option.splits if_splits)
  then show ?thesis
    using assms(2) find_update_where [of "\<lambda>y. s_id y = s_id x" "\<lambda>y. s_tokenHash y = sha256Hex c t" f "sessions d"]
    by (simp add: session_of_cookie_def findSessionByTokenHash_def with_session_row_def same_identity_def)
qed

lemma findUserById_row [simp]: "findUserById i (with_session_row x f d) = findUserById i d"
  by (simp add: with_session_row_def)

lemma authenticated_after_update:
  assumes "authenticated c now raw d = Some (x, u)" and "same_identity f" and "session_valid later (f x)"
  shows "authenticated c later raw (with_session_row x f d) = Some (f x, u)"
proof -
  have x: "session_of_cookie c raw d = Some x" "findUserById (s_userId x) d = Some u" "u_status u = ACTIVE"
    using assms(1) by (auto simp: authenticated_def split: option.splits if_splits)
  then show ?thesis
    using cookie_after_update [OF x(1) assms(2)] assms(2,3)
    by (simp add: authenticated_def same_identity_def)
qed

lemma with_session_row_twice:
  assumes "same_identity f"
  shows "with_session_row (f x) g (with_session_row x f d) = with_session_row x (\<lambda>y. g (f y)) d"
  using assms by (simp add: with_session_row_def update_where_def same_identity_def)

lemma sessions_wf_row:
  assumes "sessions_wf d" and "same_identity f" and "\<And>y. session_row_ok y \<Longrightarrow> session_row_ok (f y)"
  shows "sessions_wf (with_session_row x f d)"
proof -
  have *: "map s_id (update_where P f rows) = map s_id rows"
    "map s_tokenHash (update_where P f rows) = map s_tokenHash rows" for P rows
    using assms(2) by (simp_all add: map_update_where same_identity_def)
  show ?thesis
    using assms by (auto simp: with_session_row_def sessions_wf_def * set_update_where)
qed

lemma slide_row:
  assumes "sessions_wf d" and "authenticated c now raw d = Some (x, u)"
  shows "slide_window c now raw d = with_session_row x (touched now) d"
proof -
  have "session_of_cookie c raw d = Some x" "session_valid now x"
    using authenticated_session [OF assms(2)] by simp_all
  then show ?thesis
    using touch_one [of "sessions d" x now] assms(1) session_of_cookie_mem [of c raw d x]
    by (simp add: slide_window_def sessions_wf_def with_session_row_def)
qed

text \<open>A window slid later than it was last slid is no shorter.\<close>

lemma touched_valid:
  assumes "session_valid later x" and "s_lastSeenAt x \<le> now"
  shows "session_valid later (touched now x)"
  using assms by (auto simp: session_valid_def touched_def)

section \<open>Requests of an undisturbed process\<close>

lemma service_calm:
  assumes "undisturbed (re_calls re)"
  shows "service re n (\<lambda>t. in_db (m t)) s =
    (case m (ce_clock (re_calls re) n) (w_db (as_world s)) of
       (Inl e, d) \<Rightarrow> (Inl (Thrown e), s\<lparr>as_world := (as_world s)\<lparr>w_db := d\<rparr>\<rparr>)
     | (Inr x, d) \<Rightarrow> (Inr x, s\<lparr>as_world := (as_world s)\<lparr>w_db := d\<rparr>\<rparr>))"
  using assms by (simp add: service_def call_undisturbed lift_io_def in_db_def split: prod.split sum.split)

definition on_db :: "(db \<Rightarrow> db) \<Rightarrow> api_state \<Rightarrow> api_state" where
  "on_db f s = s\<lparr>as_world := (as_world s)\<lparr>w_db := f (w_db (as_world s))\<rparr>\<rparr>"

lemma on_db_simps [simp]:
  "w_db (as_world (on_db f s)) = f (w_db (as_world s))"
  "on_db g (on_db f s) = on_db (\<lambda>d. g (f d)) s"
  by (simp_all add: on_db_def)

lemma current_calm:
  assumes "undisturbed (re_calls re)"
  shows "current cfg re n req s =
    (Inr (map_option current_of (authenticated (ac_crypto cfg) (sup_now (re_sup re n)) (readSessionToken req)
        (w_db (as_world s)))),
     on_db (slide_window (ac_crypto cfg) (sup_now (re_sup re n)) (readSessionToken req)) s)"
proof -
  have "currentUser c now raw d = (Inr (map_option current_of (authenticated c now raw d)), slide_window c now raw d)"
    for c now raw d
    using currentUser_answer [of c now raw d] currentUser_state [of c now raw d] by (metis prod.collapse)
  then show ?thesis
    by (simp add: current_def service_calm [OF assms] on_db_def)
qed

text \<open>The state a request of an authenticated user starts its work in.\<close>

definition slid :: "api_cfg \<Rightarrow> request_env \<Rightarrow> session_row \<Rightarrow> api_state \<Rightarrow> api_state" where
  "slid cfg re x = on_db (with_session_row x (touched (sup_now (re_sup re 0))))"

lemma requireCurrentUser_calm:
  assumes "undisturbed (re_calls re)" and "sessions_wf (w_db (as_world s))"
    and "authenticated (ac_crypto cfg) (sup_now (re_sup re 0)) (readSessionToken req) (w_db (as_world s)) = Some (x, u)"
  shows "requireCurrentUser cfg re req s = (Inr (current_of (x, u)), slid cfg re x s)"
  using assms by (simp add: requireCurrentUser_def bindE_def current_calm slide_row slid_def on_db_def)

lemma acting_user_calm:
  assumes "undisturbed (re_calls re)" and "sessions_wf (w_db (as_world s))"
    and "authenticated (ac_crypto cfg) (sup_now (re_sup re 0)) (readSessionToken req) (w_db (as_world s)) = Some (x, u)"
    and "isSameOrigin cfg req" and "verifyCsrf (ac_crypto cfg) x (readCsrfHeader req)"
  shows "acting_user cfg re req s = (Inr (current_of (x, u)), slid cfg re x s)"
  using assms
  by (simp add: acting_user_def requireCurrentUser_calm bindE_def check_def requireCsrf_def
      requireSameOrigin_def current_of_def)

lemma unauthenticated_calm:
  assumes "undisturbed (re_calls re)"
    and "authenticated (ac_crypto cfg) (sup_now (re_sup re 0)) (readSessionToken req) (w_db (as_world s)) = None"
  shows "fst (requireCurrentUser cfg re req s) = Inl (Thrown unauthenticated)"
  using assms by (simp add: requireCurrentUser_def bindE_def current_calm throwH_def)

section \<open>The handshake\<close>

text \<open>
  The answer to \<open>GET /api/auth/csrf\<close> of an authenticated user: a token that the session accepts
  from then on, whatever CSRF cookie the browser had. All it sets is that cookie.
\<close>

lemma csrf_route_calm:
  assumes "undisturbed (re_calls re)" and "sessions_wf (w_db (as_world s))"
    and "authenticated (ac_crypto cfg) (sup_now (re_sup re 0)) (readSessionToken req) (w_db (as_world s)) = Some (x, u)"
    and "re_csrfRaw re \<noteq> []"
  obtains t cs f where
    "csrf_route cfg re req s = (Inr \<lparr>rp_status = 200, rp_headers = [], rp_cookies = cs, rp_body = B_csrf t\<rparr>,
       on_db (with_session_row x f) s)"
    and "t \<noteq> []" and "\<forall>k \<in> set cs. ck_name k = CSRF_COOKIE" and "same_identity f"
    and "\<And>y. session_row_ok y \<Longrightarrow> session_row_ok (f y)"
    and "\<And>later. session_valid later x \<Longrightarrow> s_lastSeenAt x \<le> sup_now (re_sup re 0) \<Longrightarrow> session_valid later (f x)"
    and "verifyCsrf (ac_crypto cfg) (f x) (Some t)"
    and "s_lastSeenAt (f x) = sup_now (re_sup re 0)"
proof -
  let ?c = "ac_crypto cfg" and ?now = "sup_now (re_sup re 0)"
  note cur = requireCurrentUser_calm [OF assms(1-3)]
  have ok: "session_row_ok y \<Longrightarrow> session_row_ok (touched now y)" for y now
    by (simp add: session_row_ok_def touched_def)
  show ?thesis
  proof (cases "verifyCsrf ?c x (readCsrfToken req)")
    case True
    then obtain t where t: "readCsrfToken req = Some t" "t \<noteq> []"
      by (auto simp: verifyCsrf_def split: option.splits if_splits)
    show ?thesis
    proof (rule that [of "[]" t "touched ?now"])
      show "csrf_route cfg re req s = (Inr \<lparr>rp_status = 200, rp_headers = [], rp_cookies = [], rp_body = B_csrf t\<rparr>,
          on_db (with_session_row x (touched ?now)) s)"
        using True t cur by (simp add: csrf_route_def bindE_def current_of_def answer_def slid_def returnE_def)
      show "verifyCsrf ?c (touched ?now x) (Some t)"
        using True t by (simp add: verifyCsrf_def csrfTokenMatchesSession_def touched_def)
    qed (use t ok touched_valid in \<open>auto simp: touched_def\<close>)
  next
    case False
    let ?fresh = "generateOpaqueToken ?c (re_csrfRaw re)"
    let ?f = "\<lambda>y. (touched ?now y)\<lparr>s_csrfTokenHash := tok_hash ?fresh\<rparr>"
    have same: "same_identity (\<lambda>y :: session_row. y\<lparr>s_csrfTokenHash := tok_hash ?fresh\<rparr>)"
      by (simp add: same_identity_def)
    have "x \<in> set (sessions (w_db (as_world s)))"
      using authenticated_session [OF assms(3)] session_of_cookie_mem by blast
    then have "\<exists>y \<in> set (sessions (with_session_row x (touched ?now) (w_db (as_world s)))). s_id y = s_id x"
      by (intro bexI [of _ "touched ?now x"]) (auto simp: with_session_row_def set_update_where touched_def)
    then have rotated: "rotateCsrfToken (s_id x) h (with_session_row x (touched ?now) (w_db (as_world s))) =
      (Inr (), with_session_row x (\<lambda>y. (touched ?now y)\<lparr>s_csrfTokenHash := h\<rparr>) (w_db (as_world s)))" for h
      using with_session_row_twice [of "touched ?now" x "\<lambda>y. y\<lparr>s_csrfTokenHash := h\<rparr>" "w_db (as_world s)"]
      by (simp add: rotateCsrfToken_def rotateSessionCsrf_def with_session_row_def touched_def)
    show ?thesis
    proof (rule that [of "[base_cookie CSRF_COOKIE (tok_raw ?fresh) False]" "tok_raw ?fresh" ?f])
      show "csrf_route cfg re req s = (Inr \<lparr>rp_status = 200, rp_headers = [],
          rp_cookies = [base_cookie CSRF_COOKIE (tok_raw ?fresh) False], rp_body = B_csrf (tok_raw ?fresh)\<rparr>,
          on_db (with_session_row x ?f) s)"
        using False cur rotated
        by (simp add: csrf_route_def bindE_def Let_def current_of_def service_calm [OF assms(1)] slid_def
            answer_def setCsrfCookie_def returnE_def on_db_def)
      show "same_identity ?f"
        using same_identity_comp [OF same_identity_touched same] .
      show "verifyCsrf ?c (?f x) (Some (tok_raw ?fresh))"
        using assms(4) by (simp add: verifyCsrf_def csrfTokenMatchesSession_def generateOpaqueToken_def)
      show "session_valid later (?f x)" if "session_valid later x" "s_lastSeenAt x \<le> ?now" for later
        using touched_valid [OF that] by (auto simp: session_valid_def)
    qed (use assms(4) ok in \<open>auto simp: base_cookie_def generateOpaqueToken_def session_row_ok_def touched_def\<close>)
  qed
qed

end
