(* ===== verification/Web_Requests.thy ===== *)
theory Web_Requests
  imports Web_Sessions
begin

text \<open>
  The requests of the browser's client, over the API behind the web origin. The interface between
  the two is the locale \<open>web_site\<close>: a first-party \<open>fetch\<close> and Fastify's router. A session in
  use (\<open>in_use\<close>) stays so through the requests made with it.
\<close>

section \<open>The interface\<close>

locale web_site =
  fixes databaseUp :: bool and site :: site and fetchImpl :: "browser fetch"
  assumes routed: "registered databaseUp (st_router site)"
    and fetched: "first_party site fetchImpl"
begin

lemma found_route:
  assumes "(m, pat, e) \<in> set (ROUTES databaseUp)" and "path_segments path = Some segs"
    and "filled pat segs = Some ps"
  shows "st_router site m path = Some (e, ps)"
  using routed assms by (auto simp: registered_def)

text \<open>A request without a file is answered by the API.\<close>

lemma answers:
  assumes "st_router site (fi_method init) path = Some (e, ps)" and "\<not> (\<exists>content. fi_body init = Raw content)"
    and "take 5 path = ''/api/''"
  obtains req where "fetchImpl path init b = answered site b e req" and "rq_params req = ps"
    and "rq_cookies req = br_jar b" and "rq_csrf req = header_of ''x-csrf-token'' (fi_headers init)"
    and "rq_body req = fi_body init"
    and "fi_method init \<noteq> ''GET'' \<Longrightarrow> rq_origin req = One (ac_appOrigin (st_cfg site))"
proof -
  have "middleware newId octets isDevelopment (web_request_of path init) = Forwarded" for newId octets isDevelopment
    using assms(2) api_pathname [OF assms(3)]
    by (auto simp: middleware_def web_request_of_def oversizedUploadError_def declared_length_def split: body.splits)
  then obtain e' req where "delivered site b path init e' req" "fetchImpl path init b = answered site b e' req"
    by (rule first_party_forwarded [OF fetched, where path = path and init = init and b = b])
  then show ?thesis
    using assms that [of req] by (auto simp: delivered_def split: body.splits)
qed

lemma csrf_path: "st_router site ''GET'' ''/api/auth/csrf'' = Some (GET_csrf, [])"
  by (rule found_route [where pat = "[Static ''api'', Static ''auth'', Static ''csrf'']" and segs = "[''api'', ''auth'', ''csrf'']"])
    (simp_all add: ROUTES_def path_segments_def)

lemma case_path: "st_router site ''POST'' ''/api/cases'' = Some (POST_case, [])"
  by (rule found_route [where pat = "[Static ''api'', Static ''cases'']" and segs = "[''api'', ''cases'']"])
    (simp_all add: ROUTES_def path_segments_def)

lemma logout_path: "st_router site ''POST'' ''/api/auth/logout'' = Some (POST_logout, [])"
  by (rule found_route [where pat = "[Static ''api'', Static ''auth'', Static ''logout'']" and segs = "[''api'', ''auth'', ''logout'']"])
    (simp_all add: ROUTES_def path_segments_def)

end

lemma map_of_set_cookies:
  assumes "\<forall>k \<in> set cs. ck_name k \<noteq> name"
  shows "map_of (set_cookies jar cs) name = map_of jar name"
  using assms
proof (induction jar cs rule: set_cookies.induct)
  case (2 jar c cs)
  have other: "map_of (filter (\<lambda>(n, _). n \<noteq> ck_name c) jar) name = map_of jar name"
    using 2(2) by (induction jar) auto
  have "set_cookies jar (c # cs) = set_cookies (filter (\<lambda>(n, _). n \<noteq> ck_name c) jar @
      (if ck_expired c then [] else [(ck_name c, ck_value c)])) cs"
    by simp
  with 2 other show ?case by (auto simp: map_add_def split: option.split)
qed simp

lemma cookies_differ: "CSRF_COOKIE \<noteq> SESSION_COOKIE"
  by (simp add: CSRF_COOKIE_def SESSION_COOKIE_def)

lemma serve_Inr: "route cfg re e req s = (Inr r, s') \<Longrightarrow> serve cfg re e req s = (on_send req r, s')"
  by (simp add: serve_def respond_def)

lemma serve_Inl: "route cfg re e req s = (Inl f, s') \<Longrightarrow> serve cfg re e req s = (on_send req (error_handler req f), s')"
  by (simp add: serve_def respond_def)

text \<open>What the page gets from a reply of the API.\<close>

lemma answered_Inr:
  assumes "route (st_cfg site) (st_env site (br_count b)) e req (br_api b) = (Inr r, s')"
  shows "answered site b e req = (Some (response_of r),
    \<lparr>br_jar = set_cookies (br_jar b) (rp_cookies r), br_api = s', br_count = Suc (br_count b)\<rparr>)"
  by (simp add: answered_def serve_Inr [OF assms] on_send_def response_of_def)

text \<open>The configuration of the page's site accepts its own origin.\<close>

lemma own_origin: "ac_appOrigin cfg \<noteq> [] \<Longrightarrow> rq_origin req = One (ac_appOrigin cfg) \<Longrightarrow> isSameOrigin cfg req"
  by (simp add: isSameOrigin_def firstHeader_def)

section \<open>A session in use\<close>

text \<open>
  The cookie names a session of an active user, last seen at \<open>from'\<close> at the latest and valid until
  \<open>til\<close> at least: any request in between is authenticated, and leaves it in use.
\<close>

definition in_use :: "crypto \<Rightarrow> string option \<Rightarrow> user_row \<Rightarrow> time \<Rightarrow> time \<Rightarrow> db \<Rightarrow> bool" where
  "in_use c raw u from' til d \<longleftrightarrow> sessions_wf d \<and>
    (\<exists>x. session_of_cookie c raw d = Some x \<and> findUserById (s_userId x) d = Some u \<and>
      u_status u = ACTIVE \<and> s_lastSeenAt x \<le> from' \<and> session_valid til x)"

lemma in_use_auth:
  assumes "in_use c raw u from' til d" and "from' \<le> now" and "now \<le> til"
  obtains x where "authenticated c now raw d = Some (x, u)" and "s_lastSeenAt x \<le> now"
    and "session_valid til x" and "sessions_wf d"
  using assms session_valid_earlier [of til _ now]
  by (auto simp: in_use_def authenticated_def)

lemma in_use_row:
  assumes "authenticated c now raw d = Some (x, u)" and "sessions_wf d" and "same_identity f"
    and "\<And>y. session_row_ok y \<Longrightarrow> session_row_ok (f y)" and "session_valid til (f x)" and "s_lastSeenAt (f x) = now"
  shows "in_use c raw u now til (with_session_row x f d)"
  using authenticated_after_update [OF assms(1,3,5)] sessions_wf_row [OF assms(2-4)] assms(6)
  by (auto simp: in_use_def authenticated_def split: option.splits if_splits)

lemma in_use_other:
  assumes "in_use c raw u from' til d" and "sessions d' = sessions d" and "users d' = users d"
  shows "in_use c raw u from' til d'"
  using assms by (auto simp: in_use_def sessions_wf_def session_of_cookie_def findSessionByTokenHash_def
      findUserById_def split: option.splits)

lemma in_use_slid:
  assumes "authenticated c now raw d = Some (x, u)" and "sessions_wf d" and "s_lastSeenAt x \<le> now"
    and "session_valid til x"
  shows "in_use c raw u now til (with_session_row x (touched now) d)"
  using assms touched_valid
  by (intro in_use_row) (auto simp: touched_def session_row_ok_def)

lemma other_tables [simp]:
  "cases (with_session_row x f d) = cases d" "caseHistory (with_session_row x f d) = caseHistory d"
  "documents (with_session_row x f d) = documents d" "users (with_session_row x f d) = users d"
  "auditLogs (with_session_row x f d) = auditLogs d"
  by (simp_all add: with_session_row_def)

text \<open>The times of the requests a page makes, one after another.\<close>

definition request_time :: "site \<Rightarrow> nat \<Rightarrow> time" where
  "request_time site n = sup_now (re_sup (st_env site n) 0)"

definition session_cookie :: "browser \<Rightarrow> string option" where
  "session_cookie b = map_of (br_jar b) SESSION_COOKIE"

definition db_of :: "browser \<Rightarrow> db" where
  "db_of b = w_db (as_world (br_api b))"

lemma db_of_simp [simp]: "db_of \<lparr>br_jar = j, br_api = on_db f s, br_count = n\<rparr> = f (w_db (as_world s))"
  by (simp add: db_of_def)

context web_site
begin

text \<open>
  The client's first request of a session: a token that the session accepts afterwards, whatever
  CSRF cookie the browser had.
\<close>

lemma client_csrf_ready:
  assumes "undisturbed (re_calls (st_env site (br_count b)))"
    and "in_use (ac_crypto (st_cfg site)) (session_cookie b) u from' til (db_of b)"
    and "from' \<le> request_time site (br_count b)" and "request_time site (br_count b) \<le> til"
    and "re_csrfRaw (st_env site (br_count b)) \<noteq> []"
  obtains t x f b' where "client_csrf fetchImpl b = (Inr (Ok (Some t)), b')" and "t \<noteq> []"
    and "br_count b' = Suc (br_count b)" and "session_cookie b' = session_cookie b"
    and "br_api b' = on_db (with_session_row x f) (br_api b)"
    and "in_use (ac_crypto (st_cfg site)) (session_cookie b) u (request_time site (br_count b)) til (db_of b')"
    and "session_of_cookie (ac_crypto (st_cfg site)) (session_cookie b) (db_of b') = Some (f x)"
    and "verifyCsrf (ac_crypto (st_cfg site)) (f x) (Some t)"
proof -
  let ?init = "\<lparr>fi_method = ''GET'', fi_headers = [(''accept'', ''application/json'')],
    fi_credentials = ''same-origin'', fi_cache = ''no-store'', fi_body = No_body\<rparr>"
  have path: "st_router site (fi_method ?init) ''/api/auth/csrf'' = Some (GET_csrf, [])"
    using csrf_path by simp
  obtain req where req: "fetchImpl ''/api/auth/csrf'' ?init b = answered site b GET_csrf req"
    "rq_cookies req = br_jar b"
    by (rule answers [OF path, of b]) auto
  have cookie: "readSessionToken req = session_cookie b"
    by (simp add: readSessionToken_def req(2) session_cookie_def)
  obtain x where x: "authenticated (ac_crypto (st_cfg site)) (request_time site (br_count b)) (session_cookie b) (db_of b)
      = Some (x, u)" "s_lastSeenAt x \<le> request_time site (br_count b)" "session_valid til x" "sessions_wf (db_of b)"
    by (rule in_use_auth [OF assms(2-4)])
  obtain t cs f where run: "csrf_route (st_cfg site) (st_env site (br_count b)) req (br_api b) =
      (Inr \<lparr>rp_status = 200, rp_headers = [], rp_cookies = cs, rp_body = B_csrf t\<rparr>, on_db (with_session_row x f) (br_api b))"
    and rest: "t \<noteq> []" "\<forall>k \<in> set cs. ck_name k = CSRF_COOKIE" "same_identity f"
      "\<And>y. session_row_ok y \<Longrightarrow> session_row_ok (f y)"
      "\<And>later. session_valid later x \<Longrightarrow> s_lastSeenAt x \<le> request_time site (br_count b) \<Longrightarrow> session_valid later (f x)"
      "verifyCsrf (ac_crypto (st_cfg site)) (f x) (Some t)"
      "s_lastSeenAt (f x) = request_time site (br_count b)"
    unfolding request_time_def
    by (rule csrf_route_calm [OF assms(1) x(4) [unfolded db_of_def]
        x(1) [unfolded db_of_def request_time_def, folded cookie] assms(5)]) blast
  let ?b' = "\<lparr>br_jar = set_cookies (br_jar b) cs, br_api = on_db (with_session_row x f) (br_api b), br_count = Suc (br_count b)\<rparr>"
  have answer: "fetchImpl ''/api/auth/csrf'' ?init b = (Some \<lparr>rs_status = 200, rs_payload = Body (B_csrf t)\<rparr>, ?b')"
    using answered_Inr [of site b GET_csrf req] run req(1) by (simp add: response_of_def)
  show ?thesis
  proof (rule that [of t ?b' x f])
    show "client_csrf fetchImpl b = (Inr (Ok (Some t)), ?b')"
      using answer by (simp add: client_csrf_def selecting_def bindE_def client_request_def client_headers_def
          getting_def client_body_def response_ok_def csrf_of_def returnE_def)
    have db: "db_of ?b' = with_session_row x f (db_of b)"
      by (simp add: db_of_def)
    show "session_cookie ?b' = session_cookie b"
      using rest(2) map_of_set_cookies [of cs SESSION_COOKIE "br_jar b"] cookies_differ
      by (auto simp: session_cookie_def)
    show "in_use (ac_crypto (st_cfg site)) (session_cookie b) u (request_time site (br_count b)) til (db_of ?b')"
      unfolding db using x rest by (intro in_use_row) auto
    show "session_of_cookie (ac_crypto (st_cfg site)) (session_cookie b) (db_of ?b') = Some (f x)"
      unfolding db using authenticated_session [OF x(1)] rest(3) by (intro cookie_after_update) simp_all
  qed (use rest in auto)
qed

end

section \<open>Creating a case\<close>

lemma case_type_back [simp]: "case_type_of_name (case_type_name t) = Some t"
  by (cases t) simp_all

lemma createCaseRequest_back:
  "createCaseRequestSchema (Json (JObj [(''type'', JString (case_type_name t))])) = Some t"
  by (simp add: createCaseRequestSchema_def strict_object_def string_field_def del: case_type_of_name.simps)

text \<open>The service's answer to a user whose session is in use.\<close>

lemma createCase_granted:
  assumes "u_role u = USER" and "u_status u = ACTIVE" and "newId \<notin> c_id ` set (cases d)"
  obtains d' where "createCase newId historyId now (current_of (x, u)) ctype ctx d =
      (Inr \<lparr>pc_id = newId, pc_type = ctype, pc_status = DRAFT, pc_createdAt = now, pc_updatedAt = now\<rparr>, d')"
    and "sessions d' = sessions d" and "users d' = users d"
proof -
  have may: "allowed (cases_can (cur_actor (current_of (x, u))) ''case:create'' (pu_id (cur_user (current_of (x, u)))))"
    using assms by (simp add: current_of_def toPublicUser_def)
  have fresh: "\<not> (\<exists>c \<in> set (cases d). c_id c = newId)"
    using assms(3) by auto
  have made: "\<exists>d'. createCase_repo newId historyId now input d =
      (Inr \<lparr>c_id = newId, c_userId = cc_userId input, c_type = cc_type input, c_status = DRAFT,
        c_createdAt = now, c_updatedAt = now\<rparr>, d') \<and> sessions d' = sessions d \<and> users d' = users d" for input
    using fresh by (simp add: createCase_repo_def Let_def insert_audit_def)
  let ?input = "\<lparr>cc_userId = pu_id (cur_user (current_of (x, u))), cc_type = ctype,
    cc_audit = (\<lambda>r. (current_entry ''case.created'' ctx (current_of (x, u)) ''Case'' (c_id r))
      \<lparr>newValue := Some [(''type'', JStr (case_type_name (c_type r))), (''status'', JStr (case_status_name (c_status r)))]\<rparr>)\<rparr>"
  obtain d' where d': "createCase_repo newId historyId now ?input d =
      (Inr \<lparr>c_id = newId, c_userId = cc_userId ?input, c_type = cc_type ?input, c_status = DRAFT,
        c_createdAt = now, c_updatedAt = now\<rparr>, d')" "sessions d' = sessions d" "users d' = users d"
    using made [of ?input] by blast
  show ?thesis
  proof (rule that [of d'])
    show "createCase newId historyId now (current_of (x, u)) ctype ctx d =
      (Inr \<lparr>pc_id = newId, pc_type = ctype, pc_status = DRAFT, pc_createdAt = now, pc_updatedAt = now\<rparr>, d')"
      using may d'(1) by (simp only: createCase_def bindE_def) (simp add: toPublicCase_def)
  qed (use d' in auto)
qed

context web_site
begin

text \<open>
  A case created from the browser: the two requests of the client, and the case the API answers
  with. The database between them differs in the session only.
\<close>

lemma client_creates_case:
  assumes "undisturbed (re_calls (st_env site (br_count b)))"
    and "undisturbed (re_calls (st_env site (Suc (br_count b))))"
    and "in_use (ac_crypto (st_cfg site)) (session_cookie b) u from' til (db_of b)" and "u_role u = USER"
    and "from' \<le> request_time site (br_count b)"
    and "request_time site (br_count b) \<le> request_time site (Suc (br_count b))"
    and "request_time site (Suc (br_count b)) \<le> til"
    and "re_csrfRaw (st_env site (br_count b)) \<noteq> []" and "ac_appOrigin (st_cfg site) \<noteq> []"
    and "re_newId (st_env site (Suc (br_count b))) \<notin> c_id ` set (cases (db_of b))"
  obtains c x ctx d b' where "client_createCase fetchImpl ctype b = (Inr (Ok (Some c)), b')"
    and "createCase (re_newId (st_env site (Suc (br_count b)))) (re_historyId (st_env site (Suc (br_count b))))
        (ce_clock (re_calls (st_env site (Suc (br_count b)))) 1) (current_of (x, u)) ctype ctx d = (Inr c, db_of b')"
    and "cases d = cases (db_of b)" and "caseHistory d = caseHistory (db_of b)"
    and "documents d = documents (db_of b)"
    and "br_count b' = Suc (Suc (br_count b))" and "session_cookie b' = session_cookie b"
    and "in_use (ac_crypto (st_cfg site)) (session_cookie b) u (request_time site (Suc (br_count b))) til (db_of b')"
proof -
  let ?re = "st_env site (Suc (br_count b))" and ?c = "ac_crypto (st_cfg site)"
  have in_time: "request_time site (br_count b) \<le> til"
    using assms(6,7) by (rule order_trans)
  obtain t x f b1 where csrf: "client_csrf fetchImpl b = (Inr (Ok (Some t)), b1)" "t \<noteq> []"
    "br_count b1 = Suc (br_count b)" "session_cookie b1 = session_cookie b"
    "br_api b1 = on_db (with_session_row x f) (br_api b)"
    "in_use ?c (session_cookie b) u (request_time site (br_count b)) til (db_of b1)"
    "session_of_cookie ?c (session_cookie b) (db_of b1) = Some (f x)" "verifyCsrf ?c (f x) (Some t)"
    by (rule client_csrf_ready [OF assms(1,3,5) in_time assms(8)]) blast
  have db1: "db_of b1 = with_session_row x f (db_of b)"
    by (simp add: db_of_def csrf(5))
  let ?init = "\<lparr>fi_method = ''POST'', fi_headers = [(''accept'', ''application/json''),
      (''content-type'', ''application/json''), (''x-csrf-token'', t)], fi_credentials = ''same-origin'',
    fi_cache = ''no-store'', fi_body = Json (JObj [(''type'', JString (case_type_name ctype))])\<rparr>"
  have path: "st_router site (fi_method ?init) ''/api/cases'' = Some (POST_case, [])"
    using case_path by simp
  obtain req where req: "fetchImpl ''/api/cases'' ?init b1 = answered site b1 POST_case req"
    "rq_cookies req = br_jar b1" "rq_csrf req = header_of ''x-csrf-token'' (fi_headers ?init)"
    "rq_body req = fi_body ?init" "rq_origin req = One (ac_appOrigin (st_cfg site))"
    by (rule answers [OF path, of b1]) auto
  have cookie: "readSessionToken req = session_cookie b"
    using csrf(4) by (simp add: readSessionToken_def req(2) session_cookie_def)
  obtain y where y: "authenticated ?c (sup_now (re_sup ?re 0)) (session_cookie b) (db_of b1) = Some (y, u)"
    "s_lastSeenAt y \<le> request_time site (Suc (br_count b))" "session_valid til y" "sessions_wf (db_of b1)"
    unfolding request_time_def [symmetric]
    by (rule in_use_auth [OF csrf(6) assms(6,7)]) blast
  have y_is: "y = f x"
    using authenticated_session [OF y(1)] csrf(7) by simp
  have auth: "authenticated ?c (sup_now (re_sup ?re 0)) (readSessionToken req) (w_db (as_world (br_api b1))) = Some (y, u)"
    using y(1) by (simp add: cookie db_of_def)
  have token: "verifyCsrf ?c y (readCsrfHeader req)"
    using csrf(8) by (simp add: y_is readCsrfHeader_def req(3) header_of_def firstHeader_def)
  have acting: "acting_user (st_cfg site) ?re req (br_api b1) = (Inr (current_of (y, u)), slid (st_cfg site) ?re y (br_api b1))"
    using acting_user_calm [OF assms(2) y(4) [unfolded db_of_def] auth own_origin [OF assms(9) req(5)] token] .
  let ?d = "with_session_row y (touched (sup_now (re_sup ?re 0))) (db_of b1)"
  have u: "u_status u = ACTIVE"
    using assms(3) by (auto simp: in_use_def)
  have fresh: "re_newId ?re \<notin> c_id ` set (cases ?d)"
    using assms(10) by (simp add: db1)
  let ?case = "\<lparr>pc_id = re_newId ?re, pc_type = ctype, pc_status = DRAFT, pc_createdAt = ce_clock (re_calls ?re) 1,
      pc_updatedAt = ce_clock (re_calls ?re) 1\<rparr>"
  obtain d' where made: "createCase (re_newId ?re) (re_historyId ?re) (ce_clock (re_calls ?re) 1) (current_of (y, u)) ctype
      (requestContext req) ?d = (Inr ?case, d')" "sessions d' = sessions ?d" "users d' = users ?d"
    by (rule createCase_granted [OF assms(4) u fresh])
  have body: "createCaseRequestSchema (rq_body req) = Some ctype"
    using createCaseRequest_back by (simp add: req(4))
  have run: "route (st_cfg site) (st_env site (br_count b1)) POST_case req (br_api b1) =
      (Inr (answer 201 (B_case ?case)), on_db (\<lambda>_. d') (br_api b1))"
    using made(1) body req(4) acting by (simp add: csrf(3) create_case_route_def with_body_def bindE_def
        parsed_def service_calm [OF assms(2)] slid_def on_db_def returnE_def db_of_def)
  let ?b' = "\<lparr>br_jar = br_jar b1, br_api = on_db (\<lambda>_. d') (br_api b1), br_count = Suc (br_count b1)\<rparr>"
  have answer': "fetchImpl ''/api/cases'' ?init b1 = (Some \<lparr>rs_status = 201, rs_payload = Body (B_case ?case)\<rparr>, ?b')"
    unfolding req(1) using answered_Inr [OF run] by (simp add: answer_def response_of_def)
  show ?thesis
  proof (rule that [of ?case ?b' y "requestContext req" ?d])
    show "client_createCase fetchImpl ctype b = (Inr (Ok (Some ?case)), ?b')"
      using answer' csrf(1,2) by (simp add: client_createCase_def with_csrf_def selecting_def bindE_def
          client_request_def client_headers_def set_header_def posting_def client_body_def response_ok_def
          case_of_def returnE_def)
    show "in_use ?c (session_cookie b) u (request_time site (Suc (br_count b))) til (db_of ?b')"
      unfolding request_time_def
      by (rule in_use_other [OF in_use_slid [OF y(1,4) y(2) [unfolded request_time_def] y(3)]])
        (simp_all add: made(2,3))
  qed (use made csrf(3,4) in \<open>simp_all add: db1 session_cookie_def\<close>)
qed

end

section \<open>The end of a session\<close>

lemma sessions_insert_audit_opt [simp]: "sessions (insert_audit_opt e now d) = sessions d"
  by (simp add: insert_audit_opt_def insert_audit_def split: option.split)

lemma revoked_cookie:
  assumes "session_of_cookie c raw d = Some y" and "s_revokedAt y = None"
    and "sessions d' = update_where (\<lambda>s. s_id s = s_id y \<and> s_revokedAt s = None)
      (\<lambda>s. s\<lparr>s_revokedAt := Some wall, s_revokedReason := Some reason\<rparr>) (sessions d)"
  shows "authenticated c now raw d' = None"
proof -
  let ?P = "\<lambda>s. s_id s = s_id y \<and> s_revokedAt s = None"
    and ?f = "\<lambda>s :: session_row. s\<lparr>s_revokedAt := Some wall, s_revokedReason := Some reason\<rparr>"
  obtain t where t: "raw = Some t" "t \<noteq> []" "findSessionByTokenHash (sha256Hex c t) d = Some y"
    using assms(1) by (auto simp: session_of_cookie_def split: option.splits if_splits)
  have "session_of_cookie c raw d' = Some (?f y)"
    using t assms(2) find_update_where [of ?P "\<lambda>s. s_tokenHash s = sha256Hex c t" ?f "sessions d"]
    by (simp add: session_of_cookie_def findSessionByTokenHash_def assms(3))
  then show ?thesis
    by (simp add: authenticated_def session_valid_def split: option.split)
qed

lemma logout_ends:
  assumes "session_of_cookie c raw d = Some y" and "session_valid (sup_now env) y"
  shows "fst (logout c env raw ctx d) = Inr ()"
    and "authenticated c now raw (snd (logout c env raw ctx d)) = None"
proof -
  let ?g = "\<lambda>x :: session_row. x\<lparr>s_lastSeenAt := sup_now env, s_idleExpiresAt :=
    min (sup_now env + (s_idleExpiresAt y - s_lastSeenAt y)) (s_absoluteExpiresAt y)\<rparr>"
  let ?d = "with_session_row y ?g d"
  show "fst (logout c env raw ctx d) = Inr ()"
    using assms by (simp add: logout_def bindE_def loadValidSession_eq)
  have open': "s_revokedAt (?g y) = None"
    using assms(2) by (simp add: session_valid_def)
  have "sessions (snd (logout c env raw ctx d)) = update_where (\<lambda>s. s_id s = s_id (?g y) \<and> s_revokedAt s = None)
      (\<lambda>s. s\<lparr>s_revokedAt := Some (sup_wall env), s_revokedReason := Some LOGOUT\<rparr>) (sessions ?d)"
    using assms by (simp add: logout_def bindE_def loadValidSession_eq revokeSession_def revoke_where_def Let_def
        with_session_row_def split: prod.split)
  moreover have "session_of_cookie c raw ?d = Some (?g y)"
    by (rule cookie_after_update [OF assms(1)]) (simp add: same_identity_def)
  ultimately show "authenticated c now raw (snd (logout c env raw ctx d)) = None"
    using revoked_cookie [OF _ open'] by blast
qed

context web_site
begin

text \<open>
  The client's logout with a session in use: the API ends the session, and the browser forgets its
  cookie. Whoever kept the cookie is nobody from then on.
\<close>

lemma client_logs_out:
  assumes "undisturbed (re_calls (st_env site (br_count b)))"
    and "undisturbed (re_calls (st_env site (Suc (br_count b))))"
    and "in_use (ac_crypto (st_cfg site)) (session_cookie b) u from' til (db_of b)"
    and "from' \<le> request_time site (br_count b)"
    and "request_time site (br_count b) \<le> request_time site (Suc (br_count b))"
    and "request_time site (Suc (br_count b)) \<le> sup_now (re_sup (st_env site (Suc (br_count b))) 1)"
    and "sup_now (re_sup (st_env site (Suc (br_count b))) 1) \<le> til"
    and "re_csrfRaw (st_env site (br_count b)) \<noteq> []" and "ac_appOrigin (st_cfg site) \<noteq> []"
  obtains b' where "client_logout fetchImpl b = (Inr (Ok None), b')" and "session_cookie b' = None"
    and "\<And>now. authenticated (ac_crypto (st_cfg site)) now (session_cookie b) (db_of b') = None"
proof -
  let ?re = "st_env site (Suc (br_count b))" and ?c = "ac_crypto (st_cfg site)"
  let ?raw = "session_cookie b"
  have in_time: "request_time site (br_count b) \<le> til" "request_time site (Suc (br_count b)) \<le> til"
    using assms(5-7) by simp_all
  obtain t x f b1 where csrf: "client_csrf fetchImpl b = (Inr (Ok (Some t)), b1)" "t \<noteq> []"
    "br_count b1 = Suc (br_count b)" "session_cookie b1 = session_cookie b"
    "in_use ?c (session_cookie b) u (request_time site (br_count b)) til (db_of b1)"
    "session_of_cookie ?c (session_cookie b) (db_of b1) = Some (f x)" "verifyCsrf ?c (f x) (Some t)"
    by (rule client_csrf_ready [OF assms(1,3,4) in_time(1) assms(8)]) blast
  let ?init = "\<lparr>fi_method = ''POST'', fi_headers = [(''accept'', ''application/json''), (''x-csrf-token'', t)],
    fi_credentials = ''same-origin'', fi_cache = ''no-store'', fi_body = No_body\<rparr>"
  have path: "st_router site (fi_method ?init) ''/api/auth/logout'' = Some (POST_logout, [])"
    using logout_path by simp
  obtain req where req: "fetchImpl ''/api/auth/logout'' ?init b1 = answered site b1 POST_logout req"
    "rq_cookies req = br_jar b1" "rq_csrf req = header_of ''x-csrf-token'' (fi_headers ?init)"
    "rq_body req = fi_body ?init" "rq_origin req = One (ac_appOrigin (st_cfg site))"
    by (rule answers [OF path, of b1]) auto
  have cookie: "readSessionToken req = ?raw"
    using csrf(4) by (simp add: readSessionToken_def req(2) session_cookie_def)
  obtain y where y: "authenticated ?c (sup_now (re_sup ?re 0)) ?raw (db_of b1) = Some (y, u)"
    "s_lastSeenAt y \<le> request_time site (Suc (br_count b))" "session_valid til y" "sessions_wf (db_of b1)"
    unfolding request_time_def [symmetric]
    by (rule in_use_auth [OF csrf(5) assms(5) in_time(2)]) blast
  have y_is: "y = f x"
    using authenticated_session [OF y(1)] csrf(6) by simp
  let ?d = "with_session_row y (touched (sup_now (re_sup ?re 0))) (db_of b1)"
  have kept: "session_of_cookie ?c ?raw ?d = Some (touched (sup_now (re_sup ?re 0)) y)"
    using cookie_after_update [OF _ same_identity_touched] authenticated_session [OF y(1)] by blast
  have still: "session_valid (sup_now (re_sup ?re 1)) (touched (sup_now (re_sup ?re 0)) y)"
    using session_valid_earlier [OF touched_valid [OF y(3)]] y(2) assms(7) by (simp add: request_time_def)
  note out = logout_ends [OF kept still]
  obtain d' where left: "logout ?c (re_sup ?re 1) ?raw (requestContext req) ?d = (Inr (), d')"
    "\<And>now. authenticated ?c now ?raw d' = None"
    using out by (metis prod.collapse)
  have token: "isSameOrigin (st_cfg site) req" "verifyCsrf ?c y (readCsrfHeader req)"
    using own_origin [OF assms(9) req(5)] csrf(7)
    by (simp_all add: y_is readCsrfHeader_def req(3) header_of_def firstHeader_def)
  have run: "route (st_cfg site) (st_env site (br_count b1)) POST_logout req (br_api b1) =
      (Inr (clearSessionCookies (answer 204 B_none)), on_db (\<lambda>_. d') (br_api b1))"
    using y(1) token left(1) req(4)
    by (simp add: csrf(3) logout_route_def with_body_def requireCsrfIfSessionValid_def bindE_def
        current_calm [OF assms(2)] cookie db_of_def [symmetric] slide_row [OF y(4,1)] check_def requireCsrf_def
        requireSameOrigin_def current_of_def service_calm [OF assms(2)] on_db_def returnE_def)
  let ?b' = "\<lparr>br_jar = set_cookies (br_jar b1) (rp_cookies (clearSessionCookies (answer 204 B_none))),
    br_api = on_db (\<lambda>_. d') (br_api b1), br_count = Suc (br_count b1)\<rparr>"
  have answer': "fetchImpl ''/api/auth/logout'' ?init b1 = (Some \<lparr>rs_status = 204, rs_payload = Not_json\<rparr>, ?b')"
    unfolding req(1) using answered_Inr [OF run] by (simp add: answer_def response_of_def clearSessionCookies_def)
  show ?thesis
  proof (rule that [of ?b'])
    show "client_logout fetchImpl b = (Inr (Ok None), ?b')"
      using answer' csrf(1,2) by (simp add: client_logout_def bindE_def client_request_def client_headers_def
          set_header_def client_body_def response_ok_def)
    show "session_cookie ?b' = None"
      by (simp add: session_cookie_def clearSessionCookies_def answer_def base_cookie_def map_of_eq_None_iff)
        (auto simp: image_iff)
    show "authenticated ?c now ?raw (db_of ?b') = None" for now
      using left(2) by simp
  qed
qed

end

end
