(* ===== verification/Web_Reads.thy ===== *)
theory Web_Reads
  imports Web_Requests
begin

text \<open>
  The reads of the web server for its pages, over the API behind it: the locale \<open>web_pages\<close> adds
  the server's \<open>fetch\<close> to \<open>web_site\<close>. A session in use reads what the API's services answer for
  its user, and stays in use; without one a page has nothing to show.
\<close>

section \<open>Paths with an identifier\<close>

lemma split_on_none: "c \<notin> set s \<Longrightarrow> split_on c s = [s]"
  by (induction s) auto

lemma split_on_first: "c \<notin> set s \<Longrightarrow> split_on c (s @ c # r) = s # split_on c r"
  by (induction s) auto

lemma joined_split_on: "joined [c] (split_on c s) = s"
proof (induction s)
  case (Cons x s)
  obtain p ps where ps: "split_on c s = p # ps" by (cases "split_on c s") auto
  with Cons.IH show ?case by (cases ps) auto
qed simp

lemma split_on_chars: "x \<in> set s \<Longrightarrow> x = c \<or> (\<exists>p \<in> set (split_on c s). x \<in> set p)"
proof (induction s)
  case (Cons y s)
  show ?case
  proof (cases "y = c")
    case False
    then obtain p ps where "split_on c s = p # ps" "split_on c (y # s) = (y # p) # ps"
      by (cases "split_on c s") auto
    with Cons show ?thesis by auto
  qed (use Cons in auto)
qed simp

lemma case_id_chars:
  assumes "CASE_ID_PATTERN i" and "x \<in> set i"
  shows "x = CHR ''-'' \<or> hex_digit x \<noteq> None"
  using assms split_on_chars [of x i "CHR ''-''"]
  by (fastforce simp: CASE_ID_PATTERN_def list_all_iff)

lemma case_id_plain:
  assumes "CASE_ID_PATTERN i"
  shows "CHR ''/'' \<notin> set i" and "CHR ''%'' \<notin> set i" and "i \<noteq> []"
proof -
  show "CHR ''/'' \<notin> set i" "CHR ''%'' \<notin> set i"
    using case_id_chars [OF assms, of "CHR ''/''"] case_id_chars [OF assms, of "CHR ''%''"]
    by (auto simp: hex_digit_def)
  show "i \<noteq> []"
    using assms by (auto simp: CASE_ID_PATTERN_def)
qed

lemma decode_plain: "CHR ''%'' \<notin> set s \<Longrightarrow> decodeURIComponent s = Some (map of_char s)"
  by (induction s) auto

lemma char_unit [simp]: "unat (of_char c :: 16 word) = of_char c"
  using unat_char_word [of c] by (simp add: of_nat_of_char)

lemma decoded_plain: "CHR ''%'' \<notin> set s \<Longrightarrow> decoded_segment s = Some s"
  by (simp add: decoded_segment_def decode_plain list_all_iff comp_def)

section \<open>What the reads depend on\<close>

lemma findOwnCase_row [simp]: "findOwnCase i userId (with_session_row x f d) = findOwnCase i userId d"
  by (simp add: findOwnCase_def cong: option.case_cong)

lemma ownCase_row [simp]: "ownCase cur i act (with_session_row x f d) = ownCase cur i act d"
  by (simp add: ownCase_def)

lemma listOwnCaseDocuments_row [simp]:
  "listOwnCaseDocuments i userId (with_session_row x f d) = listOwnCaseDocuments i userId d"
  by (simp add: listOwnCaseDocuments_def owned_case_def)

lemma reads_of_other_tables [simp]:
  "readOwnCase cur i (with_session_row x f d) = readOwnCase cur i d"
  "listOwnCases cur (with_session_row x f d) = listOwnCases cur d"
  "listDocuments cur i (with_session_row x f d) = listDocuments cur i d"
  by (simp_all add: readOwnCase_def listOwnCases_def listOwnCases_repo_def listDocuments_def
      cong: sum.case_cong)

lemma current_of_parts:
  "cur_user (current_of (x, u)) = toPublicUser u"
  "cur_actor (current_of (x, u)) = \<lparr>actor_id = u_id u, actor_role = u_role u, actor_status = u_status u\<rparr>"
  by (simp_all add: current_of_def)

lemma reads_of_other_session:
  "readOwnCase (current_of (x, u)) i d = readOwnCase (current_of (y, u)) i d"
  "listOwnCases (current_of (x, u)) d = listOwnCases (current_of (y, u)) d"
  "listDocuments (current_of (x, u)) i d = listDocuments (current_of (y, u)) i d"
  unfolding readOwnCase_def listOwnCases_def listDocuments_def ownCase_def current_of_parts by (rule refl)+

section \<open>Reads with a session in use\<close>

locale web_pages = web_site databaseUp site fetchImpl
  for databaseUp :: bool and site :: site and fetchImpl :: "browser fetch" +
  fixes url :: string and serverFetch :: "browser server_fetch"
  assumes served: "reads_api site url serverFetch"
begin

lemma server_answers:
  assumes "st_router site ''GET'' path = Some (e, ps)"
  obtains req where "serverFetch (url @ path) (forwarded_headers token) b =
      (fst (answered site b e req), (snd (answered site b e req))\<lparr>br_jar := br_jar b\<rparr>)"
    and "rq_params req = ps" and "readSessionToken req = Some token" and "rq_body req = No_body"
proof -
  obtain e' req where "e' = e \<and> rq_params req = ps" "rq_cookies req = [(SESSION_COOKIE, token)]" "rq_body req = No_body"
    "serverFetch (url @ path) (forwarded_headers token) b =
      (fst (answered site b e' req), (snd (answered site b e' req))\<lparr>br_jar := br_jar b\<rparr>)"
    using served [unfolded reads_api_def, rule_format, of path token b] assms by auto
  then show ?thesis
    using that [of req] by (simp add: readSessionToken_def)
qed

text \<open>A read with a session in use gets what the service answers its user.\<close>

lemma read_in_use:
  assumes "undisturbed (re_calls (st_env site (br_count b)))"
    and "in_use (ac_crypto (st_cfg site)) (Some token) u from' til (db_of b)"
    and "from' \<le> request_time site (br_count b)" and "request_time site (br_count b) \<le> til"
    and "SESSION_TOKEN_PATTERN token"
    and "st_router site ''GET'' path = Some (e, ps)"
    and "\<And>req. rq_params req = ps \<Longrightarrow> route (st_cfg site) (st_env site (br_count b)) e req =
      bindE (requireCurrentUser (st_cfg site) (st_env site (br_count b)) req) (\<lambda>cur.
      bindE (service (st_env site (br_count b)) 1 (\<lambda>_. querying (q cur))) (\<lambda>v. returnE (answer 200 (wrap v))))"
    and "\<And>x y f. q (current_of (x, u)) (with_session_row y f (db_of b)) = Inr v" and "wrap v \<noteq> B_none"
  obtains y f b' where "readFromApi serverFetch url path (Some token) b = (Read_ok (wrap v), b')"
    and "db_of b' = with_session_row y f (db_of b)" and "br_count b' = Suc (br_count b)"
    and "in_use (ac_crypto (st_cfg site)) (Some token) u (request_time site (br_count b)) til (db_of b')"
proof -
  let ?re = "st_env site (br_count b)" and ?c = "ac_crypto (st_cfg site)"
  obtain req where req: "serverFetch (url @ path) (forwarded_headers token) b =
      (fst (answered site b e req), (snd (answered site b e req))\<lparr>br_jar := br_jar b\<rparr>)"
    "rq_params req = ps" "readSessionToken req = Some token"
    by (rule server_answers [OF assms(6)])
  obtain y where y: "authenticated ?c (sup_now (re_sup ?re 0)) (Some token) (db_of b) = Some (y, u)"
    "s_lastSeenAt y \<le> request_time site (br_count b)" "session_valid til y" "sessions_wf (db_of b)"
    unfolding request_time_def [symmetric] by (rule in_use_auth [OF assms(2-4)]) blast
  let ?d = "with_session_row y (touched (sup_now (re_sup ?re 0))) (db_of b)"
  have "requireCurrentUser (st_cfg site) ?re req (br_api b) = (Inr (current_of (y, u)), slid (st_cfg site) ?re y (br_api b))"
    using requireCurrentUser_calm [OF assms(1) y(4) [unfolded db_of_def]] y(1) by (simp add: req(3) db_of_def)
  moreover have "service ?re 1 (\<lambda>_. querying (q (current_of (y, u)))) s = (Inr v, s)"
    if "w_db (as_world s) = ?d" for s
    using assms(1,8) that by (simp add: service_def call_undisturbed lift_io_def querying_def)
  ultimately have run: "route (st_cfg site) ?re e req (br_api b) = (Inr (answer 200 (wrap v)), slid (st_cfg site) ?re y (br_api b))"
    by (simp add: assms(7) [OF req(2)] bindE_def slid_def db_of_def returnE_def)
  let ?b' = "\<lparr>br_jar = br_jar b, br_api = slid (st_cfg site) ?re y (br_api b), br_count = Suc (br_count b)\<rparr>"
  have fetch: "serverFetch (url @ path) (forwarded_headers token) b = (Some \<lparr>rs_status = 200, rs_payload = Body (wrap v)\<rparr>, ?b')"
    unfolding req(1) using answered_Inr [OF run] assms(9)
    by (auto simp: answer_def response_of_def split: reply_body.split)
  have "\<not> refused_token (Some token)"
    using assms(5) by (auto simp: refused_token_def SESSION_TOKEN_PATTERN_def)
  then show ?thesis
  proof (intro that [of ?b' y "touched (sup_now (re_sup ?re 0))"])
    show "readFromApi serverFetch url path (Some token) b = (Read_ok (wrap v), ?b')"
      if "\<not> refused_token (Some token)"
      using fetch that by (simp add: readFromApi_def)
    show "in_use ?c (Some token) u (request_time site (br_count b)) til (db_of ?b')"
      unfolding request_time_def
      using in_use_slid [OF y(1,4) y(2) [unfolded request_time_def] y(3)] by (simp add: slid_def db_of_def)
  qed (simp_all add: slid_def db_of_def)
qed

text \<open>The case page of a case of the user.\<close>

lemma case_detail_path:
  assumes "CASE_ID_PATTERN i"
  shows "st_router site ''GET'' (''/api/cases/'' @ i) = Some (GET_case, [(''caseId'', i)])"
  by (rule found_route [where pat = "[Static ''api'', Static ''cases'', Param ''caseId'']" and segs = "[''api'', ''cases'', i]"])
    (use case_id_plain [OF assms] in \<open>simp_all add: ROUTES_def path_segments_def split_on_none decoded_plain\<close>)

lemma case_documents_path:
  assumes "CASE_ID_PATTERN i"
  shows "st_router site ''GET'' (''/api/cases/'' @ i @ ''/documents'') = Some (GET_documents, [(''caseId'', i)])"
  by (rule found_route [where pat = "[Static ''api'', Static ''cases'', Param ''caseId'', Static ''documents'']"
        and segs = "[''api'', ''cases'', i, ''documents'']"])
    (use case_id_plain [OF assms] in \<open>simp_all add: ROUTES_def path_segments_def split_on_first decoded_plain\<close>)

lemma own_cases_path: "st_router site ''GET'' ''/api/cases'' = Some (GET_cases, [])"
  by (rule found_route [where pat = "[Static ''api'', Static ''cases'']" and segs = "[''api'', ''cases'']"])
    (simp_all add: ROUTES_def path_segments_def)

lemma getOwnCase_in_use:
  assumes "undisturbed (re_calls (st_env site (br_count b)))"
    and "in_use (ac_crypto (st_cfg site)) (Some token) u from' til (db_of b)"
    and "from' \<le> request_time site (br_count b)" and "request_time site (br_count b) \<le> til"
    and "SESSION_TOKEN_PATTERN token" and "CASE_ID_PATTERN i" and "ac_uuid (st_cfg site) i"
    and "readOwnCase (current_of (x, u)) i (db_of b) = Inr v"
  obtains y f b' where "getOwnCase serverFetch url i (Some token) b = (Read_ok (Some v), b')"
    and "db_of b' = with_session_row y f (db_of b)" and "br_count b' = Suc (br_count b)"
    and "in_use (ac_crypto (st_cfg site)) (Some token) u (request_time site (br_count b)) til (db_of b')"
proof -
  have found: "readOwnCase (current_of (y, u)) i (with_session_row z f (db_of b)) = Inr v" for y z f
    using assms(8) reads_of_other_session(1) [of x u i "db_of b" y] by simp
  show ?thesis
    by (rule read_in_use [OF assms(1-5) case_detail_path [OF assms(6)], where q = "\<lambda>cur. readOwnCase cur i"
          and v = v and wrap = B_case_detail])
      (use assms(6,7) found that in \<open>simp_all add: read_case_route_def found_def uuid_param_def getOwnCase_def
         at_case_def case_detail_of_def\<close>)
qed

lemma getCaseDocuments_in_use:
  assumes "undisturbed (re_calls (st_env site (br_count b)))"
    and "in_use (ac_crypto (st_cfg site)) (Some token) u from' til (db_of b)"
    and "from' \<le> request_time site (br_count b)" and "request_time site (br_count b) \<le> til"
    and "SESSION_TOKEN_PATTERN token" and "CASE_ID_PATTERN i" and "ac_uuid (st_cfg site) i"
    and "listDocuments (current_of (x, u)) i (db_of b) = Inr v"
  obtains y f b' where "getCaseDocuments serverFetch url i (Some token) b = (Read_ok (Some v), b')"
    and "db_of b' = with_session_row y f (db_of b)" and "br_count b' = Suc (br_count b)"
    and "in_use (ac_crypto (st_cfg site)) (Some token) u (request_time site (br_count b)) til (db_of b')"
proof -
  have found: "listDocuments (current_of (y, u)) i (with_session_row z f (db_of b)) = Inr v" for y z f
    using assms(8) reads_of_other_session(3) [of x u i "db_of b" y] by simp
  show ?thesis
    by (rule read_in_use [OF assms(1-5) case_documents_path [OF assms(6)], where q = "\<lambda>cur. listDocuments cur i"
          and v = v and wrap = B_documents])
      (use assms(6,7) found that in \<open>simp_all add: list_documents_route_def found_def uuid_param_def getCaseDocuments_def
         at_case_def documents_of_def\<close>)
qed

lemma casePage_in_use:
  assumes "undisturbed (re_calls (st_env site (br_count b)))"
    and "undisturbed (re_calls (st_env site (Suc (br_count b))))"
    and "in_use (ac_crypto (st_cfg site)) (Some token) u from' til (db_of b)"
    and "from' \<le> request_time site (br_count b)"
    and "request_time site (br_count b) \<le> request_time site (Suc (br_count b))"
    and "request_time site (Suc (br_count b)) \<le> til"
    and "SESSION_TOKEN_PATTERN token" and "CASE_ID_PATTERN i" and "ac_uuid (st_cfg site) i"
    and "pe_apiInternalUrl e = url" and "pe_sessionToken e = Some token"
    and "readOwnCase (current_of (x, u)) i (db_of b) = Inr (c, hist)"
    and "listDocuments (current_of (x, u)) i (db_of b) = Inr ds"
  shows "fst (casePage serverFetch e i b) = Inr (Shown (Some
    \<lparr>cv_title = CASE_TYPE_LABELS (pc_type c), cv_status = CASE_STATUS_LABELS (pc_status c),
     cv_created = formatDate (pe_locale e) (pc_createdAt c), cv_history = map (history_line e) hist,
     cv_documents = Some (map (document_item_of e) ds), cv_upload = (pc_status c = DRAFT)\<rparr>))"
proof -
  have now: "request_time site (br_count b) \<le> til"
    using assms(5,6) by (rule order_trans)
  obtain y f b2 where page: "getOwnCase serverFetch url i (Some token) b = (Read_ok (Some (c, hist)), b2)"
    "db_of b2 = with_session_row y f (db_of b)" "br_count b2 = Suc (br_count b)"
    "in_use (ac_crypto (st_cfg site)) (Some token) u (request_time site (br_count b)) til (db_of b2)"
    by (rule getOwnCase_in_use [OF assms(1,3,4) now assms(7-9,12)])
  have same: "undisturbed (re_calls (st_env site (br_count b2)))" "request_time site (br_count b) \<le> request_time site (br_count b2)"
    "request_time site (br_count b2) \<le> til" "listDocuments (current_of (x, u)) i (db_of b2) = Inr ds"
    using assms(2,5,6,13) by (simp_all add: page(2,3))
  obtain b3 where "getCaseDocuments serverFetch url i (Some token) b2 = (Read_ok (Some ds), b3)"
    by (rule getCaseDocuments_in_use [OF same(1) page(4) same(2,3) assms(7-9) same(4)])
  with page(1) show ?thesis
    by (simp add: casePage_def assms(10,11) bindE_def plain_def used_def returnE_def)
qed

lemma getOwnCases_in_use:
  assumes "undisturbed (re_calls (st_env site (br_count b)))"
    and "in_use (ac_crypto (st_cfg site)) (Some token) u from' til (db_of b)"
    and "from' \<le> request_time site (br_count b)" and "request_time site (br_count b) \<le> til"
    and "SESSION_TOKEN_PATTERN token"
    and "listOwnCases (current_of (x, u)) (db_of b) = Inr v"
  obtains y f b' where "getOwnCases serverFetch url (Some token) b = (Read_ok (Some v), b')"
    and "db_of b' = with_session_row y f (db_of b)" and "br_count b' = Suc (br_count b)"
    and "in_use (ac_crypto (st_cfg site)) (Some token) u (request_time site (br_count b)) til (db_of b')"
proof -
  have found: "listOwnCases (current_of (y, u)) (with_session_row z f (db_of b)) = Inr v" for y z f
    using assms(6) reads_of_other_session(2) [of x u "db_of b" y] by simp
  show ?thesis
    by (rule read_in_use [OF assms(1-5) own_cases_path, where q = listOwnCases and v = v and wrap = B_cases])
      (use found that in \<open>simp_all add: list_cases_route_def getOwnCases_def cases_of_def\<close>)
qed

section \<open>The profile\<close>

lemma me_path: "st_router site ''GET'' ''/api/auth/me'' = Some (GET_me, [])"
  by (rule found_route [where pat = "[Static ''api'', Static ''auth'', Static ''me'']" and segs = "[''api'', ''auth'', ''me'']"])
    (simp_all add: ROUTES_def path_segments_def)

lemma getCurrentUser_in_use:
  assumes "undisturbed (re_calls (st_env site (br_count b)))"
    and "in_use (ac_crypto (st_cfg site)) (Some token) u from' til (db_of b)"
    and "from' \<le> request_time site (br_count b)" and "request_time site (br_count b) \<le> til"
    and "SESSION_TOKEN_PATTERN token"
  obtains y f b' where "getCurrentUser serverFetch url (Some token) b = (Some (toPublicUser u), b')"
    and "db_of b' = with_session_row y f (db_of b)" and "br_count b' = Suc (br_count b)"
    and "in_use (ac_crypto (st_cfg site)) (Some token) u (request_time site (br_count b)) til (db_of b')"
proof -
  let ?re = "st_env site (br_count b)" and ?c = "ac_crypto (st_cfg site)"
  obtain req where req: "serverFetch (url @ ''/api/auth/me'') (forwarded_headers token) b =
      (fst (answered site b GET_me req), (snd (answered site b GET_me req))\<lparr>br_jar := br_jar b\<rparr>)"
    "readSessionToken req = Some token"
    by (rule server_answers [OF me_path])
  obtain y where y: "authenticated ?c (sup_now (re_sup ?re 0)) (Some token) (db_of b) = Some (y, u)"
    "s_lastSeenAt y \<le> request_time site (br_count b)" "session_valid til y" "sessions_wf (db_of b)"
    unfolding request_time_def [symmetric] by (rule in_use_auth [OF assms(2-4)]) blast
  have active: "u_status u = ACTIVE"
    using assms(2) by (auto simp: in_use_def)
  let ?d = "with_session_row y (touched (sup_now (re_sup ?re 0))) (db_of b)"
  have "currentUser ?c (sup_now (re_sup ?re 0)) (Some token) (db_of b) = (Inr (Some (current_of (y, u))), ?d)"
    using currentUser_answer [of ?c "sup_now (re_sup ?re 0)" "Some token" "db_of b"] y(1)
      currentUser_state [of ?c "sup_now (re_sup ?re 0)" "Some token" "db_of b"] slide_row [OF y(4,1)]
    by (simp add: prod_eq_iff)
  then have "readOwnProfile ?c (sup_now (re_sup ?re 0)) (Some token) (db_of b) = (Inr (toPublicUser u), ?d)"
    using active by (simp add: readOwnProfile_def bindE_def current_of_parts toPublicUser_def)
  then have run: "route (st_cfg site) ?re GET_me req (br_api b) =
      (Inr (answer 200 (B_user (toPublicUser u))), slid (st_cfg site) ?re y (br_api b))"
    using req(2) by (simp add: me_route_def bindE_def service_calm [OF assms(1)] db_of_def slid_def on_db_def returnE_def)
  let ?b' = "\<lparr>br_jar = br_jar b, br_api = slid (st_cfg site) ?re y (br_api b), br_count = Suc (br_count b)\<rparr>"
  have fetch: "serverFetch (url @ ''/api/auth/me'') (forwarded_headers token) b =
      (Some \<lparr>rs_status = 200, rs_payload = Body (B_user (toPublicUser u))\<rparr>, ?b')"
    unfolding req(1) using answered_Inr [OF run] by (simp add: answer_def response_of_def)
  have known: "\<not> refused_token (Some token)"
    using assms(5) by (auto simp: refused_token_def SESSION_TOKEN_PATTERN_def)
  show ?thesis
  proof (rule that [of ?b' y "touched (sup_now (re_sup ?re 0))"])
    show "getCurrentUser serverFetch url (Some token) b = (Some (toPublicUser u), ?b')"
      using fetch known by (simp add: getCurrentUser_def user_of_def)
    show "in_use ?c (Some token) u (request_time site (br_count b)) til (db_of ?b')"
      unfolding request_time_def
      using in_use_slid [OF y(1,4) y(2) [unfolded request_time_def] y(3)] by (simp add: slid_def db_of_def)
  qed (simp_all add: slid_def db_of_def)
qed

section \<open>Reads of a visitor\<close>

lemma visitor_answered:
  assumes "st_router site ''GET'' path = Some (e, ps)"
    and "\<And>req. readSessionToken req = Some token \<Longrightarrow>
      fst (route (st_cfg site) (st_env site (br_count b)) e req (br_api b)) = Inl (Thrown unauthenticated)"
  obtains b' m where "serverFetch (url @ path) (forwarded_headers token) b = (Some \<lparr>rs_status = 401, rs_payload = m\<rparr>, b')"
proof -
  obtain req where req: "serverFetch (url @ path) (forwarded_headers token) b =
      (fst (answered site b e req), (snd (answered site b e req))\<lparr>br_jar := br_jar b\<rparr>)"
    "readSessionToken req = Some token"
    by (rule server_answers [OF assms(1)])
  obtain s' where "route (st_cfg site) (st_env site (br_count b)) e req (br_api b) = (Inl (Thrown unauthenticated), s')"
    using assms(2) [OF req(2)] by (metis prod.collapse)
  then have "answered site b e req = (Some (response_of (on_send req (error_handler req (Thrown unauthenticated)))),
      snd (answered site b e req))"
    by (simp add: answered_def serve_Inl split: prod.split)
  then have "\<exists>m. fst (answered site b e req) = Some \<lparr>rs_status = 401, rs_payload = m\<rparr>"
    by (simp add: prod_eq_iff response_of_def on_send_def error_handler_def unauthenticated_def http_error_def)
  then show ?thesis
    using that req(1) by auto
qed

lemma visitor_reads:
  assumes "undisturbed (re_calls (st_env site (br_count b)))"
    and "authenticated (ac_crypto (st_cfg site)) (request_time site (br_count b)) raw (db_of b) = None"
    and "st_router site ''GET'' path = Some (e, ps)"
    and "\<And>req. \<exists>k. route (st_cfg site) (st_env site (br_count b)) e req =
      bindE (requireCurrentUser (st_cfg site) (st_env site (br_count b)) req) k"
  shows "fst (readFromApi serverFetch url path raw b) = Read_unauthenticated"
proof (cases "refused_token raw")
  case False
  then obtain token where token: "raw = Some token"
    by (auto simp: refused_token_def split: option.splits)
  have out: "fst (route (st_cfg site) (st_env site (br_count b)) e req (br_api b)) = Inl (Thrown unauthenticated)"
    if "readSessionToken req = Some token" for req
  proof -
    have "fst (requireCurrentUser (st_cfg site) (st_env site (br_count b)) req (br_api b)) = Inl (Thrown unauthenticated)"
      using unauthenticated_calm [OF assms(1)] assms(2) that by (simp add: token request_time_def db_of_def)
    then show ?thesis
      using assms(4) [of req] by (cases "requireCurrentUser (st_cfg site) (st_env site (br_count b)) req (br_api b)")
        (auto simp: bindE_def)
  qed
  obtain b' m where "serverFetch (url @ path) (forwarded_headers token) b = (Some \<lparr>rs_status = 401, rs_payload = m\<rparr>, b')"
    by (rule visitor_answered [OF assms(3) out]) blast+
  with False show ?thesis by (simp add: readFromApi_def token)
qed (simp add: readFromApi_def)

lemma visitor_profile:
  assumes "undisturbed (re_calls (st_env site (br_count b)))"
    and "authenticated (ac_crypto (st_cfg site)) (request_time site (br_count b)) raw (db_of b) = None"
  shows "fst (getCurrentUser serverFetch url raw b) = None"
proof (cases "refused_token raw")
  case False
  then obtain token where token: "raw = Some token"
    by (auto simp: refused_token_def split: option.splits)
  have out: "fst (route (st_cfg site) (st_env site (br_count b)) GET_me req (br_api b)) = Inl (Thrown unauthenticated)"
    if "readSessionToken req = Some token" for req
  proof -
    let ?c = "ac_crypto (st_cfg site)" and ?now = "sup_now (re_sup (st_env site (br_count b)) 0)"
    have "fst (currentUser ?c ?now raw (db_of b)) = Inr None"
      using currentUser_answer [of ?c ?now raw "db_of b"] assms(2) by (simp add: request_time_def)
    then show ?thesis
      using that by (cases "currentUser ?c ?now raw (db_of b)")
        (simp add: me_route_def bindE_def service_calm [OF assms(1)] readOwnProfile_def token db_of_def)
  qed
  obtain b' m where "serverFetch (url @ ''/api/auth/me'') (forwarded_headers token) b = (Some \<lparr>rs_status = 401, rs_payload = m\<rparr>, b')"
    by (rule visitor_answered [OF me_path out]) blast+
  with False show ?thesis by (simp add: getCurrentUser_def token)
qed (simp add: getCurrentUser_def)

end

end
