(* ===== verification/Web_Theorems.thy ===== *)
theory Web_Theorems
  imports Web_Reads Outbox
begin

text \<open>
  The web application end to end, over its API: a case from its form to its page, a session ended
  by the button, the pages of a visitor and of a user, the upload guard against the API's own
  answer, and the token of an email link; and a router, a browser and a web server that are what
  the interfaces \<open>web_site\<close> and \<open>web_pages\<close> ask for.
\<close>

section \<open>A router, a browser and a web server\<close>

fun first_match :: "(string \<times> segment list \<times> endpoint) list \<Rightarrow> string \<Rightarrow> string list \<Rightarrow>
  (endpoint \<times> (string \<times> string) list) option" where
  "first_match [] m segs = None"
| "first_match ((m', pat, e) # rs) m segs =
    (if m' = m then case filled pat segs of Some ps \<Rightarrow> Some (e, ps) | None \<Rightarrow> first_match rs m segs
     else first_match rs m segs)"

definition table_router :: "bool \<Rightarrow> router" where
  "table_router databaseUp m path =
    (case path_segments path of None \<Rightarrow> None | Some segs \<Rightarrow> first_match (ROUTES databaseUp) m segs)"

lemma filled_shapes:
  "filled [] segs = Some ps \<longleftrightarrow> segs = [] \<and> ps = []"
  "filled (Static a # pat) segs = Some ps \<longleftrightarrow> (\<exists>rest. segs = a # rest \<and> filled pat rest = Some ps)"
  "filled (Param name # pat) segs = Some ps \<longleftrightarrow>
    (\<exists>s v rest qs. segs = s # rest \<and> s \<noteq> [] \<and> decoded_segment s = Some v \<and> filled pat rest = Some qs \<and> ps = (name, v) # qs)"
  by (cases segs; auto split: option.splits)+

text \<open>No path belongs to two routes, so taking the first one is routing.\<close>

lemma table_router_registered: "registered databaseUp (table_router databaseUp)"
  unfolding registered_def
  by (auto simp: ROUTES_def filled_shapes table_router_def)

text \<open>The request as the browser sends it, with nothing else in its headers.\<close>

definition sent_request :: "site \<Rightarrow> (string \<times> string) list \<Rightarrow> fetch_init \<Rightarrow> (string \<times> string) list \<Rightarrow> request" where
  "sent_request site jar init ps =
    \<lparr>rq_id = ''r1'', rq_ip = ''1.2.3.4'', rq_peer = None, rq_origin = One (ac_appOrigin (st_cfg site)),
     rq_referer = Absent, rq_csrf = header_of ''x-csrf-token'' (fi_headers init),
     rq_fileName = header_of ''x-file-name'' (fi_headers init), rq_userAgent = None,
     rq_cookies = jar, rq_params = ps, rq_body = fi_body init\<rparr>"

definition routed_at :: "site \<Rightarrow> string \<Rightarrow> string \<Rightarrow> endpoint \<times> (string \<times> string) list" where
  "routed_at site m path = (case st_router site m path of None \<Rightarrow> (Unknown_route, []) | Some r \<Rightarrow> r)"

definition plain_fetch :: "site \<Rightarrow> browser fetch" where
  "plain_fetch site path init b =
    (case middleware ''r1'' [] False (web_request_of path init) of
       Answered st e hs \<Rightarrow> (Some \<lparr>rs_status = st, rs_payload = Body (B_error e)\<rparr>, b)
     | _ \<Rightarrow> (case routed_at site (fi_method init) path of
         (e, ps) \<Rightarrow> answered site b e (sent_request site (br_jar b) init ps)))"

lemma plain_fetch_first_party: "first_party site (plain_fetch site)"
  unfolding first_party_def
proof (intro allI)
  fix path :: string and init :: fetch_init and b :: browser
  obtain e ps where r: "routed_at site (fi_method init) path = (e, ps)" by fastforce
  then have sent: "delivered site b path init e (sent_request site (br_jar b) init ps)"
    by (auto simp: delivered_def sent_request_def routed_at_def split: option.splits body.splits)
  have "case middleware ''r1'' [] False (web_request_of path init) of
      Forwarded \<Rightarrow> \<exists>e req. delivered site b path init e req \<and> plain_fetch site path init b = answered site b e req
    | Answered st e hs \<Rightarrow> plain_fetch site path init b = (Some \<lparr>rs_status = st, rs_payload = Body (B_error e)\<rparr>, b)
    | Page_request _ _ \<Rightarrow> True"
    using sent by (cases "middleware ''r1'' [] False (web_request_of path init)") (auto simp: plain_fetch_def r)
  then show "\<exists>newId octets isDevelopment.
    case middleware newId octets isDevelopment (web_request_of path init) of
      Forwarded \<Rightarrow> \<exists>e req. delivered site b path init e req \<and> plain_fetch site path init b = answered site b e req
    | Answered st e hs \<Rightarrow> plain_fetch site path init b = (Some \<lparr>rs_status = st, rs_payload = Body (B_error e)\<rparr>, b)
    | Page_request _ _ \<Rightarrow> True"
    by (intro exI)
qed

definition reading_init :: fetch_init where
  "reading_init = \<lparr>fi_method = ''GET'', fi_headers = [], fi_credentials = '''', fi_cache = '''', fi_body = No_body\<rparr>"

text \<open>The token is read back from the cookie header the web server writes.\<close>

definition cookie_value :: "(string \<times> string) list \<Rightarrow> string" where
  "cookie_value hs = drop (Suc (length SESSION_COOKIE)) (given (map_of hs ''cookie''))"

definition plain_server_fetch :: "site \<Rightarrow> string \<Rightarrow> browser server_fetch" where
  "plain_server_fetch site url target hs b =
    (case routed_at site ''GET'' (drop (length url) target) of
       (e, ps) \<Rightarrow>
         let out = answered site b e (sent_request site [(SESSION_COOKIE, cookie_value hs)] reading_init ps)
         in (fst out, (snd out)\<lparr>br_jar := br_jar b\<rparr>))"

lemma plain_server_fetch_reads: "reads_api site url (plain_server_fetch site url)"
  unfolding reads_api_def
proof (intro allI)
  fix path token b
  let ?r = "routed_at site ''GET'' path"
  let ?req = "sent_request site [(SESSION_COOKIE, token)] reading_init (snd ?r)"
  have "cookie_value (forwarded_headers token) = token"
    by (simp add: cookie_value_def forwarded_headers_def given_def)
  then show "\<exists>e req. (case st_router site ''GET'' path of
         None \<Rightarrow> e = Unknown_route
       | Some (e', ps) \<Rightarrow> e = e' \<and> rq_params req = ps) \<and>
      rq_cookies req = [(SESSION_COOKIE, token)] \<and> rq_body req = No_body \<and>
      plain_server_fetch site url (url @ path) (forwarded_headers token) b =
        (fst (answered site b e req), (snd (answered site b e req))\<lparr>br_jar := br_jar b\<rparr>)"
    by (intro exI [of _ "fst ?r"] exI [of _ ?req])
      (auto simp: plain_server_fetch_def routed_at_def sent_request_def reading_init_def Let_def
        split: option.splits prod.splits)
qed

text \<open>Any site whose router is the table's.\<close>

definition routed_site :: "bool \<Rightarrow> api_cfg \<Rightarrow> (nat \<Rightarrow> request_env) \<Rightarrow> site" where
  "routed_site databaseUp cfg envs = \<lparr>st_cfg = cfg, st_router = table_router databaseUp, st_env = envs\<rparr>"

lemma routed_site_registered: "registered databaseUp (st_router (routed_site databaseUp cfg envs))"
  by (simp add: routed_site_def table_router_registered)

interpretation routed: web_site databaseUp "routed_site databaseUp cfg envs" "plain_fetch (routed_site databaseUp cfg envs)"
  for databaseUp :: bool and cfg :: api_cfg and envs :: "nat \<Rightarrow> request_env"
  by unfold_locales (rule routed_site_registered, rule plain_fetch_first_party)

interpretation served: web_pages databaseUp "routed_site databaseUp cfg envs" "plain_fetch (routed_site databaseUp cfg envs)"
  url "plain_server_fetch (routed_site databaseUp cfg envs) url"
  for databaseUp :: bool and cfg :: api_cfg and envs :: "nat \<Rightarrow> request_env" and url :: string
  by unfold_locales (rule plain_server_fetch_reads)

section \<open>A case, from its form to its page\<close>

text \<open>
  The environment of the requests: nothing fails or interferes, the clock does not run backwards,
  and the generators answer.
\<close>

definition calm_site :: "site \<Rightarrow> bool" where
  "calm_site site \<longleftrightarrow> ac_appOrigin (st_cfg site) \<noteq> [] \<and>
    (\<forall>n. undisturbed (re_calls (st_env site n)) \<and> re_csrfRaw (st_env site n) \<noteq> [] \<and>
      request_time site n \<le> request_time site (Suc n) \<and>
      request_time site n \<le> sup_now (re_sup (st_env site n) 1))"

lemma calm_site_at:
  assumes "calm_site site"
  shows "undisturbed (re_calls (st_env site n))" and "re_csrfRaw (st_env site n) \<noteq> []"
    and "request_time site n \<le> request_time site (Suc n)"
    and "request_time site n \<le> sup_now (re_sup (st_env site n) 1)" and "ac_appOrigin (st_cfg site) \<noteq> []"
  using assms by (simp_all add: calm_site_def)

lemma listed_types [simp]: "find (\<lambda>t. case_type_name t = case_type_name ctype) CASE_TYPES = Some ctype"
  by (cases ctype) (simp_all add: CASE_TYPES_def)

lemma new_case_keeps_documents:
  "createCase newId historyId now cur ctype ctx d = (Inr pc, d') \<Longrightarrow> documents d' = documents d"
  by (auto simp: createCase_def createCase_repo_def Let_def bindE_eq_Inr insert_audit_def split: if_splits)

lemma new_case_documents:
  assumes "createCase newId historyId now (current_of (x, u)) ctype ctx d = (Inr pc, d')"
    and "newId \<notin> d_caseId ` set (documents d)"
  shows "listDocuments (current_of (x, u)) newId d' = Inr []"
proof -
  note made = createCase_Inr [OF assms(1)]
  have u: "u_status u = ACTIVE" "u_role u = USER"
    using made(4) by (auto simp: current_of_parts cases_can_def toPublicUser_def split: if_splits)
  have app: "find P (xs @ ys) = (case find P xs of None \<Rightarrow> find P ys | Some x \<Rightarrow> Some x)"
    for P :: "case_row \<Rightarrow> bool" and xs ys
    by (induction xs) auto
  have "find (\<lambda>c. c_id c = newId \<and> c_userId c = u_id u) (cases d) = None"
    using made(1) by (auto simp: find_None_iff)
  then have "ownCase (current_of (x, u)) newId ''document:list'' d' = Inr \<lparr>c_id = newId, c_userId = u_id u,
      c_type = ctype, c_status = DRAFT, c_createdAt = now, c_updatedAt = now\<rparr>"
    using u by (simp add: ownCase_def current_of_parts toPublicUser_def findOwnCase_def made(2) app)
  moreover have "filter (\<lambda>r. d_caseId r = newId \<and> owned_case i d' (d_caseId r)) (documents d') = []" for i
    using assms(2) by (auto simp: new_case_keeps_documents [OF assms(1)] filter_empty_conv)
  ultimately show ?thesis
    by (simp add: listDocuments_def listOwnCaseDocuments_def)
qed

text \<open>
  C6. A user with a session in use submits the form of a new case. The browser goes to the
  page of the case the API made; the page, read through the web server with the same cookie, shows
  its type, its initial status, the one entry of its history, no document, and the upload form.
\<close>

theorem new_case_reaches_its_page:
  assumes "registered databaseUp (st_router site)" and "first_party site fetchImpl" and "reads_api site url serverFetch"
    and "calm_site site" and "in_use (ac_crypto (st_cfg site)) (session_cookie b) u from' til (db_of b)"
    and "u_role u = USER" and "session_cookie b = Some token" and "SESSION_TOKEN_PATTERN token"
    and "from' \<le> request_time site (br_count b)" and "request_time site (br_count b + 3) \<le> til"
    and "cases_wf (db_of b)" and "newId = re_newId (st_env site (br_count b + 1))"
    and "newId \<notin> c_id ` set (cases (db_of b))" and "newId \<notin> d_caseId ` set (documents (db_of b))"
    and "CASE_ID_PATTERN newId" and "ac_uuid (st_cfg site) newId"
    and "pe_apiInternalUrl e = url" and "pe_sessionToken e = Some token"
  shows "\<exists>b'. new_case_form fetchImpl (Some (case_type_name ctype)) b = (Inr (Navigate (''/casos/'' @ newId)), b') \<and>
    fst (casePage serverFetch e newId b') = Inr (Shown (Some
      \<lparr>cv_title = CASE_TYPE_LABELS ctype, cv_status = ''Borrador'',
       cv_created = formatDate (pe_locale e) (ce_clock (re_calls (st_env site (br_count b + 1))) 1),
       cv_history = [formatDate (pe_locale e) (ce_clock (re_calls (st_env site (br_count b + 1))) 1) @ '' - '' @
         ''Creado en Borrador''], cv_documents = Some [], cv_upload = True\<rparr>))"
proof -
  note calm = calm_site_at [OF assms(4)]
  have pages: "web_pages databaseUp site fetchImpl url serverFetch"
    using assms(1-3) by (simp add: web_pages_def web_site_def web_pages_axioms_def)
  then have browser: "web_site databaseUp site fetchImpl"
    by (simp add: web_pages_def)
  let ?n = "br_count b"
  have times: "request_time site ?n \<le> request_time site (Suc ?n)" "request_time site (Suc ?n) \<le> request_time site (Suc (Suc ?n))"
    "request_time site (Suc (Suc ?n)) \<le> request_time site (Suc (Suc (Suc ?n)))"
    "request_time site (Suc (Suc (Suc ?n))) \<le> til"
    using calm(3) assms(10) by (simp_all add: numeral_3_eq_3)
  have newId: "newId = re_newId (st_env site (Suc ?n))"
    using assms(12) by simp
  obtain c x ctx d b' where made: "client_createCase fetchImpl ctype b = (Inr (Ok (Some c)), b')"
    "createCase newId (re_historyId (st_env site (Suc ?n))) (ce_clock (re_calls (st_env site (Suc ?n))) 1)
        (current_of (x, u)) ctype ctx d = (Inr c, db_of b')"
    "cases d = cases (db_of b)" "caseHistory d = caseHistory (db_of b)" "documents d = documents (db_of b)"
    "br_count b' = Suc (Suc ?n)"
    "in_use (ac_crypto (st_cfg site)) (session_cookie b) u (request_time site (Suc ?n)) til (db_of b')"
    unfolding newId
    by (rule web_site.client_creates_case [OF browser calm(1) calm(1) assms(5,6,9) times(1) _ calm(2) calm(5)
          assms(13) [unfolded newId]]) (use times in \<open>auto\<close>)
  have c: "c = \<lparr>pc_id = newId, pc_type = ctype, pc_status = DRAFT,
      pc_createdAt = ce_clock (re_calls (st_env site (Suc ?n))) 1, pc_updatedAt = ce_clock (re_calls (st_env site (Suc ?n))) 1\<rparr>"
    by (rule createCase_Inr(5) [OF made(2)])
  have "cases_wf d"
    using assms(11) by (simp add: cases_wf_def made(3,4))
  then have read: "readOwnCase (current_of (x, u)) newId (db_of b') = Inr (c, [\<lparr>ph_fromStatus = None, ph_toStatus = DRAFT,
      ph_changedAt = ce_clock (re_calls (st_env site (Suc ?n))) 1\<rparr>])"
    using created_case_reads [OF _ made(2) refl refl] by blast
  have none: "listDocuments (current_of (x, u)) newId (db_of b') = Inr []"
    using new_case_documents [OF made(2)] assms(14) by (simp add: made(5))
  have "fst (casePage serverFetch e newId b') = Inr (Shown (Some
      \<lparr>cv_title = CASE_TYPE_LABELS ctype, cv_status = ''Borrador'',
       cv_created = formatDate (pe_locale e) (ce_clock (re_calls (st_env site (Suc ?n))) 1),
       cv_history = [formatDate (pe_locale e) (ce_clock (re_calls (st_env site (Suc ?n))) 1) @ '' - '' @
         ''Creado en Borrador''], cv_documents = Some [], cv_upload = True\<rparr>))"
    by (subst web_pages.casePage_in_use [OF pages calm(1) calm(1) made(7) [unfolded assms(7)] _ _ _ assms(8,15-18) read none])
      (use times in \<open>auto simp: made(6) history_line_def c\<close>)
  moreover have "new_case_form fetchImpl (Some (case_type_name ctype)) b = (Inr (Navigate (''/casos/'' @ newId)), b')"
    using made(1) by (simp add: new_case_form_def bindE_def used_def returnE_def c)
  ultimately show ?thesis by auto
qed

section \<open>The button that ends the session\<close>

text \<open>
  C14. The logout button, with a session in use: the browser goes to the login page without its
  cookie, and the cookie authenticates nobody from then on, whoever kept it.
\<close>

theorem logout_button_ends_session:
  assumes "registered databaseUp (st_router site)" and "first_party site fetchImpl" and "calm_site site"
    and "in_use (ac_crypto (st_cfg site)) (session_cookie b) u from' til (db_of b)"
    and "from' \<le> request_time site (br_count b)"
    and "sup_now (re_sup (st_env site (br_count b + 1)) 1) \<le> til"
  shows "\<exists>b'. logout_button fetchImpl b = (Inr (Navigate ''/iniciar-sesion''), b') \<and> session_cookie b' = None \<and>
    (\<forall>now. authenticated (ac_crypto (st_cfg site)) now (session_cookie b) (db_of b') = None)"
proof -
  note calm = calm_site_at [OF assms(3)]
  have browser: "web_site databaseUp site fetchImpl"
    using assms(1,2) by (simp add: web_site_def)
  obtain b' where "client_logout fetchImpl b = (Inr (Ok None), b')" "session_cookie b' = None"
    "\<And>now. authenticated (ac_crypto (st_cfg site)) now (session_cookie b) (db_of b') = None"
    by (rule web_site.client_logs_out [OF browser calm(1) calm(1) assms(4,5) calm(3) calm(4) _ calm(2) calm(5)])
      (use assms(6) in auto)
  then show ?thesis by (simp add: logout_button_def bindE_def returnE_def)
qed

section \<open>Pages of a visitor and of a user\<close>

text \<open>
  C9. On a site where no call fails, a visitor whose cookie, if any, authenticates nobody sees
  nothing on the four pages that need a user (the panel, the list of cases, a case, the form of a
  new one; the others are public): each answers with the redirection to the login page, except a
  case's page asked for an identifier that is none, with a cookie that has the form of a token,
  which answers that there is no such page.
\<close>

theorem visitor_is_redirected:
  assumes "registered databaseUp (st_router site)" and "reads_api site url serverFetch" and "calm_site site"
    and "authenticated (ac_crypto (st_cfg site)) (request_time site (br_count b)) (pe_sessionToken e) (db_of b) = None"
    and "pe_apiInternalUrl e = url"
  shows "fst (dashboardPage serverFetch e b) = Inr (Redirect ''/iniciar-sesion'') \<and>
    fst (casesPage serverFetch e b) = Inr (Redirect ''/iniciar-sesion'') \<and>
    fst (newCasePage serverFetch e b) = Inr (Redirect ''/iniciar-sesion'') \<and>
    fst (casePage serverFetch e i b) =
      Inr (if CASE_ID_PATTERN i \<or> refused_token (pe_sessionToken e) then Redirect ''/iniciar-sesion'' else Not_found_page)"
proof -
  note calm = calm_site_at(1) [OF assms(3)]
  have pages: "web_pages databaseUp site (plain_fetch site) url serverFetch"
    using assms(1,2) plain_fetch_first_party by (simp add: web_pages_def web_site_def web_pages_axioms_def)
  note reads = web_pages.visitor_reads [OF pages calm assms(4)]
  have "fst (getCurrentUser serverFetch url (pe_sessionToken e) b) = None"
    by (rule web_pages.visitor_profile [OF pages calm assms(4)])
  moreover have "fst (readFromApi serverFetch url ''/api/cases'' (pe_sessionToken e) b) = Read_unauthenticated"
    by (rule reads [OF web_pages.own_cases_path [OF pages]]) (auto simp: list_cases_route_def)
  ultimately have listed: "fst (dashboardPage serverFetch e b) = Inr (Redirect ''/iniciar-sesion'')"
    "fst (casesPage serverFetch e b) = Inr (Redirect ''/iniciar-sesion'')"
    "fst (newCasePage serverFetch e b) = Inr (Redirect ''/iniciar-sesion'')"
    by (auto simp: dashboardPage_def casesPage_def newCasePage_def assms(5) bindE_def plain_def
        getOwnCases_def returnE_def split: prod.split)
  have "fst (readFromApi serverFetch url (''/api/cases/'' @ i) (pe_sessionToken e) b) = Read_unauthenticated"
    if "CASE_ID_PATTERN i"
    by (rule reads [OF web_pages.case_detail_path [OF pages that]]) (auto simp: read_case_route_def)
  then have "fst (casePage serverFetch e i b) =
      Inr (if CASE_ID_PATTERN i \<or> refused_token (pe_sessionToken e) then Redirect ''/iniciar-sesion'' else Not_found_page)"
    by (auto simp: casePage_def assms(5) bindE_def plain_def getOwnCase_def at_case_def returnE_def split: prod.split)
  with listed show ?thesis by blast
qed

text \<open>
  The panel of a user with a session in use shows their name and their own cases, newest first,
  the open ones apart from the closed.
\<close>

theorem panel_shows_own_cases:
  assumes "registered databaseUp (st_router site)" and "reads_api site url serverFetch" and "calm_site site"
    and "in_use (ac_crypto (st_cfg site)) (Some token) u from' til (db_of b)" and "u_role u = USER"
    and "from' \<le> request_time site (br_count b)" and "request_time site (br_count b + 1) \<le> til"
    and "SESSION_TOKEN_PATTERN token" and "pe_apiInternalUrl e = url" and "pe_sessionToken e = Some token"
  shows "fst (dashboardPage serverFetch e b) = Inr (Shown
    \<lparr>pv_fullName = u_fullName u,
     pv_active = map (\<lambda>c. case_item_of e (toPublicCase c))
       (filter (\<lambda>c. \<not> isClosedStatus (c_status c)) (listOwnCases_repo (u_id u) (db_of b))),
     pv_closed = map (\<lambda>c. case_item_of e (toPublicCase c))
       (filter (\<lambda>c. isClosedStatus (c_status c)) (listOwnCases_repo (u_id u) (db_of b))),
     pv_message = None\<rparr>)"
proof -
  note calm = calm_site_at [OF assms(3)]
  have pages: "web_pages databaseUp site (plain_fetch site) url serverFetch"
    using assms(1,2) plain_fetch_first_party by (simp add: web_pages_def web_site_def web_pages_axioms_def)
  have times: "request_time site (br_count b) \<le> request_time site (Suc (br_count b))"
    "request_time site (Suc (br_count b)) \<le> til"
    using calm(3) assms(7) by simp_all
  obtain y f b1 where user: "getCurrentUser serverFetch url (Some token) b = (Some (toPublicUser u), b1)"
    "db_of b1 = with_session_row y f (db_of b)" "br_count b1 = Suc (br_count b)"
    "in_use (ac_crypto (st_cfg site)) (Some token) u (request_time site (br_count b)) til (db_of b1)"
    by (rule web_pages.getCurrentUser_in_use [OF pages calm(1) assms(4,6) _ assms(8)]) (use times in auto)
  have active: "u_status u = ACTIVE"
    using assms(4) by (auto simp: in_use_def)
  have own: "listOwnCases (current_of (y, u)) (db_of b1) = Inr (map toPublicCase (listOwnCases_repo (u_id u) (db_of b)))"
    using assms(5) active unfolding user(2)
    by (simp add: listOwnCases_def listOwnCases_repo_def current_of_parts toPublicUser_def)
  obtain b2 where "getOwnCases serverFetch url (Some token) b1 =
      (Read_ok (Some (map toPublicCase (listOwnCases_repo (u_id u) (db_of b)))), b2)"
    by (rule web_pages.getOwnCases_in_use [OF pages calm(1) user(4) _ _ assms(8) own])
      (use times in \<open>auto simp: user(3)\<close>)
  with user(1) show ?thesis
    by (simp add: dashboardPage_def assms(9,10) bindE_def plain_def used_def returnE_def splitByActivity_def
        toPublicUser_def filter_map comp_def toPublicCase_def)
qed

section \<open>The upload guard and the API\<close>

lemma declared_number:
  assumes "length content < 2 ^ 53"
  shows "is_finite (js_Number (decimal (length content)))"
    and "at_most (js_Number (decimal (length content))) n \<longleftrightarrow> int (length content) \<le> n"
proof -
  have value': "integer_value (js_Number (decimal (length content))) = Some (int (length content))"
    using js_Number_decimal [OF assms] .
  then show "is_finite (js_Number (decimal (length content)))"
    by (cases "js_Number (decimal (length content))") (auto simp: is_finite_def)
  show "at_most (js_Number (decimal (length content))) n \<longleftrightarrow> int (length content) \<le> n"
    by (rule at_most_integer [OF value'])
qed

definition too_large :: "string \<Rightarrow> api_error" where
  "too_large i = \<lparr>ae_code = PAYLOAD_TOO_LARGE, ae_message = ''La solicitud supera el tamano maximo permitido.'',
     ae_details = [], ae_requestId = i\<rparr>"

lemma upload_path_api:
  assumes "UPLOAD_PATH p"
  shows "take 5 p = ''/api/''"
proof -
  obtain i where "split_on (CHR ''/'') p = [[], ''api'', ''cases'', i, ''documents'']"
    using assms by (auto simp: UPLOAD_PATH_def split: list.splits)
  then have "joined ''/'' [[], ''api'', ''cases'', i, ''documents''] = p"
    using joined_split_on [of "CHR ''/''" p] by simp
  then have "p = ''/api/cases/'' @ i @ ''/documents''" by simp
  then show ?thesis by simp
qed

text \<open>
  C26. An upload of the browser, through the middleware and the proxy of the web origin: with at
  most the API's own limit it is forwarded and reaches the API whole, within the proxy's buffer;
  with more, the middleware itself answers, with exactly the answer the API gives to a body it
  refuses as too large, and nothing reaches the API.
\<close>

theorem oversized_upload_answered_alike:
  assumes "first_party site fetchImpl" and "UPLOAD_PATH (pathname_of path)" and "fi_method init = ''POST''"
    and "fi_body init = Raw content" and "length content < 2 ^ 53"
  shows "if int (length content) \<le> DOCUMENT_MAX_BYTES
    then \<exists>e req. delivered site b path init e req \<and> rq_body req = Raw content \<and>
      fetchImpl path init b = answered site b e req
    else \<exists>req. fetchImpl path init b = (Some (response_of (error_handler req (Framework 413))), b)"
proof -
  have guard: "middleware i octets isDevelopment (web_request_of path init) =
      (if int (length content) \<le> DOCUMENT_MAX_BYTES then Forwarded
       else Answered 413 (too_large i) [(''x-request-id'', i), (''cache-control'', ''no-store'')])"
    for i octets isDevelopment
    using declared_number [OF assms(5)] upload_path_api [OF assms(2)]
    by (simp add: middleware_def web_request_of_def oversizedUploadError_def declared_length_def assms(2-4) too_large_def)
  show ?thesis
  proof (cases "int (length content) \<le> DOCUMENT_MAX_BYTES")
    case True
    have "middleware i octets isDevelopment (web_request_of path init) = Forwarded" for i octets isDevelopment
      using True by (simp add: guard)
    then obtain e req where "delivered site b path init e req" "fetchImpl path init b = answered site b e req"
      by (rule first_party_forwarded [OF assms(1), where path = path and init = init and b = b])
    with True show ?thesis by (auto simp: delivered_def assms(4) PROXY_BODY_BUFFER_BYTES_def)
  next
    case False
    have "middleware i octets isDevelopment (web_request_of path init) =
        Answered 413 (too_large i) [(''x-request-id'', i), (''cache-control'', ''no-store'')]" for i octets isDevelopment
      using False by (simp add: guard)
    then obtain i where e: "fetchImpl path init b = (Some \<lparr>rs_status = 413, rs_payload = Body (B_error (too_large i))\<rparr>, b)"
      by (rule first_party_answered [OF assms(1), where path = path and init = init and b = b])
    have "response_of (error_handler (sent_request site [] init []\<lparr>rq_id := i\<rparr>) (Framework 413)) =
        \<lparr>rs_status = 413, rs_payload = Body (B_error (too_large i))\<rparr>"
      by (simp add: too_large_def response_of_def error_handler_def statusCodeOf_def KNOWN.simps error_body_def answer_def)
    with e False show ?thesis by (auto intro!: exI [of _ "sent_request site [] init []\<lparr>rq_id := i\<rparr>"])
  qed
qed

section \<open>The link of an email\<close>

text \<open>A browser keeps what follows the first \<open>#\<close> of a link as its fragment.\<close>

definition fragment :: "string \<Rightarrow> string" where
  "fragment s = dropWhile (\<lambda>x. x \<noteq> CHR ''#'') s"

lemma token_char_other: "token_char x \<Longrightarrow> x \<notin> set ''%&+=#?''"
  by (auto simp: token_char_def is_digit_def Let_def)

lemma percent_decode_plain: "CHR ''%'' \<notin> set s \<Longrightarrow> percent_decode s = s"
  by (induction s rule: percent_decode.induct) auto

lemma fragment_token:
  assumes "SESSION_TOKEN_PATTERN raw"
  shows "readTokenFromFragment (''#token='' @ raw) = Some raw"
proof -
  have plain: "x \<notin> set raw" if "x \<in> set ''%&+=#?''" for x
    using assms token_char_other that by (auto simp: SESSION_TOKEN_PATTERN_def list_all_iff)
  have split: "split_on (CHR ''&'') (''token='' @ raw) = [''token='' @ raw]"
    using plain by (intro split_on_none) auto
  have "map (\<lambda>c. if c = CHR ''+'' then CHR '' '' else c) raw = raw"
    using plain by (intro map_idI) auto
  then have "form_decode raw = raw"
    using plain percent_decode_plain [of raw] by (auto simp: form_decode_def)
  moreover have "form_decode ''token'' = ''token''"
    by code_simp
  ultimately have "form_pair (''token='' @ raw) = (''token'', raw)"
    by (simp add: form_pair_def)
  then have "search_params (''token='' @ raw) = [(''token'', raw)]"
    using split by (simp add: search_params_def)
  then show ?thesis
    using assms by (auto simp: readTokenFromFragment_def SESSION_TOKEN_PATTERN_def)
qed

lemma link_fragment:
  assumes "CHR ''#'' \<notin> set origin" and "path \<in> {EMAIL_VERIFICATION_PATH, PASSWORD_RESET_PATH}"
  shows "fragment (link origin path token) = ''#token='' @ tok_raw token"
proof -
  have "CHR ''#'' \<notin> set path"
    using assms(2) by (auto simp: EMAIL_VERIFICATION_PATH_def PASSWORD_RESET_PATH_def)
  then have "fragment (origin @ path @ r) = fragment r" for r
    using assms(1) by (auto simp: fragment_def dropWhile_append3 dropWhile_append)
  then show ?thesis by (simp add: link_def fragment_def)
qed

lemma verify_path:
  fixes site :: site
  assumes "registered databaseUp (st_router site)"
  shows "st_router site ''POST'' ''/api/auth/email/verify'' = Some (POST_verify, [])"
proof -
  have "web_site databaseUp site (plain_fetch site)"
    using assms plain_fetch_first_party by (simp add: web_site_def)
  then show ?thesis
    by (rule web_site.found_route [where pat = "[Static ''api'', Static ''auth'', Static ''email'', Static ''verify'']"
          and segs = "[''api'', ''auth'', ''email'', ''verify'']"])
      (simp_all add: ROUTES_def path_segments_def)
qed

lemma verifyEmailRequest_back:
  assumes "SESSION_TOKEN_PATTERN raw"
  shows "verifyEmailRequestSchema (Json (JObj [(''token'', JString raw)])) = Some raw"
  using assms by (simp add: verifyEmailRequestSchema_def strict_object_def string_field_def bounded_def
      SESSION_TOKEN_PATTERN_def)

text \<open>
  C20. A user opens the link of a verification email while its token is usable: the page reads the
  token from the fragment, which no server has seen, and posts it; the address of the user the
  token was made for is verified, and the page says so.
\<close>

theorem emailed_link_verifies:
  assumes "registered databaseUp (st_router site)" and "first_party site fetchImpl" and "calm_site site"
    and "SESSION_TOKEN_PATTERN raw" and "CHR ''#'' \<notin> set origin"
    and "find (usable_token (sup_pgNow (re_sup (st_env site (br_count b)) 0)) (sha256Hex (ac_crypto (st_cfg site)) raw))
      (emailTokens (db_of b)) = Some t"
    and "findUserById (t_userId t) (db_of b) = Some u" and "t_userId t \<noteq> []"
  shows "\<exists>b'. verify_email_page fetchImpl
      (fragment (link origin EMAIL_VERIFICATION_PATH (generateOpaqueToken (ac_crypto (st_cfg site)) raw))) b = (Inr Finished, b') \<and>
    map_option u_emailVerifiedAt (findUserById (t_userId t) (db_of b')) = Some (Some (case u_emailVerifiedAt u of
      None \<Rightarrow> sup_pgNow (re_sup (st_env site (br_count b)) 0) | Some v \<Rightarrow> v))"
proof -
  note calm = calm_site_at [OF assms(3)]
  let ?re = "st_env site (br_count b)" and ?c = "ac_crypto (st_cfg site)"
  let ?init = "\<lparr>fi_method = ''POST'', fi_headers = [(''accept'', ''application/json''), (''content-type'', ''application/json'')],
    fi_credentials = ''same-origin'', fi_cache = ''no-store'', fi_body = Json (JObj [(''token'', JString raw)])\<rparr>"
  have token: "readTokenFromFragment (fragment (link origin EMAIL_VERIFICATION_PATH (generateOpaqueToken ?c raw))) = Some raw"
    using link_fragment [OF assms(5)] fragment_token [OF assms(4)] by (simp add: generateOpaqueToken_def)
  have site: "web_site databaseUp site fetchImpl"
    using assms(1,2) by (simp add: web_site_def)
  have path: "st_router site (fi_method ?init) ''/api/auth/email/verify'' = Some (POST_verify, [])"
    using verify_path [OF assms(1)] by simp
  obtain req where req: "fetchImpl ''/api/auth/email/verify'' ?init b = answered site b POST_verify req"
    "rq_body req = fi_body ?init" "rq_origin req = One (ac_appOrigin (st_cfg site))"
    by (rule web_site.answers [OF site path, of b]) auto
  obtain d' where d': "verifyEmail ?c (re_sup ?re 0) raw (requestContext req) (db_of b) = (Inr (), d')"
    "map_option u_emailVerifiedAt (findUserById (t_userId t) d') = Some (Some (case u_emailVerifiedAt u of
      None \<Rightarrow> sup_pgNow (re_sup ?re 0) | Some v \<Rightarrow> v))"
    using verify_usable [OF assms(6,7,8)] by blast
  have "isSameOrigin (st_cfg site) req"
    by (rule own_origin [OF calm(5) req(3)])
  then have run: "route (st_cfg site) ?re POST_verify req (br_api b) = (Inr (answer 204 B_none), on_db (\<lambda>_. d') (br_api b))"
    using d'(1) verifyEmailRequest_back [OF assms(4)] req(2)
    by (simp add: verify_email_route_def with_body_def bindE_def check_def requireSameOrigin_def parsed_def
        service_calm [OF calm(1)] db_of_def on_db_def returnE_def)
  have "fetchImpl ''/api/auth/email/verify'' ?init b = (Some \<lparr>rs_status = 204, rs_payload = Not_json\<rparr>,
      \<lparr>br_jar = br_jar b, br_api = on_db (\<lambda>_. d') (br_api b), br_count = Suc (br_count b)\<rparr>)"
    unfolding req(1) using answered_Inr [OF run] by (simp add: answer_def response_of_def)
  then show ?thesis
    using d'(2) token by (simp add: verify_email_page_def client_verifyEmail_def discarding_def bindE_def client_request_def
        client_headers_def set_header_def posting_def client_body_def response_ok_def returnE_def settled_def)
qed

section \<open>A concrete site\<close>

definition demo_caseId :: uuid where
  "demo_caseId = ''0123abcd-0000-4000-8000-000000000001''"

definition demo_site :: site where
  "demo_site = routed_site True web_cfg (\<lambda>_. web_env\<lparr>re_newId := demo_caseId\<rparr>)"

definition demo_browser :: browser where
  "demo_browser = \<lparr>br_jar = [(CSRF_COOKIE, ''C''), (SESSION_COOKIE, ''S'')], br_api = after_login, br_count = 0\<rparr>"

definition demo_page :: page_env where
  "demo_page = \<lparr>pe_apiInternalUrl = DEFAULT_API_INTERNAL_URL, pe_sessionToken = Some ''S'',
     pe_locale = \<lparr>lt_date = (\<lambda>_. ''hoy''), lt_quotient = (\<lambda>_ _. '''')\<rparr>\<rparr>"

definition demo_server_fetch :: "browser server_fetch" where
  "demo_server_fetch = plain_server_fetch demo_site DEFAULT_API_INTERNAL_URL"

lemma demo_site_parts:
  "st_cfg demo_site = web_cfg" "st_env demo_site n = web_env\<lparr>re_newId := demo_caseId\<rparr>" "request_time demo_site n = 1000"
  by (simp_all add: demo_site_def routed_site_def request_time_def web_env_def demo_env_def)

lemma demo_site_calm: "calm_site demo_site"
  by (simp add: calm_site_def demo_site_parts)
    (simp add: web_cfg_def web_env_def demo_env_def undisturbed_def calm_def)

lemmas demo_site_served = routed_site_registered [of True web_cfg "\<lambda>_. web_env\<lparr>re_newId := demo_caseId\<rparr>", folded demo_site_def]
  plain_fetch_first_party [of demo_site] plain_server_fetch_reads [of demo_site DEFAULT_API_INTERNAL_URL, folded demo_server_fetch_def]

definition demo_session :: session_row where
  "demo_session = \<lparr>s_id = ''s1'', s_userId = ''u1'', s_tokenHash = ''0a'', s_csrfTokenHash = ''0b'',
     s_createdAt = 1000, s_lastSeenAt = 1000, s_idleExpiresAt = 604801000, s_absoluteExpiresAt = 2592001000,
     s_revokedAt = None, s_revokedReason = None, s_rotatedAt = None, s_ip = Some ''1.2.3.4'', s_userAgent = None\<rparr>"

lemma demo_session_cookie: "session_of_cookie hex_crypto (Some ''S'') (w_db (as_world after_login)) = Some demo_session"
  by code_simp

lemma demo_sessions_wf: "sessions_wf (w_db (as_world after_login))"
  by code_simp

definition demo_ana :: user_row where
  "demo_ana = \<lparr>u_id = ''u1'', u_email = ''ana@x.co'', u_passwordHash = ''$pw'', u_fullName = ''Ana'', u_role = USER,
     u_status = ACTIVE, u_emailVerifiedAt = None, u_createdAt = 0\<rparr>"

lemma demo_owner: "findUserById ''u1'' (w_db (as_world after_login)) = Some demo_ana"
  by code_simp

lemma demo_tables:
  "cases (w_db (as_world after_login)) = []" "caseHistory (w_db (as_world after_login)) = []"
  "documents (w_db (as_world after_login)) = []"
  by code_simp+

lemma demo_in_use: "in_use (ac_crypto web_cfg) (Some ''S'') demo_ana 1000 2000 (db_of demo_browser)"
proof -
  have "session_valid 2000 demo_session"
    by (simp add: session_valid_def demo_session_def)
  then show ?thesis
    using demo_session_cookie demo_sessions_wf demo_owner
    by (simp add: in_use_def db_of_def demo_browser_def web_cfg_def demo_session_def demo_ana_def)
qed

lemma demo_browser_parts: "session_cookie demo_browser = Some ''S''" "br_count demo_browser = 0"
  by (simp_all add: session_cookie_def demo_browser_def CSRF_COOKIE_def SESSION_COOKIE_def)

lemma demo_browser_tables:
  "cases (db_of demo_browser) = []" "caseHistory (db_of demo_browser) = []" "documents (db_of demo_browser) = []"
  by (simp_all add: db_of_def demo_browser_def demo_tables)

lemma demo_token: "SESSION_TOKEN_PATTERN ''S''"
  by code_simp

lemma demo_id: "CASE_ID_PATTERN demo_caseId"
  by code_simp

theorem new_case_reaches_its_page_witness:
  "\<exists>b'. new_case_form (plain_fetch demo_site) (Some ''OTHER'') demo_browser = (Inr (Navigate (''/casos/'' @ demo_caseId)), b') \<and>
    fst (casePage demo_server_fetch demo_page demo_caseId b') = Inr (Shown (Some
      \<lparr>cv_title = ''Otro'', cv_status = ''Borrador'', cv_created = ''hoy'', cv_history = [''hoy - Creado en Borrador''],
       cv_documents = Some [], cv_upload = True\<rparr>))"
proof -
  have "\<exists>b'. new_case_form (plain_fetch demo_site) (Some (case_type_name OTHER)) demo_browser =
      (Inr (Navigate (''/casos/'' @ demo_caseId)), b') \<and>
    fst (casePage demo_server_fetch demo_page demo_caseId b') = Inr (Shown (Some
      \<lparr>cv_title = CASE_TYPE_LABELS OTHER, cv_status = ''Borrador'',
       cv_created = formatDate (pe_locale demo_page) (ce_clock (re_calls (st_env demo_site (br_count demo_browser + 1))) 1),
       cv_history = [formatDate (pe_locale demo_page) (ce_clock (re_calls (st_env demo_site (br_count demo_browser + 1))) 1)
         @ '' - '' @ ''Creado en Borrador''], cv_documents = Some [], cv_upload = True\<rparr>))"
    by (rule new_case_reaches_its_page [OF demo_site_served demo_site_calm, where from' = 1000 and til = 2000
        and u = demo_ana and token = "''S''"])
      (use demo_in_use in \<open>simp_all add: demo_browser_parts demo_site_parts demo_token demo_id demo_page_def demo_ana_def
        demo_browser_tables cases_wf_def web_cfg_def\<close>)
  then show ?thesis
    by (simp add: formatDate_def demo_page_def)
qed

theorem logout_button_ends_session_witness:
  "\<exists>b'. logout_button (plain_fetch demo_site) demo_browser = (Inr (Navigate ''/iniciar-sesion''), b') \<and>
    session_cookie b' = None \<and> (\<forall>now. authenticated hex_crypto now (Some ''S'') (db_of b') = None)"
proof -
  have "ac_crypto (st_cfg demo_site) = hex_crypto"
    by (simp add: demo_site_parts web_cfg_def)
  then show ?thesis
    using logout_button_ends_session [OF demo_site_served(1,2) demo_site_calm, of demo_browser demo_ana 1000 2000]
      demo_in_use
    by (simp add: demo_browser_parts demo_site_parts web_env_def demo_env_def)
qed

theorem visitor_is_redirected_witness:
  "fst (casePage demo_server_fetch (demo_page\<lparr>pe_sessionToken := Some ''X''\<rparr>) demo_caseId demo_browser) =
     Inr (Redirect ''/iniciar-sesion'') \<and>
   fst (casePage demo_server_fetch (demo_page\<lparr>pe_sessionToken := Some ''X''\<rparr>) ''7'' demo_browser) = Inr Not_found_page"
proof -
  have "session_of_cookie hex_crypto (Some ''X'') (w_db (as_world after_login)) = None"
    by code_simp
  then have "authenticated (ac_crypto (st_cfg demo_site)) (request_time demo_site (br_count demo_browser)) (Some ''X'')
      (db_of demo_browser) = None"
    by (simp add: authenticated_def demo_site_parts web_cfg_def db_of_def demo_browser_def)
  moreover have "\<not> CASE_ID_PATTERN ''7''" "\<not> refused_token (Some ''X'')"
    by code_simp+
  ultimately show ?thesis
    using visitor_is_redirected [OF demo_site_served(1,3) demo_site_calm, of demo_browser
        "demo_page\<lparr>pe_sessionToken := Some ''X''\<rparr>" demo_caseId] demo_id
      visitor_is_redirected [OF demo_site_served(1,3) demo_site_calm, of demo_browser
        "demo_page\<lparr>pe_sessionToken := Some ''X''\<rparr>" "''7''"]
    by (simp add: demo_page_def)
qed

theorem panel_shows_own_cases_witness:
  "fst (dashboardPage demo_server_fetch demo_page demo_browser) = Inr (Shown
    \<lparr>pv_fullName = ''Ana'', pv_active = [], pv_closed = [], pv_message = None\<rparr>)"
proof -
  have "listOwnCases_repo i (db_of demo_browser) = []" for i
    by (simp add: listOwnCases_repo_def demo_browser_tables)
  then show ?thesis
    using panel_shows_own_cases [OF demo_site_served(1,3) demo_site_calm, of "''S''" demo_ana 1000 2000 demo_browser demo_page]
      demo_in_use demo_token
    by (simp add: demo_page_def demo_site_parts demo_browser_parts demo_ana_def)
qed

definition demo_upload :: "bytes \<Rightarrow> fetch_init" where
  "demo_upload content = \<lparr>fi_method = ''POST'', fi_headers = [], fi_credentials = ''same-origin'', fi_cache = ''no-store'',
     fi_body = Raw content\<rparr>"

lemma demo_upload_parts: "fi_method (demo_upload content) = ''POST''" "fi_body (demo_upload content) = Raw content"
  by (simp_all add: demo_upload_def)

theorem oversized_upload_answered_alike_witness:
  "(\<exists>e req. rq_body req = Raw [1, 2, 3] \<and>
      plain_fetch demo_site (''/api/cases/7/documents'') (demo_upload [1, 2, 3]) demo_browser = answered demo_site demo_browser e req) \<and>
   (\<exists>content req. int (length content) = DOCUMENT_MAX_BYTES + 1 \<and>
      plain_fetch demo_site (''/api/cases/7/documents'') (demo_upload content) demo_browser
        = (Some (response_of (error_handler req (Framework 413))), demo_browser))"
proof -
  have path: "UPLOAD_PATH (pathname_of ''/api/cases/7/documents'')"
    by code_simp
  note upload = oversized_upload_answered_alike [OF demo_site_served(2) path demo_upload_parts]
  obtain content :: bytes where long: "length content = 10485761" using Ex_list_of_length by blast
  have "int (length content) = DOCUMENT_MAX_BYTES + 1" "\<not> int (length content) \<le> DOCUMENT_MAX_BYTES"
    by (simp_all add: long DOCUMENT_MAX_BYTES_def MIB_def)
  with upload [of content demo_browser] long upload [of "[1, 2, 3]" demo_browser] show ?thesis
    by (auto simp: DOCUMENT_MAX_BYTES_def MIB_def)
qed

definition mailed_browser :: browser where
  "mailed_browser = \<lparr>br_jar = [], br_api = new_api (world_of (demo_db\<lparr>emailTokens :=
     [\<lparr>t_userId = ''u1'', t_tokenHash = sha256Hex hex_crypto ''T'', t_expiresAt = 2000, t_usedAt = None, t_createdAt = 0\<rparr>]\<rparr>)),
     br_count = 0\<rparr>"

theorem emailed_link_verifies_witness:
  "\<exists>b'. verify_email_page (plain_fetch demo_site) ''#token=T'' mailed_browser = (Inr Finished, b') \<and>
    map_option u_emailVerifiedAt (findUserById ''u1'' (db_of b')) = Some (Some 1000)"
proof -
  let ?t = "\<lparr>t_userId = ''u1'', t_tokenHash = sha256Hex hex_crypto ''T'', t_expiresAt = 2000, t_usedAt = None, t_createdAt = 0\<rparr>"
  have token: "SESSION_TOKEN_PATTERN ''T''"
    by code_simp
  have user: "map_option u_emailVerifiedAt (findUserById ''u1'' demo_db) = Some None"
    by code_simp
  then obtain u where u: "findUserById ''u1'' demo_db = Some u" "u_emailVerifiedAt u = None"
    by auto
  have db: "db_of mailed_browser = demo_db\<lparr>emailTokens := [?t]\<rparr>"
    by (simp add: db_of_def mailed_browser_def new_api_def world_of_def)
  have crypto: "ac_crypto (st_cfg demo_site) = hex_crypto"
    by (simp add: demo_site_parts web_cfg_def)
  have now: "sup_pgNow (re_sup (st_env demo_site (br_count mailed_browser)) 0) = 1000"
    by (simp add: demo_site_parts web_env_def demo_env_def)
  have "find (usable_token (sup_pgNow (re_sup (st_env demo_site (br_count mailed_browser)) 0))
      (sha256Hex (ac_crypto (st_cfg demo_site)) ''T'')) (emailTokens (db_of mailed_browser)) = Some ?t"
    by (simp add: db crypto now usable_token_def)
  moreover have "findUserById (t_userId ?t) (db_of mailed_browser) = Some u"
    using u(1) by (simp add: db findUserById_def)
  moreover have "fragment (link ''https://x.co'' EMAIL_VERIFICATION_PATH (generateOpaqueToken (ac_crypto (st_cfg demo_site)) ''T''))
      = ''#token=T''"
    by (simp add: fragment_def link_def generateOpaqueToken_def EMAIL_VERIFICATION_PATH_def)
  ultimately show ?thesis
    using emailed_link_verifies [OF demo_site_served(1,2) demo_site_calm token, of "''https://x.co''" mailed_browser ?t u] u(2)
    by (simp add: now)
qed

end
