(* ===== verification/Doubles.thy ===== *)
theory Doubles
  imports Outbox
begin

text \<open>
  What the in-memory repositories of the tests share: a JavaScript \<open>Map\<close> (its entries in insertion
  order, an object in it changed in place), what it means that one holds the rows of a table, and
  the contract of a double: as long as the calls stay inside the conditions named for each, it
  answers what the repository over PostgreSQL answers. The double of the email outbox
  (apps/api/src/modules/notifications/outbox.repository.fake.ts) is here too. A double reads its
  clock once in a call.
\<close>

section \<open>Maps that hold the rows of a table\<close>

text \<open>
  \<open>map.get(k)\<close> is \<open>map_of\<close>, \<open>map.set(k, v)\<close> is \<open>AList.update\<close>, changing the object found under
  a key is \<open>AList.map_entry\<close>; \<open>update_values\<close> is a loop over \<open>map.values()\<close> that changes some.
\<close>

definition update_values :: "('v \<Rightarrow> bool) \<Rightarrow> ('v \<Rightarrow> 'v) \<Rightarrow> ('k \<times> 'v) list \<Rightarrow> ('k \<times> 'v) list" where
  "update_values P g m = map (\<lambda>(k, v). (k, if P v then g v else v)) m"

definition mirrors :: "('r \<Rightarrow> 'k) \<Rightarrow> ('k \<times> 'r) list \<Rightarrow> 'r list \<Rightarrow> bool" where
  "mirrors key m rows \<longleftrightarrow> m = map (\<lambda>r. (key r, r)) rows \<and> distinct (map key rows)"

lemma mirrors_Nil [simp]: "mirrors key [] []"
  by (simp add: mirrors_def)

lemma mirrors_values [simp]: "mirrors key m rows \<Longrightarrow> map snd m = rows"
  by (simp add: mirrors_def comp_def)

lemma mirrors_get: "mirrors key m rows \<Longrightarrow> map_of m k = find (\<lambda>r. key r = k) rows"
proof -
  have "map_of (map (\<lambda>r. (key r, r)) rows) k = find (\<lambda>r. key r = k) rows"
    by (induction rows) auto
  then show "mirrors key m rows \<Longrightarrow> ?thesis" by (simp add: mirrors_def)
qed

lemma mirrors_set:
  assumes "mirrors key m rows" and "k = key r" and "k \<notin> key ` set rows"
  shows "mirrors key (AList.update k r m) (rows @ [r])"
proof -
  have "AList.update (key r) r (map (\<lambda>r. (key r, r)) rows) = map (\<lambda>r. (key r, r)) (rows @ [r])"
    if "key r \<notin> key ` set rows"
    using that by (induction rows) auto
  with assms show ?thesis by (auto simp: mirrors_def)
qed

lemma mirrors_update_where:
  assumes "mirrors key m rows" and "\<And>r. key (g r) = key r"
  shows "mirrors key (update_values P g m) (update_where P g rows)"
proof -
  have "distinct (map key (update_where P g rows)) = distinct (map key rows)"
    using assms(2) by (simp add: map_update_where)
  with assms show ?thesis
    by (simp add: mirrors_def update_values_def) (simp add: update_where_def)
qed

lemma mirrors_entry:
  assumes "mirrors key m rows" and "\<And>r. key (g r) = key r"
  shows "mirrors key (AList.map_entry k g m) (update_where (\<lambda>r. key r = k) g rows)"
proof -
  have "AList.map_entry k g (map (\<lambda>r. (key r, r)) rows)
      = map (\<lambda>r. (key r, r)) (update_where (\<lambda>r. key r = k) g rows)" if "distinct (map key rows)"
    using that
  proof (induction rows)
    case (Cons r rows)
    show ?case
    proof (cases "key r = k")
      case True
      with Cons.prems have "update_where (\<lambda>r. key r = k) g rows = rows"
        by (intro update_where_none) (auto simp: image_iff)
      with True show ?thesis by (simp add: assms(2))
    qed (use Cons in simp)
  qed simp
  moreover have "distinct (map key (update_where (\<lambda>r. key r = k) g rows)) = distinct (map key rows)"
    using assms(2) by (simp add: map_update_where)
  ultimately show ?thesis using assms(1) by (simp add: mirrors_def)
qed

text \<open>The object found under a key, changed when a condition holds of it.\<close>

lemma update_found:
  assumes "distinct (map key rows)" and "find (\<lambda>r. key r = k) rows = Some r" and "P r"
  shows "update_where (\<lambda>r. key r = k \<and> P r) g rows = update_where (\<lambda>r. key r = k) g rows"
proof -
  have "r' = r" if "r' \<in> set rows" "key r' = k" for r'
    using that assms(1) find_SomeD [OF assms(2)] unique_key [of key rows r' r] by simp
  with assms(3) show ?thesis by (auto simp: update_where_def)
qed

lemma count_found:
  assumes "distinct (map key rows)"
  shows "count_where (\<lambda>r. key r = k \<and> P r) rows =
    (case find (\<lambda>r. key r = k) rows of None \<Rightarrow> 0 | Some r \<Rightarrow> if P r then 1 else 0)"
  using assms
proof (induction rows)
  case (Cons r rows)
  show ?case
  proof (cases "key r = k")
    case True
    with Cons.prems have "count_where (\<lambda>r. key r = k \<and> P r) rows = 0"
      by (auto simp: count_where_0_iff image_iff)
    with True show ?thesis by simp
  qed (use Cons in simp)
qed simp

text \<open>A change of the first row a condition selects, \<open>find\<close> and then an assignment.\<close>

fun update_first :: "('r \<Rightarrow> bool) \<Rightarrow> ('r \<Rightarrow> 'r) \<Rightarrow> 'r list \<Rightarrow> 'r list" where
  "update_first P g [] = []"
| "update_first P g (r # rows) = (if P r then g r # rows else r # update_first P g rows)"

lemma update_first_unique:
  assumes "distinct (map key rows)" and "\<And>r. P r \<Longrightarrow> key r = k"
  shows "update_first P g rows = update_where P g rows"
  using assms(1)
proof (induction rows)
  case (Cons r rows)
  show ?case
  proof (cases "P r")
    case True
    with Cons.prems have "update_where P g rows = rows"
      by (intro update_where_none) (auto simp: image_iff dest!: assms(2))
    with True show ?thesis by simp
  qed (use Cons in simp)
qed simp

section \<open>The contract of a double\<close>

fun run_calls :: "('op \<Rightarrow> 's \<Rightarrow> 'a \<times> 's) \<Rightarrow> 'op list \<Rightarrow> 's \<Rightarrow> 'a list \<times> 's" where
  "run_calls step [] s = ([], s)"
| "run_calls step (op # ops) s =
    (case step op s of (a, s) \<Rightarrow> (case run_calls step ops s of (as, s) \<Rightarrow> (a # as, s)))"

fun calls_ok :: "('op \<Rightarrow> 's \<Rightarrow> bool) \<Rightarrow> ('op \<Rightarrow> 's \<Rightarrow> 'a \<times> 's) \<Rightarrow> 'op list \<Rightarrow> 's \<Rightarrow> bool" where
  "calls_ok ok step [] s = True"
| "calls_ok ok step (op # ops) s = (ok op s \<and> calls_ok ok step ops (snd (step op s)))"

lemma calls_ok_conj:
  "calls_ok (\<lambda>c s. p c \<and> q c s) step ops s \<longleftrightarrow> (\<forall>c \<in> set ops. p c) \<and> calls_ok q step ops s"
  by (induction ops arbitrary: s) auto

locale repository_double =
  fixes rel :: "'f \<Rightarrow> 'd \<Rightarrow> bool"
    and ok :: "'op \<Rightarrow> 'd \<Rightarrow> bool"
    and fake :: "'op \<Rightarrow> 'f \<Rightarrow> 'a \<times> 'f"
    and real :: "'op \<Rightarrow> 'd \<Rightarrow> 'a \<times> 'd"
  assumes same_answer: "rel f d \<Longrightarrow> ok op d \<Longrightarrow> fst (fake op f) = fst (real op d)"
    and same_state: "rel f d \<Longrightarrow> ok op d \<Longrightarrow> rel (snd (fake op f)) (snd (real op d))"
begin

lemma same_run:
  "rel f d \<Longrightarrow> calls_ok ok real ops d \<Longrightarrow>
    fst (run_calls fake ops f) = fst (run_calls real ops d) \<and>
    rel (snd (run_calls fake ops f)) (snd (run_calls real ops d))"
proof (induction ops arbitrary: f d)
  case (Cons op ops)
  obtain a f1 where f1: "fake op f = (a, f1)" by fastforce
  obtain b d1 where d1: "real op d = (b, d1)" by fastforce
  have "a = b" "rel f1 d1"
    using same_answer [of f d op] same_state [of f d op] Cons.prems f1 d1 by auto
  with Cons.IH [of f1 d1] Cons.prems f1 d1 show ?case
    by (auto split: prod.splits)
qed simp

text \<open>The answers to the first calls of a run do not depend on what is called later.\<close>

lemma same_prefix:
  assumes "rel f d" and "calls_ok ok real (ops @ later) d"
  shows "fst (run_calls fake ops f) = fst (run_calls real ops d)"
proof -
  have "calls_ok ok real (ops @ later) d \<Longrightarrow> calls_ok ok real ops d" for d
    by (induction ops arbitrary: d) auto
  with assms same_run show ?thesis by blast
qed

end

section \<open>The double of the outbox (outbox.repository.fake.ts)\<close>

record outbox_double =
  fo_entries :: "outbox_row list"
  fo_emailTokens :: "token_row list"
  fo_resetTokens :: "token_row list"
  fo_userEmails :: "(uuid \<times> string) list"

definition fake_replaceToken :: "uuid \<Rightarrow> string \<Rightarrow> time \<Rightarrow> time \<Rightarrow> token_row list \<Rightarrow> token_row list" where
  "fake_replaceToken userId tokenHash expiresAt now tokens =
     update_where (\<lambda>t. t_userId t = userId \<and> t_usedAt t = None) (\<lambda>t. t\<lparr>t_usedAt := Some now\<rparr>) tokens
     @ [\<lparr>t_userId = userId, t_tokenHash = tokenHash, t_expiresAt = expiresAt, t_usedAt = None,
         t_createdAt = now\<rparr>]"

definition fake_userEmailLookup :: "outbox_double \<Rightarrow> uuid \<Rightarrow> string option" where
  "fake_userEmailLookup f userId = map_of (fo_userEmails f) userId"

definition fake_enqueue ::
  "uuid \<Rightarrow> time \<Rightarrow> email_outbox_kind \<Rightarrow> uuid \<Rightarrow> outbox_double \<Rightarrow> outbox_row \<times> outbox_double" where
  "fake_enqueue newId now kind userId f =
    (let entry = \<lparr>o_id = newId, o_kind = kind, o_userId = userId, o_createdAt = now, o_sentAt = None\<rparr>
     in (entry, f\<lparr>fo_entries := fo_entries f @ [entry]\<rparr>))"

text \<open>
  What handling an entry does: it looks addresses up, asks for changes of tokens, kept until it
  completes, and completes or throws.
\<close>

datatype token_change =
    Replace_email_token uuid string time
  | Replace_reset_token uuid string time

type_synonym handling =
  "outbox_row \<Rightarrow> time \<Rightarrow> (uuid \<Rightarrow> string option) \<Rightarrow> (exn + unit) \<times> token_change list"

fun apply_change :: "time \<Rightarrow> token_change \<Rightarrow> outbox_double \<Rightarrow> outbox_double" where
  "apply_change now (Replace_email_token u h e) f =
     f\<lparr>fo_emailTokens := fake_replaceToken u h e now (fo_emailTokens f)\<rparr>"
| "apply_change now (Replace_reset_token u h e) f =
     f\<lparr>fo_resetTokens := fake_replaceToken u h e now (fo_resetTokens f)\<rparr>"

definition fake_pending :: "uuid list \<Rightarrow> outbox_double \<Rightarrow> outbox_row list" where
  "fake_pending exclude f = sort_key (\<lambda>e. (o_createdAt e, o_id e))
     (filter (\<lambda>e. o_sentAt e = None \<and> o_id e \<notin> set exclude) (fo_entries f))"

definition fake_dispatchNext ::
  "(uuid \<Rightarrow> string option) \<Rightarrow> time \<Rightarrow> uuid list \<Rightarrow> handling \<Rightarrow> (outbox_double, exn, bool) prog" where
  "fake_dispatchNext lookup now exclude handle = (\<lambda>f.
     case fake_pending exclude f of
       [] \<Rightarrow> (Inr False, f)
     | entry # _ \<Rightarrow>
         (case handle entry now lookup of
            (Inl e, _) \<Rightarrow> (Inl e, f)
          | (Inr _, changes) \<Rightarrow>
              let f = fold (apply_change now) changes f
              in (Inr True, f\<lparr>fo_entries := update_where (\<lambda>e. o_id e = o_id entry)
                    (\<lambda>e. e\<lparr>o_sentAt := Some now\<rparr>) (fo_entries f)\<rparr>)))"

text \<open>The same handling over the repository: every change of a token is made as it is asked for.\<close>

fun change_tx :: "time \<Rightarrow> token_change \<Rightarrow> unit tx" where
  "change_tx now (Replace_email_token u h e) = replaceEmailVerificationToken now u h e"
| "change_tx now (Replace_reset_token u h e) = replacePasswordResetToken now u h e"

fun changes_tx :: "time \<Rightarrow> token_change list \<Rightarrow> unit tx" where
  "changes_tx now [] = returnE ()"
| "changes_tx now (c # cs) = bindE (change_tx now c) (\<lambda>_. changes_tx now cs)"

definition handling_mailer :: "handling \<Rightarrow> dispatch_round \<Rightarrow> outbox_row \<Rightarrow> unit mailer" where
  "handling_mailer handle rd row = (\<lambda>s.
     case handle row (dr_now rd) (\<lambda>u. findUserEmail u (ms_db s)) of
       (r, changes) \<Rightarrow> bindE (in_mail_db (changes_tx (dr_now rd) changes)) (\<lambda>_ s. (r, s)) s)"

text \<open>The hashes of the tokens asked for are new, and their users exist.\<close>

fun changes_fresh :: "time \<Rightarrow> token_change list \<Rightarrow> db \<Rightarrow> bool" where
  "changes_fresh now [] d = True"
| "changes_fresh now (c # cs) d =
    ((case c of
        Replace_email_token u h e \<Rightarrow> u \<in> u_id ` set (users d) \<and> h \<notin> t_tokenHash ` set (emailTokens d)
      | Replace_reset_token u h e \<Rightarrow> u \<in> u_id ` set (users d) \<and> h \<notin> t_tokenHash ` set (resetTokens d))
     \<and> changes_fresh now cs (snd (change_tx now c d)))"

definition tokens_ok :: "token_row list \<Rightarrow> user_row list \<Rightarrow> bool" where
  "tokens_ok ts us \<longleftrightarrow> distinct (map t_tokenHash ts) \<and> t_userId ` set ts \<subseteq> u_id ` set us"

definition outbox_mirrors :: "outbox_double \<Rightarrow> db \<Rightarrow> bool" where
  "outbox_mirrors f d \<longleftrightarrow> fo_entries f = outbox d \<and> fo_emailTokens f = emailTokens d \<and>
     fo_resetTokens f = resetTokens d \<and> tokens_ok (emailTokens d) (users d) \<and>
     tokens_ok (resetTokens d) (users d)"

lemma replace_token_fresh:
  "h \<notin> t_tokenHash ` set ts \<Longrightarrow> replace_token u h e now ts = Inr (fake_replaceToken u h e now ts)"
  by (auto simp: replace_token_def fake_replaceToken_def Let_def image_iff)

lemma fake_replaceToken_hashes [simp]:
  "map t_tokenHash (fake_replaceToken u h e now ts) = map t_tokenHash ts @ [h]"
  by (simp add: fake_replaceToken_def map_update_where)

lemma tokens_ok_replace:
  assumes "tokens_ok ts us" and "h \<notin> t_tokenHash ` set ts" and "u \<in> u_id ` set us"
  shows "tokens_ok (fake_replaceToken u h e now ts) us"
proof -
  have "t_userId ` set (fake_replaceToken u h e now ts) = insert u (t_userId ` set ts)"
    by (simp add: fake_replaceToken_def set_update_where) (force simp: image_iff)
  with assms show ?thesis by (auto simp: tokens_ok_def)
qed

text \<open>Dispatching an entry, on the double and on the repository.\<close>

lemma change_mirrored:
  assumes "outbox_mirrors f d" and "changes_fresh now (c # cs) d"
  shows "\<exists>d'. change_tx now c d = (Inr (), d') \<and> outbox_mirrors (apply_change now c f) d' \<and>
    users d' = users d \<and> sessions d' = sessions d \<and> auditLogs d' = auditLogs d \<and> outbox d' = outbox d \<and>
    changes_fresh now cs d'"
proof (cases c)
  case (Replace_email_token u h e)
  with assms have h: "h \<notin> t_tokenHash ` set (emailTokens d)" and "u \<in> u_id ` set (users d)"
    by simp_all
  with assms Replace_email_token replace_token_fresh [OF h] show ?thesis
    by (simp add: replaceEmailVerificationToken_def outbox_mirrors_def tokens_ok_replace)
next
  case (Replace_reset_token u h e)
  with assms have h: "h \<notin> t_tokenHash ` set (resetTokens d)" and "u \<in> u_id ` set (users d)"
    by simp_all
  with assms Replace_reset_token replace_token_fresh [OF h] show ?thesis
    by (simp add: replacePasswordResetToken_def outbox_mirrors_def tokens_ok_replace)
qed

lemma changes_mirrored:
  assumes "outbox_mirrors f d" and "changes_fresh now cs d"
  shows "\<exists>d'. changes_tx now cs d = (Inr (), d') \<and> outbox_mirrors (fold (apply_change now) cs f) d' \<and>
    users d' = users d \<and> sessions d' = sessions d \<and> auditLogs d' = auditLogs d \<and> outbox d' = outbox d"
  using assms
proof (induction cs arbitrary: f d)
  case (Cons c cs)
  obtain d1 where d1: "change_tx now c d = (Inr (), d1)" "outbox_mirrors (apply_change now c f) d1"
    "users d1 = users d" "sessions d1 = sessions d" "auditLogs d1 = auditLogs d" "outbox d1 = outbox d"
    "changes_fresh now cs d1"
    using change_mirrored [OF Cons.prems] by blast
  with Cons.IH [OF d1(2,7)] show ?case
    by (auto simp: bindE_def)
qed simp

lemma fake_pending_mirrors:
  "outbox_mirrors f d \<Longrightarrow> fake_pending exclude f = pending (\<lambda>_. False) exclude d"
  by (simp add: fake_pending_def pending_def outbox_mirrors_def)

definition plain_round :: "time \<Rightarrow> dispatch_round" where
  "plain_round now = \<lparr>dr_during = (\<lambda>d. d), dr_locked = (\<lambda>_. False), dr_now = now, dr_raw = [],
     dr_send = (\<lambda>_. None), dr_fault = None\<rparr>"

definition dispatch_tx :: "time \<Rightarrow> uuid list \<Rightarrow> handling \<Rightarrow> bool tx" where
  "dispatch_tx now exclude handle = (\<lambda>d.
     case dispatchNext (plain_round now) exclude (handling_mailer handle (plain_round now))
            \<lparr>ms_db = d, ms_delivered = [], ms_attempted = [], ms_handed = []\<rparr> of
       (r, s) \<Rightarrow> (r, ms_db s))"

definition dispatch_fresh :: "time \<Rightarrow> uuid list \<Rightarrow> handling \<Rightarrow> db \<Rightarrow> bool" where
  "dispatch_fresh now exclude handle d =
    (case pending (\<lambda>_. False) exclude d of
       [] \<Rightarrow> True
     | row # _ \<Rightarrow> changes_fresh now (snd (handle row now (\<lambda>u. findUserEmail u d))) d)"

lemma mark_sent_known:
  "row \<in> set (outbox d) \<Longrightarrow> mark_sent (o_id row) now d = (Inr (), d\<lparr>outbox :=
    update_where (\<lambda>e. o_id e = o_id row) (\<lambda>e. e\<lparr>o_sentAt := Some now\<rparr>) (outbox d)\<rparr>)"
  by (auto simp: mark_sent_def)

lemma dispatch_mirrored:
  assumes f: "outbox_mirrors f d" and fresh: "dispatch_fresh now exclude handle d"
    and lookup: "lookup = (\<lambda>u. findUserEmail u d)"
  shows "\<exists>r f' d'. fake_dispatchNext lookup now exclude handle f = (r, f') \<and>
    dispatch_tx now exclude handle d = (r, d') \<and> outbox_mirrors f' d' \<and>
    users d' = users d \<and> sessions d' = sessions d \<and> auditLogs d' = auditLogs d"
proof (cases "pending (\<lambda>_. False) exclude d")
  case Nil
  then show ?thesis
    using f by (simp add: fake_dispatchNext_def fake_pending_mirrors [OF f] dispatch_tx_def dispatchNext_def
        plain_round_def mail_transaction_def)
next
  case (Cons row rest)
  obtain r cs where rcs: "handle row now (\<lambda>u. findUserEmail u d) = (r, cs)" by fastforce
  obtain d1 where d1: "changes_tx now cs d = (Inr (), d1)" "outbox_mirrors (fold (apply_change now) cs f) d1"
    "users d1 = users d" "sessions d1 = sessions d" "auditLogs d1 = auditLogs d" "outbox d1 = outbox d"
    using changes_mirrored [OF f, of now cs] fresh Cons rcs by (auto simp: dispatch_fresh_def)
  have "row \<in> set (outbox d1)"
    using pending_in [of row "\<lambda>_. False" exclude d] Cons d1(6) by simp
  note sent = mark_sent_known [OF this, of now]
  let ?s0 = "\<lparr>ms_db = d, ms_delivered = [], ms_attempted = [], ms_handed = []\<rparr>"
  have handled: "handling_mailer handle (plain_round now) row (?s0\<lparr>ms_handed := [o_id row]\<rparr>)
      = (r, ?s0\<lparr>ms_handed := [o_id row], ms_db := d1\<rparr>)"
    by (simp add: handling_mailer_def plain_round_def rcs bindE_def in_mail_db_def d1(1))
  show ?thesis
  proof (cases r)
    case (Inl e)
    then show ?thesis
      using f Cons rcs handled
      by (simp add: fake_dispatchNext_def fake_pending_mirrors [OF f] lookup dispatch_tx_def dispatchNext_def
          bindE_def mail_transaction_def plain_round_def)
  next
    case (Inr u)
    then show ?thesis
      using Cons rcs handled d1 sent
      by (simp add: fake_dispatchNext_def fake_pending_mirrors [OF f] lookup dispatch_tx_def dispatchNext_def
          bindE_def mail_transaction_def plain_round_def in_mail_db_def Let_def outbox_mirrors_def)
  qed
qed

text \<open>A handling that throws changes nothing, so the next round sees the entry again.\<close>

lemma fake_dispatchNext_abort:
  "fake_dispatchNext lookup now exclude handle f = (Inl e, f') \<Longrightarrow> f' = f"
  by (auto simp: fake_dispatchNext_def Let_def split: list.splits prod.splits sum.splits)

end
