(* ===== verification/Auth_Double.thy ===== *)
theory Auth_Double
  imports Doubles
begin

text \<open>
  \<open>FakeAuthRepository\<close> (apps/api/src/modules/auth/auth.repository.fake.ts), the account repository
  the tests of the API run on: its maps of users and sessions, its audit log with the instants the
  events were recorded, and the double of the outbox. One definition per method; \<open>fails\<close> is the
  test's \<open>recordAudit\<close>, which may throw. Attempts under a lock run one at a time, so each is one
  step. At the end, what it takes for the double to answer like \<open>PrismaAuthRepository\<close>.
\<close>

record auth_double =
  fa_users :: "(uuid \<times> user_row) list"
  fa_sessions :: "(uuid \<times> session_row) list"
  fa_auditLog :: "audit_entry list"
  fa_auditOccurredAt :: "time list"
  fa_outbox :: outbox_double

type_synonym 'a fake_auth = "(auth_double, exn, 'a) prog"
type_synonym audit_hook = "audit_entry \<Rightarrow> exn option"

definition new_auth_double :: auth_double where
  "new_auth_double = \<lparr>fa_users = [], fa_sessions = [], fa_auditLog = [], fa_auditOccurredAt = [],
     fa_outbox = \<lparr>fo_entries = [], fo_emailTokens = [], fo_resetTokens = [], fo_userEmails = []\<rparr>\<rparr>"

section \<open>Audit\<close>

definition push_audit :: "time \<Rightarrow> audit_entry \<Rightarrow> auth_double \<Rightarrow> auth_double" where
  "push_audit now e f = f\<lparr>fa_auditLog := fa_auditLog f @ [e], fa_auditOccurredAt := fa_auditOccurredAt f @ [now]\<rparr>"

definition recordAudit :: "audit_hook \<Rightarrow> time \<Rightarrow> audit_entry \<Rightarrow> unit fake_auth" where
  "recordAudit fails now e = (\<lambda>f. case fails e of Some x \<Rightarrow> (Inl x, f) | None \<Rightarrow> (Inr (), push_audit now e f))"

definition recordAudit_opt :: "audit_hook \<Rightarrow> time \<Rightarrow> audit_entry option \<Rightarrow> unit fake_auth" where
  "recordAudit_opt fails now e = (case e of None \<Rightarrow> returnE () | Some e \<Rightarrow> recordAudit fails now e)"

definition fake_writeAuditLog :: "audit_hook \<Rightarrow> time \<Rightarrow> audit_entry \<Rightarrow> unit fake_auth" where
  "fake_writeAuditLog fails now e = recordAudit fails now e"

section \<open>Users\<close>

definition fake_findUserByEmail :: "string \<Rightarrow> auth_double \<Rightarrow> user_row option" where
  "fake_findUserByEmail email f = find (\<lambda>u. u_email u = email) (map snd (fa_users f))"

definition fake_findUserById :: "uuid \<Rightarrow> auth_double \<Rightarrow> user_row option" where
  "fake_findUserById i f = map_of (fa_users f) i"

text \<open>\<open>wall\<close> is \<open>new Date()\<close>, which \<open>createUser\<close> and the revocations read instead of the clock.\<close>

definition fake_createUser :: "uuid \<Rightarrow> time \<Rightarrow> create_user_input \<Rightarrow> user_row fake_auth" where
  "fake_createUser newId wall input = (\<lambda>f.
     if \<exists>u \<in> set (map snd (fa_users f)). u_email u = cu_email input then (Inl DuplicateEmailError, f)
     else
       let u = \<lparr>u_id = newId, u_email = cu_email input, u_passwordHash = cu_passwordHash input,
                u_fullName = cu_fullName input, u_role = USER, u_status = ACTIVE,
                u_emailVerifiedAt = None, u_createdAt = wall\<rparr>
       in (Inr u, f\<lparr>fa_users := AList.update (u_id u) u (fa_users f)\<rparr>))"

definition enqueue_email :: "uuid \<Rightarrow> time \<Rightarrow> email_outbox_kind \<Rightarrow> uuid \<Rightarrow> auth_double \<Rightarrow> auth_double" where
  "enqueue_email newId now kind userId f =
     f\<lparr>fa_outbox := snd (fake_enqueue newId now kind userId (fa_outbox f))\<rparr>"

definition fake_createUserWithEmailVerification ::
  "uuid \<Rightarrow> uuid \<Rightarrow> time \<Rightarrow> time \<Rightarrow> create_user_input \<Rightarrow> user_row fake_auth" where
  "fake_createUserWithEmailVerification newId outboxId wall now input =
     bindE (fake_createUser newId wall input)
       (\<lambda>u f. (Inr u, enqueue_email outboxId now Kind_EMAIL_VERIFICATION (u_id u) f))"

section \<open>One-time tokens\<close>

definition fake_consumeEmailVerificationToken ::
  "audit_hook \<Rightarrow> time \<Rightarrow> string \<Rightarrow> (user_row \<Rightarrow> audit_entry) option \<Rightarrow> uuid option fake_auth" where
  "fake_consumeEmailVerificationToken fails now tokenHash audit = (\<lambda>f.
     case find (usable_token now tokenHash) (fo_emailTokens (fa_outbox f)) of
       None \<Rightarrow> (Inr None, f)
     | Some token \<Rightarrow>
         let user = map_of (fa_users f) (t_userId token);
             entry = (case (audit, user) of (Some build, Some u) \<Rightarrow> Some (build u) | _ \<Rightarrow> None)
         in bindE (recordAudit_opt fails now entry) (\<lambda>_ f.
              (Inr (Some (t_userId token)),
               f\<lparr>fa_outbox := (fa_outbox f)\<lparr>fo_emailTokens := update_first (usable_token now tokenHash)
                    (\<lambda>t. t\<lparr>t_usedAt := Some now\<rparr>) (fo_emailTokens (fa_outbox f))\<rparr>,
                 fa_users := (case user of
                    Some u \<Rightarrow> if u_emailVerifiedAt u = None
                      then AList.map_entry (t_userId token) (\<lambda>u. u\<lparr>u_emailVerifiedAt := Some now\<rparr>) (fa_users f)
                      else fa_users f
                  | None \<Rightarrow> fa_users f)\<rparr>)) f)"

definition revoke_values ::
  "(session_row \<Rightarrow> bool) \<Rightarrow> time \<Rightarrow> session_revoked_reason \<Rightarrow> auth_double \<Rightarrow> auth_double" where
  "revoke_values P wall reason f = f\<lparr>fa_sessions := update_values P
     (\<lambda>s. s\<lparr>s_revokedAt := Some wall, s_revokedReason := Some reason\<rparr>) (fa_sessions f)\<rparr>"

definition fake_revokeAllOwnSessions ::
  "audit_hook \<Rightarrow> time \<Rightarrow> time \<Rightarrow> uuid \<Rightarrow> session_revoked_reason \<Rightarrow> audit_entry option \<Rightarrow> nat fake_auth" where
  "fake_revokeAllOwnSessions fails wall now userId reason audit = (\<lambda>f.
     let P = (\<lambda>s. s_userId s = userId \<and> s_revokedAt s = None);
         targets = filter P (map snd (fa_sessions f))
     in bindE (recordAudit_opt fails now (if length targets > 0 then audit else None))
          (\<lambda>_ f. (Inr (length targets), revoke_values P wall reason f)) f)"

definition fake_resetPassword :: "audit_hook \<Rightarrow> time \<Rightarrow> time \<Rightarrow> uuid \<Rightarrow> reset_password_input \<Rightarrow> user_row option fake_auth" where
  "fake_resetPassword fails wall now outboxId input = (\<lambda>f.
     case find (usable_token now (rp_tokenHash input)) (fo_resetTokens (fa_outbox f)) of
       None \<Rightarrow> (Inr None, f)
     | Some token \<Rightarrow>
         (case map_of (fa_users f) (t_userId token) of
            None \<Rightarrow> (Inr None, f)
          | Some u0 \<Rightarrow>
              let u = u0\<lparr>u_passwordHash := rp_passwordHash input\<rparr>;
                  f = f\<lparr>fa_outbox := (fa_outbox f)\<lparr>fo_resetTokens := update_where
                        (\<lambda>t. t_userId t = u_id u0 \<and> t_usedAt t = None) (\<lambda>t. t\<lparr>t_usedAt := Some now\<rparr>)
                        (fo_resetTokens (fa_outbox f))\<rparr>\<rparr>;
                  f = f\<lparr>fa_users := AList.map_entry (t_userId token)
                        (\<lambda>r. r\<lparr>u_passwordHash := rp_passwordHash input\<rparr>) (fa_users f)\<rparr>;
                  f = snd (fake_revokeAllOwnSessions fails wall now (u_id u) PASSWORD_RESET None f);
                  f = enqueue_email outboxId now Kind_PASSWORD_RESET_COMPLETED (u_id u) f;
                  f = push_audit now (rp_audit input u) f
              in (Inr (Some u), f)))"

section \<open>Sessions\<close>

definition fake_createSession :: "uuid \<Rightarrow> time \<Rightarrow> time option \<Rightarrow> create_session_input \<Rightarrow> session_row fake_auth" where
  "fake_createSession newId now createdAt input = (\<lambda>f.
     let s = (session_of_input newId input)
           \<lparr>s_createdAt := (case createdAt of Some t \<Rightarrow> t | None \<Rightarrow> now)\<rparr>
     in (Inr s, f\<lparr>fa_sessions := AList.update (s_id s) s (fa_sessions f)\<rparr>))"

definition fake_listActiveSessions :: "uuid \<Rightarrow> time \<Rightarrow> auth_double \<Rightarrow> session_row list" where
  "fake_listActiveSessions userId now f = sort_key (\<lambda>s. (- s_lastSeenAt s, s_id s))
     (filter (\<lambda>s. s_userId s = userId \<and> s_revokedAt s = None \<and> s_rotatedAt s = None \<and>
        now < s_idleExpiresAt s \<and> now < s_absoluteExpiresAt s) (map snd (fa_sessions f)))"

definition fake_findSessionByTokenHash :: "string \<Rightarrow> auth_double \<Rightarrow> session_row option" where
  "fake_findSessionByTokenHash h f = find (\<lambda>s. s_tokenHash s = h) (map snd (fa_sessions f))"

definition fake_touchSession :: "uuid \<Rightarrow> time \<Rightarrow> time \<Rightarrow> unit fake_auth" where
  "fake_touchSession i lastSeen idleExpires = (\<lambda>f.
     case map_of (fa_sessions f) i of
       None \<Rightarrow> (Inr (), f)
     | Some s \<Rightarrow> (Inr (), f\<lparr>fa_sessions := AList.map_entry i
          (\<lambda>s. s\<lparr>s_lastSeenAt := lastSeen, s_idleExpiresAt := idleExpires\<rparr>) (fa_sessions f)\<rparr>))"

definition fake_rotateSessionCsrf :: "uuid \<Rightarrow> string \<Rightarrow> unit fake_auth" where
  "fake_rotateSessionCsrf i csrfHash = (\<lambda>f.
     case map_of (fa_sessions f) i of
       None \<Rightarrow> (Inr (), f)
     | Some s \<Rightarrow> (Inr (), f\<lparr>fa_sessions := AList.map_entry i
          (\<lambda>s. s\<lparr>s_csrfTokenHash := csrfHash\<rparr>) (fa_sessions f)\<rparr>))"

definition revoke_entry :: "uuid \<Rightarrow> time \<Rightarrow> session_revoked_reason \<Rightarrow> auth_double \<Rightarrow> auth_double" where
  "revoke_entry i wall reason f = f\<lparr>fa_sessions := AList.map_entry i
     (\<lambda>s. s\<lparr>s_revokedAt := Some wall, s_revokedReason := Some reason\<rparr>) (fa_sessions f)\<rparr>"

definition fake_revokeSession ::
  "audit_hook \<Rightarrow> time \<Rightarrow> time \<Rightarrow> uuid \<Rightarrow> session_revoked_reason \<Rightarrow> audit_entry option \<Rightarrow> bool fake_auth" where
  "fake_revokeSession fails wall now i reason audit = (\<lambda>f.
     case map_of (fa_sessions f) i of
       None \<Rightarrow> (Inr False, f)
     | Some s \<Rightarrow>
         if s_revokedAt s \<noteq> None then (Inr False, f)
         else bindE (recordAudit_opt fails now audit) (\<lambda>_ f. (Inr True, revoke_entry i wall reason f)) f)"

definition fake_revokeOwnSession ::
  "audit_hook \<Rightarrow> time \<Rightarrow> time \<Rightarrow> uuid \<Rightarrow> uuid \<Rightarrow> time \<Rightarrow> session_revoked_reason \<Rightarrow> audit_entry option \<Rightarrow> bool fake_auth"
where
  "fake_revokeOwnSession fails wall clock sessionId userId now reason audit = (\<lambda>f.
     case map_of (fa_sessions f) sessionId of
       None \<Rightarrow> (Inr False, f)
     | Some s \<Rightarrow>
         if s_userId s \<noteq> userId \<or> s_revokedAt s \<noteq> None \<or> s_idleExpiresAt s \<le> now \<or> s_absoluteExpiresAt s \<le> now
         then (Inr False, f)
         else bindE (recordAudit_opt fails clock audit)
                (\<lambda>_ f. (Inr True, revoke_entry sessionId wall reason f)) f)"

definition fake_rotateSession :: "uuid \<Rightarrow> time \<Rightarrow> time option \<Rightarrow> rotate_session_input \<Rightarrow> session_row option fake_auth" where
  "fake_rotateSession newId now createdAt input = (\<lambda>f.
     case map_of (fa_sessions f) (rs_previousSessionId input) of
       None \<Rightarrow> (Inr None, f)
     | Some previous \<Rightarrow>
         if s_userId previous \<noteq> rs_userId input \<or> s_revokedAt previous \<noteq> None \<or> s_rotatedAt previous \<noteq> None
         then (Inr None, f)
         else
           let f = f\<lparr>fa_sessions := AList.map_entry (rs_previousSessionId input)
                 (\<lambda>s. s\<lparr>s_rotatedAt := Some (rs_now input)\<rparr>) (fa_sessions f)\<rparr>;
               f = revoke_values (\<lambda>s. s_userId s = rs_userId input \<and> s_revokedAt s = None \<and>
                     (case s_rotatedAt s of None \<Rightarrow> False
                      | Some r \<Rightarrow> r \<le> rs_now input - rs_graceMs input)) (rs_now input) ROTATED f
           in bindE (fake_createSession newId now createdAt (rs_newSession input)) (\<lambda>s. returnE (Some s)) f)"

section \<open>Attempts evaluated under a lock\<close>

text \<open>
  What an attempt does through its scope: it reads users by their email, asks for writes, which
  are kept until it completes, and completes or throws.
\<close>

type_synonym 'a login_scoped =
  "attempt_scope \<Rightarrow> (string \<Rightarrow> user_row option) \<Rightarrow> (exn + 'a) \<times> audit_entry list"
type_synonym 'a reset_scoped =
  "attempt_scope \<Rightarrow> (string \<Rightarrow> user_row option) \<Rightarrow> (exn + 'a) \<times> audit_entry list \<times> uuid list"
type_synonym 'a resend_scoped = "attempt_scope \<Rightarrow> (exn + 'a) \<times> nat"

definition fake_email_events :: "string \<Rightarrow> string \<Rightarrow> time \<Rightarrow> int \<Rightarrow> auth_double \<Rightarrow> time list" where
  "fake_email_events act emailHash now window f =
     map snd (filter (\<lambda>(e, t). action e = act \<and>
         (case metadata e of None \<Rightarrow> False | Some m \<Rightarrow> map_of m ''emailHash'' = Some (JStr emailHash)) \<and>
         now - window < t) (zip (fa_auditLog f) (fa_auditOccurredAt f)))"

definition scope_of :: "time list \<Rightarrow> time \<Rightarrow> attempt_scope" where
  "scope_of ts now = \<lparr>recentEvents = length ts, lastEventAt = latest ts, scope_now = now\<rparr>"

definition fake_runLoginAttempt :: "time \<Rightarrow> string \<Rightarrow> int \<Rightarrow> 'a login_scoped \<Rightarrow> 'a fake_auth" where
  "fake_runLoginAttempt now emailHash window attempt = (\<lambda>f.
     case attempt (scope_of (fake_email_events ''auth.login.failed'' emailHash now window f) now)
            (\<lambda>email. fake_findUserByEmail email f) of
       (Inl e, _) \<Rightarrow> (Inl e, f)
     | (Inr x, entries) \<Rightarrow> (Inr x, fold (push_audit now) entries f))"

text \<open>\<open>ids\<close> are the identifiers \<open>randomUUID\<close> draws, one for each entry of the outbox.\<close>

fun enqueue_all :: "(nat \<Rightarrow> uuid) \<Rightarrow> time \<Rightarrow> email_outbox_kind \<Rightarrow> uuid list \<Rightarrow> nat \<Rightarrow> auth_double \<Rightarrow> auth_double" where
  "enqueue_all ids now kind [] n f = f"
| "enqueue_all ids now kind (u # us) n f = enqueue_all ids now kind us (Suc n) (enqueue_email (ids n) now kind u f)"

definition fake_runPasswordResetRequest ::
  "(nat \<Rightarrow> uuid) \<Rightarrow> time \<Rightarrow> string \<Rightarrow> int \<Rightarrow> 'a reset_scoped \<Rightarrow> 'a fake_auth" where
  "fake_runPasswordResetRequest ids now emailHash window attempt = (\<lambda>f.
     case attempt (scope_of (fake_email_events ''auth.password.reset_requested'' emailHash now window f) now)
            (\<lambda>email. fake_findUserByEmail email f) of
       (Inl e, _) \<Rightarrow> (Inl e, f)
     | (Inr x, entries, userIds) \<Rightarrow>
         (Inr x, enqueue_all ids now Kind_PASSWORD_RESET userIds 0 (fold (push_audit now) entries f)))"

definition fake_runEmailVerificationResend ::
  "(nat \<Rightarrow> uuid) \<Rightarrow> time \<Rightarrow> uuid \<Rightarrow> int \<Rightarrow> 'a resend_scoped \<Rightarrow> 'a fake_auth" where
  "fake_runEmailVerificationResend ids now userId window attempt = (\<lambda>f.
     let recent = map o_createdAt (filter (\<lambda>e. o_userId e = userId \<and> o_kind e = Kind_EMAIL_VERIFICATION \<and>
                    now - window < o_createdAt e) (fo_entries (fa_outbox f)))
     in case attempt (scope_of recent now) of
          (Inl e, _) \<Rightarrow> (Inl e, f)
        | (Inr x, enqueues) \<Rightarrow>
            (Inr x, enqueue_all ids now Kind_EMAIL_VERIFICATION (replicate enqueues userId) 0 f))"

section \<open>The outbox of the double\<close>

definition fake_dispatch :: "time \<Rightarrow> uuid list \<Rightarrow> handling \<Rightarrow> bool fake_auth" where
  "fake_dispatch now exclude handle = (\<lambda>f.
     case fake_dispatchNext (\<lambda>userId. map_option u_email (map_of (fa_users f) userId)) now exclude handle
            (fa_outbox f) of
       (r, ob) \<Rightarrow> (r, f\<lparr>fa_outbox := ob\<rparr>))"

section \<open>Calls\<close>

text \<open>
  A call of either repository with what the runtime gives it: instants, identifiers, and the
  attempt or the handling. The double's two clocks read the same.
\<close>

datatype 'a auth_call =
    Call_register uuid uuid time create_user_input
  | Call_createUser uuid time create_user_input
  | Call_verify time string "(user_row \<Rightarrow> audit_entry) option"
  | Call_reset time uuid reset_password_input
  | Call_findUserByEmail string
  | Call_findUserById uuid
  | Call_createSession uuid create_session_input
  | Call_listActive uuid time
  | Call_findSession string
  | Call_touch uuid time time
  | Call_csrf uuid string
  | Call_revoke time uuid session_revoked_reason "audit_entry option"
  | Call_revokeOwn time uuid uuid time session_revoked_reason "audit_entry option"
  | Call_revokeAll time uuid session_revoked_reason "audit_entry option"
  | Call_rotate uuid rotate_session_input
  | Call_login time string int "'a login_scoped"
  | Call_recovery "nat \<Rightarrow> uuid" time string int "'a reset_scoped"
  | Call_resend "nat \<Rightarrow> uuid" time uuid int "'a resend_scoped"
  | Call_audit time audit_entry
  | Call_dispatch time "uuid list" handling

datatype 'a auth_answer =
    Got_user user_row | Got_user_opt "user_row option" | Got_id "uuid option"
  | Got_session session_row | Got_session_opt "session_row option" | Got_sessions "session_row list"
  | Got_bool bool | Got_count nat | Got_unit | Got_attempt 'a | Threw exn

definition answered :: "('x \<Rightarrow> 'a auth_answer) \<Rightarrow> (exn + 'x) \<times> 's \<Rightarrow> 'a auth_answer \<times> 's" where
  "answered k = (\<lambda>(r, s). (case r of Inl e \<Rightarrow> Threw e | Inr x \<Rightarrow> k x, s))"

lemma answered_simps [simp]:
  "answered k (Inl e, s) = (Threw e, s)" "answered k (Inr x, s) = (k x, s)"
  by (simp_all add: answered_def)

fun fake_call :: "audit_hook \<Rightarrow> 'a auth_call \<Rightarrow> auth_double \<Rightarrow> 'a auth_answer \<times> auth_double" where
  "fake_call fails (Call_register i oid t input) f =
     answered Got_user (fake_createUserWithEmailVerification i oid t t input f)"
| "fake_call fails (Call_createUser i t input) f = answered Got_user (fake_createUser i t input f)"
| "fake_call fails (Call_verify t h audit) f =
     answered Got_id (fake_consumeEmailVerificationToken fails t h audit f)"
| "fake_call fails (Call_reset t oid input) f =
     answered Got_user_opt (fake_resetPassword fails t t oid input f)"
| "fake_call fails (Call_findUserByEmail email) f = (Got_user_opt (fake_findUserByEmail email f), f)"
| "fake_call fails (Call_findUserById i) f = (Got_user_opt (fake_findUserById i f), f)"
| "fake_call fails (Call_createSession i input) f =
     answered Got_session (fake_createSession i 0 (Some (cs_createdAt input)) input f)"
| "fake_call fails (Call_listActive u t) f = (Got_sessions (fake_listActiveSessions u t f), f)"
| "fake_call fails (Call_findSession h) f = (Got_session_opt (fake_findSessionByTokenHash h f), f)"
| "fake_call fails (Call_touch i seen idle) f = answered (\<lambda>_. Got_unit) (fake_touchSession i seen idle f)"
| "fake_call fails (Call_csrf i h) f = answered (\<lambda>_. Got_unit) (fake_rotateSessionCsrf i h f)"
| "fake_call fails (Call_revoke t i reason audit) f =
     answered Got_bool (fake_revokeSession fails t t i reason audit f)"
| "fake_call fails (Call_revokeOwn t i u now reason audit) f =
     answered Got_bool (fake_revokeOwnSession fails t t i u now reason audit f)"
| "fake_call fails (Call_revokeAll t u reason audit) f =
     answered Got_count (fake_revokeAllOwnSessions fails t t u reason audit f)"
| "fake_call fails (Call_rotate i input) f = answered Got_session_opt
     (fake_rotateSession i 0 (Some (cs_createdAt (rs_newSession input))) input f)"
| "fake_call fails (Call_login t h window attempt) f =
     answered Got_attempt (fake_runLoginAttempt t h window attempt f)"
| "fake_call fails (Call_recovery ids t h window attempt) f =
     answered Got_attempt (fake_runPasswordResetRequest ids t h window attempt f)"
| "fake_call fails (Call_resend ids t u window attempt) f =
     answered Got_attempt (fake_runEmailVerificationResend ids t u window attempt f)"
| "fake_call fails (Call_audit t e) f = answered (\<lambda>_. Got_unit) (fake_writeAuditLog fails t e f)"
| "fake_call fails (Call_dispatch t exclude handle) f = answered Got_bool (fake_dispatch t exclude handle f)"

text \<open>The attempts over PostgreSQL: every write is made as it is asked for, in the transaction.\<close>

fun insert_emails :: "(nat \<Rightarrow> uuid) \<Rightarrow> time \<Rightarrow> email_outbox_kind \<Rightarrow> uuid list \<Rightarrow> nat \<Rightarrow> db \<Rightarrow> db" where
  "insert_emails ids now kind [] n d = d"
| "insert_emails ids now kind (u # us) n d = insert_emails ids now kind us (Suc n) (insert_outbox (ids n) kind u now d)"

definition login_tx :: "'a login_scoped \<Rightarrow> attempt_scope \<Rightarrow> 'a tx" where
  "login_tx attempt scope = (\<lambda>d. case attempt scope (\<lambda>email. findUserByEmail email d) of
     (r, entries) \<Rightarrow> (r, fold (\<lambda>e. insert_audit e (scope_now scope)) entries d))"

definition recovery_tx :: "(nat \<Rightarrow> uuid) \<Rightarrow> 'a reset_scoped \<Rightarrow> attempt_scope \<Rightarrow> 'a tx" where
  "recovery_tx ids attempt scope = (\<lambda>d. case attempt scope (\<lambda>email. findUserByEmail email d) of
     (r, entries, userIds) \<Rightarrow> (r, insert_emails ids (scope_now scope) Kind_PASSWORD_RESET userIds 0
        (fold (\<lambda>e. insert_audit e (scope_now scope)) entries d)))"

definition resend_tx :: "(nat \<Rightarrow> uuid) \<Rightarrow> uuid \<Rightarrow> 'a resend_scoped \<Rightarrow> attempt_scope \<Rightarrow> 'a tx" where
  "resend_tx ids userId attempt scope = (\<lambda>d. case attempt scope of
     (r, n) \<Rightarrow> (r, insert_emails ids (scope_now scope) Kind_EMAIL_VERIFICATION (replicate n userId) 0 d))"

fun real_call :: "'a auth_call \<Rightarrow> db \<Rightarrow> 'a auth_answer \<times> db" where
  "real_call (Call_register i oid t input) d =
     answered Got_user (createUserWithEmailVerification i oid t input d)"
| "real_call (Call_createUser i t input) d = answered Got_user (createUser i t input d)"
| "real_call (Call_verify t h audit) d = answered Got_id (consumeEmailVerificationToken t h audit d)"
| "real_call (Call_reset t oid input) d = answered Got_user_opt (resetPassword t oid input d)"
| "real_call (Call_findUserByEmail email) d = (Got_user_opt (findUserByEmail email d), d)"
| "real_call (Call_findUserById i) d = (Got_user_opt (findUserById i d), d)"
| "real_call (Call_createSession i input) d = answered Got_session (createSession i input d)"
| "real_call (Call_listActive u t) d = (Got_sessions (listActiveSessions u t d), d)"
| "real_call (Call_findSession h) d = (Got_session_opt (findSessionByTokenHash h d), d)"
| "real_call (Call_touch i seen idle) d = answered (\<lambda>_. Got_unit) (touchSession i seen idle d)"
| "real_call (Call_csrf i h) d = answered (\<lambda>_. Got_unit) (rotateSessionCsrf i h d)"
| "real_call (Call_revoke t i reason audit) d =
     (case revokeSession t i reason audit d of (b, d) \<Rightarrow> (Got_bool b, d))"
| "real_call (Call_revokeOwn t i u now reason audit) d =
     (case revokeOwnSession t i u now reason audit d of (b, d) \<Rightarrow> (Got_bool b, d))"
| "real_call (Call_revokeAll t u reason audit) d =
     (case revokeAllOwnSessions t u reason audit d of (n, d) \<Rightarrow> (Got_count n, d))"
| "real_call (Call_rotate i input) d = answered Got_session_opt (rotateSession i input d)"
| "real_call (Call_login t h window attempt) d =
     answered Got_attempt (runLoginAttempt None t h window (login_tx attempt) d)"
| "real_call (Call_recovery ids t h window attempt) d =
     answered Got_attempt (runPasswordResetRequest None t h window (recovery_tx ids attempt) d)"
| "real_call (Call_resend ids t u window attempt) d =
     answered Got_attempt (runEmailVerificationResend None t u window (resend_tx ids u attempt) d)"
| "real_call (Call_audit t e) d = (Got_unit, writeAuditLog e t d)"
| "real_call (Call_dispatch t exclude handle) d = answered Got_bool (dispatch_tx t exclude handle d)"

section \<open>Where the double answers alike\<close>

text \<open>
  What a call must be given: the event of a verification does not show whether the address was
  verified, and an attempt does not itself throw one of the errors the repository takes for an
  unavailable lock.
\<close>

definition available :: "(exn + 'a) \<times> 'b \<Rightarrow> bool" where
  "available r = (case fst r of Inl e \<Rightarrow> \<not> isLoginAttemptUnavailable e | Inr _ \<Rightarrow> True)"

fun steady_call :: "'a auth_call \<Rightarrow> bool" where
  "steady_call (Call_verify t h audit) =
    (case audit of None \<Rightarrow> True | Some build \<Rightarrow> \<forall>u v. build (u\<lparr>u_emailVerifiedAt := v\<rparr>) = build u)"
| "steady_call (Call_login t h window attempt) = (\<forall>scope lookup. available (attempt scope lookup))"
| "steady_call (Call_recovery ids t h window attempt) = (\<forall>scope lookup. available (attempt scope lookup))"
| "steady_call (Call_resend ids t u window attempt) = (\<forall>scope. available (attempt scope))"
| "steady_call _ = True"

text \<open>Identifiers and token hashes drawn are new, as random ones are, and the session touched exists.\<close>

fun fresh_call :: "'a auth_call \<Rightarrow> db \<Rightarrow> bool" where
  "fresh_call (Call_register i oid t input) d = (i \<notin> u_id ` set (users d))"
| "fresh_call (Call_createUser i t input) d = (i \<notin> u_id ` set (users d))"
| "fresh_call (Call_createSession i input) d =
    (i \<notin> s_id ` set (sessions d) \<and> cs_tokenHash input \<notin> s_tokenHash ` set (sessions d))"
| "fresh_call (Call_touch i seen idle) d = (i \<in> s_id ` set (sessions d))"
| "fresh_call (Call_csrf i h) d = (i \<in> s_id ` set (sessions d))"
| "fresh_call (Call_rotate i input) d = (i \<notin> s_id ` set (sessions d) \<and>
     cs_tokenHash (rs_newSession input) \<notin> s_tokenHash ` set (sessions d))"
| "fresh_call (Call_dispatch t exclude handle) d = dispatch_fresh t exclude handle d"
| "fresh_call _ d = True"

definition call_ok :: "'a auth_call \<Rightarrow> db \<Rightarrow> bool" where
  "call_ok c d \<longleftrightarrow> steady_call c \<and> fresh_call c d"

definition auth_mirrors :: "auth_double \<Rightarrow> db \<Rightarrow> bool" where
  "auth_mirrors f d \<longleftrightarrow> mirrors u_id (fa_users f) (users d) \<and> mirrors s_id (fa_sessions f) (sessions d) \<and>
     fa_auditLog f = map a_entry (auditLogs d) \<and> fa_auditOccurredAt f = map a_occurredAt (auditLogs d) \<and>
     outbox_mirrors (fa_outbox f) d"

end
