(* ===== verification/Auth_Double_Mirror.thy ===== *)
theory Auth_Double_Mirror
  imports Auth_Double
begin

text \<open>
  The double of the account repository against the repository: call by call, the same answer and
  the same tables, and the contract of a double with what follows from it.
\<close>

section \<open>What the relation gives, and what keeps it\<close>

lemma auth_mirrorsD:
  assumes "auth_mirrors f d"
  shows "map_of (fa_users f) i = findUserById i d" "map snd (fa_users f) = users d"
    "map_of (fa_sessions f) i = find (\<lambda>s. s_id s = i) (sessions d)" "map snd (fa_sessions f) = sessions d"
    "fo_entries (fa_outbox f) = outbox d" "fo_emailTokens (fa_outbox f) = emailTokens d"
    "fo_resetTokens (fa_outbox f) = resetTokens d" "distinct (map u_id (users d))"
    "distinct (map s_id (sessions d))"
  using assms mirrors_get [of u_id "fa_users f" "users d"] mirrors_get [of s_id "fa_sessions f" "sessions d"]
  by (auto simp: auth_mirrors_def outbox_mirrors_def findUserById_def mirrors_def comp_def)

lemma tokens_ok_users: "u_id ` set us \<subseteq> u_id ` set us' \<Longrightarrow> tokens_ok ts us \<Longrightarrow> tokens_ok ts us'"
  unfolding tokens_ok_def by blast

lemma tokens_ok_update:
  assumes "\<And>t. t_tokenHash (g t) = t_tokenHash t \<and> t_userId (g t) = t_userId t"
  shows "tokens_ok (update_where P g ts) us \<longleftrightarrow> tokens_ok ts us"
proof -
  have "map t_tokenHash (update_where P g ts) = map t_tokenHash ts"
    and "map t_userId (update_where P g ts) = map t_userId ts"
    using assms by (simp_all add: map_update_where)
  then show ?thesis
    unfolding tokens_ok_def by (metis set_map)
qed

lemma outbox_mirrors_users:
  "outbox_mirrors f d \<Longrightarrow> u_id ` set (users d) \<subseteq> u_id ` set us \<Longrightarrow> outbox_mirrors f (d\<lparr>users := us\<rparr>)"
  by (auto simp: outbox_mirrors_def intro: tokens_ok_users)

lemma update_where_u_ids: "(\<And>u. u_id (g u) = u_id u) \<Longrightarrow> u_id ` set (update_where P g us) = u_id ` set us"
  by (metis (no_types, lifting) map_update_where set_map)

lemma mirrors_push_audit:
  "auth_mirrors f d \<Longrightarrow> auth_mirrors (push_audit t e f) (insert_audit e t d)"
  by (simp add: auth_mirrors_def push_audit_def outbox_mirrors_def)

lemma mirrors_push_audits:
  "auth_mirrors f d \<Longrightarrow> auth_mirrors (fold (push_audit t) es f) (fold (\<lambda>e. insert_audit e t) es d)"
  by (induction es arbitrary: f d) (simp_all add: mirrors_push_audit)

lemma mirrors_enqueue:
  "auth_mirrors f d \<Longrightarrow> auth_mirrors (enqueue_email i t k u f) (insert_outbox i k u t d)"
  by (simp add: auth_mirrors_def enqueue_email_def fake_enqueue_def Let_def outbox_mirrors_def insert_outbox_def)

lemma mirrors_enqueue_all:
  "auth_mirrors f d \<Longrightarrow> auth_mirrors (enqueue_all ids t k us n f) (insert_emails ids t k us n d)"
  by (induction us arbitrary: n f d) (simp_all add: mirrors_enqueue)

lemma mirrors_sessions:
  "auth_mirrors f d \<Longrightarrow> mirrors s_id ss rows \<Longrightarrow> auth_mirrors (f\<lparr>fa_sessions := ss\<rparr>) (d\<lparr>sessions := rows\<rparr>)"
  by (simp add: auth_mirrors_def outbox_mirrors_def)

lemma mirrors_users:
  "auth_mirrors f d \<Longrightarrow> mirrors u_id us rows \<Longrightarrow> u_id ` set (users d) \<subseteq> u_id ` set rows \<Longrightarrow>
    auth_mirrors (f\<lparr>fa_users := us\<rparr>) (d\<lparr>users := rows\<rparr>)"
  by (simp add: auth_mirrors_def outbox_mirrors_users)

lemma recordAudit_opt_none [simp]:
  "recordAudit_opt (\<lambda>_. None) t e f = (Inr (), case e of None \<Rightarrow> f | Some e \<Rightarrow> push_audit t e f)"
  by (simp add: recordAudit_opt_def recordAudit_def split: option.splits)

lemma mirrors_audit_opt:
  "auth_mirrors f d \<Longrightarrow> auth_mirrors (case e of None \<Rightarrow> f | Some e \<Rightarrow> push_audit t e f) (insert_audit_opt e t d)"
  by (simp add: insert_audit_opt_def mirrors_push_audit split: option.splits)

declare call_ok_def [simp]

section \<open>Users\<close>

definition alike :: "'a auth_call \<Rightarrow> auth_double \<Rightarrow> db \<Rightarrow> bool" where
  "alike c f d \<longleftrightarrow> fst (fake_call (\<lambda>_. None) c f) = fst (real_call c d) \<and>
     auth_mirrors (snd (fake_call (\<lambda>_. None) c f)) (snd (real_call c d))"

lemma createUser_mirrored:
  assumes "auth_mirrors f d" and "i \<notin> u_id ` set (users d)"
  shows "\<exists>r f' d'. fake_createUser i t input f = (r, f') \<and> createUser i t input d = (r, d') \<and> auth_mirrors f' d'"
proof -
  let ?u = "\<lparr>u_id = i, u_email = cu_email input, u_passwordHash = cu_passwordHash input,
     u_fullName = cu_fullName input, u_role = USER, u_status = ACTIVE, u_emailVerifiedAt = None,
     u_createdAt = t\<rparr>"
  have fake: "fake_createUser i t input f =
    (if \<exists>u \<in> set (users d). u_email u = cu_email input then (Inl DuplicateEmailError, f)
     else (Inr ?u, f\<lparr>fa_users := AList.update i ?u (fa_users f)\<rparr>))"
    by (simp add: fake_createUser_def auth_mirrorsD(2) [OF assms(1)] Let_def del: set_map)
  have real: "createUser i t input d =
    (if \<exists>u \<in> set (users d). u_email u = cu_email input then (Inl DuplicateEmailError, d)
     else (Inr ?u, d\<lparr>users := users d @ [?u]\<rparr>))"
    using assms(2) by (auto simp: createUser_def Let_def image_iff)
  have "mirrors u_id (AList.update i ?u (fa_users f)) (users d @ [?u])"
    using assms by (intro mirrors_set) (auto simp: auth_mirrors_def)
  then have "auth_mirrors (f\<lparr>fa_users := AList.update i ?u (fa_users f)\<rparr>) (d\<lparr>users := users d @ [?u]\<rparr>)"
    by (intro mirrors_users assms(1)) auto
  with assms(1) show ?thesis by (simp add: fake real)
qed

lemma createUser_alike:
  "auth_mirrors f d \<Longrightarrow> call_ok (Call_createUser i t input) d \<Longrightarrow> alike (Call_createUser i t input) f d"
  using createUser_mirrored [of f d i t input] by (auto simp: alike_def answered_def)

lemma register_alike:
  assumes "auth_mirrors f d" and "call_ok (Call_register i oid t input) d"
  shows "alike (Call_register i oid t input) f d"
proof -
  obtain r f' d' where r: "fake_createUser i t input f = (r, f')" "createUser i t input d = (r, d')"
      "auth_mirrors f' d'"
    using createUser_mirrored [OF assms(1)] assms(2) by force
  show ?thesis
  proof (cases r)
    case (Inl e)
    have "f' = f"
      using r(1) Inl by (auto simp: fake_createUser_def Let_def split: if_splits)
    with Inl r assms(1) show ?thesis
      by (auto simp: alike_def fake_createUserWithEmailVerification_def
          createUserWithEmailVerification_def bindE_def transaction_def)
  next
    case (Inr u)
    with r show ?thesis
      by (simp add: alike_def fake_createUserWithEmailVerification_def
          createUserWithEmailVerification_def bindE_def transaction_def mirrors_enqueue)
  qed
qed

lemma find_alike:
  assumes "auth_mirrors f d"
  shows "alike (Call_findUserByEmail email) f d" "alike (Call_findUserById i) f d"
    "alike (Call_listActive i t) f d" "alike (Call_findSession h) f d"
  using assms
  by (auto simp: alike_def fake_findUserByEmail_def fake_findUserById_def findUserByEmail_def
      fake_listActiveSessions_def listActiveSessions_def active_session_def [abs_def]
      fake_findSessionByTokenHash_def findSessionByTokenHash_def auth_mirrorsD)

section \<open>Sessions\<close>

lemma createSession_mirrored:
  assumes "auth_mirrors f d" and "i \<notin> s_id ` set (sessions d)"
    and "cs_tokenHash input \<notin> s_tokenHash ` set (sessions d)"
  shows "\<exists>s f' d'. fake_createSession i t (Some (cs_createdAt input)) input f = (Inr s, f') \<and>
    createSession i input d = (Inr s, d') \<and> auth_mirrors f' d'"
proof -
  let ?s = "session_of_input i input"
  have "mirrors s_id (AList.update i ?s (fa_sessions f)) (sessions d @ [?s])"
    using assms by (intro mirrors_set) (auto simp: auth_mirrors_def session_of_input_def)
  moreover have "?s\<lparr>s_createdAt := cs_createdAt input\<rparr> = ?s" "s_id ?s = i"
    by (simp_all add: session_of_input_def)
  ultimately show ?thesis
    using assms mirrors_sessions [OF assms(1)]
    by (auto simp: fake_createSession_def createSession_def Let_def image_iff)
qed

lemma createSession_alike:
  "auth_mirrors f d \<Longrightarrow> call_ok (Call_createSession i input) d \<Longrightarrow> alike (Call_createSession i input) f d"
  using createSession_mirrored [of f d i input 0] by (auto simp: alike_def)

lemma session_found:
  assumes "auth_mirrors f d" and "i \<in> s_id ` set (sessions d)"
  shows "\<exists>s. map_of (fa_sessions f) i = Some s" "\<exists>s \<in> set (sessions d). s_id s = i"
proof -
  show "\<exists>s \<in> set (sessions d). s_id s = i" using assms(2) by auto
  then show "\<exists>s. map_of (fa_sessions f) i = Some s"
    using find_None_iff [of "\<lambda>s. s_id s = i" "sessions d"] by (auto simp: auth_mirrorsD(3) [OF assms(1)])
qed

lemma touch_alike:
  assumes "auth_mirrors f d"
  shows "call_ok (Call_touch i seen idle) d \<Longrightarrow> alike (Call_touch i seen idle) f d"
    and "call_ok (Call_csrf i h) d \<Longrightarrow> alike (Call_csrf i h) f d"
proof -
  have entry: "mirrors s_id (AList.map_entry i g (fa_sessions f)) (update_where (\<lambda>s. s_id s = i) g (sessions d))"
    if "\<And>s. s_id (g s) = s_id s" for g
    using assms that by (intro mirrors_entry) (auto simp: auth_mirrors_def)
  show "call_ok (Call_touch i seen idle) d \<Longrightarrow> alike (Call_touch i seen idle) f d"
    using session_found [OF assms, of i] mirrors_sessions [OF assms entry]
    by (auto simp: alike_def fake_touchSession_def touchSession_def)
  show "call_ok (Call_csrf i h) d \<Longrightarrow> alike (Call_csrf i h) f d"
    using session_found [OF assms, of i] mirrors_sessions [OF assms entry]
    by (auto simp: alike_def fake_rotateSessionCsrf_def rotateSessionCsrf_def)
qed

text \<open>A revocation of one session, found under its identifier.\<close>

abbreviation revoked :: "time \<Rightarrow> session_revoked_reason \<Rightarrow> session_row \<Rightarrow> session_row" where
  "revoked t reason \<equiv> \<lambda>s. s\<lparr>s_revokedAt := Some t, s_revokedReason := Some reason\<rparr>"

lemma revoke_where_found:
  assumes "distinct (map s_id (sessions d))"
  shows "revoke_where (\<lambda>s. s_id s = i \<and> P s) t reason audit d =
    (case find (\<lambda>s. s_id s = i) (sessions d) of
       None \<Rightarrow> (0, d)
     | Some s \<Rightarrow> if P s then (1, insert_audit_opt audit t
           (d\<lparr>sessions := update_where (\<lambda>s. s_id s = i) (revoked t reason) (sessions d)\<rparr>))
         else (0, d))"
proof -
  have none: "update_where (\<lambda>s. s_id s = i \<and> P s) g (sessions d) = sessions d"
    if "count_where (\<lambda>s. s_id s = i \<and> P s) (sessions d) = 0" for g
    using that by (intro update_where_none) (simp add: count_where_0_iff)
  show ?thesis
    using count_found [OF assms, of i P] update_found [OF assms, of i _ P] none
    by (auto simp: revoke_where_def Let_def split: option.splits)
qed

lemma mirrors_revoke_entry:
  assumes "auth_mirrors f d"
  shows "auth_mirrors (revoke_entry i t reason (case audit of None \<Rightarrow> f | Some e \<Rightarrow> push_audit t e f))
    (insert_audit_opt audit t (d\<lparr>sessions := update_where (\<lambda>s. s_id s = i) (revoked t reason) (sessions d)\<rparr>))"
proof -
  have "mirrors s_id (AList.map_entry i (revoked t reason) (fa_sessions f))
      (update_where (\<lambda>s. s_id s = i) (revoked t reason) (sessions d))"
    using assms by (intro mirrors_entry) (auto simp: auth_mirrors_def)
  with assms show ?thesis
    by (cases audit) (simp_all add: auth_mirrors_def revoke_entry_def push_audit_def outbox_mirrors_def
        insert_audit_opt_def insert_audit_def)
qed

lemma revoke_alike:
  assumes "auth_mirrors f d"
  shows "alike (Call_revoke t i reason audit) f d"
    and "alike (Call_revokeOwn t i u now reason audit) f d"
proof -
  note found = revoke_where_found [OF auth_mirrorsD(9) [OF assms]]
  show "alike (Call_revoke t i reason audit) f d"
    using assms mirrors_revoke_entry [OF assms]
    by (auto simp: alike_def fake_revokeSession_def revokeSession_def found auth_mirrorsD(3) [OF assms]
        bindE_def split: option.splits)
  show "alike (Call_revokeOwn t i u now reason audit) f d"
    using assms mirrors_revoke_entry [OF assms]
    by (auto simp: alike_def fake_revokeOwnSession_def revokeOwnSession_def found auth_mirrorsD(3) [OF assms]
        bindE_def split: option.splits)
qed

lemma insert_audit_opt_sessions:
  "insert_audit_opt e t (d\<lparr>sessions := ss\<rparr>) = (insert_audit_opt e t d)\<lparr>sessions := ss\<rparr>"
  by (cases d; cases e) (simp_all add: insert_audit_opt_def insert_audit_def)

lemma mirrors_revoke_values:
  assumes "auth_mirrors f d"
  shows "auth_mirrors (revoke_values P t reason f)
    (d\<lparr>sessions := update_where P (revoked t reason) (sessions d)\<rparr>)"
proof -
  have "mirrors s_id (update_values P (revoked t reason) (fa_sessions f))
      (update_where P (revoked t reason) (sessions d))"
    using assms by (intro mirrors_update_where) (auto simp: auth_mirrors_def)
  with assms show ?thesis by (simp add: revoke_values_def mirrors_sessions)
qed

lemma revokeAll_mirrored:
  assumes "auth_mirrors f d"
  shows "\<exists>n f' d'. fake_revokeAllOwnSessions (\<lambda>_. None) t t u reason audit f = (Inr n, f') \<and>
    revokeAllOwnSessions t u reason audit d = (n, d') \<and> auth_mirrors f' d'"
proof -
  let ?P = "\<lambda>s. s_userId s = u \<and> s_revokedAt s = None"
  have fake: "fake_revokeAllOwnSessions (\<lambda>_. None) t t u reason audit f =
      bindE (recordAudit_opt (\<lambda>_. None) t (if length (filter ?P (sessions d)) > 0 then audit else None))
        (\<lambda>_ f. (Inr (length (filter ?P (sessions d))), revoke_values ?P t reason f)) f"
    by (simp only: fake_revokeAllOwnSessions_def Let_def auth_mirrorsD(4) [OF assms])
  have "auth_mirrors (revoke_values ?P t reason (case e of None \<Rightarrow> f | Some e \<Rightarrow> push_audit t e f))
    (insert_audit_opt e t (d\<lparr>sessions := update_where ?P (revoked t reason) (sessions d)\<rparr>))" for e
    using mirrors_revoke_values [OF mirrors_audit_opt [OF assms, where e = e and t = t], of ?P t reason]
    by (simp add: insert_audit_opt_sessions)
  from this [of audit] this [of None] show ?thesis
    by (auto simp: fake revokeAllOwnSessions_def revoke_where_def Let_def
        bindE_def count_where_def insert_audit_opt_def)
qed

lemma revokeAll_alike:
  "auth_mirrors f d \<Longrightarrow> alike (Call_revokeAll t u reason audit) f d"
  using revokeAll_mirrored [of f d t u reason audit] by (auto simp: alike_def)

lemma rotate_alike:
  assumes "auth_mirrors f d" and "call_ok (Call_rotate i input) d"
  shows "alike (Call_rotate i input) f d"
proof -
  let ?i = "rs_previousSessionId input"
  let ?P = "\<lambda>s. s_userId s = rs_userId input \<and> s_revokedAt s = None \<and> s_rotatedAt s = None"
  let ?g = "\<lambda>s. s\<lparr>s_rotatedAt := Some (rs_now input)\<rparr>"
  let ?ended = "\<lambda>s. s_userId s = rs_userId input \<and> s_revokedAt s = None \<and>
     (case s_rotatedAt s of None \<Rightarrow> False | Some r \<Rightarrow> r \<le> rs_now input - rs_graceMs input)"
  note unique = auth_mirrorsD(9) [OF assms(1)]
  let ?f1 = "f\<lparr>fa_sessions := AList.map_entry ?i ?g (fa_sessions f)\<rparr>"
  let ?d1 = "d\<lparr>sessions := update_where (\<lambda>s. s_id s = ?i) ?g (sessions d)\<rparr>"
  let ?f2 = "revoke_values ?ended (rs_now input) ROTATED ?f1"
  let ?d2 = "?d1\<lparr>sessions := update_where ?ended (revoked (rs_now input) ROTATED) (sessions ?d1)\<rparr>"
  have "auth_mirrors ?f1 ?d1"
    using assms(1) by (intro mirrors_sessions mirrors_entry) (auto simp: auth_mirrors_def)
  then have f2: "auth_mirrors ?f2 ?d2" by (rule mirrors_revoke_values)
  have "map s_id (sessions ?d2) = map s_id (sessions d)"
    "map s_tokenHash (sessions ?d2) = map s_tokenHash (sessions d)"
    by (simp_all add: map_update_where)
  then have "s_id ` set (sessions ?d2) = s_id ` set (sessions d)"
    "s_tokenHash ` set (sessions ?d2) = s_tokenHash ` set (sessions d)"
    by (metis set_map)+
  with assms(2) have "i \<notin> s_id ` set (sessions ?d2)"
    "cs_tokenHash (rs_newSession input) \<notin> s_tokenHash ` set (sessions ?d2)"
    by simp_all
  from createSession_mirrored [OF f2 this, of 0] obtain s f3 d3 where created:
    "fake_createSession i 0 (Some (cs_createdAt (rs_newSession input))) (rs_newSession input) ?f2 = (Inr s, f3)"
    "createSession i (rs_newSession input) ?d2 = (Inr s, d3)" "auth_mirrors f3 d3"
    by blast
  show ?thesis
  proof (cases "find (\<lambda>s. s_id s = ?i) (sessions d)")
    case None
    then show ?thesis
      using assms(1) count_found [OF unique, of ?i ?P]
      by (simp add: alike_def fake_rotateSession_def rotateSession_def transaction_def auth_mirrorsD(3) [OF assms(1)])
  next
    case (Some previous)
    show ?thesis
    proof (cases "?P previous")
      case True
      have "count_where (\<lambda>s. s_id s = ?i \<and> ?P s) (sessions d) = 1"
        using count_found [OF unique, of ?i ?P] Some True by simp
      moreover have "update_where (\<lambda>s. s_id s = ?i \<and> ?P s) ?g (sessions d)
          = update_where (\<lambda>s. s_id s = ?i) ?g (sessions d)"
        using update_found [OF unique Some, of ?P ?g] True by simp
      ultimately show ?thesis
        using True Some created
        by (simp add: alike_def fake_rotateSession_def rotateSession_def transaction_def
            auth_mirrorsD(3) [OF assms(1)] Let_def bindE_def)
    next
      case False
      then show ?thesis
        using assms(1) Some count_found [OF unique, of ?i ?P]
        by (auto simp: alike_def fake_rotateSession_def rotateSession_def transaction_def
            auth_mirrorsD(3) [OF assms(1)] Let_def)
    qed
  qed
qed

section \<open>One-time tokens\<close>

lemma token_user_found:
  assumes "tokens_ok ts (users d)" and "find P ts = Some token"
  shows "\<exists>u. findUserById (t_userId token) d = Some u \<and> u_id u = t_userId token \<and> u \<in> set (users d)"
proof -
  have "token \<in> set ts" using find_SomeD [OF assms(2)] by simp
  with assms(1) have "t_userId token \<in> u_id ` set (users d)" by (auto simp: tokens_ok_def)
  then obtain u where "findUserById (t_userId token) d = Some u"
    using find_None_iff [of "\<lambda>u. u_id u = t_userId token" "users d"] by (auto simp: findUserById_def)
  then show ?thesis by (auto simp: findUserById_def dest: find_SomeD)
qed

lemma use_token_first:
  "tokens_ok ts us \<Longrightarrow>
    update_first (usable_token now h) (\<lambda>t. t\<lparr>t_usedAt := Some now\<rparr>) ts = use_token now h ts"
  unfolding use_token_def
  by (rule update_first_unique [where key = t_tokenHash and k = h]) (auto simp: tokens_ok_def usable_token_def)

lemma mirrors_tokens:
  assumes "auth_mirrors f d"
  shows "tokens_ok ts (users d) \<Longrightarrow> auth_mirrors
      (f\<lparr>fa_outbox := (fa_outbox f)\<lparr>fo_emailTokens := ts\<rparr>\<rparr>) (d\<lparr>emailTokens := ts\<rparr>)"
    and "tokens_ok ts (users d) \<Longrightarrow> auth_mirrors
      (f\<lparr>fa_outbox := (fa_outbox f)\<lparr>fo_resetTokens := ts\<rparr>\<rparr>) (d\<lparr>resetTokens := ts\<rparr>)"
  using assms by (simp_all add: auth_mirrors_def outbox_mirrors_def)

lemma mirrors_user_entry:
  assumes "auth_mirrors f d" and "\<And>u. u_id (g u) = u_id u"
  shows "auth_mirrors (f\<lparr>fa_users := AList.map_entry i g (fa_users f)\<rparr>)
    (d\<lparr>users := update_where (\<lambda>u. u_id u = i) g (users d)\<rparr>)"
  using assms
  by (intro mirrors_users mirrors_entry) (auto simp: auth_mirrors_def update_where_u_ids)

lemma push_audit_commute:
  "(push_audit t e f)\<lparr>fa_outbox := ob, fa_users := us\<rparr> = push_audit t e (f\<lparr>fa_outbox := ob, fa_users := us\<rparr>)"
  by (cases f) (simp add: push_audit_def)

text \<open>The double assigns the verification after its event, the repository before it.\<close>

lemma verified_mirrored:
  assumes "auth_mirrors f d" and "findUserById i d = Some u" and "u_id u = i"
  shows "auth_mirrors
      (f\<lparr>fa_users := (if u_emailVerifiedAt u = None
           then AList.map_entry i (\<lambda>u. u\<lparr>u_emailVerifiedAt := Some now\<rparr>) (fa_users f) else fa_users f)\<rparr>)
      (d\<lparr>users := update_where (\<lambda>u. u_id u = i \<and> u_emailVerifiedAt u = None)
           (\<lambda>u. u\<lparr>u_emailVerifiedAt := Some now\<rparr>) (users d)\<rparr>)" (is ?mirrors)
    and "\<exists>v. findUserById i (d\<lparr>users := update_where (\<lambda>u. u_id u = i \<and> u_emailVerifiedAt u = None)
           (\<lambda>u. u\<lparr>u_emailVerifiedAt := Some now\<rparr>) (users d)\<rparr>) = Some (u\<lparr>u_emailVerifiedAt := v\<rparr>)"
proof -
  note unique = auth_mirrorsD(8) [OF assms(1)]
  have found: "find (\<lambda>u. u_id u = i) (users d) = Some u"
    using assms(2) by (simp add: findUserById_def)
  show ?mirrors
  proof (cases "u_emailVerifiedAt u = None")
    case True
    then show ?thesis
      using mirrors_user_entry [OF assms(1), of "\<lambda>u. u\<lparr>u_emailVerifiedAt := Some now\<rparr>" i]
        update_found [OF unique found, where P = "\<lambda>u. u_emailVerifiedAt u = None"]
      by simp
  next
    case False
    have "update_where (\<lambda>u. u_id u = i \<and> u_emailVerifiedAt u = None)
        (\<lambda>u. u\<lparr>u_emailVerifiedAt := Some now\<rparr>) (users d) = users d"
      using count_found [OF unique, of i "\<lambda>u. u_emailVerifiedAt u = None"] found False
      by (intro update_where_none) (auto simp: count_where_0_iff)
    with False assms(1) show ?thesis by auto
  qed
  show "\<exists>v. findUserById i (d\<lparr>users := update_where (\<lambda>u. u_id u = i \<and> u_emailVerifiedAt u = None)
           (\<lambda>u. u\<lparr>u_emailVerifiedAt := Some now\<rparr>) (users d)\<rparr>) = Some (u\<lparr>u_emailVerifiedAt := v\<rparr>)"
    using found assms(3)
    by (intro exI [of _ "if u_emailVerifiedAt u = None then Some now else u_emailVerifiedAt u"])
      (simp add: findUserById_def find_update_where)
qed

lemma verify_alike:
  assumes "auth_mirrors f d" and "call_ok (Call_verify now h audit) d"
  shows "alike (Call_verify now h audit) f d"
proof (cases "find (usable_token now h) (emailTokens d)")
  case None
  with assms(1) show ?thesis
    by (simp add: alike_def fake_consumeEmailVerificationToken_def consumeEmailVerificationToken_def
        transaction_def auth_mirrorsD)
next
  case (Some token)
  have tokens: "tokens_ok (emailTokens d) (users d)"
    using assms(1) by (simp add: auth_mirrors_def outbox_mirrors_def)
  then obtain u where u: "findUserById (t_userId token) d = Some u" "u_id u = t_userId token"
    using token_user_found [OF _ Some] by blast
  let ?i = "t_userId token"
  let ?ts = "use_token now h (emailTokens d)"
  let ?us = "update_where (\<lambda>u. u_id u = ?i \<and> u_emailVerifiedAt u = None)
     (\<lambda>u. u\<lparr>u_emailVerifiedAt := Some now\<rparr>) (users d)"
  let ?fus = "if u_emailVerifiedAt u = None
     then AList.map_entry ?i (\<lambda>u. u\<lparr>u_emailVerifiedAt := Some now\<rparr>) (fa_users f) else fa_users f"
  let ?f1 = "f\<lparr>fa_outbox := (fa_outbox f)\<lparr>fo_emailTokens := ?ts\<rparr>\<rparr>"
  have "tokens_ok ?ts (users d)"
    using tokens by (simp add: use_token_def tokens_ok_update)
  then have f1: "auth_mirrors ?f1 (d\<lparr>emailTokens := ?ts\<rparr>)"
    using assms(1) by (rule mirrors_tokens [rotated])
  have u1: "findUserById ?i (d\<lparr>emailTokens := ?ts\<rparr>) = Some u"
    using u(1) by (simp add: findUserById_def)
  have f2: "auth_mirrors (?f1\<lparr>fa_users := ?fus\<rparr>) (d\<lparr>emailTokens := ?ts, users := ?us\<rparr>)"
    using verified_mirrored(1) [OF f1 u1 u(2), of now] by (cases "u_emailVerifiedAt u") simp_all
  obtain v where v: "findUserById ?i (d\<lparr>emailTokens := ?ts, users := ?us\<rparr>) = Some (u\<lparr>u_emailVerifiedAt := v\<rparr>)"
    using verified_mirrored(2) [OF f1 u1 u(2), of now] by auto
  have fake: "fake_consumeEmailVerificationToken (\<lambda>_. None) now h audit f =
    (Inr (Some ?i), (case audit of None \<Rightarrow> f | Some build \<Rightarrow> push_audit now (build u) f)
       \<lparr>fa_outbox := (fa_outbox f)\<lparr>fo_emailTokens := ?ts\<rparr>, fa_users := ?fus\<rparr>)"
    using Some u(1)
    by (auto simp: fake_consumeEmailVerificationToken_def auth_mirrorsD [OF assms(1)] Let_def bindE_def
        use_token_first [OF tokens] push_audit_def split: option.splits)
  have real: "consumeEmailVerificationToken now h audit d =
    (Inr (Some ?i), case audit of None \<Rightarrow> d\<lparr>emailTokens := ?ts, users := ?us\<rparr>
       | Some build \<Rightarrow> insert_audit (build u) now (d\<lparr>emailTokens := ?ts, users := ?us\<rparr>))"
    using Some v assms(2)
    by (auto simp: consumeEmailVerificationToken_def transaction_def Let_def split: option.splits)
  have alike: "alike (Call_verify now h audit) f d \<longleftrightarrow> auth_mirrors
      ((case audit of None \<Rightarrow> f | Some build \<Rightarrow> push_audit now (build u) f)
        \<lparr>fa_outbox := (fa_outbox f)\<lparr>fo_emailTokens := ?ts\<rparr>, fa_users := ?fus\<rparr>)
      (case audit of None \<Rightarrow> d\<lparr>emailTokens := ?ts, users := ?us\<rparr>
       | Some build \<Rightarrow> insert_audit (build u) now (d\<lparr>emailTokens := ?ts, users := ?us\<rparr>))"
    by (simp add: alike_def fake real)
  show ?thesis
  proof (cases audit)
    case None
    with f2 show ?thesis unfolding alike by simp
  next
    case (Some build)
    with mirrors_push_audit [OF f2, of now "build u"] show ?thesis
      unfolding alike by (simp only: option.case push_audit_commute)
  qed
qed

lemma reset_alike:
  assumes "auth_mirrors f d"
  shows "alike (Call_reset now oid input) f d"
proof (cases "find (usable_token now (rp_tokenHash input)) (resetTokens d)")
  case None
  with assms show ?thesis
    by (simp add: alike_def fake_resetPassword_def resetPassword_def transaction_def auth_mirrorsD)
next
  case (Some token)
  have tokens: "tokens_ok (resetTokens d) (users d)"
    using assms by (simp add: auth_mirrors_def outbox_mirrors_def)
  then obtain u where u: "findUserById (t_userId token) d = Some u" "u_id u = t_userId token"
    using token_user_found [OF _ Some] by blast
  let ?i = "t_userId token" and ?h = "rp_tokenHash input" and ?p = "rp_passwordHash input"
  let ?used = "\<lambda>t. t\<lparr>t_usedAt := Some now\<rparr>"
  let ?ts = "update_where (\<lambda>t. t_userId t = ?i \<and> t_usedAt t = None) ?used (resetTokens d)"
  have token_in: "token \<in> set (resetTokens d)" "t_tokenHash token = ?h"
    using find_SomeD [OF Some] by (auto simp: usable_token_def)
  have "t = token" if "t \<in> set (resetTokens d)" "usable_token now ?h t" for t
    using that token_in unique_key [of t_tokenHash "resetTokens d" t token] tokens
    by (auto simp: tokens_ok_def usable_token_def)
  then have ts: "update_where (\<lambda>t. t_userId t = ?i \<and> t_usedAt t = None) ?used (use_token now ?h (resetTokens d)) = ?ts"
    by (auto simp: use_token_def update_where_def usable_token_def)
  let ?f1 = "f\<lparr>fa_outbox := (fa_outbox f)\<lparr>fo_resetTokens := ?ts\<rparr>\<rparr>"
  let ?us = "update_where (\<lambda>r. u_id r = ?i) (\<lambda>r. r\<lparr>u_passwordHash := ?p\<rparr>) (users d)"
  let ?f2 = "?f1\<lparr>fa_users := AList.map_entry ?i (\<lambda>r. r\<lparr>u_passwordHash := ?p\<rparr>) (fa_users f)\<rparr>"
  have "auth_mirrors ?f1 (d\<lparr>resetTokens := ?ts\<rparr>)"
    using assms tokens by (intro mirrors_tokens) (simp_all add: tokens_ok_update)
  then have "auth_mirrors ?f2 (d\<lparr>resetTokens := ?ts, users := ?us\<rparr>)"
    using mirrors_user_entry [of ?f1 "d\<lparr>resetTokens := ?ts\<rparr>" "\<lambda>r. r\<lparr>u_passwordHash := ?p\<rparr>" ?i] by simp
  from revokeAll_mirrored [OF this, of now ?i PASSWORD_RESET None] obtain n f3 d3 where f3:
    "fake_revokeAllOwnSessions (\<lambda>_. None) now now ?i PASSWORD_RESET None ?f2 = (Inr n, f3)"
    "revokeAllOwnSessions now ?i PASSWORD_RESET None (d\<lparr>resetTokens := ?ts, users := ?us\<rparr>) = (n, d3)"
    "auth_mirrors f3 d3" by blast
  have d3: "d3 = d\<lparr>resetTokens := ?ts, users := ?us, sessions := update_where
      (\<lambda>s. s_userId s = ?i \<and> s_revokedAt s = None) (revoked now PASSWORD_RESET) (sessions d)\<rparr>"
    using f3(2) by (auto simp: revokeAllOwnSessions_def revoke_where_def Let_def insert_audit_opt_def split: if_splits)
  have fake: "fake_resetPassword (\<lambda>_. None) now now oid input f =
    (Inr (Some (u\<lparr>u_passwordHash := ?p\<rparr>)), push_audit now (rp_audit input (u\<lparr>u_passwordHash := ?p\<rparr>))
       (enqueue_email oid now Kind_PASSWORD_RESET_COMPLETED ?i f3))"
    using Some u f3(1)
    by (simp add: fake_resetPassword_def auth_mirrorsD [OF assms] Let_def)
  have real: "resetPassword now oid input d =
    (Inr (Some (u\<lparr>u_passwordHash := ?p\<rparr>)), insert_audit (rp_audit input (u\<lparr>u_passwordHash := ?p\<rparr>)) now
       (insert_outbox oid Kind_PASSWORD_RESET_COMPLETED ?i now d3))"
    using Some u ts
    by (simp add: resetPassword_def transaction_def Let_def findUserById_def d3)
      (simp add: insert_audit_def insert_outbox_def)
  show ?thesis
    using f3(3) by (simp add: alike_def fake real mirrors_push_audit mirrors_enqueue)
qed

section \<open>Attempts, audit and emails\<close>

lemma email_events_alike:
  assumes "auth_mirrors f d"
  shows "fake_email_events act h now window f = email_events act h now window d"
proof -
  have "map snd (filter (\<lambda>(e, t). Q e t) (zip (map a_entry rows) (map a_occurredAt rows)))
      = map a_occurredAt (filter (\<lambda>r. Q (a_entry r) (a_occurredAt r)) rows)" for Q rows
    by (induction rows) auto
  with assms show ?thesis
    by (simp add: fake_email_events_def email_events_def auth_mirrors_def)
qed

lemma lookup_alike:
  "auth_mirrors f d \<Longrightarrow> fake_findUserByEmail email f = findUserByEmail email d"
  by (simp only: fake_findUserByEmail_def findUserByEmail_def auth_mirrorsD)

lemma locked_attempt_available:
  assumes "body d = (r, d')" and "available (r, ())"
  shows "locked_attempt None body d = (case r of Inl e \<Rightarrow> (Inl e, d) | Inr x \<Rightarrow> (Inr x, d'))"
  using assms by (simp add: locked_attempt_def catchE_def transaction_def available_def split: sum.splits)

lemma login_alike:
  assumes "auth_mirrors f d" and "call_ok (Call_login now h window attempt) d"
  shows "alike (Call_login now h window attempt) f d"
proof -
  let ?scope = "scope_of (email_events ''auth.login.failed'' h now window d) now"
  obtain r es where res: "attempt ?scope (\<lambda>email. findUserByEmail email d) = (r, es)" by fastforce
  have "available (attempt ?scope (\<lambda>email. findUserByEmail email d))" using assms(2) by simp
  then have ok: "available (r, ())" by (simp add: available_def res)
  have "scope_now ?scope = now" by (simp add: scope_of_def)
  then have body: "login_tx attempt ?scope d = (r, fold (\<lambda>e. insert_audit e now) es d)"
    by (simp add: login_tx_def res)
  have "runLoginAttempt None now h window (login_tx attempt) d
      = locked_attempt None (login_tx attempt ?scope) d"
    by (simp add: runLoginAttempt_def locked_attempt_def catchE_def transaction_def Let_def scope_of_def)
  note real = this [unfolded locked_attempt_available [where body = "login_tx attempt ?scope" and d = d, OF body ok]]
  show ?thesis
    using assms(1) mirrors_push_audits [OF assms(1), of now es]
    by (cases r) (simp_all add: alike_def fake_runLoginAttempt_def email_events_alike [OF assms(1)]
        lookup_alike [OF assms(1)] res real)
qed

lemma recovery_alike:
  assumes "auth_mirrors f d" and "call_ok (Call_recovery ids now h window attempt) d"
  shows "alike (Call_recovery ids now h window attempt) f d"
proof -
  let ?scope = "scope_of (email_events ''auth.password.reset_requested'' h now window d) now"
  obtain r es us where res: "attempt ?scope (\<lambda>email. findUserByEmail email d) = (r, es, us)"
    using prod_cases3 by blast
  have "available (attempt ?scope (\<lambda>email. findUserByEmail email d))" using assms(2) by simp
  then have ok: "available (r, ())" by (simp add: available_def res)
  have "scope_now ?scope = now" by (simp add: scope_of_def)
  then have body: "recovery_tx ids attempt ?scope d = (r, insert_emails ids now Kind_PASSWORD_RESET us 0
      (fold (\<lambda>e. insert_audit e now) es d))"
    by (simp add: recovery_tx_def res)
  have "runPasswordResetRequest None now h window (recovery_tx ids attempt) d
      = locked_attempt None (recovery_tx ids attempt ?scope) d"
    by (simp add: runPasswordResetRequest_def locked_attempt_def catchE_def transaction_def Let_def scope_of_def)
  note real = this [unfolded locked_attempt_available [where body = "recovery_tx ids attempt ?scope" and d = d, OF body ok]]
  show ?thesis
    using assms(1) mirrors_enqueue_all [OF mirrors_push_audits [OF assms(1), of now es]]
    by (cases r) (simp_all add: alike_def fake_runPasswordResetRequest_def email_events_alike [OF assms(1)]
        lookup_alike [OF assms(1)] res real)
qed

lemma resend_alike:
  assumes "auth_mirrors f d" and "call_ok (Call_resend ids now u window attempt) d"
  shows "alike (Call_resend ids now u window attempt) f d"
proof -
  let ?ts = "map o_createdAt (filter (\<lambda>e. o_userId e = u \<and> o_kind e = Kind_EMAIL_VERIFICATION \<and>
      now - window < o_createdAt e) (outbox d))"
  let ?scope = "scope_of ?ts now"
  obtain r n where res: "attempt ?scope = (r, n)" by fastforce
  have "available (attempt ?scope)" using assms(2) by simp
  then have ok: "available (r, ())" by (simp add: available_def res)
  have "scope_now ?scope = now" by (simp add: scope_of_def)
  then have body: "resend_tx ids u attempt ?scope d
      = (r, insert_emails ids now Kind_EMAIL_VERIFICATION (replicate n u) 0 d)"
    by (simp add: resend_tx_def res)
  have "runEmailVerificationResend None now u window (resend_tx ids u attempt) d
      = locked_attempt None (resend_tx ids u attempt ?scope) d"
    by (simp add: runEmailVerificationResend_def locked_attempt_def catchE_def transaction_def Let_def scope_of_def)
  note real = this [unfolded locked_attempt_available [where body = "resend_tx ids u attempt ?scope" and d = d, OF body ok]]
  show ?thesis
    using assms(1) mirrors_enqueue_all [OF assms(1)]
    by (cases r) (simp_all add: alike_def fake_runEmailVerificationResend_def auth_mirrorsD(5) [OF assms(1)]
        res real Let_def)
qed

lemma audit_alike: "auth_mirrors f d \<Longrightarrow> alike (Call_audit t e) f d"
  by (simp add: alike_def fake_writeAuditLog_def recordAudit_def writeAuditLog_def mirrors_push_audit)

lemma dispatch_alike:
  assumes "auth_mirrors f d" and "call_ok (Call_dispatch now exclude handle) d"
  shows "alike (Call_dispatch now exclude handle) f d"
proof -
  have lookup: "(\<lambda>u. map_option u_email (map_of (fa_users f) u)) = (\<lambda>u. findUserEmail u d)"
    by (simp add: fun_eq_iff findUserEmail_def auth_mirrorsD [OF assms(1)])
  have "outbox_mirrors (fa_outbox f) d" "dispatch_fresh now exclude handle d"
    using assms by (simp_all add: auth_mirrors_def)
  from dispatch_mirrored [OF this lookup] show ?thesis
    using assms(1) by (auto simp: alike_def fake_dispatch_def answered_def auth_mirrors_def)
qed

section \<open>The contract\<close>

lemma call_alike:
  assumes "auth_mirrors f d" and "call_ok c d"
  shows "alike c f d"
  using assms
  by (cases c) (blast intro: register_alike createUser_alike verify_alike reset_alike find_alike
      createSession_alike touch_alike revoke_alike revokeAll_alike rotate_alike login_alike
      recovery_alike resend_alike audit_alike dispatch_alike)+

interpretation auth: repository_double auth_mirrors call_ok "fake_call (\<lambda>_. None)" real_call
  using call_alike by unfold_locales (auto simp: alike_def)

lemma new_auth_double_mirrors: "auth_mirrors new_auth_double empty_db"
  by (simp add: auth_mirrors_def new_auth_double_def empty_db_def outbox_mirrors_def tokens_ok_def)

lemma call_ok_fun: "call_ok = (\<lambda>c d. steady_call c \<and> fresh_call c d)"
  by (simp add: fun_eq_iff)

text \<open>
  C19. The in-memory account repository answers, call by call, exactly what the repository over
  PostgreSQL answers, and ends with the same users, sessions, tokens, emails and audit, for every
  sequence of calls from empty ones whose identifiers and token hashes are new when they are drawn.
\<close>

theorem account_double_alike:
  assumes "\<forall>c \<in> set calls. steady_call c" and "calls_ok fresh_call real_call calls empty_db"
  shows "fst (run_calls (fake_call (\<lambda>_. None)) calls new_auth_double) = fst (run_calls real_call calls empty_db) \<and>
    auth_mirrors (snd (run_calls (fake_call (\<lambda>_. None)) calls new_auth_double))
      (snd (run_calls real_call calls empty_db))"
  by (rule auth.same_run [OF new_auth_double_mirrors]) (simp add: call_ok_fun calls_ok_conj assms del: call_ok_def)

definition sample_calls :: "nat auth_call list" where
  "sample_calls =
    [Call_register ''u1'' ''o1'' 10 \<lparr>cu_email = ''a@b.co'', cu_passwordHash = ''p'', cu_fullName = ''Ana''\<rparr>,
     Call_dispatch 20 [] (\<lambda>row now lookup. (Inr (), [Replace_email_token (o_userId row) ''h'' (now + 100)])),
     Call_verify 30 ''h'' None,
     Call_createSession ''s1'' \<lparr>cs_userId = ''u1'', cs_createdAt = 40, cs_tokenHash = ''t'', cs_csrfTokenHash = ''c'',
       cs_lastSeenAt = 40, cs_idleExpiresAt = 90, cs_absoluteExpiresAt = 99, cs_ip = None, cs_userAgent = None\<rparr>,
     Call_touch ''s1'' 50 95,
     Call_login 55 ''e'' 900 (\<lambda>scope lookup. (Inr (recentEvents scope), [])),
     Call_revokeOwn 60 ''s1'' ''u1'' 60 LOGOUT None,
     Call_listActive ''u1'' 70]"

lemma sample_calls_ok: "\<forall>c \<in> set sample_calls. steady_call c"
  "calls_ok fresh_call real_call sample_calls empty_db"
  by (simp add: sample_calls_def available_def) code_simp

lemma sample_calls_answers:
  "last (fst (run_calls real_call sample_calls empty_db)) = Got_sessions []"
  by code_simp

theorem account_double_alike_witness:
  "calls_ok fresh_call real_call sample_calls empty_db \<and>
   fst (run_calls (fake_call (\<lambda>_. None)) sample_calls new_auth_double)
     = fst (run_calls real_call sample_calls empty_db) \<and>
   last (fst (run_calls (fake_call (\<lambda>_. None)) sample_calls new_auth_double)) = Got_sessions []"
  using account_double_alike [OF sample_calls_ok] sample_calls_ok sample_calls_answers by simp

section \<open>Failures of the double\<close>

text \<open>
  A call of the double that throws, because a test makes the audit write fail or because the
  call itself does, leaves the double as it was.
\<close>

theorem double_failure_changes_nothing:
  assumes "fst (fake_call fails c f) = Threw e"
  shows "snd (fake_call fails c f) = f"
  using assms
  by (cases c)
    (auto simp: answered_def fake_createUserWithEmailVerification_def fake_createUser_def bindE_def Let_def
      fake_consumeEmailVerificationToken_def recordAudit_opt_def recordAudit_def fake_resetPassword_def
      fake_createSession_def fake_touchSession_def fake_rotateSessionCsrf_def fake_revokeSession_def
      fake_revokeOwnSession_def fake_revokeAllOwnSessions_def fake_rotateSession_def fake_runLoginAttempt_def
      fake_runPasswordResetRequest_def fake_runEmailVerificationResend_def fake_writeAuditLog_def fake_dispatch_def
      dest!: fake_dispatchNext_abort split: option.splits sum.splits prod.splits if_splits)

definition sample_double :: auth_double where
  "sample_double = new_auth_double\<lparr>fa_sessions := [(''s1'', session_of_input ''s1''
     \<lparr>cs_userId = ''u1'', cs_createdAt = 40, cs_tokenHash = ''t'', cs_csrfTokenHash = ''c'', cs_lastSeenAt = 40,
      cs_idleExpiresAt = 90, cs_absoluteExpiresAt = 99, cs_ip = None, cs_userAgent = None\<rparr>)]\<rparr>"

definition sample_revocation :: "nat auth_call" where
  "sample_revocation = Call_revoke 50 ''s1'' LOGOUT (Some (system_entry ''auth.logout'' ''s1'' ''c1'' []))"

lemma sample_revocation_throws:
  "fst (fake_call (\<lambda>_. Some (Error ''audit'')) sample_revocation sample_double) = Threw (Error ''audit'')"
  by (simp add: sample_revocation_def sample_double_def fake_revokeSession_def recordAudit_opt_def
      recordAudit_def bindE_def session_of_input_def)

theorem double_failure_changes_nothing_witness:
  "fst (fake_call (\<lambda>_. Some (Error ''audit'')) sample_revocation sample_double) = Threw (Error ''audit'') \<and>
   snd (fake_call (\<lambda>_. Some (Error ''audit'')) sample_revocation sample_double) = sample_double"
  using double_failure_changes_nothing [OF sample_revocation_throws] sample_revocation_throws by simp

text \<open>The events of a reset and of an attempt do not go through the test's \<open>recordAudit\<close>.\<close>

lemma hook_not_consulted:
  "fake_call fails (Call_reset t oid input) f = fake_call fails' (Call_reset t oid input) f"
  "fake_call fails (Call_login t h window attempt) f = fake_call fails' (Call_login t h window attempt) f"
  "fake_call fails (Call_recovery ids t h window attempt2) f = fake_call fails' (Call_recovery ids t h window attempt2) f"
  by (simp_all add: fake_resetPassword_def fake_revokeAllOwnSessions_def recordAudit_opt_def cong: option.case_cong)

text \<open>Outside the conditions the two differ: a session that does not exist is an error of the repository only.\<close>

lemma touch_of_missing_session:
  "fst (fake_call fails (Call_touch i seen idle) new_auth_double) = Got_unit"
  "fst (real_call (Call_touch i seen idle) empty_db) = Threw P2025"
  by (simp_all add: fake_touchSession_def new_auth_double_def touchSession_def empty_db_def)

end
