(* ===== verification/Case_Doubles.thy ===== *)
theory Case_Doubles
  imports Doubles Documents "HOL-Library.Multiset"
begin

text \<open>
  \<open>FakeCasesRepository\<close> (apps/api/src/modules/cases/cases.repository.fake.ts) and
  \<open>FakeDocumentsRepository\<close> (apps/api/src/modules/documents/documents.repository.fake.ts), which
  reads the cases of the first. One definition per method; \<open>fails\<close> is the \<open>recordAudit\<close> of a test.
  At the end, both against the repositories over PostgreSQL.
\<close>

section \<open>Cases\<close>

record stored_change =
  fh_caseId :: uuid
  fh_fromStatus :: "case_status option"
  fh_toStatus :: case_status
  fh_changedByUserId :: uuid
  fh_changedAt :: time

record cases_double =
  fc_cases :: "(uuid \<times> case_row) list"
  fc_history :: "stored_change list"
  fc_auditLog :: "audit_entry list"

type_synonym status_change = "case_status option \<times> case_status \<times> uuid \<times> time"

definition fc_recordAudit ::
  "(audit_entry \<Rightarrow> exn option) \<Rightarrow> audit_entry \<Rightarrow> (cases_double, exn, unit) prog" where
  "fc_recordAudit fails e = (\<lambda>f. case fails e of
     Some x \<Rightarrow> (Inl x, f) | None \<Rightarrow> (Inr (), f\<lparr>fc_auditLog := fc_auditLog f @ [e]\<rparr>))"

definition fake_createCase ::
  "(audit_entry \<Rightarrow> exn option) \<Rightarrow> uuid \<Rightarrow> time \<Rightarrow> create_case_input \<Rightarrow> (cases_double, exn, case_row) prog" where
  "fake_createCase fails newId now input =
    (let created = \<lparr>c_id = newId, c_userId = cc_userId input, c_type = cc_type input,
           c_status = DRAFT, c_createdAt = now, c_updatedAt = now\<rparr>
     in bindE (fc_recordAudit fails ((cc_audit input created)\<lparr>caseId := Some (c_id created)\<rparr>))
          (\<lambda>_ f. (Inr created,
             f\<lparr>fc_cases := AList.update (c_id created) created (fc_cases f),
               fc_history := fc_history f @
                 [\<lparr>fh_caseId = c_id created, fh_fromStatus = None, fh_toStatus = DRAFT,
                   fh_changedByUserId = cc_userId input, fh_changedAt = now\<rparr>]\<rparr>)))"

definition fake_listOwnCases :: "uuid \<Rightarrow> cases_double \<Rightarrow> case_row list" where
  "fake_listOwnCases userId f = rev (sort_key (\<lambda>c. (c_createdAt c, c_id c))
     (filter (\<lambda>c. c_userId c = userId) (map snd (fc_cases f))))"

definition fake_findOwnCase :: "uuid \<Rightarrow> uuid \<Rightarrow> cases_double \<Rightarrow> (case_row \<times> status_change list) option" where
  "fake_findOwnCase case_id userId f =
    (case map_of (fc_cases f) case_id of
       None \<Rightarrow> None
     | Some c \<Rightarrow>
         if c_userId c \<noteq> userId then None
         else Some (c, map (\<lambda>h. (fh_fromStatus h, fh_toStatus h, fh_changedByUserId h, fh_changedAt h))
                (filter (\<lambda>h. fh_caseId h = case_id) (fc_history f))))"

section \<open>Documents\<close>

record documents_double =
  fd_cases :: cases_double
  fd_documents :: "(uuid \<times> document_row) list"
  fd_auditLog :: "audit_entry list"
  fd_enqueuedScans :: "uuid list"
  fd_enqueuedReprocesses :: "uuid list"
  fd_enqueuedOcrReprocesses :: "uuid list"
  fd_ocrExecutions :: "(uuid \<times> (ocr_outcome \<times> js_text list) list) list"

type_synonym 'a fake_documents = "(documents_double, exn, 'a) prog"

definition fd_recordAudit :: "(audit_entry \<Rightarrow> exn option) \<Rightarrow> audit_entry \<Rightarrow> unit fake_documents" where
  "fd_recordAudit fails e = (\<lambda>f. case fails e of
     Some x \<Rightarrow> (Inl x, f) | None \<Rightarrow> (Inr (), f\<lparr>fd_auditLog := fd_auditLog f @ [e]\<rparr>))"

text \<open>\<open>this.cases.cases.get(caseId)?.userId === userId\<close>.\<close>

definition fd_owns :: "documents_double \<Rightarrow> uuid \<Rightarrow> uuid \<Rightarrow> bool" where
  "fd_owns f userId case_id =
    (case map_of (fc_cases (fd_cases f)) case_id of None \<Rightarrow> False | Some c \<Rightarrow> c_userId c = userId)"

fun fd_sum :: "(document_row \<Rightarrow> bool) \<Rightarrow> int \<Rightarrow> document_row list \<Rightarrow> int" where
  "fd_sum P used [] = used"
| "fd_sum P used (r # rows) = fd_sum P (if P r then used + d_fileSize r else used) rows"

definition fake_usedBytes :: "uuid \<Rightarrow> documents_double \<Rightarrow> int" where
  "fake_usedBytes userId f = fd_sum (\<lambda>r. fd_owns f userId (d_caseId r)) 0 (map snd (fd_documents f))"

definition fake_createDocument ::
  "(audit_entry \<Rightarrow> exn option) \<Rightarrow> time \<Rightarrow> create_document_input \<Rightarrow> create_document_result fake_documents" where
  "fake_createDocument fails now input = (\<lambda>f.
     if (case map_of (fc_cases (fd_cases f)) (cd_caseId input) of
           None \<Rightarrow> True | Some c \<Rightarrow> c_userId c \<noteq> cd_userId input \<or> c_status c \<noteq> DRAFT)
     then (Inr Case_not_writable, f)
     else if cd_quotaBytes input < fake_usedBytes (cd_userId input) f + cd_fileSize input
     then (Inr Quota_exceeded, f)
     else
       let created = new_document input now
       in bindE (fd_recordAudit fails ((cd_audit input created)\<lparr>caseId := Some (cd_caseId input)\<rparr>))
            (\<lambda>_ f. (Inr (Created created),
               f\<lparr>fd_documents := AList.update (d_id created) created (fd_documents f),
                 fd_enqueuedScans := fd_enqueuedScans f @ [d_id created]\<rparr>)) f)"

definition fake_listOwnCaseDocuments :: "uuid \<Rightarrow> uuid \<Rightarrow> documents_double \<Rightarrow> document_row list" where
  "fake_listOwnCaseDocuments case_id userId f =
    (if \<not> fd_owns f userId case_id then []
     else rev (sort_key (\<lambda>r. (d_createdAt r, d_id r))
            (filter (\<lambda>r. d_caseId r = case_id) (map snd (fd_documents f)))))"

definition fake_findOwnDocument :: "uuid \<Rightarrow> uuid \<Rightarrow> uuid \<Rightarrow> documents_double \<Rightarrow> document_row option" where
  "fake_findOwnDocument documentId case_id userId f =
    (case map_of (fd_documents f) documentId of
       None \<Rightarrow> None
     | Some r \<Rightarrow> if d_caseId r \<noteq> case_id then None else if \<not> fd_owns f userId case_id then None else Some r)"

definition fake_findOwnDocumentOcr :: "uuid \<Rightarrow> uuid \<Rightarrow> uuid \<Rightarrow> documents_double \<Rightarrow> document_ocr_read option" where
  "fake_findOwnDocumentOcr documentId case_id userId f =
    (case fake_findOwnDocument documentId case_id userId f of
       None \<Rightarrow> None
     | Some r \<Rightarrow>
         if d_ocrStatus r \<noteq> COMPLETED then Some \<lparr>or_ocrStatus = d_ocrStatus r, or_pages = []\<rparr>
         else
           let done' = filter (\<lambda>x. fst x = Outcome_COMPLETED)
                 (case map_of (fd_ocrExecutions f) documentId of None \<Rightarrow> [] | Some xs \<Rightarrow> xs);
               pages = (if done' = [] then [] else snd (last done'))
           in Some \<lparr>or_ocrStatus = COMPLETED,
                or_pages = map (\<lambda>(i, t). (int i + 1, t)) (enumerate 0 pages)\<rparr>)"

definition fake_findDocumentForAdministration :: "uuid \<Rightarrow> documents_double \<Rightarrow> document_row option" where
  "fake_findDocumentForAdministration documentId f = map_of (fd_documents f) documentId"

definition fake_requestReprocess ::
  "(audit_entry \<Rightarrow> exn option) \<Rightarrow> request_reprocess_input \<Rightarrow> unit fake_documents" where
  "fake_requestReprocess fails input =
     bindE (fd_recordAudit fails ((rr_audit input)\<lparr>caseId := Some (rr_caseId input)\<rparr>))
       (\<lambda>_ f. (Inr (), f\<lparr>fd_enqueuedReprocesses := fd_enqueuedReprocesses f @ [rr_documentId input]\<rparr>))"

definition fake_requestOcrReprocess ::
  "(audit_entry \<Rightarrow> exn option) \<Rightarrow> request_reprocess_input \<Rightarrow> unit fake_documents" where
  "fake_requestOcrReprocess fails input =
     bindE (fd_recordAudit fails ((rr_audit input)\<lparr>caseId := Some (rr_caseId input)\<rparr>))
       (\<lambda>_ f. (Inr (), f\<lparr>fd_enqueuedOcrReprocesses := fd_enqueuedOcrReprocesses f @ [rr_documentId input]\<rparr>))"

section \<open>Calls\<close>

datatype file_call =
    File_createCase uuid uuid time create_case_input
  | File_listCases uuid
  | File_findCase uuid uuid
  | File_createDocument time create_document_input
  | File_usedBytes uuid
  | File_listDocuments uuid uuid
  | File_findDocument uuid uuid uuid
  | File_findOcr uuid uuid uuid
  | File_administration uuid
  | File_reprocess time request_reprocess_input
  | File_ocrReprocess time request_reprocess_input

datatype file_answer =
    A_case case_row | A_cases "case_row list" | A_history "(case_row \<times> status_change list) option"
  | A_created create_document_result | A_bytes int | A_documents "document_row list"
  | A_document "document_row option" | A_ocr "document_ocr_read option" | A_unit | A_threw exn

definition file_answered :: "('x \<Rightarrow> file_answer) \<Rightarrow> (exn + 'x) \<times> 's \<Rightarrow> file_answer \<times> 's" where
  "file_answered k = (\<lambda>(r, s). (case r of Inl e \<Rightarrow> A_threw e | Inr x \<Rightarrow> k x, s))"

lemma file_answered_simps [simp]:
  "file_answered k (Inl e, s) = (A_threw e, s)" "file_answered k (Inr x, s) = (k x, s)"
  by (simp_all add: file_answered_def)

definition in_cases :: "(cases_double, exn, 'a) prog \<Rightarrow> 'a fake_documents" where
  "in_cases m = (\<lambda>f. case m (fd_cases f) of (r, c) \<Rightarrow> (r, f\<lparr>fd_cases := c\<rparr>))"

fun fake_file :: "(audit_entry \<Rightarrow> exn option) \<Rightarrow> file_call \<Rightarrow> documents_double \<Rightarrow> file_answer \<times> documents_double" where
  "fake_file fails (File_createCase i hid t input) f =
     file_answered A_case (in_cases (fake_createCase fails i t input) f)"
| "fake_file fails (File_listCases u) f = (A_cases (fake_listOwnCases u (fd_cases f)), f)"
| "fake_file fails (File_findCase i u) f = (A_history (fake_findOwnCase i u (fd_cases f)), f)"
| "fake_file fails (File_createDocument t input) f = file_answered A_created (fake_createDocument fails t input f)"
| "fake_file fails (File_usedBytes u) f = (A_bytes (fake_usedBytes u f), f)"
| "fake_file fails (File_listDocuments c u) f = (A_documents (fake_listOwnCaseDocuments c u f), f)"
| "fake_file fails (File_findDocument i c u) f = (A_document (fake_findOwnDocument i c u f), f)"
| "fake_file fails (File_findOcr i c u) f = (A_ocr (fake_findOwnDocumentOcr i c u f), f)"
| "fake_file fails (File_administration i) f = (A_document (fake_findDocumentForAdministration i f), f)"
| "fake_file fails (File_reprocess t input) f = file_answered (\<lambda>_. A_unit) (fake_requestReprocess fails input f)"
| "fake_file fails (File_ocrReprocess t input) f = file_answered (\<lambda>_. A_unit) (fake_requestOcrReprocess fails input f)"

definition change_of :: "status_change_row \<Rightarrow> status_change" where
  "change_of h = (h_fromStatus h, h_toStatus h, h_changedByUserId h, h_changedAt h)"

fun real_file :: "file_call \<Rightarrow> db \<Rightarrow> file_answer \<times> db" where
  "real_file (File_createCase i hid t input) d = file_answered A_case (createCase_repo i hid t input d)"
| "real_file (File_listCases u) d = (A_cases (listOwnCases_repo u d), d)"
| "real_file (File_findCase i u) d =
     (A_history (map_option (\<lambda>(c, hs). (c, map change_of hs)) (findOwnCase i u d)), d)"
| "real_file (File_createDocument t input) d = file_answered A_created (createDocument True t input d)"
| "real_file (File_usedBytes u) d = (A_bytes (usedBytes u d), d)"
| "real_file (File_listDocuments c u) d = (A_documents (listOwnCaseDocuments c u d), d)"
| "real_file (File_findDocument i c u) d = (A_document (findOwnDocument i c u d), d)"
| "real_file (File_findOcr i c u) d = (case findOwnDocumentOcr (\<lambda>d. d) i c u d of (r, d) \<Rightarrow> (A_ocr r, d))"
| "real_file (File_administration i) d = (A_document (findDocumentForAdministration i d), d)"
| "real_file (File_reprocess t input) d = file_answered (\<lambda>_. A_unit) (requestReprocess_repo True t input d)"
| "real_file (File_ocrReprocess t input) d = file_answered (\<lambda>_. A_unit) (requestOcrReprocess_repo True t input d)"

section \<open>Where the doubles answer alike\<close>

fun file_ok :: "file_call \<Rightarrow> db \<Rightarrow> bool" where
  "file_ok (File_createCase i hid t input) d = (i \<notin> c_id ` set (cases d) \<and> i \<notin> h_caseId ` set (caseHistory d))"
| "file_ok (File_createDocument t input) d = (cd_id input \<notin> d_id ` set (documents d) \<and>
     cd_storageKey input \<notin> d_storageKey ` set (documents d))"
| "file_ok _ d = True"

definition stored_of :: "status_change_row \<Rightarrow> stored_change" where
  "stored_of h = \<lparr>fh_caseId = h_caseId h, fh_fromStatus = h_fromStatus h, fh_toStatus = h_toStatus h,
     fh_changedByUserId = h_changedByUserId h, fh_changedAt = h_changedAt h\<rparr>"

definition queued :: "queue \<Rightarrow> db \<Rightarrow> uuid list" where
  "queued q d = map j_documentId (filter (\<lambda>j. j_queue j = q) (jobs d))"

text \<open>
  The executions of the OCR, which the tests put in the double as the worker records them: oldest
  first, their pages numbered from one.
\<close>

definition executions_mirror :: "(uuid \<times> (ocr_outcome \<times> js_text list) list) list \<Rightarrow> db \<Rightarrow> bool" where
  "executions_mirror m d \<longleftrightarrow> sorted (map (\<lambda>r. (r_finishedAt r, r_id r)) (ocrResults d)) \<and>
     (\<forall>r \<in> set (ocrResults d). pages_of (r_id r) d
        = map (\<lambda>(i, t). (int i + 1, t)) (enumerate 0 (map snd (pages_of (r_id r) d)))) \<and>
     (\<forall>i \<in> fst ` set m \<union> r_documentId ` set (ocrResults d).
        (case map_of m i of None \<Rightarrow> [] | Some xs \<Rightarrow> xs)
        = map (\<lambda>r. (r_outcome r, map snd (pages_of (r_id r) d))) (filter (\<lambda>r. r_documentId r = i) (ocrResults d)))"

definition files_mirror :: "documents_double \<Rightarrow> db \<Rightarrow> bool" where
  "files_mirror f d \<longleftrightarrow> mirrors c_id (fc_cases (fd_cases f)) (cases d) \<and>
     fc_history (fd_cases f) = map stored_of (caseHistory d) \<and> distinct (map h_caseId (caseHistory d)) \<and>
     mirrors d_id (fd_documents f) (documents d) \<and>
     mset (fc_auditLog (fd_cases f)) + mset (fd_auditLog f) = mset (map a_entry (auditLogs d)) \<and>
     fd_enqueuedScans f = queued DOCUMENT_SCAN_QUEUE d \<and>
     fd_enqueuedReprocesses f = queued DOCUMENT_REPROCESS_QUEUE d \<and>
     fd_enqueuedOcrReprocesses f = queued DOCUMENT_OCR_REPROCESS_QUEUE d \<and>
     executions_mirror (fd_ocrExecutions f) d"

definition file_alike :: "file_call \<Rightarrow> documents_double \<Rightarrow> db \<Rightarrow> bool" where
  "file_alike c f d \<longleftrightarrow> fst (fake_file (\<lambda>_. None) c f) = fst (real_file c d) \<and>
     files_mirror (snd (fake_file (\<lambda>_. None) c f)) (snd (real_file c d))"

lemma files_mirrorD:
  assumes "files_mirror f d"
  shows "map_of (fc_cases (fd_cases f)) i = find (\<lambda>c. c_id c = i) (cases d)"
    "map snd (fc_cases (fd_cases f)) = cases d" "map_of (fd_documents f) i = find_document i d"
    "map snd (fd_documents f) = documents d" "distinct (map c_id (cases d))"
    "distinct (map d_id (documents d))" "unique_documents d"
  using assms mirrors_get [of c_id "fc_cases (fd_cases f)" "cases d"]
    mirrors_get [of d_id "fd_documents f" "documents d"]
  by (auto simp: files_mirror_def find_document_def unique_documents_def mirrors_def comp_def)

lemma owns_alike:
  assumes "files_mirror f d"
  shows "fd_owns f u i \<longleftrightarrow> owned_case u d i"
proof (cases "find (\<lambda>c. c_id c = i) (cases d)")
  case None
  then have "\<not> owned_case u d i" by (auto simp: owned_case_def dest: find_NoneD)
  with None show ?thesis by (simp add: fd_owns_def files_mirrorD(1) [OF assms])
next
  case (Some c)
  then have "c' = c" if "c' \<in> set (cases d)" "c_id c' = i" for c'
    using unique_key [OF files_mirrorD(5) [OF assms] that(1)] that(2) find_SomeD [OF Some] by simp
  with Some find_SomeD [OF Some] show ?thesis
    by (auto simp: fd_owns_def owned_case_def files_mirrorD(1) [OF assms])
qed

lemma fd_sum_eq: "fd_sum P used rows = used + sum_list (map d_fileSize (filter P rows))"
  by (induction rows arbitrary: used) auto

lemma usedBytes_alike: "files_mirror f d \<Longrightarrow> fake_usedBytes u f = usedBytes u d"
  by (simp only: fake_usedBytes_def usedBytes_def fd_sum_eq owns_alike files_mirrorD)

text \<open>Frames: what a new event, a new job and the other tables leave of the relation.\<close>

lemma executions_frame:
  "ocrResults d' = ocrResults d \<Longrightarrow> ocrPages d' = ocrPages d \<Longrightarrow> executions_mirror m d' = executions_mirror m d"
  by (simp add: executions_mirror_def pages_of_def)

lemma queued_simps [simp]:
  "queued q (insert_audit e t d) = queued q d"
  "queued q (send_job q' i n d) = queued q d @ (if q' = q then [i] else [])"
  by (auto simp: queued_def)

lemma mirror_reads:
  assumes "files_mirror f d"
  shows "file_alike (File_listCases u) f d" "file_alike (File_usedBytes u) f d"
    "file_alike (File_listDocuments c u) f d" "file_alike (File_administration i) f d"
proof -
  have "fake_listOwnCases u (fd_cases f) = listOwnCases_repo u d"
    by (simp only: fake_listOwnCases_def listOwnCases_repo_def files_mirrorD(2) [OF assms])
  moreover have "fake_listOwnCaseDocuments c u f = listOwnCaseDocuments c u d"
  proof (cases "owned_case u d c")
    case True
    then have "filter (\<lambda>r. d_caseId r = c \<and> owned_case u d (d_caseId r)) (documents d)
        = filter (\<lambda>r. d_caseId r = c) (documents d)"
      by (intro filter_cong) auto
    with True show ?thesis
      by (simp only: fake_listOwnCaseDocuments_def listOwnCaseDocuments_def owns_alike [OF assms]
          files_mirrorD(4) [OF assms]) simp
  next
    case False
    then have "filter (\<lambda>r. d_caseId r = c \<and> owned_case u d (d_caseId r)) (documents d) = []"
      by (auto simp: filter_empty_conv)
    with False show ?thesis
      by (simp add: fake_listOwnCaseDocuments_def listOwnCaseDocuments_def owns_alike [OF assms])
  qed
  ultimately show "file_alike (File_listCases u) f d" "file_alike (File_usedBytes u) f d"
    "file_alike (File_listDocuments c u) f d" "file_alike (File_administration i) f d"
    using assms usedBytes_alike [OF assms]
    by (simp_all add: file_alike_def fake_findDocumentForAdministration_def findDocumentForAdministration_def
        files_mirrorD(3) [OF assms])
qed

lemma findOwnDocument_alike:
  assumes "files_mirror f d"
  shows "fake_findOwnDocument i c u f = findOwnDocument i c u d"
proof -
  have "findOwnDocument i c u d = find (\<lambda>r. d_id r = i \<and> (d_caseId r = c \<and> owned_case u d (d_caseId r))) (documents d)"
    by (simp add: findOwnDocument_def)
  also have "\<dots> = (case find_document i d of None \<Rightarrow> None
      | Some r \<Rightarrow> if d_caseId r = c \<and> owned_case u d (d_caseId r) then Some r else None)"
    by (rule find_document_where [OF files_mirrorD(7) [OF assms]])
  finally show ?thesis
    by (auto simp: fake_findOwnDocument_def files_mirrorD(3) [OF assms] owns_alike [OF assms] split: option.splits)
qed

lemma history_single:
  assumes "distinct (map h_caseId hs)"
  shows "sort_key k (filter (\<lambda>h. h_caseId h = i) hs) = filter (\<lambda>h. h_caseId h = i) hs"
proof -
  have "length (filter (\<lambda>h. h_caseId h = i) hs) \<le> 1"
    using count_where_key_le1 [OF assms, of i "\<lambda>_. True"] by (simp add: count_where_def)
  then show ?thesis
    by (cases "filter (\<lambda>h. h_caseId h = i) hs") auto
qed

lemma findOwnCase_alike:
  assumes "files_mirror f d"
  shows "file_alike (File_findCase i u) f d"
proof -
  have find: "find (\<lambda>c. c_id c = i \<and> c_userId c = u) (cases d) = (case find (\<lambda>c. c_id c = i) (cases d) of
      None \<Rightarrow> None | Some c \<Rightarrow> if c_userId c = u then Some c else None)"
    using files_mirrorD(5) [OF assms]
  proof (induction "cases d" arbitrary: d)
    case (Cons c cs d)
    have "find (\<lambda>c. c_id c = i \<and> c_userId c = u) cs = None" if "c_id c = i"
      using that Cons(3) by (auto simp: find_None_iff image_iff simp flip: Cons(2))
    with Cons(1) [of "d\<lparr>cases := cs\<rparr>"] Cons(3) show ?case by (auto simp flip: Cons(2))
  qed simp
  have history: "filter (\<lambda>h. fh_caseId h = i) (fc_history (fd_cases f))
      = map stored_of (filter (\<lambda>h. h_caseId h = i) (caseHistory d))"
    using assms by (simp add: files_mirror_def filter_map comp_def stored_of_def)
  have "distinct (map h_caseId (caseHistory d))" using assms by (simp add: files_mirror_def)
  note single = history_single [OF this]
  show ?thesis
    using assms
    by (auto simp: file_alike_def fake_findOwnCase_def findOwnCase_def find single history
        files_mirrorD(1) [OF assms] change_of_def stored_of_def dest: find_SomeD split: option.splits)
qed

lemma last_sorted_filter:
  fixes k :: "'r \<Rightarrow> 'k :: linorder"
  assumes "sorted (map k rows)"
  shows "(case rev (sort_key k (filter P rows)) of [] \<Rightarrow> None | r # _ \<Rightarrow> Some r)
    = (if filter P rows = [] then None else Some (last (filter P rows)))"
proof -
  have "sorted (map k (filter P rows))" using assms by (rule sorted_filter)
  then have "sort_key k (filter P rows) = filter P rows" by (rule sort_key_id_if_sorted)
  then show ?thesis by (cases "filter P rows" rule: rev_cases) simp_all
qed

lemma ocr_alike:
  assumes "files_mirror f d"
  shows "file_alike (File_findOcr i c u) f d"
proof (cases "findOwnDocument i c u d")
  case None
  with assms show ?thesis
    by (simp add: file_alike_def fake_findOwnDocumentOcr_def findOwnDocumentOcr_def findOwnDocument_alike)
next
  case (Some r)
  then have r: "r \<in> set (documents d)" "d_id r = i" "d_caseId r = c" "owned_case u d c"
    by (auto simp: findOwnDocument_def dest!: find_SomeD)
  show ?thesis
  proof (cases "d_ocrStatus r = COMPLETED")
    case False
    with assms Some show ?thesis
      by (simp add: file_alike_def fake_findOwnDocumentOcr_def findOwnDocumentOcr_def findOwnDocument_alike)
  next
    case True
    let ?P = "\<lambda>x. r_documentId x = i \<and> r_outcome x = Outcome_COMPLETED"
    let ?done = "filter ?P (ocrResults d)"
    have ex: "executions_mirror (fd_ocrExecutions f) d" using assms by (simp add: files_mirror_def)
    have owned: "\<exists>x \<in> set (documents d). d_id x = i \<and> d_caseId x = c \<and> owned_case u d (d_caseId x) \<and>
        d_ocrStatus x = COMPLETED"
      using r True by auto
    have current: "current_result i c u d = (if ?done = [] then None else Some (last ?done))"
      unfolding current_result_def
      using last_sorted_filter [of "\<lambda>r. (r_finishedAt r, r_id r)" "ocrResults d" ?P] ex owned
      by (simp add: executions_mirror_def)
    let ?xs = "case map_of (fd_ocrExecutions f) i of None \<Rightarrow> [] | Some xs \<Rightarrow> xs"
    have "?xs = map (\<lambda>r. (r_outcome r, map snd (pages_of (r_id r) d)))
        (filter (\<lambda>r. r_documentId r = i) (ocrResults d))"
    proof (cases "i \<in> fst ` set (fd_ocrExecutions f) \<union> r_documentId ` set (ocrResults d)")
      case True
      with ex show ?thesis by (simp add: executions_mirror_def)
    next
      case False
      then have "map_of (fd_ocrExecutions f) i = None" "filter (\<lambda>r. r_documentId r = i) (ocrResults d) = []"
        by (auto simp: map_of_eq_None_iff filter_empty_conv)
      then show ?thesis by simp
    qed
    then have done': "filter (\<lambda>x. fst x = Outcome_COMPLETED) ?xs
        = map (\<lambda>r. (r_outcome r, map snd (pages_of (r_id r) d))) ?done"
      by (simp add: filter_map comp_def conj_commute)
    have pages: "map (\<lambda>(i, t). (int i + 1, t)) (enumerate 0 (map snd (pages_of (r_id (last ?done)) d)))
        = pages_of (r_id (last ?done)) d" if "?done \<noteq> []"
      using ex last_in_set [OF that] by (auto simp: executions_mirror_def)
    show ?thesis
      using assms Some True pages
      by (auto simp: file_alike_def fake_findOwnDocumentOcr_def findOwnDocumentOcr_def findOwnDocument_alike
          current done' last_map Let_def)
  qed
qed

section \<open>Writes\<close>

lemma createCase_alike:
  assumes "files_mirror f d" and "file_ok (File_createCase i hid t input) d"
  shows "file_alike (File_createCase i hid t input) f d"
proof -
  let ?c = "\<lparr>c_id = i, c_userId = cc_userId input, c_type = cc_type input, c_status = DRAFT,
     c_createdAt = t, c_updatedAt = t\<rparr>"
  let ?e = "(cc_audit input ?c)\<lparr>caseId := Some i\<rparr>"
  let ?h = "\<lparr>h_id = hid, h_caseId = i, h_fromStatus = None, h_toStatus = DRAFT,
     h_changedByUserId = cc_userId input, h_changedAt = t\<rparr>"
  let ?d = "insert_audit ?e t (d\<lparr>cases := cases d @ [?c], caseHistory := caseHistory d @ [?h]\<rparr>)"
  have real: "createCase_repo i hid t input d = (Inr ?c, ?d)"
    using assms(2) by (auto simp: createCase_repo_def transaction_def Let_def image_iff)
  have "mirrors c_id (AList.update i ?c (fc_cases (fd_cases f))) (cases d @ [?c])"
    using assms by (intro mirrors_set) (auto simp: files_mirror_def)
  moreover have "i \<notin> set (map h_caseId (caseHistory d))" using assms(2) by simp
  moreover have "executions_mirror (fd_ocrExecutions f) ?d"
    using assms(1) executions_frame [of ?d d] by (simp add: files_mirror_def)
  moreover have "queued q ?d = queued q d" for q by (simp add: queued_def)
  ultimately show ?thesis
    using assms(1)
    by (simp add: file_alike_def real fake_createCase_def in_cases_def Let_def bindE_def fc_recordAudit_def
        files_mirror_def stored_of_def)
qed

lemma createDocument_alike:
  assumes "files_mirror f d" and "file_ok (File_createDocument t input) d"
  shows "file_alike (File_createDocument t input) f d"
proof -
  let ?r = "new_document input t"
  let ?e = "(cd_audit input ?r)\<lparr>caseId := Some (cd_caseId input)\<rparr>"
  let ?d = "send_job DOCUMENT_SCAN_QUEUE (cd_id input) 0 (insert_audit ?e t (d\<lparr>documents := documents d @ [?r]\<rparr>))"
  let ?w = "\<exists>c \<in> set (cases d). c_id c = cd_caseId input \<and> c_userId c = cd_userId input \<and> c_status c = DRAFT"
  have writable: "(case map_of (fc_cases (fd_cases f)) (cd_caseId input) of
      None \<Rightarrow> True | Some c \<Rightarrow> c_userId c \<noteq> cd_userId input \<or> c_status c \<noteq> DRAFT) \<longleftrightarrow> \<not> ?w"
  proof (cases "find (\<lambda>c. c_id c = cd_caseId input) (cases d)")
    case None
    then have "\<not> ?w" by (auto dest: find_NoneD)
    with None show ?thesis by (simp add: files_mirrorD(1) [OF assms(1)])
  next
    case (Some c)
    then have "c' = c" if "c' \<in> set (cases d)" "c_id c' = cd_caseId input" for c'
      using unique_key [OF files_mirrorD(5) [OF assms(1)] that(1)] that(2) find_SomeD [OF Some] by simp
    with Some find_SomeD [OF Some] show ?thesis
      by (auto simp: files_mirrorD(1) [OF assms(1)])
  qed
  have real: "createDocument True t input d =
    (if \<not> ?w then (Inr Case_not_writable, d)
     else if cd_quotaBytes input < usedBytes (cd_userId input) d + cd_fileSize input then (Inr Quota_exceeded, d)
     else (Inr (Created ?r), ?d))"
  proof -
    have "\<not> (\<exists>r \<in> set (documents d). d_id r = cd_id input \<or> d_storageKey r = cd_storageKey input)"
      using assms(2) by (auto simp: image_iff)
    then show ?thesis
      by (simp add: createDocument_def transaction_def Let_def bindE_def enqueueDocumentScan_def boss_send_def
          new_document_def)
  qed
  let ?f = "f\<lparr>fd_auditLog := fd_auditLog f @ [?e], fd_documents := AList.update (cd_id input) ?r (fd_documents f),
     fd_enqueuedScans := fd_enqueuedScans f @ [cd_id input]\<rparr>"
  have fake: "fake_createDocument (\<lambda>_. None) t input f =
    (if \<not> ?w then (Inr Case_not_writable, f)
     else if cd_quotaBytes input < usedBytes (cd_userId input) d + cd_fileSize input then (Inr Quota_exceeded, f)
     else (Inr (Created ?r), ?f))"
    unfolding fake_createDocument_def writable usedBytes_alike [OF assms(1)]
    by (simp add: bindE_def fd_recordAudit_def Let_def new_document_def)
  have "mirrors d_id (AList.update (cd_id input) ?r (fd_documents f)) (documents d @ [?r])"
    using assms by (intro mirrors_set) (auto simp: files_mirror_def new_document_def)
  moreover have "executions_mirror (fd_ocrExecutions f) ?d"
    using assms(1) executions_frame [of ?d d] by (simp add: files_mirror_def)
  moreover have "queued q ?d = queued q d @ (if DOCUMENT_SCAN_QUEUE = q then [cd_id input] else [])" for q
    by (simp add: queued_def)
  ultimately have "files_mirror ?f ?d"
    using assms(1) by (simp add: files_mirror_def)
  with assms(1) show ?thesis
    by (simp add: file_alike_def fake real)
qed

lemma reprocess_alike:
  assumes "files_mirror f d"
  shows "file_alike (File_reprocess t input) f d" "file_alike (File_ocrReprocess t input) f d"
proof -
  have "executions_mirror (fd_ocrExecutions f) (send_job q i n (insert_audit e t d))" for q i n e
    using assms executions_frame [of "send_job q i n (insert_audit e t d)" d] by (simp add: files_mirror_def)
  with assms show "file_alike (File_reprocess t input) f d" "file_alike (File_ocrReprocess t input) f d"
    by (simp_all add: file_alike_def fake_requestReprocess_def requestReprocess_repo_def
        fake_requestOcrReprocess_def requestOcrReprocess_repo_def transaction_def bindE_def fd_recordAudit_def
        enqueueDocumentReprocess_def enqueueDocumentOcrReprocess_def boss_send_def files_mirror_def)
qed

section \<open>The contract\<close>

lemma file_call_alike:
  assumes "files_mirror f d" and "file_ok c d"
  shows "file_alike c f d"
proof (cases c)
  case (File_findDocument i c u)
  with assms show ?thesis by (simp add: file_alike_def findOwnDocument_alike)
qed (use assms in \<open>simp_all add: createCase_alike createDocument_alike mirror_reads findOwnCase_alike ocr_alike
    reprocess_alike del: file_ok.simps\<close>)

interpretation files: repository_double files_mirror file_ok "fake_file (\<lambda>_. None)" real_file
  using file_call_alike by unfold_locales (auto simp: file_alike_def)

text \<open>
  The in-memory repositories of cases and documents answer, call by call, what the ones over
  PostgreSQL answer, and end with the same rows, events and queued jobs, for every sequence of
  calls whose identifiers and storage keys are new when they are drawn.
\<close>

theorem file_doubles_alike:
  assumes "files_mirror f d" and "calls_ok file_ok real_file calls d"
  shows "fst (run_calls (fake_file (\<lambda>_. None)) calls f) = fst (run_calls real_file calls d) \<and>
    files_mirror (snd (run_calls (fake_file (\<lambda>_. None)) calls f)) (snd (run_calls real_file calls d))"
  by (rule files.same_run [OF assms])

text \<open>A user with a case, a document and its text, in the tables and in the doubles.\<close>

definition sample_case :: case_row where
  "sample_case = \<lparr>c_id = ''c1'', c_userId = ''u1'', c_type = OTHER, c_status = DRAFT, c_createdAt = 1, c_updatedAt = 1\<rparr>"

definition sample_input :: "uuid \<Rightarrow> create_document_input" where
  "sample_input i = \<lparr>cd_id = i, cd_caseId = ''c1'', cd_userId = ''u1'', cd_fileName = [97], cd_fileType = PDF,
     cd_storageKey = ''k'' @ i, cd_fileSize = 60, cd_quotaBytes = 100,
     cd_audit = (\<lambda>r. system_entry ''document.uploaded'' (d_id r) ''c1'' [])\<rparr>"

definition sample_document :: document_row where
  "sample_document = (new_document (sample_input ''d1'') 2)\<lparr>d_status := CLEAN, d_ocrStatus := COMPLETED\<rparr>"

definition sample_execution :: ocr_result_row where
  "sample_execution = \<lparr>r_id = ''r1'', r_documentId = ''d1'', r_outcome = Outcome_COMPLETED, r_engine = ''e'',
     r_engineVersion = None, r_representation = None, r_processedSha256 = None, r_pages = Some 2, r_attempts = 1,
     r_startedAt = None, r_finishedAt = 5, r_errorCode = None\<rparr>"

definition sample_tables :: db where
  "sample_tables = empty_db\<lparr>cases := [sample_case], documents := [sample_document],
     ocrResults := [sample_execution],
     ocrPages := [\<lparr>p_ocrResultId = ''r1'', p_pageNumber = 1, p_text = [98]\<rparr>,
                  \<lparr>p_ocrResultId = ''r1'', p_pageNumber = 2, p_text = [99]\<rparr>]\<rparr>"

definition sample_files :: documents_double where
  "sample_files = \<lparr>fd_cases = \<lparr>fc_cases = [(''c1'', sample_case)], fc_history = [], fc_auditLog = []\<rparr>,
     fd_documents = [(''d1'', sample_document)], fd_auditLog = [], fd_enqueuedScans = [],
     fd_enqueuedReprocesses = [], fd_enqueuedOcrReprocesses = [],
     fd_ocrExecutions = [(''d1'', [(Outcome_COMPLETED, [[98], [99]])])]\<rparr>"

lemma sample_files_mirror: "files_mirror sample_files sample_tables"
  by (simp add: files_mirror_def sample_files_def sample_tables_def empty_db_def mirrors_def sample_case_def
      sample_document_def new_document_def sample_input_def queued_def executions_mirror_def pages_of_def
      sample_execution_def)

definition sample_file_calls :: "file_call list" where
  "sample_file_calls =
    [File_createCase ''c2'' ''h2'' 7 \<lparr>cc_userId = ''u1'', cc_type = OTHER,
       cc_audit = (\<lambda>c. system_entry ''case.created'' (c_id c) (c_id c) [])\<rparr>,
     File_createDocument 8 (sample_input ''d2''),
     File_findOcr ''d1'' ''c1'' ''u1'', File_findCase ''c2'' ''u1'', File_usedBytes ''u1'']"

lemma sample_file_calls_ok: "calls_ok file_ok real_file sample_file_calls sample_tables"
  by code_simp

lemma sample_file_answers:
  "drop 1 (fst (run_calls real_file sample_file_calls sample_tables)) =
    [A_created Quota_exceeded,
     A_ocr (Some \<lparr>or_ocrStatus = COMPLETED, or_pages = [(1, [98]), (2, [99])]\<rparr>),
     A_history (Some (\<lparr>c_id = ''c2'', c_userId = ''u1'', c_type = OTHER, c_status = DRAFT, c_createdAt = 7,
        c_updatedAt = 7\<rparr>, [(None, DRAFT, ''u1'', 7)])), A_bytes 60]"
  by code_simp

theorem file_doubles_alike_witness:
  "files_mirror sample_files sample_tables \<and> calls_ok file_ok real_file sample_file_calls sample_tables \<and>
   last (fst (run_calls (fake_file (\<lambda>_. None)) sample_file_calls sample_files)) = A_bytes 60"
proof -
  have "last (fst (run_calls real_file sample_file_calls sample_tables)) = A_bytes 60"
    by code_simp
  with file_doubles_alike [OF sample_files_mirror sample_file_calls_ok] sample_files_mirror sample_file_calls_ok
  show ?thesis by simp
qed

text \<open>A call that throws leaves both doubles as they were.\<close>

lemma file_failure_changes_nothing:
  "fst (fake_file fails c f) = A_threw e \<Longrightarrow> snd (fake_file fails c f) = f"
  by (cases c) (auto simp: file_answered_def in_cases_def fake_createCase_def fc_recordAudit_def Let_def bindE_def
      fake_createDocument_def fd_recordAudit_def fake_requestReprocess_def fake_requestOcrReprocess_def
      split: option.splits if_splits)

end
