(* ===== verification/Scan_Double.thy ===== *)
theory Scan_Double
  imports Doubles Scan_Repository
begin

text \<open>
  \<open>FakeScanRepository\<close> (apps/worker/src/test-support/scan.repository.fake.ts), which the scan job
  is tested with. A document is claimed with a token of the double's own; whoever holds a claim is
  kept beside the repository, so that a run names the claim it closes by its place.
\<close>

section \<open>The scan double\<close>

text \<open>
  The token \<open>`${now}#${tick}`\<close> is kept as its two numbers. \<open>add\<close> is \<open>AList.update\<close> of a
  document whose missing fields are filled in.
\<close>

record scan_double_row =
  sd_id :: uuid
  sd_caseId :: uuid
  sd_fileType :: document_file_type
  sd_storageKey :: string
  sd_fileSize :: int
  sd_status :: document_status
  sd_scanAttempts :: int
  sd_scanStartedAt :: "(time \<times> nat) option"
  sd_scanSignature :: "string option"
  sd_sanitizedStorageKey :: "string option"

type_synonym scan_audit = "string \<times> uuid \<times> uuid \<times> json_object"

record scan_double =
  sd_documents :: "(uuid \<times> scan_double_row) list"
  sd_auditLog :: "scan_audit list"
  sd_tick :: nat

record fake_scan_claim =
  fs_documentId :: uuid
  fs_caseId :: uuid
  fs_fileType :: document_file_type
  fs_storageKey :: string
  fs_fileSize :: int
  fs_attempts :: int
  fs_token :: "time \<times> nat"

text \<open>A document as \<open>add\<close> makes it when only its identifier, type and size are given.\<close>

definition added_scan_row :: "uuid \<Rightarrow> document_file_type \<Rightarrow> int \<Rightarrow> scan_double_row" where
  "added_scan_row i fileType size' =
    \<lparr>sd_id = i, sd_caseId = ''case-1'', sd_fileType = fileType,
     sd_storageKey = ''cases/case-1/documents/'' @ i, sd_fileSize = size', sd_status = PENDING_SCAN,
     sd_scanAttempts = 0, sd_scanStartedAt = None, sd_scanSignature = None, sd_sanitizedStorageKey = None\<rparr>"

definition fake_add_scan :: "scan_double_row \<Rightarrow> scan_double \<Rightarrow> scan_double" where
  "fake_add_scan r f = f\<lparr>sd_documents := AList.update (sd_id r) r (sd_documents f)\<rparr>"

definition fake_claim_scan :: "uuid \<Rightarrow> int \<Rightarrow> time \<Rightarrow> scan_double \<Rightarrow> fake_scan_claim option \<times> scan_double" where
  "fake_claim_scan documentId leaseSeconds now f =
    (case map_of (sd_documents f) documentId of
       None \<Rightarrow> (None, f)
     | Some r \<Rightarrow>
         let abandoned = (sd_status r = SCANNING \<and> (case sd_scanStartedAt r of None \<Rightarrow> False
               | Some (t, _) \<Rightarrow> t < now - leaseSeconds * 1000))
         in if sd_status r \<noteq> PENDING_SCAN \<and> \<not> abandoned then (None, f)
            else
              let token = (now, Suc (sd_tick f));
                  r = r\<lparr>sd_status := SCANNING, sd_scanAttempts := sd_scanAttempts r + 1,
                        sd_scanStartedAt := Some token\<rparr>
              in (Some \<lparr>fs_documentId = documentId, fs_caseId = sd_caseId r, fs_fileType = sd_fileType r,
                    fs_storageKey = sd_storageKey r, fs_fileSize = sd_fileSize r,
                    fs_attempts = sd_scanAttempts r, fs_token = token\<rparr>,
                  f\<lparr>sd_documents := AList.map_entry documentId (\<lambda>x. x\<lparr>sd_status := SCANNING,
                        sd_scanAttempts := sd_scanAttempts x + 1, sd_scanStartedAt := Some token\<rparr>)
                      (sd_documents f),
                    sd_tick := Suc (sd_tick f)\<rparr>))"

definition fake_holds :: "fake_scan_claim \<Rightarrow> scan_double \<Rightarrow> bool" where
  "fake_holds c f =
    (case map_of (sd_documents f) (fs_documentId c) of
       None \<Rightarrow> False
     | Some r \<Rightarrow> sd_status r = SCANNING \<and> sd_scanStartedAt r = Some (fs_token c))"

definition fake_scan_audit :: "string \<Rightarrow> fake_scan_claim \<Rightarrow> json_object \<Rightarrow> scan_double \<Rightarrow> scan_double" where
  "fake_scan_audit act c newVal f = f\<lparr>sd_auditLog := sd_auditLog f @ [(act, fs_documentId c, fs_caseId c, newVal)]\<rparr>"

definition fake_markClean :: "fake_scan_claim \<Rightarrow> string option \<Rightarrow> scan_double \<Rightarrow> bool \<times> scan_double" where
  "fake_markClean c key f =
    (if \<not> fake_holds c f then (False, f)
     else (True, fake_scan_audit ''document.scan_clean'' c [(''status'', JStr ''CLEAN'')]
       (f\<lparr>sd_documents := AList.map_entry (fs_documentId c)
            (\<lambda>r. r\<lparr>sd_status := CLEAN, sd_sanitizedStorageKey := key\<rparr>) (sd_documents f)\<rparr>)))"

definition fake_markInfected :: "fake_scan_claim \<Rightarrow> string \<Rightarrow> scan_double \<Rightarrow> bool \<times> scan_double" where
  "fake_markInfected c sig f =
    (if \<not> fake_holds c f then (False, f)
     else (True, fake_scan_audit ''document.scan_infected'' c
         [(''status'', JStr ''INFECTED''), (''signature'', JStr sig)]
       (f\<lparr>sd_documents := AList.map_entry (fs_documentId c)
            (\<lambda>r. r\<lparr>sd_status := INFECTED, sd_scanSignature := Some sig\<rparr>) (sd_documents f)\<rparr>)))"

definition fake_markFailed_scan :: "fake_scan_claim \<Rightarrow> scan_double \<Rightarrow> bool \<times> scan_double" where
  "fake_markFailed_scan c f =
    (if \<not> fake_holds c f then (False, f)
     else (True, fake_scan_audit ''document.scan_failed'' c
         [(''status'', JStr ''SCAN_FAILED''), (''attempts'', JNum (fs_attempts c))]
       (f\<lparr>sd_documents := AList.map_entry (fs_documentId c)
            (\<lambda>r. r\<lparr>sd_status := SCAN_FAILED\<rparr>) (sd_documents f)\<rparr>)))"

definition fake_release_scan :: "fake_scan_claim \<Rightarrow> scan_double \<Rightarrow> bool \<times> scan_double" where
  "fake_release_scan c f =
    (if \<not> fake_holds c f then (False, f)
     else (True, f\<lparr>sd_documents := AList.map_entry (fs_documentId c)
            (\<lambda>r. r\<lparr>sd_status := PENDING_SCAN, sd_scanStartedAt := None\<rparr>) (sd_documents f)\<rparr>))"

section \<open>Calls\<close>

text \<open>
  A claim is kept by the worker that made it; the other calls name it by its place. The instants
  are microseconds; the double reads the same one in milliseconds.
\<close>

datatype scan_call =
    Scan_claim uuid int time
  | Scan_clean nat time "string option"
  | Scan_infected nat time string
  | Scan_failed nat time
  | Scan_release nat

datatype scan_answer =
    Scan_claimed "(uuid \<times> uuid \<times> document_file_type \<times> string \<times> int \<times> int) option"
  | Scan_recorded bool
  | Scan_threw exn
  | No_claim

type_synonym 's with_claims = "'s \<times> fake_scan_claim list"

definition claim_shape :: "scan_claim \<Rightarrow> uuid \<times> uuid \<times> document_file_type \<times> string \<times> int \<times> int" where
  "claim_shape c = (sc_documentId c, sc_caseId c, sc_fileType c, sc_storageKey c, sc_fileSize c, sc_attempts c)"

definition fake_claim_shape :: "fake_scan_claim \<Rightarrow> uuid \<times> uuid \<times> document_file_type \<times> string \<times> int \<times> int" where
  "fake_claim_shape c = (fs_documentId c, fs_caseId c, fs_fileType c, fs_storageKey c, fs_fileSize c, fs_attempts c)"

definition closing :: "'a \<Rightarrow> nat \<Rightarrow> ('c \<Rightarrow> 's \<Rightarrow> 'a \<times> 's) \<Rightarrow> 's \<times> 'c list \<Rightarrow> 'a \<times> 's \<times> 'c list" where
  "closing none n op = (\<lambda>(s, cs).
     if n < length cs then case op (cs ! n) s of (a, s) \<Rightarrow> (a, s, cs) else (none, s, cs))"

fun fake_scan :: "scan_call \<Rightarrow> scan_double \<times> fake_scan_claim list
    \<Rightarrow> scan_answer \<times> scan_double \<times> fake_scan_claim list" where
  "fake_scan (Scan_claim i lease now) (f, cs) =
    (case fake_claim_scan i lease (now div 1000) f of
       (None, f) \<Rightarrow> (Scan_claimed None, f, cs)
     | (Some c, f) \<Rightarrow> (Scan_claimed (Some (fake_claim_shape c)), f, cs @ [c]))"
| "fake_scan (Scan_clean n now key) s =
     closing No_claim n (\<lambda>c f. case fake_markClean c key f of (b, f) \<Rightarrow> (Scan_recorded b, f)) s"
| "fake_scan (Scan_infected n now sig) s =
     closing No_claim n (\<lambda>c f. case fake_markInfected c sig f of (b, f) \<Rightarrow> (Scan_recorded b, f)) s"
| "fake_scan (Scan_failed n now) s =
     closing No_claim n (\<lambda>c f. case fake_markFailed_scan c f of (b, f) \<Rightarrow> (Scan_recorded b, f)) s"
| "fake_scan (Scan_release n) s =
     closing No_claim n (\<lambda>c f. case fake_release_scan c f of (b, f) \<Rightarrow> (Scan_recorded b, f)) s"

definition recorded :: "(exn + bool) \<times> db \<Rightarrow> scan_answer \<times> db" where
  "recorded = (\<lambda>(r, d). (case r of Inl e \<Rightarrow> Scan_threw e | Inr b \<Rightarrow> Scan_recorded b, d))"

fun real_scan :: "scan_call \<Rightarrow> db \<times> scan_claim list \<Rightarrow> scan_answer \<times> db \<times> scan_claim list" where
  "real_scan (Scan_claim i lease now) (d, cs) =
    (case claim_scan i lease now d of
       (Inl e, d) \<Rightarrow> (Scan_threw e, d, cs)
     | (Inr None, d) \<Rightarrow> (Scan_claimed None, d, cs)
     | (Inr (Some c), d) \<Rightarrow> (Scan_claimed (Some (claim_shape c)), d, cs @ [c]))"
| "real_scan (Scan_clean n now key) s = closing No_claim n (\<lambda>c d. recorded (markClean None now c key d)) s"
| "real_scan (Scan_infected n now sig) s = closing No_claim n (\<lambda>c d. recorded (markInfected None now c sig d)) s"
| "real_scan (Scan_failed n now) s = closing No_claim n (\<lambda>c d. recorded (markFailed_scan None now c d)) s"
| "real_scan (Scan_release n) s = closing No_claim n (\<lambda>c d. recorded (release_scan c d)) s"

text \<open>
  PostgreSQL's clock gives every claim an instant of its own, and no lease ends within the
  millisecond in which a claim is made.
\<close>

fun scan_ok :: "scan_call \<Rightarrow> db \<times> scan_claim list \<Rightarrow> bool" where
  "scan_ok (Scan_claim i lease now) (d, cs) =
    (now \<notin> sc_token ` set cs \<and>
     (\<forall>c \<in> set cs. sc_token c div 1000 < now div 1000 - lease * 1000 \<longleftrightarrow> sc_token c < now - 1000000 * lease))"
| "scan_ok _ s = True"

text \<open>The token of the double that stands for an instant: its milliseconds and the place of its claim.\<close>

definition place :: "time list \<Rightarrow> time \<Rightarrow> nat" where
  "place toks t = Suc (length (takeWhile (\<lambda>x. x \<noteq> t) toks))"

definition fake_token :: "time list \<Rightarrow> time \<Rightarrow> time \<times> nat" where
  "fake_token toks t = (t div 1000, place toks t)"

definition scan_view :: "time list \<Rightarrow> document_row \<Rightarrow> scan_double_row" where
  "scan_view toks r =
    \<lparr>sd_id = d_id r, sd_caseId = d_caseId r, sd_fileType = d_fileType r, sd_storageKey = d_storageKey r,
     sd_fileSize = d_fileSize r, sd_status = d_status r, sd_scanAttempts = d_scanAttempts r,
     sd_scanStartedAt = map_option (fake_token toks) (d_scanStartedAt r),
     sd_scanSignature = d_scanSignature r, sd_sanitizedStorageKey = d_sanitizedStorageKey r\<rparr>"

definition fake_claim_of :: "time list \<Rightarrow> scan_claim \<Rightarrow> fake_scan_claim" where
  "fake_claim_of toks c =
    \<lparr>fs_documentId = sc_documentId c, fs_caseId = sc_caseId c, fs_fileType = sc_fileType c,
     fs_storageKey = sc_storageKey c, fs_fileSize = sc_fileSize c, fs_attempts = sc_attempts c,
     fs_token = fake_token toks (sc_token c)\<rparr>"

lemma fake_claim_of_id [simp]: "fs_documentId (fake_claim_of toks c) = sc_documentId c"
  by (simp add: fake_claim_of_def)

definition audit_view :: "audit_row \<Rightarrow> string \<times> uuid option \<times> uuid option \<times> json_object option" where
  "audit_view r = (action (a_entry r), entityId (a_entry r), caseId (a_entry r), newValue (a_entry r))"

definition untreated_row :: "document_row \<Rightarrow> bool" where
  "untreated_row r \<longleftrightarrow> d_status r \<in> {PENDING_SCAN, SCANNING} \<longrightarrow> d_scanSignature r = None \<and> d_sanitizedStorageKey r = None"

definition scan_mirrors :: "scan_double \<times> fake_scan_claim list \<Rightarrow> db \<times> scan_claim list \<Rightarrow> bool" where
  "scan_mirrors = (\<lambda>(f, fcs) (d, cs).
     let toks = map sc_token cs
     in mirrors sd_id (sd_documents f) (map (scan_view toks) (documents d)) \<and>
        fcs = map (fake_claim_of toks) cs \<and> distinct toks \<and> sd_tick f = length cs \<and>
        map (\<lambda>(a, i, c, v). (a, Some i, Some c, Some v)) (sd_auditLog f) = map audit_view (auditLogs d) \<and>
        (\<forall>r \<in> set (documents d). untreated_row r \<and> (\<forall>t. d_scanStartedAt r = Some t \<longrightarrow> t \<in> set toks)))"

section \<open>The scan double answers alike\<close>

lemma place_nth: "t \<in> set toks \<Longrightarrow> toks ! (place toks t - 1) = t"
  by (induction toks) (auto simp: place_def)

lemma fake_token_eq:
  "t \<in> set toks \<Longrightarrow> t' \<in> set toks \<Longrightarrow> fake_token toks t = fake_token toks t' \<longleftrightarrow> t = t'"
  by (metis fake_token_def place_nth snd_conv)

lemma fake_token_append [simp]: "t \<in> set toks \<Longrightarrow> fake_token (toks @ ts) t = fake_token toks t"
  by (simp add: fake_token_def place_def takeWhile_append1)

lemma fake_token_new: "t \<notin> set toks \<Longrightarrow> fake_token (toks @ [t]) t = (t div 1000, Suc (length toks))"
  by (induction toks) (auto simp: fake_token_def place_def)

text \<open>A change of one row, seen through a view that keeps its identifier.\<close>

lemma view_update:
  assumes "distinct (map d_id docs)" and "r \<in> set docs" and "d_id r = i" and "P r"
    and "V' (g' r) = g (V r)" and "\<And>x. key (V x) = d_id x"
    and "\<And>x. x \<in> set docs \<Longrightarrow> d_id x \<noteq> i \<Longrightarrow> V' x = V x"
  shows "map V' (update_where (\<lambda>x. d_id x = i \<and> P x) g' docs) = update_where (\<lambda>y. key y = i) g (map V docs)"
proof -
  have "V' (if d_id x = i \<and> P x then g' x else x) = (if key (V x) = i then g (V x) else V x)"
    if "x \<in> set docs" for x
    using assms unique_key [of d_id docs x r] that by (cases "d_id x = i") auto
  then show ?thesis by (simp add: update_where_def)
qed

lemma scan_mirrorsD:
  assumes "scan_mirrors (f, fcs) (d, cs)"
  shows "unique_documents d"
    "map_of (sd_documents f) i = map_option (scan_view (map sc_token cs)) (find_document i d)"
    "fcs = map (fake_claim_of (map sc_token cs)) cs"
    "find_document i d = Some r \<Longrightarrow> d_scanStartedAt r = Some t \<Longrightarrow> t \<in> sc_token ` set cs"
    "find_document i d = Some r \<Longrightarrow> untreated_row r"
proof -
  have m: "mirrors sd_id (sd_documents f) (map (scan_view (map sc_token cs)) (documents d))"
    using assms by (simp add: scan_mirrors_def Let_def)
  have ids: "sd_id \<circ> scan_view toks = d_id" for toks by (simp add: fun_eq_iff scan_view_def)
  show "unique_documents d" using m by (simp add: mirrors_def unique_documents_def ids)
  have "find (\<lambda>y. sd_id y = i) (map (scan_view toks) rows)
      = map_option (scan_view toks) (find (\<lambda>r. d_id r = i) rows)" for toks rows
    by (induction rows) (auto simp: scan_view_def)
  with mirrors_get [OF m, of i]
  show "map_of (sd_documents f) i = map_option (scan_view (map sc_token cs)) (find_document i d)"
    by (simp add: find_document_def)
  show "fcs = map (fake_claim_of (map sc_token cs)) cs" using assms by (simp add: scan_mirrors_def Let_def)
  show "find_document i d = Some r \<Longrightarrow> d_scanStartedAt r = Some t \<Longrightarrow> t \<in> sc_token ` set cs"
    "find_document i d = Some r \<Longrightarrow> untreated_row r"
    using assms find_document_SomeD [of i d r] by (auto simp: scan_mirrors_def Let_def)
qed

lemma holds_alike:
  assumes "scan_mirrors (f, fcs) (d, cs)" and "c \<in> set cs"
  shows "fake_holds (fake_claim_of (map sc_token cs) c) f \<longleftrightarrow>
    (\<exists>r. find_document (sc_documentId c) d = Some r \<and> scan_held c r)"
proof (cases "find_document (sc_documentId c) d")
  case None
  then show ?thesis
    by (simp add: fake_holds_def fake_claim_of_def scan_mirrorsD(2) [OF assms(1)])
next
  case (Some r)
  have "fake_token (map sc_token cs) t = fake_token (map sc_token cs) (sc_token c) \<longleftrightarrow> t = sc_token c"
    if "d_scanStartedAt r = Some t" for t
    using scan_mirrorsD(4) [OF assms(1) Some that] assms(2) by (intro fake_token_eq) auto
  with Some show ?thesis
    by (cases "d_scanStartedAt r")
      (auto simp: fake_holds_def fake_claim_of_def scan_mirrorsD(2) [OF assms(1)] scan_held_def scan_view_def)
qed

text \<open>A result recorded, or a claim released, on both sides.\<close>

lemma scan_close_mirrors:
  assumes m: "scan_mirrors (f, fcs) (d, cs)" and "find_document (sc_documentId c) d = Some r" and "scan_held c r"
    and docs: "documents d' = update_where (\<lambda>x. d_id x = sc_documentId c \<and> scan_held c x) g' (documents d)"
    and view: "scan_view (map sc_token cs) (g' r) = g (scan_view (map sc_token cs) r)"
    and row: "untreated_row (g' r)" "\<And>t. d_scanStartedAt (g' r) = Some t \<Longrightarrow> d_scanStartedAt r = Some t"
    and keys: "\<And>y. sd_id (g y) = sd_id y"
    and f': "sd_documents f' = AList.map_entry (sc_documentId c) g (sd_documents f)" "sd_tick f' = sd_tick f"
    and audit: "map (\<lambda>(a, i, c, v). (a, Some i, Some c, Some v)) (sd_auditLog f') = map audit_view (auditLogs d')"
  shows "scan_mirrors (f', fcs) (d', cs)"
proof -
  let ?toks = "map sc_token cs" and ?i = "sc_documentId c"
  note r = find_document_SomeD [OF assms(2)]
  have distinct: "distinct (map d_id (documents d))"
    using scan_mirrorsD(1) [OF m] by (simp add: unique_documents_def)
  have m': "mirrors sd_id (sd_documents f) (map (scan_view ?toks) (documents d))"
    and rest: "fcs = map (fake_claim_of ?toks) cs" "distinct ?toks" "sd_tick f = length cs"
    and rows: "\<forall>r \<in> set (documents d). untreated_row r \<and> (\<forall>t. d_scanStartedAt r = Some t \<longrightarrow> t \<in> set ?toks)"
    using m by (simp_all add: scan_mirrors_def Let_def)
  have "map (scan_view ?toks) (documents d') = update_where (\<lambda>y. sd_id y = ?i) g (map (scan_view ?toks) (documents d))"
    unfolding docs by (rule view_update [OF distinct]) (use r assms(3) view in \<open>auto simp: scan_view_def\<close>)
  with mirrors_entry [OF m' keys, of ?i]
  have "mirrors sd_id (sd_documents f') (map (scan_view ?toks) (documents d'))" by (simp add: f')
  moreover have "untreated_row x \<and> (\<forall>t. d_scanStartedAt x = Some t \<longrightarrow> t \<in> set ?toks)" if x: "x \<in> set (documents d')" for x
  proof -
    obtain y where y: "y \<in> set (documents d)" "x = (if d_id y = ?i \<and> scan_held c y then g' y else y)"
      using x unfolding docs by (rule mem_update_whereE)
    have "y = r" if "d_id y = ?i" using unique_key [OF distinct y(1), of r] r that by simp
    with y(1) r rows row show ?thesis unfolding y(2) by auto
  qed
  ultimately show ?thesis using rest audit f'(2) by (simp add: scan_mirrors_def Let_def)
qed

lemma scan_audit_append:
  assumes "map (\<lambda>(a, i, c, v). (a, Some i, Some c, Some v)) (sd_auditLog f) = map audit_view (auditLogs d)"
  shows "map (\<lambda>(a, i, c, v). (a, Some i, Some c, Some v)) (sd_auditLog (fake_scan_audit act (fake_claim_of toks c) v f))
    = map audit_view (auditLogs d @ [\<lparr>a_entry = system_entry act (sc_documentId c) (sc_caseId c) v, a_occurredAt = t\<rparr>])"
  using assms by (simp add: fake_scan_audit_def audit_view_def system_entry_def fake_claim_of_def)

lemma finish_mirrored:
  assumes m: "scan_mirrors (f, fcs) (d, cs)" and c: "c \<in> set cs"
    and view: "\<And>r. scan_held c r \<Longrightarrow> untreated_row r \<Longrightarrow> scan_view (map sc_token cs) (finish_row st None now sig key r)
        = g (scan_view (map sc_token cs) r) \<and> untreated_row (finish_row st None now sig key r)"
    and keys: "\<And>y. sd_id (g y) = sd_id y"
    and op: "op = (\<lambda>f. if \<not> fake_holds (fake_claim_of (map sc_token cs) c) f then (False, f)
      else (True, fake_scan_audit act (fake_claim_of (map sc_token cs) c) v
         (f\<lparr>sd_documents := AList.map_entry (sc_documentId c) g (sd_documents f)\<rparr>)))"
  shows "\<exists>b f' d'. op f = (b, f') \<and> finish_scan None now c st act v key sig d = (Inr b, d') \<and>
    scan_mirrors (f', fcs) (d', cs)"
proof (cases "\<exists>r. find_document (sc_documentId c) d = Some r \<and> scan_held c r")
  case False
  with m show ?thesis
    by (intro exI [of _ False] exI [of _ f] exI [of _ d])
      (simp add: op holds_alike [OF m c] finish_scan_cases [OF scan_mirrorsD(1) [OF m]])
next
  case True
  then obtain r where r: "find_document (sc_documentId c) d = Some r" "scan_held c r" by blast
  note row = scan_mirrorsD(5) [OF m r(1)]
  let ?fc = "fake_claim_of (map sc_token cs) c"
  let ?f = "fake_scan_audit act ?fc v (f\<lparr>sd_documents := AList.map_entry (sc_documentId c) g (sd_documents f)\<rparr>)"
  let ?d = "finished None now c st act v key sig d"
  have ocr: "ocrStatusFor None c st = None" by (simp add: ocrStatusFor_def)
  have "scan_mirrors (?f, fcs) (?d, cs)"
  proof (rule scan_close_mirrors [OF m r])
    show "documents ?d = update_where (\<lambda>x. d_id x = sc_documentId c \<and> scan_held c x)
        (finish_row st None now sig key) (documents d)"
      by (simp add: ocr)
    show "scan_view (map sc_token cs) (finish_row st None now sig key r) = g (scan_view (map sc_token cs) r)"
      "untreated_row (finish_row st None now sig key r)"
      using view [OF r(2) row] by simp_all
    show "\<And>t. d_scanStartedAt (finish_row st None now sig key r) = Some t \<Longrightarrow> d_scanStartedAt r = Some t"
      by (simp add: finish_row_def)
    show "map (\<lambda>(a, i, c, v). (a, Some i, Some c, Some v)) (sd_auditLog ?f) = map audit_view (auditLogs ?d)"
      using m scan_audit_append [where f = "f\<lparr>sd_documents := AList.map_entry (sc_documentId c) g (sd_documents f)\<rparr>"
          and d = d and act = act and v = v and t = now and c = c and toks = "map sc_token cs"]
      by (simp add: finished_def ocr scan_mirrors_def Let_def)
  qed (simp_all add: keys fake_scan_audit_def)
  with True show ?thesis
    by (intro exI [of _ True] exI [of _ ?f] exI [of _ ?d])
      (simp add: op holds_alike [OF m c] finish_scan_cases [OF scan_mirrorsD(1) [OF m]] ocr)
qed

definition scan_alike :: "scan_call \<Rightarrow> scan_double \<times> fake_scan_claim list \<Rightarrow> db \<times> scan_claim list \<Rightarrow> bool" where
  "scan_alike op f d \<longleftrightarrow> fst (fake_scan op f) = fst (real_scan op d) \<and> scan_mirrors (snd (fake_scan op f)) (snd (real_scan op d))"

lemma closing_related:
  assumes "length fcs = length cs" and "R (f, fcs) (d, cs)"
    and "n < length cs \<Longrightarrow> fst (fop (fcs ! n) f) = fst (rop (cs ! n) d) \<and>
      R (snd (fop (fcs ! n) f), fcs) (snd (rop (cs ! n) d), cs)"
  shows "fst (closing none n fop (f, fcs)) = fst (closing none n rop (d, cs)) \<and>
    R (snd (closing none n fop (f, fcs))) (snd (closing none n rop (d, cs)))"
  using assms by (auto simp: closing_def split: prod.splits)

lemma closing_alike:
  assumes "scan_mirrors (f, fcs) (d, cs)"
    and "fake_scan op (f, fcs) = closing No_claim n (\<lambda>c f. case fop c f of (b, f) \<Rightarrow> (Scan_recorded b, f)) (f, fcs)"
    and "real_scan op (d, cs) = closing No_claim n (\<lambda>c d. recorded (rop c d)) (d, cs)"
    and "\<And>c. c \<in> set cs \<Longrightarrow> \<exists>b f' d'. fop (fake_claim_of (map sc_token cs) c) f = (b, f') \<and>
      rop c d = (Inr b, d') \<and> scan_mirrors (f', fcs) (d', cs)"
  shows "scan_alike op (f, fcs) (d, cs)"
  unfolding scan_alike_def assms(2,3)
proof (rule closing_related)
  show "length fcs = length cs" using scan_mirrorsD(3) [OF assms(1)] by simp
  assume n: "n < length cs"
  then have "fcs ! n = fake_claim_of (map sc_token cs) (cs ! n)"
    using scan_mirrorsD(3) [OF assms(1)] by simp
  with assms(4) [of "cs ! n"] n
  show "fst (case fop (fcs ! n) f of (b, f) \<Rightarrow> (Scan_recorded b, f)) = fst (recorded (rop (cs ! n) d)) \<and>
      scan_mirrors (snd (case fop (fcs ! n) f of (b, f) \<Rightarrow> (Scan_recorded b, f)), fcs) (snd (recorded (rop (cs ! n) d)), cs)"
    by (auto simp: recorded_def)
qed (rule assms(1))

lemma scan_results_alike:
  assumes m: "scan_mirrors (f, fcs) (d, cs)"
  shows "scan_alike (Scan_clean n now key) (f, fcs) (d, cs)"
    and "scan_alike (Scan_infected n now sig) (f, fcs) (d, cs)"
    and "scan_alike (Scan_failed n now) (f, fcs) (d, cs)"
proof -
  have clean: "\<exists>b f' d'. fake_markClean (fake_claim_of (map sc_token cs) c) key f = (b, f') \<and>
      markClean None now c key d = (Inr b, d') \<and> scan_mirrors (f', fcs) (d', cs)" if "c \<in> set cs" for c
    unfolding markClean_def
    by (rule finish_mirrored [OF m that, where op = "fake_markClean (fake_claim_of (map sc_token cs) c) key"
          and g = "\<lambda>r. r\<lparr>sd_status := CLEAN, sd_sanitizedStorageKey := key\<rparr>"])
      (auto simp: scan_held_def untreated_row_def scan_view_def finish_row_def fake_markClean_def fun_eq_iff fake_claim_of_def)
  show "scan_alike (Scan_clean n now key) (f, fcs) (d, cs)"
    by (rule closing_alike [where n = n and fop = "\<lambda>c. fake_markClean c key"
          and rop = "\<lambda>c. markClean None now c key", OF m _ _ clean]) simp_all
  have infected: "\<exists>b f' d'. fake_markInfected (fake_claim_of (map sc_token cs) c) sig f = (b, f') \<and>
      markInfected None now c sig d = (Inr b, d') \<and> scan_mirrors (f', fcs) (d', cs)" if "c \<in> set cs" for c
    unfolding markInfected_def
    by (rule finish_mirrored [OF m that, where op = "fake_markInfected (fake_claim_of (map sc_token cs) c) sig"
          and g = "\<lambda>r. r\<lparr>sd_status := INFECTED, sd_scanSignature := Some sig\<rparr>"])
      (auto simp: scan_held_def untreated_row_def scan_view_def finish_row_def fake_markInfected_def fun_eq_iff fake_claim_of_def)
  show "scan_alike (Scan_infected n now sig) (f, fcs) (d, cs)"
    by (rule closing_alike [where n = n and fop = "\<lambda>c. fake_markInfected c sig"
          and rop = "\<lambda>c. markInfected None now c sig", OF m _ _ infected]) simp_all
  have failed: "\<exists>b f' d'. fake_markFailed_scan (fake_claim_of (map sc_token cs) c) f = (b, f') \<and>
      markFailed_scan None now c d = (Inr b, d') \<and> scan_mirrors (f', fcs) (d', cs)" if "c \<in> set cs" for c
    unfolding markFailed_scan_def
    by (rule finish_mirrored [OF m that, where op = "fake_markFailed_scan (fake_claim_of (map sc_token cs) c)"
          and g = "\<lambda>r. r\<lparr>sd_status := SCAN_FAILED\<rparr>"])
      (auto simp: scan_held_def untreated_row_def scan_view_def finish_row_def fake_markFailed_scan_def fun_eq_iff fake_claim_of_def)
  show "scan_alike (Scan_failed n now) (f, fcs) (d, cs)"
    by (rule closing_alike [where n = n and fop = fake_markFailed_scan
          and rop = "markFailed_scan None now", OF m _ _ failed]) simp_all
qed

lemma scan_release_alike:
  assumes m: "scan_mirrors (f, fcs) (d, cs)"
  shows "scan_alike (Scan_release n) (f, fcs) (d, cs)"
proof -
  let ?g = "\<lambda>r. r\<lparr>sd_status := PENDING_SCAN, sd_scanStartedAt := None\<rparr>"
  have released: "\<exists>b f' d'. fake_release_scan (fake_claim_of (map sc_token cs) c) f = (b, f') \<and>
      release_scan c d = (Inr b, d') \<and> scan_mirrors (f', fcs) (d', cs)" if c: "c \<in> set cs" for c
  proof (cases "\<exists>r. find_document (sc_documentId c) d = Some r \<and> scan_held c r")
    case False
    with m show ?thesis
      by (intro exI [of _ False] exI [of _ f] exI [of _ d])
        (simp add: fake_release_scan_def holds_alike [OF m c] release_scan_cases [OF scan_mirrorsD(1) [OF m]])
  next
    case True
    then obtain r where r: "find_document (sc_documentId c) d = Some r" "scan_held c r" by blast
    let ?f = "f\<lparr>sd_documents := AList.map_entry (sc_documentId c) ?g (sd_documents f)\<rparr>"
    let ?d = "update_document (sc_documentId c) (scan_held c) release_row d"
    have "scan_mirrors (?f, fcs) (?d, cs)"
      by (rule scan_close_mirrors [OF m r, where g = ?g and g' = release_row])
        (use m r(2) scan_mirrorsD(5) [OF m r(1)] in \<open>auto simp: scan_view_def release_row_def untreated_row_def
          scan_held_def scan_mirrors_def Let_def\<close>)
    with True show ?thesis
      by (intro exI [of _ True] exI [of _ ?f] exI [of _ ?d])
        (simp add: fake_release_scan_def holds_alike [OF m c] release_scan_cases [OF scan_mirrorsD(1) [OF m]])
  qed
  show ?thesis
    by (rule closing_alike [where n = n and fop = fake_release_scan and rop = release_scan,
          OF m _ _ released]) simp_all
qed

lemma scan_claim_alike:
  assumes m: "scan_mirrors (f, fcs) (d, cs)" and ok: "scan_ok (Scan_claim i lease now) (d, cs)"
  shows "scan_alike (Scan_claim i lease now) (f, fcs) (d, cs)"
proof (cases "find_document i d")
  case None
  with m show ?thesis
    by (simp add: scan_alike_def fake_claim_scan_def scan_mirrorsD(2) [OF m] claim_scan_cases [OF scan_mirrorsD(1) [OF m]])
next
  case (Some r)
  let ?toks = "map sc_token cs" and ?ms = "now div 1000"
  let ?toks' = "?toks @ [now]"
  note r = find_document_SomeD [OF Some]
  have "t div 1000 < ?ms - lease * 1000 \<longleftrightarrow> t < now - 1000000 * lease" if "d_scanStartedAt r = Some t" for t
    using ok scan_mirrorsD(4) [OF m Some that] by auto
  then have claimable: "(sd_status (scan_view ?toks r) \<noteq> PENDING_SCAN \<and>
      \<not> (sd_status (scan_view ?toks r) = SCANNING \<and> (case sd_scanStartedAt (scan_view ?toks r) of None \<Rightarrow> False
          | Some (t, _) \<Rightarrow> t < ?ms - lease * 1000))) \<longleftrightarrow> \<not> claimable lease now r"
    by (auto simp: claimable_def older_than_def scan_view_def fake_token_def split: option.splits)
  show ?thesis
  proof (cases "claimable lease now r")
    case False
    with Some m claimable show ?thesis
      by (simp add: scan_alike_def fake_claim_scan_def scan_mirrorsD(2) [OF m] Let_def
          claim_scan_cases [OF scan_mirrorsD(1) [OF m]])
  next
    case True
    have m': "mirrors sd_id (sd_documents f) (map (scan_view ?toks) (documents d))"
      and rest: "fcs = map (fake_claim_of ?toks) cs" "distinct ?toks" "sd_tick f = length cs"
        "map (\<lambda>(a, i, c, v). (a, Some i, Some c, Some v)) (sd_auditLog f) = map audit_view (auditLogs d)"
      and rows: "\<forall>r \<in> set (documents d). untreated_row r \<and> (\<forall>t. d_scanStartedAt r = Some t \<longrightarrow> t \<in> set ?toks)"
      using m by (simp_all add: scan_mirrors_def Let_def)
    have new: "now \<notin> set ?toks" using ok by simp
    then have token: "fake_token ?toks' now = (?ms, Suc (sd_tick f))"
      using rest(3) by (simp add: fake_token_new)
    have view: "scan_view ?toks' x = scan_view ?toks x" if "x \<in> set (documents d)" for x
      using rows that by (cases "d_scanStartedAt x") (simp_all add: scan_view_def)
    let ?g = "\<lambda>x. x\<lparr>sd_status := SCANNING, sd_scanAttempts := sd_scanAttempts x + 1,
        sd_scanStartedAt := Some (?ms, Suc (sd_tick f))\<rparr>"
    let ?c = "to_scan_claim now (start_scan now r)"
    let ?d = "update_document i (claimable lease now) (start_scan now) d"
    let ?f = "f\<lparr>sd_documents := AList.map_entry i ?g (sd_documents f), sd_tick := Suc (sd_tick f)\<rparr>"
    have "distinct (map d_id (documents d))"
      using scan_mirrorsD(1) [OF m] by (simp add: unique_documents_def)
    note unique = this
    have "map (scan_view ?toks') (documents ?d) = update_where (\<lambda>y. sd_id y = i) ?g (map (scan_view ?toks) (documents d))"
      unfolding update_document_frame
      by (rule view_update [OF unique]) (use r True view token in \<open>auto simp: scan_view_def start_scan_def\<close>)
    with mirrors_entry [OF m', of ?g i]
    have "mirrors sd_id (sd_documents ?f) (map (scan_view ?toks') (documents ?d))" by simp
    moreover have "fcs = map (fake_claim_of ?toks') cs"
      using rest(1) by (simp add: fake_claim_of_def)
    moreover have "untreated_row x \<and> (\<forall>t. d_scanStartedAt x = Some t \<longrightarrow> t \<in> set ?toks')"
      if x: "x \<in> set (documents ?d)" for x
    proof -
      obtain y where y: "y \<in> set (documents d)"
          "x = (if d_id y = i \<and> claimable lease now y then start_scan now y else y)"
        using x unfolding update_document_frame by (rule mem_update_whereE)
      with rows show ?thesis
        by (auto simp: start_scan_def untreated_row_def claimable_def)
    qed
    moreover have "sc_token ?c = now" by (simp add: to_scan_claim_def)
    ultimately have "scan_mirrors (?f, fcs @ [fake_claim_of ?toks' ?c]) (?d, cs @ [?c])"
      using rest new by (simp add: scan_mirrors_def Let_def)
    moreover have "fake_claim_scan i lease ?ms f = (Some (fake_claim_of ?toks' ?c), ?f)"
      using Some True claimable r token
      by (simp add: fake_claim_scan_def scan_mirrorsD(2) [OF m] Let_def fake_claim_of_def to_scan_claim_def
          start_scan_def scan_view_def)
    moreover have "claim_scan i lease now d = (Inr (Some ?c), ?d)"
      using Some True by (simp add: claim_scan_cases [OF scan_mirrorsD(1) [OF m]])
    ultimately show ?thesis
      by (simp add: scan_alike_def claim_shape_def fake_claim_shape_def fake_claim_of_def)
  qed
qed

lemma scan_call_alike:
  assumes "scan_mirrors f d" and "scan_ok op d"
  shows "scan_alike op f d"
  using assms
  by (cases op; cases f; cases d) (simp_all only: scan_claim_alike scan_results_alike scan_release_alike)

interpretation scan_jobs: repository_double scan_mirrors scan_ok fake_scan real_scan
  using scan_call_alike by unfold_locales (auto simp: scan_alike_def)

text \<open>
  C30. The in-memory repository the scan job is tested with answers, claim by claim and result by
  result, what the one over PostgreSQL answers with the OCR off (the double has no OCR; with it on,
  the repository also moves the OCR status and sends its job), and ends with the same documents and
  events, whichever worker closes which claim and in whatever order, if no two claims are made in
  the same instant and no lease ends within the millisecond of a claim.
\<close>

theorem scan_double_alike:
  assumes "scan_mirrors f d" and "calls_ok scan_ok real_scan calls d"
  shows "fst (run_calls fake_scan calls f) = fst (run_calls real_scan calls d) \<and>
    scan_mirrors (snd (run_calls fake_scan calls f)) (snd (run_calls real_scan calls d))"
  by (rule scan_jobs.same_run [OF assms])

definition sample_upload :: document_row where
  "sample_upload = \<lparr>d_id = ''d1'', d_caseId = ''case-1'', d_fileName = [97], d_fileType = PDF,
     d_storageKey = ''cases/case-1/documents/d1'', d_fileSize = 5, d_uploadedByUserId = ''u1'', d_createdAt = 1,
     d_status = PENDING_SCAN, d_ocrStatus = NOT_STARTED, d_scanAttempts = 0, d_scanStartedAt = None,
     d_scannedAt = None, d_scanSignature = None, d_sanitizedStorageKey = None, d_ocrAttempts = 0,
     d_ocrStartedAt = None\<rparr>"

definition sample_scan_tables :: "db \<times> scan_claim list" where
  "sample_scan_tables = (empty_db\<lparr>documents := [sample_upload]\<rparr>, [])"

definition sample_scan_double :: "scan_double \<times> fake_scan_claim list" where
  "sample_scan_double = (fake_add_scan (added_scan_row ''d1'' PDF 5)
     \<lparr>sd_documents = [], sd_auditLog = [], sd_tick = 0\<rparr>, [])"

text \<open>The second worker takes the document over once the lease of the first is over.\<close>

definition sample_scan_calls :: "scan_call list" where
  "sample_scan_calls =
    [Scan_claim ''d1'' 60 1000000, Scan_claim ''d1'' 60 2000000, Scan_claim ''d1'' 60 90000000,
     Scan_clean 0 91000000 None, Scan_infected 1 92000000 ''Eicar'', Scan_failed 1 93000000]"

lemma sample_scan_mirrors: "scan_mirrors sample_scan_double sample_scan_tables"
  by (simp add: scan_mirrors_def sample_scan_double_def sample_scan_tables_def fake_add_scan_def added_scan_row_def
      sample_upload_def empty_db_def mirrors_def scan_view_def untreated_row_def)

lemma sample_scan_ok: "calls_ok scan_ok real_scan sample_scan_calls sample_scan_tables"
  by code_simp

lemma sample_scan_answers: "drop 3 (fst (run_calls real_scan sample_scan_calls sample_scan_tables)) =
    [Scan_recorded False, Scan_recorded True, Scan_recorded False]"
  by code_simp

theorem scan_double_alike_witness:
  "scan_mirrors sample_scan_double sample_scan_tables \<and>
   calls_ok scan_ok real_scan sample_scan_calls sample_scan_tables \<and>
   drop 3 (fst (run_calls fake_scan sample_scan_calls sample_scan_double)) =
     [Scan_recorded False, Scan_recorded True, Scan_recorded False]"
  using scan_double_alike [OF sample_scan_mirrors sample_scan_ok] sample_scan_mirrors sample_scan_ok
    sample_scan_answers by simp

text \<open>
  Where the two differ: a lease that ended within the millisecond of the new claim is over for
  PostgreSQL, whose clock has microseconds, and not yet for the double.
\<close>

lemma lease_boundary_differs:
  "last (fst (run_calls real_scan
      [Scan_claim ''d1'' 60 1000000, Scan_claim ''d1'' 60 61000500] sample_scan_tables)) \<noteq> Scan_claimed None"
  "last (fst (run_calls fake_scan
      [Scan_claim ''d1'' 60 1000000, Scan_claim ''d1'' 60 61000500] sample_scan_double)) = Scan_claimed None"
  by code_simp+

end
