(* ===== verification/Ocr_Double.thy ===== *)
theory Ocr_Double
  imports Scan_Double Ocr_Repository
begin

text \<open>
  \<open>FakeOcrRepository\<close> (apps/worker/src/test-support/ocr.repository.fake.ts), which the OCR job is
  tested with, and when it answers like the repository: its executions and retries are lists, the
  pages come with the execution, and no lease ever ends.
\<close>

section \<open>The OCR double\<close>

text \<open>The tokens \<open>`t${tick}`\<close> and, after the hook that steals a claim, \<open>`stolen${tick}`\<close>.\<close>

datatype ocr_double_token = Claimed_at nat | Stolen_at nat

record ocr_double_row =
  od_id :: uuid
  od_caseId :: uuid
  od_status :: document_status
  od_fileType :: document_file_type
  od_storageKey :: string
  od_sanitizedStorageKey :: "string option"
  od_fileSize :: int
  od_ocrStatus :: document_ocr_status
  od_ocrAttempts :: int
  od_token :: "ocr_double_token option"

record ocr_double =
  od_documents :: "(uuid \<times> ocr_double_row) list"
  od_completed :: "(uuid \<times> completed_execution \<times> js_text list) list"
  od_failed :: "(uuid \<times> failed_execution) list"
  od_retries :: "(uuid \<times> int) list"
  od_excluded :: "uuid list"
  od_tick :: nat

record fake_ocr_claim =
  fq_documentId :: uuid
  fq_caseId :: uuid
  fq_fileType :: document_file_type
  fq_storageKey :: string
  fq_sanitizedStorageKey :: "string option"
  fq_fileSize :: int
  fq_attempts :: int
  fq_token :: ocr_double_token

definition added_ocr_row :: "uuid \<Rightarrow> ocr_double_row" where
  "added_ocr_row i = \<lparr>od_id = i, od_caseId = ''11111111-1111-4111-8111-111111111111'', od_status = CLEAN,
     od_fileType = JPEG, od_storageKey = ''cases/x/documents/'' @ i,
     od_sanitizedStorageKey = Some (''cases/x/documents/'' @ i @ ''.sanitized''), od_fileSize = 0,
     od_ocrStatus = PENDING, od_ocrAttempts = 0, od_token = None\<rparr>"

definition fake_add_ocr :: "ocr_double_row \<Rightarrow> ocr_double \<Rightarrow> ocr_double_row \<times> ocr_double" where
  "fake_add_ocr r f = (r, f\<lparr>od_documents := AList.update (od_id r) r (od_documents f)\<rparr>)"

definition fake_claim_ocr :: "uuid \<Rightarrow> ocr_double \<Rightarrow> fake_ocr_claim option \<times> ocr_double" where
  "fake_claim_ocr documentId f =
    (case map_of (od_documents f) documentId of
       None \<Rightarrow> (None, f)
     | Some r \<Rightarrow>
         if od_status r \<noteq> CLEAN \<or> od_ocrStatus r \<noteq> PENDING then (None, f)
         else
           let token = Claimed_at (Suc (od_tick f));
               take = (\<lambda>r. r\<lparr>od_ocrStatus := PROCESSING, od_ocrAttempts := od_ocrAttempts r + 1, od_token := Some token\<rparr>);
               r = take r
           in (Some \<lparr>fq_documentId = od_id r, fq_caseId = od_caseId r, fq_fileType = od_fileType r,
                 fq_storageKey = od_storageKey r, fq_sanitizedStorageKey = od_sanitizedStorageKey r,
                 fq_fileSize = od_fileSize r, fq_attempts = od_ocrAttempts r, fq_token = token\<rparr>,
               f\<lparr>od_documents := AList.map_entry documentId take (od_documents f), od_tick := Suc (od_tick f)\<rparr>))"

definition fake_current :: "fake_ocr_claim \<Rightarrow> ocr_double \<Rightarrow> bool" where
  "fake_current c f =
    (case map_of (od_documents f) (fq_documentId c) of
       None \<Rightarrow> False
     | Some r \<Rightarrow> od_ocrStatus r = PROCESSING \<and> od_token r = Some (fq_token c))"

definition set_ocr_row :: "fake_ocr_claim \<Rightarrow> (ocr_double_row \<Rightarrow> ocr_double_row) \<Rightarrow> ocr_double \<Rightarrow> ocr_double" where
  "set_ocr_row c g f = f\<lparr>od_documents := AList.map_entry (fq_documentId c) g (od_documents f)\<rparr>"

definition fake_markCompleted ::
  "fake_ocr_claim \<Rightarrow> completed_execution \<Rightarrow> js_text list \<Rightarrow> ocr_double \<Rightarrow> bool \<times> ocr_double" where
  "fake_markCompleted c execution pages f =
    (if \<not> fake_current c f then (False, f)
     else (True, (set_ocr_row c (\<lambda>r. r\<lparr>od_ocrStatus := COMPLETED\<rparr>) f)
       \<lparr>od_completed := od_completed f @ [(fq_documentId c, execution, pages)]\<rparr>))"

definition fake_markFailed_ocr :: "fake_ocr_claim \<Rightarrow> failed_execution \<Rightarrow> ocr_double \<Rightarrow> bool \<times> ocr_double" where
  "fake_markFailed_ocr c execution f =
    (if \<not> fake_current c f then (False, f)
     else (True, (set_ocr_row c (\<lambda>r. r\<lparr>od_ocrStatus := FAILED\<rparr>) f)
       \<lparr>od_failed := od_failed f @ [(fq_documentId c, execution)]\<rparr>))"

definition fake_releaseForRetry :: "fake_ocr_claim \<Rightarrow> int \<Rightarrow> ocr_double \<Rightarrow> bool \<times> ocr_double" where
  "fake_releaseForRetry c delaySeconds f =
    (if \<not> fake_current c f then (False, f)
     else (True, (set_ocr_row c (\<lambda>r. r\<lparr>od_ocrStatus := PENDING, od_token := None\<rparr>) f)
       \<lparr>od_retries := od_retries f @ [(fq_documentId c, delaySeconds)]\<rparr>))"

definition fake_markExcluded :: "fake_ocr_claim \<Rightarrow> ocr_double \<Rightarrow> bool \<times> ocr_double" where
  "fake_markExcluded c f =
    (if \<not> fake_current c f then (False, f)
     else (True, (set_ocr_row c (\<lambda>r. r\<lparr>od_ocrStatus := EXCLUDED\<rparr>) f)
       \<lparr>od_excluded := od_excluded f @ [fq_documentId c]\<rparr>))"

text \<open>The hook with which a test takes a claim over: the document it names must exist.\<close>

definition fake_steal :: "uuid \<Rightarrow> ocr_double \<Rightarrow> ocr_double" where
  "fake_steal documentId f = f\<lparr>od_documents := AList.map_entry documentId
     (\<lambda>r. r\<lparr>od_token := Some (Stolen_at (Suc (od_tick f)))\<rparr>) (od_documents f), od_tick := Suc (od_tick f)\<rparr>"

datatype ocr_call =
    Ocr_claim uuid int time
  | Ocr_complete nat time completed_execution "js_text list"
  | Ocr_fail nat time failed_execution
  | Ocr_retry nat int
  | Ocr_exclude nat

type_synonym ocr_claim_shape =
  "uuid \<times> uuid \<times> document_file_type \<times> string \<times> string option \<times> int \<times> int"

datatype ocr_answer =
    Ocr_claimed "ocr_claim_shape option" | Ocr_recorded bool | Ocr_threw exn | No_ocr_claim

definition ocr_claim_shape :: "ocr_claim \<Rightarrow> ocr_claim_shape" where
  "ocr_claim_shape c = (oc_documentId c, oc_caseId c, oc_fileType c, oc_storageKey c, oc_sanitizedStorageKey c,
     oc_fileSize c, oc_attempts c)"

definition fake_ocr_claim_shape :: "fake_ocr_claim \<Rightarrow> ocr_claim_shape" where
  "fake_ocr_claim_shape c = (fq_documentId c, fq_caseId c, fq_fileType c, fq_storageKey c,
     fq_sanitizedStorageKey c, fq_fileSize c, fq_attempts c)"

definition ocr_bool :: "bool \<times> ocr_double \<Rightarrow> ocr_answer \<times> ocr_double" where
  "ocr_bool = (\<lambda>(b, f). (Ocr_recorded b, f))"

fun fake_ocr :: "ocr_call \<Rightarrow> ocr_double \<times> fake_ocr_claim list \<Rightarrow> ocr_answer \<times> ocr_double \<times> fake_ocr_claim list" where
  "fake_ocr (Ocr_claim i lease now) (f, cs) =
    (case fake_claim_ocr i f of
       (None, f) \<Rightarrow> (Ocr_claimed None, f, cs)
     | (Some c, f) \<Rightarrow> (Ocr_claimed (Some (fake_ocr_claim_shape c)), f, cs @ [c]))"
| "fake_ocr (Ocr_complete n now x texts) s =
     closing No_ocr_claim n (\<lambda>c f. ocr_bool (fake_markCompleted c x texts f)) s"
| "fake_ocr (Ocr_fail n now x) s = closing No_ocr_claim n (\<lambda>c f. ocr_bool (fake_markFailed_ocr c x f)) s"
| "fake_ocr (Ocr_retry n delay) s = closing No_ocr_claim n (\<lambda>c f. ocr_bool (fake_releaseForRetry c delay f)) s"
| "fake_ocr (Ocr_exclude n) s = closing No_ocr_claim n (\<lambda>c f. ocr_bool (fake_markExcluded c f)) s"

definition ocr_recorded :: "(exn + bool) \<times> db \<Rightarrow> ocr_answer \<times> db" where
  "ocr_recorded = (\<lambda>(r, d). (case r of Inl e \<Rightarrow> Ocr_threw e | Inr b \<Rightarrow> Ocr_recorded b, d))"

fun real_ocr :: "ocr_call \<Rightarrow> db \<times> ocr_claim list \<Rightarrow> ocr_answer \<times> db \<times> ocr_claim list" where
  "real_ocr (Ocr_claim i lease now) (d, cs) =
    (case claim_ocr i lease now d of
       (Inl e, d) \<Rightarrow> (Ocr_threw e, d, cs)
     | (Inr None, d) \<Rightarrow> (Ocr_claimed None, d, cs)
     | (Inr (Some c), d) \<Rightarrow> (Ocr_claimed (Some (ocr_claim_shape c)), d, cs @ [c]))"
| "real_ocr (Ocr_complete n now x texts) s =
     closing No_ocr_claim n (\<lambda>c d. ocr_recorded (markCompleted now c x texts d)) s"
| "real_ocr (Ocr_fail n now x) s = closing No_ocr_claim n (\<lambda>c d. ocr_recorded (markFailed_ocr now c x d)) s"
| "real_ocr (Ocr_retry n delay) s = closing No_ocr_claim n (\<lambda>c d. ocr_recorded (releaseForRetry True c delay d)) s"
| "real_ocr (Ocr_exclude n) s = closing No_ocr_claim n (\<lambda>c d. ocr_recorded (markExcluded c d)) s"

text \<open>
  No claim is made over one whose lease is over, which the double does not do; identifiers of
  executions are new; and a completed execution has all of its pages, at least one.
\<close>

definition new_result :: "uuid \<Rightarrow> db \<Rightarrow> bool" where
  "new_result i d \<longleftrightarrow> i \<notin> r_id ` set (ocrResults d) \<and> i \<notin> p_ocrResultId ` set (ocrPages d)"

fun ocr_ok :: "ocr_call \<Rightarrow> db \<times> ocr_claim list \<Rightarrow> bool" where
  "ocr_ok (Ocr_claim i lease now) (d, cs) =
    (now \<notin> oc_token ` set cs \<and> (\<forall>c \<in> set cs. \<not> older_than (Some (oc_token c)) now lease))"
| "ocr_ok (Ocr_complete n now x texts) (d, cs) =
    (int (length texts) = ex_pages x \<and> 1 \<le> ex_pages x \<and> new_result (ex_id x) d)"
| "ocr_ok (Ocr_fail n now x) (d, cs) = new_result (ex_id x) d"
| "ocr_ok _ s = True"

definition ocr_view :: "time list \<Rightarrow> document_row \<Rightarrow> ocr_double_row" where
  "ocr_view toks r =
    \<lparr>od_id = d_id r, od_caseId = d_caseId r, od_status = d_status r, od_fileType = d_fileType r,
     od_storageKey = d_storageKey r, od_sanitizedStorageKey = d_sanitizedStorageKey r, od_fileSize = d_fileSize r,
     od_ocrStatus = d_ocrStatus r, od_ocrAttempts = d_ocrAttempts r,
     od_token = map_option (\<lambda>t. Claimed_at (place toks t)) (d_ocrStartedAt r)\<rparr>"

definition fake_ocr_claim_of :: "time list \<Rightarrow> ocr_claim \<Rightarrow> fake_ocr_claim" where
  "fake_ocr_claim_of toks c =
    \<lparr>fq_documentId = oc_documentId c, fq_caseId = oc_caseId c, fq_fileType = oc_fileType c,
     fq_storageKey = oc_storageKey c, fq_sanitizedStorageKey = oc_sanitizedStorageKey c,
     fq_fileSize = oc_fileSize c, fq_attempts = oc_attempts c, fq_token = Claimed_at (place toks (oc_token c))\<rparr>"

definition stored_pages :: "uuid \<Rightarrow> db \<Rightarrow> js_text list" where
  "stored_pages i d = map p_text (filter (\<lambda>p. p_ocrResultId p = i) (ocrPages d))"

text \<open>The executions and the retries of the double are the rows and the delayed jobs of the tables.\<close>

definition results_mirror :: "ocr_double \<Rightarrow> db \<Rightarrow> bool" where
  "results_mirror f d \<longleftrightarrow>
     map (\<lambda>(i, x, ps). (i, ex_id x, ps)) (od_completed f)
       = map (\<lambda>r. (r_documentId r, r_id r, stored_pages (r_id r) d))
           (filter (\<lambda>r. r_outcome r = Outcome_COMPLETED) (ocrResults d)) \<and>
     map (\<lambda>(i, x). (i, ex_id x, Some (ex_errorCode x))) (od_failed f)
       = map (\<lambda>r. (r_documentId r, r_id r, r_errorCode r))
           (filter (\<lambda>r. r_outcome r = Outcome_FAILED) (ocrResults d)) \<and>
     od_retries f = map (\<lambda>j. (j_documentId j, j_startAfter j)) (filter (\<lambda>j. j_queue j = DOCUMENT_OCR_QUEUE) (jobs d))"

definition ocr_mirrors :: "ocr_double \<times> fake_ocr_claim list \<Rightarrow> db \<times> ocr_claim list \<Rightarrow> bool" where
  "ocr_mirrors = (\<lambda>(f, fcs) (d, cs).
     let toks = map oc_token cs
     in mirrors od_id (od_documents f) (map (ocr_view toks) (documents d)) \<and>
        fcs = map (fake_ocr_claim_of toks) cs \<and> distinct toks \<and> od_tick f = length cs \<and> results_mirror f d \<and>
        (\<forall>r \<in> set (documents d). \<forall>t. d_ocrStartedAt r = Some t \<longrightarrow> t \<in> set toks))"

section \<open>The OCR double answers alike\<close>

lemma place_eq: "t \<in> set toks \<Longrightarrow> t' \<in> set toks \<Longrightarrow> place toks t = place toks t' \<longleftrightarrow> t = t'"
  by (metis place_nth)

lemma place_append [simp]: "t \<in> set toks \<Longrightarrow> place (toks @ ts) t = place toks t"
  by (simp add: place_def takeWhile_append1)

lemma place_new: "t \<notin> set toks \<Longrightarrow> place (toks @ [t]) t = Suc (length toks)"
  using fake_token_new [of t toks] by (simp add: fake_token_def)

lemma fake_ocr_claim_of_id [simp]: "fq_documentId (fake_ocr_claim_of toks c) = oc_documentId c"
  by (simp add: fake_ocr_claim_of_def)

lemma ocr_mirrorsD:
  assumes "ocr_mirrors (f, fcs) (d, cs)"
  shows "unique_documents d"
    "map_of (od_documents f) i = map_option (ocr_view (map oc_token cs)) (find_document i d)"
    "fcs = map (fake_ocr_claim_of (map oc_token cs)) cs"
    "find_document i d = Some r \<Longrightarrow> d_ocrStartedAt r = Some t \<Longrightarrow> t \<in> oc_token ` set cs"
    "mirrors od_id (od_documents f) (map (ocr_view (map oc_token cs)) (documents d))"
    "distinct (map oc_token cs)" "od_tick f = length cs" "results_mirror f d"
    "\<forall>r \<in> set (documents d). \<forall>t. d_ocrStartedAt r = Some t \<longrightarrow> t \<in> set (map oc_token cs)"
proof -
  show m: "mirrors od_id (od_documents f) (map (ocr_view (map oc_token cs)) (documents d))"
    and "fcs = map (fake_ocr_claim_of (map oc_token cs)) cs" "distinct (map oc_token cs)"
    "od_tick f = length cs" "results_mirror f d"
    and rows: "\<forall>r \<in> set (documents d). \<forall>t. d_ocrStartedAt r = Some t \<longrightarrow> t \<in> set (map oc_token cs)"
    using assms by (simp_all add: ocr_mirrors_def Let_def)
  have ids: "od_id \<circ> ocr_view toks = d_id" for toks by (simp add: fun_eq_iff ocr_view_def)
  show "unique_documents d" using m by (simp add: mirrors_def unique_documents_def ids)
  have "find (\<lambda>y. od_id y = i) (map (ocr_view toks) rows)
      = map_option (ocr_view toks) (find (\<lambda>r. d_id r = i) rows)" for toks rows
    by (induction rows) (auto simp: ocr_view_def)
  with mirrors_get [OF m, of i]
  show "map_of (od_documents f) i = map_option (ocr_view (map oc_token cs)) (find_document i d)"
    by (simp add: find_document_def)
  show "find_document i d = Some r \<Longrightarrow> d_ocrStartedAt r = Some t \<Longrightarrow> t \<in> oc_token ` set cs"
    using rows find_document_SomeD [of i d r] by auto
qed

lemma current_alike:
  assumes "ocr_mirrors (f, fcs) (d, cs)" and "c \<in> set cs"
  shows "fake_current (fake_ocr_claim_of (map oc_token cs) c) f \<longleftrightarrow>
    (\<exists>r. find_document (oc_documentId c) d = Some r \<and> ocr_held c r)"
proof (cases "find_document (oc_documentId c) d")
  case None
  then show ?thesis
    by (simp add: fake_current_def fake_ocr_claim_of_def ocr_mirrorsD(2) [OF assms(1)])
next
  case (Some r)
  have "place (map oc_token cs) t = place (map oc_token cs) (oc_token c) \<longleftrightarrow> t = oc_token c"
    if "d_ocrStartedAt r = Some t" for t
    using ocr_mirrorsD(4) [OF assms(1) Some that] assms(2) by (intro place_eq) auto
  with Some show ?thesis
    by (cases "d_ocrStartedAt r")
      (auto simp: fake_current_def fake_ocr_claim_of_def ocr_mirrorsD(2) [OF assms(1)] ocr_held_def ocr_view_def)
qed

lemma ocr_close_mirrors:
  assumes m: "ocr_mirrors (f, fcs) (d, cs)" and "find_document (oc_documentId c) d = Some r" and "ocr_held c r"
    and docs: "documents d' = update_where (\<lambda>x. d_id x = oc_documentId c \<and> ocr_held c x) g' (documents d)"
    and view: "ocr_view (map oc_token cs) (g' r) = g (ocr_view (map oc_token cs) r)"
    and row: "\<And>t. d_ocrStartedAt (g' r) = Some t \<Longrightarrow> d_ocrStartedAt r = Some t"
    and keys: "\<And>y. od_id (g y) = od_id y"
    and f': "od_documents f' = AList.map_entry (oc_documentId c) g (od_documents f)" "od_tick f' = od_tick f"
    and results: "results_mirror f' d'"
  shows "ocr_mirrors (f', fcs) (d', cs)"
proof -
  let ?toks = "map oc_token cs" and ?i = "oc_documentId c"
  note r = find_document_SomeD [OF assms(2)]
  have distinct: "distinct (map d_id (documents d))"
    using ocr_mirrorsD(1) [OF m] by (simp add: unique_documents_def)
  have "map (ocr_view ?toks) (documents d') = update_where (\<lambda>y. od_id y = ?i) g (map (ocr_view ?toks) (documents d))"
    unfolding docs by (rule view_update [OF distinct]) (use r assms(3) view in \<open>auto simp: ocr_view_def\<close>)
  with mirrors_entry [OF ocr_mirrorsD(5) [OF m] keys, of ?i]
  have "mirrors od_id (od_documents f') (map (ocr_view ?toks) (documents d'))" by (simp add: f')
  moreover have "\<forall>t. d_ocrStartedAt x = Some t \<longrightarrow> t \<in> set ?toks" if x: "x \<in> set (documents d')" for x
  proof -
    obtain y where y: "y \<in> set (documents d)" "x = (if d_id y = ?i \<and> ocr_held c y then g' y else y)"
      using x unfolding docs by (rule mem_update_whereE)
    have "y = r" if "d_id y = ?i" using unique_key [OF distinct y(1), of r] r that by simp
    with y(1) r ocr_mirrorsD(9) [OF m] row show ?thesis unfolding y(2) by auto
  qed
  ultimately show ?thesis
    using ocr_mirrorsD(3,6,7) [OF m] results f'(2) by (simp add: ocr_mirrors_def Let_def)
qed

definition ocr_alike :: "ocr_call \<Rightarrow> ocr_double \<times> fake_ocr_claim list \<Rightarrow> db \<times> ocr_claim list \<Rightarrow> bool" where
  "ocr_alike op f d \<longleftrightarrow> fst (fake_ocr op f) = fst (real_ocr op d) \<and> ocr_mirrors (snd (fake_ocr op f)) (snd (real_ocr op d))"

text \<open>
  An operation that closes a claim is alike when both sides refuse one that is not held and, for
  one that is, change the row in the same way and keep the results and the retries related.
\<close>

lemma ocr_closing_alike:
  assumes m: "ocr_mirrors (f, fcs) (d, cs)"
    and fake: "fake_ocr op (f, fcs) = closing No_ocr_claim n (\<lambda>c f. ocr_bool (fop c f)) (f, fcs)"
    and real: "real_ocr op (d, cs) = closing No_ocr_claim n (\<lambda>c d. ocr_recorded (rop c d)) (d, cs)"
    and fop: "\<And>c. fop c f = (if \<not> fake_current c f then (False, f) else (True, f' c))"
    and rop: "\<And>c. c \<in> set cs \<Longrightarrow> rop c d = (if \<exists>r. find_document (oc_documentId c) d = Some r \<and> ocr_held c r
        then (Inr True, d' c) else (Inr False, d))"
    and rows: "\<And>c. documents (d' c) = update_where (\<lambda>x. d_id x = oc_documentId c \<and> ocr_held c x) g' (documents d)"
      "\<And>c. od_documents (f' c) = AList.map_entry (fq_documentId c) g (od_documents f)" "\<And>c. od_tick (f' c) = od_tick f"
    and view: "\<And>r. ocr_view (map oc_token cs) (g' r) = g (ocr_view (map oc_token cs) r)"
      "\<And>r t. d_ocrStartedAt (g' r) = Some t \<Longrightarrow> d_ocrStartedAt r = Some t" "\<And>y. od_id (g y) = od_id y"
    and results: "\<And>c. c \<in> set cs \<Longrightarrow> results_mirror (f' (fake_ocr_claim_of (map oc_token cs) c)) (d' c)"
  shows "ocr_alike op (f, fcs) (d, cs)"
  unfolding ocr_alike_def fake real
proof (rule closing_related)
  show "length fcs = length cs" using ocr_mirrorsD(3) [OF m] by simp
  assume "n < length cs"
  then have n: "fcs ! n = fake_ocr_claim_of (map oc_token cs) (cs ! n)" "cs ! n \<in> set cs"
    using ocr_mirrorsD(3) [OF m] by simp_all
  let ?c = "cs ! n" and ?fc = "fake_ocr_claim_of (map oc_token cs) (cs ! n)"
  show "fst (ocr_bool (fop (fcs ! n) f)) = fst (ocr_recorded (rop ?c d)) \<and>
      ocr_mirrors (snd (ocr_bool (fop (fcs ! n) f)), fcs) (snd (ocr_recorded (rop ?c d)), cs)"
  proof (cases "\<exists>r. find_document (oc_documentId ?c) d = Some r \<and> ocr_held ?c r")
    case False
    with m show ?thesis
      by (simp add: n(1) fop rop [OF n(2)] current_alike [OF m n(2)] ocr_bool_def ocr_recorded_def)
  next
    case True
    then obtain r where r: "find_document (oc_documentId ?c) d = Some r" "ocr_held ?c r" by blast
    have "ocr_mirrors (f' ?fc, fcs) (d' ?c, cs)"
      by (rule ocr_close_mirrors [OF m r rows(1) view(1,2,3) _ rows(3) results [OF n(2)]])
        (simp_all add: rows(2))
    with True show ?thesis
      by (simp add: n(1) fop rop [OF n(2)] current_alike [OF m n(2)] ocr_bool_def ocr_recorded_def)
  qed
qed (rule m)

lemma stored_pages_new:
  assumes "new_result i d" and "ocrPages d' = ocrPages d @ page_rows i texts"
  shows "stored_pages i d' = texts"
    and "r \<in> set (ocrResults d) \<Longrightarrow> stored_pages (r_id r) d' = stored_pages (r_id r) d"
proof -
  have pages: "map p_text (filter (\<lambda>p. p_ocrResultId p = j) (map (\<lambda>(n, t).
      \<lparr>p_ocrResultId = i, p_pageNumber = int n + 1, p_text = t\<rparr>) (enumerate k texts))) = (if j = i then texts else [])" for j k
    by (induction texts arbitrary: k) auto
  have "filter (\<lambda>p. p_ocrResultId p = i) (ocrPages d) = []"
    using assms(1) by (auto simp: new_result_def filter_empty_conv)
  with pages show "stored_pages i d' = texts"
    by (simp add: stored_pages_def assms(2) page_rows_def)
  assume "r \<in> set (ocrResults d)"
  then have "r_id r \<noteq> i" using assms(1) by (auto simp: new_result_def)
  with pages show "stored_pages (r_id r) d' = stored_pages (r_id r) d"
    by (simp add: stored_pages_def assms(2) page_rows_def)
qed

lemma results_frame:
  assumes "results_mirror f d" and "ocrResults d' = ocrResults d" "ocrPages d' = ocrPages d" "jobs d' = jobs d"
    and "od_completed f' = od_completed f" "od_failed f' = od_failed f" "od_retries f' = od_retries f"
  shows "results_mirror f' d'"
  using assms by (simp add: results_mirror_def stored_pages_def)

lemma set_ocr_row_frame [simp]:
  "od_documents (set_ocr_row c g f) = AList.map_entry (fq_documentId c) g (od_documents f)"
  "od_tick (set_ocr_row c g f) = od_tick f" "od_completed (set_ocr_row c g f) = od_completed f"
  "od_failed (set_ocr_row c g f) = od_failed f" "od_retries (set_ocr_row c g f) = od_retries f"
  by (simp_all add: set_ocr_row_def)

lemma finish_results:
  assumes m: "results_mirror f d" and new: "new_result (ex_id x) d"
    and d': "d' = ocr_finished now c outcome x detail d"
  shows "map (\<lambda>r. (r_documentId r, r_id r, stored_pages (r_id r) d')) (filter (\<lambda>r. r_outcome r = Outcome_COMPLETED) (ocrResults d'))
      = map (\<lambda>(i, x, ps). (i, ex_id x, ps)) (od_completed f)
        @ (if outcome = Outcome_COMPLETED then [(oc_documentId c, ex_id x, fd_pageTexts detail)] else [])"
    and "map (\<lambda>r. (r_documentId r, r_id r, r_errorCode r)) (filter (\<lambda>r. r_outcome r = Outcome_FAILED) (ocrResults d'))
      = map (\<lambda>(i, x). (i, ex_id x, Some (ex_errorCode x))) (od_failed f)
        @ (if outcome = Outcome_FAILED then [(oc_documentId c, ex_id x, fd_errorCode detail)] else [])"
proof -
  have rows: "ocrResults d' = ocrResults d @ [result_row c outcome x detail now]" by (simp add: d')
  have pages: "ocrPages d' = ocrPages d @ page_rows (ex_id x) (fd_pageTexts detail)" by (simp add: d')
  have old: "map (\<lambda>r. (r_documentId r, r_id r, stored_pages (r_id r) d')) (filter P (ocrResults d))
      = map (\<lambda>r. (r_documentId r, r_id r, stored_pages (r_id r) d)) (filter P (ocrResults d))" for P
    by (rule map_cong) (auto simp: stored_pages_new(2) [OF new pages])
  show "map (\<lambda>r. (r_documentId r, r_id r, stored_pages (r_id r) d')) (filter (\<lambda>r. r_outcome r = Outcome_COMPLETED) (ocrResults d'))
      = map (\<lambda>(i, x, ps). (i, ex_id x, ps)) (od_completed f)
        @ (if outcome = Outcome_COMPLETED then [(oc_documentId c, ex_id x, fd_pageTexts detail)] else [])"
    using m old stored_pages_new(1) [OF new pages]
    by (simp add: results_mirror_def rows result_row_def)
  show "map (\<lambda>r. (r_documentId r, r_id r, r_errorCode r)) (filter (\<lambda>r. r_outcome r = Outcome_FAILED) (ocrResults d'))
      = map (\<lambda>(i, x). (i, ex_id x, Some (ex_errorCode x))) (od_failed f)
        @ (if outcome = Outcome_FAILED then [(oc_documentId c, ex_id x, fd_errorCode detail)] else [])"
    using m by (simp add: results_mirror_def rows result_row_def)
qed

lemma ocr_results_alike:
  assumes m: "ocr_mirrors (f, fcs) (d, cs)"
  shows "ocr_ok (Ocr_complete n now x texts) (d, cs) \<Longrightarrow> ocr_alike (Ocr_complete n now x texts) (f, fcs) (d, cs)"
    and "ocr_ok (Ocr_fail n now y) (d, cs) \<Longrightarrow> ocr_alike (Ocr_fail n now y) (f, fcs) (d, cs)"
proof -
  note u = ocr_mirrorsD(1) [OF m] and results = ocr_mirrorsD(8) [OF m]
  show "ocr_alike (Ocr_complete n now x texts) (f, fcs) (d, cs)" if ok: "ocr_ok (Ocr_complete n now x texts) (d, cs)"
  proof -
    define detail where "detail = (\<lambda>c :: ocr_claim. \<lparr>fd_pages = Some (ex_pages x), fd_pageTexts = texts, fd_errorCode = None,
        fd_action = ''document.ocr_completed'',
        fd_newValue = [(''status'', JStr ''COMPLETED''), (''pages'', JNum (ex_pages x)),
          (''attempts'', JNum (oc_attempts c))]\<rparr>)"
    have new: "new_result (ex_id x) d" using ok by simp
    have fine: "\<not> result_violates (result_row c Outcome_COMPLETED x (detail c) now) (fd_pageTexts (detail c)) d" for c
      using ok by (auto simp: result_violates_def result_row_def detail_def new_result_def image_iff)
    show ?thesis
    proof (rule ocr_closing_alike [OF m, where n = n and fop = "\<lambda>c. fake_markCompleted c x texts"
          and rop = "\<lambda>c. markCompleted now c x texts" and g = "\<lambda>r. r\<lparr>od_ocrStatus := COMPLETED\<rparr>"
          and g' = "\<lambda>r. r\<lparr>d_ocrStatus := COMPLETED\<rparr>" and d' = "\<lambda>c. ocr_finished now c Outcome_COMPLETED x (detail c) d"
          and f' = "\<lambda>c. (set_ocr_row c (\<lambda>r. r\<lparr>od_ocrStatus := COMPLETED\<rparr>) f)
             \<lparr>od_completed := od_completed f @ [(fq_documentId c, x, texts)]\<rparr>"])
      show "markCompleted now c x texts d = (if \<exists>r. find_document (oc_documentId c) d = Some r \<and> ocr_held c r
          then (Inr True, ocr_finished now c Outcome_COMPLETED x (detail c) d) else (Inr False, d))" for c
        using ok fine finish_ocr_cases [OF u, of now c Outcome_COMPLETED x "detail c"]
        by (simp add: markCompleted_def detail_def)
      show "results_mirror ((set_ocr_row (fake_ocr_claim_of (map oc_token cs) c) (\<lambda>r. r\<lparr>od_ocrStatus := COMPLETED\<rparr>) f)
             \<lparr>od_completed := od_completed f @ [(fq_documentId (fake_ocr_claim_of (map oc_token cs) c), x, texts)]\<rparr>)
          (ocr_finished now c Outcome_COMPLETED x (detail c) d)" for c
        using finish_results [OF results new refl, of now c Outcome_COMPLETED "detail c"] results
        by (simp add: results_mirror_def) (simp add: detail_def)
    qed (auto simp: fake_markCompleted_def ocr_view_def ocr_outcome_status_def)
  qed
  show "ocr_alike (Ocr_fail n now y) (f, fcs) (d, cs)" if ok: "ocr_ok (Ocr_fail n now y) (d, cs)"
  proof -
    define detail where "detail = (\<lambda>c :: ocr_claim. \<lparr>fd_pages = None, fd_pageTexts = [], fd_errorCode = Some (ex_errorCode y),
        fd_action = ''document.ocr_failed'', fd_newValue = [(''status'', JStr ''FAILED''),
          (''code'', JStr (ocr_error_code_name (ex_errorCode y))), (''attempts'', JNum (oc_attempts c))]\<rparr>)"
    have new: "new_result (ex_id y) d" using ok by simp
    have fine: "\<not> result_violates (result_row c Outcome_FAILED y (detail c) now) (fd_pageTexts (detail c)) d" for c
      using ok by (auto simp: result_violates_def result_row_def detail_def new_result_def image_iff)
    show ?thesis
    proof (rule ocr_closing_alike [OF m, where n = n and fop = "\<lambda>c. fake_markFailed_ocr c y"
          and rop = "\<lambda>c. markFailed_ocr now c y" and g = "\<lambda>r. r\<lparr>od_ocrStatus := FAILED\<rparr>"
          and g' = "\<lambda>r. r\<lparr>d_ocrStatus := FAILED\<rparr>" and d' = "\<lambda>c. ocr_finished now c Outcome_FAILED y (detail c) d"
          and f' = "\<lambda>c. (set_ocr_row c (\<lambda>r. r\<lparr>od_ocrStatus := FAILED\<rparr>) f)
             \<lparr>od_failed := od_failed f @ [(fq_documentId c, y)]\<rparr>"])
      show "markFailed_ocr now c y d = (if \<exists>r. find_document (oc_documentId c) d = Some r \<and> ocr_held c r
          then (Inr True, ocr_finished now c Outcome_FAILED y (detail c) d) else (Inr False, d))" for c
        using fine finish_ocr_cases [OF u, of now c Outcome_FAILED y "detail c"]
        by (simp add: markFailed_ocr_def detail_def)
      show "results_mirror ((set_ocr_row (fake_ocr_claim_of (map oc_token cs) c) (\<lambda>r. r\<lparr>od_ocrStatus := FAILED\<rparr>) f)
             \<lparr>od_failed := od_failed f @ [(fq_documentId (fake_ocr_claim_of (map oc_token cs) c), y)]\<rparr>)
          (ocr_finished now c Outcome_FAILED y (detail c) d)" for c
        using finish_results [OF results new refl, of now c Outcome_FAILED "detail c"] results
        by (simp add: results_mirror_def) (simp add: detail_def)
    qed (auto simp: fake_markFailed_ocr_def ocr_view_def ocr_outcome_status_def)
  qed
qed

lemma ocr_release_alike:
  assumes m: "ocr_mirrors (f, fcs) (d, cs)"
  shows "ocr_alike (Ocr_retry n delay) (f, fcs) (d, cs)" and "ocr_alike (Ocr_exclude n) (f, fcs) (d, cs)"
proof -
  note u = ocr_mirrorsD(1) [OF m] and results = ocr_mirrorsD(8) [OF m]
  let ?g' = "\<lambda>r. r\<lparr>d_ocrStatus := PENDING, d_ocrStartedAt := None\<rparr>"
  show "ocr_alike (Ocr_retry n delay) (f, fcs) (d, cs)"
  proof (rule ocr_closing_alike [OF m, where n = n and fop = "\<lambda>c. fake_releaseForRetry c delay"
        and rop = "\<lambda>c. releaseForRetry True c delay" and g = "\<lambda>r. r\<lparr>od_ocrStatus := PENDING, od_token := None\<rparr>"
        and g' = ?g' and d' = "\<lambda>c. send_job DOCUMENT_OCR_QUEUE (oc_documentId c) delay
           (update_document (oc_documentId c) (ocr_held c) ?g' d)"
        and f' = "\<lambda>c. (set_ocr_row c (\<lambda>r. r\<lparr>od_ocrStatus := PENDING, od_token := None\<rparr>) f)
           \<lparr>od_retries := od_retries f @ [(fq_documentId c, delay)]\<rparr>"])
    show "releaseForRetry True c delay d = (if \<exists>r. find_document (oc_documentId c) d = Some r \<and> ocr_held c r
        then (Inr True, send_job DOCUMENT_OCR_QUEUE (oc_documentId c) delay
           (update_document (oc_documentId c) (ocr_held c) ?g' d)) else (Inr False, d))" for c
      using ocr_matching [OF u, of c] ocr_update_none [OF u, of c]
      by (auto simp: releaseForRetry_def transaction_def Let_def bindE_def boss_send_def)
    show "results_mirror ((set_ocr_row (fake_ocr_claim_of (map oc_token cs) c)
           (\<lambda>r. r\<lparr>od_ocrStatus := PENDING, od_token := None\<rparr>) f)
           \<lparr>od_retries := od_retries f @ [(fq_documentId (fake_ocr_claim_of (map oc_token cs) c), delay)]\<rparr>)
        (send_job DOCUMENT_OCR_QUEUE (oc_documentId c) delay
           (update_document (oc_documentId c) (ocr_held c) ?g' d))" for c
      using results by (simp add: results_mirror_def stored_pages_def)
  qed (auto simp: fake_releaseForRetry_def ocr_view_def)
  show "ocr_alike (Ocr_exclude n) (f, fcs) (d, cs)"
  proof (rule ocr_closing_alike [OF m, where n = n and fop = fake_markExcluded and rop = markExcluded
        and g = "\<lambda>r. r\<lparr>od_ocrStatus := EXCLUDED\<rparr>" and g' = "\<lambda>r. r\<lparr>d_ocrStatus := EXCLUDED\<rparr>"
        and d' = "\<lambda>c. update_document (oc_documentId c) (ocr_held c) (\<lambda>r. r\<lparr>d_ocrStatus := EXCLUDED\<rparr>) d"
        and f' = "\<lambda>c. (set_ocr_row c (\<lambda>r. r\<lparr>od_ocrStatus := EXCLUDED\<rparr>) f)
           \<lparr>od_excluded := od_excluded f @ [fq_documentId c]\<rparr>"])
    show "markExcluded c d = (if \<exists>r. find_document (oc_documentId c) d = Some r \<and> ocr_held c r
        then (Inr True, update_document (oc_documentId c) (ocr_held c) (\<lambda>r. r\<lparr>d_ocrStatus := EXCLUDED\<rparr>) d)
        else (Inr False, d))" for c
      using ocr_matching [OF u, of c] ocr_update_none [OF u, of c] by (auto simp: markExcluded_def)
    show "results_mirror ((set_ocr_row (fake_ocr_claim_of (map oc_token cs) c) (\<lambda>r. r\<lparr>od_ocrStatus := EXCLUDED\<rparr>) f)
           \<lparr>od_excluded := od_excluded f @ [fq_documentId (fake_ocr_claim_of (map oc_token cs) c)]\<rparr>)
        (update_document (oc_documentId c) (ocr_held c) (\<lambda>r. r\<lparr>d_ocrStatus := EXCLUDED\<rparr>) d)" for c
      using results by (simp add: results_mirror_def stored_pages_def)
  qed (auto simp: fake_markExcluded_def ocr_view_def)
qed

lemma ocr_claim_alike:
  assumes m: "ocr_mirrors (f, fcs) (d, cs)" and ok: "ocr_ok (Ocr_claim i lease now) (d, cs)"
  shows "ocr_alike (Ocr_claim i lease now) (f, fcs) (d, cs)"
proof (cases "find_document i d")
  case None
  with m show ?thesis
    by (simp add: ocr_alike_def fake_claim_ocr_def ocr_mirrorsD(2) [OF m] claim_ocr_cases [OF ocr_mirrorsD(1) [OF m]])
next
  case (Some r)
  let ?toks = "map oc_token cs"
  let ?toks' = "?toks @ [now]"
  note r = find_document_SomeD [OF Some]
  have "\<not> older_than (d_ocrStartedAt r) now lease"
    using ok ocr_mirrorsD(4) [OF m Some] by (cases "d_ocrStartedAt r") (auto simp: older_than_def)
  then have claimable: "ocr_claimable lease now r \<longleftrightarrow> d_status r = CLEAN \<and> d_ocrStatus r = PENDING"
    by (simp add: ocr_claimable_def)
  show ?thesis
  proof (cases "ocr_claimable lease now r")
    case False
    with Some m claimable show ?thesis
      by (auto simp: ocr_alike_def fake_claim_ocr_def ocr_mirrorsD(2) [OF m] ocr_view_def
          claim_ocr_cases [OF ocr_mirrorsD(1) [OF m]])
  next
    case True
    have new: "now \<notin> set ?toks" using ok by simp
    then have token: "place ?toks' now = Suc (od_tick f)"
      using ocr_mirrorsD(7) [OF m] by (simp add: place_new)
    have view: "ocr_view ?toks' x = ocr_view ?toks x" if "x \<in> set (documents d)" for x
      using ocr_mirrorsD(9) [OF m] that by (cases "d_ocrStartedAt x") (simp_all add: ocr_view_def)
    let ?g = "\<lambda>x. x\<lparr>od_ocrStatus := PROCESSING, od_ocrAttempts := od_ocrAttempts x + 1,
        od_token := Some (Claimed_at (Suc (od_tick f)))\<rparr>"
    let ?c = "to_ocr_claim now (start_ocr now r)"
    let ?d = "update_document i (ocr_claimable lease now) (start_ocr now) d"
    let ?f = "f\<lparr>od_documents := AList.map_entry i ?g (od_documents f), od_tick := Suc (od_tick f)\<rparr>"
    have unique: "distinct (map d_id (documents d))"
      using ocr_mirrorsD(1) [OF m] by (simp add: unique_documents_def)
    have "map (ocr_view ?toks') (documents ?d) = update_where (\<lambda>y. od_id y = i) ?g (map (ocr_view ?toks) (documents d))"
      unfolding update_document_frame
      by (rule view_update [OF unique]) (use r True view token in \<open>auto simp: ocr_view_def start_ocr_def\<close>)
    with mirrors_entry [OF ocr_mirrorsD(5) [OF m], of ?g i]
    have "mirrors od_id (od_documents ?f) (map (ocr_view ?toks') (documents ?d))" by simp
    moreover have "fcs = map (fake_ocr_claim_of ?toks') cs"
      using ocr_mirrorsD(3) [OF m] by (simp add: fake_ocr_claim_of_def)
    moreover have "\<forall>t. d_ocrStartedAt x = Some t \<longrightarrow> t \<in> set ?toks'" if x: "x \<in> set (documents ?d)" for x
    proof -
      obtain y where y: "y \<in> set (documents d)"
          "x = (if d_id y = i \<and> ocr_claimable lease now y then start_ocr now y else y)"
        using x unfolding update_document_frame by (rule mem_update_whereE)
      with ocr_mirrorsD(9) [OF m] show ?thesis by (auto simp: start_ocr_def)
    qed
    moreover have "results_mirror ?f ?d"
      by (rule results_frame [OF ocr_mirrorsD(8) [OF m]]) simp_all
    moreover have "oc_token ?c = now" by (simp add: to_ocr_claim_def)
    ultimately have "ocr_mirrors (?f, fcs @ [fake_ocr_claim_of ?toks' ?c]) (?d, cs @ [?c])"
      using ocr_mirrorsD(6,7) [OF m] new by (simp add: ocr_mirrors_def Let_def)
    moreover have "fake_claim_ocr i f = (Some (fake_ocr_claim_of ?toks' ?c), ?f)"
      using Some True claimable r token
      by (simp add: fake_claim_ocr_def ocr_mirrorsD(2) [OF m] Let_def fake_ocr_claim_of_def to_ocr_claim_def
          start_ocr_def ocr_view_def)
    moreover have "claim_ocr i lease now d = (Inr (Some ?c), ?d)"
      using Some True by (simp add: claim_ocr_cases [OF ocr_mirrorsD(1) [OF m]])
    ultimately show ?thesis
      by (simp add: ocr_alike_def ocr_claim_shape_def fake_ocr_claim_shape_def fake_ocr_claim_of_def)
  qed
qed

lemma ocr_call_alike:
  assumes "ocr_mirrors f d" and "ocr_ok op d"
  shows "ocr_alike op f d"
  using assms
  by (cases op; cases f; cases d) (simp_all only: ocr_claim_alike ocr_results_alike ocr_release_alike)

interpretation ocr_jobs: repository_double ocr_mirrors ocr_ok fake_ocr real_ocr
  using ocr_call_alike by unfold_locales (auto simp: ocr_alike_def)

text \<open>
  The in-memory repository the OCR job is tested with answers like the one over PostgreSQL, with the
  same documents, executions, pages and retries, as long as no lease ends.
\<close>

theorem ocr_double_alike:
  assumes "ocr_mirrors f d" and "calls_ok ocr_ok real_ocr calls d"
  shows "fst (run_calls fake_ocr calls f) = fst (run_calls real_ocr calls d) \<and>
    ocr_mirrors (snd (run_calls fake_ocr calls f)) (snd (run_calls real_ocr calls d))"
  by (rule ocr_jobs.same_run [OF assms])

text \<open>A claim that a test steals records nothing more.\<close>

lemma stolen_claim_lost:
  assumes "fake_claim_ocr i f = (Some c, f')" and "fq_documentId c = i"
  shows "\<not> fake_current c (fake_steal i f')"
proof -
  have "fq_token c = Claimed_at (Suc (od_tick f))"
    using assms by (auto simp: fake_claim_ocr_def Let_def split: option.splits if_splits)
  moreover have "map_of (AList.map_entry i g m) j = (if j = i then map_option g (map_of m j) else map_of m j)"
    for g :: "ocr_double_row \<Rightarrow> ocr_double_row" and m :: "(uuid \<times> ocr_double_row) list" and j
    by (induction m) auto
  ultimately show ?thesis
    using assms
    by (auto simp: fake_current_def fake_steal_def fake_claim_ocr_def Let_def split: option.splits if_splits)
qed

end
