(* ===== verification/S3_Storage.thy ===== *)
theory S3_Storage
  imports Config File_Names
begin

text \<open>
  The provider over an S3-compatible service (packages/storage/src/s3-storage.ts), the bucket of
  development (dev-bucket.ts) and its command (create-bucket.cli.ts). The AWS SDK is a parameter:
  what a client answers to a command, and what the presigner signs. What the provider relies on of
  the service is the locale \<open>s3_service\<close>, and there the provider keeps the contract of every
  \<open>StorageProvider\<close>.
\<close>

section \<open>Clients\<close>

record storage_timeouts =
  connectionTimeoutMs :: int
  socketTimeoutMs :: int
  requestTimeoutMs :: int

definition STORAGE_TIMEOUTS :: storage_timeouts where
  "STORAGE_TIMEOUTS =
    \<lparr>connectionTimeoutMs = 5000, socketTimeoutMs = 30000, requestTimeoutMs = 45000\<rparr>"

record request_handler =
  rh_connectionTimeout :: int
  rh_socketTimeout :: int
  rh_requestTimeout :: int
  rh_throwOnRequestTimeout :: bool

definition requestHandlerOptions :: "storage_timeouts option \<Rightarrow> request_handler" where
  "requestHandlerOptions timeouts =
    (let t = (case timeouts of None \<Rightarrow> STORAGE_TIMEOUTS | Some t \<Rightarrow> t)
     in \<lparr>rh_connectionTimeout = connectionTimeoutMs t, rh_socketTimeout = socketTimeoutMs t,
         rh_requestTimeout = requestTimeoutMs t, rh_throwOnRequestTimeout = True\<rparr>)"

record s3_client =
  cf_region :: string
  cf_requestHandler :: request_handler
  cf_forcePathStyle :: bool
  cf_credentials :: "(string \<times> string) option"
  cf_endpoint :: "string option"

text \<open>Both keys or none: an empty one is as good as none.\<close>

definition storage_credentials :: "storage_env \<Rightarrow> (string \<times> string) option" where
  "storage_credentials env =
    (case (STORAGE_ACCESS_KEY_ID env, STORAGE_SECRET_ACCESS_KEY env) of
       (Some i, Some s) \<Rightarrow> if i \<noteq> [] \<and> s \<noteq> [] then Some (i, s) else None
     | _ \<Rightarrow> None)"

definition new_s3_client :: "storage_env \<Rightarrow> storage_timeouts option \<Rightarrow> string option \<Rightarrow> s3_client" where
  "new_s3_client env timeouts endpoint =
    \<lparr>cf_region = STORAGE_REGION env, cf_requestHandler = requestHandlerOptions timeouts,
     cf_forcePathStyle = STORAGE_FORCE_PATH_STYLE env, cf_credentials = storage_credentials env,
     cf_endpoint = endpoint\<rparr>"

record s3_provider =
  s3_client :: s3_client
  s3_presignClient :: s3_client
  s3_bucket :: string

definition new_s3_provider :: "storage_env \<Rightarrow> storage_timeouts option \<Rightarrow> s3_provider" where
  "new_s3_provider env timeouts =
    \<lparr>s3_client = new_s3_client env timeouts (STORAGE_ENDPOINT env),
     s3_presignClient = new_s3_client env timeouts
       (case STORAGE_PUBLIC_ENDPOINT env of None \<Rightarrow> STORAGE_ENDPOINT env | Some e \<Rightarrow> Some e),
     s3_bucket = STORAGE_BUCKET env\<rparr>"

section \<open>Commands\<close>

record put_object_command =
  po_Bucket :: string
  po_Key :: string
  po_Body :: bytes
  po_ContentType :: string
  po_ContentLength :: nat

record get_object_command =
  go_Bucket :: string
  go_Key :: string
  go_ResponseContentDisposition :: "string option"
  go_ResponseContentType :: "string option"

datatype s3_command =
    PutObjectCommand put_object_command
  | GetObjectCommand get_object_command
  | DeleteObjectCommand string string
  | HeadBucketCommand string
  | CreateBucketCommand string

text \<open>
  What \<open>client.send\<close> throws (\<open>NoSuchKey\<close> is the one the provider tells apart), or the body of the
  answer, if there is one.
\<close>

datatype s3_failure = NoSuchKey | Other_failure exn

type_synonym s3_send = "s3_client \<Rightarrow> s3_command \<Rightarrow> (world, s3_failure, bytes option) prog"

fun s3_exn :: "s3_failure \<Rightarrow> exn" where
  "s3_exn NoSuchKey = Error ''NoSuchKey''"
| "s3_exn (Other_failure e) = e"

section \<open>The provider\<close>

definition s3_putObject :: "s3_send \<Rightarrow> s3_provider \<Rightarrow> string \<Rightarrow> bytes \<Rightarrow> string \<Rightarrow> unit io" where
  "s3_putObject send p key body contentType = (\<lambda>w.
     case send (s3_client p) (PutObjectCommand \<lparr>po_Bucket = s3_bucket p, po_Key = key, po_Body = body,
            po_ContentType = contentType, po_ContentLength = length body\<rparr>) w of
       (Inl e, w) \<Rightarrow> (Inl (s3_exn e), w)
     | (Inr _, w) \<Rightarrow> (Inr (), w))"

definition s3_getObject :: "s3_send \<Rightarrow> s3_provider \<Rightarrow> string \<Rightarrow> bytes io" where
  "s3_getObject send p key = (\<lambda>w.
     case send (s3_client p) (GetObjectCommand \<lparr>go_Bucket = s3_bucket p, go_Key = key,
            go_ResponseContentDisposition = None, go_ResponseContentType = None\<rparr>) w of
       (Inl NoSuchKey, w) \<Rightarrow> (Inl (StorageObjectNotFoundError key), w)
     | (Inl (Other_failure e), w) \<Rightarrow> (Inl e, w)
     | (Inr None, w) \<Rightarrow> (Inl (StorageObjectNotFoundError key), w)
     | (Inr (Some body), w) \<Rightarrow> (Inr body, w))"

definition s3_deleteObject :: "s3_send \<Rightarrow> s3_provider \<Rightarrow> string \<Rightarrow> unit io" where
  "s3_deleteObject send p key = (\<lambda>w.
     case send (s3_client p) (DeleteObjectCommand (s3_bucket p) key) w of
       (Inl e, w) \<Rightarrow> (Inl (s3_exn e), w)
     | (Inr _, w) \<Rightarrow> (Inr (), w))"

text \<open>
  The download URL: signed for the endpoint the browser reaches, for one key, with the disposition
  that makes it an attachment. A file name that is not well-formed UTF-16 throws before signing.
\<close>

definition s3_createDownloadUrl ::
  "(s3_client \<Rightarrow> get_object_command \<Rightarrow> int \<Rightarrow> string) \<Rightarrow> s3_provider \<Rightarrow> download \<Rightarrow> exn + string" where
  "s3_createDownloadUrl getSignedUrl p dl =
    (case attachmentDisposition (dl_fileName dl) of
       None \<Rightarrow> Inl (Error ''URI malformed'')
     | Some disposition \<Rightarrow> Inr (getSignedUrl (s3_presignClient p)
         \<lparr>go_Bucket = s3_bucket p, go_Key = dl_key dl, go_ResponseContentDisposition = Some disposition,
          go_ResponseContentType = Some (dl_contentType dl)\<rparr> (dl_expiresInSeconds dl)))"

section \<open>The bucket of development\<close>

datatype bucket_result = Bucket_created | Bucket_exists

definition ensureDevelopmentBucket :: "s3_send \<Rightarrow> storage_env \<Rightarrow> bucket_result io" where
  "ensureDevelopmentBucket send env = (\<lambda>w.
     let cl = new_s3_client env None (STORAGE_ENDPOINT env)
     in case send cl (HeadBucketCommand (STORAGE_BUCKET env)) w of
          (Inr _, w) \<Rightarrow> (Inr Bucket_exists, w)
        | (Inl _, w) \<Rightarrow>
            (case send cl (CreateBucketCommand (STORAGE_BUCKET env)) w of
               (Inr _, w) \<Rightarrow> (Inr Bucket_created, w)
             | (Inl e, w) \<Rightarrow> (Inl (s3_exn e), w)))"

definition create_bucket_command ::
  "s3_send \<Rightarrow> zod \<Rightarrow> environment \<Rightarrow> (string \<times> bucket_result) io" where
  "create_bucket_command send z environ = (\<lambda>w.
     if environ ''NODE_ENV'' \<noteq> Some ''development'' \<and> environ ''NODE_ENV'' \<noteq> Some ''test''
     then (Inl (Error ''storage:init only runs with NODE_ENV=development or test.''), w)
     else case loadStorageEnv z environ of
            Inl e \<Rightarrow> (Inl e, w)
          | Inr env \<Rightarrow>
              (case ensureDevelopmentBucket send env w of
                 (Inl e, w) \<Rightarrow> (Inl e, w)
               | (Inr result, w) \<Rightarrow> (Inr (STORAGE_BUCKET env, result), w)))"

section \<open>What the provider keeps of its contract\<close>

text \<open>
  A service that answers: \<open>bucket w\<close> is what the bucket holds. A put whose declared length is the
  body's stores it, a get answers the body or \<open>NoSuchKey\<close>, a delete removes the key whether it is
  there or not, and none of them concerns another key or the database.
\<close>

locale s3_service =
  fixes send :: s3_send and provider :: s3_provider
    and bucket :: "world \<Rightarrow> string \<Rightarrow> bytes option"
  assumes put_stores: "po_Bucket c = s3_bucket provider \<Longrightarrow> po_ContentLength c = length (po_Body c) \<Longrightarrow>
      \<exists>w' answer. send (s3_client provider) (PutObjectCommand c) w = (Inr answer, w') \<and>
        bucket w' = (bucket w)(po_Key c \<mapsto> po_Body c) \<and> w_db w' = w_db w"
    and get_answers: "go_Bucket g = s3_bucket provider \<Longrightarrow>
      send (s3_client provider) (GetObjectCommand g) w =
        ((case bucket w (go_Key g) of None \<Rightarrow> Inl NoSuchKey | Some body \<Rightarrow> Inr (Some body)), w)"
    and delete_removes: "\<exists>w' answer. send (s3_client provider) (DeleteObjectCommand (s3_bucket provider) k) w
        = (Inr answer, w') \<and> bucket w' = (bucket w)(k := None) \<and> w_db w' = w_db w"
begin

lemma put_effect [simp]:
  "fst (s3_putObject send provider k b t w) = Inr ()"
  "bucket (snd (s3_putObject send provider k b t w)) = (bucket w)(k \<mapsto> b)"
  "w_db (snd (s3_putObject send provider k b t w)) = w_db w"
  using put_stores [of "\<lparr>po_Bucket = s3_bucket provider, po_Key = k, po_Body = b, po_ContentType = t,
      po_ContentLength = length b\<rparr>" w]
  by (auto simp: s3_putObject_def)

lemma delete_effect [simp]:
  "fst (s3_deleteObject send provider k w) = Inr ()"
  "bucket (snd (s3_deleteObject send provider k w)) = (bucket w)(k := None)"
  "w_db (snd (s3_deleteObject send provider k w)) = w_db w"
  using delete_removes [of k w] by (auto simp: s3_deleteObject_def)

lemma get_effect:
  "s3_getObject send provider k w =
    ((case bucket w k of None \<Rightarrow> Inl (StorageObjectNotFoundError k) | Some b \<Rightarrow> Inr b), w)"
  by (simp add: s3_getObject_def get_answers split: option.splits)

end

sublocale s3_service \<subseteq> object_store
  "s3_putObject send provider" "s3_getObject send provider" "s3_deleteObject send provider"
  by unfold_locales (simp_all add: get_effect)

text \<open>A service with one bucket, the objects of the world, which keeps those laws.\<close>

fun bucket_service :: "string \<Rightarrow> s3_send" where
  "bucket_service b cl (PutObjectCommand c) w =
    (if po_Bucket c = b then case putObject (po_Key c) (po_Body c) (po_ContentType c) w of (_, w) \<Rightarrow> (Inr None, w)
     else (Inl (Other_failure (Error ''NoSuchBucket'')), w))"
| "bucket_service b cl (GetObjectCommand g) w =
    (if go_Bucket g = b
     then (case w_objects w (go_Key g) of None \<Rightarrow> Inl NoSuchKey | Some stored \<Rightarrow> Inr (Some (so_body stored)), w)
     else (Inl (Other_failure (Error ''NoSuchBucket'')), w))"
| "bucket_service b cl (DeleteObjectCommand b' k) w =
    (if b' = b then case deleteObject k w of (_, w) \<Rightarrow> (Inr None, w)
     else (Inl (Other_failure (Error ''NoSuchBucket'')), w))"
| "bucket_service b cl (HeadBucketCommand b') w =
    (if b' = b then Inr None else Inl (Other_failure (Error ''NotFound'')), w)"
| "bucket_service b cl (CreateBucketCommand b') w = (Inr None, w)"

interpretation s3: s3_service "bucket_service (s3_bucket p)" p "\<lambda>w k. map_option so_body (w_objects w k)" for p
  by unfold_locales (auto simp: putObject_def deleteObject_def fun_eq_iff split: option.splits)

section \<open>The configuration of its clients\<close>

text \<open>Whatever the environment, a request that takes too long is an error, after at most 45 seconds.\<close>

lemma requests_time_out:
  "rh_throwOnRequestTimeout (cf_requestHandler (s3_client (new_s3_provider env None)))"
  "rh_requestTimeout (cf_requestHandler (s3_client (new_s3_provider env None))) = 45000"
  "rh_connectionTimeout (cf_requestHandler (s3_client (new_s3_provider env None))) \<le>
    rh_requestTimeout (cf_requestHandler (s3_client (new_s3_provider env None)))"
  by (simp_all add: new_s3_provider_def new_s3_client_def requestHandlerOptions_def STORAGE_TIMEOUTS_def)

text \<open>A download URL is signed for the public endpoint, for its one key, as an attachment.\<close>

lemma download_url_exact:
  assumes "s3_createDownloadUrl sign p dl = Inr url"
  obtains disposition where "attachmentDisposition (dl_fileName dl) = Some disposition"
    and "url = sign (s3_presignClient p)
      \<lparr>go_Bucket = s3_bucket p, go_Key = dl_key dl, go_ResponseContentDisposition = Some disposition,
       go_ResponseContentType = Some (dl_contentType dl)\<rparr> (dl_expiresInSeconds dl)"
  using assms by (auto simp: s3_createDownloadUrl_def split: option.splits)

lemma bucket_ensured_once:
  assumes "ensureDevelopmentBucket (bucket_service (STORAGE_BUCKET env)) env w = (r, w')"
  shows "r = Inr Bucket_exists" and "w' = w"
  using assms by (auto simp: ensureDevelopmentBucket_def Let_def)

end
