(* ===== verification/Commands.thy ===== *)
theory Commands
  imports S3_Storage Outbox
begin

text \<open>
  The commands an operator runs: the emails of development written to files
  (apps/api/src/modules/notifications/transports.ts and scripts/dispatch-emails.cli.ts) and the
  activation of the OCR (apps/worker/src/scripts/activate-ocr.ts). What the runtime draws for a
  file's name, the instant's text and the UUID, is an argument.
\<close>

section \<open>Emails in files\<close>

type_synonym files = "(string \<times> string) list"

definition file_stamp :: "string \<Rightarrow> string" where
  "file_stamp stamp = map (\<lambda>ch. if ch = CHR '':'' \<or> ch = CHR ''.'' then CHR ''-'' else ch) stamp"

definition file_name :: "string \<Rightarrow> string \<Rightarrow> uuid \<Rightarrow> string" where
  "file_name directory stamp newId = directory @ ''/'' @ file_stamp stamp @ ''-'' @ newId @ ''.txt''"

definition file_content :: "email_message \<Rightarrow> string" where
  "file_content m = ''To: '' @ em_to m @ line_end @ ''Subject: '' @ em_subject m @ line_end @ line_end
     @ em_text m @ line_end"

text \<open>\<open>FileEmailTransport.send\<close>: the flag \<open>wx\<close> refuses a file that is already there.\<close>

definition file_send :: "string \<Rightarrow> string \<Rightarrow> uuid \<Rightarrow> email_message \<Rightarrow> (files, exn, unit) prog" where
  "file_send directory stamp newId m = (\<lambda>fs.
     case assertSingleLine (em_to m) ''recipient'' of
       Inl e \<Rightarrow> (Inl e, fs)
     | Inr _ \<Rightarrow>
         (case assertSingleLine (em_subject m) ''subject'' of
            Inl e \<Rightarrow> (Inl e, fs)
          | Inr _ \<Rightarrow>
              let path = file_name directory stamp newId
              in if path \<in> set (map fst fs) then (Inl (Error ''EEXIST''), fs)
                 else (Inr (), fs @ [(path, file_content m)])))"

lemma assertSingleLine_Inr: "assertSingleLine v field = Inr u \<longleftrightarrow> CHR 0x0D \<notin> set v \<and> CHR 0x0A \<notin> set v"
  by (auto simp: assertSingleLine_def list_ex_iff)

text \<open>
  The lines of a file that was written: the recipient and the subject are each the whole of their
  own line, and a blank one ends the headers, whatever the message says.
\<close>

fun first_line :: "string \<Rightarrow> string" where
  "first_line [] = []"
| "first_line (ch # cs) = (if ch = CHR 0x0A then [] else ch # first_line cs)"

fun after_line :: "string \<Rightarrow> string" where
  "after_line [] = []"
| "after_line (ch # cs) = (if ch = CHR 0x0A then cs else after_line cs)"

lemma line_append:
  "CHR 0x0A \<notin> set v \<Longrightarrow> first_line (v @ line_end @ rest) = v"
  "CHR 0x0A \<notin> set v \<Longrightarrow> after_line (v @ line_end @ rest) = rest"
  by (induction v) (auto simp: line_end_def)

lemma file_headers_exact:
  assumes "file_send directory stamp newId m fs = (Inr u, fs')"
  obtains content where "fs' = fs @ [(file_name directory stamp newId, content)]"
    and "first_line content = ''To: '' @ em_to m"
    and "first_line (after_line content) = ''Subject: '' @ em_subject m"
    and "first_line (after_line (after_line content)) = []"
    and "after_line (after_line (after_line content)) = em_text m @ line_end"
proof -
  from assms have to': "CHR 0x0A \<notin> set (''To: '' @ em_to m)"
    and subject: "CHR 0x0A \<notin> set (''Subject: '' @ em_subject m)"
    and fs': "fs' = fs @ [(file_name directory stamp newId, file_content m)]"
    by (auto simp: file_send_def assertSingleLine_Inr Let_def split: sum.splits if_splits)
  have content: "file_content m = (''To: '' @ em_to m) @ line_end @ (''Subject: '' @ em_subject m) @ line_end
      @ [] @ line_end @ em_text m @ line_end"
    by (simp add: file_content_def)
  have blank: "CHR 0x0A \<notin> set ([] :: string)" by simp
  note lines = line_append(1) [OF to'] line_append(2) [OF to'] line_append(1) [OF subject]
    line_append(2) [OF subject] line_append(1) [OF blank] line_append(2) [OF blank]
  show ?thesis
    by (rule that [OF fs']) (simp_all only: content lines)
qed

text \<open>A file is never replaced, and a refused message writes none.\<close>

lemma file_send_keeps:
  assumes "file_send directory stamp newId m fs = (r, fs')" and "(path, content) \<in> set fs"
  shows "(path, content) \<in> set fs'"
  using assms by (auto simp: file_send_def Let_def split: sum.splits if_splits)

lemma file_send_refused: "file_send directory stamp newId m fs = (Inl e, fs') \<Longrightarrow> fs' = fs"
  by (auto simp: file_send_def Let_def split: sum.splits if_splits)

section \<open>The command that dispatches\<close>

definition absent :: "string option \<Rightarrow> bool" where
  "absent v \<longleftrightarrow> v = None \<or> v = Some []"

definition dispatch_command ::
  "crypto \<Rightarrow> (nat \<Rightarrow> dispatch_round) \<Rightarrow> environment \<Rightarrow> db \<Rightarrow> exn + dispatch_result \<times> mail_state" where
  "dispatch_command c rounds environ d =
    (case assertDispatchAllowed (environ ''NODE_ENV'') of
       Inl e \<Rightarrow> Inl e
     | Inr _ \<Rightarrow>
         if absent (environ ''DATABASE_URL'') then Inl (Error ''DATABASE_URL must be set.'')
         else if absent (environ ''APP_ORIGIN'')
         then Inl (Error ''APP_ORIGIN must be set: email links point to it.'')
         else Inr (dispatchPendingEmails (\<lambda>_. True)
           \<lparr>co_appOrigin = the (environ ''APP_ORIGIN''),
            co_emailVerificationTokenTtlMs = EMAIL_VERIFICATION_TOKEN_TTL_MS,
            co_passwordResetTokenTtlMs = PASSWORD_RESET_TOKEN_TTL_MS\<rparr> c rounds None (d, [])))"

text \<open>Outside development and test no email is composed, sent or marked.\<close>

lemma dispatch_command_only_in_development:
  assumes "dispatch_command c rounds environ d = Inr r"
  shows "environ ''NODE_ENV'' = Some ''development'' \<or> environ ''NODE_ENV'' = Some ''test''"
    and "environ ''APP_ORIGIN'' \<noteq> None"
  using assms by (auto simp: dispatch_command_def assertDispatchAllowed_def absent_def split: sum.splits if_splits)

section \<open>The command that activates the OCR\<close>

text \<open>Its exit code, what it reports, and the database.\<close>

definition activate_command ::
  "environment \<Rightarrow> db \<Rightarrow> int \<times> (exn + ocr_activation_result) option \<times> db" where
  "activate_command environ d =
    (if absent (environ ''OCR_ACTIVATION_DATABASE_URL'') then (1, None, d)
     else case activateOcr d of
            (Inr result, d) \<Rightarrow> (0, Some (Inr result), d)
          | (Inl e, d) \<Rightarrow> (1, Some (Inl e), d))"

lemma activate_command_exit:
  assumes "activate_command environ d = (code', report, d')"
  shows "code' \<noteq> 0 \<Longrightarrow> d' = d"
    and "code' = 0 \<Longrightarrow> \<not> absent (environ ''OCR_ACTIVATION_DATABASE_URL'') \<and> countViolations d' = 0"
proof -
  show "code' \<noteq> 0 \<Longrightarrow> d' = d"
    using assms by (auto simp: activate_command_def activateOcr_def split: if_splits prod.splits sum.splits
        dest: transaction_Inl)
  show "code' = 0 \<Longrightarrow> \<not> absent (environ ''OCR_ACTIVATION_DATABASE_URL'') \<and> countViolations d' = 0"
    using assms by (auto simp: activate_command_def activateOcr_def Let_def split: if_splits prod.splits sum.splits)
qed

end
