(* ===== verification/Processes.thy ===== *)
theory Processes
  imports Config
begin

text \<open>
  How the two processes start and stop: apps/worker/src/main.ts, apps/api/src/server.ts, the
  options their pg-boss is started with (queue.ts, job-queue.ts) and the client of the database
  (packages/database/src/client.ts). A process is the list of its steps in the order of the code;
  any of them may fail, and a failure nobody catches ends it there.
\<close>

section \<open>The client of the database\<close>

record prisma_options =
  datasourceUrl :: "string option"
  prisma_log :: "string list"

definition createPrismaClient :: "string option \<Rightarrow> prisma_options" where
  "createPrismaClient databaseUrl =
    \<lparr>datasourceUrl = (case databaseUrl of Some url \<Rightarrow> if url \<noteq> [] then Some url else None | None \<Rightarrow> None),
     prisma_log = [''warn'', ''error'']\<rparr>"

definition checkDatabaseConnection :: "exn + 'a \<Rightarrow> bool" where
  "checkDatabaseConnection query = (case query of Inr _ \<Rightarrow> True | Inl _ \<Rightarrow> False)"

section \<open>pg-boss\<close>

record boss_options =
  bo_migrate :: bool
  bo_schedule :: bool
  bo_supervise :: bool
  bo_persistWarnings :: bool
  bo_persistQueueStats :: "bool option"
  bo_reindex :: bool

definition WORKER_BOSS_OPTIONS :: boss_options where
  "WORKER_BOSS_OPTIONS = \<lparr>bo_migrate = False, bo_schedule = False, bo_supervise = True,
     bo_persistWarnings = False, bo_persistQueueStats = Some False, bo_reindex = False\<rparr>"

definition API_BOSS_OPTIONS :: boss_options where
  "API_BOSS_OPTIONS = \<lparr>bo_migrate = False, bo_schedule = False, bo_supervise = False,
     bo_persistWarnings = False, bo_persistQueueStats = None, bo_reindex = False\<rparr>"

section \<open>Steps\<close>

datatype process_step =
    Open_database prisma_options | Check_ocr | Start_boss string boss_options
  | First_sweep | Log_started | Start_timer int | Work queue
  | Build_services | Build_app | Listen string int | Log_error
  | Log_shutdown string | Stop_timer | Close_app | Stop_boss bool | Disconnect | Exit int

fun run_steps :: "(process_step \<Rightarrow> exn option) \<Rightarrow> process_step list \<Rightarrow> process_step list \<times> exn option" where
  "run_steps fails [] = ([], None)"
| "run_steps fails (s # ss) =
    (case fails s of
       Some x \<Rightarrow> ([], Some x)
     | None \<Rightarrow> (case run_steps fails ss of (dn, r) \<Rightarrow> (s # dn, r)))"

definition failure_of :: "exn + 'a \<Rightarrow> exn option" where
  "failure_of r = (case r of Inl x \<Rightarrow> Some x | Inr _ \<Rightarrow> None)"

section \<open>The worker (main.ts)\<close>

definition worker_steps :: "configured_provider \<Rightarrow> worker_env \<Rightarrow> process_step list" where
  "worker_steps provider e =
     [Open_database (createPrismaClient (Some (WORKER_DATABASE_URL e)))]
     @ (if OCR_ENABLED e then [Check_ocr] else [])
     @ [Start_boss (WORKER_DATABASE_URL e) WORKER_BOSS_OPTIONS, First_sweep, Log_started,
        Start_timer (SCAN_SWEEP_INTERVAL_SECONDS e * 1000),
        Work DOCUMENT_SCAN_QUEUE, Work DOCUMENT_REPROCESS_QUEUE]
     @ (if OCR_ENABLED e \<and> provider \<noteq> None
        then [Work DOCUMENT_OCR_QUEUE, Work DOCUMENT_OCR_REPROCESS_QUEUE] else [])"

definition worker_main ::
  "zod \<Rightarrow> configured_provider \<Rightarrow> environment \<Rightarrow> db \<Rightarrow> (process_step \<Rightarrow> exn option) \<Rightarrow> process_step list \<times> exn option"
where
  "worker_main z provider environ d fails =
    (case loadWorkerEnv z environ of
       Inl x \<Rightarrow> ([], Some x)
     | Inr e \<Rightarrow>
         (case loadStorageEnv z environ of
            Inl x \<Rightarrow> ([], Some x)
          | Inr _ \<Rightarrow>
              run_steps (\<lambda>s. if s = Check_ocr then failure_of (worker_start provider e d) else fails s)
                (worker_steps provider e)))"

definition worker_shutdown :: "string \<Rightarrow> process_step list" where
  "worker_shutdown signal = [Log_shutdown signal, Stop_timer, Stop_boss True, Disconnect, Exit 0]"

section \<open>The API (server.ts)\<close>

definition closeResources :: "process_step list" where
  "closeResources = [Stop_boss True, Disconnect]"

definition server_shutdown :: "string \<Rightarrow> process_step list" where
  "server_shutdown signal = [Log_shutdown signal, Close_app] @ closeResources @ [Exit 0]"

definition server_steps :: "env \<Rightarrow> process_step list" where
  "server_steps e = [Open_database (createPrismaClient (Some (DATABASE_URL e))),
     Start_boss (DATABASE_URL e) API_BOSS_OPTIONS, Build_services, Build_app]"

definition server_main ::
  "zod \<Rightarrow> crypto \<Rightarrow> api_cfg \<Rightarrow> environment \<Rightarrow> (process_step \<Rightarrow> exn option) \<Rightarrow> process_step list \<times> exn option"
where
  "server_main z c library environ fails =
    (case loadEnv z environ of
       Inl x \<Rightarrow> ([], Some x)
     | Inr e \<Rightarrow>
         (case loadStorageEnv z environ of
            Inl x \<Rightarrow> ([], Some x)
          | Inr _ \<Rightarrow>
              (case run_steps (\<lambda>s. if s = Build_services then failure_of (configured_api e c library) else fails s)
                      (server_steps e) of
                 (dn, Some x) \<Rightarrow> (dn, Some x)
               | (dn, None) \<Rightarrow>
                   (case fails (Listen (API_HOST e) (API_PORT e)) of
                      None \<Rightarrow> (dn @ [Listen (API_HOST e) (API_PORT e)], None)
                    | Some _ \<Rightarrow>
                        (case run_steps fails ([Log_error] @ closeResources @ [Exit 1]) of
                           (dn2, r) \<Rightarrow> (dn @ dn2, r))))))"

section \<open>What a run has done\<close>

lemma run_steps_prefix:
  assumes "run_steps fails ss = (dn, r)"
  obtains rest where "ss = dn @ rest" and "r = None \<longleftrightarrow> rest = []" and "\<forall>s \<in> set dn. fails s = None"
proof -
  have "\<exists>rest. ss = dn @ rest \<and> (r = None \<longleftrightarrow> rest = []) \<and> (\<forall>s \<in> set dn. fails s = None)"
    using assms
  proof (induction ss arbitrary: dn)
    case (Cons s ss)
    then show ?case
    proof (cases "fails s")
      case None
      obtain dn1 r1 where "run_steps fails ss = (dn1, r1)" by fastforce
      with Cons None show ?thesis by fastforce
    next
      case (Some x)
      with Cons.prems show ?thesis by (cases r) simp_all
    qed
  qed simp
  with that show ?thesis by blast
qed

lemma run_steps_order:
  assumes "run_steps fails (before @ s # after) = (dn, r)" and "t \<in> set dn" and "t \<notin> set (before @ [s])"
  shows "set (before @ [s]) \<subseteq> set dn"
proof -
  from assms(1) obtain rest where "(before @ [s]) @ after = dn @ rest"
    by (auto elim: run_steps_prefix)
  then consider us where "before @ [s] = dn @ us" | us where "dn = (before @ [s]) @ us"
    by (auto simp only: append_eq_append_conv2)
  then show ?thesis
  proof cases
    case 1
    with assms(2,3) show ?thesis by (metis UnI1 set_append)
  qed auto
qed

text \<open>Neither process ever changes the schema of the queue.\<close>

lemma nobody_migrates:
  "\<not> bo_migrate WORKER_BOSS_OPTIONS" "\<not> bo_migrate API_BOSS_OPTIONS"
  by (simp_all add: WORKER_BOSS_OPTIONS_def API_BOSS_OPTIONS_def)

text \<open>
  A worker takes no job before a sweep has taken back what an earlier one abandoned, whatever fails.
\<close>

theorem worker_recovers_before_working:
  assumes "worker_main z provider environ d fails = (dn, r)" and "Work q \<in> set dn"
  shows "First_sweep \<in> set dn"
proof -
  from assms obtain e fails' where run: "run_steps fails' (worker_steps provider e) = (dn, r)"
    by (auto simp: worker_main_def split: sum.splits)
  define before where "before = [Open_database (createPrismaClient (Some (WORKER_DATABASE_URL e)))]
     @ (if OCR_ENABLED e then [Check_ocr] else []) @ [Start_boss (WORKER_DATABASE_URL e) WORKER_BOSS_OPTIONS]"
  obtain after where "worker_steps provider e = before @ First_sweep # after"
    by (simp add: worker_steps_def before_def)
  moreover have "Work q \<notin> set (before @ [First_sweep])" by (simp add: before_def)
  ultimately show ?thesis
    using run_steps_order [of fails' before First_sweep after dn r "Work q"] run assms(2) by simp
qed

text \<open>
  With the OCR on and no provider, as the code stands, the worker refuses to start: it has opened
  the client of the database and done nothing else.
\<close>

theorem worker_refuses_ocr:
  assumes "loadWorkerEnv z environ = Inr e" and "OCR_ENABLED e"
  shows "set (fst (worker_main z main_provider environ d fails))
      \<subseteq> {Open_database (createPrismaClient (Some (WORKER_DATABASE_URL e)))}"
    and "snd (worker_main z main_provider environ d fails) \<noteq> None"
proof -
  have "worker_start main_provider e d \<noteq> Inr ()"
    using assms(2) by (simp add: worker_start_def main_provider_def assertOcrStartupPreconditions_def)
  then obtain x where x: "worker_start main_provider e d = Inl x"
    by (cases "worker_start main_provider e d") auto
  show "set (fst (worker_main z main_provider environ d fails))
      \<subseteq> {Open_database (createPrismaClient (Some (WORKER_DATABASE_URL e)))}"
    and "snd (worker_main z main_provider environ d fails) \<noteq> None"
    using assms x by (auto simp: worker_main_def worker_steps_def failure_of_def split: sum.splits option.splits)
qed

text \<open>The OCR queues are consumed only with the OCR on and a provider.\<close>

lemma ocr_queues_need_provider:
  assumes "worker_main z provider environ d fails = (dn, r)"
    and "Work DOCUMENT_OCR_QUEUE \<in> set dn \<or> Work DOCUMENT_OCR_REPROCESS_QUEUE \<in> set dn"
  shows "provider \<noteq> None \<and> environ ''OCR_ENABLED'' = Some ''true''"
proof -
  from assms obtain e fails' where e: "loadWorkerEnv z environ = Inr e"
    and run: "run_steps fails' (worker_steps provider e) = (dn, r)"
    by (auto simp: worker_main_def split: sum.splits)
  from run obtain rest where "worker_steps provider e = dn @ rest" by (auto elim: run_steps_prefix)
  with assms(2) have "Work DOCUMENT_OCR_QUEUE \<in> set (worker_steps provider e)
      \<or> Work DOCUMENT_OCR_REPROCESS_QUEUE \<in> set (worker_steps provider e)" by auto
  then show ?thesis
    using loadWorkerEnv_fields(5) [OF e] by (auto simp: worker_steps_def split: if_splits)
qed

text \<open>
  Both processes stop in one order: nothing new first, then the queue with the jobs it has, then
  the database, and only then the end with success.
\<close>

lemma shutdown_order:
  assumes "run_steps fails ss = (dn, r)" and "ss = worker_shutdown sig \<or> ss = server_shutdown sig"
  shows "Disconnect \<in> set dn \<Longrightarrow> Stop_boss True \<in> set dn"
    and "Exit 0 \<in> set dn \<Longrightarrow> Disconnect \<in> set dn"
    and "Stop_boss True \<in> set dn \<Longrightarrow> Stop_timer \<in> set dn \<or> Close_app \<in> set dn"
  using assms
  by (auto simp: worker_shutdown_def server_shutdown_def closeResources_def split: option.splits)

text \<open>A server that cannot listen gives back the queue and the database, and ends with an error.\<close>

lemma server_cannot_listen:
  assumes "loadEnv z environ = Inr e" and "loadStorageEnv z environ = Inr se"
    and "\<forall>s. (case s of Listen _ _ \<Rightarrow> False | _ \<Rightarrow> True) \<longrightarrow> fails s = None"
    and "fails (Listen (API_HOST e) (API_PORT e)) = Some x" and "configured_api e c library = Inr cfg"
  shows "server_main z c library environ fails
    = (server_steps e @ [Log_error, Stop_boss True, Disconnect, Exit 1], None)"
  using assms by (simp add: server_main_def server_steps_def closeResources_def failure_of_def)

lemma database_answers: "checkDatabaseConnection (Inr rows)" "\<not> checkDatabaseConnection (Inl x)"
  by (simp_all add: checkDatabaseConnection_def)

end
