(* ===== verification/Web_Ocr_View.thy ===== *)
theory Web_Ocr_View
  imports Web_Pages
begin

text \<open>
  What the page of a case shows of a document's OCR (document-ocr.tsx, ocr-text.tsx): the state of
  the component, what its button does, and the elements it renders, in order. Text of a document
  is only ever rendered as a text node.
\<close>

datatype element =
    Status_label string
  | Show_button string bool
  | Alert string
  | Note string
  | Paragraph string
  | Heading string
  | Text_node js_text

text \<open>\<open>pages\<close> starts as null; an answer without pages makes it undefined, which cannot be rendered.\<close>

datatype shown_pages = Null_pages | Undefined_pages | Pages "(int \<times> js_text) list"

record ocr_component =
  oc_pages :: shown_pages
  oc_error :: "string option"
  oc_pending :: bool

definition new_ocr_component :: ocr_component where
  "new_ocr_component = \<lparr>oc_pages = Null_pages, oc_error = None, oc_pending = False\<rparr>"

definition show_started :: "ocr_component \<Rightarrow> ocr_component" where
  "show_started c = c\<lparr>oc_pending := True, oc_error := None\<rparr>"

definition show_answered :: "string + (int \<times> js_text) list option \<Rightarrow> ocr_component \<Rightarrow> ocr_component" where
  "show_answered result c =
    (case result of
       Inl msg \<Rightarrow> c\<lparr>oc_pending := False, oc_error := Some msg\<rparr>
     | Inr None \<Rightarrow> c\<lparr>oc_pending := False, oc_pages := Undefined_pages\<rparr>
     | Inr (Some ps) \<Rightarrow> c\<lparr>oc_pending := False, oc_pages := Pages ps\<rparr>)"

definition on_show :: "'s fetch \<Rightarrow> js_text \<Rightarrow> js_text \<Rightarrow> ocr_component \<Rightarrow> ('s, exn, ocr_component) prog" where
  "on_show fetchImpl case_id documentId c =
     bindE (document_ocr fetchImpl case_id documentId) (\<lambda>result. returnE (show_answered result (show_started c)))"

definition ocrText :: "(int \<times> js_text) list \<Rightarrow> element list" where
  "ocrText ps = Note OCR_UNVERIFIED_WARNING #
     (if ps = [] then [Paragraph ''No hay texto disponible.'']
      else concat (map (\<lambda>(n, t). [Heading (''Pagina '' @ decimal (nat n)), Text_node t]) ps))"

definition ocr_head :: "document_ocr_status \<Rightarrow> ocr_component \<Rightarrow> element list" where
  "ocr_head status c =
    [Status_label (DOCUMENT_OCR_STATUS_LABELS status)]
    @ (if status = COMPLETED \<and> oc_pages c = Null_pages
       then [Show_button (if oc_pending c then ''Cargando...'' else ''Ver texto'') (\<not> oc_pending c)] else [])
    @ (case oc_error c of Some msg \<Rightarrow> if msg = [] then [] else [Alert msg] | None \<Rightarrow> [])"

definition ocr_elements :: "document_ocr_status \<Rightarrow> ocr_component \<Rightarrow> exn + element list" where
  "ocr_elements status c =
    (case oc_pages c of
       Null_pages \<Rightarrow> Inr (ocr_head status c)
     | Undefined_pages \<Rightarrow> Inl type_error
     | Pages ps \<Rightarrow> Inr (ocr_head status c @ ocrText ps))"

text \<open>Any text of a document is shown after the warning that it is unverified.\<close>

lemma ocr_head_no_text: "Text_node t \<notin> set (ocr_head status c)"
  by (auto simp: ocr_head_def split: option.splits)

lemma warned_before:
  assumes "head @ w # rest = before @ x # after" and "x \<notin> set head" and "x \<noteq> w"
  shows "w \<in> set before"
  using assms by (auto simp: append_eq_append_conv2 append_eq_Cons_conv Cons_eq_append_conv)

lemma text_always_warned:
  assumes view: "ocr_elements status c = Inr els" and els: "els = before @ Text_node t # after"
  shows "Note OCR_UNVERIFIED_WARNING \<in> set before"
proof (cases "oc_pages c")
  case Null_pages
  with view els have "Text_node t \<in> set (ocr_head status c)" by (simp add: ocr_elements_def)
  then show ?thesis by (simp add: ocr_head_no_text)
next
  case Undefined_pages
  with view show ?thesis by (simp add: ocr_elements_def)
next
  case (Pages ps)
  with view els have "ocr_head status c @ Note OCR_UNVERIFIED_WARNING # tl (ocrText ps)
      = before @ Text_node t # after"
    by (simp add: ocr_elements_def ocrText_def)
  then show ?thesis by (rule warned_before) (simp_all add: ocr_head_no_text)
qed

text \<open>Text appears only after the API answered it, and a refused read leaves what was shown.\<close>

lemma refused_read_keeps:
  "oc_pages (show_answered (Inl msg) (show_started c)) = oc_pages c"
  by (simp add: show_answered_def show_started_def)

lemma pages_come_from_answer:
  assumes "on_show fetchImpl i j c s = (Inr c', s')" and "oc_pages c' = Pages ps" and "oc_pages c \<noteq> Pages ps"
  shows "fst (document_ocr fetchImpl i j s) = Inr (Inr (Some ps))"
  using assms
  by (auto simp: on_show_def bindE_def show_answered_def show_started_def
      split: prod.splits sum.splits option.splits)

end
