(* ===== verification/Web_Forms.thy ===== *)
theory Web_Forms
  imports Web_Ocr_View
begin

text \<open>
  The forms and buttons of the web application as components (apps/web/src/app): the state each
  keeps between the events of the browser, what it renders of that state, and the machine of
  submissions and answers. What a submission sends and what it makes of the answer are the
  programs of \<open>Web_Pages\<close>. A component is rendered again before the next event of the browser,
  and a disabled button, or a form whose button is disabled, is not submitted.
\<close>

section \<open>Components\<close>

datatype form_kind =
    LoginForm | RegisterForm | ForgotPasswordForm | ResetPasswordForm | NewCaseForm
  | DocumentUpload | DocumentDownload | LogoutButton

text \<open>\<open>fm_done\<close> is \<open>accepted\<close> or \<open>done\<close>: the forms that have it render a final text instead.\<close>

record form_component =
  fm_error :: "string option"
  fm_pending :: bool
  fm_done :: bool

definition new_form :: form_component where
  "new_form = \<lparr>fm_error = None, fm_pending = False, fm_done = False\<rparr>"

text \<open>A submission with what the browser read of the form.\<close>

datatype submission =
    Submit_login "string option" "string option"
  | Submit_register "string option" "string option" "string option"
  | Submit_forgot "string option"
  | Submit_reset string "string option"
  | Submit_case "string option"
  | Submit_upload js_text "(bytes \<times> js_text) option"
  | Press_download js_text js_text
  | Press_logout

fun kind_of :: "submission \<Rightarrow> form_kind" where
  "kind_of (Submit_login _ _) = LoginForm"
| "kind_of (Submit_register _ _ _) = RegisterForm"
| "kind_of (Submit_forgot _) = ForgotPasswordForm"
| "kind_of (Submit_reset _ _) = ResetPasswordForm"
| "kind_of (Submit_case _) = NewCaseForm"
| "kind_of (Submit_upload _ _) = DocumentUpload"
| "kind_of (Press_download _ _) = DocumentDownload"
| "kind_of Press_logout = LogoutButton"

fun submitted :: "'s fetch \<Rightarrow> locale_text \<Rightarrow> submission \<Rightarrow> ('s, exn, form_result) prog" where
  "submitted fetchImpl l (Submit_login email password) = login_form fetchImpl email password"
| "submitted fetchImpl l (Submit_register name email password) = register_form fetchImpl name email password"
| "submitted fetchImpl l (Submit_forgot email) = forgot_password_form fetchImpl email"
| "submitted fetchImpl l (Submit_reset hash password) = reset_password_form fetchImpl hash password"
| "submitted fetchImpl l (Submit_case v) = new_case_form fetchImpl v"
| "submitted fetchImpl l (Submit_upload c file) = document_upload fetchImpl l c file"
| "submitted fetchImpl l (Press_download c i) = document_download fetchImpl c i"
| "submitted fetchImpl l Press_logout = logout_button fetchImpl"

text \<open>What a form answers by itself, before it would send anything.\<close>

fun refused_here :: "locale_text \<Rightarrow> submission \<Rightarrow> form_result option" where
  "refused_here l (Submit_reset hash _) =
    (if readTokenFromFragment hash = None then Some Nothing else None)"
| "refused_here l (Submit_case v) =
    (if Option.bind v (\<lambda>name. find (\<lambda>t. case_type_name t = name) CASE_TYPES) = None
     then Some (Message ''Elige el tipo de situacion.'') else None)"
| "refused_here l (Submit_upload _ file) =
    (case file of
       None \<Rightarrow> Some (Message ''Elige un archivo.'')
     | Some (content, name) \<Rightarrow>
         if content = [] then Some (Message ''Elige un archivo.'')
         else if int (length content) > DOCUMENT_MAX_BYTES
         then Some (Message (''El archivo supera el tamano maximo ('' @ formatFileSize l DOCUMENT_MAX_BYTES @ '').''))
         else None)"
| "refused_here l _ = None"

section \<open>Events\<close>

text \<open>
  A submission sets an error and stops, or starts a request. Its answer settles the component; or
  the client's promise is rejected, which no form catches; or the data of a good answer is not
  there to be read, which only the download meets after it has stopped waiting. The forms that go
  to another page stay waiting until that page replaces them.
\<close>

datatype outcome = Settled form_result | Rejected exn | No_data exn

datatype form_event = Press submission | Answered outcome

definition started :: "form_component \<Rightarrow> form_component" where
  "started c = c\<lparr>fm_pending := True, fm_error := None\<rparr>"

definition keeps_waiting :: "form_kind \<Rightarrow> bool" where
  "keeps_waiting k \<longleftrightarrow> k \<in> {LoginForm, NewCaseForm, LogoutButton}"

definition has_final :: "form_kind \<Rightarrow> bool" where
  "has_final k \<longleftrightarrow> k \<in> {RegisterForm, ForgotPasswordForm, ResetPasswordForm}"

fun settle :: "form_kind \<Rightarrow> outcome \<Rightarrow> form_component \<Rightarrow> form_component" where
  "settle k (Rejected e) c = c"
| "settle k (No_data e) c = (if k = DocumentDownload then c\<lparr>fm_pending := False\<rparr> else c)"
| "settle k (Settled (Message m)) c = c\<lparr>fm_pending := False, fm_error := Some m\<rparr>"
| "settle k (Settled (Navigate url)) c = (if keeps_waiting k then c else c\<lparr>fm_pending := False\<rparr>)"
| "settle k (Settled Finished) c =
    (if has_final k then c\<lparr>fm_pending := False, fm_done := True\<rparr> else c\<lparr>fm_pending := False\<rparr>)"
| "settle k (Settled Nothing) c = c"

text \<open>The step, and whether it sends a request.\<close>

fun form_step :: "locale_text \<Rightarrow> form_kind \<Rightarrow> form_event \<Rightarrow> form_component \<Rightarrow> form_component \<times> bool" where
  "form_step l k (Press sub) c =
    (if fm_pending c \<or> fm_done c then (c, False)
     else case refused_here l sub of
            Some (Message m) \<Rightarrow> (c\<lparr>fm_error := Some m\<rparr>, False)
          | Some _ \<Rightarrow> (c, False)
          | None \<Rightarrow> (started c, True))"
| "form_step l k (Answered r) c = (settle k r c, False)"

section \<open>What is rendered\<close>

datatype form_element =
    Field string string
  | Choice case_type string
  | Form_alert string
  | Form_button string bool
  | Form_status string
  | Form_link string string

definition alert_of :: "form_component \<Rightarrow> form_element list" where
  "alert_of c = (case fm_error c of Some m \<Rightarrow> if m = [] then [] else [Form_alert m] | None \<Rightarrow> [])"

definition button_of :: "string \<Rightarrow> string \<Rightarrow> form_component \<Rightarrow> form_element list" where
  "button_of waiting ready c = [Form_button (if fm_pending c then waiting else ready) (\<not> fm_pending c)]"

definition login_elements :: "form_component \<Rightarrow> form_element list" where
  "login_elements c =
     [Field ''email'' ''Correo electronico'', Field ''password'' ''Contrasena'']
     @ alert_of c @ button_of ''Ingresando...'' ''Iniciar sesion'' c"

definition register_elements :: "form_component \<Rightarrow> form_element list" where
  "register_elements c =
    (if fm_done c
     then [Form_status (''Solicitud recibida. Si el correo no estaba registrado, tu cuenta ya esta creada y te ''
             @ ''enviaremos un enlace para verificar tu direccion.''),
           Form_link ''/iniciar-sesion'' ''Ir a iniciar sesion'']
     else [Field ''fullName'' ''Nombre completo'', Field ''email'' ''Correo electronico'', Field ''password'' ''Contrasena'']
       @ alert_of c @ button_of ''Enviando...'' ''Crear cuenta'' c)"

definition forgot_elements :: "form_component \<Rightarrow> form_element list" where
  "forgot_elements c =
    (if fm_done c
     then [Form_status ''Si el correo esta registrado, te enviaremos un enlace para restablecer tu contrasena.'']
     else [Field ''email'' ''Correo electronico''] @ alert_of c @ button_of ''Enviando...'' ''Enviar enlace'' c)"

definition reset_elements :: "form_component \<Rightarrow> form_element list" where
  "reset_elements c =
    (if fm_done c
     then [Form_status ''Tu contrasena se ha cambiado y todas tus sesiones se han cerrado.'',
           Form_link ''/iniciar-sesion'' ''Iniciar sesion'']
     else [Field ''newPassword'' ''Nueva contrasena (12 a 128 caracteres)'']
       @ alert_of c @ button_of ''Guardando...'' ''Cambiar contrasena'' c)"

definition new_case_elements :: "form_component \<Rightarrow> form_element list" where
  "new_case_elements c =
     map (\<lambda>t. Choice t (CASE_TYPE_LABELS t)) CASE_TYPES @ alert_of c @ button_of ''Creando...'' ''Crear caso'' c"

definition upload_elements :: "locale_text \<Rightarrow> form_component \<Rightarrow> form_element list" where
  "upload_elements l c =
     [Field ''file'' (''Subir documento (PDF, JPG o PNG; maximo '' @ formatFileSize l DOCUMENT_MAX_BYTES @ '')'')]
     @ alert_of c @ button_of ''Subiendo...'' ''Subir'' c"

definition download_elements :: "form_component \<Rightarrow> form_element list" where
  "download_elements c = button_of ''Preparando...'' ''Descargar'' c @ alert_of c"

definition logout_elements :: "form_component \<Rightarrow> form_element list" where
  "logout_elements c = button_of ''Cerrando sesion...'' ''Cerrar sesion'' c @ alert_of c"

fun form_elements :: "locale_text \<Rightarrow> form_kind \<Rightarrow> form_component \<Rightarrow> form_element list" where
  "form_elements l LoginForm c = login_elements c"
| "form_elements l RegisterForm c = register_elements c"
| "form_elements l ForgotPasswordForm c = forgot_elements c"
| "form_elements l ResetPasswordForm c = reset_elements c"
| "form_elements l NewCaseForm c = new_case_elements c"
| "form_elements l DocumentUpload c = upload_elements l c"
| "form_elements l DocumentDownload c = download_elements c"
| "form_elements l LogoutButton c = logout_elements c"

lemmas elements_defs = login_elements_def register_elements_def forgot_elements_def reset_elements_def
  new_case_elements_def upload_elements_def download_elements_def logout_elements_def

text \<open>
  The page of a reset: nothing until the fragment was read, then the form, or that the link is
  invalid. The page of a verification: its three states.
\<close>

definition reset_page :: "locale_text \<Rightarrow> string option option \<Rightarrow> form_component \<Rightarrow> form_element list" where
  "reset_page l token c =
    (case token of
       None \<Rightarrow> []
     | Some None \<Rightarrow> [Form_alert INVALID_LINK, Form_link ''/recuperar-contrasena'' ''Solicitar un enlace nuevo'']
     | Some (Some _) \<Rightarrow> form_elements l ResetPasswordForm c)"

datatype verify_state = Verifying | Verified | Verify_failed string

definition verify_answered :: "outcome \<Rightarrow> verify_state" where
  "verify_answered r =
    (case r of Settled Finished \<Rightarrow> Verified | Settled (Message m) \<Rightarrow> Verify_failed m | _ \<Rightarrow> Verifying)"

fun verify_elements :: "verify_state \<Rightarrow> form_element list" where
  "verify_elements Verifying = [Form_status ''Verificando tu correo...'']"
| "verify_elements Verified = [Form_status ''Tu correo esta verificado.'', Form_link ''/panel'' ''Ir al panel'']"
| "verify_elements (Verify_failed m) = [Form_alert m, Form_link ''/iniciar-sesion'' ''Ir a iniciar sesion'']"

section \<open>What a form refuses by itself is never sent\<close>

lemma refused_here_sends_nothing:
  "refused_here l sub = Some r \<Longrightarrow> submitted fetchImpl l sub s = (Inr r, s)"
  by (cases sub)
    (auto simp: reset_password_form_def new_case_form_def document_upload_def returnE_def
      split: option.splits if_splits)

section \<open>The machine of submissions and answers\<close>

text \<open>The component of a kind, and how many of its requests are not answered yet.\<close>

inductive form_reach :: "locale_text \<Rightarrow> form_kind \<Rightarrow> form_component \<Rightarrow> nat \<Rightarrow> bool" for l k where
  mounted: "form_reach l k new_form 0"
| pressed: "form_reach l k c n \<Longrightarrow> kind_of sub = k \<Longrightarrow> form_step l k (Press sub) c = (c', sent)
    \<Longrightarrow> form_reach l k c' (if sent then Suc n else n)"
| answered: "form_reach l k c (Suc n) \<Longrightarrow> form_step l k (Answered r) c = (c', sent) \<Longrightarrow> form_reach l k c' n"

text \<open>
  Whatever the user presses and the network answers, a component has at most one request on its
  way, it waits while it has one, and a form shows its final text only when none is left.
\<close>

theorem one_request_at_a_time:
  "form_reach l k c n \<Longrightarrow> n \<le> 1 \<and> (n = 1 \<longrightarrow> fm_pending c \<and> \<not> fm_done c) \<and> (fm_done c \<longrightarrow> has_final k)"
proof (induction rule: form_reach.induct)
  case (pressed c n sub c' sent)
  from pressed.hyps(3) pressed.IH show ?case
    by (auto simp: started_def split: if_splits option.splits form_result.splits)
next
  case (answered c n r c' sent)
  then have "n = 0" "c' = settle k r c" "\<not> fm_done c" by auto
  then show ?case by (cases "(k, r, c)" rule: settle.cases) (auto split: if_splits)
qed (simp add: new_form_def)

text \<open>A waiting component shows a disabled button, and no message of an earlier attempt.\<close>

lemma waiting_button:
  assumes "fm_pending c" and "\<not> fm_done c"
  shows "\<exists>label. Form_button label False \<in> set (form_elements l k c)"
    and "Form_button label True \<notin> set (form_elements l k c)"
  using assms by (cases k; auto simp: elements_defs button_of_def alert_of_def split: option.splits)+

lemma starting_clears_error:
  "form_step l k (Press sub) c = (c', True) \<Longrightarrow> alert_of c' = [] \<and> fm_pending c'"
  by (auto simp: started_def alert_of_def split: if_splits option.splits form_result.splits)

text \<open>
  The final text of a registration or of a recovery is the same for every account: what is rendered
  of an accepted request does not depend on the answer.
\<close>

lemma accepted_elements_alike:
  "has_final k \<Longrightarrow> form_elements l k (settle k (Settled Finished) c) = form_elements l k (settle k (Settled Finished) c')"
  by (cases k) (simp_all add: has_final_def elements_defs)

text \<open>
  A component whose request was rejected (the connection broke in the body of a good answer, say)
  waits for ever: no later press sends anything or changes it.
\<close>

lemma rejected_waits_for_ever:
  assumes "fm_pending c"
  shows "form_step l k (Answered (Rejected e)) c = (c, False)" and "form_step l k (Press sub) c = (c, False)"
  using assms by simp_all

lemma broken_body_rejects:
  assumes "fetchImpl path init s = (Some r, s')" and "response_ok r" and "rs_status r \<noteq> 204"
    and "rs_payload r = Not_json" and "client_headers ci = Inr hs"
    and "init = \<lparr>fi_method = ci_method ci, fi_headers = hs, fi_credentials = ''same-origin'',
      fi_cache = ''no-store'', fi_body = client_body ci\<rparr>"
  shows "client_request fetchImpl path ci s = (Inl (Error ''SyntaxError''), s')"
  using assms by (simp add: client_request_def)

end
