(* ===== verification/Reset_Tokens.thy ===== *)
theory Reset_Tokens
  imports Outbox
begin

text \<open>
  The life of a password reset link. Two operations write \<open>password_reset_tokens\<close>: the reset that
  spends a token (\<open>resetPassword\<close> of auth.repository.ts) and the composer of the reset email,
  which replaces a user's tokens when a round of the dispatcher hands it an entry
  (outbox.repository.ts). A step of the token table is one of them, or anything that leaves the
  table alone; a hash once spent stays spent along every sequence of steps.
\<close>

section \<open>Steps of the token table\<close>

inductive token_step :: "crypto \<Rightarrow> db \<Rightarrow> db \<Rightarrow> bool" for c where
  tokens_reset: "resetPassword_service c env token pw ctx d = (r, d') \<Longrightarrow> token_step c d d'"
| tokens_dispatch: "dispatchNext rd exclude (handle_entry composers opts c rd) s = (r, s')
    \<Longrightarrow> token_step c (ms_db s) (ms_db s')"
| tokens_other: "resetTokens d' = resetTokens d \<Longrightarrow> token_step c d d'"

text \<open>A hash of the table none of whose rows can be used any more.\<close>

definition spent_hash :: "string \<Rightarrow> token_row list \<Rightarrow> bool" where
  "spent_hash h ts \<longleftrightarrow> h \<in> t_tokenHash ` set ts \<and> (\<forall>t \<in> set ts. t_tokenHash t = h \<longrightarrow> t_usedAt t \<noteq> None)"

lemma marked_hashes: "t_tokenHash ` set (update_where P (\<lambda>t. t\<lparr>t_usedAt := x\<rparr>) ts) = t_tokenHash ` set ts"
  by (induction ts) auto

lemma spent_hash_mark:
  "spent_hash h ts \<Longrightarrow> spent_hash h (update_where P (\<lambda>t. t\<lparr>t_usedAt := Some now\<rparr>) ts)"
  by (simp add: spent_hash_def marked_hashes ball_update_where)

lemma spent_hash_not_usable: "spent_hash h ts \<Longrightarrow> find (usable_token now h) ts = None"
  by (auto simp: spent_hash_def find_None_iff usable_token_def)

lemma spent_hash_replace:
  assumes "spent_hash h ts" and "replace_token u h' expiry now ts = Inr ts'"
  shows "spent_hash h ts'"
proof -
  have "\<not> (\<exists>t \<in> set ts. t_tokenHash t = h')"
    and ts': "ts' = update_where (\<lambda>t. t_userId t = u \<and> t_usedAt t = None) (\<lambda>t. t\<lparr>t_usedAt := Some now\<rparr>) ts
      @ [\<lparr>t_userId = u, t_tokenHash = h', t_expiresAt = expiry, t_usedAt = None, t_createdAt = now\<rparr>]"
    using assms(2) by (auto simp: replace_token_def Let_def split: if_splits)
  with assms(1) have "h \<noteq> h'" by (auto simp: spent_hash_def)
  with spent_hash_mark [OF assms(1)] show ?thesis
    by (auto simp: ts' spent_hash_def)
qed

lemma compose_reset_tokens:
  assumes "compose opts c raw now row d = (r, d')"
  shows "resetTokens d' = resetTokens d \<or>
    (\<exists>u h x. replace_token u h x now (resetTokens d) = Inr (resetTokens d'))"
  using assms
  by (auto simp: bindE_def recipient_def replaceEmailVerificationToken_def replacePasswordResetToken_def Let_def
      split: email_outbox_kind.splits option.splits sum.splits if_splits)

lemma dispatch_reset_tokens:
  assumes "dispatchNext rd exclude (handle_entry composers opts c rd) s = (r, s')"
  shows "resetTokens (ms_db s') = resetTokens (ms_db s) \<or>
    (\<exists>u h x. replace_token u h x (dr_now rd) (resetTokens (ms_db s)) = Inr (resetTokens (ms_db s')))"
proof (cases r)
  case (Inl e)
  then show ?thesis
    using assms by (auto simp: dispatchNext_def mail_transaction_def split: list.splits prod.splits sum.splits)
next
  case (Inr b)
  show ?thesis
  proof (cases b)
    case False
    with Inr assms have "dispatchNext rd exclude (handle_entry composers opts c rd) s = (Inr False, s')" by simp
    from next_False [OF this] show ?thesis by simp
  next
    case True
    with Inr assms have "dispatchNext rd exclude (handle_entry composers opts c rd) s = (Inr True, s')" by simp
    from next_True [OF this] obtain row s1 where
      s1: "handle_entry composers opts c rd row (s\<lparr>ms_handed := ms_handed s @ [o_id row]\<rparr>) = (Inr (), s1)"
      and sent: "mark_sent (o_id row) (dr_now rd) (ms_db s1) = (Inr (), ms_db s')"
      by blast
    from handle_Inr [OF s1] obtain m where
      "compose opts c (dr_raw rd) (dr_now rd) row (ms_db s) = (Inr m, ms_db s1)" by auto
    from compose_reset_tokens [OF this] mark_sent_frame(2) [OF sent] show ?thesis by simp
  qed
qed

lemma reset_service_tokens:
  assumes "resetPassword_service c env token pw ctx d = (r, d')" and "spent_hash h (resetTokens d)"
  shows "spent_hash h (resetTokens d')"
proof -
  let ?input = "\<lparr>rp_tokenHash = sha256Hex c token, rp_passwordHash = hashPassword c pw,
    rp_audit = user_event ''auth.password.reset_completed'' ctx\<rparr>"
  obtain x d1 where run: "resetPassword (sup_pgNow env) (sup_outboxId env) ?input d = (x, d1)" by fastforce
  with assms(1) have d': "d' = d1"
    by (auto simp: resetPassword_service_def bindE_def split: sum.splits option.splits)
  show ?thesis
  proof (cases "\<exists>u. x = Inr (Some u)")
    case True
    then obtain u where "resetPassword (sup_pgNow env) (sup_outboxId env) ?input d = (Inr (Some u), d')"
      using run d' by blast
    then have "resetTokens d' = update_where (\<lambda>t. t_userId t = u_id u \<and> t_usedAt t = None)
        (\<lambda>t. t\<lparr>t_usedAt := Some (sup_pgNow env)\<rparr>) (use_token (sup_pgNow env) (sha256Hex c token) (resetTokens d))"
      by (rule resetPassword_SomeE) simp
    then show ?thesis using assms(2) by (simp add: use_token_def spent_hash_mark)
  next
    case False
    with reset_token.not_used_changes_nothing [OF run] assms(2) d' show ?thesis by simp
  qed
qed

lemma spent_hash_step: "token_step c d d' \<Longrightarrow> spent_hash h (resetTokens d) \<Longrightarrow> spent_hash h (resetTokens d')"
  by (induction rule: token_step.induct)
    (auto dest: dispatch_reset_tokens reset_service_tokens spent_hash_replace)

lemma spent_hash_steps:
  "(token_step c)\<^sup>*\<^sup>* d d' \<Longrightarrow> spent_hash h (resetTokens d) \<Longrightarrow> spent_hash h (resetTokens d')"
  by (induction rule: rtranclp_induct) (auto intro: spent_hash_step)

lemma spent_hash_refused:
  assumes "spent_hash (sha256Hex c token) (resetTokens d)"
  shows "resetPassword_service c env token pw ctx d = (Inl invalid_or_expired, d)"
  by (simp add: resetPassword_service_def bindE_def reset_token.refuse [OF spent_hash_not_usable [OF assms]])

section \<open>What leaves the token table alone\<close>

text \<open>No other operation of the account service touches the table, whatever it answers.\<close>

definition keeps_resets :: "'a tx \<Rightarrow> bool" where
  "keeps_resets m \<longleftrightarrow> (\<forall>d. resetTokens (snd (m d)) = resetTokens d)"

lemma keeps_resetsI: "(\<And>d. resetTokens (snd (m d)) = resetTokens d) \<Longrightarrow> keeps_resets m"
  by (simp add: keeps_resets_def)

lemma keeps_bind:
  assumes "keeps_resets m" and "\<And>x. keeps_resets (f x)"
  shows "keeps_resets (bindE m f)"
proof (rule keeps_resetsI)
  fix d
  obtain r d1 where "m d = (r, d1)" by fastforce
  with assms(1) assms(2) show "resetTokens (snd (bindE m f d)) = resetTokens d"
    by (cases r) (auto simp: bindE_def keeps_resets_def dest: spec [of _ d])
qed

lemma keeps_bind_at:
  "keeps_resets m \<Longrightarrow> (\<And>x. keeps_resets (f x)) \<Longrightarrow> resetTokens (snd (bindE m f d)) = resetTokens d"
  using keeps_bind [of m f] by (simp add: keeps_resets_def)

lemma keeps_transaction: "keeps_resets m \<Longrightarrow> keeps_resets (transaction m)"
  by (auto simp: keeps_resets_def transaction_def split: prod.splits sum.splits) (metis snd_conv)

lemma keeps_locked: "keeps_resets m \<Longrightarrow> keeps_resets (locked_attempt fault m)"
  using keeps_transaction [of m]
  by (auto simp: keeps_resets_def locked_attempt_def catchE_def split: prod.splits sum.splits option.splits)
    (metis snd_conv)+

lemma keeps_email_answer: "resetTokens (snd (email_answer r)) = resetTokens (snd r)"
  by (auto simp: email_answer_def split: prod.splits sum.splits exn.splits email_outcome.splits)

lemma keepsD: "keeps_resets m \<Longrightarrow> m d = (r, d') \<Longrightarrow> resetTokens d' = resetTokens d"
  by (auto simp: keeps_resets_def dest: spec [of _ d])

lemma keeps_revoke_where: "revoke_where P wall reason audit d = (n, d') \<Longrightarrow> resetTokens d' = resetTokens d"
  by (auto simp: revoke_where_def Let_def)

lemma keeps_revokeSession: "resetTokens (snd (revokeSession wall i reason audit d)) = resetTokens d"
  by (auto simp: revokeSession_def split: prod.splits dest: keeps_revoke_where)

lemma keeps_loadValidSession: "keeps_resets (loadValidSession c raw now)"
  by (rule keeps_resetsI)
    (auto simp: loadValidSession_def touchSession_def bindE_def Let_def split: option.splits prod.splits sum.splits)

lemma keeps_currentUser: "keeps_resets (currentUser c now raw)"
  unfolding currentUser_def
  by (rule keeps_bind [OF keeps_loadValidSession]) (auto simp: keeps_resets_def split: option.splits)

lemma keeps_createSession: "keeps_resets (createSession i input)"
  by (simp add: keeps_resets_def createSession_def)

lemma keeps_verifyEmail: "keeps_resets (verifyEmail c env token ctx)"
  unfolding verifyEmail_def
  by (rule keeps_bind) (auto simp: keeps_resets_def consumeEmailVerificationToken_def transaction_def Let_def
      split: option.splits)

lemma keeps_resend_run:
  "(\<And>sc. keeps_resets (attempt sc)) \<Longrightarrow> keeps_resets (runEmailVerificationResend fault now i window attempt)"
  unfolding runEmailVerificationResend_def
  by (rule keeps_locked) (simp add: keeps_resets_def Let_def)

lemma keeps_resend: "keeps_resets (resendEmailVerification env current)"
  unfolding resendEmailVerification_def
proof (rule keeps_resetsI, goal_cases)
  case (1 d)
  show ?case
  proof (cases "pu_emailVerified (cur_user current)")
    case False
    then show ?thesis
      unfolding if_not_P [OF False] keeps_email_answer
      by (intro keeps_resend_run [unfolded keeps_resets_def, rule_format]) (simp add: Let_def)
  qed simp
qed

lemma keeps_forgot_run:
  "(\<And>sc. keeps_resets (attempt sc)) \<Longrightarrow> keeps_resets (runPasswordResetRequest fault now h window attempt)"
  unfolding runPasswordResetRequest_def
  by (rule keeps_locked) (simp add: keeps_resets_def Let_def)

lemma keeps_forgot: "keeps_resets (forgotPassword c env email ctx)"
  unfolding forgotPassword_def Let_def
proof (rule keeps_resetsI, goal_cases)
  case (1 d)
  show ?case
    unfolding keeps_email_answer
    by (rule keeps_forgot_run [unfolded keeps_resets_def, rule_format]) (simp add: keeps_resets_def split: option.split)
qed

lemma keeps_login_attempt: "keeps_resets (login_attempt c cfg email h pw ctx scope)"
  by (auto simp: keeps_resets_def login_attempt_def Let_def split: option.splits)

lemma keeps_end_previous: "resetTokens (end_previous c wall prev d) = resetTokens d"
  by (simp add: end_previous_def keeps_revokeSession split: option.splits)

lemma keeps_createSessionForUser: "keeps_resets (createSessionForUser c i raw csrf u rl addr ua now)"
  unfolding createSessionForUser_def Let_def
  by (rule keeps_bind [OF keeps_createSession]) (simp add: keeps_resets_def)

lemma keeps_login_run:
  "keeps_resets (runLoginAttempt fault now h window (login_attempt c cfg email h' pw ctx))"
  unfolding runLoginAttempt_def
  by (rule keeps_locked) (use keeps_login_attempt in \<open>simp add: keeps_resets_def Let_def\<close>)

lemma keeps_login: "keeps_resets (login c cfg env input ctx prev)"
proof (rule keeps_resetsI)
  fix d
  let ?email = "normalizeEmail (li_email input)"
  obtain r d1 where run: "runLoginAttempt (sup_fault env) (sup_pgNow env) (sha256Hex c ?email)
      (accountLoginWindowMs cfg) (login_attempt c cfg ?email (sha256Hex c ?email) (li_password input) ctx) d = (r, d1)"
    by fastforce
  note same = keepsD [OF keeps_login_run run]
  show "resetTokens (snd (login c cfg env input ctx prev d)) = resetTokens d"
  proof (cases r)
    case (Inl e)
    with run same show ?thesis by (cases e) (simp_all add: login_def Let_def)
  next
    case (Inr out)
    show ?thesis
    proof (cases out)
      case (Granted u)
      show ?thesis
        by (simp add: login_def Let_def writeAuditLog_def run Inr Granted, rule trans [OF keeps_bind_at same],
            rule keeps_createSessionForUser, simp add: keeps_resets_def keeps_end_previous)
    qed (use run Inr same in \<open>simp_all add: login_def Let_def\<close>)
  qed
qed

lemma keeps_rotateSessionForUser: "keeps_resets (rotateSessionForUser c i raw csrf s u rl addr ua now)"
proof -
  have "keeps_resets (rotateSession i input)" for input
    unfolding rotateSession_def
    by (rule keeps_transaction) (auto simp: keeps_resets_def Let_def bindE_def createSession_def)
  then show ?thesis
    unfolding rotateSessionForUser_def Let_def by (rule keeps_bind) (simp add: keeps_resets_def)
qed

lemma keeps_rotate: "keeps_resets (rotateSession_service c env current ctx)"
  by (rule keeps_resetsI)
    (simp add: rotateSession_service_def keeps_bind_at [OF keeps_rotateSessionForUser] keeps_resets_def)

lemma keeps_revokeOwn: "keeps_resets (revokeOwnSession_service env current i ctx)"
  by (auto simp: keeps_resets_def revokeOwnSession_service_def revokeOwnSession_def split: prod.splits
      dest: keeps_revoke_where)

lemma keeps_logoutAll: "keeps_resets (logoutAll env current ctx)"
  by (simp add: keeps_resets_def logoutAll_def revokeAllOwnSessions_def revoke_where_def Let_def)

lemma keeps_logout: "keeps_resets (logout c env raw ctx)"
  unfolding logout_def
  by (rule keeps_bind [OF keeps_loadValidSession]) (simp add: keeps_resets_def keeps_revokeSession split: option.splits)

lemma keeps_register:
  assumes "resetTokens (race d) = resetTokens d"
  shows "resetTokens (snd (register c env race input ctx d)) = resetTokens d"
  using assms
  by (auto simp: register_def Let_def auditDuplicateRegistration_def writeAuditLog_def
      createUserWithEmailVerification_def createUser_def transaction_def bindE_def
      split: option.splits exn.splits)

lemma keeps_csrf: "keeps_resets (rotateCsrfToken i h)"
  by (simp add: keeps_resets_def rotateCsrfToken_def rotateSessionCsrf_def)

text \<open>So every one of them is a step of the table.\<close>

lemma account_operation_steps:
  assumes "keeps_resets m"
  shows "token_step c d (snd (m d))"
  using assms by (intro tokens_other) (simp add: keeps_resets_def)

lemmas account_steps = keeps_login keeps_currentUser keeps_rotate keeps_verifyEmail keeps_resend keeps_forgot
  keeps_revokeOwn keeps_logoutAll keeps_logout keeps_csrf

lemmas account_token_steps = account_steps [THEN account_operation_steps]

section \<open>What a reset does\<close>

lemma use_then_mark:
  assumes "find (usable_token now h) ts = Some t" and "distinct (map t_tokenHash ts)"
  shows "update_where (\<lambda>r. t_userId r = t_userId t \<and> t_usedAt r = None) (\<lambda>r. r\<lparr>t_usedAt := Some now\<rparr>) (use_token now h ts)
    = update_where (\<lambda>r. t_userId r = t_userId t \<and> t_usedAt r = None) (\<lambda>r. r\<lparr>t_usedAt := Some now\<rparr>) ts"
proof -
  have "r = t" if "r \<in> set ts" "usable_token now h r" for r
    using that find_SomeD [OF assms(1)] assms(2) by (auto simp: usable_token_def distinct_map dest: inj_onD)
  then have "\<forall>r \<in> set ts. usable_token now h r \<longrightarrow> t_userId r = t_userId t \<and> t_usedAt r = None"
    by (auto simp: usable_token_def)
  then show ?thesis
    unfolding use_token_def by (induction ts) auto
qed

text \<open>The database after a reset, in full.\<close>

definition reset_done :: "crypto \<Rightarrow> supplies \<Rightarrow> string \<Rightarrow> request_context \<Rightarrow> user_row \<Rightarrow> db \<Rightarrow> db" where
  "reset_done c env newPassword ctx u d = d
     \<lparr>users := update_where (\<lambda>r. u_id r = u_id u) (\<lambda>r. r\<lparr>u_passwordHash := hashPassword c newPassword\<rparr>) (users d),
      resetTokens := update_where (\<lambda>t. t_userId t = u_id u \<and> t_usedAt t = None)
        (\<lambda>t. t\<lparr>t_usedAt := Some (sup_pgNow env)\<rparr>) (resetTokens d),
      sessions := update_where (\<lambda>s. s_userId s = u_id u \<and> s_revokedAt s = None)
        (\<lambda>s. s\<lparr>s_revokedAt := Some (sup_pgNow env), s_revokedReason := Some PASSWORD_RESET\<rparr>) (sessions d),
      outbox := outbox d @ [\<lparr>o_id = sup_outboxId env, o_kind = Kind_PASSWORD_RESET_COMPLETED,
        o_userId = u_id u, o_createdAt = sup_pgNow env, o_sentAt = None\<rparr>],
      auditLogs := auditLogs d @ [\<lparr>a_entry = user_event ''auth.password.reset_completed'' ctx
        (u\<lparr>u_passwordHash := hashPassword c newPassword\<rparr>), a_occurredAt = sup_pgNow env\<rparr>]\<rparr>"

lemma reset_service_done:
  assumes "resetPassword_service c env token newPassword ctx d = (Inr (), d')"
    and "distinct (map t_tokenHash (resetTokens d))"
  obtains t u where "find (usable_token (sup_pgNow env) (sha256Hex c token)) (resetTokens d) = Some t"
    and "findUserById (t_userId t) d = Some u" and "u_id u = t_userId t"
    and "d' = reset_done c env newPassword ctx u d"
proof -
  let ?now = "sup_pgNow env"
  let ?input = "\<lparr>rp_tokenHash = sha256Hex c token, rp_passwordHash = hashPassword c newPassword,
    rp_audit = user_event ''auth.password.reset_completed'' ctx\<rparr>"
  from assms obtain x where run: "resetPassword ?now (sup_outboxId env) ?input d = (Inr (Some x), d')"
    by (auto simp: resetPassword_service_def bindE_eq_Inr split: option.splits)
  then obtain t where t: "find (usable_token ?now (sha256Hex c token)) (resetTokens d) = Some t"
    by (auto simp: resetPassword_def split: option.splits)
  with run obtain u where u: "findUserById (t_userId t) d = Some u"
    by (auto simp: resetPassword_def findUserById_def Let_def split: option.splits)
  then have uid: "u_id u = t_userId t" by (auto simp: findUserById_def dest!: find_SomeD)
  have "findUserById (t_userId t) (d\<lparr>resetTokens := ts\<rparr>) = Some u" for ts
    using u by (simp add: findUserById_def)
  with run t have "d' = reset_done c env newPassword ctx u d"
    by (intro db.equality)
      (auto simp: resetPassword_def reset_done_def Let_def uid use_then_mark [OF t assms(2)]
        insert_audit_def insert_outbox_def)
  with t u uid that show thesis by blast
qed

lemma reset_done_spends:
  assumes "find (usable_token now h) (resetTokens d) = Some t" and "u_id u = t_userId t"
    and "distinct (map t_tokenHash (resetTokens d))"
  shows "spent_hash h (resetTokens (reset_done c env pw ctx u d))"
proof -
  have t: "t \<in> set (resetTokens d)" "t_tokenHash t = h"
    using find_SomeD [OF assms(1)] by (auto simp: usable_token_def)
  then have only: "r = t" if "r \<in> set (resetTokens d)" "t_tokenHash r = h" for r
    using that assms(3) by (auto simp: distinct_map dest: inj_onD)
  have "h \<in> t_tokenHash ` set (resetTokens (reset_done c env pw ctx u d))"
    using t by (auto simp: reset_done_def marked_hashes)
  moreover have "t_usedAt r \<noteq> None"
    if r: "r \<in> set (resetTokens (reset_done c env pw ctx u d))" "t_tokenHash r = h" for r
  proof -
    from r(1) obtain r0 where r0: "r0 \<in> set (resetTokens d)"
      "r = (if t_userId r0 = u_id u \<and> t_usedAt r0 = None then r0\<lparr>t_usedAt := Some (sup_pgNow env)\<rparr> else r0)"
      by (auto simp: reset_done_def elim: mem_update_whereE)
    from r0(2) r(2) have "t_tokenHash r0 = h" by (simp split: if_splits)
    with only r0(1) assms(2) have "t_userId r0 = u_id u" by simp
    with r0(2) show ?thesis by simp
  qed
  ultimately show ?thesis by (simp add: spent_hash_def)
qed

section \<open>The property\<close>

text \<open>
  C16. A password reset that succeeds spent a usable token of its user, and the database after it
  is \<open>reset_done\<close>: that user's password hash is the new one, every unrevoked session of theirs is
  revoked for the reset, every unused reset token of theirs is marked used, the confirmation email
  and the audit event are appended, and nothing else changed, so no row of another user. The same
  link is refused, changing nothing, in every database reached afterwards by resets, rounds of
  the email dispatcher and operations that leave the token table alone, whatever the clock and the
  other arguments. Token hashes are distinct, as the table's unique index has them.
\<close>

theorem resetPassword_effect:
  assumes "resetPassword_service c env token newPassword ctx d = (Inr (), d')"
    and "distinct (map t_tokenHash (resetTokens d))"
  shows "(\<exists>t u. t \<in> set (resetTokens d) \<and> t_tokenHash t = sha256Hex c token \<and>
      t_usedAt t = None \<and> sup_pgNow env < t_expiresAt t \<and>
      findUserById (t_userId t) d = Some u \<and> u_id u = t_userId t \<and>
      d' = reset_done c env newPassword ctx u d) \<and>
    (\<forall>d2 env2 pw2 ctx2. (token_step c)\<^sup>*\<^sup>* d' d2 \<longrightarrow>
      resetPassword_service c env2 token pw2 ctx2 d2 = (Inl invalid_or_expired, d2))"
proof -
  obtain t u where t: "find (usable_token (sup_pgNow env) (sha256Hex c token)) (resetTokens d) = Some t"
    and u: "findUserById (t_userId t) d = Some u" "u_id u = t_userId t"
    and d': "d' = reset_done c env newPassword ctx u d"
    using assms by (rule reset_service_done)
  have "spent_hash (sha256Hex c token) (resetTokens d')"
    unfolding d' by (rule reset_done_spends [OF t u(2) assms(2)])
  then have "resetPassword_service c env2 token pw2 ctx2 d2 = (Inl invalid_or_expired, d2)"
    if "(token_step c)\<^sup>*\<^sup>* d' d2" for d2 env2 pw2 ctx2
    by (rule spent_hash_refused [OF spent_hash_steps [OF that]])
  moreover from find_SomeD [OF t] have "t \<in> set (resetTokens d)" "t_tokenHash t = sha256Hex c token"
    "t_usedAt t = None" "sup_pgNow env < t_expiresAt t"
    by (auto simp: usable_token_def)
  ultimately show ?thesis using u d' by blast
qed

text \<open>A link used, and tried again after a round of the dispatcher replaced the user's tokens.\<close>

definition reset_mail :: mail_state where
  "reset_mail = \<lparr>ms_db = demo_reset\<lparr>outbox := outbox demo_reset @ [outbox_row0\<lparr>o_id := ''o0'', o_createdAt := 1,
      o_kind := Kind_PASSWORD_RESET\<rparr>]\<rparr>, ms_delivered = [], ms_attempted = [], ms_handed = []\<rparr>"

definition reset_mailed :: mail_state where
  "reset_mailed = snd (dispatchNext (plain_round 0\<lparr>dr_raw := ''T2''\<rparr>) []
     (handle_entry (\<lambda>_. True) mail_options demo_crypto (plain_round 0\<lparr>dr_raw := ''T2''\<rparr>)) reset_mail)"

lemma reset_mailed_later: "(token_step demo_crypto)\<^sup>*\<^sup>* demo_reset (ms_db reset_mailed)"
proof -
  have "token_step demo_crypto demo_reset (ms_db reset_mail)"
    by (rule tokens_other) (simp add: reset_mail_def)
  moreover have "token_step demo_crypto (ms_db reset_mail) (ms_db reset_mailed)"
    unfolding reset_mailed_def by (rule tokens_dispatch [OF prod.collapse [symmetric]])
  ultimately show ?thesis by (meson converse_rtranclp_into_rtranclp r_into_rtranclp)
qed

theorem resetPassword_effect_witness:
  "map t_tokenHash (filter (\<lambda>t. t_usedAt t = None) (resetTokens (ms_db reset_mailed))) = [''#T2''] \<and>
   resetPassword_service demo_crypto demo_env ''T'' ''again'' demo_ctx (ms_db reset_mailed)
    = (Inl invalid_or_expired, ms_db reset_mailed)"
proof -
  have "resetPassword_service demo_crypto demo_env ''T'' ''new'' demo_ctx demo_tokens = (Inr (), demo_reset)"
    by code_simp
  moreover have "distinct (map t_tokenHash (resetTokens demo_tokens))" by code_simp
  ultimately have "(token_step demo_crypto)\<^sup>*\<^sup>* demo_reset d2 \<Longrightarrow>
      resetPassword_service demo_crypto demo_env ''T'' ''again'' demo_ctx d2 = (Inl invalid_or_expired, d2)" for d2
    using resetPassword_effect by blast
  moreover have "map t_tokenHash (filter (\<lambda>t. t_usedAt t = None) (resetTokens (ms_db reset_mailed))) = [''#T2'']"
    by code_simp
  ultimately show ?thesis using reset_mailed_later by blast
qed

end
