(* ===== verification/File_Travel.thy ===== *)
theory File_Travel
  imports Web_Site Lifecycle S3_Storage
begin

text \<open>
  The name of a file on its whole way: encoded by the browser's client (\<open>client_headers\<close>), read by
  the upload route (\<open>fileNameOf\<close>), stored with the document (\<open>createDocument\<close>), kept along the life of
  the row (\<open>doc_step\<close>), handed to the storage with the download (\<open>createDownloadUrl\<close>), and sent back
  in the disposition the URL is signed with (\<open>s3_createDownloadUrl\<close>).
\<close>

section \<open>From the browser to the route\<close>

lemma set_header_same: "map_of (set_header n v hs) n = Some v"
  by (induction hs) (auto simp: set_header_def)

lemma set_header_other: "n \<noteq> m \<Longrightarrow> map_of (set_header n v hs) m = map_of hs m"
  by (induction hs) (auto simp: set_header_def)

lemma client_file_header:
  assumes "client_headers init = Inr hs" and "ci_file init = Some (content, original)"
  shows "map_of hs ''x-file-name'' = encodeURIComponent original" and "encodeURIComponent original \<noteq> None"
proof -
  obtain e where "encodeURIComponent original = Some e"
    using assms by (auto simp: client_headers_def Let_def split: option.splits sum.splits)
  with assms show "map_of hs ''x-file-name'' = encodeURIComponent original" "encodeURIComponent original \<noteq> None"
    by (auto simp: client_headers_def Let_def set_header_same set_header_other split: option.splits if_splits)
qed

lemma client_file_name:
  assumes "client_headers init = Inr hs" and "ci_file init = Some (content, original)"
    and "fileNameOf (firstHeader (header_of ''x-file-name'' hs)) = Inr name"
  shows "name = trim_text original"
proof -
  obtain e where e: "encodeURIComponent original = Some e" "map_of hs ''x-file-name'' = Some e"
    using client_file_header [OF assms(1,2)] by auto
  then have "firstHeader (header_of ''x-file-name'' hs) = Some e"
    by (simp add: firstHeader_def header_of_def)
  with assms(3) have "fileNameOf (Some e) = Inr name" by simp
  then obtain t where "decodeURIComponent e = Some t" "name = trim_text t"
    by (rule fileNameOf_Inr) auto
  with decode_encode [OF e(1)] show ?thesis by simp
qed

section \<open>From the route to the row\<close>

lemma catchE_eq_Inr:
  "catchE m h s = (Inr x, s') \<longleftrightarrow> m s = (Inr x, s') \<or> (\<exists>e s1. m s = (Inl e, s1) \<and> h e s1 = (Inr x, s'))"
  by (auto simp: catchE_def split: prod.splits sum.splits)

lemma orphan: "bindE (removeOrphan env key) (\<lambda>_. throwE e) v \<noteq> (Inr x, v')"
  by (simp add: bindE_eq_Inr)

lemma store_upload_row:
  assumes "store_upload env sent key content t input w = (Inr doc, w')"
  shows "\<exists>now. find_document (cd_id input) (w_db w') = Some (new_document input now) \<and>
    doc = toPublicDocument (new_document input now)"
proof -
  obtain w2 x w3 where c3: "call env 3 (\<lambda>now. in_db (createDocument sent now input)) w2 = (Inr x, w3)"
    and rest: "(case x of Created r \<Rightarrow> returnE (toPublicDocument r)
      | Quota_exceeded \<Rightarrow> bindE (removeOrphan env key) (\<lambda>_. throwE quotaExceeded)
      | Case_not_writable \<Rightarrow> bindE (removeOrphan env key) (\<lambda>_. throwE notFound)) w3 = (Inr doc, w')"
    using assms orphan by (auto simp: store_upload_def bindE_eq_Inr catchE_eq_Inr)
  obtain r where w2: "call env 3 (\<lambda>now. in_db (createDocument sent now input)) w2 = (Inr (Created r), w')"
    and doc: "doc = toPublicDocument r"
    using c3 rest by (cases x) (auto simp: bindE_eq_Inr)
  let ?d = "w_db (ce_during env 3 w2)"
  have run: "in_db (createDocument sent (ce_clock env 3) input) (ce_during env 3 w2) = (Inr (Created r), w')"
    using w2 by (simp add: call_def faulty_Inr)
  show ?thesis
  proof (cases rule: createDocument_cases [of sent "ce_clock env 3" input ?d])
    case created
    with run have r: "r = new_document input (ce_clock env 3)" "w_db w' = created_db (ce_clock env 3) input ?d"
      by (auto simp: in_db_def)
    have "find_document (cd_id input) ?d = None"
      using created(3) by (auto simp: taken_def find_document_def find_None_iff)
    with find_created [of "w_db w'" ?d r] r doc show ?thesis
      by (intro exI [of _ "ce_clock env 3"]) (simp add: new_document_id)
  next
    case (refused x)
    with run show ?thesis by (auto simp: in_db_def)
  qed
qed

lemma upload_row:
  assumes "uploadDocument env sent opts newId cur case_id fileName content ctx w = (Inr doc, w')"
  shows "\<exists>r. find_document newId (w_db w') = Some r \<and> d_fileName r = fileName \<and> doc = toPublicDocument r"
proof -
  obtain t key w1 where "store_upload env sent key content t
      (upload_input newId case_id cur fileName content t key ctx) w1 = (Inr doc, w')"
    using assms by (auto simp: uploadDocument_def bindE_eq_Inr Let_def split: if_splits option.splits)
  from store_upload_row [OF this] show ?thesis
    by (auto simp: upload_input_def new_document_def)
qed

lemma lift_io_Inr: "lift_io m s = (Inr x, s') \<longleftrightarrow> (\<exists>w. m (as_world s) = (Inr x, w) \<and> s' = s\<lparr>as_world := w\<rparr>)"
  by (auto simp: lift_io_def split: prod.splits sum.splits)

lemma upload_route_row:
  assumes "route cfg re POST_document req s = (Inr rep, s')"
  shows "\<exists>name doc r. fileNameOf (firstHeader (rq_fileName req)) = Inr name \<and> rp_body rep = B_document doc \<and>
    find_document (re_newId re) (w_db (as_world s')) = Some r \<and> d_fileName r = name \<and> doc = toPublicDocument r"
proof -
  obtain cur s1 where "acting_user cfg re req s = (Inr cur, s1)" and rest: "with_body req (found (uuid_param cfg ''caseId'' req)
      (\<lambda>case_id. case rq_body req of
         Raw content \<Rightarrow>
           bindE (check (fileNameOf (firstHeader (rq_fileName req)))) (\<lambda>fileName.
           bindE (lift_io (uploadDocument (re_upload re) (re_sent re) (ac_documents cfg) (re_newId re)
              cur case_id fileName content (requestContext req))) (\<lambda>doc.
           returnE (answer 201 (B_document doc))))
       | _ \<Rightarrow> throwH unsupportedBody)) s1 = (Inr rep, s')"
    using assms by (auto simp: upload_route_def bindE_eq_Inr)
  then obtain case_id content where "uuid_param cfg ''caseId'' req = Some case_id" "rq_body req = Raw content"
    by (auto simp: with_body_def found_def throwH_def split: option.splits body.splits)
  with rest obtain name where name: "fileNameOf (firstHeader (rq_fileName req)) = Inr name"
    and rest': "bindE (lift_io (uploadDocument (re_upload re) (re_sent re) (ac_documents cfg) (re_newId re)
        cur case_id name content (requestContext req))) (\<lambda>doc. returnE (answer 201 (B_document doc))) s1 = (Inr rep, s')"
    by (auto simp: with_body_def found_def check_def bindE_eq_Inr split: sum.splits)
  then obtain doc w' where up: "uploadDocument (re_upload re) (re_sent re) (ac_documents cfg) (re_newId re)
      cur case_id name content (requestContext req) (as_world s1) = (Inr doc, w')"
    and rest: "rep = answer 201 (B_document doc)" "as_world s' = w'"
    by (auto simp: bindE_eq_Inr lift_io_Inr)
  from upload_row [OF up] name rest show ?thesis
    by (auto simp: answer_def)
qed

section \<open>The property\<close>

lemma later_name:
  assumes "doc_step\<^sup>*\<^sup>* d d'" and "db_ok d" and "find_document i d = Some r"
  obtains r' where "find_document i d' = Some r'" and "d_fileName r' = d_fileName r"
  using steps_row [OF assms] by (auto simp: identity_def)

lemma url_name:
  assumes "createDownloadUrl opts now cur case_id i w = (Inr (url, expiry), w')" and "db_ok (w_db w)"
    and "find_document i (w_db w) = Some r"
  shows "dl_fileName (last (w_urls w')) = d_fileName r"
proof -
  obtain r' where own: "findOwnDocument i case_id (pu_id (cur_user cur)) (w_db w) = Some r'"
    and url: "dl_fileName (last (w_urls w')) = d_fileName r'"
    using createDownloadUrl_Inr [OF assms(1)] by auto
  then have "r' \<in> set (documents (w_db w))" "d_id r' = i"
    by (auto simp: findOwnDocument_def dest: find_SomeD)
  moreover have "r \<in> set (documents (w_db w))" "d_id r = i"
    using assms(3) by (auto simp: find_document_def dest: find_SomeD)
  moreover have "distinct (map d_id (documents (w_db w)))"
    using assms(2) by (simp add: db_ok_def rows_ok_def unique_documents_def)
  ultimately have "r' = r" by (auto dest: unique_key)
  with url show ?thesis by simp
qed

text \<open>The disposition a name is signed with.\<close>

definition disposition_of :: "string \<Rightarrow> string \<Rightarrow> string" where
  "disposition_of fallback ext = ''attachment; filename='' @ [CHR 0x22] @ fallback @ [CHR 0x22]
     @ ''; filename*=UTF-8'' @ [CHR 0x27, CHR 0x27] @ ext"

text \<open>
  C32. The name of a file survives its whole way, trimmed. When the browser's client sends a file
  called \<open>original\<close> and the upload route answers with success, the answer and the stored document have
  the name \<open>original\<close> without the white space around it, of 1 to 255 units without path separators or
  control characters; the document keeps it in every later state of the system, every download
  URL of it is asked for with that name, and the storage signs each with a disposition of which
  nothing can leave the quotes or the parameter it stands in, and whose extended value decodes to
  exactly that name.
\<close>

theorem file_name_travels:
  assumes "client_headers init = Inr hs" and "ci_file init = Some (content, original)"
    and "rq_fileName req = header_of ''x-file-name'' hs"
    and "route cfg re POST_document req s = (Inr rep, s')"
    and "db_ok (w_db (as_world s'))" and "doc_step\<^sup>*\<^sup>* (w_db (as_world s')) (w_db w)"
  shows "1 \<le> length (trim_text original) \<and> length (trim_text original) \<le> 255 \<and>
    \<not> list_ex forbidden_unit (trim_text original) \<and>
    (\<exists>doc. rp_body rep = B_document doc \<and> pd_fileName doc = trim_text original) \<and>
    (\<exists>r. find_document (re_newId re) (w_db w) = Some r \<and> d_fileName r = trim_text original) \<and>
    (\<forall>opts now cur case_id url expiry w'.
       createDownloadUrl opts now cur case_id (re_newId re) w = (Inr (url, expiry), w') \<longrightarrow>
       dl_fileName (last (w_urls w')) = trim_text original) \<and>
    (\<exists>fallback ext. list_all quoted_char fallback \<and> list_all value_char ext \<and>
       decodeURIComponent ext = Some (trim_text original) \<and>
       (\<forall>sign p dl. dl_fileName dl = trim_text original \<longrightarrow>
          s3_createDownloadUrl sign p dl = Inr (sign (s3_presignClient p)
            \<lparr>go_Bucket = s3_bucket p, go_Key = dl_key dl,
             go_ResponseContentDisposition = Some (disposition_of fallback ext),
             go_ResponseContentType = Some (dl_contentType dl)\<rparr> (dl_expiresInSeconds dl))))"
proof -
  obtain name doc r where name: "fileNameOf (firstHeader (rq_fileName req)) = Inr name"
    and row: "rp_body rep = B_document doc" "find_document (re_newId re) (w_db (as_world s')) = Some r"
      "d_fileName r = name" "doc = toPublicDocument r"
    using upload_route_row [OF assms(4)] by blast
  have trimmed: "name = trim_text original"
    by (rule client_file_name [OF assms(1,2)]) (use name assms(3) in simp)
  obtain r' where r': "find_document (re_newId re) (w_db w) = Some r'" "d_fileName r' = name"
    by (rule later_name [OF assms(6,5) row(2)]) (simp add: row(3))
  have ok: "db_ok (w_db w)" by (rule db_ok_steps [OF assms(6,5)])
  have urls: "dl_fileName (last (w_urls w')) = name"
    if "createDownloadUrl opts now cur case_id (re_newId re) w = (Inr (url, expiry), w')" for opts now cur case_id url expiry w'
    using url_name [OF that ok r'(1)] r'(2) by simp
  obtain fallback ext where "attachmentDisposition name = Some (disposition_of fallback ext)"
    and parts: "list_all quoted_char fallback" "list_all value_char ext" "decodeURIComponent ext = Some name"
    using accepted_name [OF name] unfolding disposition_of_def by blast
  then have signed: "s3_createDownloadUrl sign p dl = Inr (sign (s3_presignClient p)
      \<lparr>go_Bucket = s3_bucket p, go_Key = dl_key dl, go_ResponseContentDisposition = Some (disposition_of fallback ext),
       go_ResponseContentType = Some (dl_contentType dl)\<rparr> (dl_expiresInSeconds dl))"
    if "dl_fileName dl = name" for sign p dl
    using that by (simp add: s3_createDownloadUrl_def)
  have limits: "1 \<le> length name" "length name \<le> 255" "\<not> list_ex forbidden_unit name"
    using accepted_name [OF name] by blast+
  have answered: "\<exists>doc. rp_body rep = B_document doc \<and> pd_fileName doc = name"
    using row by (simp add: toPublicDocument_def)
  show ?thesis
    unfolding trimmed [symmetric] using limits answered r' urls parts signed by blast
qed


section \<open>One file on its way\<close>

definition spaced_name :: js_text where
  "spaced_name = [0x20, 0x61]"

definition named_file :: client_init where
  "named_file = \<lparr>ci_method = ''POST'', ci_body = None, ci_csrfToken = Some ''C'', ci_file = Some (pdf_bytes, spaced_name)\<rparr>"

definition case_state :: api_state where
  "case_state = after_login\<lparr>as_world := (as_world after_login)\<lparr>w_db := (w_db (as_world after_login))\<lparr>cases := cases one_case\<rparr>\<rparr>\<rparr>"

definition file_request :: request where
  "file_request = (case_request (One ''https://app.co'') (One ''C''))\<lparr>rq_params := [(''caseId'', ''c1'')],
     rq_fileName := One ''%20a'', rq_body := Raw pdf_bytes\<rparr>"

definition file_run :: "(failure + reply) \<times> api_state" where
  "file_run = route web_cfg (web_env\<lparr>re_newId := ''d1''\<rparr>) POST_document file_request case_state"

text \<open>The reply, and the tables the upload leaves: the row that \<open>createDocument\<close> writes.\<close>

definition file_reply :: reply where
  "file_reply = answer 201 (B_document (toPublicDocument (new_document pdf_input 4000)))"

definition put_db :: db where
  "put_db = snd (createDocument True 4000 pdf_input one_case)"

definition filed_db :: db where
  "filed_db = w_db (as_world (snd file_run))"

definition file_claim :: scan_claim where
  "file_claim = to_scan_claim 9000 (start_scan 9000 (hd (documents filed_db)))"

definition treated_db :: db where
  "treated_db = snd (close_scan (Close_clean None 9900 None) file_claim (snd (claim_scan ''d1'' 60 9000 filed_db)))"

lemma file_run_reply: "fst file_run = Inr file_reply"
  by code_simp

lemma filed_tables:
  "documents filed_db = documents put_db" "cases filed_db = cases put_db"
  "ocrResults filed_db = ocrResults put_db" "ocrPages filed_db = ocrPages put_db"
  by code_simp+

lemma filed_steps: "doc_step\<^sup>*\<^sup>* empty_db filed_db"
proof -
  have "doc_step empty_db one_case"
    unfolding one_case_def by (rule step_case) (rule prod.collapse [symmetric])
  moreover have "doc_step one_case put_db"
    unfolding put_db_def
    by (rule step_upload [of pdf_input]) (simp add: pdf_input_def upload_input_def, rule prod.collapse [symmetric])
  moreover have "doc_step put_db filed_db" by (rule step_elsewhere [OF filed_tables])
  ultimately show ?thesis by (meson r_into_rtranclp rtranclp.rtrancl_into_rtrancl)
qed

lemma filed_row: "documents filed_db = [new_document pdf_input 4000]"
  unfolding filed_tables by code_simp

lemma treated_steps: "doc_step\<^sup>*\<^sup>* filed_db treated_db"
proof -
  let ?claimed = "snd (claim_scan ''d1'' 60 9000 filed_db)"
  have claimed: "doc_step filed_db ?claimed" by (rule step_scan_claim) (rule prod.collapse [symmetric])
  have "find_document ''d1'' ?claimed = Some (start_scan 9000 (new_document pdf_input 4000))"
    by code_simp
  then have genuine: "genuine file_claim ?claimed"
    by (auto simp: genuine_def file_claim_def filed_row to_scan_claim_def start_scan_def new_document_def pdf_input_def upload_input_def)
  have copy: "names_copy (Close_clean None 9900 None) file_claim"
    by (simp add: file_claim_def filed_row to_scan_claim_def start_scan_def new_document_def pdf_input_def upload_input_def
      copy_key_def)
  have "doc_step ?claimed treated_db"
    unfolding treated_db_def by (rule step_scan_close [OF genuine copy]) (rule prod.collapse [symmetric])
  with claimed show ?thesis by (meson r_into_rtranclp rtranclp.rtrancl_into_rtrancl)
qed

lemma named_headers:
  obtains hs where "client_headers named_file = Inr hs" and "header_of ''x-file-name'' hs = One ''%20a''"
proof -
  have "encodeURIComponent spaced_name = Some ''%20a''"
    by (simp add: spaced_name_def encodeURIComponent_def encode_point_def unreserved_def utf8_octets_def
      percent_def upper_hex_def
      high_surrogate_def low_surrogate_def) code_simp
  then show ?thesis
    by (intro that [of "[(''accept'', ''application/json''), (''content-type'', ''application/octet-stream''),
        (''x-file-name'', ''%20a''), (''x-csrf-token'', ''C'')]"])
      (simp_all add: client_headers_def named_file_def set_header_def header_of_def)
qed

theorem file_name_travels_witness:
  "rp_status file_reply = 201 \<and> trim_text spaced_name = [0x61] \<and>
   (\<exists>r. find_document ''d1'' treated_db = Some r \<and> d_status r = CLEAN \<and> d_fileName r = [0x61]) \<and>
   (\<exists>url expiry w'. createDownloadUrl test_options 9999 (owner ''u1'') ''c1'' ''d1'' (world_of treated_db) = (Inr (url, expiry), w')
     \<and> dl_fileName (last (w_urls w')) = [0x61])"
proof -
  obtain hs where hs: "client_headers named_file = Inr hs" "header_of ''x-file-name'' hs = One ''%20a''"
    by (rule named_headers)
  have run: "route web_cfg (web_env\<lparr>re_newId := ''d1''\<rparr>) POST_document file_request case_state = (Inr file_reply, snd file_run)"
    using file_run_reply by (simp add: file_run_def prod_eq_iff)
  have sent: "ci_file named_file = Some (pdf_bytes, spaced_name)" "rq_fileName file_request = header_of ''x-file-name'' hs"
    using hs by (simp_all add: named_file_def file_request_def)
  have trim: "trim_text spaced_name = [0x61]" by (simp add: spaced_name_def trim_text_def js_white_def)
  have ok: "db_ok (w_db (as_world (snd file_run)))"
    using reachable_ok [OF filed_steps] by (simp add: filed_db_def)
  have later: "doc_step\<^sup>*\<^sup>* (w_db (as_world (snd file_run))) (w_db (world_of treated_db))"
    using treated_steps by (simp add: filed_db_def world_of_def)
  note travels = file_name_travels [OF hs(1) sent run ok later, unfolded trim]
  have clean: "map_option d_status (find_document ''d1'' treated_db) = Some CLEAN"
    by code_simp
  let ?get = "createDownloadUrl test_options 9999 (owner ''u1'') ''c1'' ''d1'' (world_of treated_db)"
  have "map_option snd (case fst ?get of Inl e \<Rightarrow> None | Inr x \<Rightarrow> Some x) = Some 69999" by code_simp
  then obtain url expiry where "fst ?get = Inr (url, expiry)" by (auto split: sum.splits)
  then have get: "?get = (Inr (url, expiry), snd ?get)" by (simp add: prod_eq_iff)
  have "re_newId (web_env\<lparr>re_newId := ''d1''\<rparr>) = ''d1''" by simp
  note travels = travels [unfolded this]
  have "dl_fileName (last (w_urls (snd ?get))) = [0x61]" using travels get by blast
  moreover have "\<exists>r. find_document ''d1'' treated_db = Some r \<and> d_status r = CLEAN \<and> d_fileName r = [0x61]"
    using travels clean by (auto simp: world_of_def)
  moreover have "rp_status file_reply = 201" by (simp add: file_reply_def answer_def)
  ultimately show ?thesis using trim get by blast
qed

end
