(* ===== verification/Spec2Isabelle.thy ===== *)
theory Spec2Isabelle
  imports Auth_Limits Rate_Limiter System_Runs Outbox Route_Errors Config Seed Web_Theorems
    Auth_Double_Mirror Case_Doubles Ocr_Double Commands Processes Web_Forms Reset_Tokens File_Travel
begin

text \<open>
  A model of the case platform of this repository, in one library of theories, with the theorems
  that make it correct.

  \<^bold>\<open>The program.\<close> Users open an account, create cases and upload documents in the web application
  (apps/web). The web application talks to the API (apps/api) only, by its own origin: a proxy
  forwards \<open>/api/\<close>. The API keeps accounts, sessions, cases and documents in one database, stores
  the files in an object storage (packages/storage), and asks for the treatment of a document by a
  job it inserts in the transaction that creates its row. The worker (apps/worker) takes the jobs:
  it scans a document with the antivirus, copies an image without its metadata, marks it CLEAN,
  INFECTED or SCAN_FAILED, and, when the OCR is on, obtains its text. A periodic sweep takes back
  what a dead worker abandoned. Emails are entries of an outbox table, sent by a dispatcher. The
  shapes the three share are in packages/contracts.

  \<^bold>\<open>The state and the errors.\<close> \<open>Database\<close> is the schema: one record \<open>db\<close> whose fields are the tables,
  lists of row records. \<open>Storage\<close> adds the object storage and the log of what a process reports:
  the record \<open>world\<close>. A program is a function from a state to an error or a value, and the state it
  leaves (\<open>prog\<close>, \<open>tx\<close>, \<open>io\<close> of \<open>Prelude\<close>); \<open>exn\<close> has the errors the code throws. A repository
  operation is one transaction, atomic. A call from a service or a worker to the database, the
  storage or the queue is numbered, and an environment (\<open>call_env\<close>) decides what the other
  processes do to the world before it, and whether it fails before or after its effect; clocks,
  identifiers and random secrets are arguments.

  \<^bold>\<open>Accounts\<close> (apps/api/src/modules/auth, apps/api/src/security). \<open>Auth_Throttle\<close>: the limits and
  the progressive delay (auth.email-settings.ts, auth.service.ts). \<open>Auth_Repository\<close>:
  auth.repository.ts, with what every operation keeps of the sessions. \<open>Auth_Session\<close>:
  auth.session.ts, crypto.ts, password.ts. \<open>Auth_Service\<close>: auth.service.ts. \<open>Auth_Steps\<close>: the
  steps a database takes by these services, and the invariant they keep. \<open>Auth_Theorems\<close> and
  \<open>Auth_Limits\<close>: sessions, login, rotation; the number of wrong passwords in an interval.
  \<open>Reset_Tokens\<close>: what a password reset leaves, row by row, and that its link stays spent along the
  steps that follow (\<open>token_step\<close>).
  \<open>Rate_Limiter\<close>: rate-limiter.ts and its bound. \<open>Policies\<close>: the three deny-by-default policies,
  one interface. \<open>Seed\<close>: the seed of internal accounts over the interface of its store.

  \<^bold>\<open>Cases and documents\<close> (apps/api/src/modules/cases, documents). \<open>Cases\<close>: the transition table and
  the three operations. \<open>Documents\<close>: documents.repository.ts, documents.service.ts, file-type.ts,
  job-queue.ts. \<open>Documents_Theorems\<close>: an upload however its calls fail, isolation of owners, the
  administrators' requests. \<open>File_Names\<close>: the name of a file through a header, the schema and
  Content-Disposition (UTF-16, UTF-8, percent encoding). \<open>File_Travel\<close>: that name from the
  browser's client through the route, the row and its life to the signed disposition of a download.

  \<^bold>\<open>Worker.\<close> \<open>Claims\<close>: the fenced updates that claims share. \<open>Scan_Repository\<close>, \<open>Scan_Document\<close>:
  scan.repository.ts and scan-document.ts, with the reference \<open>treated\<close> the treatment equals.
  \<open>Antivirus\<close>: clamav.ts, as a step function on the events of the socket. \<open>Image_Metadata\<close>:
  image-metadata.ts on bytes, and what the copies hold. \<open>Ocr_Repository\<close>, \<open>Ocr_Document\<close>,
  \<open>Ocr_Theorems\<close>: the OCR jobs. \<open>Worker_Queue\<close>, \<open>Worker_Theorems\<close>: queue.ts, ocr-queue.ts,
  ocr-activation.ts. \<open>Lifecycle\<close>: the documents of the whole system as a step relation, its
  invariant, and the machine of the documentation it refines. \<open>System_Runs\<close>: every job, sweep,
  upload and request is a sequence of those steps, whatever fails and interferes.

  \<^bold>\<open>Requests.\<close> \<open>Net\<close>, \<open>Http\<close>: client address, guards, cookies, error handler. \<open>Routes\<close>: every route
  as a program over the world and the limiters of the process. \<open>Route_Guards\<close>: forged requests
  change nothing on the POST and DELETE routes, the administrators' routes tell nothing to others.
  \<open>Route_Errors\<close>: no error text but the public ones. \<open>Numbers\<close>: ECMAScript's \<open>Number\<close> of a string, for environment variables and lengths.
  \<open>Config\<close>: the environment of the API, the storage and the worker, and what main.ts builds of it.
  \<open>Outbox\<close>: the dispatcher, its composers and the link of an email; the field \<open>ms_handed\<close> of its
  state is no part of the code: it keeps which entries were handed to their handler, in order.
  \<open>Commands\<close>: the commands that
  dispatch emails to files and activate the OCR (transports.ts, dispatch-emails.cli.ts,
  activate-ocr.ts). \<open>S3_Storage\<close>: the storage over an S3-compatible service and the bucket of
  development (packages/storage/src/s3-storage.ts, dev-bucket.ts, create-bucket.cli.ts).
  \<open>Processes\<close>: the start and the shutdown of both processes (main.ts, server.ts), step by step and
  whatever fails.

  \<^bold>\<open>Test doubles.\<close> The tests run the services on in-memory repositories. \<open>Doubles\<close>: what they share,
  and the one of the outbox. \<open>Auth_Double\<close>, \<open>Auth_Double_Mirror\<close>: auth.repository.fake.ts.
  \<open>Case_Doubles\<close>: cases.repository.fake.ts and documents.repository.fake.ts. \<open>Scan_Double\<close>,
  \<open>Ocr_Double\<close>: the two of apps/worker/src/test-support. Each is related to its repository over
  PostgreSQL: on any sequence of calls both give the same answers and keep the same tables, as long
  as a call reads one instant, new identifiers are new and leases are those named for each; the
  calls outside these conditions, where the two differ, are lemmas beside them.

  \<^bold>\<open>Web application.\<close> \<open>Web_Client\<close>: api-client.ts over a \<open>fetch\<close> it is given. \<open>Web_Server\<close>: the
  reads of the web server, the middleware, the upload guard, the policy, the proxy. \<open>Web_Pages\<close>:
  the labels, the pages and the forms. \<open>Web_Site\<close>: the registered routes, the browser, and the
  interfaces to the router and \<open>fetch\<close>; a request of the browser goes through the middleware of the
  web origin and the buffer of its proxy (\<open>delivered\<close>, \<open>first_party\<close>).
  \<open>Web_Sessions\<close>, \<open>Web_Requests\<close>, \<open>Web_Reads\<close>: a session in use through requests and reads. \<open>Web_Theorems\<close>: a case from its form to its page, the end of a
  session, visitors, the emailed link, the upload guard. \<open>Web_Ocr_View\<close>: what a page shows of a
  document's OCR, always after its warning. \<open>Web_Forms\<close>: the state of each form and button between
  the events of the browser, what it renders of it, and that it has one request on its way at most.

  \<^bold>\<open>Interfaces.\<close> Locales state what one part relies on of another, and each is interpreted on the
  model's own definitions: \<open>deny_by_default\<close> (the policies), \<open>one_time_token\<close> (both kinds of token),
  \<open>progressive_delay\<close> (the three throttles), \<open>object_store\<close> (the storage),
  \<open>fenced_claim\<close> (the scan and OCR claims), \<open>seed_contract\<close> (the store of the seed), \<open>web_site\<close> and
  \<open>web_pages\<close> (router, browser and web server), \<open>s3_service\<close> (what the S3 provider relies on, which
  makes it an \<open>object_store\<close>), \<open>repository_double\<close> (each double against its repository).

  \<^bold>\<open>Loops and bounds.\<close> The byte walks of the sanitizer, the decoders and the dispatcher's loop
  recurse with termination proofs; the dispatcher's limit of rounds is the code's own, so no
  definition takes fuel. Machine integers are words where their width matters (bytes, UTF-16 units, the
  lock key); JavaScript numbers that count are integers, and the ones read from text are doubles
  (\<open>Numbers\<close>).

  \<^bold>\<open>Parameters.\<close> SHA-256, argon2 and random generation (\<open>crypto\<close>), zod's email, UUID and URL checks
  and the texts of its issues, the URL parser, NFC, the OCR provider, the socket to clamd, the AWS
  SDK's clients and presigner, the email transport, pg-boss (whether a job was inserted), how a locale writes dates, Fastify's router and
  body parser, \<open>fetch\<close> and Next.js. What the properties rely on of them is a named hypothesis.

  \<^bold>\<open>Conventions.\<close> Times of the API are milliseconds, those of claims microseconds. Texts of the
  account modules and of the web are limited to code units below 256; accents and typographic signs
  of messages are dropped. Bodies of replies stay typed on the client's side: a missing property is
  None.

  \<^bold>\<open>Not modelled.\<close> The Prisma client and the schema's migrations, but for the constraints the code
  relies on; logging but for the reports the properties mention; the styles of the pages and
  the static ones; the helpers that build an application or a database
  for a test; and the packages that are still empty (pricing-engine, legal-engine, ai).
\<close>

end
